(* ===== verification/Prelude.thy ===== *)
theory Prelude
  imports Main "HOL-Library.Word" "HOL-Library.Char_ord" "HOL-Library.List_Lexorder"
    "HOL-Library.Product_Lexorder"
begin

text \<open>
  What the components share: the result type of the Rust code and its \<open>?\<close> operator, the
  relational operations the SQL statements are made of (\<open>UPDATE ... WHERE\<close>, \<open>DELETE ... WHERE\<close>,
  \<open>ORDER BY\<close>, \<open>LIMIT\<close>, \<open>COALESCE\<close>) on tables that are lists of rows in rowid order, the
  saturating and checked 64-bit arithmetic of the standard library, and big-endian byte strings.
\<close>

named_theorems sql_simps \<open>rewrite rules for the relational operations\<close>
named_theorems arith64_defs \<open>definitions of the 64-bit integer operations\<close>

type_synonym byte = "8 word"
type_synonym bytes = "byte list"
type_synonym u32 = "32 word"
type_synonym u64 = "64 word"

section \<open>Results\<close>

text \<open>
  \<open>Result<T, E>\<close> is \<open>'e + 'a\<close>, the error on the left; \<open>bindR\<close> is the \<open>?\<close> operator and
  \<open>map_err\<close> the adaptor of the same name.
\<close>

definition bindR :: "'e + 'a \<Rightarrow> ('a \<Rightarrow> 'e + 'b) \<Rightarrow> 'e + 'b" where
  "bindR r f = (case r of Inl e \<Rightarrow> Inl e | Inr x \<Rightarrow> f x)"

definition map_err :: "('e \<Rightarrow> 'f) \<Rightarrow> 'e + 'a \<Rightarrow> 'f + 'a" where
  "map_err g r = (case r of Inl e \<Rightarrow> Inl (g e) | Inr x \<Rightarrow> Inr x)"

definition ok_or :: "'e \<Rightarrow> 'a option \<Rightarrow> 'e + 'a" where
  "ok_or e r = (case r of None \<Rightarrow> Inl e | Some x \<Rightarrow> Inr x)"

lemma bindR_simps [simp]: "bindR (Inl e) f = Inl e" "bindR (Inr x) f = f x"
  by (simp_all add: bindR_def)

lemma map_err_simps [simp]: "map_err g (Inl e) = Inl (g e)" "map_err g (Inr x) = Inr x"
  by (simp_all add: map_err_def)

lemma ok_or_simps [simp]: "ok_or e None = Inl e" "ok_or e (Some x) = Inr x"
  by (simp_all add: ok_or_def)

lemma bindR_eq_Inr: "bindR r f = Inr y \<longleftrightarrow> (\<exists>x. r = Inr x \<and> f x = Inr y)"
  by (cases r) auto

lemma bindR_eq_Inl: "bindR r f = Inl e \<longleftrightarrow> r = Inl e \<or> (\<exists>x. r = Inr x \<and> f x = Inl e)"
  by (cases r) auto

lemma map_err_eq_Inr: "map_err g r = Inr x \<longleftrightarrow> r = Inr x"
  by (cases r) auto

lemma ok_or_eq_Inr: "ok_or e r = Inr x \<longleftrightarrow> r = Some x"
  by (cases r) auto

lemmas result_elims = bindR_eq_Inr map_err_eq_Inr ok_or_eq_Inr

section \<open>Relational operations\<close>

text \<open>
  A table is the list of its rows in rowid order. \<open>rows_affected\<close> is what the driver reports for
  an \<open>UPDATE\<close> or a \<open>DELETE\<close>. A negative \<open>LIMIT\<close> is no limit, as in SQLite.
\<close>

definition update_where :: "('r \<Rightarrow> bool) \<Rightarrow> ('r \<Rightarrow> 'r) \<Rightarrow> 'r list \<Rightarrow> 'r list" where
  "update_where P f t = map (\<lambda>r. if P r then f r else r) t"

definition delete_where :: "('r \<Rightarrow> bool) \<Rightarrow> 'r list \<Rightarrow> 'r list" where
  "delete_where P t = filter (\<lambda>r. \<not> P r) t"

definition rows_affected :: "('r \<Rightarrow> bool) \<Rightarrow> 'r list \<Rightarrow> nat" where
  "rows_affected P t = length (filter P t)"

definition sql_limit :: "int \<Rightarrow> 'r list \<Rightarrow> 'r list" where
  "sql_limit n t = (if n < 0 then t else take (nat n) t)"

definition fetch_optional :: "'r list \<Rightarrow> 'r option" where
  "fetch_optional t = (case t of [] \<Rightarrow> None | r # _ \<Rightarrow> Some r)"

definition coalesce :: "'a option \<Rightarrow> 'a \<Rightarrow> 'a" where
  "coalesce x d = (case x of None \<Rightarrow> d | Some v \<Rightarrow> v)"

lemma coalesce_simps [simp]: "coalesce None d = d" "coalesce (Some v) d = v"
  by (simp_all add: coalesce_def)

lemma fetch_optional_simps [simp]:
  "fetch_optional [] = None" "fetch_optional (r # t) = Some r"
  by (simp_all add: fetch_optional_def)

lemma fetch_optional_None [simp]: "fetch_optional t = None \<longleftrightarrow> t = []"
  by (cases t) auto

lemma fetch_optional_Some: "fetch_optional t = Some r \<longleftrightarrow> (\<exists>t'. t = r # t')"
  by (cases t) auto

lemma fetch_optional_in: "fetch_optional t = Some r \<Longrightarrow> r \<in> set t"
  by (cases t) auto

lemma fetch_limit_1 [simp]: "fetch_optional (sql_limit 1 t) = fetch_optional t"
  by (cases t) (simp_all add: sql_limit_def)

lemma update_where_simps [simp]:
  "update_where P f [] = []"
  "update_where P f (r # t) = (if P r then f r else r) # update_where P f t"
  by (simp_all add: update_where_def)

lemma delete_where_simps [simp]:
  "delete_where P [] = []"
  "delete_where P (r # t) = (if P r then delete_where P t else r # delete_where P t)"
  by (simp_all add: delete_where_def)

lemma set_update_where [sql_simps]:
  "set (update_where P f t) = f ` {r \<in> set t. P r} \<union> {r \<in> set t. \<not> P r}"
  by (induction t) auto

lemma set_delete_where [sql_simps]: "set (delete_where P t) = {r \<in> set t. \<not> P r}"
  by (auto simp: delete_where_def)

lemma length_update_where [simp]: "length (update_where P f t) = length t"
  by (simp add: update_where_def)

lemma update_where_id: "(\<And>r. r \<in> set t \<Longrightarrow> P r \<Longrightarrow> f r = r) \<Longrightarrow> update_where P f t = t"
  by (simp add: update_where_def map_idI)

lemma update_where_none: "(\<And>r. r \<in> set t \<Longrightarrow> \<not> P r) \<Longrightarrow> update_where P f t = t"
  by (rule update_where_id) auto

lemma update_where_key:
  assumes "\<And>r. P r \<Longrightarrow> k (f r) = k r"
  shows "map k (update_where P f t) = map k t"
  using assms by (induction t) auto

lemma delete_where_none: "(\<And>r. r \<in> set t \<Longrightarrow> \<not> P r) \<Longrightarrow> delete_where P t = t"
  by (simp add: delete_where_def filter_id_conv)

lemma length_delete_where: "length (delete_where P t) + rows_affected P t = length t"
  unfolding delete_where_def rows_affected_def using sum_length_filter_compl [of P t] by simp

lemma rows_affected_0: "rows_affected P t = 0 \<longleftrightarrow> (\<forall>r \<in> set t. \<not> P r)"
  by (auto simp: rows_affected_def filter_empty_conv)

lemma distinct_delete_where:
  "distinct (map k t) \<Longrightarrow> distinct (map k (delete_where P t))"
  by (simp add: delete_where_def distinct_map_filter)

text \<open>A filter on a column the update leaves alone commutes with it.\<close>

lemma filter_update_where:
  assumes "\<And>r. Q (f r) = Q r"
  shows "filter Q (update_where P f t) = update_where P f (filter Q t)"
  using assms by (induction t) auto

lemma filter_outside_update:
  assumes "\<And>r. P r \<Longrightarrow> \<not> Q r" and "\<And>r. P r \<Longrightarrow> \<not> Q (f r)"
  shows "filter Q (update_where P f t) = filter Q t"
  using assms by (induction t) auto

lemma update_where_undo:
  assumes "\<And>x. x \<in> set t \<Longrightarrow> P x \<Longrightarrow> P (f x) \<and> g (f x) = x"
  shows "update_where P g (update_where P f t) = t"
  using assms by (auto simp: update_where_def o_def intro!: map_idI)

lemma update_where_all: "(\<And>r. r \<in> set t \<Longrightarrow> P r) \<Longrightarrow> update_where P f t = map f t"
  by (simp add: update_where_def)

lemma set_sql_limit: "set (sql_limit n t) \<subseteq> set t"
  by (auto simp: sql_limit_def dest: in_set_takeD)

text \<open>Rows with distinct keys: a key names at most one row.\<close>

lemma distinct_map_key:
  "distinct (map k t) \<Longrightarrow> r \<in> set t \<Longrightarrow> r' \<in> set t \<Longrightarrow> k r = k r' \<Longrightarrow> r = r'"
  by (auto simp: distinct_map dest: inj_onD)

lemma filter_key_singleton:
  assumes "distinct (map k t)" and "r \<in> set t"
  shows "filter (\<lambda>x. k x = k r) t = [r]"
  using assms
proof (induction t)
  case (Cons a t)
  show ?case
  proof (cases "a = r")
    case True
    with Cons.prems have "\<forall>x \<in> set t. k x \<noteq> k r"
      by (auto simp: image_iff)
    then have "filter (\<lambda>x. k x = k r) t = []"
      by (simp add: filter_empty_conv)
    with True show ?thesis by simp
  next
    case False
    with Cons.prems have "k a \<noteq> k r" and "r \<in> set t" and "distinct (map k t)"
      by (auto simp: image_iff)
    with Cons.IH show ?thesis by simp
  qed
qed simp

text \<open>The first row of an ordered result has the least key of the rows that qualify.\<close>

lemma sort_key_Nil_iff [simp]: "sort_key k t = [] \<longleftrightarrow> t = []"
  by (metis length_0_conv length_sort)

lemma hd_sort_key_least:
  assumes "sort_key k t = r # rs"
  shows "r \<in> set t" and "\<forall>x \<in> set t. k r \<le> k x"
proof -
  from assms show "r \<in> set t" by (metis list.set_intros(1) set_sort)
  have "sorted (map k (sort_key k t))" by simp
  with assms have "\<forall>x \<in> set (r # rs). k r \<le> k x" by auto
  with assms show "\<forall>x \<in> set t. k r \<le> k x" by (metis set_sort)
qed

lemma fetch_sort_key_Some:
  assumes "fetch_optional (sort_key k t) = Some r"
  shows "r \<in> set t \<and> (\<forall>x \<in> set t. k r \<le> k x)"
  using assms hd_sort_key_least [of k t r] by (auto simp: fetch_optional_Some)

lemma sort_key_single [simp]: "sort_key k [x] = [x]"
  by simp

section \<open>64-bit integers\<close>

text \<open>
  \<open>i64\<close> values are integers; the operations that can leave the range say what the source does
  there: saturate, or return \<open>None\<close>.
\<close>

definition i64_min :: int where "i64_min = - (2 ^ 63)"
definition i64_max :: int where "i64_max = 2 ^ 63 - 1"

definition is_i64 :: "int \<Rightarrow> bool" where
  "is_i64 x \<longleftrightarrow> i64_min \<le> x \<and> x \<le> i64_max"

definition saturate_i64 :: "int \<Rightarrow> int" where
  "saturate_i64 x = max i64_min (min i64_max x)"

definition i64_saturating_add :: "int \<Rightarrow> int \<Rightarrow> int" where
  "i64_saturating_add a b = saturate_i64 (a + b)"

definition i64_saturating_sub :: "int \<Rightarrow> int \<Rightarrow> int" where
  "i64_saturating_sub a b = saturate_i64 (a - b)"

definition i64_saturating_mul :: "int \<Rightarrow> int \<Rightarrow> int" where
  "i64_saturating_mul a b = saturate_i64 (a * b)"

definition i64_checked_add :: "int \<Rightarrow> int \<Rightarrow> int option" where
  "i64_checked_add a b = (if is_i64 (a + b) then Some (a + b) else None)"

definition clamp :: "int \<Rightarrow> int \<Rightarrow> int \<Rightarrow> int" where
  "clamp lo hi x = (if x < lo then lo else if hi < x then hi else x)"

definition u64_saturating_sub :: "u64 \<Rightarrow> u64 \<Rightarrow> u64" where
  "u64_saturating_sub a b = (if a < b then 0 else a - b)"

definition u64_saturating_add :: "nat \<Rightarrow> nat \<Rightarrow> nat" where
  "u64_saturating_add a b = min (a + b) (2 ^ 64 - 1)"

lemma u64_saturating_add_code [code]: "u64_saturating_add a b = nat (min (int a + int b) 18446744073709551615)"
  by (simp add: u64_saturating_add_def min_def nat_add_distrib)

lemmas [arith64_defs] = i64_min_def i64_max_def is_i64_def saturate_i64_def
  i64_saturating_add_def i64_saturating_sub_def i64_saturating_mul_def i64_checked_add_def
  clamp_def

lemma saturate_i64_range [simp]: "is_i64 (saturate_i64 x)"
  by (simp add: arith64_defs)

lemma saturate_i64_id: "is_i64 x \<Longrightarrow> saturate_i64 x = x"
  by (simp add: arith64_defs)

lemma saturate_i64_mono: "x \<le> y \<Longrightarrow> saturate_i64 x \<le> saturate_i64 y"
  by (simp add: arith64_defs)

lemma unat_u64_saturating_sub: "unat (u64_saturating_sub a b) = unat a - unat b"
proof (cases "a < b")
  case True
  then have "unat a < unat b" by (simp add: word_less_nat_alt)
  with True show ?thesis by (simp add: u64_saturating_sub_def)
next
  case False
  then have "b \<le> a" by simp
  then have "unat (a - b) = unat a - unat b" by (rule unat_sub)
  with False show ?thesis by (simp add: u64_saturating_sub_def)
qed

section \<open>Big-endian byte strings\<close>

lemma unat_of_nat_less: "n < 2 ^ LENGTH('a) \<Longrightarrow> unat (of_nat n :: 'a::len word) = n"
  by (simp add: unat_of_nat)

fun be_encode :: "nat \<Rightarrow> nat \<Rightarrow> bytes" where
  "be_encode 0 n = []"
| "be_encode (Suc k) n = be_encode k (n div 256) @ [of_nat (n mod 256)]"

definition be_decode :: "bytes \<Rightarrow> nat" where
  "be_decode bs = foldl (\<lambda>a b. 256 * a + unat b) 0 bs"

lemma length_be_encode [simp]: "length (be_encode k n) = k"
  by (induction k arbitrary: n) auto

lemma unat_of_nat_byte: "unat (of_nat (n mod 256) :: byte) = n mod 256"
proof -
  have "unat (of_nat (n mod 256) :: byte) = (n mod 256) mod 2 ^ LENGTH(8)"
    by (rule unat_of_nat)
  then show ?thesis by simp
qed

lemma be_decode_snoc [simp]: "be_decode (bs @ [b]) = 256 * be_decode bs + unat b"
  by (simp add: be_decode_def)

lemma be_decode_Nil [simp]: "be_decode [] = 0"
  by (simp add: be_decode_def)

lemma be_decode_encode: "n < 256 ^ k \<Longrightarrow> be_decode (be_encode k n) = n"
proof (induction k arbitrary: n)
  case (Suc k)
  then have "n div 256 < 256 ^ k" by (simp add: less_mult_imp_div_less)
  with Suc.IH have "be_decode (be_encode k (n div 256)) = n div 256" by simp
  then show ?case by (simp add: unat_of_nat_byte)
qed simp

lemma unat_byte_less [simp]: "unat (b :: byte) < 256"
  using unsigned_less [of b] by simp

lemma be_encode_decode: "be_encode (length bs) (be_decode bs) = bs"
proof (induction bs rule: rev_induct)
  case (snoc b bs)
  have "(256 * be_decode bs + unat b) div 256 = be_decode bs" by simp
  moreover have "(256 * be_decode bs + unat b) mod 256 = unat b" by simp
  ultimately show ?case using snoc by simp
qed simp

lemma be_decode_less: "be_decode bs < 256 ^ length bs"
proof (induction bs rule: rev_induct)
  case (snoc b bs)
  have "256 * be_decode bs + unat b < 256 * be_decode bs + 256" by simp
  also have "\<dots> = 256 * (be_decode bs + 1)" by simp
  also have "\<dots> \<le> 256 * 256 ^ length bs" using snoc by (intro mult_le_mono) auto
  finally show ?case by simp
qed simp

lemma be_encode_inject:
  assumes "be_encode k m = be_encode k n" and "m < 256 ^ k" and "n < 256 ^ k"
  shows "m = n"
  using assms be_decode_encode by metis

text \<open>ASCII text as bytes: Rust's \<open>as_bytes\<close> on a string.\<close>

definition str_bytes :: "string \<Rightarrow> bytes" where
  "str_bytes s = map of_char s"

lemma length_str_bytes [simp]: "length (str_bytes s) = length s"
  by (simp add: str_bytes_def)

lemma of_char_byte_inject: "(of_char c :: byte) = of_char d \<longleftrightarrow> c = d"
proof
  assume "(of_char c :: byte) = of_char d"
  then have "unat (of_char c :: byte) = unat (of_char d :: byte)" by simp
  moreover have "unat (of_char x :: byte) = (of_char x :: nat)" for x
  proof -
    have "(of_char x :: byte) = of_nat (of_char x)" by (rule of_nat_of_char [symmetric])
    moreover have "(of_char x :: nat) < 256" by simp
    ultimately show ?thesis by (metis unat_of_nat_byte mod_less)
  qed
  ultimately have "(of_char c :: nat) = of_char d" by simp
  then show "c = d" by simp
qed simp

lemma str_bytes_inject [simp]: "str_bytes s = str_bytes t \<longleftrightarrow> s = t"
  unfolding str_bytes_def by (rule inj_map_eq_map) (simp add: inj_def of_char_byte_inject)

section \<open>Text\<close>

text \<open>Decimal numerals, as \<open>format!\<close> writes an unsigned integer.\<close>

definition digit :: "nat \<Rightarrow> char" where
  "digit n = ''0123456789'' ! n"

fun dec_nat :: "nat \<Rightarrow> string" where
  "dec_nat n = (if n < 10 then [digit n] else dec_nat (n div 10) @ [digit (n mod 10)])"

declare dec_nat.simps [simp del]

lemma digit_inject: "m < 10 \<Longrightarrow> n < 10 \<Longrightarrow> digit m = digit n \<longleftrightarrow> m = n"
  unfolding digit_def by (rule nth_eq_iff_index_eq) simp_all

lemma dec_nat_small: "n < 10 \<Longrightarrow> dec_nat n = [digit n]"
  by (subst dec_nat.simps) simp

lemma dec_nat_nonempty: "dec_nat n \<noteq> []"
  by (subst dec_nat.simps) simp

lemma dec_nat_inject: "dec_nat m = dec_nat n \<longleftrightarrow> m = n"
proof
  show "dec_nat m = dec_nat n \<Longrightarrow> m = n"
  proof (induction m arbitrary: n rule: dec_nat.induct)
    case (1 m)
    have single: "(dec_nat k = [c]) \<Longrightarrow> k < 10" for k c
      by (subst (asm) dec_nat.simps) (auto split: if_splits simp: dec_nat_nonempty)
    show ?case
    proof (cases "m < 10")
      case True
      then have m: "dec_nat m = [digit m]" by (rule dec_nat_small)
      have d: "dec_nat n = [digit m]" by (rule trans [OF "1.prems" [symmetric] m])
      then have n: "n < 10" by (rule single)
      have "[digit m] = [digit n]" by (rule trans [OF d [symmetric] dec_nat_small [OF n]])
      then show ?thesis unfolding list.inject digit_inject [OF True n] by (rule conjunct1)
    next
      case False
      then have m: "dec_nat m = dec_nat (m div 10) @ [digit (m mod 10)]"
        by (subst dec_nat.simps) simp
      have "\<not> n < 10"
      proof
        assume "n < 10"
        then have "dec_nat m = [digit n]" unfolding "1.prems" by (rule dec_nat_small)
        with single False show False by blast
      qed
      then have n: "dec_nat n = dec_nat (n div 10) @ [digit (n mod 10)]"
        by (subst dec_nat.simps) simp
      have "dec_nat (m div 10) @ [digit (m mod 10)] = dec_nat (n div 10) @ [digit (n mod 10)]"
        by (rule trans [OF m [symmetric] trans [OF "1.prems" n]])
      then have eq: "dec_nat (m div 10) = dec_nat (n div 10)" "digit (m mod 10) = digit (n mod 10)"
        by simp_all
      have "m div 10 = n div 10" by (rule "1.IH" [OF False eq(1)])
      moreover have "m mod 10 = n mod 10" using eq(2) digit_inject [of "m mod 10" "n mod 10"] by simp
      ultimately have "m div 10 = n div 10" "m mod 10 = n mod 10" by simp_all
      then show ?thesis by (metis div_mult_mod_eq)
    qed
  qed
qed simp

text \<open>
  Trimming and splitting of text. Names and paths are taken to be ASCII, so white space is the ASCII
  white space.
\<close>

definition is_space :: "char \<Rightarrow> bool" where
  "is_space c \<longleftrightarrow> c \<in> {CHR '' '', CHR 0x09, CHR 0x0A, CHR 0x0B, CHR 0x0C, CHR 0x0D}"

definition trim_end_where :: "(char \<Rightarrow> bool) \<Rightarrow> string \<Rightarrow> string" where
  "trim_end_where P s = rev (dropWhile P (rev s))"

definition str_trim :: "string \<Rightarrow> string" where
  "str_trim s = trim_end_where is_space (dropWhile is_space s)"

definition ascii_lower :: "char \<Rightarrow> char" where
  "ascii_lower c = (if CHR ''A'' \<le> c \<and> c \<le> CHR ''Z'' then char_of ((of_char c :: nat) + 32) else c)"

fun split_on :: "char \<Rightarrow> string \<Rightarrow> string list" where
  "split_on d [] = [[]]"
| "split_on d (c # cs) =
     (if c = d then [] # split_on d cs
      else (case split_on d cs of [] \<Rightarrow> [[c]] | w # ws \<Rightarrow> (c # w) # ws))"

fun join_with :: "char \<Rightarrow> string list \<Rightarrow> string" where
  "join_with d [] = []"
| "join_with d [w] = w"
| "join_with d (w # ws) = w @ [d] @ join_with d ws"

lemma split_on_nonempty [simp]: "split_on d s \<noteq> []"
  by (induction s) (auto split: list.splits)

lemma split_on_append: "d \<notin> set w \<Longrightarrow> split_on d (w @ d # s) = w # split_on d s"
  by (induction w) auto

lemma split_on_word: "d \<notin> set w \<Longrightarrow> split_on d w = [w]"
  by (induction w) auto

lemma split_on_join:
  "ws \<noteq> [] \<Longrightarrow> \<forall>w \<in> set ws. d \<notin> set w \<Longrightarrow> split_on d (join_with d ws) = ws"
  by (induction d ws rule: join_with.induct) (simp_all add: split_on_append split_on_word)

lemma split_on_append_sep: "split_on d (u @ d # v) = split_on d u @ split_on d v"
  by (induction u) (auto split: list.splits)

lemma join_with_Cons: "ws \<noteq> [] \<Longrightarrow> join_with d (w # ws) = w @ d # join_with d ws"
  by (cases ws) simp_all

lemma join_with_append:
  "us \<noteq> [] \<Longrightarrow> vs \<noteq> [] \<Longrightarrow> join_with d (us @ vs) = join_with d us @ d # join_with d vs"
proof (induction us)
  case (Cons w us)
  then show ?case by (cases "us = []") (simp_all add: join_with_Cons)
qed simp

lemma join_with_split_on: "join_with d (split_on d s) = s"
proof (induction s)
  case (Cons c cs)
  obtain w ws where w: "split_on d cs = w # ws" by (cases "split_on d cs") simp_all
  with Cons show ?case by (cases ws) auto
qed simp

text \<open>A text starts with another at a separator exactly when the words of the one start with the words of the other.\<close>

lemma split_on_prefix_iff:
  "(\<exists>vs. split_on d s = split_on d p @ vs) \<longleftrightarrow> s = p \<or> (\<exists>rest. s = p @ d # rest)"
proof
  assume "\<exists>vs. split_on d s = split_on d p @ vs"
  then obtain vs where vs: "split_on d s = split_on d p @ vs" by blast
  have "s = join_with d (split_on d p @ vs)" by (simp flip: vs add: join_with_split_on)
  then show "s = p \<or> (\<exists>rest. s = p @ d # rest)"
    by (cases "vs = []") (auto simp: join_with_split_on join_with_append)
qed (auto simp: split_on_append_sep)

text \<open>A text that neither starts nor ends with white space is not changed by trimming.\<close>

lemma dropWhile_hd: "s \<noteq> [] \<Longrightarrow> \<not> P (hd s) \<Longrightarrow> dropWhile P s = s"
  by (cases s) simp_all

lemma str_trim_id: "s \<noteq> [] \<Longrightarrow> \<not> is_space (hd s) \<Longrightarrow> \<not> is_space (last s) \<Longrightarrow> str_trim s = s"
  by (simp add: str_trim_def trim_end_where_def dropWhile_hd hd_rev)

text \<open>\<open>rsplit_once\<close>: the text before and after the last occurrence of a character.\<close>

definition rsplit_once :: "char \<Rightarrow> string \<Rightarrow> (string \<times> string) option" where
  "rsplit_once d s =
     (if d \<notin> set s then None
      else Some (rev (tl (dropWhile (\<lambda>c. c \<noteq> d) (rev s))), rev (takeWhile (\<lambda>c. c \<noteq> d) (rev s))))"

end
