(* ===== verification/Layout.thy ===== *)
theory Layout
  imports Prelude
begin

text \<open>
  \<^verbatim>\<open>omnidrive-core/src/layout.rs\<close>: the five on-disk structures. Each is \<open>repr(C, packed)\<close> with
  big-endian integers, so its image is the concatenation of its fields in declaration order; the
  derived \<open>AsBytes\<close> writes that image and the derived \<open>FromBytes\<close> reads it back from exactly \<open>SIZE\<close>
  bytes. The locale \<open>fixed_codec\<close> is what a client of such a structure relies on.
\<close>

section \<open>Constants\<close>

definition SUPERBLOCK_MAGIC :: bytes where "SUPERBLOCK_MAGIC = str_bytes ''ODSB''"
definition MANIFEST_ENVELOPE_MAGIC :: bytes where "MANIFEST_ENVELOPE_MAGIC = str_bytes ''ODMF''"
definition PACK_HEADER_MAGIC :: bytes where "PACK_HEADER_MAGIC = str_bytes ''ODPK''"
definition CHUNK_RECORD_MAGIC :: bytes where "CHUNK_RECORD_MAGIC = str_bytes ''CHNK''"
definition PACK_FOOTER_MAGIC :: bytes where "PACK_FOOTER_MAGIC = str_bytes ''ODFT''"

definition COMPRESSION_ALGO_NONE :: byte where "COMPRESSION_ALGO_NONE = 0"
definition KEY_WRAPPING_ALGO_LEGACY :: byte where "KEY_WRAPPING_ALGO_LEGACY = 0"
definition KEY_WRAPPING_ALGO_AES_KW :: byte where "KEY_WRAPPING_ALGO_AES_KW = 1"

section \<open>Fields\<close>

definition u16_be :: "16 word \<Rightarrow> bytes" where "u16_be w = be_encode 2 (unat w)"
definition u64_be :: "u64 \<Rightarrow> bytes" where "u64_be w = be_encode 8 (unat w)"
definition u16_of_be :: "bytes \<Rightarrow> 16 word" where "u16_of_be bs = of_nat (be_decode bs)"
definition u64_of_be :: "bytes \<Rightarrow> u64" where "u64_of_be bs = of_nat (be_decode bs)"

lemma length_u_be [simp]: "length (u16_be v) = 2" "length (u64_be w) = 8"
  by (simp_all add: u16_be_def u64_be_def)

lemma u16_of_be_u16_be [simp]: "u16_of_be (u16_be w) = w"
proof -
  have "unat w < 256 ^ 2" using unsigned_less [of w] by simp
  then show ?thesis by (simp add: u16_be_def u16_of_be_def be_decode_encode)
qed

lemma u64_of_be_u64_be [simp]: "u64_of_be (u64_be w) = w"
proof -
  have "unat w < 256 ^ 8" using unsigned_less [of w] by simp
  then show ?thesis by (simp add: u64_be_def u64_of_be_def be_decode_encode)
qed

lemma u16_be_u16_of_be: "length bs = 2 \<Longrightarrow> u16_be (u16_of_be bs) = bs"
  using be_decode_less [of bs] be_encode_decode [of bs]
  by (simp add: u16_be_def u16_of_be_def unat_of_nat_less)

lemma u64_be_u64_of_be: "length bs = 8 \<Longrightarrow> u64_be (u64_of_be bs) = bs"
  using be_decode_less [of bs] be_encode_decode [of bs]
  by (simp add: u64_be_def u64_of_be_def unat_of_nat_less)

lemmas be_field_inverses = u16_be_u16_of_be u64_be_u64_of_be

text \<open>Cutting a byte string into fields of given widths.\<close>

fun split_widths :: "nat list \<Rightarrow> bytes \<Rightarrow> bytes list" where
  "split_widths [] bs = []"
| "split_widths (w # ws) bs = take w bs # split_widths ws (drop w bs)"

lemma split_widths_concat: "split_widths (map length fs) (concat fs) = fs"
  by (induction fs) auto

lemma concat_split_widths: "length bs = sum_list ws \<Longrightarrow> concat (split_widths ws bs) = bs"
  by (induction ws arbitrary: bs) auto

lemma length_split_widths:
  "length bs = sum_list ws \<Longrightarrow> map length (split_widths ws bs) = ws"
  by (induction ws arbitrary: bs) auto

section \<open>The interface of a fixed-size structure\<close>

locale fixed_codec =
  fixes as_bytes :: "'s \<Rightarrow> bytes"
    and read_from :: "bytes \<Rightarrow> 's option"
    and wf :: "'s \<Rightarrow> bool"
    and SIZE :: nat
  assumes length_as_bytes: "wf x \<Longrightarrow> length (as_bytes x) = SIZE"
    and read_as_bytes: "wf x \<Longrightarrow> read_from (as_bytes x) = Some x"
    and read_from_sound: "read_from bs = Some x \<Longrightarrow> wf x \<and> as_bytes x = bs"
begin

lemma as_bytes_inject: "wf x \<Longrightarrow> wf y \<Longrightarrow> as_bytes x = as_bytes y \<longleftrightarrow> x = y"
  using read_as_bytes by (metis option.inject)

lemma read_prefix: "wf x \<Longrightarrow> read_from (take SIZE (as_bytes x @ rest)) = Some x"
  by (simp add: length_as_bytes read_as_bytes)

lemma drop_prefix: "wf x \<Longrightarrow> drop SIZE (as_bytes x @ rest) = rest"
  by (simp add: length_as_bytes)

lemma read_from_length: "read_from bs = Some x \<Longrightarrow> length bs = SIZE"
  using read_from_sound length_as_bytes by blast

lemma framed_inject:
  assumes "wf x" and "wf y" and "as_bytes x @ r = as_bytes y @ s"
  shows "x = y \<and> r = s"
  using assms length_as_bytes [of x] length_as_bytes [of y] as_bytes_inject by auto

end

text \<open>
  A packed structure: its fields in declaration order, their widths, and the constructor that
  reads the fields back. The image and the reader are built from these three, and that gives the
  interface.
\<close>

definition packed_bytes :: "('s \<Rightarrow> bytes list) \<Rightarrow> 's \<Rightarrow> bytes" where
  "packed_bytes fields x = concat (fields x)"

definition packed_read :: "nat list \<Rightarrow> (bytes list \<Rightarrow> 's option) \<Rightarrow> bytes \<Rightarrow> 's option" where
  "packed_read widths build bs =
     (if length bs = sum_list widths then build (split_widths widths bs) else None)"

definition packed_wf :: "nat list \<Rightarrow> ('s \<Rightarrow> bytes list) \<Rightarrow> 's \<Rightarrow> bool" where
  "packed_wf widths fields x \<longleftrightarrow> map length (fields x) = widths"

locale packed_struct =
  fixes fields :: "'s \<Rightarrow> bytes list"
    and build :: "bytes list \<Rightarrow> 's option"
    and widths :: "nat list"
  assumes build_fields: "build (fields x) = Some x"
    and fields_build: "map length fs = widths \<Longrightarrow> build fs = Some x \<Longrightarrow> fields x = fs"
begin

lemma split_packed: "packed_wf widths fields x \<Longrightarrow> split_widths widths (packed_bytes fields x) = fields x"
  unfolding packed_wf_def packed_bytes_def using split_widths_concat by metis

lemma length_packed: "packed_wf widths fields x \<Longrightarrow> length (packed_bytes fields x) = sum_list widths"
  by (auto simp: packed_wf_def packed_bytes_def length_concat)

end

sublocale packed_struct \<subseteq> fixed_codec "packed_bytes fields" "packed_read widths build"
  "packed_wf widths fields" "sum_list widths"
proof unfold_locales
  fix x assume "packed_wf widths fields x"
  then show "length (packed_bytes fields x) = sum_list widths"
    and "packed_read widths build (packed_bytes fields x) = Some x"
    by (simp_all add: length_packed packed_read_def split_packed build_fields)
next
  fix bs x assume r: "packed_read widths build bs = Some x"
  then have len: "length bs = sum_list widths" and b: "build (split_widths widths bs) = Some x"
    by (auto simp: packed_read_def split: if_splits)
  from len have "map length (split_widths widths bs) = widths" by (rule length_split_widths)
  with b have "fields x = split_widths widths bs" using fields_build by blast
  with len show "packed_wf widths fields x \<and> packed_bytes fields x = bs"
    by (simp add: packed_wf_def packed_bytes_def length_split_widths concat_split_widths)
qed

section \<open>Superblock\<close>

record SuperblockFixed =
  sb_magic :: bytes
  sb_major_version :: "16 word"
  sb_minor_version :: "16 word"
  sb_flags :: byte
  sb_hash_algo :: byte
  sb_ser_algo :: byte
  sb_reserved_0 :: byte
  sb_commit_seq :: u64
  sb_fence_token :: u64
  sb_created_at_ms :: u64
  sb_writer_id :: bytes
  sb_previous_superblock_id :: bytes
  sb_root_manifest_id :: bytes
  sb_pack_catalog_manifest_id :: bytes
  sb_payload_len :: u64

definition SuperblockFixed_widths :: "nat list" where
  "SuperblockFixed_widths = [4, 2, 2, 1, 1, 1, 1, 8, 8, 8, 16, 32, 32, 32, 8]"

definition SuperblockFixed_fields :: "SuperblockFixed \<Rightarrow> bytes list" where
  "SuperblockFixed_fields x =
    [sb_magic x, u16_be (sb_major_version x), u16_be (sb_minor_version x), [sb_flags x],
     [sb_hash_algo x], [sb_ser_algo x], [sb_reserved_0 x], u64_be (sb_commit_seq x),
     u64_be (sb_fence_token x), u64_be (sb_created_at_ms x), sb_writer_id x,
     sb_previous_superblock_id x, sb_root_manifest_id x, sb_pack_catalog_manifest_id x,
     u64_be (sb_payload_len x)]"

definition SuperblockFixed_build :: "bytes list \<Rightarrow> SuperblockFixed option" where
  "SuperblockFixed_build fs =
    (case fs of
       [v0, v1, v2, [v3], [v4], [v5], [v6], v7, v8, v9, v10, v11, v12, v13, v14] \<Rightarrow>
         Some \<lparr>sb_magic = v0, sb_major_version = u16_of_be v1, sb_minor_version = u16_of_be v2,
           sb_flags = v3, sb_hash_algo = v4, sb_ser_algo = v5, sb_reserved_0 = v6,
           sb_commit_seq = u64_of_be v7, sb_fence_token = u64_of_be v8,
           sb_created_at_ms = u64_of_be v9, sb_writer_id = v10,
           sb_previous_superblock_id = v11, sb_root_manifest_id = v12,
           sb_pack_catalog_manifest_id = v13, sb_payload_len = u64_of_be v14\<rparr>
     | _ \<Rightarrow> None)"

definition SuperblockFixed_as_bytes :: "SuperblockFixed \<Rightarrow> bytes" where
  "SuperblockFixed_as_bytes = packed_bytes SuperblockFixed_fields"

definition SuperblockFixed_read_from :: "bytes \<Rightarrow> SuperblockFixed option" where
  "SuperblockFixed_read_from = packed_read SuperblockFixed_widths SuperblockFixed_build"

definition SuperblockFixed_wf :: "SuperblockFixed \<Rightarrow> bool" where
  "SuperblockFixed_wf = packed_wf SuperblockFixed_widths SuperblockFixed_fields"

definition SuperblockFixed_SIZE :: nat where "SuperblockFixed_SIZE = 156"

lemma SuperblockFixed_widths_sum: "sum_list SuperblockFixed_widths = SuperblockFixed_SIZE"
  by (simp add: SuperblockFixed_widths_def SuperblockFixed_SIZE_def)

interpretation sb: packed_struct SuperblockFixed_fields SuperblockFixed_build SuperblockFixed_widths
  rewrites "packed_bytes SuperblockFixed_fields = SuperblockFixed_as_bytes"
    and "packed_read SuperblockFixed_widths SuperblockFixed_build = SuperblockFixed_read_from"
    and "packed_wf SuperblockFixed_widths SuperblockFixed_fields = SuperblockFixed_wf"
    and "sum_list SuperblockFixed_widths = SuperblockFixed_SIZE"
proof unfold_locales
  show "SuperblockFixed_build (SuperblockFixed_fields x) = Some x" for x
    by (simp add: SuperblockFixed_build_def SuperblockFixed_fields_def)
  show "map length fs = SuperblockFixed_widths \<Longrightarrow> SuperblockFixed_build fs = Some x \<Longrightarrow>
      SuperblockFixed_fields x = fs" for fs x
    by (auto simp: SuperblockFixed_widths_def SuperblockFixed_build_def SuperblockFixed_fields_def
        be_field_inverses split: list.splits)
qed (simp_all add: SuperblockFixed_as_bytes_def SuperblockFixed_read_from_def SuperblockFixed_wf_def SuperblockFixed_widths_sum)

section \<open>Manifest envelope\<close>

record ManifestEnvelopeFixed =
  me_magic :: bytes
  me_major_version :: "16 word"
  me_minor_version :: "16 word"
  me_manifest_kind :: byte
  me_flags :: byte
  me_hash_algo :: byte
  me_ser_algo :: byte
  me_parent_manifest_id :: bytes
  me_logical_root_id :: bytes
  me_created_at_ms :: u64
  me_payload_len :: u64

definition ManifestEnvelopeFixed_widths :: "nat list" where
  "ManifestEnvelopeFixed_widths = [4, 2, 2, 1, 1, 1, 1, 32, 32, 8, 8]"

definition ManifestEnvelopeFixed_fields :: "ManifestEnvelopeFixed \<Rightarrow> bytes list" where
  "ManifestEnvelopeFixed_fields x =
    [me_magic x, u16_be (me_major_version x), u16_be (me_minor_version x),
     [me_manifest_kind x], [me_flags x], [me_hash_algo x], [me_ser_algo x],
     me_parent_manifest_id x, me_logical_root_id x, u64_be (me_created_at_ms x),
     u64_be (me_payload_len x)]"

definition ManifestEnvelopeFixed_build :: "bytes list \<Rightarrow> ManifestEnvelopeFixed option" where
  "ManifestEnvelopeFixed_build fs =
    (case fs of
       [v0, v1, v2, [v3], [v4], [v5], [v6], v7, v8, v9, v10] \<Rightarrow>
         Some \<lparr>me_magic = v0, me_major_version = u16_of_be v1, me_minor_version = u16_of_be v2,
           me_manifest_kind = v3, me_flags = v4, me_hash_algo = v5, me_ser_algo = v6,
           me_parent_manifest_id = v7, me_logical_root_id = v8,
           me_created_at_ms = u64_of_be v9, me_payload_len = u64_of_be v10\<rparr>
     | _ \<Rightarrow> None)"

definition ManifestEnvelopeFixed_as_bytes :: "ManifestEnvelopeFixed \<Rightarrow> bytes" where
  "ManifestEnvelopeFixed_as_bytes = packed_bytes ManifestEnvelopeFixed_fields"

definition ManifestEnvelopeFixed_read_from :: "bytes \<Rightarrow> ManifestEnvelopeFixed option" where
  "ManifestEnvelopeFixed_read_from = packed_read ManifestEnvelopeFixed_widths ManifestEnvelopeFixed_build"

definition ManifestEnvelopeFixed_wf :: "ManifestEnvelopeFixed \<Rightarrow> bool" where
  "ManifestEnvelopeFixed_wf = packed_wf ManifestEnvelopeFixed_widths ManifestEnvelopeFixed_fields"

definition ManifestEnvelopeFixed_SIZE :: nat where "ManifestEnvelopeFixed_SIZE = 92"

lemma ManifestEnvelopeFixed_widths_sum: "sum_list ManifestEnvelopeFixed_widths = ManifestEnvelopeFixed_SIZE"
  by (simp add: ManifestEnvelopeFixed_widths_def ManifestEnvelopeFixed_SIZE_def)

interpretation me: packed_struct ManifestEnvelopeFixed_fields ManifestEnvelopeFixed_build ManifestEnvelopeFixed_widths
  rewrites "packed_bytes ManifestEnvelopeFixed_fields = ManifestEnvelopeFixed_as_bytes"
    and "packed_read ManifestEnvelopeFixed_widths ManifestEnvelopeFixed_build = ManifestEnvelopeFixed_read_from"
    and "packed_wf ManifestEnvelopeFixed_widths ManifestEnvelopeFixed_fields = ManifestEnvelopeFixed_wf"
    and "sum_list ManifestEnvelopeFixed_widths = ManifestEnvelopeFixed_SIZE"
proof unfold_locales
  show "ManifestEnvelopeFixed_build (ManifestEnvelopeFixed_fields x) = Some x" for x
    by (simp add: ManifestEnvelopeFixed_build_def ManifestEnvelopeFixed_fields_def)
  show "map length fs = ManifestEnvelopeFixed_widths \<Longrightarrow> ManifestEnvelopeFixed_build fs = Some x \<Longrightarrow>
      ManifestEnvelopeFixed_fields x = fs" for fs x
    by (auto simp: ManifestEnvelopeFixed_widths_def ManifestEnvelopeFixed_build_def ManifestEnvelopeFixed_fields_def
        be_field_inverses split: list.splits)
qed (simp_all add: ManifestEnvelopeFixed_as_bytes_def ManifestEnvelopeFixed_read_from_def ManifestEnvelopeFixed_wf_def ManifestEnvelopeFixed_widths_sum)

section \<open>Pack header\<close>

record PackHeader =
  ph_magic :: bytes
  ph_major_version :: "16 word"
  ph_minor_version :: "16 word"
  ph_flags :: byte
  ph_hash_algo :: byte
  ph_cipher_algo :: byte
  ph_reserved_0 :: byte
  ph_pack_id :: bytes
  ph_created_at_ms :: u64
  ph_record_count_hint :: u64
  ph_header_len :: u64
  ph_reserved_1 :: u64
  ph_reserved_2 :: bytes

definition PackHeader_widths :: "nat list" where
  "PackHeader_widths = [4, 2, 2, 1, 1, 1, 1, 32, 8, 8, 8, 8, 20]"

definition PackHeader_fields :: "PackHeader \<Rightarrow> bytes list" where
  "PackHeader_fields x =
    [ph_magic x, u16_be (ph_major_version x), u16_be (ph_minor_version x), [ph_flags x],
     [ph_hash_algo x], [ph_cipher_algo x], [ph_reserved_0 x], ph_pack_id x,
     u64_be (ph_created_at_ms x), u64_be (ph_record_count_hint x),
     u64_be (ph_header_len x), u64_be (ph_reserved_1 x), ph_reserved_2 x]"

definition PackHeader_build :: "bytes list \<Rightarrow> PackHeader option" where
  "PackHeader_build fs =
    (case fs of
       [v0, v1, v2, [v3], [v4], [v5], [v6], v7, v8, v9, v10, v11, v12] \<Rightarrow>
         Some \<lparr>ph_magic = v0, ph_major_version = u16_of_be v1, ph_minor_version = u16_of_be v2,
           ph_flags = v3, ph_hash_algo = v4, ph_cipher_algo = v5, ph_reserved_0 = v6,
           ph_pack_id = v7, ph_created_at_ms = u64_of_be v8,
           ph_record_count_hint = u64_of_be v9, ph_header_len = u64_of_be v10,
           ph_reserved_1 = u64_of_be v11, ph_reserved_2 = v12\<rparr>
     | _ \<Rightarrow> None)"

definition PackHeader_as_bytes :: "PackHeader \<Rightarrow> bytes" where
  "PackHeader_as_bytes = packed_bytes PackHeader_fields"

definition PackHeader_read_from :: "bytes \<Rightarrow> PackHeader option" where
  "PackHeader_read_from = packed_read PackHeader_widths PackHeader_build"

definition PackHeader_wf :: "PackHeader \<Rightarrow> bool" where
  "PackHeader_wf = packed_wf PackHeader_widths PackHeader_fields"

definition PackHeader_SIZE :: nat where "PackHeader_SIZE = 96"

lemma PackHeader_widths_sum: "sum_list PackHeader_widths = PackHeader_SIZE"
  by (simp add: PackHeader_widths_def PackHeader_SIZE_def)

interpretation ph: packed_struct PackHeader_fields PackHeader_build PackHeader_widths
  rewrites "packed_bytes PackHeader_fields = PackHeader_as_bytes"
    and "packed_read PackHeader_widths PackHeader_build = PackHeader_read_from"
    and "packed_wf PackHeader_widths PackHeader_fields = PackHeader_wf"
    and "sum_list PackHeader_widths = PackHeader_SIZE"
proof unfold_locales
  show "PackHeader_build (PackHeader_fields x) = Some x" for x
    by (simp add: PackHeader_build_def PackHeader_fields_def)
  show "map length fs = PackHeader_widths \<Longrightarrow> PackHeader_build fs = Some x \<Longrightarrow>
      PackHeader_fields x = fs" for fs x
    by (auto simp: PackHeader_widths_def PackHeader_build_def PackHeader_fields_def
        be_field_inverses split: list.splits)
qed (simp_all add: PackHeader_as_bytes_def PackHeader_read_from_def PackHeader_wf_def PackHeader_widths_sum)

section \<open>Chunk record prefix\<close>

record ChunkRecordPrefix =
  cr_record_magic :: bytes
  cr_record_version :: byte
  cr_flags :: byte
  cr_compression_algo :: byte
  cr_key_wrapping_algo :: byte
  cr_chunk_id :: bytes
  cr_plain_len :: u64
  cr_cipher_len :: u64
  cr_nonce :: bytes
  cr_dek_id_hint :: bytes
  cr_reserved_1 :: bytes

definition ChunkRecordPrefix_widths :: "nat list" where
  "ChunkRecordPrefix_widths = [4, 1, 1, 1, 1, 32, 8, 8, 12, 4, 8]"

definition ChunkRecordPrefix_fields :: "ChunkRecordPrefix \<Rightarrow> bytes list" where
  "ChunkRecordPrefix_fields x =
    [cr_record_magic x, [cr_record_version x], [cr_flags x], [cr_compression_algo x],
     [cr_key_wrapping_algo x], cr_chunk_id x, u64_be (cr_plain_len x),
     u64_be (cr_cipher_len x), cr_nonce x, cr_dek_id_hint x, cr_reserved_1 x]"

definition ChunkRecordPrefix_build :: "bytes list \<Rightarrow> ChunkRecordPrefix option" where
  "ChunkRecordPrefix_build fs =
    (case fs of
       [v0, [v1], [v2], [v3], [v4], v5, v6, v7, v8, v9, v10] \<Rightarrow>
         Some \<lparr>cr_record_magic = v0, cr_record_version = v1, cr_flags = v2,
           cr_compression_algo = v3, cr_key_wrapping_algo = v4, cr_chunk_id = v5,
           cr_plain_len = u64_of_be v6, cr_cipher_len = u64_of_be v7, cr_nonce = v8,
           cr_dek_id_hint = v9, cr_reserved_1 = v10\<rparr>
     | _ \<Rightarrow> None)"

definition ChunkRecordPrefix_as_bytes :: "ChunkRecordPrefix \<Rightarrow> bytes" where
  "ChunkRecordPrefix_as_bytes = packed_bytes ChunkRecordPrefix_fields"

definition ChunkRecordPrefix_read_from :: "bytes \<Rightarrow> ChunkRecordPrefix option" where
  "ChunkRecordPrefix_read_from = packed_read ChunkRecordPrefix_widths ChunkRecordPrefix_build"

definition ChunkRecordPrefix_wf :: "ChunkRecordPrefix \<Rightarrow> bool" where
  "ChunkRecordPrefix_wf = packed_wf ChunkRecordPrefix_widths ChunkRecordPrefix_fields"

definition ChunkRecordPrefix_SIZE :: nat where "ChunkRecordPrefix_SIZE = 80"

lemma ChunkRecordPrefix_widths_sum: "sum_list ChunkRecordPrefix_widths = ChunkRecordPrefix_SIZE"
  by (simp add: ChunkRecordPrefix_widths_def ChunkRecordPrefix_SIZE_def)

interpretation cr: packed_struct ChunkRecordPrefix_fields ChunkRecordPrefix_build ChunkRecordPrefix_widths
  rewrites "packed_bytes ChunkRecordPrefix_fields = ChunkRecordPrefix_as_bytes"
    and "packed_read ChunkRecordPrefix_widths ChunkRecordPrefix_build = ChunkRecordPrefix_read_from"
    and "packed_wf ChunkRecordPrefix_widths ChunkRecordPrefix_fields = ChunkRecordPrefix_wf"
    and "sum_list ChunkRecordPrefix_widths = ChunkRecordPrefix_SIZE"
proof unfold_locales
  show "ChunkRecordPrefix_build (ChunkRecordPrefix_fields x) = Some x" for x
    by (simp add: ChunkRecordPrefix_build_def ChunkRecordPrefix_fields_def)
  show "map length fs = ChunkRecordPrefix_widths \<Longrightarrow> ChunkRecordPrefix_build fs = Some x \<Longrightarrow>
      ChunkRecordPrefix_fields x = fs" for fs x
    by (auto simp: ChunkRecordPrefix_widths_def ChunkRecordPrefix_build_def ChunkRecordPrefix_fields_def
        be_field_inverses split: list.splits)
qed (simp_all add: ChunkRecordPrefix_as_bytes_def ChunkRecordPrefix_read_from_def ChunkRecordPrefix_wf_def ChunkRecordPrefix_widths_sum)

section \<open>Pack footer\<close>

record PackFooter =
  pf_footer_magic :: bytes
  pf_major_version :: "16 word"
  pf_minor_version :: "16 word"
  pf_tail_index_offset :: u64
  pf_tail_index_len :: u64
  pf_pack_payload_end :: u64
  pf_pack_id :: bytes
  pf_footer_mac_or_reserved :: bytes

definition PackFooter_widths :: "nat list" where
  "PackFooter_widths = [4, 2, 2, 8, 8, 8, 32, 16]"

definition PackFooter_fields :: "PackFooter \<Rightarrow> bytes list" where
  "PackFooter_fields x =
    [pf_footer_magic x, u16_be (pf_major_version x), u16_be (pf_minor_version x),
     u64_be (pf_tail_index_offset x), u64_be (pf_tail_index_len x),
     u64_be (pf_pack_payload_end x), pf_pack_id x, pf_footer_mac_or_reserved x]"

definition PackFooter_build :: "bytes list \<Rightarrow> PackFooter option" where
  "PackFooter_build fs =
    (case fs of
       [v0, v1, v2, v3, v4, v5, v6, v7] \<Rightarrow>
         Some \<lparr>pf_footer_magic = v0, pf_major_version = u16_of_be v1,
           pf_minor_version = u16_of_be v2, pf_tail_index_offset = u64_of_be v3,
           pf_tail_index_len = u64_of_be v4, pf_pack_payload_end = u64_of_be v5,
           pf_pack_id = v6, pf_footer_mac_or_reserved = v7\<rparr>
     | _ \<Rightarrow> None)"

definition PackFooter_as_bytes :: "PackFooter \<Rightarrow> bytes" where
  "PackFooter_as_bytes = packed_bytes PackFooter_fields"

definition PackFooter_read_from :: "bytes \<Rightarrow> PackFooter option" where
  "PackFooter_read_from = packed_read PackFooter_widths PackFooter_build"

definition PackFooter_wf :: "PackFooter \<Rightarrow> bool" where
  "PackFooter_wf = packed_wf PackFooter_widths PackFooter_fields"

definition PackFooter_SIZE :: nat where "PackFooter_SIZE = 80"

lemma PackFooter_widths_sum: "sum_list PackFooter_widths = PackFooter_SIZE"
  by (simp add: PackFooter_widths_def PackFooter_SIZE_def)

interpretation pf: packed_struct PackFooter_fields PackFooter_build PackFooter_widths
  rewrites "packed_bytes PackFooter_fields = PackFooter_as_bytes"
    and "packed_read PackFooter_widths PackFooter_build = PackFooter_read_from"
    and "packed_wf PackFooter_widths PackFooter_fields = PackFooter_wf"
    and "sum_list PackFooter_widths = PackFooter_SIZE"
proof unfold_locales
  show "PackFooter_build (PackFooter_fields x) = Some x" for x
    by (simp add: PackFooter_build_def PackFooter_fields_def)
  show "map length fs = PackFooter_widths \<Longrightarrow> PackFooter_build fs = Some x \<Longrightarrow>
      PackFooter_fields x = fs" for fs x
    by (auto simp: PackFooter_widths_def PackFooter_build_def PackFooter_fields_def
        be_field_inverses split: list.splits)
qed (simp_all add: PackFooter_as_bytes_def PackFooter_read_from_def PackFooter_wf_def PackFooter_widths_sum)

definition GCM_TAG_SIZE :: nat where "GCM_TAG_SIZE = 16"

text \<open>
  A chunk record prefix survives being written: reading the first 80 bytes of its image
  followed by any payload gives the prefix back, and conversely whatever is read from 80 bytes
  writes those bytes.
\<close>

theorem chunk_prefix_roundtrip:
  assumes "ChunkRecordPrefix_wf p"
  shows "ChunkRecordPrefix_read_from
           (take ChunkRecordPrefix_SIZE (ChunkRecordPrefix_as_bytes p @ payload)) = Some p \<and>
         drop ChunkRecordPrefix_SIZE (ChunkRecordPrefix_as_bytes p @ payload) = payload \<and>
         (\<forall>bs q. ChunkRecordPrefix_read_from bs = Some q \<longrightarrow> ChunkRecordPrefix_as_bytes q = bs)"
  using assms cr.read_prefix cr.drop_prefix cr.read_from_sound by simp

definition sample_prefix :: ChunkRecordPrefix where
  "sample_prefix = \<lparr>cr_record_magic = CHUNK_RECORD_MAGIC, cr_record_version = 2, cr_flags = 0,
     cr_compression_algo = COMPRESSION_ALGO_NONE, cr_key_wrapping_algo = KEY_WRAPPING_ALGO_AES_KW,
     cr_chunk_id = replicate 32 7, cr_plain_len = 5, cr_cipher_len = 5,
     cr_nonce = replicate 12 9, cr_dek_id_hint = [0, 0, 0, 3], cr_reserved_1 = replicate 8 0\<rparr>"

lemma sample_prefix_wf: "ChunkRecordPrefix_wf sample_prefix"
  by (simp add: ChunkRecordPrefix_wf_def packed_wf_def ChunkRecordPrefix_widths_def
      ChunkRecordPrefix_fields_def sample_prefix_def CHUNK_RECORD_MAGIC_def)

theorem chunk_prefix_roundtrip_witness:
  "ChunkRecordPrefix_read_from
     (take ChunkRecordPrefix_SIZE (ChunkRecordPrefix_as_bytes sample_prefix @ [1, 2, 3])) =
   Some sample_prefix"
  using chunk_prefix_roundtrip [OF sample_prefix_wf, of "[1, 2, 3]"] by simp

end
