(* ===== verification/Crypto.thy ===== *)
theory Crypto
  imports Layout
begin

unbundle bit_operations_syntax

text \<open>
  \<^verbatim>\<open>omnidrive-core/src/crypto.rs\<close>: key derivation, chunk encryption (V1 deterministic nonce, V2 random
  nonce under a per-pack key), AES key wrap and the sealed-secret format. HMAC, HKDF, Argon2,
  AES-GCM and AES-KW are crates outside the repository: they are the fields of a \<open>crypto_prims\<close>
  record that every operation takes, and \<open>prims_ok\<close> states their documented behaviour. Random
  bytes are arguments.
\<close>

section \<open>Primitives\<close>

record crypto_prims =
  hmac_sha256 :: "bytes \<Rightarrow> bytes \<Rightarrow> bytes option"
  hkdf_from_prk :: "bytes \<Rightarrow> bool"
  hkdf_expand :: "bytes \<Rightarrow> bytes \<Rightarrow> bytes option"
  argon2_params_ok :: "u32 \<Rightarrow> u32 \<Rightarrow> u32 \<Rightarrow> bool"
  argon2_hash :: "u32 \<Rightarrow> u32 \<Rightarrow> u32 \<Rightarrow> bytes \<Rightarrow> bytes \<Rightarrow> bytes option"
  gcm_key_ok :: "bytes \<Rightarrow> bool"
  gcm_encrypt :: "bytes \<Rightarrow> bytes \<Rightarrow> bytes \<Rightarrow> bytes \<Rightarrow> (bytes \<times> bytes) option"
  gcm_decrypt :: "bytes \<Rightarrow> bytes \<Rightarrow> bytes \<Rightarrow> bytes \<Rightarrow> bytes \<Rightarrow> bytes option"
  kw_wrap :: "bytes \<Rightarrow> bytes \<Rightarrow> bytes option"
  kw_unwrap :: "bytes \<Rightarrow> bytes \<Rightarrow> bytes option"

definition KEY_LEN :: nat where "KEY_LEN = 32"
definition CHUNK_NONCE_LEN :: nat where "CHUNK_NONCE_LEN = 12"
definition GCM_TAG_LEN :: nat where "GCM_TAG_LEN = 16"
definition WRAPPED_KEY_LEN :: nat where "WRAPPED_KEY_LEN = KEY_LEN + 8"

definition CHUNK_ENC_INFO :: bytes where "CHUNK_ENC_INFO = str_bytes ''chunk-enc-v1''"
definition CHUNK_NONCE_PREFIX :: bytes where "CHUNK_NONCE_PREFIX = str_bytes ''nonce''"
definition VAULT_KEY_INFO :: bytes where "VAULT_KEY_INFO = str_bytes ''vault-key-v1''"
definition KEK_V2_INFO :: bytes where "KEK_V2_INFO = str_bytes ''kek-v2''"
definition MANIFEST_MAC_KEY_INFO :: bytes where
  "MANIFEST_MAC_KEY_INFO = str_bytes ''manifest-mac-key-v1''"
definition LEASE_MAC_KEY_INFO :: bytes where "LEASE_MAC_KEY_INFO = str_bytes ''lease-mac-key-v1''"
definition LOCAL_ANCHOR_KEY_INFO :: bytes where
  "LOCAL_ANCHOR_KEY_INFO = str_bytes ''local-anchor-key-v1''"

text \<open>
  What the crates document: HMAC-SHA256 takes a key of any length and returns 32 bytes; HKDF
  expands a 32-byte pseudo-random key to a 32-byte key; AES-256-GCM takes 32-byte keys, keeps the
  length, adds a 16-byte tag and opens what it sealed; AES-256-KW adds 8 bytes to a 32-byte key,
  unwraps what it wrapped, and whatever it unwraps is 8 bytes shorter than its input.
\<close>

definition prims_ok :: "crypto_prims \<Rightarrow> bool" where
  "prims_ok P \<longleftrightarrow>
     (\<forall>k m. \<exists>d. hmac_sha256 P k m = Some d \<and> length d = 32) \<and>
     (\<forall>k. length k = 32 \<longrightarrow> hkdf_from_prk P k) \<and>
     (\<forall>k i. \<exists>d. hkdf_expand P k i = Some d \<and> length d = 32) \<and>
     (\<forall>k. length k = 32 \<longrightarrow> gcm_key_ok P k) \<and>
     (\<forall>k n a p. length k = 32 \<longrightarrow> length n = 12 \<longrightarrow>
        (\<exists>c t. gcm_encrypt P k n a p = Some (c, t) \<and> length c = length p \<and> length t = 16 \<and>
               gcm_decrypt P k n a c t = Some p)) \<and>
     (\<forall>k p. length k = 32 \<longrightarrow> length p = 32 \<longrightarrow>
        (\<exists>w. kw_wrap P k p = Some w \<and> length w = 40 \<and> kw_unwrap P k w = Some p)) \<and>
     (\<forall>k w p. length w = 40 \<longrightarrow> kw_unwrap P k w = Some p \<longrightarrow> length p = 32) \<and>
     (\<forall>m t l p s d. argon2_hash P m t l p s = Some d \<longrightarrow> length d = 32)"

section \<open>Data\<close>

datatype CryptoError = Argon2 | HkdfPrk | HkdfExpand | InvalidKeyLength | Aead | KeyWrap
  | ChunkIdMismatch bytes bytes

record RootKdfParams =
  parameter_set_version :: u32
  salt :: bytes
  memory_cost_kib :: u32
  time_cost :: u32
  lanes :: u32

record RootKeys =
  master_key :: bytes
  vault_key :: bytes
  kek :: bytes
  manifest_mac_key :: bytes
  lease_mac_key :: bytes
  local_anchor_key :: bytes

record EncryptedChunk =
  ec_chunk_id :: bytes
  ec_nonce :: bytes
  ec_ciphertext :: bytes
  ec_gcm_tag :: bytes

section \<open>Key derivation\<close>

definition expand_labeled_key :: "crypto_prims \<Rightarrow> bytes \<Rightarrow> bytes \<Rightarrow> CryptoError + bytes" where
  "expand_labeled_key P ikm info =
     (if \<not> hkdf_from_prk P ikm then Inl HkdfPrk
      else ok_or HkdfExpand (hkdf_expand P ikm info))"

definition derive_root_keys ::
  "crypto_prims \<Rightarrow> bytes \<Rightarrow> RootKdfParams \<Rightarrow> CryptoError + RootKeys" where
  "derive_root_keys P passphrase params =
     (if \<not> argon2_params_ok P (memory_cost_kib params) (time_cost params) (lanes params)
      then Inl Argon2
      else
        bindR (ok_or Argon2 (argon2_hash P (memory_cost_kib params) (time_cost params)
                 (lanes params) passphrase (salt params))) (\<lambda>master.
        bindR (expand_labeled_key P master VAULT_KEY_INFO) (\<lambda>vk.
        bindR (expand_labeled_key P master KEK_V2_INFO) (\<lambda>kk.
        bindR (expand_labeled_key P master MANIFEST_MAC_KEY_INFO) (\<lambda>mm.
        bindR (expand_labeled_key P master LEASE_MAC_KEY_INFO) (\<lambda>lm.
        bindR (expand_labeled_key P master LOCAL_ANCHOR_KEY_INFO) (\<lambda>la.
          Inr \<lparr>master_key = master, vault_key = vk, kek = kk, manifest_mac_key = mm,
               lease_mac_key = lm, local_anchor_key = la\<rparr>)))))))"

definition chunk_encryption_key :: "crypto_prims \<Rightarrow> bytes \<Rightarrow> CryptoError + bytes" where
  "chunk_encryption_key P vk = expand_labeled_key P vk CHUNK_ENC_INFO"

definition derive_kek :: "crypto_prims \<Rightarrow> bytes \<Rightarrow> CryptoError + bytes" where
  "derive_kek P mk = expand_labeled_key P mk KEK_V2_INFO"

definition derive_subkey :: "crypto_prims \<Rightarrow> bytes \<Rightarrow> bytes \<Rightarrow> CryptoError + bytes" where
  "derive_subkey P mk info = expand_labeled_key P mk info"

section \<open>Chunks\<close>

definition chunk_id :: "crypto_prims \<Rightarrow> bytes \<Rightarrow> bytes \<Rightarrow> CryptoError + bytes" where
  "chunk_id P vk pt = ok_or InvalidKeyLength (hmac_sha256 P vk pt)"

definition chunk_nonce :: "crypto_prims \<Rightarrow> bytes \<Rightarrow> bytes \<Rightarrow> CryptoError + bytes" where
  "chunk_nonce P vk cid =
     bindR (ok_or InvalidKeyLength (hmac_sha256 P vk (CHUNK_NONCE_PREFIX @ cid)))
       (\<lambda>digest. Inr (take CHUNK_NONCE_LEN digest))"

definition gcm_seal ::
  "crypto_prims \<Rightarrow> bytes \<Rightarrow> bytes \<Rightarrow> bytes \<Rightarrow> bytes \<Rightarrow> CryptoError + bytes \<times> bytes" where
  "gcm_seal P k n aad pt =
     (if \<not> gcm_key_ok P k then Inl Aead else ok_or Aead (gcm_encrypt P k n aad pt))"

definition gcm_open ::
  "crypto_prims \<Rightarrow> bytes \<Rightarrow> bytes \<Rightarrow> bytes \<Rightarrow> bytes \<Rightarrow> bytes \<Rightarrow> CryptoError + bytes" where
  "gcm_open P k n aad ct tag =
     (if \<not> gcm_key_ok P k then Inl Aead else ok_or Aead (gcm_decrypt P k n aad ct tag))"

definition encrypt_chunk ::
  "crypto_prims \<Rightarrow> bytes \<Rightarrow> bytes \<Rightarrow> bytes \<Rightarrow> CryptoError + EncryptedChunk" where
  "encrypt_chunk P vk pt aad =
     bindR (chunk_id P vk pt) (\<lambda>cid.
     bindR (chunk_nonce P vk cid) (\<lambda>nonce.
     bindR (chunk_encryption_key P vk) (\<lambda>key.
     bindR (gcm_seal P key nonce aad pt) (\<lambda>(ct, tag).
       Inr \<lparr>ec_chunk_id = cid, ec_nonce = nonce, ec_ciphertext = ct, ec_gcm_tag = tag\<rparr>))))"

definition decrypt_chunk ::
  "crypto_prims \<Rightarrow> bytes \<Rightarrow> bytes \<Rightarrow> bytes \<Rightarrow> bytes \<Rightarrow> bytes \<Rightarrow> CryptoError + bytes" where
  "decrypt_chunk P vk expected aad ct tag =
     bindR (chunk_nonce P vk expected) (\<lambda>nonce.
     bindR (chunk_encryption_key P vk) (\<lambda>key.
     bindR (gcm_open P key nonce aad ct tag) (\<lambda>pt.
     bindR (chunk_id P vk pt) (\<lambda>actual.
       if actual \<noteq> expected then Inl (ChunkIdMismatch expected actual) else Inr pt))))"

definition encrypt_chunk_v2 ::
  "crypto_prims \<Rightarrow> bytes \<Rightarrow> bytes \<Rightarrow> bytes \<Rightarrow> bytes \<Rightarrow> CryptoError + EncryptedChunk" where
  "encrypt_chunk_v2 P rnd_nonce dek pt aad =
     bindR (chunk_id P dek pt) (\<lambda>cid.
     bindR (gcm_seal P dek rnd_nonce aad pt) (\<lambda>(ct, tag).
       Inr \<lparr>ec_chunk_id = cid, ec_nonce = rnd_nonce, ec_ciphertext = ct, ec_gcm_tag = tag\<rparr>))"

definition decrypt_chunk_v2 ::
  "crypto_prims \<Rightarrow> bytes \<Rightarrow> bytes \<Rightarrow> bytes \<Rightarrow> bytes \<Rightarrow> bytes \<Rightarrow> CryptoError + bytes" where
  "decrypt_chunk_v2 P dek nonce aad ct tag = gcm_open P dek nonce aad ct tag"

definition decrypt_chunk_v2_verified ::
  "crypto_prims \<Rightarrow> bytes \<Rightarrow> bytes \<Rightarrow> bytes \<Rightarrow> bytes \<Rightarrow> bytes \<Rightarrow> bytes \<Rightarrow> CryptoError + bytes" where
  "decrypt_chunk_v2_verified P dek expected nonce aad ct tag =
     bindR (decrypt_chunk_v2 P dek nonce aad ct tag) (\<lambda>pt.
     bindR (chunk_id P dek pt) (\<lambda>actual.
       if actual \<noteq> expected then Inl (ChunkIdMismatch expected actual) else Inr pt))"

section \<open>Key wrap and sealed secrets\<close>

definition wrap_key :: "crypto_prims \<Rightarrow> bytes \<Rightarrow> bytes \<Rightarrow> CryptoError + bytes" where
  "wrap_key P wk k = ok_or KeyWrap (kw_wrap P wk k)"

definition unwrap_key :: "crypto_prims \<Rightarrow> bytes \<Rightarrow> bytes \<Rightarrow> CryptoError + bytes" where
  "unwrap_key P wk w = ok_or KeyWrap (kw_unwrap P wk w)"

definition encrypt_secret ::
  "crypto_prims \<Rightarrow> bytes \<Rightarrow> bytes \<Rightarrow> bytes \<Rightarrow> bytes \<Rightarrow> CryptoError + bytes" where
  "encrypt_secret P rnd_nonce key pt aad =
     bindR (gcm_seal P key rnd_nonce aad pt) (\<lambda>(ct, tag). Inr (rnd_nonce @ ct @ tag))"

definition decrypt_secret ::
  "crypto_prims \<Rightarrow> bytes \<Rightarrow> bytes \<Rightarrow> bytes \<Rightarrow> CryptoError + bytes" where
  "decrypt_secret P key blob aad =
     (if length blob < CHUNK_NONCE_LEN + GCM_TAG_LEN then Inl Aead
      else
        let nonce = take CHUNK_NONCE_LEN blob;
            rest = drop CHUNK_NONCE_LEN blob;
            ct = take (length rest - GCM_TAG_LEN) rest;
            tag = drop (length rest - GCM_TAG_LEN) rest
        in gcm_open P key nonce aad ct tag)"

section \<open>Facts about the primitives in the form the operations use them\<close>

lemma prims_hmac: "prims_ok P \<Longrightarrow> \<exists>d. hmac_sha256 P k m = Some d \<and> length d = 32"
  by (simp add: prims_ok_def)

lemma prims_expand:
  "prims_ok P \<Longrightarrow> length k = 32 \<Longrightarrow> \<exists>d. expand_labeled_key P k i = Inr d \<and> length d = 32"
  unfolding prims_ok_def expand_labeled_key_def by (metis ok_or_simps(2))

lemma prims_seal:
  assumes "prims_ok P" and "length k = 32" and "length n = 12"
  shows "\<exists>c t. gcm_seal P k n a p = Inr (c, t) \<and> length c = length p \<and> length t = 16 \<and>
           gcm_open P k n a c t = Inr p"
proof -
  from assms have "gcm_key_ok P k" by (simp add: prims_ok_def)
  moreover from assms obtain c t where "gcm_encrypt P k n a p = Some (c, t)" "length c = length p"
    "length t = 16" "gcm_decrypt P k n a c t = Some p"
    unfolding prims_ok_def by metis
  ultimately show ?thesis by (simp add: gcm_seal_def gcm_open_def)
qed

lemma prims_wrap:
  assumes "prims_ok P" and "length k = 32" and "length p = 32"
  shows "\<exists>w. wrap_key P k p = Inr w \<and> length w = 40 \<and> unwrap_key P k w = Inr p"
proof -
  from assms obtain w where "kw_wrap P k p = Some w" "length w = 40" "kw_unwrap P k w = Some p"
    unfolding prims_ok_def by metis
  then show ?thesis by (simp add: wrap_key_def unwrap_key_def)
qed

lemma unwrap_len: "prims_ok P \<Longrightarrow> length w = WRAPPED_KEY_LEN \<Longrightarrow> unwrap_key P k w = Inr p \<Longrightarrow> length p = 32"
  by (simp add: prims_ok_def unwrap_key_def ok_or_eq_Inr WRAPPED_KEY_LEN_def KEY_LEN_def)

lemma prims_chunk_id: "prims_ok P \<Longrightarrow> \<exists>d. chunk_id P k m = Inr d \<and> length d = 32"
  using prims_hmac [of P k m] by (auto simp: chunk_id_def)

lemma prims_chunk_nonce: "prims_ok P \<Longrightarrow> \<exists>n. chunk_nonce P k cid = Inr n \<and> length n = 12"
  using prims_hmac [of P k "CHUNK_NONCE_PREFIX @ cid"]
  by (auto simp: chunk_nonce_def CHUNK_NONCE_LEN_def)

section \<open>The interface of an authenticated box\<close>

text \<open>
  Three formats of the repository promise the same thing: sealing succeeds, opening what was sealed
  gives it back. A format is a pair of operations over a context that fixes keys, randomness and
  associated data; \<open>ok\<close> says which contexts the promise covers.
\<close>

locale sealed_box =
  fixes seal :: "'c \<Rightarrow> 'p \<Rightarrow> 'e + 'b"
    and open_box :: "'c \<Rightarrow> 'b \<Rightarrow> 'e + 'p"
    and ok :: "'c \<Rightarrow> 'p \<Rightarrow> bool"
  assumes seal_open: "ok c p \<Longrightarrow> \<exists>b. seal c p = Inr b \<and> open_box c b = Inr p"
begin

lemma seal_succeeds: "ok c p \<Longrightarrow> \<exists>b. seal c p = Inr b"
  using seal_open by blast

lemma open_seal: "ok c p \<Longrightarrow> seal c p = Inr b \<Longrightarrow> open_box c b = Inr p"
  using seal_open by fastforce

lemma seal_inject:
  assumes "ok c p" and "ok c q" and "seal c p = seal c q"
  shows "p = q"
proof -
  from assms(1) obtain b where b: "seal c p = Inr b" "open_box c b = Inr p" using seal_open by blast
  from b(1) assms(3) have "seal c q = Inr b" by simp
  with assms(2) have "open_box c b = Inr q" by (rule open_seal)
  with b(2) show ?thesis by simp
qed

end

interpretation box_v1: sealed_box
  "\<lambda>(P, vk, aad). \<lambda>pt. encrypt_chunk P vk pt aad"
  "\<lambda>(P, vk, aad). \<lambda>e. decrypt_chunk P vk (ec_chunk_id e) aad (ec_ciphertext e) (ec_gcm_tag e)"
  "\<lambda>(P, vk, aad). \<lambda>pt. prims_ok P \<and> length vk = 32"
proof unfold_locales
  fix c :: "crypto_prims \<times> bytes \<times> bytes" and p :: bytes
  obtain P vk aad where c: "c = (P, vk, aad)" by (cases c) auto
  assume "(case c of (P, vk, aad) \<Rightarrow> \<lambda>pt. prims_ok P \<and> length vk = 32) p"
  with c have P: "prims_ok P" and vk: "length vk = 32" by auto
  obtain cid where cid: "chunk_id P vk p = Inr cid" using prims_chunk_id [OF P] by blast
  obtain n where n: "chunk_nonce P vk cid = Inr n" "length n = 12"
    using prims_chunk_nonce [OF P] by blast
  obtain k where k: "chunk_encryption_key P vk = Inr k" "length k = 32"
    unfolding chunk_encryption_key_def using prims_expand [OF P vk] by blast
  obtain ct t where "gcm_seal P k n aad p = Inr (ct, t)" "gcm_open P k n aad ct t = Inr p"
    using prims_seal [OF P k(2) n(2)] by blast
  then show "\<exists>b. (case c of (P, vk, aad) \<Rightarrow> \<lambda>pt. encrypt_chunk P vk pt aad) p = Inr b \<and>
      (case c of (P, vk, aad) \<Rightarrow> \<lambda>e. decrypt_chunk P vk (ec_chunk_id e) aad (ec_ciphertext e)
         (ec_gcm_tag e)) b = Inr p"
    using cid n(1) k(1) by (simp add: c encrypt_chunk_def decrypt_chunk_def)
qed

interpretation box_v2: sealed_box
  "\<lambda>(P, nonce, dek, aad). \<lambda>pt. encrypt_chunk_v2 P nonce dek pt aad"
  "\<lambda>(P, nonce, dek, aad). \<lambda>e. decrypt_chunk_v2_verified P dek (ec_chunk_id e) (ec_nonce e) aad
      (ec_ciphertext e) (ec_gcm_tag e)"
  "\<lambda>(P, nonce, dek, aad). \<lambda>pt. prims_ok P \<and> length dek = 32 \<and> length nonce = 12"
proof unfold_locales
  fix c :: "crypto_prims \<times> bytes \<times> bytes \<times> bytes" and p :: bytes
  obtain P n dek aad where c: "c = (P, n, dek, aad)" by (cases c) auto
  assume "(case c of (P, nonce, dek, aad) \<Rightarrow> \<lambda>pt. prims_ok P \<and> length dek = 32 \<and>
      length nonce = 12) p"
  with c have P: "prims_ok P" and dek: "length dek = 32" and n: "length n = 12" by auto
  obtain cid where cid: "chunk_id P dek p = Inr cid" using prims_chunk_id [OF P] by blast
  obtain ct t where "gcm_seal P dek n aad p = Inr (ct, t)" "gcm_open P dek n aad ct t = Inr p"
    using prims_seal [OF P dek n] by blast
  then show "\<exists>b. (case c of (P, nonce, dek, aad) \<Rightarrow> \<lambda>pt. encrypt_chunk_v2 P nonce dek pt aad) p = Inr b \<and>
      (case c of (P, nonce, dek, aad) \<Rightarrow> \<lambda>e. decrypt_chunk_v2_verified P dek (ec_chunk_id e)
         (ec_nonce e) aad (ec_ciphertext e) (ec_gcm_tag e)) b = Inr p"
    using cid by (simp add: c encrypt_chunk_v2_def decrypt_chunk_v2_verified_def decrypt_chunk_v2_def)
qed

lemma decrypt_secret_parts:
  assumes "length n = 12" and "length t = 16"
  shows "decrypt_secret P key (n @ ct @ t) aad = gcm_open P key n aad ct t"
  using assms by (simp add: decrypt_secret_def CHUNK_NONCE_LEN_def GCM_TAG_LEN_def)

interpretation box_secret: sealed_box
  "\<lambda>(P, nonce, key, aad). \<lambda>pt. encrypt_secret P nonce key pt aad"
  "\<lambda>(P, nonce, key, aad). \<lambda>blob. decrypt_secret P key blob aad"
  "\<lambda>(P, nonce, key, aad). \<lambda>pt. prims_ok P \<and> length key = 32 \<and> length nonce = 12"
proof unfold_locales
  fix c :: "crypto_prims \<times> bytes \<times> bytes \<times> bytes" and p :: bytes
  obtain P n key aad where c: "c = (P, n, key, aad)" by (cases c) auto
  assume "(case c of (P, nonce, key, aad) \<Rightarrow> \<lambda>pt. prims_ok P \<and> length key = 32 \<and>
      length nonce = 12) p"
  with c have P: "prims_ok P" and key: "length key = 32" and n: "length n = 12" by auto
  obtain ct t where "gcm_seal P key n aad p = Inr (ct, t)" "length t = 16"
    "gcm_open P key n aad ct t = Inr p"
    using prims_seal [OF P key n] by blast
  then show "\<exists>b. (case c of (P, nonce, key, aad) \<Rightarrow> \<lambda>pt. encrypt_secret P nonce key pt aad) p = Inr b \<and>
      (case c of (P, nonce, key, aad) \<Rightarrow> \<lambda>blob. decrypt_secret P key blob aad) b = Inr p"
    using decrypt_secret_parts [OF n, of t P key ct aad] by (simp add: c encrypt_secret_def)
qed

section \<open>Integrity\<close>

lemma decrypt_chunk_sound:
  "decrypt_chunk P vk expected aad ct tag = Inr pt \<Longrightarrow> chunk_id P vk pt = Inr expected"
  by (auto simp: decrypt_chunk_def bindR_eq_Inr split: if_splits)

lemma decrypt_chunk_v2_verified_sound:
  "decrypt_chunk_v2_verified P dek expected nonce aad ct tag = Inr pt \<Longrightarrow>
     chunk_id P dek pt = Inr expected"
  by (auto simp: decrypt_chunk_v2_verified_def bindR_eq_Inr split: if_splits)

text \<open>A concrete set of primitives that behaves as documented, for the witnesses.\<close>

definition xor_prims :: crypto_prims where
  "xor_prims = \<lparr>hmac_sha256 = (\<lambda>k m. Some (take 32 (k @ m @ replicate 32 0))),
     hkdf_from_prk = (\<lambda>k. 32 \<le> length k),
     hkdf_expand = (\<lambda>k i. Some (take 32 (i @ k @ replicate 32 0))),
     argon2_params_ok = (\<lambda>m t l. 8 \<le> m \<and> 1 \<le> t \<and> 1 \<le> l),
     argon2_hash = (\<lambda>m t l p s. Some (take 32 (p @ s @ replicate 32 0))),
     gcm_key_ok = (\<lambda>k. length k = 32),
     gcm_encrypt = (\<lambda>k n a p. Some (map (\<lambda>b. b XOR hd k) p, take 16 (n @ a @ replicate 16 0))),
     gcm_decrypt = (\<lambda>k n a c t. if t = take 16 (n @ a @ replicate 16 0)
                                 then Some (map (\<lambda>b. b XOR hd k) c) else None),
     kw_wrap = (\<lambda>k p. Some (p @ take 8 k)),
     kw_unwrap = (\<lambda>k w. if drop 32 w = take 8 k then Some (take 32 w) else None)\<rparr>"

lemma xor_prims_ok: "prims_ok xor_prims"
  by (auto simp: prims_ok_def xor_prims_def comp_def xor.assoc map_idI)

section \<open>Properties\<close>

text \<open>
  Content addressing of chunks. Whatever a verified read returns, V1 or V2, has the expected
  chunk id; and encrypting a chunk always succeeds and decrypts, under the id, nonce and tag it
  produced, to the same plaintext.
\<close>

theorem chunk_encryption_roundtrip:
  assumes P: "prims_ok P" and key: "length key = 32" and nonce: "length nonce = 12"
  shows "(\<exists>e. encrypt_chunk P key pt aad = Inr e \<and>
            decrypt_chunk P key (ec_chunk_id e) aad (ec_ciphertext e) (ec_gcm_tag e) = Inr pt) \<and>
         (\<exists>e. encrypt_chunk_v2 P nonce key pt aad = Inr e \<and>
            decrypt_chunk_v2_verified P key (ec_chunk_id e) (ec_nonce e) aad
              (ec_ciphertext e) (ec_gcm_tag e) = Inr pt) \<and>
         (\<forall>expected ct tag x. decrypt_chunk P key expected aad ct tag = Inr x \<longrightarrow>
            chunk_id P key x = Inr expected) \<and>
         (\<forall>expected n ct tag x. decrypt_chunk_v2_verified P key expected n aad ct tag = Inr x \<longrightarrow>
            chunk_id P key x = Inr expected)"
  using box_v1.seal_open [of "(P, key, aad)" pt] box_v2.seal_open [of "(P, nonce, key, aad)" pt]
    assms decrypt_chunk_sound decrypt_chunk_v2_verified_sound by auto

theorem chunk_encryption_roundtrip_witness:
  "\<exists>e. encrypt_chunk xor_prims (replicate 32 5) [1, 2, 3] [] = Inr e \<and>
     decrypt_chunk xor_prims (replicate 32 5) (ec_chunk_id e) [] (ec_ciphertext e) (ec_gcm_tag e) =
     Inr [1, 2, 3]"
  using chunk_encryption_roundtrip [OF xor_prims_ok, of "replicate 32 5" "replicate 12 1"
      "[1, 2, 3]" "[]"] by simp

text \<open>
  A sealed secret opens to what was sealed, for every plaintext, and a blob too short to hold
  a nonce and a tag is refused before the cipher is called.
\<close>

theorem sealed_secret_roundtrip:
  assumes "prims_ok P" and "length key = 32" and "length nonce = 12"
  shows "(\<exists>blob. encrypt_secret P nonce key pt aad = Inr blob \<and>
            length blob = 12 + length pt + 16 \<and> decrypt_secret P key blob aad = Inr pt) \<and>
         (\<forall>blob. length blob < 28 \<longrightarrow> decrypt_secret P key blob aad = Inl Aead)"
proof -
  obtain ct t where "gcm_seal P key nonce aad pt = Inr (ct, t)" "length ct = length pt"
    "length t = 16" "gcm_open P key nonce aad ct t = Inr pt"
    using prims_seal [OF assms] by blast
  then have "\<exists>blob. encrypt_secret P nonce key pt aad = Inr blob \<and>
      length blob = 12 + length pt + 16 \<and> decrypt_secret P key blob aad = Inr pt"
    using decrypt_secret_parts [OF assms(3), of t P key ct aad] assms(3)
    by (simp add: encrypt_secret_def)
  then show ?thesis by (simp add: decrypt_secret_def CHUNK_NONCE_LEN_def GCM_TAG_LEN_def)
qed

theorem sealed_secret_roundtrip_witness:
  "\<exists>blob. encrypt_secret xor_prims (replicate 12 1) (replicate 32 5) [1, 2, 3] [] = Inr blob \<and>
     decrypt_secret xor_prims (replicate 32 5) blob [] = Inr [1, 2, 3]"
  using sealed_secret_roundtrip [OF xor_prims_ok, of "replicate 32 5" "replicate 12 1"
      "[1, 2, 3]" "[]"] by auto

end
