(* ===== verification/Hybrid.thy ===== *)
theory Hybrid
  imports Crypto
begin

text \<open>
  \<^verbatim>\<open>omnidrive-core/src/pqkem.rs\<close> and \<^verbatim>\<open>omnidrive-core/src/hybrid.rs\<close>: the X25519 + ML-KEM-768 wrap of the
  vault key. ML-KEM and salted HKDF are crates outside the repository and are parameters
  (\<open>kem_prims\<close>); the encapsulation's randomness is an argument.
\<close>

section \<open>ML-KEM-768\<close>

definition ML_KEM_768_ENCAPS_KEY_LEN :: nat where "ML_KEM_768_ENCAPS_KEY_LEN = 1184"
definition ML_KEM_768_DECAPS_KEY_LEN :: nat where "ML_KEM_768_DECAPS_KEY_LEN = 2400"
definition ML_KEM_768_CIPHERTEXT_LEN :: nat where "ML_KEM_768_CIPHERTEXT_LEN = 1088"
definition ML_KEM_768_SHARED_SECRET_LEN :: nat where "ML_KEM_768_SHARED_SECRET_LEN = 32"

record kem_prims =
  kem_encaps :: "bytes \<Rightarrow> bytes \<Rightarrow> bytes \<times> bytes"
  kem_decaps :: "bytes \<Rightarrow> bytes \<Rightarrow> bytes"
  kem_pair :: "bytes \<Rightarrow> bytes \<Rightarrow> bool"
  hkdf_salted :: "bytes \<Rightarrow> bytes \<Rightarrow> bytes \<Rightarrow> bytes option"

text \<open>
  FIPS 203 and RFC 5869: both keys of a pair have their fixed lengths, encapsulation gives a
  1088-byte ciphertext and a 32-byte secret, decapsulation with the pair's secret key recovers the
  secret, and HKDF-SHA256 expands to 32 bytes.
\<close>

definition kem_ok :: "kem_prims \<Rightarrow> bool" where
  "kem_ok K \<longleftrightarrow>
     (\<forall>ek dk. kem_pair K ek dk \<longrightarrow> length ek = 1184 \<and> length dk = 2400 \<and>
        (\<forall>r. length (fst (kem_encaps K r ek)) = 1088 \<and> length (snd (kem_encaps K r ek)) = 32 \<and>
             kem_decaps K dk (fst (kem_encaps K r ek)) = snd (kem_encaps K r ek))) \<and>
     (\<forall>s ikm info. \<exists>k. hkdf_salted K s ikm info = Some k \<and> length k = 32)"

datatype PqKemError = InvalidEncapsKeyLen nat | InvalidDecapsKeyLen nat | InvalidCiphertextLen nat

definition ml_kem_encapsulate ::
  "kem_prims \<Rightarrow> bytes \<Rightarrow> bytes \<Rightarrow> PqKemError + bytes \<times> bytes" where
  "ml_kem_encapsulate K r ek =
     (if length ek \<noteq> ML_KEM_768_ENCAPS_KEY_LEN then Inl (InvalidEncapsKeyLen (length ek))
      else Inr (kem_encaps K r ek))"

definition ml_kem_decapsulate :: "kem_prims \<Rightarrow> bytes \<Rightarrow> bytes \<Rightarrow> PqKemError + bytes" where
  "ml_kem_decapsulate K dk ct =
     (if length dk \<noteq> ML_KEM_768_DECAPS_KEY_LEN then Inl (InvalidDecapsKeyLen (length dk))
      else if length ct \<noteq> ML_KEM_768_CIPHERTEXT_LEN then Inl (InvalidCiphertextLen (length ct))
      else Inr (kem_decaps K dk ct))"

section \<open>The hybrid wrap\<close>

definition HYBRID_WRAP_SALT :: bytes where
  "HYBRID_WRAP_SALT = str_bytes ''omnidrive-hybrid-wrap-v1''"
definition HYBRID_WRAP_VERSION :: string where "HYBRID_WRAP_VERSION = ''v3-hybrid''"
definition HYBRID_WRAPPED_LEN :: nat where
  "HYBRID_WRAPPED_LEN = ML_KEM_768_CIPHERTEXT_LEN + WRAPPED_KEY_LEN"

record HybridWrapContext =
  hw_version :: string
  hw_vault_id :: string
  hw_device_id :: string

datatype HybridError = PqKem PqKemError | CryptoErr CryptoError | InvalidBlobLen nat

text \<open>\<open>field.len() as u32\<close> keeps the low 32 bits of the length.\<close>

definition append_field :: "bytes \<Rightarrow> bytes \<Rightarrow> bytes" where
  "append_field info field = info @ be_encode 4 (length field mod 2 ^ 32) @ field"

definition hybrid_transcript :: "HybridWrapContext \<Rightarrow> bytes \<Rightarrow> bytes \<Rightarrow> bytes" where
  "hybrid_transcript ctx kyber_ct their_ek =
     append_field (append_field (append_field (append_field (append_field []
       (str_bytes (hw_version ctx))) (str_bytes (hw_vault_id ctx))) (str_bytes (hw_device_id ctx)))
       kyber_ct) their_ek"

definition derive_hybrid_kek ::
  "kem_prims \<Rightarrow> bytes \<Rightarrow> bytes \<Rightarrow> bytes \<Rightarrow> bytes \<Rightarrow> HybridWrapContext \<Rightarrow> HybridError + bytes" where
  "derive_hybrid_kek K x25519_ss mlkem_ss kyber_ct their_ek ctx =
     ok_or (CryptoErr HkdfExpand)
       (hkdf_salted K HYBRID_WRAP_SALT (x25519_ss @ mlkem_ss)
          (hybrid_transcript ctx kyber_ct their_ek))"

definition hybrid_wrap_vault_key ::
  "crypto_prims \<Rightarrow> kem_prims \<Rightarrow> bytes \<Rightarrow> bytes \<Rightarrow> bytes \<Rightarrow> bytes \<Rightarrow> HybridWrapContext
     \<Rightarrow> HybridError + bytes" where
  "hybrid_wrap_vault_key P K r x_ss their_ek vk ctx =
     bindR (map_err PqKem (ml_kem_encapsulate K r their_ek)) (\<lambda>(kyber_ct, mlkem_ss).
     bindR (derive_hybrid_kek K x_ss mlkem_ss kyber_ct their_ek ctx) (\<lambda>kek.
     bindR (map_err CryptoErr (wrap_key P kek vk)) (\<lambda>wrapped.
       Inr (kyber_ct @ wrapped))))"

definition hybrid_unwrap_vault_key ::
  "crypto_prims \<Rightarrow> kem_prims \<Rightarrow> bytes \<Rightarrow> bytes \<Rightarrow> bytes \<Rightarrow> bytes \<Rightarrow> HybridWrapContext
     \<Rightarrow> HybridError + bytes" where
  "hybrid_unwrap_vault_key P K x_ss my_dk their_ek blob ctx =
     (if length blob \<noteq> HYBRID_WRAPPED_LEN then Inl (InvalidBlobLen (length blob))
      else
        let kyber_ct = take ML_KEM_768_CIPHERTEXT_LEN blob;
            wrapped = drop ML_KEM_768_CIPHERTEXT_LEN blob
        in
          bindR (map_err PqKem (ml_kem_decapsulate K my_dk kyber_ct)) (\<lambda>mlkem_ss.
          bindR (derive_hybrid_kek K x_ss mlkem_ss kyber_ct their_ek ctx) (\<lambda>kek.
          if length wrapped \<noteq> WRAPPED_KEY_LEN then Inl (InvalidBlobLen (length blob))
          else map_err CryptoErr (unwrap_key P kek wrapped))))"

lemmas hybrid_lens = HYBRID_WRAPPED_LEN_def ML_KEM_768_CIPHERTEXT_LEN_def WRAPPED_KEY_LEN_def
  KEY_LEN_def ML_KEM_768_ENCAPS_KEY_LEN_def ML_KEM_768_DECAPS_KEY_LEN_def

section \<open>Length-prefixed fields\<close>

lemma append_field_inject:
  assumes eq: "append_field a f @ r = append_field b g @ s" and len: "length a = length b"
    and f: "length f < 2 ^ 32" and g: "length g < 2 ^ 32"
  shows "a = b \<and> f = g \<and> r = s"
proof -
  from eq len have ab: "a = b" and rest: "be_encode 4 (length f mod 2 ^ 32) @ f @ r =
      be_encode 4 (length g mod 2 ^ 32) @ g @ s"
    by (simp_all add: append_field_def)
  from rest have enc: "be_encode 4 (length f mod 2 ^ 32) = be_encode 4 (length g mod 2 ^ 32)"
    and fg: "f @ r = g @ s"
    by (simp_all add: append_eq_append_conv)
  from enc f g have "length f = length g"
    using be_encode_inject [of 4 "length f" "length g"] by simp
  with ab fg show ?thesis by simp
qed

lemma append_field_assoc: "append_field a f = a @ append_field [] f"
  by (simp add: append_field_def)

lemma hybrid_transcript_fields:
  "hybrid_transcript ctx ct ek =
     append_field [] (str_bytes (hw_version ctx)) @ append_field [] (str_bytes (hw_vault_id ctx)) @
     append_field [] (str_bytes (hw_device_id ctx)) @ append_field [] ct @ append_field [] ek"
  by (simp add: hybrid_transcript_def append_field_def)

definition fields_fit :: "HybridWrapContext \<Rightarrow> bytes \<Rightarrow> bytes \<Rightarrow> bool" where
  "fields_fit ctx ct ek \<longleftrightarrow> length (hw_version ctx) < 2 ^ 32 \<and> length (hw_vault_id ctx) < 2 ^ 32 \<and>
     length (hw_device_id ctx) < 2 ^ 32 \<and> length ct < 2 ^ 32 \<and> length ek < 2 ^ 32"

interpretation box_hybrid: sealed_box
  "\<lambda>(P, K, r, x_ss, ek, dk, ctx). \<lambda>vk. hybrid_wrap_vault_key P K r x_ss ek vk ctx"
  "\<lambda>(P, K, r, x_ss, ek, dk, ctx). \<lambda>blob. hybrid_unwrap_vault_key P K x_ss dk ek blob ctx"
  "\<lambda>(P, K, r, x_ss, ek, dk, ctx). \<lambda>vk. prims_ok P \<and> kem_ok K \<and> kem_pair K ek dk \<and> length vk = 32"
proof (unfold_locales, clarify)
  fix P :: crypto_prims and K :: kem_prims and r x_ss ek dk vk :: bytes
    and ctx :: HybridWrapContext
  assume P: "prims_ok P" and K: "kem_ok K" and pair: "kem_pair K ek dk" and vk: "length vk = 32"
  obtain ct ss where enc: "kem_encaps K r ek = (ct, ss)" by (cases "kem_encaps K r ek")
  from K pair have ek: "length ek = 1184" and dk: "length dk = 2400"
    and e: "length (fst (kem_encaps K r ek)) = 1088"
    "kem_decaps K dk (fst (kem_encaps K r ek)) = snd (kem_encaps K r ek)"
    by (auto simp: kem_ok_def)
  with enc have ct: "length ct = 1088" and dec: "kem_decaps K dk ct = ss" by simp_all
  from K obtain kek where kek: "derive_hybrid_kek K x_ss ss ct ek ctx = Inr kek" "length kek = 32"
    unfolding kem_ok_def derive_hybrid_kek_def by (metis ok_or_simps(2))
  from prims_wrap [OF P kek(2) vk] obtain w where w: "wrap_key P kek vk = Inr w"
    "length w = 40" "unwrap_key P kek w = Inr vk"
    by blast
  have "hybrid_wrap_vault_key P K r x_ss ek vk ctx = Inr (ct @ w)"
    by (simp add: hybrid_wrap_vault_key_def ml_kem_encapsulate_def hybrid_lens ek enc kek w)
  moreover have "hybrid_unwrap_vault_key P K x_ss dk ek (ct @ w) ctx = Inr vk"
    by (simp add: hybrid_unwrap_vault_key_def ml_kem_decapsulate_def hybrid_lens dk ct dec kek w)
  ultimately show "\<exists>b. hybrid_wrap_vault_key P K r x_ss ek vk ctx = Inr b \<and>
      hybrid_unwrap_vault_key P K x_ss dk ek b ctx = Inr vk"
    by blast
qed

section \<open>Properties\<close>

text \<open>
  C26: the transcript that binds the wrapping key is injective. Two transcripts are equal only if
  version, vault id, device id, ciphertext and encapsulation key are all equal, as long as no field
  reaches 4 GiB: a wrapped key cannot be moved to another version, vault, device or key pair
  without changing the HKDF input.
\<close>

theorem hybrid_transcript_inject:
  assumes "hybrid_transcript c1 ct1 ek1 = hybrid_transcript c2 ct2 ek2"
    and "fields_fit c1 ct1 ek1" and "fields_fit c2 ct2 ek2"
  shows "hw_version c1 = hw_version c2 \<and> hw_vault_id c1 = hw_vault_id c2 \<and>
         hw_device_id c1 = hw_device_id c2 \<and> ct1 = ct2 \<and> ek1 = ek2"
proof -
  note fits = assms(2,3) [unfolded fields_fit_def]
  note step = append_field_inject [of "[]" _ _ "[]", simplified]
  from assms(1) have 1: "hw_version c1 = hw_version c2"
    and r1: "append_field [] (str_bytes (hw_vault_id c1)) @ append_field [] (str_bytes (hw_device_id c1)) @
        append_field [] ct1 @ append_field [] ek1 =
      append_field [] (str_bytes (hw_vault_id c2)) @ append_field [] (str_bytes (hw_device_id c2)) @
        append_field [] ct2 @ append_field [] ek2"
    unfolding hybrid_transcript_fields using fits by (auto dest: step)
  from r1 have 2: "hw_vault_id c1 = hw_vault_id c2"
    and r2: "append_field [] (str_bytes (hw_device_id c1)) @ append_field [] ct1 @ append_field [] ek1 =
      append_field [] (str_bytes (hw_device_id c2)) @ append_field [] ct2 @ append_field [] ek2"
    using fits by (auto dest: step)
  from r2 have 3: "hw_device_id c1 = hw_device_id c2"
    and r3: "append_field [] ct1 @ append_field [] ek1 = append_field [] ct2 @ append_field [] ek2"
    using fits by (auto dest: step)
  from r3 have 4: "ct1 = ct2" and r4: "append_field [] ek1 @ [] = append_field [] ek2 @ []"
    using fits by (auto dest: step)
  from r4 have "ek1 = ek2" using step [of ek1 "[]" ek2 "[]"] fits by simp
  with 1 2 3 4 show ?thesis by simp
qed

definition sample_ctx :: HybridWrapContext where
  "sample_ctx = \<lparr>hw_version = HYBRID_WRAP_VERSION, hw_vault_id = ''vault-1'', hw_device_id = ''dev-1''\<rparr>"

theorem hybrid_transcript_inject_witness:
  "fields_fit sample_ctx [1, 2] [3] \<and> hw_version sample_ctx = hw_version sample_ctx \<and>
   hw_device_id sample_ctx = hw_device_id sample_ctx \<and> [1, 2] = [1, 2 :: byte]"
  using hybrid_transcript_inject [of sample_ctx "[1, 2]" "[3]" sample_ctx "[1, 2]" "[3]"]
  by (simp add: fields_fit_def sample_ctx_def HYBRID_WRAP_VERSION_def)

text \<open>
  The hybrid wrap. For a genuine ML-KEM key pair, wrapping any 32-byte vault key succeeds, the
  blob is exactly 1128 bytes and unwrapping it with the same context gives the key back; a blob of
  any other length is refused before a key is touched.
\<close>

theorem hybrid_wrap_roundtrip:
  assumes "prims_ok P" and "kem_ok K" and "kem_pair K ek dk" and "length vk = 32"
  shows "(\<exists>blob. hybrid_wrap_vault_key P K r x_ss ek vk ctx = Inr blob \<and>
            hybrid_unwrap_vault_key P K x_ss dk ek blob ctx = Inr vk) \<and>
         (\<forall>blob. hybrid_wrap_vault_key P K r x_ss ek vk ctx = Inr blob \<longrightarrow> length blob = 1128) \<and>
         (\<forall>blob. length blob \<noteq> 1128 \<longrightarrow>
            hybrid_unwrap_vault_key P K x_ss dk ek blob ctx = Inl (InvalidBlobLen (length blob)))"
proof -
  have rt: "\<exists>blob. hybrid_wrap_vault_key P K r x_ss ek vk ctx = Inr blob \<and>
      hybrid_unwrap_vault_key P K x_ss dk ek blob ctx = Inr vk"
    using box_hybrid.seal_open [of "(P, K, r, x_ss, ek, dk, ctx)" vk] assms by simp
  have bad: "hybrid_unwrap_vault_key P K x_ss dk ek blob ctx = Inl (InvalidBlobLen (length blob))"
    if "length blob \<noteq> 1128" for blob
    using that by (simp add: hybrid_unwrap_vault_key_def hybrid_lens)
  with rt have "length blob = 1128" if "hybrid_wrap_vault_key P K r x_ss ek vk ctx = Inr blob" for blob
    using that by fastforce
  with rt bad show ?thesis by blast
qed

definition toy_kem :: kem_prims where
  "toy_kem = \<lparr>kem_encaps = (\<lambda>r ek. (take 1088 (r @ replicate 1088 0), take 32 (r @ replicate 32 0))),
     kem_decaps = (\<lambda>dk ct. take 32 ct),
     kem_pair = (\<lambda>ek dk. length ek = 1184 \<and> length dk = 2400),
     hkdf_salted = (\<lambda>s ikm info. Some (take 32 (ikm @ replicate 32 0)))\<rparr>"

lemma take_32_pad: "take 32 (take 1088 (r @ replicate 1088 (0 :: byte))) = take 32 (r @ replicate 32 0)"
  by (auto simp: min_def)

lemma toy_kem_ok: "kem_ok toy_kem"
  by (auto simp: kem_ok_def toy_kem_def take_32_pad)

definition toy_ek :: bytes where "toy_ek = replicate 1184 1"
definition toy_dk :: bytes where "toy_dk = replicate 2400 2"

lemma toy_pair: "kem_pair toy_kem toy_ek toy_dk"
proof -
  have "length toy_ek = 1184" unfolding toy_ek_def by (rule length_replicate)
  moreover have "length toy_dk = 2400" unfolding toy_dk_def by (rule length_replicate)
  ultimately show ?thesis by (simp add: toy_kem_def)
qed

theorem hybrid_wrap_roundtrip_witness:
  "\<exists>blob. hybrid_wrap_vault_key xor_prims toy_kem [9] (replicate 32 7) toy_ek
       (replicate 32 3) sample_ctx = Inr blob \<and>
     hybrid_unwrap_vault_key xor_prims toy_kem (replicate 32 7) toy_dk toy_ek blob sample_ctx =
     Inr (replicate 32 3)"
  by (rule hybrid_wrap_roundtrip [OF xor_prims_ok toy_kem_ok toy_pair length_replicate,
        THEN conjunct1])

end
