(* ===== verification/PackStore.thy ===== *)
theory PackStore
  imports Prelude
begin

text \<open>
  The SQLite state the storage engine works on, and the statements of \<^verbatim>\<open>db/packs.rs\<close>,
  \<^verbatim>\<open>db/shards.rs\<close> and \<^verbatim>\<open>db/chunks.rs\<close>. A table is the list of its rows in rowid order, with the
  columns of \<^verbatim>\<open>db/schema.rs\<close>; a statement is a function on the database, and it returns a
  \<open>sqlx_error\<close> exactly where a constraint of the schema or a missing row makes SQLite refuse it.
  Foreign keys are enforced (\<open>PRAGMA foreign_keys = ON\<close>), with their cascades. The current time
  \<open>julianday('now')\<close>, in milliseconds, is the argument \<open>now\<close>; an \<open>AUTOINCREMENT\<close> id is one
  more than every id the table has handed out. Failures of the disk or the driver are not modelled.
\<close>

named_theorems db_defs \<open>definitions of the database operations\<close>

section \<open>Enumerations of db/mod.rs\<close>

datatype PackStatus = Uploading | Healthy | Degraded | Unreadable

fun PackStatus_as_str :: "PackStatus \<Rightarrow> string" where
  "PackStatus_as_str Uploading = ''UPLOADING''"
| "PackStatus_as_str Healthy = ''COMPLETED_HEALTHY''"
| "PackStatus_as_str Degraded = ''COMPLETED_DEGRADED''"
| "PackStatus_as_str Unreadable = ''UNREADABLE''"

datatype ShardRole = Data | Parity

fun ShardRole_as_str :: "ShardRole \<Rightarrow> string" where
  "ShardRole_as_str Data = ''DATA''"
| "ShardRole_as_str Parity = ''PARITY''"

datatype StorageMode = Ec2_1 | SingleReplica | LocalOnly

fun StorageMode_as_str :: "StorageMode \<Rightarrow> string" where
  "StorageMode_as_str Ec2_1 = ''EC_2_1''"
| "StorageMode_as_str SingleReplica = ''SINGLE_REPLICA''"
| "StorageMode_as_str LocalOnly = ''LOCAL_ONLY''"

definition StorageMode_from_str :: "string \<Rightarrow> StorageMode" where
  "StorageMode_from_str v =
     (if v = ''SINGLE_REPLICA'' then SingleReplica
      else if v = ''LOCAL_ONLY'' then LocalOnly else Ec2_1)"

definition StorageMode_from_policy_type :: "string \<Rightarrow> StorageMode" where
  "StorageMode_from_policy_type v =
     (if v = ''STANDARD'' then SingleReplica else if v = ''LOCAL'' then LocalOnly else Ec2_1)"

section \<open>Tables\<close>

text \<open>
  The errors that follow from a statement and its arguments, and \<open>Database\<close> for the rest (a full disk, a locked or damaged
  database), which only the operations with a fault argument meet.
\<close>

datatype sqlx_error = RowNotFound | UniqueViolation | ForeignKeyViolation | InvalidArgument | Database

record PackRecord =
  pk_pack_id :: string
  pk_chunk_id :: bytes
  pk_plaintext_hash :: "string option"
  pk_storage_mode :: string
  pk_encryption_version :: int
  pk_ec_scheme :: string
  pk_logical_size :: int
  pk_cipher_size :: int
  pk_shard_size :: int
  pk_nonce :: bytes
  pk_gcm_tag :: bytes
  pk_status :: string
  pk_repair_attempts :: "int option"
  pk_repair_next_attempt_at :: "int option"

record PackShardRecord =
  sh_id :: int
  sh_pack_id :: string
  sh_shard_index :: int
  sh_shard_role :: string
  sh_provider :: string
  sh_object_key :: string
  sh_size :: int
  sh_checksum :: string
  sh_status :: string
  sh_attempts :: "int option"
  sh_last_error :: "string option"
  sh_last_verified_at :: "int option"
  sh_last_verification_method :: "string option"
  sh_last_verification_status :: "string option"
  sh_last_verified_size :: "int option"
  sh_verification_failures :: int

record PackLocation =
  pl_chunk_id :: bytes
  pl_pack_id :: string
  pl_pack_offset :: int
  pl_encrypted_size :: int

record ChunkRefRecord =
  cref_id :: int
  cref_revision_id :: int
  cref_chunk_id :: bytes
  cref_file_offset :: int
  cref_size :: int

record FileRevisionRecord =
  fr_revision_id :: int
  fr_inode_id :: int
  fr_created_at :: int
  fr_size :: int
  fr_is_current :: int
  fr_immutable_until :: "int option"
  fr_device_id :: "string option"
  fr_parent_revision_id :: "int option"
  fr_origin :: string
  fr_conflict_reason :: "string option"

record UploadJob =
  uj_id :: int
  uj_pack_id :: string
  uj_status :: string
  uj_attempts :: "int option"
  uj_next_attempt_at :: "int option"

record UploadTargetRecord =
  ut_id :: int
  ut_job_id :: int
  ut_provider :: string
  ut_status :: string
  ut_attempts :: "int option"
  ut_last_error :: "string option"
  ut_bucket :: "string option"
  ut_object_key :: "string option"
  ut_etag :: "string option"
  ut_version_id :: "string option"
  ut_last_attempt_at :: "int option"
  ut_updated_at :: "int option"
  ut_completed_at :: "int option"

record InodeRecord =
  in_id :: int
  in_parent_id :: "int option"
  in_name :: string
  in_kind :: string
  in_size :: int
  in_mode :: "int option"
  in_mtime :: "int option"
  in_deleted_at :: "int option"

record SyncPolicyRecord =
  sp_policy_id :: int
  sp_path_prefix :: string
  sp_require_healthy :: int
  sp_enable_versioning :: int
  sp_policy_type :: string

record db =
  packs :: "PackRecord list"
  pack_shards :: "PackShardRecord list"
  pack_shards_seq :: int
  pack_locations :: "PackLocation list"
  chunk_refs :: "ChunkRefRecord list"
  chunk_refs_seq :: int
  file_revisions :: "FileRevisionRecord list"
  file_revisions_seq :: int
  upload_jobs :: "UploadJob list"
  upload_jobs_seq :: int
  upload_job_targets :: "UploadTargetRecord list"
  upload_job_targets_seq :: int
  inodes :: "InodeRecord list"
  inodes_seq :: int
  sync_policies :: "SyncPolicyRecord list"
  sync_policies_seq :: int

definition empty_db :: db where
  "empty_db = \<lparr>packs = [], pack_shards = [], pack_shards_seq = 0, pack_locations = [],
     chunk_refs = [], chunk_refs_seq = 0, file_revisions = [], file_revisions_seq = 0,
     upload_jobs = [], upload_jobs_seq = 0, upload_job_targets = [], upload_job_targets_seq = 0,
     inodes = [], inodes_seq = 0, sync_policies = [], sync_policies_seq = 0\<rparr>"

text \<open>The constraints of the schema, as an invariant of the database.\<close>

definition shard_key :: "PackShardRecord \<Rightarrow> string \<times> int" where
  "shard_key r = (sh_pack_id r, sh_shard_index r)"

definition shard_place :: "PackShardRecord \<Rightarrow> string \<times> string" where
  "shard_place r = (sh_pack_id r, sh_provider r)"

definition target_key :: "UploadTargetRecord \<Rightarrow> int \<times> string" where
  "target_key r = (ut_job_id r, ut_provider r)"

definition inode_key :: "InodeRecord \<Rightarrow> int option \<times> string" where
  "inode_key r = (in_parent_id r, in_name r)"

definition live_inode :: "InodeRecord \<Rightarrow> bool" where
  "live_inode r \<longleftrightarrow> in_deleted_at r = None"

definition live_key :: "InodeRecord \<Rightarrow> int \<times> string" where
  "live_key r = (coalesce (in_parent_id r) (- 1), in_name r)"

definition refers_to :: "'k list \<Rightarrow> 'k option \<Rightarrow> bool" where
  "refers_to ids x = (case x of None \<Rightarrow> True | Some i \<Rightarrow> i \<in> set ids)"

definition inodes_ok :: "db \<Rightarrow> bool" where
  "inodes_ok s \<longleftrightarrow>
     distinct (map in_id (inodes s)) \<and>
     list_all (\<lambda>r. 0 < in_id r \<and> in_id r \<le> inodes_seq s) (inodes s) \<and> 0 \<le> inodes_seq s \<and>
     list_all (\<lambda>r. refers_to (map in_id (inodes s)) (in_parent_id r)) (inodes s) \<and>
     distinct (map inode_key (filter (\<lambda>r. in_parent_id r \<noteq> None) (inodes s))) \<and>
     distinct (map live_key (filter live_inode (inodes s))) \<and>
     list_all (\<lambda>r. fr_inode_id r \<in> set (map in_id (inodes s))) (file_revisions s) \<and>
     list_all (\<lambda>r. refers_to (map fr_revision_id (file_revisions s)) (fr_parent_revision_id r))
       (file_revisions s) \<and>
     distinct (map sp_policy_id (sync_policies s)) \<and>
     distinct (map sp_path_prefix (sync_policies s)) \<and>
     list_all (\<lambda>r. sp_policy_id r \<le> sync_policies_seq s) (sync_policies s)"

lemma inodes_ok_other_tables [simp]:
  "inodes_ok (s\<lparr>packs := x1\<rparr>) = inodes_ok s"
  "inodes_ok (s\<lparr>pack_shards := x2\<rparr>) = inodes_ok s"
  "inodes_ok (s\<lparr>pack_shards_seq := x3\<rparr>) = inodes_ok s"
  "inodes_ok (s\<lparr>pack_locations := x4\<rparr>) = inodes_ok s"
  "inodes_ok (s\<lparr>chunk_refs := x5\<rparr>) = inodes_ok s"
  "inodes_ok (s\<lparr>chunk_refs_seq := x6\<rparr>) = inodes_ok s"
  "inodes_ok (s\<lparr>file_revisions_seq := x7\<rparr>) = inodes_ok s"
  "inodes_ok (s\<lparr>upload_jobs := x8\<rparr>) = inodes_ok s"
  "inodes_ok (s\<lparr>upload_jobs_seq := x9\<rparr>) = inodes_ok s"
  "inodes_ok (s\<lparr>upload_job_targets := x10\<rparr>) = inodes_ok s"
  "inodes_ok (s\<lparr>upload_job_targets_seq := x11\<rparr>) = inodes_ok s"
  by (simp_all add: inodes_ok_def)

definition schema_ok :: "db \<Rightarrow> bool" where
  "schema_ok s \<longleftrightarrow> inodes_ok s \<and>
     distinct (map pk_pack_id (packs s)) \<and>
     distinct (map sh_id (pack_shards s)) \<and>
     distinct (map shard_key (pack_shards s)) \<and>
     distinct (map shard_place (pack_shards s)) \<and>
     list_all (\<lambda>r. sh_id r \<le> pack_shards_seq s) (pack_shards s) \<and>
     list_all (\<lambda>r. sh_pack_id r \<in> set (map pk_pack_id (packs s))) (pack_shards s) \<and>
     distinct (map pl_chunk_id (pack_locations s)) \<and>
     distinct (map cref_id (chunk_refs s)) \<and>
     list_all (\<lambda>r. cref_id r \<le> chunk_refs_seq s) (chunk_refs s) \<and>
     list_all (\<lambda>r. cref_revision_id r \<in> set (map fr_revision_id (file_revisions s))) (chunk_refs s) \<and>
     distinct (map fr_revision_id (file_revisions s)) \<and>
     list_all (\<lambda>r. fr_revision_id r \<le> file_revisions_seq s) (file_revisions s) \<and>
     distinct (map uj_id (upload_jobs s)) \<and>
     distinct (map uj_pack_id (upload_jobs s)) \<and>
     list_all (\<lambda>r. uj_id r \<le> upload_jobs_seq s) (upload_jobs s) \<and>
     distinct (map ut_id (upload_job_targets s)) \<and>
     distinct (map target_key (upload_job_targets s)) \<and>
     list_all (\<lambda>r. ut_id r \<le> upload_job_targets_seq s) (upload_job_targets s) \<and>
     list_all (\<lambda>r. ut_job_id r \<in> set (map uj_id (upload_jobs s))) (upload_job_targets s)"

lemma schema_ok_empty [simp]: "schema_ok empty_db"
  by (simp add: schema_ok_def inodes_ok_def empty_db_def)

section \<open>Packs (db/packs.rs)\<close>

definition create_pack ::
  "db \<Rightarrow> string \<Rightarrow> bytes \<Rightarrow> string \<Rightarrow> StorageMode \<Rightarrow> int \<Rightarrow> string \<Rightarrow> int \<Rightarrow> int \<Rightarrow> int \<Rightarrow> bytes
     \<Rightarrow> bytes \<Rightarrow> PackStatus \<Rightarrow> db" where
  "create_pack s pack_id chunk_id plaintext_hash storage_mode encryption_version ec_scheme
     logical_size cipher_size shard_size nonce gcm_tag status =
     (if pack_id \<in> set (map pk_pack_id (packs s)) then
        s\<lparr>packs := update_where (\<lambda>r. pk_pack_id r = pack_id)
            (\<lambda>r. r\<lparr>pk_chunk_id := chunk_id, pk_plaintext_hash := Some plaintext_hash,
                   pk_storage_mode := StorageMode_as_str storage_mode,
                   pk_encryption_version := encryption_version, pk_ec_scheme := ec_scheme,
                   pk_logical_size := logical_size, pk_cipher_size := cipher_size,
                   pk_shard_size := shard_size, pk_nonce := nonce, pk_gcm_tag := gcm_tag,
                   pk_status := PackStatus_as_str status\<rparr>) (packs s)\<rparr>
      else
        s\<lparr>packs := packs s @ [\<lparr>pk_pack_id = pack_id, pk_chunk_id = chunk_id,
            pk_plaintext_hash = Some plaintext_hash,
            pk_storage_mode = StorageMode_as_str storage_mode,
            pk_encryption_version = encryption_version, pk_ec_scheme = ec_scheme,
            pk_logical_size = logical_size, pk_cipher_size = cipher_size,
            pk_shard_size = shard_size, pk_nonce = nonce, pk_gcm_tag = gcm_tag,
            pk_status = PackStatus_as_str status, pk_repair_attempts = Some 0,
            pk_repair_next_attempt_at = None\<rparr>]\<rparr>)"

definition update_pack_status :: "db \<Rightarrow> string \<Rightarrow> PackStatus \<Rightarrow> db" where
  "update_pack_status s pack_id status =
     s\<lparr>packs := update_where (\<lambda>r. pk_pack_id r = pack_id)
         (\<lambda>r. r\<lparr>pk_status := PackStatus_as_str status\<rparr>) (packs s)\<rparr>"

definition get_pack :: "db \<Rightarrow> string \<Rightarrow> PackRecord option" where
  "get_pack s pack_id = fetch_optional (filter (\<lambda>r. pk_pack_id r = pack_id) (packs s))"

definition status_rank :: "string \<Rightarrow> int" where
  "status_rank st = (if st = ''COMPLETED_HEALTHY'' then 0
     else if st = ''COMPLETED_DEGRADED'' then 1 else if st = ''UPLOADING'' then 2 else 3)"

definition find_pack_by_plaintext_hash :: "db \<Rightarrow> string \<Rightarrow> StorageMode \<Rightarrow> PackRecord option" where
  "find_pack_by_plaintext_hash s plaintext_hash storage_mode =
     fetch_optional (sql_limit 1 (sort_key (\<lambda>r. (status_rank (pk_status r), pk_pack_id r))
       (filter (\<lambda>r. pk_plaintext_hash r = Some plaintext_hash \<and>
                    pk_storage_mode r = StorageMode_as_str storage_mode \<and>
                    pk_status r \<noteq> ''UNREADABLE'') (packs s))))"

definition has_location :: "db \<Rightarrow> string \<Rightarrow> bool" where
  "has_location s pack_id \<longleftrightarrow> pack_id \<in> set (map pl_pack_id (pack_locations s))"

definition get_orphaned_pack_ids :: "db \<Rightarrow> int \<Rightarrow> string list" where
  "get_orphaned_pack_ids s lim =
     sql_limit lim (sort (map pk_pack_id
       (filter (\<lambda>p. \<not> has_location s (pk_pack_id p) \<and> pk_status p \<noteq> ''UPLOADING'') (packs s))))"

definition repair_due :: "int \<Rightarrow> PackRecord \<Rightarrow> bool" where
  "repair_due now r \<longleftrightarrow>
     (case pk_repair_next_attempt_at r of None \<Rightarrow> True | Some t \<Rightarrow> t \<le> now)"

definition get_next_degraded_pack :: "db \<Rightarrow> int \<Rightarrow> PackRecord option" where
  "get_next_degraded_pack s now =
     fetch_optional (sql_limit 1 (sort_key pk_pack_id
       (filter (\<lambda>r. pk_status r = ''COMPLETED_DEGRADED'' \<and> repair_due now r) (packs s))))"

definition repair_delay :: "int \<Rightarrow> int \<Rightarrow> int \<Rightarrow> int" where
  "repair_delay attempts base_delay_ms max_delay_ms =
     min (i64_saturating_mul base_delay_ms (2 ^ nat (clamp 0 8 attempts))) max_delay_ms"

definition defer_pack_repair :: "db \<Rightarrow> int \<Rightarrow> string \<Rightarrow> int \<Rightarrow> int \<Rightarrow> int \<times> db" where
  "defer_pack_repair s now pack_id base_delay_ms max_delay_ms =
     (let attempts = (case get_pack s pack_id of None \<Rightarrow> 0
                      | Some r \<Rightarrow> coalesce (pk_repair_attempts r) 0);
          delay_ms = repair_delay attempts base_delay_ms max_delay_ms
      in (attempts + 1,
          s\<lparr>packs := update_where (\<lambda>r. pk_pack_id r = pack_id)
              (\<lambda>r. r\<lparr>pk_repair_attempts := Some (coalesce (pk_repair_attempts r) 0 + 1),
                     pk_repair_next_attempt_at := Some (now + delay_ms)\<rparr>) (packs s)\<rparr>))"

definition clear_pack_repair_backoff :: "db \<Rightarrow> string \<Rightarrow> db" where
  "clear_pack_repair_backoff s pack_id =
     s\<lparr>packs := update_where (\<lambda>r. pk_pack_id r = pack_id)
         (\<lambda>r. r\<lparr>pk_repair_attempts := Some 0, pk_repair_next_attempt_at := None\<rparr>) (packs s)\<rparr>"

definition pack_repair_is_deferred :: "db \<Rightarrow> int \<Rightarrow> string \<Rightarrow> bool" where
  "pack_repair_is_deferred s now pack_id \<longleftrightarrow>
     length (filter (\<lambda>r. pk_pack_id r = pack_id \<and>
       (case pk_repair_next_attempt_at r of None \<Rightarrow> False | Some t \<Rightarrow> now < t)) (packs s)) > 0"

record VaultHealthSummary =
  total_packs :: int
  healthy_packs :: int
  degraded_packs :: int
  unreadable_packs :: int

definition count_rows :: "('r \<Rightarrow> bool) \<Rightarrow> 'r list \<Rightarrow> int" where
  "count_rows P t = int (length (filter P t))"

definition get_vault_health_summary :: "db \<Rightarrow> VaultHealthSummary" where
  "get_vault_health_summary s =
     \<lparr>total_packs = int (length (packs s)),
      healthy_packs = count_rows (\<lambda>r. pk_status r = ''COMPLETED_HEALTHY'') (packs s),
      degraded_packs = count_rows (\<lambda>r. pk_status r = ''COMPLETED_DEGRADED'') (packs s),
      unreadable_packs = count_rows (\<lambda>r. pk_status r = ''UNREADABLE'') (packs s)\<rparr>"

definition live_shard_status :: "string \<Rightarrow> bool" where
  "live_shard_status st \<longleftrightarrow> st \<in> {''PENDING'', ''IN_PROGRESS'', ''COMPLETED''}"

definition get_physical_usage_for_provider :: "db \<Rightarrow> string \<Rightarrow> nat" where
  "get_physical_usage_for_provider s provider =
     nat (sum_list (map sh_size
       (filter (\<lambda>r. sh_provider r = provider \<and> live_shard_status (sh_status r)) (pack_shards s))))"

text \<open>Deleting a pack row cascades to its shards; deleting a job row to its targets.\<close>

definition delete_packs :: "(PackRecord \<Rightarrow> bool) \<Rightarrow> db \<Rightarrow> db" where
  "delete_packs P s =
     (let gone = map pk_pack_id (filter P (packs s))
      in s\<lparr>packs := delete_where P (packs s),
           pack_shards := delete_where (\<lambda>r. sh_pack_id r \<in> set gone) (pack_shards s)\<rparr>)"

definition delete_upload_jobs :: "(UploadJob \<Rightarrow> bool) \<Rightarrow> db \<Rightarrow> db" where
  "delete_upload_jobs P s =
     (let gone = map uj_id (filter P (upload_jobs s))
      in s\<lparr>upload_jobs := delete_where P (upload_jobs s),
           upload_job_targets := delete_where (\<lambda>r. ut_job_id r \<in> set gone) (upload_job_targets s)\<rparr>)"

definition delete_pack_locations :: "string \<Rightarrow> db \<Rightarrow> db" where
  "delete_pack_locations pack_id s =
     s\<lparr>pack_locations := delete_where (\<lambda>r. pl_pack_id r = pack_id) (pack_locations s)\<rparr>"

definition delete_pack_metadata :: "db \<Rightarrow> string \<Rightarrow> db" where
  "delete_pack_metadata s pack_id =
     delete_packs (\<lambda>r. pk_pack_id r = pack_id)
       (delete_pack_locations pack_id
         (delete_upload_jobs (\<lambda>j. uj_pack_id j = pack_id) s))"

definition count_all_packs :: "db \<Rightarrow> int" where
  "count_all_packs s = int (length (packs s))"

definition list_active_packs :: "db \<Rightarrow> int \<Rightarrow> PackRecord list" where
  "list_active_packs s lim =
     sql_limit lim (sort_key pk_pack_id
       (filter (\<lambda>p. has_location s (pk_pack_id p)) (packs s)))"

section \<open>Shards (db/shards.rs)\<close>

record PackShardSummary =
  ss_total :: int
  ss_completed :: int
  ss_pending :: int
  ss_in_progress :: int
  ss_failed :: int

fun resolve_pack_status_for_mode :: "StorageMode \<Rightarrow> PackShardSummary \<Rightarrow> PackStatus" where
  "resolve_pack_status_for_mode Ec2_1 m =
     (if 3 \<le> ss_completed m then Healthy
      else if 2 \<le> ss_completed m then Degraded
      else if 0 < ss_pending m \<or> 0 < ss_in_progress m then Uploading
      else Unreadable)"
| "resolve_pack_status_for_mode SingleReplica m =
     (if 1 \<le> ss_completed m then Healthy
      else if 0 < ss_pending m \<or> 0 < ss_in_progress m then Uploading
      else Unreadable)"
| "resolve_pack_status_for_mode LocalOnly m = Healthy"

definition resolve_pack_status :: "PackShardSummary \<Rightarrow> PackStatus" where
  "resolve_pack_status m = resolve_pack_status_for_mode Ec2_1 m"

definition is_shard :: "string \<Rightarrow> int \<Rightarrow> PackShardRecord \<Rightarrow> bool" where
  "is_shard pack_id shard_index r \<longleftrightarrow> sh_pack_id r = pack_id \<and> sh_shard_index r = shard_index"

definition register_pack_shard ::
  "db \<Rightarrow> string \<Rightarrow> int \<Rightarrow> ShardRole \<Rightarrow> string \<Rightarrow> string \<Rightarrow> int \<Rightarrow> string \<Rightarrow> string \<Rightarrow> sqlx_error + db" where
  "register_pack_shard s pack_id shard_index shard_role provider object_key shard_len checksum status =
     (if list_ex (\<lambda>r. sh_pack_id r = pack_id \<and> sh_provider r = provider \<and>
                      sh_shard_index r \<noteq> shard_index) (pack_shards s) then Inl UniqueViolation
      else if list_ex (is_shard pack_id shard_index) (pack_shards s) then
        Inr (s\<lparr>pack_shards := update_where (is_shard pack_id shard_index)
           (\<lambda>r. r\<lparr>sh_shard_role := ShardRole_as_str shard_role, sh_provider := provider,
                  sh_object_key := object_key, sh_size := shard_len, sh_checksum := checksum,
                  sh_status := status, sh_last_error := None\<rparr>) (pack_shards s)\<rparr>)
      else if pack_id \<notin> set (map pk_pack_id (packs s)) then Inl ForeignKeyViolation
      else
        Inr (s\<lparr>pack_shards := pack_shards s @ [\<lparr>sh_id = pack_shards_seq s + 1,
             sh_pack_id = pack_id, sh_shard_index = shard_index,
             sh_shard_role = ShardRole_as_str shard_role, sh_provider = provider,
             sh_object_key = object_key, sh_size = shard_len, sh_checksum = checksum,
             sh_status = status, sh_attempts = Some 0, sh_last_error = None,
             sh_last_verified_at = None, sh_last_verification_method = None,
             sh_last_verification_status = None, sh_last_verified_size = None,
             sh_verification_failures = 0\<rparr>],
           pack_shards_seq := pack_shards_seq s + 1\<rparr>))"

definition get_pack_shards :: "db \<Rightarrow> string \<Rightarrow> PackShardRecord list" where
  "get_pack_shards s pack_id =
     sort_key sh_shard_index (filter (\<lambda>r. sh_pack_id r = pack_id) (pack_shards s))"

definition get_incomplete_pack_shards :: "db \<Rightarrow> string \<Rightarrow> PackShardRecord list" where
  "get_incomplete_pack_shards s pack_id =
     sort_key sh_shard_index (filter (\<lambda>r. sh_pack_id r = pack_id \<and>
       sh_status r \<notin> {''COMPLETED'', ''PERMANENTLY_FAILED''}) (pack_shards s))"

definition update_shard :: "db \<Rightarrow> string \<Rightarrow> int \<Rightarrow> (PackShardRecord \<Rightarrow> PackShardRecord) \<Rightarrow> db" where
  "update_shard s pack_id shard_index f =
     s\<lparr>pack_shards := update_where (is_shard pack_id shard_index) f (pack_shards s)\<rparr>"

definition mark_pack_shard_in_progress :: "db \<Rightarrow> string \<Rightarrow> int \<Rightarrow> db" where
  "mark_pack_shard_in_progress s pack_id shard_index =
     update_shard s pack_id shard_index
       (\<lambda>r. r\<lparr>sh_status := ''IN_PROGRESS'', sh_last_error := None\<rparr>)"

definition mark_pack_shard_completed :: "db \<Rightarrow> string \<Rightarrow> int \<Rightarrow> db" where
  "mark_pack_shard_completed s pack_id shard_index =
     update_shard s pack_id shard_index
       (\<lambda>r. r\<lparr>sh_status := ''COMPLETED'', sh_last_error := None\<rparr>)"

definition shard_attempts :: "db \<Rightarrow> string \<Rightarrow> int \<Rightarrow> sqlx_error + int" where
  "shard_attempts s pack_id shard_index =
     (case fetch_optional (filter (is_shard pack_id shard_index) (pack_shards s)) of
        None \<Rightarrow> Inl RowNotFound | Some r \<Rightarrow> Inr (coalesce (sh_attempts r) 0))"

definition requeue_pack_shard :: "db \<Rightarrow> string \<Rightarrow> int \<Rightarrow> string \<Rightarrow> (sqlx_error + int) \<times> db" where
  "requeue_pack_shard s pack_id shard_index error_message =
     (let s' = update_shard s pack_id shard_index
                 (\<lambda>r. r\<lparr>sh_status := ''PENDING'', sh_attempts := Some (coalesce (sh_attempts r) 0 + 1),
                        sh_last_error := Some error_message\<rparr>)
      in (shard_attempts s' pack_id shard_index, s'))"

definition mark_pack_shard_failed :: "db \<Rightarrow> string \<Rightarrow> int \<Rightarrow> string \<Rightarrow> db" where
  "mark_pack_shard_failed s pack_id shard_index error_message =
     update_shard s pack_id shard_index
       (\<lambda>r. r\<lparr>sh_status := ''FAILED'', sh_attempts := Some (coalesce (sh_attempts r) 0 + 1),
              sh_last_error := Some error_message\<rparr>)"

definition mark_pack_shard_permanently_failed :: "db \<Rightarrow> string \<Rightarrow> int \<Rightarrow> string \<Rightarrow> db" where
  "mark_pack_shard_permanently_failed s pack_id shard_index error_message =
     update_shard s pack_id shard_index
       (\<lambda>r. r\<lparr>sh_status := ''PERMANENTLY_FAILED'', sh_last_error := Some error_message\<rparr>)"

definition scrub_key :: "PackShardRecord \<Rightarrow> int \<times> int \<times> int \<times> int" where
  "scrub_key r = (case sh_last_verified_at r of None \<Rightarrow> 0 | Some _ \<Rightarrow> 1,
     coalesce (sh_last_verified_at r) 0, - sh_verification_failures r, sh_id r)"

definition get_next_shards_for_scrub :: "db \<Rightarrow> int \<Rightarrow> PackShardRecord list" where
  "get_next_shards_for_scrub s lim = sql_limit lim (sort_key scrub_key (pack_shards s))"

definition update_shard_verification_status ::
  "db \<Rightarrow> int \<Rightarrow> string \<Rightarrow> int \<Rightarrow> string \<Rightarrow> string \<Rightarrow> int option \<Rightarrow> bool \<Rightarrow> string option \<Rightarrow> db" where
  "update_shard_verification_status s now pack_id shard_index verification_method
     verification_status verified_size increment_failures last_error =
     (let operational_status = (if verification_status = ''HEALTHY'' then ''COMPLETED'' else ''FAILED'')
      in update_shard s pack_id shard_index
           (\<lambda>r. r\<lparr>sh_status := operational_status, sh_last_verified_at := Some now,
                  sh_last_verification_method := Some verification_method,
                  sh_last_verification_status := Some verification_status,
                  sh_last_verified_size := verified_size,
                  sh_verification_failures := sh_verification_failures r +
                    (if increment_failures then 1 else 0),
                  sh_last_error := last_error\<rparr>))"

definition reset_in_progress_pack_shards :: "db \<Rightarrow> nat \<times> db" where
  "reset_in_progress_pack_shards s =
     (rows_affected (\<lambda>r. sh_status r = ''IN_PROGRESS'') (pack_shards s),
      s\<lparr>pack_shards := update_where (\<lambda>r. sh_status r = ''IN_PROGRESS'')
          (\<lambda>r. r\<lparr>sh_status := ''PENDING''\<rparr>) (pack_shards s)\<rparr>)"

text \<open>\<open>GROUP BY status\<close> gives one row per status with its count; the loop adds the counts up.\<close>

definition group_by_status :: "PackShardRecord list \<Rightarrow> (string \<times> int) list" where
  "group_by_status t =
     map (\<lambda>st. (st, count_rows (\<lambda>r. sh_status r = st) t)) (remdups (map sh_status t))"

definition add_status_count :: "string \<times> int \<Rightarrow> PackShardSummary \<Rightarrow> PackShardSummary" where
  "add_status_count row m =
     (let (st, n) = row; m' = m\<lparr>ss_total := ss_total m + n\<rparr>
      in if st = ''COMPLETED'' then m'\<lparr>ss_completed := ss_completed m' + n\<rparr>
         else if st = ''PENDING'' then m'\<lparr>ss_pending := ss_pending m' + n\<rparr>
         else if st = ''IN_PROGRESS'' then m'\<lparr>ss_in_progress := ss_in_progress m' + n\<rparr>
         else if st = ''FAILED'' then m'\<lparr>ss_failed := ss_failed m' + n\<rparr>
         else m')"

definition summarize_pack_shards :: "db \<Rightarrow> string \<Rightarrow> PackShardSummary" where
  "summarize_pack_shards s pack_id =
     fold add_status_count (group_by_status (filter (\<lambda>r. sh_pack_id r = pack_id) (pack_shards s)))
       \<lparr>ss_total = 0, ss_completed = 0, ss_pending = 0, ss_in_progress = 0, ss_failed = 0\<rparr>"

section \<open>Row updates that keep the keys keep the schema\<close>

lemma list_all_update_where:
  "list_all Q t \<Longrightarrow> (\<And>r. Q r \<Longrightarrow> P r \<Longrightarrow> Q (f r)) \<Longrightarrow> list_all Q (update_where P f t)"
  by (induction t) auto

lemma list_all_delete_where: "list_all Q t \<Longrightarrow> list_all Q (delete_where P t)"
  by (induction t) auto

lemma schema_ok_update_packs:
  assumes "schema_ok s" and "\<And>r. pk_pack_id (f r) = pk_pack_id r"
  shows "schema_ok (s\<lparr>packs := update_where P f (packs s)\<rparr>)"
proof -
  have "map pk_pack_id (update_where P f (packs s)) = map pk_pack_id (packs s)"
    using assms(2) by (rule update_where_key)
  with assms(1) show ?thesis by (simp add: schema_ok_def)
qed

lemma schema_ok_update_shards:
  assumes s: "schema_ok s" and f: "\<And>r. sh_id (f r) = sh_id r" "\<And>r. shard_key (f r) = shard_key r"
    "\<And>r. sh_provider (f r) = sh_provider r"
  shows "schema_ok (s\<lparr>pack_shards := update_where P f (pack_shards s)\<rparr>)"
proof -
  have pack: "sh_pack_id (f r) = sh_pack_id r" for r using f(2) [of r] by (simp add: shard_key_def)
  have maps: "map sh_id (update_where P f (pack_shards s)) = map sh_id (pack_shards s)"
    "map shard_key (update_where P f (pack_shards s)) = map shard_key (pack_shards s)"
    "map shard_place (update_where P f (pack_shards s)) = map shard_place (pack_shards s)"
    by (rule update_where_key, simp add: f pack shard_place_def)+
  from s show ?thesis
    by (simp add: schema_ok_def maps list_all_update_where f pack)
qed

lemma schema_ok_update_jobs:
  assumes s: "schema_ok s" and f: "\<And>r. uj_id (f r) = uj_id r" "\<And>r. uj_pack_id (f r) = uj_pack_id r"
  shows "schema_ok (s\<lparr>upload_jobs := update_where P f (upload_jobs s)\<rparr>)"
proof -
  have maps: "map uj_id (update_where P f (upload_jobs s)) = map uj_id (upload_jobs s)"
    "map uj_pack_id (update_where P f (upload_jobs s)) = map uj_pack_id (upload_jobs s)"
    by (rule update_where_key, simp add: f)+
  from s show ?thesis by (simp add: schema_ok_def maps list_all_update_where f del: set_map)
qed

lemma schema_ok_update_targets:
  assumes s: "schema_ok s" and f: "\<And>r. ut_id (f r) = ut_id r" "\<And>r. target_key (f r) = target_key r"
  shows "schema_ok (s\<lparr>upload_job_targets := update_where P f (upload_job_targets s)\<rparr>)"
proof -
  have job: "ut_job_id (f r) = ut_job_id r" for r using f(2) [of r] by (simp add: target_key_def)
  have maps: "map ut_id (update_where P f (upload_job_targets s)) = map ut_id (upload_job_targets s)"
    "map target_key (update_where P f (upload_job_targets s)) = map target_key (upload_job_targets s)"
    by (rule update_where_key, simp add: f)+
  from s show ?thesis by (simp add: schema_ok_def maps list_all_update_where f job)
qed

lemma schema_ok_update_shard:
  assumes "schema_ok s" and "\<And>r. sh_id (f r) = sh_id r" and "\<And>r. shard_key (f r) = shard_key r"
    and "\<And>r. sh_provider (f r) = sh_provider r"
  shows "schema_ok (update_shard s pack_id shard_index f)"
  unfolding update_shard_def using assms by (rule schema_ok_update_shards)

lemma schema_ok_create_pack:
  assumes "schema_ok s"
  shows "schema_ok (create_pack s pack_id cid h m v e l c sz n t st)"
proof (cases "pack_id \<in> set (map pk_pack_id (packs s))")
  case True
  then show ?thesis by (simp add: create_pack_def schema_ok_update_packs assms)
next
  case False
  with assms show ?thesis
    by (auto simp: create_pack_def schema_ok_def list_all_iff)
qed

lemma distinct_update_where:
  assumes "distinct (map g t)"
    and "\<And>x y. x \<in> set t \<Longrightarrow> y \<in> set t \<Longrightarrow> P x \<Longrightarrow> P y \<Longrightarrow> x = y"
    and "\<And>x y. x \<in> set t \<Longrightarrow> y \<in> set t \<Longrightarrow> P x \<Longrightarrow> \<not> P y \<Longrightarrow> g (f x) \<noteq> g y"
  shows "distinct (map g (update_where P f t))"
proof -
  have eq: "map g (update_where P f t) = map (\<lambda>r. g (if P r then f r else r)) t"
    by (simp add: update_where_def)
  from assms(1) have "distinct t" and "inj_on g (set t)" by (simp_all add: distinct_map)
  moreover have "inj_on (\<lambda>r. g (if P r then f r else r)) (set t)"
  proof (rule inj_onI)
    fix x y assume xy: "x \<in> set t" "y \<in> set t"
      and h: "g (if P x then f x else x) = g (if P y then f y else y)"
    show "x = y"
    proof (cases "P x"; cases "P y")
      assume "\<not> P x" "\<not> P y"
      with h xy \<open>inj_on g (set t)\<close> show ?thesis by (simp add: inj_on_def)
    qed (use assms(2,3) xy h in \<open>auto dest: sym\<close>)
  qed
  ultimately show ?thesis unfolding eq by (simp add: distinct_map)
qed

lemma schema_ok_insert_shard:
  assumes s: "schema_ok s" and id: "sh_id r = pack_shards_seq s + 1"
    and key: "shard_key r \<notin> shard_key ` set (pack_shards s)"
    and place: "shard_place r \<notin> shard_place ` set (pack_shards s)"
    and pack: "sh_pack_id r \<in> set (map pk_pack_id (packs s))"
  shows "schema_ok (s\<lparr>pack_shards := pack_shards s @ [r], pack_shards_seq := pack_shards_seq s + 1\<rparr>)"
proof -
  have "sh_id r \<notin> sh_id ` set (pack_shards s)"
    using s id by (force simp: schema_ok_def list_all_iff)
  moreover have "list_all (\<lambda>x. sh_id x \<le> pack_shards_seq s + 1) (pack_shards s)"
    using s by (force simp: schema_ok_def list_all_iff)
  ultimately show ?thesis
    using s id key place pack by (simp add: schema_ok_def del: set_map) simp
qed

lemma schema_ok_register_pack_shard:
  assumes s: "schema_ok s"
    and r: "register_pack_shard s pack_id i role prov key sz chk st = Inr s'"
  shows "schema_ok s'"
proof -
  let ?set = "\<lambda>r. r\<lparr>sh_shard_role := ShardRole_as_str role, sh_provider := prov,
                  sh_object_key := key, sh_size := sz, sh_checksum := chk,
                  sh_status := st, sh_last_error := None\<rparr>"
  from r have free: "\<forall>x \<in> set (pack_shards s). sh_pack_id x = pack_id \<longrightarrow> sh_provider x = prov \<longrightarrow>
      sh_shard_index x = i"
    by (auto simp: register_pack_shard_def list_ex_iff split: if_splits)
  show ?thesis
  proof (cases "list_ex (is_shard pack_id i) (pack_shards s)")
    case True
    with r have s': "s' = s\<lparr>pack_shards := update_where (is_shard pack_id i) ?set (pack_shards s)\<rparr>"
      by (auto simp: register_pack_shard_def split: if_splits)
    have maps: "map sh_id (update_where (is_shard pack_id i) ?set (pack_shards s)) =
        map sh_id (pack_shards s)"
      "map shard_key (update_where (is_shard pack_id i) ?set (pack_shards s)) =
        map shard_key (pack_shards s)"
      by (rule update_where_key, simp add: shard_key_def)+
    have "distinct (map shard_place (update_where (is_shard pack_id i) ?set (pack_shards s)))"
    proof (rule distinct_update_where)
      show "distinct (map shard_place (pack_shards s))" using s by (simp add: schema_ok_def)
      fix x y assume xy: "x \<in> set (pack_shards s)" "y \<in> set (pack_shards s)" and x: "is_shard pack_id i x"
      show "x = y" if "is_shard pack_id i y"
        using that x xy s distinct_map_key [of shard_key "pack_shards s" x y]
        by (simp add: schema_ok_def is_shard_def shard_key_def)
      show "shard_place (?set x) \<noteq> shard_place y" if "\<not> is_shard pack_id i y"
        using that x xy free by (auto simp: shard_place_def is_shard_def)
    qed
    with s free show ?thesis
      unfolding s' by (simp add: schema_ok_def maps list_all_update_where)
  next
    case False
    with r have "pack_id \<in> set (map pk_pack_id (packs s))"
      by (simp add: register_pack_shard_def split: if_splits)
    with r False obtain x where s': "s' = s\<lparr>pack_shards := pack_shards s @ [x],
        pack_shards_seq := pack_shards_seq s + 1\<rparr>" and x: "sh_id x = pack_shards_seq s + 1"
      "sh_shard_index x = i" "sh_provider x = prov" "sh_pack_id x = pack_id"
      by (auto simp: register_pack_shard_def split: if_splits)
    have "shard_key x \<notin> shard_key ` set (pack_shards s)"
      using False by (auto simp: x list_ex_iff is_shard_def shard_key_def)
    moreover have "shard_place x \<notin> shard_place ` set (pack_shards s)"
      using False free by (auto simp: x list_ex_iff is_shard_def shard_place_def)
    ultimately show ?thesis
      unfolding s' using s x \<open>pack_id \<in> set (map pk_pack_id (packs s))\<close>
      by (intro schema_ok_insert_shard) simp_all
  qed
qed

lemma schema_ok_delete_packs: "schema_ok s \<Longrightarrow> schema_ok (delete_packs P s)"
  unfolding schema_ok_def delete_packs_def Let_def
  by (simp add: distinct_delete_where list_all_delete_where list_all_iff sql_simps image_iff)
     (metis (mono_tags, lifting))

lemma schema_ok_delete_upload_jobs: "schema_ok s \<Longrightarrow> schema_ok (delete_upload_jobs P s)"
  unfolding schema_ok_def delete_upload_jobs_def Let_def
  by (simp add: distinct_delete_where list_all_delete_where list_all_iff sql_simps image_iff)
     (metis (mono_tags, lifting))

lemma schema_ok_delete_pack_locations: "schema_ok s \<Longrightarrow> schema_ok (delete_pack_locations p s)"
  by (simp add: schema_ok_def delete_pack_locations_def distinct_delete_where)

lemma schema_ok_delete_pack_metadata: "schema_ok s \<Longrightarrow> schema_ok (delete_pack_metadata s p)"
  unfolding delete_pack_metadata_def
  by (intro schema_ok_delete_packs schema_ok_delete_pack_locations schema_ok_delete_upload_jobs)

section \<open>Shard summaries\<close>

lemma count_rows_count_list: "count_rows (\<lambda>r. f r = x) t = int (count_list (map f t) x)"
  by (induction t) (auto simp: count_rows_def)

lemma fold_status_counts:
  "ss_total (fold add_status_count rows m) = ss_total m + sum_list (map snd rows)"
  "ss_completed (fold add_status_count rows m) =
     ss_completed m + sum_list (map snd (filter (\<lambda>x. fst x = ''COMPLETED'') rows))"
  "ss_pending (fold add_status_count rows m) =
     ss_pending m + sum_list (map snd (filter (\<lambda>x. fst x = ''PENDING'') rows))"
  "ss_in_progress (fold add_status_count rows m) =
     ss_in_progress m + sum_list (map snd (filter (\<lambda>x. fst x = ''IN_PROGRESS'') rows))"
  "ss_failed (fold add_status_count rows m) =
     ss_failed m + sum_list (map snd (filter (\<lambda>x. fst x = ''FAILED'') rows))"
  by (induction rows arbitrary: m) (auto simp: add_status_count_def Let_def split: prod.splits)

lemma filter_eq_distinct: "distinct xs \<Longrightarrow> filter (\<lambda>y. y = x) xs = (if x \<in> set xs then [x] else [])"
  by (induction xs) (auto simp: filter_empty_conv)

lemma group_by_status_count:
  "sum_list (map snd (filter (\<lambda>x. fst x = st) (group_by_status t))) =
     count_rows (\<lambda>r. sh_status r = st) t"
proof (cases "st \<in> set (map sh_status t)")
  case True
  then show ?thesis
    by (simp add: group_by_status_def filter_map comp_def filter_eq_distinct)
next
  case False
  then have "count_rows (\<lambda>r. sh_status r = st) t = 0"
    by (auto simp: count_rows_def filter_empty_conv)
  with False show ?thesis
    by (simp add: group_by_status_def filter_map comp_def filter_eq_distinct del: set_map)
qed

lemma group_by_status_total: "sum_list (map snd (group_by_status t)) = int (length t)"
proof -
  have "sum_list (map snd (group_by_status t)) =
      (\<Sum>x \<in> set (map sh_status t). int (count_list (map sh_status t) x))"
    by (simp add: group_by_status_def comp_def count_rows_count_list
        sum_list_distinct_conv_sum_set del: set_map)
  also have "\<dots> = int (length (map sh_status t))"
    using sum_count_set [of "map sh_status t" "set (map sh_status t)"] by (simp flip: of_nat_sum)
  finally show ?thesis by simp
qed

definition shards_with_status :: "db \<Rightarrow> string \<Rightarrow> string \<Rightarrow> PackShardRecord list" where
  "shards_with_status s pack_id st =
     filter (\<lambda>r. sh_pack_id r = pack_id \<and> sh_status r = st) (pack_shards s)"

lemma summarize_pack_shards_counts:
  "ss_total (summarize_pack_shards s p) =
     int (length (filter (\<lambda>r. sh_pack_id r = p) (pack_shards s)))"
  "ss_completed (summarize_pack_shards s p) = int (length (shards_with_status s p ''COMPLETED''))"
  "ss_pending (summarize_pack_shards s p) = int (length (shards_with_status s p ''PENDING''))"
  "ss_in_progress (summarize_pack_shards s p) = int (length (shards_with_status s p ''IN_PROGRESS''))"
  "ss_failed (summarize_pack_shards s p) = int (length (shards_with_status s p ''FAILED''))"
  by (simp_all add: summarize_pack_shards_def fold_status_counts group_by_status_total
      group_by_status_count count_rows_def shards_with_status_def conj_commute)

text \<open>
  What the status of a pack means. From the shard table, an erasure-coded pack is reported
  readable (healthy or degraded) exactly when at least two of its shards are stored, healthy exactly
  when three are; a single-replica pack is readable exactly when its one copy is stored; a pack that
  is neither is reported as uploading if some shard is still on its way and as unreadable if none is.
\<close>

theorem pack_status_meaning:
  "(resolve_pack_status_for_mode Ec2_1 (summarize_pack_shards s p) \<in> {Healthy, Degraded} \<longleftrightarrow>
      2 \<le> length (shards_with_status s p ''COMPLETED'')) \<and>
   (resolve_pack_status_for_mode Ec2_1 (summarize_pack_shards s p) = Healthy \<longleftrightarrow>
      3 \<le> length (shards_with_status s p ''COMPLETED'')) \<and>
   (resolve_pack_status_for_mode SingleReplica (summarize_pack_shards s p) = Healthy \<longleftrightarrow>
      1 \<le> length (shards_with_status s p ''COMPLETED'')) \<and>
   (resolve_pack_status_for_mode Ec2_1 (summarize_pack_shards s p) = Uploading \<longleftrightarrow>
      length (shards_with_status s p ''COMPLETED'') < 2 \<and>
      1 \<le> length (shards_with_status s p ''PENDING'') + length (shards_with_status s p ''IN_PROGRESS'')) \<and>
   (resolve_pack_status_for_mode SingleReplica (summarize_pack_shards s p) = Unreadable \<longleftrightarrow>
      length (shards_with_status s p ''COMPLETED'') + length (shards_with_status s p ''PENDING'') +
        length (shards_with_status s p ''IN_PROGRESS'') = 0)"
  by (auto simp: summarize_pack_shards_counts Suc_le_eq simp flip: length_greater_0_conv length_0_conv)

section \<open>Repair backoff\<close>

lemma repair_delay_bounds:
  assumes "0 \<le> base" and "0 \<le> cap"
  shows "0 \<le> repair_delay n base cap" and "repair_delay n base cap \<le> cap"
proof -
  have "0 \<le> base * 2 ^ nat (clamp 0 8 n)" using assms(1) by simp
  then show "0 \<le> repair_delay n base cap"
    using assms(2) by (simp add: repair_delay_def i64_saturating_mul_def saturate_i64_def
        i64_min_def i64_max_def)
qed (simp add: repair_delay_def)

lemma repair_delay_mono:
  assumes "0 \<le> base" and "m \<le> n"
  shows "repair_delay m base cap \<le> repair_delay n base cap"
proof -
  have "clamp 0 8 m \<le> clamp 0 8 n" using assms(2) by (simp add: clamp_def)
  then have "nat (clamp 0 8 m) \<le> nat (clamp 0 8 n)" by (rule nat_mono)
  then have "(2 :: int) ^ nat (clamp 0 8 m) \<le> 2 ^ nat (clamp 0 8 n)"
    by (simp add: power_increasing)
  then have "base * 2 ^ nat (clamp 0 8 m) \<le> base * 2 ^ nat (clamp 0 8 n)"
    using assms(1) by (rule mult_left_mono)
  then show ?thesis
    by (simp add: repair_delay_def i64_saturating_mul_def saturate_i64_mono min.coboundedI1)
qed

lemma get_pack_in:
  assumes "schema_ok s" and "r \<in> set (packs s)"
  shows "get_pack s (pk_pack_id r) = Some r"
proof -
  from assms(1) have "distinct (map pk_pack_id (packs s))" by (simp add: schema_ok_def)
  from filter_key_singleton [OF this assms(2)] show ?thesis by (simp add: get_pack_def)
qed

lemma get_pack_Some: "get_pack s p = Some r \<Longrightarrow> r \<in> set (packs s) \<and> pk_pack_id r = p"
  unfolding get_pack_def by (drule fetch_optional_in) simp

lemma get_next_degraded_pack_Some:
  assumes "get_next_degraded_pack s now = Some r"
  shows "r \<in> set (packs s) \<and> pk_status r = ''COMPLETED_DEGRADED'' \<and> repair_due now r"
proof -
  let ?t = "filter (\<lambda>r. pk_status r = ''COMPLETED_DEGRADED'' \<and> repair_due now r) (packs s)"
  from assms have "fetch_optional (sort_key pk_pack_id ?t) = Some r"
    by (simp add: get_next_degraded_pack_def)
  from fetch_sort_key_Some [OF this] show ?thesis by simp
qed

lemma get_next_degraded_pack_None:
  "get_next_degraded_pack s now = None \<longleftrightarrow>
     (\<forall>r \<in> set (packs s). pk_status r = ''COMPLETED_DEGRADED'' \<longrightarrow> \<not> repair_due now r)"
  by (auto simp: get_next_degraded_pack_def filter_empty_conv)

lemma pack_repair_is_deferred_iff:
  "pack_repair_is_deferred s now p \<longleftrightarrow> (\<exists>x \<in> set (packs s). pk_pack_id x = p \<and>
     (case pk_repair_next_attempt_at x of None \<Rightarrow> False | Some u \<Rightarrow> now < u))"
  by (simp add: pack_repair_is_deferred_def filter_empty_conv)

lemma defer_pack_repair_rows:
  assumes s: "schema_ok s" and p: "get_pack s p = Some r"
    and d: "defer_pack_repair s now p base cap = (n, s')"
  shows "packs s' = update_where (\<lambda>x. pk_pack_id x = p)
      (\<lambda>x. x\<lparr>pk_repair_attempts := Some (coalesce (pk_repair_attempts x) 0 + 1),
             pk_repair_next_attempt_at := Some (now + repair_delay (n - 1) base cap)\<rparr>) (packs s)"
    and "n = coalesce (pk_repair_attempts r) 0 + 1"
  using d p by (auto simp: defer_pack_repair_def Let_def)

text \<open>
  Repair backoff. Deferring a pack schedules its next attempt at most \<open>max_delay_ms\<close> ahead; until
  then the pack counts as deferred and is never handed out as the next degraded pack, and from then on
  it is no longer deferred, so a degraded pack is found again. The returned number is one more than
  the attempts recorded before.
\<close>

theorem repair_backoff:
  assumes s: "schema_ok s" and p: "get_pack s p = Some r" and base: "0 \<le> base" and cap: "0 \<le> cap"
    and d: "defer_pack_repair s now p base cap = (n, s')"
  shows "n = coalesce (pk_repair_attempts r) 0 + 1 \<and>
    (\<exists>due. now \<le> due \<and> due \<le> now + cap \<and>
      (\<forall>t. pack_repair_is_deferred s' t p \<longleftrightarrow> t < due) \<and>
      (\<forall>t q. t < due \<longrightarrow> get_next_degraded_pack s' t = Some q \<longrightarrow> pk_pack_id q \<noteq> p) \<and>
      (\<forall>t. due \<le> t \<longrightarrow> pk_status r = ''COMPLETED_DEGRADED'' \<longrightarrow> get_next_degraded_pack s' t \<noteq> None))"
proof -
  define due where "due = now + repair_delay (n - 1) base cap"
  note rows = defer_pack_repair_rows [OF s p d, folded due_def]
  let ?f = "\<lambda>x. x\<lparr>pk_repair_attempts := Some (coalesce (pk_repair_attempts x) 0 + 1),
      pk_repair_next_attempt_at := Some due\<rparr>"
  from get_pack_Some [OF p] have r: "r \<in> set (packs s)" "pk_pack_id r = p" by auto
  have in_s': "pk_repair_next_attempt_at x = Some due"
    if x: "x \<in> set (packs s')" "pk_pack_id x = p" for x
  proof -
    from x(1) consider y where "x = ?f y" | "pk_pack_id x \<noteq> p"
      unfolding rows(1) set_update_where by blast
    then show ?thesis using x(2) by cases simp_all
  qed
  have fr: "?f r \<in> set (packs s')" unfolding rows(1) set_update_where using r by blast
  have def: "pack_repair_is_deferred s' t p \<longleftrightarrow> t < due" for t
  proof
    assume "pack_repair_is_deferred s' t p"
    then obtain x where "x \<in> set (packs s')" "pk_pack_id x = p"
      "case pk_repair_next_attempt_at x of None \<Rightarrow> False | Some u \<Rightarrow> t < u"
      unfolding pack_repair_is_deferred_iff by blast
    with in_s' show "t < due" by simp
  next
    assume "t < due"
    with fr r(2) show "pack_repair_is_deferred s' t p"
      unfolding pack_repair_is_deferred_iff by (intro bexI [of _ "?f r"]) simp_all
  qed
  have skip: "pk_pack_id q \<noteq> p" if "t < due" "get_next_degraded_pack s' t = Some q" for t q
    using get_next_degraded_pack_Some [OF that(2)] in_s' [of q] that(1)
    by (auto simp: repair_due_def)
  have again: "get_next_degraded_pack s' t \<noteq> None"
    if "due \<le> t" "pk_status r = ''COMPLETED_DEGRADED''" for t
    using that fr by (auto simp: get_next_degraded_pack_None repair_due_def intro!: bexI [of _ "?f r"])
  have "now \<le> due" "due \<le> now + cap"
    using repair_delay_bounds [OF base cap, of "n - 1"] by (simp_all add: due_def)
  with rows(2) def skip again show ?thesis by blast
qed

definition sample_pack :: PackRecord where
  "sample_pack = \<lparr>pk_pack_id = ''p1'', pk_chunk_id = [1], pk_plaintext_hash = Some ''h'',
     pk_storage_mode = ''EC_2_1'', pk_encryption_version = 2, pk_ec_scheme = ''rs_2_1'',
     pk_logical_size = 10, pk_cipher_size = 10, pk_shard_size = 5, pk_nonce = [], pk_gcm_tag = [],
     pk_status = ''COMPLETED_DEGRADED'', pk_repair_attempts = Some 2,
     pk_repair_next_attempt_at = None\<rparr>"

definition sample_db :: db where
  "sample_db = empty_db\<lparr>packs := [sample_pack]\<rparr>"

lemma sample_db_ok: "schema_ok sample_db"
  by (simp add: sample_db_def empty_db_def schema_ok_def inodes_ok_def)

theorem repair_backoff_witness:
  "\<exists>due. 1000 \<le> due \<and> due \<le> 1000 + 60000 \<and>
     (\<forall>t. pack_repair_is_deferred (snd (defer_pack_repair sample_db 1000 ''p1'' 5000 60000)) t ''p1''
        \<longleftrightarrow> t < due)"
proof -
  have "get_pack sample_db ''p1'' = Some sample_pack"
    by (simp add: get_pack_def sample_db_def sample_pack_def)
  from repair_backoff [OF sample_db_ok this, of 5000 60000 1000 _ _, OF _ _ surjective_pairing]
  show ?thesis by simp blast
qed

section \<open>Deleting a pack\<close>

definition pack_trace :: "db \<Rightarrow> string \<Rightarrow> bool" where
  "pack_trace s p \<longleftrightarrow> p \<in> pk_pack_id ` set (packs s) \<or> p \<in> sh_pack_id ` set (pack_shards s) \<or>
     p \<in> pl_pack_id ` set (pack_locations s) \<or> p \<in> uj_pack_id ` set (upload_jobs s) \<or>
     (\<exists>j \<in> set (upload_jobs s). \<exists>t \<in> set (upload_job_targets s).
        uj_pack_id j = p \<and> ut_job_id t = uj_id j)"

lemma delete_pack_metadata_tables:
  "packs (delete_pack_metadata s p) = filter (\<lambda>r. pk_pack_id r \<noteq> p) (packs s)"
  "pack_locations (delete_pack_metadata s p) = filter (\<lambda>r. pl_pack_id r \<noteq> p) (pack_locations s)"
  "upload_jobs (delete_pack_metadata s p) = filter (\<lambda>r. uj_pack_id r \<noteq> p) (upload_jobs s)"
  "chunk_refs (delete_pack_metadata s p) = chunk_refs s"
  "file_revisions (delete_pack_metadata s p) = file_revisions s"
  by (simp_all add: delete_pack_metadata_def delete_packs_def delete_pack_locations_def
      delete_upload_jobs_def delete_where_def Let_def)

lemma delete_pack_metadata_shards:
  assumes "schema_ok s"
  shows "pack_shards (delete_pack_metadata s p) = filter (\<lambda>r. sh_pack_id r \<noteq> p) (pack_shards s)"
proof -
  have "sh_pack_id r \<in> pk_pack_id ` {x \<in> set (packs s). pk_pack_id x = p} \<longleftrightarrow> sh_pack_id r = p"
    if "r \<in> set (pack_shards s)" for r
  proof -
    from assms that have "sh_pack_id r \<in> pk_pack_id ` set (packs s)"
      by (simp add: schema_ok_def list_all_iff)
    then show ?thesis by auto
  qed
  then show ?thesis
    by (simp add: delete_pack_metadata_def delete_packs_def delete_pack_locations_def
        delete_upload_jobs_def delete_where_def Let_def cong: filter_cong)
qed

lemma delete_pack_metadata_other_targets:
  assumes "schema_ok s" and "j \<in> set (upload_jobs s)" and "uj_pack_id j \<noteq> p"
  shows "filter (\<lambda>t. ut_job_id t = uj_id j) (upload_job_targets (delete_pack_metadata s p)) =
    filter (\<lambda>t. ut_job_id t = uj_id j) (upload_job_targets s)"
proof -
  have "uj_id j \<notin> uj_id ` {x \<in> set (upload_jobs s). uj_pack_id x = p}"
    using assms distinct_map_key [of uj_id "upload_jobs s"] by (auto simp: schema_ok_def)
  then show ?thesis
    by (simp add: delete_pack_metadata_def delete_packs_def delete_pack_locations_def
        delete_upload_jobs_def delete_where_def Let_def cong: filter_cong) (metis (no_types, lifting))
qed

text \<open>
  Deleting a pack's metadata leaves no trace of the pack in any table (its job's targets and its
  shards go with the cascades), touches no row of another pack, and keeps every constraint of the
  schema.
\<close>

theorem delete_pack_metadata_complete:
  assumes "schema_ok s"
  shows "schema_ok (delete_pack_metadata s p) \<and> \<not> pack_trace (delete_pack_metadata s p) p \<and>
    packs (delete_pack_metadata s p) = filter (\<lambda>r. pk_pack_id r \<noteq> p) (packs s) \<and>
    pack_shards (delete_pack_metadata s p) = filter (\<lambda>r. sh_pack_id r \<noteq> p) (pack_shards s) \<and>
    pack_locations (delete_pack_metadata s p) = filter (\<lambda>r. pl_pack_id r \<noteq> p) (pack_locations s) \<and>
    upload_jobs (delete_pack_metadata s p) = filter (\<lambda>r. uj_pack_id r \<noteq> p) (upload_jobs s) \<and>
    (\<forall>j \<in> set (upload_jobs s). uj_pack_id j \<noteq> p \<longrightarrow>
       filter (\<lambda>t. ut_job_id t = uj_id j) (upload_job_targets (delete_pack_metadata s p)) =
       filter (\<lambda>t. ut_job_id t = uj_id j) (upload_job_targets s))"
proof -
  have "\<not> pack_trace (delete_pack_metadata s p) p"
    by (auto simp: pack_trace_def delete_pack_metadata_tables delete_pack_metadata_shards [OF assms])
  then show ?thesis
    using schema_ok_delete_pack_metadata [OF assms] delete_pack_metadata_tables
      delete_pack_metadata_shards [OF assms] delete_pack_metadata_other_targets [OF assms]
    by blast
qed

theorem delete_pack_metadata_complete_witness:
  "\<not> pack_trace (delete_pack_metadata sample_db ''p1'') ''p1''"
  using delete_pack_metadata_complete [OF sample_db_ok, of "''p1''"] by blast

end
