(* ===== verification/UploadQueue.thy ===== *)
theory UploadQueue
  imports PackStore
begin

text \<open>
  \<^verbatim>\<open>db/uploads.rs\<close>: the queue of packs to upload, one job per pack and one target per job and provider,
  the reconciliation of targets with the shard table, and the removal of packs nothing refers to.
  The locale \<open>work_queue\<close> is what a worker relies on when it takes jobs from such a table.
\<close>

section \<open>Jobs\<close>

definition queue_pack_for_upload :: "db \<Rightarrow> string \<Rightarrow> db" where
  "queue_pack_for_upload s pack_id =
     (if pack_id \<in> set (map uj_pack_id (upload_jobs s)) then
        s\<lparr>upload_jobs := update_where (\<lambda>j. uj_pack_id j = pack_id)
            (\<lambda>j. j\<lparr>uj_status := (if uj_status j = ''COMPLETED'' then ''PENDING'' else uj_status j)\<rparr>)
            (upload_jobs s)\<rparr>
      else
        s\<lparr>upload_jobs := upload_jobs s @ [\<lparr>uj_id = upload_jobs_seq s + 1, uj_pack_id = pack_id,
            uj_status = ''PENDING'', uj_attempts = Some 0, uj_next_attempt_at = None\<rparr>],
          upload_jobs_seq := upload_jobs_seq s + 1\<rparr>)"

definition job_ready :: "int \<Rightarrow> UploadJob \<Rightarrow> bool" where
  "job_ready now j \<longleftrightarrow> uj_status j = ''PENDING'' \<and>
     (case uj_next_attempt_at j of None \<Rightarrow> True | Some t \<Rightarrow> t \<le> now)"

definition set_job_status :: "db \<Rightarrow> int \<Rightarrow> string \<Rightarrow> db" where
  "set_job_status s job_id st =
     s\<lparr>upload_jobs := update_where (\<lambda>j. uj_id j = job_id) (\<lambda>j. j\<lparr>uj_status := st\<rparr>) (upload_jobs s)\<rparr>"

definition get_next_upload_job :: "db \<Rightarrow> int \<Rightarrow> UploadJob option \<times> db" where
  "get_next_upload_job s now =
     (case fetch_optional (sql_limit 1 (sort_key uj_id (filter (job_ready now) (upload_jobs s)))) of
        None \<Rightarrow> (None, s)
      | Some job \<Rightarrow> (Some (job\<lparr>uj_status := ''IN_PROGRESS''\<rparr>),
                     set_job_status s (uj_id job) ''IN_PROGRESS''))"

definition mark_upload_job_completed :: "db \<Rightarrow> int \<Rightarrow> db" where
  "mark_upload_job_completed s job_id = set_job_status s job_id ''COMPLETED''"

definition mark_upload_job_failed :: "db \<Rightarrow> int \<Rightarrow> db" where
  "mark_upload_job_failed s job_id = set_job_status s job_id ''FAILED''"

definition get_upload_job_by_pack_id :: "db \<Rightarrow> string \<Rightarrow> UploadJob option" where
  "get_upload_job_by_pack_id s pack_id =
     fetch_optional (sql_limit 1 (filter (\<lambda>j. uj_pack_id j = pack_id) (upload_jobs s)))"

definition requeue_upload_job_after :: "db \<Rightarrow> int \<Rightarrow> int \<Rightarrow> int \<Rightarrow> (sqlx_error + int) \<times> db" where
  "requeue_upload_job_after s now job_id delay_ms =
     (let s' = s\<lparr>upload_jobs := update_where (\<lambda>j. uj_id j = job_id)
                 (\<lambda>j. j\<lparr>uj_status := ''PENDING'', uj_attempts := Some (coalesce (uj_attempts j) 0 + 1),
                        uj_next_attempt_at := Some (now + delay_ms)\<rparr>) (upload_jobs s)\<rparr>
      in (case fetch_optional (filter (\<lambda>j. uj_id j = job_id) (upload_jobs s')) of
            None \<Rightarrow> Inl RowNotFound | Some j \<Rightarrow> Inr (coalesce (uj_attempts j) 0), s'))"

definition job_reset_needed :: "UploadJob \<Rightarrow> bool" where
  "job_reset_needed j \<longleftrightarrow> uj_status j = ''IN_PROGRESS'' \<or> uj_next_attempt_at j \<noteq> None"

definition reset_in_progress_upload_jobs :: "db \<Rightarrow> nat \<times> db" where
  "reset_in_progress_upload_jobs s =
     (rows_affected job_reset_needed (upload_jobs s),
      s\<lparr>upload_jobs := update_where job_reset_needed
          (\<lambda>j. j\<lparr>uj_status := (if uj_status j = ''IN_PROGRESS'' then ''PENDING'' else uj_status j),
                 uj_next_attempt_at := None\<rparr>) (upload_jobs s)\<rparr>)"

definition list_recent_upload_jobs :: "db \<Rightarrow> int \<Rightarrow> UploadJob list" where
  "list_recent_upload_jobs s lim =
     sql_limit lim (sort_key (\<lambda>j. (if uj_status j \<in> {''PENDING'', ''IN_PROGRESS''} then 0 else 1 :: int,
                                   - uj_id j)) (upload_jobs s))"

definition get_pending_upload_queue_size :: "db \<Rightarrow> int" where
  "get_pending_upload_queue_size s = count_rows (\<lambda>j. uj_status j = ''PENDING'') (upload_jobs s)"

section \<open>Targets\<close>

definition insert_target :: "int \<Rightarrow> string \<Rightarrow> db \<Rightarrow> sqlx_error + db" where
  "insert_target job_id provider s =
     (if (job_id, provider) \<in> set (map target_key (upload_job_targets s)) then Inr s
      else if job_id \<notin> set (map uj_id (upload_jobs s)) then Inl ForeignKeyViolation
      else Inr (s\<lparr>upload_job_targets := upload_job_targets s @
                [\<lparr>ut_id = upload_job_targets_seq s + 1, ut_job_id = job_id, ut_provider = provider,
                  ut_status = ''PENDING'', ut_attempts = Some 0, ut_last_error = None,
                  ut_bucket = None, ut_object_key = None, ut_etag = None, ut_version_id = None,
                  ut_last_attempt_at = None, ut_updated_at = None, ut_completed_at = None\<rparr>],
              upload_job_targets_seq := upload_job_targets_seq s + 1\<rparr>))"

text \<open>One transaction: an error on any provider rolls all of them back.\<close>

fun ensure_upload_targets :: "db \<Rightarrow> int \<Rightarrow> string list \<Rightarrow> sqlx_error + db" where
  "ensure_upload_targets s job_id [] = Inr s"
| "ensure_upload_targets s job_id (p # ps) =
     bindR (insert_target job_id p s) (\<lambda>s'. ensure_upload_targets s' job_id ps)"

definition get_incomplete_upload_targets :: "db \<Rightarrow> int \<Rightarrow> UploadTargetRecord list" where
  "get_incomplete_upload_targets s job_id =
     sort_key ut_id (filter (\<lambda>t. ut_job_id t = job_id \<and> ut_status t \<noteq> ''COMPLETED'') (upload_job_targets s))"

definition is_target :: "int \<Rightarrow> string \<Rightarrow> UploadTargetRecord \<Rightarrow> bool" where
  "is_target job_id provider t \<longleftrightarrow> ut_job_id t = job_id \<and> ut_provider t = provider"

definition update_target ::
  "db \<Rightarrow> int \<Rightarrow> string \<Rightarrow> (UploadTargetRecord \<Rightarrow> UploadTargetRecord) \<Rightarrow> db" where
  "update_target s job_id provider f =
     s\<lparr>upload_job_targets := update_where (is_target job_id provider) f (upload_job_targets s)\<rparr>"

definition mark_upload_target_in_progress :: "db \<Rightarrow> int \<Rightarrow> int \<Rightarrow> string \<Rightarrow> db" where
  "mark_upload_target_in_progress s now job_id provider =
     update_target s job_id provider
       (\<lambda>t. t\<lparr>ut_status := ''IN_PROGRESS'', ut_last_attempt_at := Some now, ut_updated_at := Some now\<rparr>)"

definition mark_upload_target_completed ::
  "db \<Rightarrow> int \<Rightarrow> int \<Rightarrow> string \<Rightarrow> string \<Rightarrow> string \<Rightarrow> string option \<Rightarrow> string option \<Rightarrow> db" where
  "mark_upload_target_completed s now job_id provider bucket object_key etag version_id =
     update_target s job_id provider
       (\<lambda>t. t\<lparr>ut_status := ''COMPLETED'', ut_last_error := None, ut_bucket := Some bucket,
              ut_object_key := Some object_key, ut_etag := etag, ut_version_id := version_id,
              ut_last_attempt_at := Some now, ut_updated_at := Some now, ut_completed_at := Some now\<rparr>)"

definition requeue_upload_target ::
  "db \<Rightarrow> int \<Rightarrow> int \<Rightarrow> string \<Rightarrow> string \<Rightarrow> (sqlx_error + int) \<times> db" where
  "requeue_upload_target s now job_id provider error_message =
     (let s' = update_target s job_id provider
                 (\<lambda>t. t\<lparr>ut_status := ''PENDING'', ut_attempts := Some (coalesce (ut_attempts t) 0 + 1),
                        ut_last_error := Some error_message, ut_last_attempt_at := Some now,
                        ut_updated_at := Some now, ut_completed_at := None\<rparr>)
      in (case fetch_optional (filter (is_target job_id provider) (upload_job_targets s')) of
            None \<Rightarrow> Inl RowNotFound | Some t \<Rightarrow> Inr (coalesce (ut_attempts t) 0), s'))"

definition mark_upload_target_failed :: "db \<Rightarrow> int \<Rightarrow> int \<Rightarrow> string \<Rightarrow> string \<Rightarrow> db" where
  "mark_upload_target_failed s now job_id provider error_message =
     update_target s job_id provider
       (\<lambda>t. t\<lparr>ut_status := ''FAILED'', ut_attempts := Some (coalesce (ut_attempts t) 0 + 1),
              ut_last_error := Some error_message, ut_last_attempt_at := Some now,
              ut_updated_at := Some now, ut_completed_at := None\<rparr>)"

definition mark_upload_target_permanently_failed :: "db \<Rightarrow> int \<Rightarrow> int \<Rightarrow> string \<Rightarrow> string \<Rightarrow> db" where
  "mark_upload_target_permanently_failed s now job_id provider error_message =
     update_target s job_id provider
       (\<lambda>t. t\<lparr>ut_status := ''PERMANENTLY_FAILED'', ut_last_error := Some error_message,
              ut_last_attempt_at := Some now, ut_updated_at := Some now, ut_completed_at := None\<rparr>)"

definition has_incomplete_upload_targets :: "db \<Rightarrow> int \<Rightarrow> bool" where
  "has_incomplete_upload_targets s job_id \<longleftrightarrow>
     count_rows (\<lambda>t. ut_job_id t = job_id \<and> ut_status t \<noteq> ''COMPLETED'') (upload_job_targets s) > 0"

definition reset_in_progress_upload_targets :: "db \<Rightarrow> int \<Rightarrow> nat \<times> db" where
  "reset_in_progress_upload_targets s now =
     (rows_affected (\<lambda>t. ut_status t = ''IN_PROGRESS'') (upload_job_targets s),
      s\<lparr>upload_job_targets := update_where (\<lambda>t. ut_status t = ''IN_PROGRESS'')
          (\<lambda>t. t\<lparr>ut_status := ''PENDING'', ut_updated_at := Some now\<rparr>) (upload_job_targets s)\<rparr>)"

definition get_upload_targets_for_job :: "db \<Rightarrow> int \<Rightarrow> UploadTargetRecord list" where
  "get_upload_targets_for_job s job_id =
     sort_key ut_provider (filter (\<lambda>t. ut_job_id t = job_id) (upload_job_targets s))"

definition target_time :: "UploadTargetRecord \<Rightarrow> int" where
  "target_time t = (case ut_last_attempt_at t of Some a \<Rightarrow> a
     | None \<Rightarrow> (case ut_updated_at t of Some a \<Rightarrow> a | None \<Rightarrow> coalesce (ut_completed_at t) 0))"

definition get_latest_upload_error :: "db \<Rightarrow> string option" where
  "get_latest_upload_error s =
     (case fetch_optional (sql_limit 1 (sort_key (\<lambda>t. (- target_time t, - ut_id t))
         (filter (\<lambda>t. ut_last_error t \<noteq> None \<and> ut_last_error t \<noteq> Some '''') (upload_job_targets s)))) of
        None \<Rightarrow> None | Some t \<Rightarrow> ut_last_error t)"

definition get_latest_upload_target_for_provider :: "db \<Rightarrow> string \<Rightarrow> UploadTargetRecord option" where
  "get_latest_upload_target_for_provider s provider =
     fetch_optional (sql_limit 1 (sort_key (\<lambda>t. (- target_time t, - ut_id t))
       (filter (\<lambda>t. ut_provider t = provider) (upload_job_targets s))))"

definition completion_time :: "UploadTargetRecord \<Rightarrow> int" where
  "completion_time t = (case ut_completed_at t of Some a \<Rightarrow> a
     | None \<Rightarrow> (case ut_updated_at t of Some a \<Rightarrow> a | None \<Rightarrow> coalesce (ut_last_attempt_at t) 0))"

definition get_completed_pack_targets :: "db \<Rightarrow> string \<Rightarrow> UploadTargetRecord list" where
  "get_completed_pack_targets s pack_id =
     sort_key (\<lambda>t. (- completion_time t, ut_id t))
       (concat (map (\<lambda>j. filter (\<lambda>t. ut_job_id t = uj_id j \<and> ut_status t = ''COMPLETED'' \<and>
            ut_bucket t \<noteq> None \<and> ut_object_key t \<noteq> None) (upload_job_targets s))
          (filter (\<lambda>j. uj_pack_id j = pack_id) (upload_jobs s))))"

definition list_retry_storm_targets :: "db \<Rightarrow> int \<Rightarrow> (UploadJob \<times> UploadTargetRecord) list" where
  "list_retry_storm_targets s attempts_threshold =
     sort_key (\<lambda>(j, t). (- coalesce (ut_attempts t) 0, ut_job_id t))
       (concat (map (\<lambda>t. map (\<lambda>j. (j, t)) (filter (\<lambda>j. uj_id j = ut_job_id t) (upload_jobs s)))
          (filter (\<lambda>t. attempts_threshold \<le> coalesce (ut_attempts t) 0 \<and> ut_status t \<noteq> ''COMPLETED'')
             (upload_job_targets s))))"

section \<open>Reconciling targets with shards\<close>

record UploadTargetSyncReport =
  synced_targets :: nat
  cleared_errors :: nat

definition target_stale :: "db \<Rightarrow> UploadTargetRecord \<Rightarrow> bool" where
  "target_stale s t \<longleftrightarrow> ut_status t \<notin> {''COMPLETED'', ''PERMANENTLY_FAILED''} \<and>
     list_ex (\<lambda>j. uj_id j = ut_job_id t \<and>
       list_ex (\<lambda>r. sh_pack_id r = uj_pack_id j \<and> sh_provider r = ut_provider t \<and>
         sh_status r = ''COMPLETED'') (pack_shards s)) (upload_jobs s)"

definition error_stale :: "UploadTargetRecord \<Rightarrow> bool" where
  "error_stale t \<longleftrightarrow> ut_status t = ''COMPLETED'' \<and> ut_last_error t \<noteq> None"

definition sync_upload_targets_from_shards :: "db \<Rightarrow> int \<Rightarrow> UploadTargetSyncReport \<times> db" where
  "sync_upload_targets_from_shards s now =
     (let ids = map ut_id (filter (target_stale s) (upload_job_targets s));
          t1 = update_where (\<lambda>t. ut_id t \<in> set ids)
                 (\<lambda>t. t\<lparr>ut_status := ''COMPLETED'',
                        ut_completed_at := Some (coalesce (ut_completed_at t) now),
                        ut_updated_at := Some now\<rparr>) (upload_job_targets s);
          t2 = update_where error_stale (\<lambda>t. t\<lparr>ut_last_error := None\<rparr>) t1
      in (\<lparr>synced_targets = rows_affected (\<lambda>t. ut_id t \<in> set ids) (upload_job_targets s),
           cleared_errors = rows_affected error_stale t1\<rparr>,
          s\<lparr>upload_job_targets := t2\<rparr>))"

section \<open>Removing packs nothing refers to\<close>

record GcOrphanReport =
  orphan_pack_ids :: "string list"
  deleted_packs :: nat
  deleted_pack_shards :: nat
  deleted_pack_locations :: nat
  deleted_upload_jobs :: nat
  deleted_upload_job_targets :: nat

definition pack_referenced :: "db \<Rightarrow> string \<Rightarrow> bool" where
  "pack_referenced s pack_id \<longleftrightarrow>
     list_ex (\<lambda>l. pl_pack_id l = pack_id \<and> list_ex (\<lambda>c. cref_chunk_id c = pl_chunk_id l) (chunk_refs s))
       (pack_locations s)"

fun gc_delete_jobs :: "int list \<Rightarrow> db \<Rightarrow> GcOrphanReport \<Rightarrow> db \<times> GcOrphanReport" where
  "gc_delete_jobs [] s rep = (s, rep)"
| "gc_delete_jobs (job_id # job_ids) s rep =
     (let nt = rows_affected (\<lambda>t. ut_job_id t = job_id) (upload_job_targets s);
          s1 = s\<lparr>upload_job_targets := delete_where (\<lambda>t. ut_job_id t = job_id) (upload_job_targets s)\<rparr>;
          nj = rows_affected (\<lambda>j. uj_id j = job_id) (upload_jobs s1);
          s2 = delete_upload_jobs (\<lambda>j. uj_id j = job_id) s1
      in gc_delete_jobs job_ids s2
           (rep\<lparr>deleted_upload_job_targets := u64_saturating_add (deleted_upload_job_targets rep) nt,
                deleted_upload_jobs := u64_saturating_add (deleted_upload_jobs rep) nj\<rparr>))"

definition gc_delete_pack :: "string \<Rightarrow> db \<times> GcOrphanReport \<Rightarrow> db \<times> GcOrphanReport" where
  "gc_delete_pack pack_id sr =
     (let (s, rep) = sr;
          job_ids = map uj_id (filter (\<lambda>j. uj_pack_id j = pack_id) (upload_jobs s));
          (s1, rep1) = gc_delete_jobs job_ids s rep;
          nl = rows_affected (\<lambda>l. pl_pack_id l = pack_id) (pack_locations s1);
          s2 = delete_pack_locations pack_id s1;
          ns = length (filter (\<lambda>r. sh_pack_id r = pack_id) (pack_shards s2));
          np = rows_affected (\<lambda>p. pk_pack_id p = pack_id) (packs s2);
          s3 = delete_packs (\<lambda>p. pk_pack_id p = pack_id) s2
      in (s3, rep1\<lparr>deleted_pack_locations := u64_saturating_add (deleted_pack_locations rep1) nl,
                   deleted_pack_shards := u64_saturating_add (deleted_pack_shards rep1) ns,
                   deleted_packs := u64_saturating_add (deleted_packs rep1) np\<rparr>))"

definition gc_orphan_packs :: "db \<Rightarrow> GcOrphanReport \<times> db" where
  "gc_orphan_packs s =
     (let orphans = filter (\<lambda>p. \<not> pack_referenced s p) (map pk_pack_id (packs s));
          rep = \<lparr>orphan_pack_ids = orphans, deleted_packs = 0, deleted_pack_shards = 0,
                 deleted_pack_locations = 0, deleted_upload_jobs = 0, deleted_upload_job_targets = 0\<rparr>
      in if orphans = [] then (rep, s)
         else (let (s', rep') = fold gc_delete_pack orphans (s, rep) in (rep', s')))"

section \<open>Statements keep the schema\<close>

lemmas keeps_jobs = schema_ok_update_jobs
lemmas keeps_targets = schema_ok_update_targets

lemma schema_ok_set_job_status: "schema_ok s \<Longrightarrow> schema_ok (set_job_status s j st)"
  unfolding set_job_status_def by (rule keeps_jobs) simp_all

lemma schema_ok_update_target:
  assumes "schema_ok s" and "\<And>t. ut_id (f t) = ut_id t" and "\<And>t. target_key (f t) = target_key t"
  shows "schema_ok (update_target s job_id provider f)"
  unfolding update_target_def using assms by (rule keeps_targets)

lemma schema_ok_queue_pack_for_upload:
  assumes s: "schema_ok s"
  shows "schema_ok (queue_pack_for_upload s p)"
proof (cases "p \<in> set (map uj_pack_id (upload_jobs s))")
  case True
  then show ?thesis by (simp add: queue_pack_for_upload_def keeps_jobs s del: set_map)
next
  case False
  have "list_all (\<lambda>r. uj_id r \<le> upload_jobs_seq s) (upload_jobs s)"
    using s by (simp add: schema_ok_def)
  then have "upload_jobs_seq s + 1 \<notin> set (map uj_id (upload_jobs s))"
    and "list_all (\<lambda>r. uj_id r \<le> upload_jobs_seq s + 1) (upload_jobs s)"
    by (auto simp: list_all_iff)
  moreover have "list_all (\<lambda>r. ut_job_id r = upload_jobs_seq s + 1 \<or>
      ut_job_id r \<in> set (map uj_id (upload_jobs s))) (upload_job_targets s)"
    using s by (auto simp: schema_ok_def list_all_iff)
  ultimately show ?thesis using False s
    by (simp add: queue_pack_for_upload_def schema_ok_def)
qed

lemma schema_ok_get_next_upload_job: "schema_ok s \<Longrightarrow> schema_ok (snd (get_next_upload_job s now))"
  by (simp add: get_next_upload_job_def schema_ok_set_job_status split: option.splits)

lemma schema_ok_requeue_upload_job_after:
  "schema_ok s \<Longrightarrow> schema_ok (snd (requeue_upload_job_after s now j d))"
  unfolding requeue_upload_job_after_def Let_def snd_conv by (rule keeps_jobs) simp_all

lemma schema_ok_reset_in_progress_upload_jobs:
  "schema_ok s \<Longrightarrow> schema_ok (snd (reset_in_progress_upload_jobs s))"
  unfolding reset_in_progress_upload_jobs_def snd_conv by (rule keeps_jobs) simp_all

lemma schema_ok_insert_target:
  assumes s: "schema_ok s" and r: "insert_target j p s = Inr s'"
  shows "schema_ok s'"
proof (cases "(j, p) \<in> set (map target_key (upload_job_targets s))")
  case True
  with r s show ?thesis by (simp add: insert_target_def del: set_map)
next
  case False
  have "list_all (\<lambda>r. ut_id r \<le> upload_job_targets_seq s) (upload_job_targets s)"
    using s by (simp add: schema_ok_def)
  then have "upload_job_targets_seq s + 1 \<notin> set (map ut_id (upload_job_targets s))"
    and "list_all (\<lambda>r. ut_id r \<le> upload_job_targets_seq s + 1) (upload_job_targets s)"
    by (auto simp: list_all_iff)
  with False r s show ?thesis
    by (auto simp: insert_target_def schema_ok_def target_key_def simp del: set_map
        split: if_splits)
qed

lemma schema_ok_ensure_upload_targets:
  "schema_ok s \<Longrightarrow> ensure_upload_targets s j ps = Inr s' \<Longrightarrow> schema_ok s'"
  by (induction s j ps rule: ensure_upload_targets.induct)
    (auto simp: bindR_eq_Inr dest: schema_ok_insert_target)

lemma schema_ok_requeue_upload_target:
  "schema_ok s \<Longrightarrow> schema_ok (snd (requeue_upload_target s now j p e))"
  unfolding requeue_upload_target_def Let_def snd_conv
  by (rule schema_ok_update_target) (simp_all add: target_key_def)

lemma schema_ok_mark_upload_target:
  assumes "schema_ok s"
  shows "schema_ok (mark_upload_target_in_progress s now j p)"
    and "schema_ok (mark_upload_target_completed s now j p b k e v)"
    and "schema_ok (mark_upload_target_failed s now j p msg)"
    and "schema_ok (mark_upload_target_permanently_failed s now j p msg)"
    and "schema_ok (snd (reset_in_progress_upload_targets s now))"
  unfolding mark_upload_target_in_progress_def mark_upload_target_completed_def
    mark_upload_target_failed_def mark_upload_target_permanently_failed_def
    reset_in_progress_upload_targets_def snd_conv
  by (rule schema_ok_update_target schema_ok_update_targets,
      simp_all add: assms target_key_def)+

lemma schema_ok_sync_upload_targets:
  assumes "schema_ok s"
  shows "schema_ok (snd (sync_upload_targets_from_shards s now))"
proof -
  let ?P = "\<lambda>t. ut_id t \<in> set (map ut_id (filter (target_stale s) (upload_job_targets s)))"
  let ?f = "\<lambda>t. t\<lparr>ut_status := ''COMPLETED'', ut_completed_at := Some (coalesce (ut_completed_at t) now),
      ut_updated_at := Some now\<rparr>"
  let ?s1 = "s\<lparr>upload_job_targets := update_where ?P ?f (upload_job_targets s)\<rparr>"
  have "schema_ok ?s1" by (rule keeps_targets [OF assms]) (simp_all add: target_key_def)
  then have "schema_ok (?s1\<lparr>upload_job_targets := update_where error_stale
      (\<lambda>t. t\<lparr>ut_last_error := None\<rparr>) (upload_job_targets ?s1)\<rparr>)"
    by (rule keeps_targets) (simp_all add: target_key_def)
  then show ?thesis by (simp add: sync_upload_targets_from_shards_def Let_def)
qed

section \<open>Taking jobs from a queue\<close>

text \<open>
  A worker asks for the next job at each of the times \<open>nows\<close>; the jobs it was given, and the state
  after. \<open>work_queue\<close> is the contract of such a table: the next job is the ready job with the
  least key, and taking it makes it unready and changes no other job.
\<close>

fun claim_at :: "('s \<Rightarrow> int \<Rightarrow> 'j option \<times> 's) \<Rightarrow> 's \<Rightarrow> int list \<Rightarrow> 'j list \<times> 's" where
  "claim_at claim s [] = ([], s)"
| "claim_at claim s (now # nows) =
     (case claim s now of
        (None, s') \<Rightarrow> claim_at claim s' nows
      | (Some j, s') \<Rightarrow> (let (js, s'') = claim_at claim s' nows in (j # js, s'')))"

locale work_queue =
  fixes claim :: "'s \<Rightarrow> int \<Rightarrow> 'j option \<times> 's"
    and jobs :: "'s \<Rightarrow> 'j list"
    and key :: "'j \<Rightarrow> int"
    and ready :: "int \<Rightarrow> 'j \<Rightarrow> bool"
    and taken :: "'j \<Rightarrow> 'j"
    and inv :: "'s \<Rightarrow> bool"
  assumes inv_distinct: "inv s \<Longrightarrow> distinct (map key (jobs s))"
    and inv_claim: "inv s \<Longrightarrow> inv (snd (claim s now))"
    and claim_None: "inv s \<Longrightarrow> claim s now = (None, s') \<Longrightarrow>
      s' = s \<and> (\<forall>j \<in> set (jobs s). \<not> ready now j)"
    and claim_Some: "inv s \<Longrightarrow> claim s now = (Some j, s') \<Longrightarrow>
      \<exists>j0 \<in> set (jobs s). ready now j0 \<and> j = taken j0 \<and>
        (\<forall>x \<in> set (jobs s). ready now x \<longrightarrow> key j0 \<le> key x) \<and>
        jobs s' = update_where (\<lambda>x. key x = key j0) taken (jobs s)"
    and key_taken: "key (taken j) = key j"
    and not_ready_taken: "\<not> ready now (taken j)"
begin

definition ready_keys :: "'s \<Rightarrow> int \<Rightarrow> int set" where
  "ready_keys s now = key ` {j \<in> set (jobs s). ready now j}"

lemma finite_ready_keys: "finite (ready_keys s now)"
  by (simp add: ready_keys_def)

lemma claim_None_keys: "inv s \<Longrightarrow> claim s now = (None, s') \<Longrightarrow> s' = s \<and> ready_keys s now = {}"
  using claim_None by (auto simp: ready_keys_def)

lemma claim_Some_keys:
  assumes s: "inv s" and c: "claim s now = (Some j, s')"
  shows "inv s'" and "ready_keys s now \<noteq> {}" and "key j = Min (ready_keys s now)"
    and "ready_keys s' t = ready_keys s t - {key j}"
proof -
  from claim_Some [OF s c] obtain j0 where j0: "j0 \<in> set (jobs s)" "ready now j0" "j = taken j0"
    "\<forall>x \<in> set (jobs s). ready now x \<longrightarrow> key j0 \<le> key x"
    "jobs s' = update_where (\<lambda>x. key x = key j0) taken (jobs s)" by blast
  show "inv s'" using inv_claim [OF s, of now] c by simp
  have k: "key j = key j0" using j0(3) by (simp add: key_taken)
  show "ready_keys s now \<noteq> {}" using j0(1,2) by (auto simp: ready_keys_def)
  show "key j = Min (ready_keys s now)" unfolding k
    by (rule Min_eqI [symmetric]) (use j0 in \<open>auto simp: ready_keys_def\<close>)
  have "{x \<in> set (jobs s'). ready t x} = {x \<in> set (jobs s). ready t x \<and> key x \<noteq> key j0}"
    unfolding j0(5) set_update_where using not_ready_taken by blast
  then show "ready_keys s' t = ready_keys s t - {key j}"
    unfolding ready_keys_def k by auto
qed

text \<open>Asking \<open>n\<close> times at one moment hands out the first \<open>n\<close> ready jobs in the order of their keys.\<close>

lemma claims_in_order:
  "inv s \<Longrightarrow> map key (fst (claim_at claim s (replicate n now))) =
     take n (sorted_list_of_set (ready_keys s now))"
proof (induction n arbitrary: s)
  case (Suc n)
  obtain r s' where c: "claim s now = (r, s')" by (cases "claim s now") auto
  show ?case
  proof (cases r)
    case None
    with c claim_None_keys [OF Suc.prems] have "s' = s" "ready_keys s now = {}" by auto
    with c None Suc.IH [OF Suc.prems] show ?thesis by simp
  next
    case (Some j)
    with c have c': "claim s now = (Some j, s')" by simp
    note k = claim_Some_keys [OF Suc.prems c']
    have "sorted_list_of_set (ready_keys s now) = key j # sorted_list_of_set (ready_keys s' now)"
      using k(2,3,4) sorted_list_of_set_nonempty [OF finite_ready_keys] by simp
    with c' Suc.IH [OF k(1)] show ?thesis by (simp add: case_prod_beta Let_def)
  qed
qed simp

text \<open>However the times are chosen, no job is handed out twice.\<close>

lemma claimed_was_ready:
  "inv s \<Longrightarrow> j \<in> set (fst (claim_at claim s nows)) \<Longrightarrow> \<exists>t \<in> set nows. key j \<in> ready_keys s t"
proof (induction nows arbitrary: s)
  case (Cons now nows)
  obtain r s' where c: "claim s now = (r, s')" by (cases "claim s now") auto
  show ?case
  proof (cases r)
    case None
    with c claim_None_keys [OF Cons.prems(1)] have "s' = s" by simp
    with c None Cons show ?thesis by auto
  next
    case (Some i)
    with c have c': "claim s now = (Some i, s')" by simp
    note k = claim_Some_keys [OF Cons.prems(1) c']
    from Cons.prems(2) c' consider "j = i" | "j \<in> set (fst (claim_at claim s' nows))"
      by (auto simp: case_prod_beta Let_def)
    then show ?thesis
    proof cases
      case 1
      then show ?thesis using k(2,3) finite_ready_keys Min_in by auto
    next
      case 2
      from Cons.IH [OF k(1) this] k(4) show ?thesis by auto
    qed
  qed
qed simp

lemma claims_distinct: "inv s \<Longrightarrow> distinct (map key (fst (claim_at claim s nows)))"
proof (induction nows arbitrary: s)
  case (Cons now nows)
  obtain r s' where c: "claim s now = (r, s')" by (cases "claim s now") auto
  show ?case
  proof (cases r)
    case None
    with c claim_None_keys [OF Cons.prems] have "s' = s" by simp
    with c None Cons show ?thesis by auto
  next
    case (Some i)
    with c have c': "claim s now = (Some i, s')" by simp
    note k = claim_Some_keys [OF Cons.prems c']
    have "key i \<notin> key ` set (fst (claim_at claim s' nows))"
      using claimed_was_ready [OF k(1)] k(4) by fastforce
    with c' Cons.IH [OF k(1)] show ?thesis by (simp add: case_prod_beta Let_def)
  qed
qed simp

end

definition job_taken :: "UploadJob \<Rightarrow> UploadJob" where
  "job_taken j = j\<lparr>uj_status := ''IN_PROGRESS''\<rparr>"

lemma get_next_upload_job_None:
  "get_next_upload_job s now = (None, s') \<Longrightarrow>
     s' = s \<and> (\<forall>j \<in> set (upload_jobs s). \<not> job_ready now j)"
  by (auto simp: get_next_upload_job_def filter_empty_conv split: option.splits)

lemma get_next_upload_job_Some:
  assumes "get_next_upload_job s now = (Some j, s')"
  shows "\<exists>j0 \<in> set (upload_jobs s). job_ready now j0 \<and> j = job_taken j0 \<and>
    (\<forall>x \<in> set (upload_jobs s). job_ready now x \<longrightarrow> uj_id j0 \<le> uj_id x) \<and>
    upload_jobs s' = update_where (\<lambda>x. uj_id x = uj_id j0) job_taken (upload_jobs s)"
proof -
  let ?t = "filter (job_ready now) (upload_jobs s)"
  from assms obtain j0 where f: "fetch_optional (sort_key uj_id ?t) = Some j0"
    and j: "j = job_taken j0" "s' = set_job_status s (uj_id j0) ''IN_PROGRESS''"
    by (auto simp: get_next_upload_job_def job_taken_def split: option.splits)
  from fetch_sort_key_Some [OF f] have "j0 \<in> set ?t" "\<forall>x \<in> set ?t. uj_id j0 \<le> uj_id x" by auto
  moreover have "upload_jobs s' = update_where (\<lambda>x. uj_id x = uj_id j0) job_taken (upload_jobs s)"
    by (simp add: j(2) set_job_status_def job_taken_def [abs_def])
  ultimately show ?thesis using j(1) by auto
qed

interpretation uq: work_queue get_next_upload_job upload_jobs uj_id job_ready job_taken schema_ok
proof unfold_locales
  show "distinct (map uj_id (upload_jobs s))" if "schema_ok s" for s
    using that by (simp add: schema_ok_def)
  show "\<not> job_ready now (job_taken j)" for now j by (simp add: job_ready_def job_taken_def)
  show "uj_id (job_taken j) = uj_id j" for j by (simp add: job_taken_def)
qed (simp_all add: schema_ok_get_next_upload_job get_next_upload_job_None get_next_upload_job_Some)

text \<open>
  C23: the upload queue is first-in first-out and hands every job to one worker only. At one moment,
  asking \<open>n\<close> times gives the \<open>n\<close> oldest jobs that are pending and due, in order; whatever the times at
  which jobs are asked for, no job is given out twice before somebody puts it back.
\<close>

theorem upload_queue_fifo:
  assumes "schema_ok s"
  shows "map uj_id (fst (claim_at get_next_upload_job s (replicate n now))) =
      take n (sorted_list_of_set (uj_id ` {j \<in> set (upload_jobs s). job_ready now j})) \<and>
    distinct (map uj_id (fst (claim_at get_next_upload_job s nows)))"
  using uq.claims_in_order [OF assms] uq.claims_distinct [OF assms]
  by (simp add: uq.ready_keys_def)

definition queue_db :: db where
  "queue_db = queue_pack_for_upload (queue_pack_for_upload sample_db ''p1'') ''p2''"

lemma queue_db_ok: "schema_ok queue_db"
  unfolding queue_db_def by (intro schema_ok_queue_pack_for_upload sample_db_ok)

lemma queue_db_jobs: "upload_jobs queue_db =
  [\<lparr>uj_id = 1, uj_pack_id = ''p1'', uj_status = ''PENDING'', uj_attempts = Some 0, uj_next_attempt_at = None\<rparr>,
   \<lparr>uj_id = 2, uj_pack_id = ''p2'', uj_status = ''PENDING'', uj_attempts = Some 0, uj_next_attempt_at = None\<rparr>]"
  by (simp add: queue_db_def queue_pack_for_upload_def sample_db_def empty_db_def)

theorem upload_queue_fifo_witness:
  "map uj_id (fst (claim_at get_next_upload_job queue_db (replicate 2 7))) = [1, 2]"
proof -
  have "{j \<in> set (upload_jobs queue_db). job_ready 7 j} = set (upload_jobs queue_db)"
    by (auto simp: queue_db_jobs job_ready_def)
  then have "uj_id ` {j \<in> set (upload_jobs queue_db). job_ready 7 j} = {1, 2}"
    by (auto simp: queue_db_jobs)
  moreover have "sorted_list_of_set {1, 2 :: int} = [1, 2]" by simp
  ultimately show ?thesis
    using upload_queue_fifo [OF queue_db_ok, of 2 7 "[]"] by (metis take_all_iff numeral_2_eq_2 order_refl
        length_Cons list.size(3))
qed

section \<open>Putting jobs back\<close>

lemma job_by_id:
  "schema_ok s \<Longrightarrow> j \<in> set (upload_jobs s) \<Longrightarrow> filter (\<lambda>x. uj_id x = uj_id j) (upload_jobs s) = [j]"
  using filter_key_singleton [of uj_id "upload_jobs s" j] by (simp add: schema_ok_def)

lemma requeue_upload_job_rows:
  assumes "schema_ok s" and "j \<in> set (upload_jobs s)"
  shows "filter (\<lambda>x. uj_id x = uj_id j) (upload_jobs (snd (requeue_upload_job_after s now (uj_id j) d))) =
      [j\<lparr>uj_status := ''PENDING'', uj_attempts := Some (coalesce (uj_attempts j) 0 + 1),
         uj_next_attempt_at := Some (now + d)\<rparr>]"
    and "filter (\<lambda>x. uj_id x \<noteq> uj_id j) (upload_jobs (snd (requeue_upload_job_after s now (uj_id j) d))) =
      filter (\<lambda>x. uj_id x \<noteq> uj_id j) (upload_jobs s)"
    and "fst (requeue_upload_job_after s now (uj_id j) d) = Inr (coalesce (uj_attempts j) 0 + 1)"
  using job_by_id [OF assms]
  by (simp add: requeue_upload_job_after_def Let_def filter_update_where,
      simp add: requeue_upload_job_after_def Let_def filter_outside_update,
      simp add: requeue_upload_job_after_def Let_def filter_update_where)

lemma reset_in_progress_upload_jobs_rows:
  "set (upload_jobs (snd (reset_in_progress_upload_jobs s))) =
     (\<lambda>j. j\<lparr>uj_status := (if uj_status j = ''IN_PROGRESS'' then ''PENDING'' else uj_status j),
            uj_next_attempt_at := None\<rparr>) ` set (upload_jobs s)"
proof -
  have "update_where job_reset_needed (\<lambda>j. j\<lparr>uj_status := (if uj_status j = ''IN_PROGRESS''
      then ''PENDING'' else uj_status j), uj_next_attempt_at := None\<rparr>) t =
    map (\<lambda>j. j\<lparr>uj_status := (if uj_status j = ''IN_PROGRESS'' then ''PENDING'' else uj_status j),
      uj_next_attempt_at := None\<rparr>) t" for t
    by (induction t) (auto simp: job_reset_needed_def)
  then show ?thesis by (simp add: reset_in_progress_upload_jobs_def)
qed

text \<open>
  Retry and restart. A job put back after a failure counts one more attempt and is not ready
  before its delay has passed, but is from then on; no other job changes. The reset at start-up leaves
  no job in progress: every job that was pending, deferred or in progress is ready at once, a completed
  or failed one keeps its status, and a second reset changes nothing.
\<close>

theorem job_retry_and_restart:
  assumes s: "schema_ok s" and j: "j \<in> set (upload_jobs s)"
  shows "(\<exists>j'. fst (requeue_upload_job_after s now (uj_id j) d) = Inr (coalesce (uj_attempts j) 0 + 1) \<and>
      filter (\<lambda>x. uj_id x = uj_id j) (upload_jobs (snd (requeue_upload_job_after s now (uj_id j) d))) = [j'] \<and>
      uj_pack_id j' = uj_pack_id j \<and> (\<forall>t. job_ready t j' \<longleftrightarrow> now + d \<le> t)) \<and>
    filter (\<lambda>x. uj_id x \<noteq> uj_id j) (upload_jobs (snd (requeue_upload_job_after s now (uj_id j) d))) =
      filter (\<lambda>x. uj_id x \<noteq> uj_id j) (upload_jobs s) \<and>
    (\<exists>j' \<in> set (upload_jobs (snd (reset_in_progress_upload_jobs s))). uj_id j' = uj_id j \<and>
      (job_ready now j' \<longleftrightarrow> uj_status j \<in> {''PENDING'', ''IN_PROGRESS''}) \<and>
      (uj_status j \<noteq> ''IN_PROGRESS'' \<longrightarrow> uj_status j' = uj_status j)) \<and>
    fst (reset_in_progress_upload_jobs (snd (reset_in_progress_upload_jobs s))) = 0"
proof -
  let ?g = "\<lambda>j. j\<lparr>uj_status := (if uj_status j = ''IN_PROGRESS'' then ''PENDING'' else uj_status j),
                  uj_next_attempt_at := None\<rparr>"
  let ?j = "j\<lparr>uj_status := ''PENDING'', uj_attempts := Some (coalesce (uj_attempts j) 0 + 1),
         uj_next_attempt_at := Some (now + d)\<rparr>"
  note rows = requeue_upload_job_rows [OF assms, of now d]
  have "job_ready t ?j \<longleftrightarrow> now + d \<le> t" for t by (simp add: job_ready_def)
  moreover have "?g j \<in> set (upload_jobs (snd (reset_in_progress_upload_jobs s)))"
    unfolding reset_in_progress_upload_jobs_rows using j by (rule imageI)
  then have "\<exists>j' \<in> set (upload_jobs (snd (reset_in_progress_upload_jobs s))). uj_id j' = uj_id j \<and>
      (job_ready now j' \<longleftrightarrow> uj_status j \<in> {''PENDING'', ''IN_PROGRESS''}) \<and>
      (uj_status j \<noteq> ''IN_PROGRESS'' \<longrightarrow> uj_status j' = uj_status j)"
    by (rule bexI [rotated]) (simp add: job_ready_def)
  moreover have "\<not> job_reset_needed x"
    if "x \<in> set (upload_jobs (snd (reset_in_progress_upload_jobs s)))" for x
    using that unfolding reset_in_progress_upload_jobs_rows
    by (auto simp: job_reset_needed_def split: if_splits)
  then have "fst (reset_in_progress_upload_jobs (snd (reset_in_progress_upload_jobs s))) = 0"
    by (simp add: reset_in_progress_upload_jobs_def [of "snd _"] rows_affected_0)
  ultimately show ?thesis using rows by simp
qed

theorem job_retry_and_restart_witness:
  "fst (requeue_upload_job_after queue_db 100 1 50) = Inr 1 \<and>
   fst (reset_in_progress_upload_jobs (snd (reset_in_progress_upload_jobs queue_db))) = 0"
  using job_retry_and_restart [OF queue_db_ok, of "hd (upload_jobs queue_db)" 100 50]
  by (auto simp: queue_db_jobs)

section \<open>Targets agree with shards\<close>

lemma sync_targets:
  fixes now :: int
  assumes s: "schema_ok s"
  defines "g \<equiv> (\<lambda>t. (if target_stale s t then t\<lparr>ut_status := ''COMPLETED'',
      ut_completed_at := Some (coalesce (ut_completed_at t) now), ut_updated_at := Some now\<rparr> else t))"
  shows "upload_job_targets (snd (sync_upload_targets_from_shards s now)) =
    map (\<lambda>t. if error_stale (g t) then (g t)\<lparr>ut_last_error := None\<rparr> else g t) (upload_job_targets s)"
proof -
  have "ut_id t \<in> ut_id ` {x \<in> set (upload_job_targets s). target_stale s x} \<longleftrightarrow> target_stale s t"
    if "t \<in> set (upload_job_targets s)" for t
    using that s distinct_map_key [of ut_id "upload_job_targets s"] by (auto simp: schema_ok_def)
  then show ?thesis
    by (simp add: sync_upload_targets_from_shards_def Let_def update_where_def g_def)
qed

lemma target_stale_cong:
  assumes "ut_job_id t = ut_job_id t'" and "ut_provider t = ut_provider t'"
    and "upload_jobs s' = upload_jobs s" and "pack_shards s' = pack_shards s"
    and "ut_status t = ut_status t'"
  shows "target_stale s' t \<longleftrightarrow> target_stale s t'"
  using assms by (simp add: target_stale_def)

lemma sync_keeps_tables:
  "upload_jobs (snd (sync_upload_targets_from_shards s now)) = upload_jobs s"
  "pack_shards (snd (sync_upload_targets_from_shards s now)) = pack_shards s"
  by (simp_all add: sync_upload_targets_from_shards_def Let_def)

lemma sync_leaves_nothing_stale:
  assumes s: "schema_ok s" and t: "t \<in> set (upload_job_targets (snd (sync_upload_targets_from_shards s now)))"
  shows "\<not> target_stale (snd (sync_upload_targets_from_shards s now)) t" and "\<not> error_stale t"
proof -
  let ?s' = "snd (sync_upload_targets_from_shards s now)"
  from t obtain u where u: "u \<in> set (upload_job_targets s)"
    and tu: "t = (if error_stale (if target_stale s u then u\<lparr>ut_status := ''COMPLETED'',
        ut_completed_at := Some (coalesce (ut_completed_at u) now), ut_updated_at := Some now\<rparr> else u)
      then (if target_stale s u then u\<lparr>ut_status := ''COMPLETED'',
        ut_completed_at := Some (coalesce (ut_completed_at u) now), ut_updated_at := Some now\<rparr> else u)
        \<lparr>ut_last_error := None\<rparr>
      else (if target_stale s u then u\<lparr>ut_status := ''COMPLETED'',
        ut_completed_at := Some (coalesce (ut_completed_at u) now), ut_updated_at := Some now\<rparr> else u))"
    unfolding sync_targets [OF s] by auto
  show "\<not> error_stale t" unfolding tu by (simp add: error_stale_def)
  show "\<not> target_stale ?s' t"
  proof (cases "target_stale s u")
    case True
    then have "ut_status t = ''COMPLETED''" unfolding tu by simp
    then show ?thesis by (simp add: target_stale_def)
  next
    case False
    then have "target_stale ?s' t \<longleftrightarrow> target_stale s u"
      unfolding tu by (intro target_stale_cong) (simp_all add: sync_keeps_tables)
    with False show ?thesis by simp
  qed
qed

text \<open>
  C32: reconciliation of upload targets. After it, every target whose shard is stored is completed
  (except one given up for good) and no completed target carries an error; all rows stay, in
  order, with the same job and provider, a target that is already up to date is left as it is, and a second run finds
  nothing to do.
\<close>

theorem sync_upload_targets_converges:
  assumes s: "schema_ok s"
  shows "list_all (\<lambda>t. \<not> target_stale (snd (sync_upload_targets_from_shards s now)) t \<and> \<not> error_stale t)
      (upload_job_targets (snd (sync_upload_targets_from_shards s now))) \<and>
    map target_key (upload_job_targets (snd (sync_upload_targets_from_shards s now))) =
      map target_key (upload_job_targets s) \<and>
    (\<forall>t \<in> set (upload_job_targets s). \<not> target_stale s t \<longrightarrow> \<not> error_stale t \<longrightarrow>
      t \<in> set (upload_job_targets (snd (sync_upload_targets_from_shards s now)))) \<and>
    sync_upload_targets_from_shards (snd (sync_upload_targets_from_shards s now)) now' =
      (\<lparr>synced_targets = 0, cleared_errors = 0\<rparr>, snd (sync_upload_targets_from_shards s now)) \<and>
    schema_ok (snd (sync_upload_targets_from_shards s now))"
proof -
  let ?s' = "snd (sync_upload_targets_from_shards s now)"
  note clean = sync_leaves_nothing_stale [OF s, of _ now]
  have "filter (target_stale ?s') (upload_job_targets ?s') = []"
    using clean(1) by (simp add: filter_empty_conv)
  moreover have "update_where error_stale h (upload_job_targets ?s') = upload_job_targets ?s'" for h
    using clean(2) by (rule update_where_none)
  moreover have "rows_affected error_stale (upload_job_targets ?s') = 0"
    using clean(2) by (simp add: rows_affected_0)
  ultimately have "sync_upload_targets_from_shards ?s' now' =
      (\<lparr>synced_targets = 0, cleared_errors = 0\<rparr>, ?s')"
    by (simp add: sync_upload_targets_from_shards_def [of ?s'] update_where_none rows_affected_def)
  moreover have "map target_key (upload_job_targets ?s') = map target_key (upload_job_targets s)"
    unfolding sync_targets [OF s] by (simp add: target_key_def)
  moreover have "t \<in> set (upload_job_targets ?s')"
    if "t \<in> set (upload_job_targets s)" "\<not> target_stale s t" "\<not> error_stale t" for t
    unfolding sync_targets [OF s] set_map using that by (intro image_eqI [of _ _ t]) simp_all
  ultimately show ?thesis
    using clean schema_ok_sync_upload_targets [OF s] by (simp add: list_all_iff)
qed

theorem sync_upload_targets_converges_witness:
  "sync_upload_targets_from_shards (snd (sync_upload_targets_from_shards queue_db 5)) 6 =
     (\<lparr>synced_targets = 0, cleared_errors = 0\<rparr>, snd (sync_upload_targets_from_shards queue_db 5))"
  using sync_upload_targets_converges [OF queue_db_ok, of 5 6] by blast

section \<open>Orphan packs\<close>

lemma fst_gc_delete_jobs:
  "fst (gc_delete_jobs ids s rep) =
     s\<lparr>upload_jobs := filter (\<lambda>j. uj_id j \<notin> set ids) (upload_jobs s),
       upload_job_targets := filter (\<lambda>t. ut_job_id t \<notin> set ids) (upload_job_targets s)\<rparr>"
proof (induction ids arbitrary: s rep)
  case (Cons i ids)
  have step: "delete_upload_jobs (\<lambda>j. uj_id j = i)
      (s\<lparr>upload_job_targets := delete_where (\<lambda>t. ut_job_id t = i) (upload_job_targets s)\<rparr>) =
    s\<lparr>upload_jobs := filter (\<lambda>j. uj_id j \<noteq> i) (upload_jobs s),
      upload_job_targets := filter (\<lambda>t. ut_job_id t \<noteq> i) (upload_job_targets s)\<rparr>"
  proof -
    have "filter (\<lambda>t. ut_job_id t \<noteq> i \<and> ut_job_id t \<notin> uj_id ` {j \<in> set (upload_jobs s). uj_id j = i})
        (upload_job_targets s) = filter (\<lambda>t. ut_job_id t \<noteq> i) (upload_job_targets s)"
      by (rule filter_cong) auto
    then show ?thesis by (simp add: delete_upload_jobs_def delete_where_def Let_def)
  qed
  show ?case
    by (simp add: Let_def step Cons.IH conj_commute cong: filter_cong)
qed simp

lemma fst_gc_delete_pack:
  assumes "schema_ok s"
  shows "fst (gc_delete_pack p (s, rep)) = delete_pack_metadata s p"
proof -
  let ?ids = "map uj_id (filter (\<lambda>j. uj_pack_id j = p) (upload_jobs s))"
  have "uj_id j \<in> set ?ids \<longleftrightarrow> uj_pack_id j = p" if "j \<in> set (upload_jobs s)" for j
    using that assms distinct_map_key [of uj_id "upload_jobs s"] by (auto simp: schema_ok_def)
  then have "fst (gc_delete_jobs ?ids s rep) = delete_upload_jobs (\<lambda>j. uj_pack_id j = p) s"
    by (simp add: fst_gc_delete_jobs delete_upload_jobs_def delete_where_def cong: filter_cong)
  then show ?thesis
    by (simp add: gc_delete_pack_def delete_pack_metadata_def case_prod_beta Let_def)
qed

lemma snd_gc_delete_jobs_reports:
  "orphan_pack_ids (snd (gc_delete_jobs ids s rep)) = orphan_pack_ids rep"
  "deleted_packs (snd (gc_delete_jobs ids s rep)) = deleted_packs rep"
  by (induction ids arbitrary: s rep) (simp_all add: Let_def)

lemma snd_gc_delete_pack_reports:
  assumes "schema_ok s" and "p \<in> set (map pk_pack_id (packs s))"
  shows "orphan_pack_ids (snd (gc_delete_pack p (s, rep))) = orphan_pack_ids rep"
    and "deleted_packs (snd (gc_delete_pack p (s, rep))) = u64_saturating_add (deleted_packs rep) 1"
proof -
  from assms obtain r where r: "r \<in> set (packs s)" "p = pk_pack_id r" by auto
  have "filter (\<lambda>x. pk_pack_id x = p) (packs s) = [r]"
    using assms r filter_key_singleton [of pk_pack_id "packs s" r] by (simp add: schema_ok_def)
  then show "deleted_packs (snd (gc_delete_pack p (s, rep))) = u64_saturating_add (deleted_packs rep) 1"
    by (simp add: gc_delete_pack_def case_prod_beta Let_def snd_gc_delete_jobs_reports
        fst_gc_delete_jobs delete_pack_locations_def rows_affected_def)
  show "orphan_pack_ids (snd (gc_delete_pack p (s, rep))) = orphan_pack_ids rep"
    by (simp add: gc_delete_pack_def case_prod_beta Let_def snd_gc_delete_jobs_reports)
qed

text \<open>The loop over the orphans, table by table.\<close>

lemma gc_fold_tables:
  "schema_ok s \<Longrightarrow> schema_ok (fst (fold gc_delete_pack ps (s, rep))) \<and>
     packs (fst (fold gc_delete_pack ps (s, rep))) = filter (\<lambda>r. pk_pack_id r \<notin> set ps) (packs s) \<and>
     pack_shards (fst (fold gc_delete_pack ps (s, rep))) =
       filter (\<lambda>r. sh_pack_id r \<notin> set ps) (pack_shards s) \<and>
     pack_locations (fst (fold gc_delete_pack ps (s, rep))) =
       filter (\<lambda>r. pl_pack_id r \<notin> set ps) (pack_locations s) \<and>
     upload_jobs (fst (fold gc_delete_pack ps (s, rep))) =
       filter (\<lambda>r. uj_pack_id r \<notin> set ps) (upload_jobs s) \<and>
     chunk_refs (fst (fold gc_delete_pack ps (s, rep))) = chunk_refs s \<and>
     file_revisions (fst (fold gc_delete_pack ps (s, rep))) = file_revisions s"
proof (induction ps arbitrary: s rep)
  case (Cons p ps)
  obtain rep' where step: "gc_delete_pack p (s, rep) = (delete_pack_metadata s p, rep')"
    using fst_gc_delete_pack [OF Cons.prems, of p rep] by (metis fst_conv surj_pair)
  show ?case
    using Cons.IH [OF schema_ok_delete_pack_metadata [OF Cons.prems, of p], of rep']
    by (simp add: step delete_pack_metadata_tables delete_pack_metadata_shards [OF Cons.prems]
        conj_commute cong: filter_cong)
qed simp

lemma gc_fold_reports:
  assumes "schema_ok s" and "distinct ps" and "set ps \<subseteq> set (map pk_pack_id (packs s))"
    and "deleted_packs rep + length ps < 2 ^ 64"
  shows "orphan_pack_ids (snd (fold gc_delete_pack ps (s, rep))) = orphan_pack_ids rep \<and>
    deleted_packs (snd (fold gc_delete_pack ps (s, rep))) = deleted_packs rep + length ps"
  using assms
proof (induction ps arbitrary: s rep)
  case (Cons p ps)
  obtain rep' where step: "gc_delete_pack p (s, rep) = (delete_pack_metadata s p, rep')"
    using fst_gc_delete_pack [OF Cons.prems(1), of p rep] by (metis fst_conv surj_pair)
  have p: "p \<in> set (map pk_pack_id (packs s))" using Cons.prems(3) by simp
  note rep = snd_gc_delete_pack_reports [OF Cons.prems(1) p, of rep, unfolded step snd_conv]
  have n: "deleted_packs rep' = deleted_packs rep + 1"
    using rep(2) Cons.prems(4) by (simp add: u64_saturating_add_def)
  have "set ps \<subseteq> set (map pk_pack_id (packs (delete_pack_metadata s p)))"
    using Cons.prems(2,3) by (fastforce simp: delete_pack_metadata_tables)
  then show ?case
    using Cons.IH [of "delete_pack_metadata s p" rep'] Cons.prems n rep(1) step
    by (simp add: schema_ok_delete_pack_metadata del: set_map)
qed simp

lemma pack_referenced_iff:
  "pack_referenced s p \<longleftrightarrow> (\<exists>l \<in> set (pack_locations s). pl_pack_id l = p \<and>
     (\<exists>c \<in> set (chunk_refs s). cref_chunk_id c = pl_chunk_id l))"
  by (auto simp: pack_referenced_def list_ex_iff)

lemma gc_orphan_packs_eq:
  assumes "gc_orphan_packs s = (rep, s')"
  defines "orphans \<equiv> filter (\<lambda>p. \<not> pack_referenced s p) (map pk_pack_id (packs s))"
  shows "\<exists>r0. orphan_pack_ids r0 = orphans \<and> deleted_packs r0 = 0 \<and>
    fold gc_delete_pack orphans (s, r0) = (s', rep)"
proof -
  let ?r0 = "\<lparr>orphan_pack_ids = orphans, deleted_packs = 0, deleted_pack_shards = 0,
    deleted_pack_locations = 0, deleted_upload_jobs = 0, deleted_upload_job_targets = 0\<rparr>"
  have "fold gc_delete_pack orphans (s, ?r0) = (s', rep)"
    using assms(1) unfolding gc_orphan_packs_def orphans_def [symmetric] Let_def
    by (cases "orphans = []") (simp_all split: prod.splits)
  then show ?thesis by (intro exI [of _ ?r0]) simp
qed

text \<open>
  C9: removal of orphan packs. Exactly the packs that no file revision refers to are removed, with
  their shards, locations and jobs, and the report names and counts them; every referenced pack keeps
  its rows, so every chunk some revision uses is still found where it was; the schema holds
  afterwards, and a second run finds nothing to remove.
\<close>

theorem gc_orphan_packs_exact:
  assumes s: "schema_ok s" and few: "length (packs s) < 2 ^ 64"
    and r: "gc_orphan_packs s = (rep, s')"
  shows "schema_ok s' \<and>
    orphan_pack_ids rep = filter (\<lambda>p. \<not> pack_referenced s p) (map pk_pack_id (packs s)) \<and>
    deleted_packs rep = length (orphan_pack_ids rep) \<and>
    packs s' = filter (\<lambda>r. pack_referenced s (pk_pack_id r)) (packs s) \<and>
    pack_shards s' = filter (\<lambda>r. pack_referenced s (sh_pack_id r)) (pack_shards s) \<and>
    chunk_refs s' = chunk_refs s \<and> file_revisions s' = file_revisions s \<and>
    (\<forall>c \<in> set (chunk_refs s). filter (\<lambda>l. pl_chunk_id l = cref_chunk_id c) (pack_locations s') =
       filter (\<lambda>l. pl_chunk_id l = cref_chunk_id c) (pack_locations s)) \<and>
    orphan_pack_ids (fst (gc_orphan_packs s')) = []"
proof -
  define orphans where "orphans = filter (\<lambda>p. \<not> pack_referenced s p) (map pk_pack_id (packs s))"
  from gc_orphan_packs_eq [OF r] obtain r0 where r0: "orphan_pack_ids r0 = orphans"
    "deleted_packs r0 = 0" "fold gc_delete_pack orphans (s, r0) = (s', rep)"
    unfolding orphans_def by blast
  note tabs = gc_fold_tables [OF s, of orphans r0, unfolded r0(3) fst_conv]
  have orphan: "p \<in> set orphans \<longleftrightarrow> \<not> pack_referenced s p" if "p \<in> pk_pack_id ` set (packs s)" for p
    using that by (simp add: orphans_def)
  have "distinct (map pk_pack_id (packs s))" using s by (simp add: schema_ok_def)
  then have "distinct orphans" unfolding orphans_def by (rule distinct_filter)
  moreover have "set orphans \<subseteq> set (map pk_pack_id (packs s))" by (auto simp: orphans_def)
  moreover have "length orphans < 2 ^ 64"
    using few length_filter_le [of _ "map pk_pack_id (packs s)"] unfolding orphans_def
    by (metis length_map order_le_less_trans)
  ultimately have rep: "orphan_pack_ids rep = orphans" "deleted_packs rep = length orphans"
    using gc_fold_reports [OF s, of orphans r0] r0 by simp_all
  have packs: "packs s' = filter (\<lambda>r. pack_referenced s (pk_pack_id r)) (packs s)"
    using tabs orphan by (simp cong: filter_cong)
  have shards: "pack_shards s' = filter (\<lambda>r. pack_referenced s (sh_pack_id r)) (pack_shards s)"
    using tabs orphan s by (simp add: schema_ok_def list_all_iff cong: filter_cong)
  have locs: "filter (\<lambda>l. pl_chunk_id l = cref_chunk_id c) (pack_locations s') =
      filter (\<lambda>l. pl_chunk_id l = cref_chunk_id c) (pack_locations s)"
    if "c \<in> set (chunk_refs s)" for c
  proof -
    have "pl_pack_id l \<notin> set orphans"
      if "l \<in> set (pack_locations s)" "pl_chunk_id l = cref_chunk_id c" for l
    proof -
      have "pack_referenced s (pl_pack_id l)"
        unfolding pack_referenced_iff using that \<open>c \<in> set (chunk_refs s)\<close> by metis
      then show ?thesis by (simp add: orphans_def)
    qed
    then have "l \<in> set (pack_locations s) \<Longrightarrow>
        (pl_pack_id l \<notin> set orphans \<and> pl_chunk_id l = cref_chunk_id c) \<longleftrightarrow>
        pl_chunk_id l = cref_chunk_id c" for l
      by blast
    with tabs show ?thesis by (simp add: conj_commute cong: filter_cong)
  qed
  have "pack_referenced s' p" if "pack_referenced s p" for p
    using that tabs unfolding pack_referenced_iff orphans_def by auto
  then have "orphan_pack_ids (fst (gc_orphan_packs s')) = []"
    by (auto simp: gc_orphan_packs_def Let_def packs filter_empty_conv)
  with tabs rep packs shards locs show ?thesis by (simp add: orphans_def)
qed

theorem gc_orphan_packs_exact_witness:
  "packs (snd (gc_orphan_packs queue_db)) = [] \<and> schema_ok (snd (gc_orphan_packs queue_db))"
proof -
  have "packs queue_db = [sample_pack]" and "pack_locations queue_db = []"
    by (simp_all add: queue_db_def queue_pack_for_upload_def sample_db_def empty_db_def)
  then show ?thesis
    using gc_orphan_packs_exact [OF queue_db_ok, of "fst (gc_orphan_packs queue_db)"
        "snd (gc_orphan_packs queue_db)"]
    by (simp add: pack_referenced_def)
qed

end
