(* ===== verification/ChunkIndex.thy ===== *)
theory ChunkIndex
  imports UploadQueue
begin

text \<open>
  \<^verbatim>\<open>db/chunks.rs\<close> and \<^verbatim>\<open>db/revisions.rs\<close>: which chunks a revision of a file is made of, where
  each chunk lies in a pack, which revision of a file is current, and how two revisions of a file
  are related by descent. The recursive query of the lineage walks from child to parent and may
  not end on a cyclic table, so it is a \<open>partial_function\<close>; that it ends, and what it answers, is
  proved for tables in which a parent is older than its child, as \<open>create_file_revision\<close> makes them.
\<close>

section \<open>Chunk references\<close>

definition revision_ids :: "db \<Rightarrow> int list" where
  "revision_ids s = map fr_revision_id (file_revisions s)"

definition register_chunk :: "db \<Rightarrow> int \<Rightarrow> bytes \<Rightarrow> int \<Rightarrow> int \<Rightarrow> sqlx_error + int \<times> db" where
  "register_chunk s revision_id chunk_id offset chunk_len =
     (if revision_id \<notin> set (revision_ids s) then Inl ForeignKeyViolation
      else Inr (chunk_refs_seq s + 1,
        s\<lparr>chunk_refs := chunk_refs s @ [\<lparr>cref_id = chunk_refs_seq s + 1,
             cref_revision_id = revision_id, cref_chunk_id = chunk_id, cref_file_offset = offset,
             cref_size = chunk_len\<rparr>],
          chunk_refs_seq := chunk_refs_seq s + 1\<rparr>))"

definition get_chunk_refs_for_revision :: "db \<Rightarrow> int \<Rightarrow> ChunkRefRecord list" where
  "get_chunk_refs_for_revision s revision_id =
     sort_key cref_file_offset (filter (\<lambda>c. cref_revision_id c = revision_id) (chunk_refs s))"

fun insert_chunk_refs :: "int \<Rightarrow> ChunkRefRecord list \<Rightarrow> db \<Rightarrow> db" where
  "insert_chunk_refs revision_id [] s = s"
| "insert_chunk_refs revision_id (c # cs) s =
     insert_chunk_refs revision_id cs
       (s\<lparr>chunk_refs := chunk_refs s @ [c\<lparr>cref_id := chunk_refs_seq s + 1,
            cref_revision_id := revision_id\<rparr>],
          chunk_refs_seq := chunk_refs_seq s + 1\<rparr>)"

definition copy_chunk_refs :: "db \<Rightarrow> int \<Rightarrow> int \<Rightarrow> sqlx_error + db" where
  "copy_chunk_refs s from_revision_id to_revision_id =
     (let rows = get_chunk_refs_for_revision s from_revision_id
      in if rows \<noteq> [] \<and> to_revision_id \<notin> set (revision_ids s) then Inl ForeignKeyViolation
         else Inr (insert_chunk_refs to_revision_id rows s))"

definition link_chunk_to_pack :: "db \<Rightarrow> bytes \<Rightarrow> string \<Rightarrow> int \<Rightarrow> int \<Rightarrow> db" where
  "link_chunk_to_pack s chunk_id pack_id pack_offset enc_size =
     (if chunk_id \<in> set (map pl_chunk_id (pack_locations s)) then
        s\<lparr>pack_locations := update_where (\<lambda>l. pl_chunk_id l = chunk_id)
            (\<lambda>l. l\<lparr>pl_pack_id := pack_id, pl_pack_offset := pack_offset, pl_encrypted_size := enc_size\<rparr>)
            (pack_locations s)\<rparr>
      else
        s\<lparr>pack_locations := pack_locations s @ [\<lparr>pl_chunk_id = chunk_id, pl_pack_id = pack_id,
            pl_pack_offset = pack_offset, pl_encrypted_size = enc_size\<rparr>]\<rparr>)"

text \<open>
  Deleting revisions: their chunk references go with the cascade, and a child of a deleted revision
  loses its parent (\<open>ON DELETE SET NULL\<close>).
\<close>

definition delete_revisions :: "(FileRevisionRecord \<Rightarrow> bool) \<Rightarrow> db \<Rightarrow> db" where
  "delete_revisions P s =
     (let gone = map fr_revision_id (filter P (file_revisions s))
      in s\<lparr>file_revisions := update_where
             (\<lambda>r. case fr_parent_revision_id r of None \<Rightarrow> False | Some p \<Rightarrow> p \<in> set gone)
             (\<lambda>r. r\<lparr>fr_parent_revision_id := None\<rparr>) (delete_where P (file_revisions s)),
           chunk_refs := delete_where (\<lambda>c. cref_revision_id c \<in> set gone) (chunk_refs s)\<rparr>)"

definition delete_file_chunks :: "db \<Rightarrow> int \<Rightarrow> db" where
  "delete_file_chunks s inode_id =
     (let revs = map fr_revision_id (filter (\<lambda>r. fr_inode_id r = inode_id) (file_revisions s));
          s1 = s\<lparr>chunk_refs := delete_where (\<lambda>c. cref_revision_id c \<in> set revs) (chunk_refs s)\<rparr>
      in delete_revisions (\<lambda>r. fr_inode_id r = inode_id) s1)"

section \<open>Chunk locations\<close>

record FileChunkLocation =
  fcl_chunk_id :: bytes
  fcl_chunk_index :: int
  fcl_file_offset :: int
  fcl_size :: int
  fcl_pack_id :: string
  fcl_pack_offset :: int
  fcl_encrypted_size :: int

text \<open>
  \<open>ROW_NUMBER() OVER (ORDER BY file_offset) - 1\<close>, and the join with the locations of the chunks.
\<close>

definition ordered_chunks :: "ChunkRefRecord list \<Rightarrow> (nat \<times> ChunkRefRecord) list" where
  "ordered_chunks rows = List.enumerate 0 (sort_key cref_file_offset rows)"

definition join_location :: "db \<Rightarrow> nat \<times> ChunkRefRecord \<Rightarrow> FileChunkLocation list" where
  "join_location s ic =
     (let (i, c) = ic
      in map (\<lambda>l. \<lparr>fcl_chunk_id = cref_chunk_id c, fcl_chunk_index = int i,
                   fcl_file_offset = cref_file_offset c, fcl_size = cref_size c,
                   fcl_pack_id = pl_pack_id l, fcl_pack_offset = pl_pack_offset l,
                   fcl_encrypted_size = pl_encrypted_size l\<rparr>)
           (filter (\<lambda>l. pl_chunk_id l = cref_chunk_id c) (pack_locations s)))"

definition chunk_locations :: "db \<Rightarrow> ChunkRefRecord list \<Rightarrow> FileChunkLocation list" where
  "chunk_locations s rows =
     sort_key fcl_file_offset (concat (map (join_location s) (ordered_chunks rows)))"

definition refs_of_revisions :: "db \<Rightarrow> (FileRevisionRecord \<Rightarrow> bool) \<Rightarrow> ChunkRefRecord list" where
  "refs_of_revisions s P =
     filter (\<lambda>c. list_ex (\<lambda>r. fr_revision_id r = cref_revision_id c \<and> P r) (file_revisions s)) (chunk_refs s)"

definition get_file_chunk_locations :: "db \<Rightarrow> int \<Rightarrow> FileChunkLocation list" where
  "get_file_chunk_locations s inode_id =
     chunk_locations s (refs_of_revisions s (\<lambda>r. fr_inode_id r = inode_id \<and> fr_is_current r = 1))"

definition get_revision_chunk_locations_in_range ::
  "db \<Rightarrow> int \<Rightarrow> int \<Rightarrow> int \<Rightarrow> int \<Rightarrow> FileChunkLocation list" where
  "get_revision_chunk_locations_in_range s inode_id revision_id start_offset end_offset =
     filter (\<lambda>l. start_offset < fcl_file_offset l + fcl_size l \<and> fcl_file_offset l < end_offset)
       (chunk_locations s
         (refs_of_revisions s (\<lambda>r. fr_inode_id r = inode_id \<and> fr_revision_id r = revision_id)))"

definition get_chunk_locations_for_revision :: "db \<Rightarrow> int \<Rightarrow> FileChunkLocation list" where
  "get_chunk_locations_for_revision s revision_id =
     chunk_locations s (filter (\<lambda>c. cref_revision_id c = revision_id) (chunk_refs s))"

definition get_file_chunks :: "db \<Rightarrow> int \<Rightarrow> ChunkRefRecord list" where
  "get_file_chunks s inode_id = sort_key cref_file_offset
     (refs_of_revisions s (\<lambda>r. fr_inode_id r = inode_id \<and> fr_is_current r = 1))"

definition get_chunks_for_pack :: "db \<Rightarrow> string \<Rightarrow> ChunkRefRecord list" where
  "get_chunks_for_pack s pack_id = sort_key (\<lambda>c. (cref_file_offset c, cref_id c))
     (concat (map (\<lambda>l. filter (\<lambda>c. cref_chunk_id c = pl_chunk_id l) (chunk_refs s))
       (filter (\<lambda>l. pl_pack_id l = pack_id) (pack_locations s))))"

text \<open>
  The lookup of one chunk. The window of the query is taken after its \<open>WHERE cr.chunk_id = ?\<close>, so
  the number of a row counts the earlier uses of this chunk in its revision. The rows come in the
  order of the inner \<open>ORDER BY\<close>, and the first one is taken.
\<close>

record ChunkLookupRecord =
  cl_inode_id :: int
  cl_revision_id :: int
  cl_location :: FileChunkLocation

definition chunk_lookup_rows :: "db \<Rightarrow> bytes \<Rightarrow> (FileRevisionRecord \<times> nat \<times> ChunkRefRecord) list" where
  "chunk_lookup_rows s chunk_id =
     sort_key (\<lambda>(r, _, _). (- fr_is_current r, - fr_created_at r, - fr_revision_id r))
       (concat (map (\<lambda>r. map (Pair r) (ordered_chunks (filter (\<lambda>c. cref_chunk_id c = chunk_id \<and>
            cref_revision_id c = fr_revision_id r) (chunk_refs s)))) (file_revisions s)))"

definition chunk_lookup_results :: "db \<Rightarrow> bytes \<Rightarrow> ChunkLookupRecord list" where
  "chunk_lookup_results s chunk_id =
     concat (map (\<lambda>(r, ic). map (\<lambda>l. \<lparr>cl_inode_id = fr_inode_id r, cl_revision_id = fr_revision_id r,
       cl_location = l\<rparr>) (join_location s ic)) (chunk_lookup_rows s chunk_id))"

definition get_chunk_lookup_by_chunk_id :: "db \<Rightarrow> bytes \<Rightarrow> ChunkLookupRecord option" where
  "get_chunk_lookup_by_chunk_id s chunk_id =
     fetch_optional (sql_limit 1 (chunk_lookup_results s chunk_id))"

section \<open>Revisions\<close>

definition create_file_revision ::
  "db \<Rightarrow> int \<Rightarrow> int \<Rightarrow> int \<Rightarrow> int option \<Rightarrow> string option \<Rightarrow> int option \<Rightarrow> string \<Rightarrow> string option
     \<Rightarrow> sqlx_error + int \<times> db" where
  "create_file_revision s now inode_id fsize immutable_until device_id parent_revision_id origin
     conflict_reason =
     (let new_id = file_revisions_seq s + 1;
          cleared = update_where (\<lambda>r. fr_inode_id r = inode_id) (\<lambda>r. r\<lparr>fr_is_current := 0\<rparr>)
            (file_revisions s)
      in if inode_id \<notin> set (map in_id (inodes s)) \<or>
            \<not> refers_to (new_id # revision_ids s) parent_revision_id then Inl ForeignKeyViolation
         else Inr (new_id, s\<lparr>file_revisions := cleared @ [\<lparr>fr_revision_id = new_id,
             fr_inode_id = inode_id, fr_created_at = now, fr_size = fsize, fr_is_current = 1,
             fr_immutable_until = immutable_until, fr_device_id = device_id,
             fr_parent_revision_id = parent_revision_id, fr_origin = origin,
             fr_conflict_reason = conflict_reason\<rparr>],
           file_revisions_seq := new_id\<rparr>))"

definition get_current_file_revision :: "db \<Rightarrow> int \<Rightarrow> FileRevisionRecord option" where
  "get_current_file_revision s inode_id =
     fetch_optional (sql_limit 1 (sort_key (\<lambda>r. - fr_revision_id r)
       (filter (\<lambda>r. fr_inode_id r = inode_id \<and> fr_is_current r = 1) (file_revisions s))))"

definition get_file_revision :: "db \<Rightarrow> int \<Rightarrow> int \<Rightarrow> FileRevisionRecord option" where
  "get_file_revision s inode_id revision_id =
     fetch_optional (sql_limit 1 (filter (\<lambda>r. fr_inode_id r = inode_id \<and>
       fr_revision_id r = revision_id) (file_revisions s)))"

definition list_file_revisions :: "db \<Rightarrow> int \<Rightarrow> FileRevisionRecord list" where
  "list_file_revisions s inode_id =
     sort_key (\<lambda>r. (- fr_created_at r, - fr_revision_id r))
       (filter (\<lambda>r. fr_inode_id r = inode_id) (file_revisions s))"

definition get_referencing_inode_ids_for_pack :: "db \<Rightarrow> string \<Rightarrow> int list" where
  "get_referencing_inode_ids_for_pack s pack_id =
     sort (remdups (map fr_inode_id (filter (\<lambda>r.
       list_ex (\<lambda>c. cref_revision_id c = fr_revision_id r \<and>
         list_ex (\<lambda>l. pl_chunk_id l = cref_chunk_id c \<and> pl_pack_id l = pack_id) (pack_locations s))
       (chunk_refs s)) (file_revisions s))))"

definition promote_revision_to_current :: "db \<Rightarrow> int \<Rightarrow> sqlx_error + db" where
  "promote_revision_to_current s revision_id =
     (case fetch_optional (filter (\<lambda>r. fr_revision_id r = revision_id) (file_revisions s)) of
        None \<Rightarrow> Inl RowNotFound
      | Some row \<Rightarrow> Inr (s\<lparr>file_revisions :=
          update_where (\<lambda>r. fr_revision_id r = revision_id) (\<lambda>r. r\<lparr>fr_is_current := 1\<rparr>)
            (update_where (\<lambda>r. fr_inode_id r = fr_inode_id row) (\<lambda>r. r\<lparr>fr_is_current := 0\<rparr>)
              (file_revisions s))\<rparr>))"

section \<open>Lineage\<close>

datatype RevisionLineageRelation =
  Same | CandidateDescendsFromCurrent | CurrentDescendsFromCandidate | Parallel

text \<open>The rows of the recursive query, from the descendant to its oldest ancestor.\<close>

definition revision_row :: "db \<Rightarrow> int \<Rightarrow> FileRevisionRecord option" where
  "revision_row s revision_id =
     fetch_optional (filter (\<lambda>r. fr_revision_id r = revision_id) (file_revisions s))"

partial_function (option) is_revision_ancestor :: "db \<Rightarrow> int \<Rightarrow> int \<Rightarrow> bool option" where
  "is_revision_ancestor s ancestor_id revision_id =
     (case revision_row s revision_id of
        None \<Rightarrow> Some False
      | Some r \<Rightarrow>
          if fr_revision_id r = ancestor_id then Some True
          else (case fr_parent_revision_id r of
                  None \<Rightarrow> Some False
                | Some p \<Rightarrow> is_revision_ancestor s ancestor_id p))"

definition classify_revision_lineage :: "db \<Rightarrow> int \<Rightarrow> int \<Rightarrow> RevisionLineageRelation option" where
  "classify_revision_lineage s candidate_id current_id =
     (if candidate_id = current_id then Some Same
      else (case is_revision_ancestor s current_id candidate_id of
              None \<Rightarrow> None
            | Some True \<Rightarrow> Some CandidateDescendsFromCurrent
            | Some False \<Rightarrow>
                (case is_revision_ancestor s candidate_id current_id of
                   None \<Rightarrow> None
                 | Some True \<Rightarrow> Some CurrentDescendsFromCandidate
                 | Some False \<Rightarrow> Some Parallel)))"

section \<open>Statements keep the schema\<close>

lemma refers_to_mono: "refers_to ids x \<Longrightarrow> set ids \<subseteq> set ids' \<Longrightarrow> refers_to ids' x"
  by (auto simp: refers_to_def split: option.splits)

lemma list_all_refers_to_mono:
  "list_all (\<lambda>r. refers_to ids (g r)) t \<Longrightarrow> set ids \<subseteq> set ids' \<Longrightarrow> list_all (\<lambda>r. refers_to ids' (g r)) t"
  by (induction t) (auto elim: refers_to_mono)

lemma schema_ok_update_revisions:
  assumes s: "schema_ok s" and f: "\<And>r. fr_revision_id (f r) = fr_revision_id r"
    "\<And>r. fr_inode_id (f r) = fr_inode_id r" "\<And>r. fr_parent_revision_id (f r) = fr_parent_revision_id r"
  shows "schema_ok (s\<lparr>file_revisions := update_where P f (file_revisions s)\<rparr>)"
proof -
  have "map fr_revision_id (update_where P f (file_revisions s)) = map fr_revision_id (file_revisions s)"
    by (rule update_where_key) (simp add: f)
  with s show ?thesis
    by (simp add: schema_ok_def inodes_ok_def list_all_update_where f del: set_map)
qed

lemma schema_ok_register_chunk:
  assumes s: "schema_ok s" and r: "register_chunk s rv cid off n = Inr (i, s')"
  shows "schema_ok s'"
proof -
  have "list_all (\<lambda>r. cref_id r \<le> chunk_refs_seq s) (chunk_refs s)"
    using s by (simp add: schema_ok_def)
  then have "chunk_refs_seq s + 1 \<notin> set (map cref_id (chunk_refs s))"
    and "list_all (\<lambda>r. cref_id r \<le> chunk_refs_seq s + 1) (chunk_refs s)"
    by (auto simp: list_all_iff)
  with r s show ?thesis
    by (auto simp: register_chunk_def schema_ok_def revision_ids_def split: if_splits)
qed

lemma schema_ok_insert_chunk_refs:
  "schema_ok s \<Longrightarrow> rv \<in> set (revision_ids s) \<Longrightarrow> schema_ok (insert_chunk_refs rv cs s)"
proof (induction cs arbitrary: s)
  case (Cons c cs)
  let ?s1 = "s\<lparr>chunk_refs := chunk_refs s @ [c\<lparr>cref_id := chunk_refs_seq s + 1,
      cref_revision_id := rv\<rparr>], chunk_refs_seq := chunk_refs_seq s + 1\<rparr>"
  have "list_all (\<lambda>r. cref_id r \<le> chunk_refs_seq s) (chunk_refs s)"
    using Cons.prems by (simp add: schema_ok_def)
  then have "chunk_refs_seq s + 1 \<notin> set (map cref_id (chunk_refs s))"
    and "list_all (\<lambda>r. cref_id r \<le> chunk_refs_seq s + 1) (chunk_refs s)"
    by (auto simp: list_all_iff)
  with Cons.prems have "schema_ok ?s1" by (auto simp: schema_ok_def revision_ids_def)
  moreover have "rv \<in> set (revision_ids ?s1)" using Cons.prems by (simp add: revision_ids_def)
  ultimately show ?case using Cons.IH by simp
qed simp

lemma schema_ok_copy_chunk_refs:
  "schema_ok s \<Longrightarrow> copy_chunk_refs s a b = Inr s' \<Longrightarrow> schema_ok s'"
  by (auto simp: copy_chunk_refs_def Let_def schema_ok_insert_chunk_refs split: if_splits)

lemma schema_ok_link_chunk_to_pack:
  assumes "schema_ok s"
  shows "schema_ok (link_chunk_to_pack s cid p off n)"
proof -
  have "map pl_chunk_id (update_where (\<lambda>l. pl_chunk_id l = cid)
      (\<lambda>l. l\<lparr>pl_pack_id := p, pl_pack_offset := off, pl_encrypted_size := n\<rparr>) (pack_locations s)) =
    map pl_chunk_id (pack_locations s)"
    by (rule update_where_key) simp
  with assms show ?thesis by (auto simp: link_chunk_to_pack_def schema_ok_def)
qed

lemma schema_ok_create_file_revision:
  assumes s: "schema_ok s" and r: "create_file_revision s now i n im dev par org c = Inr (new, s')"
  shows "schema_ok s'"
proof -
  let ?s1 = "s\<lparr>file_revisions := update_where (\<lambda>r. fr_inode_id r = i) (\<lambda>r. r\<lparr>fr_is_current := 0\<rparr>)
      (file_revisions s)\<rparr>"
  have s1: "schema_ok ?s1" by (rule schema_ok_update_revisions [OF s]) simp_all
  have ids: "map fr_revision_id (file_revisions ?s1) = revision_ids s"
    by (simp add: revision_ids_def update_where_key)
  have new: "new = file_revisions_seq s + 1" and ok: "i \<in> set (map in_id (inodes s))"
    "refers_to (new # revision_ids s) par"
    and s': "s' = ?s1\<lparr>file_revisions := file_revisions ?s1 @ [\<lparr>fr_revision_id = new, fr_inode_id = i,
      fr_created_at = now, fr_size = n, fr_is_current = 1, fr_immutable_until = im, fr_device_id = dev,
      fr_parent_revision_id = par, fr_origin = org, fr_conflict_reason = c\<rparr>], file_revisions_seq := new\<rparr>"
    using r by (auto simp: create_file_revision_def Let_def split: if_splits)
  have "list_all (\<lambda>r. fr_revision_id r \<le> file_revisions_seq s) (file_revisions ?s1)"
    using s1 by (simp add: schema_ok_def)
  then have fresh: "new \<notin> set (map fr_revision_id (file_revisions ?s1))"
    and le: "list_all (\<lambda>r. fr_revision_id r \<le> new) (file_revisions ?s1)"
    by (auto simp: list_all_iff new)
  have "list_all (\<lambda>r. refers_to (map fr_revision_id (file_revisions ?s1)) (fr_parent_revision_id r))
      (file_revisions ?s1)" using s1 by (simp add: schema_ok_def inodes_ok_def)
  then have par: "list_all (\<lambda>r. refers_to (revision_ids s @ [new]) (fr_parent_revision_id r)) (file_revisions ?s1)"
    unfolding ids by (rule list_all_refers_to_mono) auto
  have par1: "refers_to (revision_ids s @ [new]) par" by (rule refers_to_mono [OF ok(2)]) auto
  have crefs: "list_all (\<lambda>c. cref_revision_id c \<in> set (revision_ids s @ [new])) (chunk_refs s)"
    using s by (auto simp: schema_ok_def list_all_iff revision_ids_def)
  show ?thesis
    using s1 fresh le par par1 ok(1) crefs ids unfolding s' schema_ok_def inodes_ok_def
    by (simp del: set_map set_append)
qed

lemma schema_ok_promote_revision:
  "schema_ok s \<Longrightarrow> promote_revision_to_current s rv = Inr s' \<Longrightarrow> schema_ok s'"
  using schema_ok_update_revisions [OF schema_ok_update_revisions]
  by (auto simp: promote_revision_to_current_def split: option.splits)

lemma schema_ok_chunk_refs_subset:
  "schema_ok s \<Longrightarrow> schema_ok (s\<lparr>chunk_refs := delete_where P (chunk_refs s)\<rparr>)"
  by (simp add: schema_ok_def distinct_delete_where list_all_delete_where)

lemma fr_ids_delete_revisions:
  "map fr_revision_id (file_revisions (delete_revisions P s)) =
     map fr_revision_id (delete_where P (file_revisions s))"
  by (simp add: delete_revisions_def Let_def update_where_key)

lemma delete_revisions_parent:
  assumes "schema_ok s" and "r \<in> set (file_revisions (delete_revisions P s))"
  shows "refers_to (map fr_revision_id (file_revisions (delete_revisions P s))) (fr_parent_revision_id r)"
proof -
  let ?gone = "fr_revision_id ` {r \<in> set (file_revisions s). P r}"
  from assms(2) obtain q where q: "q \<in> set (file_revisions s)" and
    rq: "fr_parent_revision_id r = None \<or> (fr_parent_revision_id r = fr_parent_revision_id q \<and>
      (\<forall>p. fr_parent_revision_id q = Some p \<longrightarrow> p \<notin> ?gone))"
    unfolding delete_revisions_def Let_def
    by (auto simp: set_update_where set_delete_where split: option.splits)
  have "refers_to (map fr_revision_id (file_revisions s)) (fr_parent_revision_id q)"
    using assms(1) q by (simp add: schema_ok_def inodes_ok_def list_all_iff)
  with rq show ?thesis
    unfolding fr_ids_delete_revisions refers_to_def by (auto simp: set_delete_where split: option.splits)
qed

lemma schema_ok_delete_revisions:
  assumes s: "schema_ok s"
  shows "schema_ok (delete_revisions P s)"
proof -
  let ?s' = "delete_revisions P s"
  have revs: "set (file_revisions ?s') \<subseteq> {r. \<exists>q \<in> set (file_revisions s). fr_revision_id r = fr_revision_id q \<and>
      fr_inode_id r = fr_inode_id q}"
    by (auto simp: delete_revisions_def Let_def set_update_where set_delete_where)
  have ids: "distinct (map fr_revision_id (file_revisions ?s'))"
    unfolding fr_ids_delete_revisions using s
    by (auto simp: schema_ok_def intro: distinct_delete_where)
  have le: "list_all (\<lambda>r. fr_revision_id r \<le> file_revisions_seq s) (file_revisions ?s')"
    and ino: "list_all (\<lambda>r. fr_inode_id r \<in> set (map in_id (inodes s))) (file_revisions ?s')"
    using revs s by (force simp: schema_ok_def inodes_ok_def list_all_iff)+
  have par: "list_all (\<lambda>r. refers_to (map fr_revision_id (file_revisions ?s')) (fr_parent_revision_id r))
      (file_revisions ?s')"
    using delete_revisions_parent [OF s] by (simp add: list_all_iff)
  have crefs: "list_all (\<lambda>c. cref_revision_id c \<in> set (map fr_revision_id (file_revisions ?s'))) (chunk_refs ?s')"
  proof -
    have "\<forall>c \<in> set (chunk_refs s). cref_revision_id c \<in> fr_revision_id ` set (file_revisions s)"
      using s by (simp add: schema_ok_def list_all_iff)
    moreover have "set (chunk_refs ?s') = {c \<in> set (chunk_refs s).
        cref_revision_id c \<notin> fr_revision_id ` {r \<in> set (file_revisions s). P r}}"
      by (simp add: delete_revisions_def Let_def set_delete_where)
    ultimately show ?thesis
      unfolding fr_ids_delete_revisions list_all_iff set_map set_delete_where by blast
  qed
  have same: "inodes ?s' = inodes s" "inodes_seq ?s' = inodes_seq s" "sync_policies ?s' = sync_policies s"
    "sync_policies_seq ?s' = sync_policies_seq s" "packs ?s' = packs s" "pack_shards ?s' = pack_shards s"
    "pack_shards_seq ?s' = pack_shards_seq s" "pack_locations ?s' = pack_locations s"
    "chunk_refs_seq ?s' = chunk_refs_seq s" "file_revisions_seq ?s' = file_revisions_seq s"
    "upload_jobs ?s' = upload_jobs s" "upload_jobs_seq ?s' = upload_jobs_seq s"
    "upload_job_targets ?s' = upload_job_targets s" "upload_job_targets_seq ?s' = upload_job_targets_seq s"
    by (simp_all add: delete_revisions_def Let_def)
  have "distinct (map cref_id (chunk_refs ?s'))" "list_all (\<lambda>r. cref_id r \<le> chunk_refs_seq s) (chunk_refs ?s')"
    using s by (simp_all add: schema_ok_def delete_revisions_def Let_def distinct_delete_where
        list_all_delete_where)
  with s ids le ino par crefs show ?thesis
    unfolding schema_ok_def inodes_ok_def same by (simp only: simp_thms)
qed

lemma schema_ok_delete_file_chunks: "schema_ok s \<Longrightarrow> schema_ok (delete_file_chunks s i)"
  by (simp add: delete_file_chunks_def Let_def schema_ok_delete_revisions schema_ok_chunk_refs_subset)

section \<open>The current revision\<close>

definition current_revisions :: "db \<Rightarrow> FileRevisionRecord list" where
  "current_revisions s = filter (\<lambda>r. fr_is_current r = 1) (file_revisions s)"

definition one_current :: "db \<Rightarrow> bool" where
  "one_current s \<longleftrightarrow> distinct (map fr_inode_id (current_revisions s))"

lemma get_current_from_list:
  "get_current_file_revision s i = fetch_optional (sort_key (\<lambda>r. - fr_revision_id r)
     (filter (\<lambda>r. fr_inode_id r = i) (current_revisions s)))"
  by (simp add: get_current_file_revision_def current_revisions_def conj_commute)

lemma current_after_clearing:
  "filter (\<lambda>r. fr_is_current r = 1) (update_where (\<lambda>r. fr_inode_id r = i) (\<lambda>r. r\<lparr>fr_is_current := 0\<rparr>) t) =
     filter (\<lambda>r. fr_inode_id r \<noteq> i) (filter (\<lambda>r. fr_is_current r = 1) t)"
  by (induction t) auto

text \<open>Both ways to make a revision current replace the current revision of one inode.\<close>

definition current_switched :: "db \<Rightarrow> db \<Rightarrow> FileRevisionRecord \<Rightarrow> bool" where
  "current_switched s s' row \<longleftrightarrow>
     filter (\<lambda>r. fr_inode_id r = fr_inode_id row) (current_revisions s') = [row] \<and>
     filter (\<lambda>r. fr_inode_id r \<noteq> fr_inode_id row) (current_revisions s') =
       filter (\<lambda>r. fr_inode_id r \<noteq> fr_inode_id row) (current_revisions s)"

lemma distinct_map_iff_single: "distinct (map k t) \<longleftrightarrow> (\<forall>x. length (filter (\<lambda>r. k r = x) t) \<le> 1)"
proof
  assume d: "distinct (map k t)"
  show "\<forall>x. length (filter (\<lambda>r. k r = x) t) \<le> 1"
  proof
    fix x
    show "length (filter (\<lambda>r. k r = x) t) \<le> 1"
    proof (cases "x \<in> k ` set t")
      case True
      then obtain r where "r \<in> set t" "x = k r" by blast
      with filter_key_singleton [OF d] show ?thesis by simp
    next
      case False
      then have "filter (\<lambda>r. k r = x) t = []" by (auto simp: filter_empty_conv)
      then show ?thesis by simp
    qed
  qed
next
  assume "\<forall>x. length (filter (\<lambda>r. k r = x) t) \<le> 1"
  then show "distinct (map k t)"
  proof (induction t)
    case (Cons a t)
    have "filter (\<lambda>r. k r = k a) t = []" using Cons.prems [rule_format, of "k a"] by simp
    then have "k a \<notin> k ` set t" by (auto simp: filter_empty_conv)
    moreover have "\<forall>x. length (filter (\<lambda>r. k r = x) t) \<le> 1"
    proof
      fix x
      show "length (filter (\<lambda>r. k r = x) t) \<le> 1"
        using Cons.prems [rule_format, of x] by (cases "k a = x") simp_all
    qed
    ultimately show ?case using Cons.IH by simp
  qed simp
qed

lemma current_switched_other:
  assumes "current_switched s s' row" and "i \<noteq> fr_inode_id row"
  shows "filter (\<lambda>r. fr_inode_id r = i) (current_revisions s') =
    filter (\<lambda>r. fr_inode_id r = i) (current_revisions s)"
proof -
  have "filter (\<lambda>r. fr_inode_id r = i) t =
      filter (\<lambda>r. fr_inode_id r = i) (filter (\<lambda>r. fr_inode_id r \<noteq> fr_inode_id row) t)" for t
    using assms(2) by (simp add: conj_commute cong: filter_cong) (metis (no_types, lifting))
  with assms(1) show ?thesis unfolding current_switched_def by metis
qed

lemma current_switched_facts:
  assumes sw: "current_switched s s' row"
  shows "get_current_file_revision s' (fr_inode_id row) = Some row"
    and "i \<noteq> fr_inode_id row \<Longrightarrow> get_current_file_revision s' i = get_current_file_revision s i"
    and "one_current s \<Longrightarrow> one_current s'"
proof -
  show "get_current_file_revision s' (fr_inode_id row) = Some row"
    using sw by (simp add: get_current_from_list current_switched_def)
  show "i \<noteq> fr_inode_id row \<Longrightarrow> get_current_file_revision s' i = get_current_file_revision s i"
    using current_switched_other [OF sw] by (simp add: get_current_from_list)
  assume one: "one_current s"
  have "length (filter (\<lambda>r. fr_inode_id r = j) (current_revisions s')) \<le> 1" for j
  proof (cases "j = fr_inode_id row")
    case True
    with sw show ?thesis by (simp add: current_switched_def)
  next
    case False
    with current_switched_other [OF sw] one show ?thesis
      by (simp add: one_current_def distinct_map_iff_single)
  qed
  then show "one_current s'" by (simp add: one_current_def distinct_map_iff_single)
qed

lemma current_after_create:
  assumes "create_file_revision s now i n im dev par org c = Inr (new, s')"
  shows "\<exists>row. current_switched s s' row \<and> fr_revision_id row = new \<and> fr_inode_id row = i \<and>
    fr_parent_revision_id row = par \<and> fr_size row = n"
proof -
  let ?row = "\<lparr>fr_revision_id = new, fr_inode_id = i, fr_created_at = now, fr_size = n, fr_is_current = 1,
      fr_immutable_until = im, fr_device_id = dev, fr_parent_revision_id = par, fr_origin = org,
      fr_conflict_reason = c\<rparr>"
  have "file_revisions s' = update_where (\<lambda>r. fr_inode_id r = i) (\<lambda>r. r\<lparr>fr_is_current := 0\<rparr>)
      (file_revisions s) @ [?row]"
    using assms by (auto simp: create_file_revision_def Let_def split: if_splits)
  then have "current_revisions s' = filter (\<lambda>r. fr_inode_id r \<noteq> i) (current_revisions s) @ [?row]"
    by (simp add: current_revisions_def current_after_clearing)
  then show ?thesis by (intro exI [of _ ?row]) (simp add: current_switched_def)
qed

lemma current_after_promote:
  assumes s: "schema_ok s" and p: "promote_revision_to_current s rv = Inr s'"
  shows "\<exists>row. revision_row s rv = Some row \<and> current_switched s s' (row\<lparr>fr_is_current := 1\<rparr>)"
proof -
  from p obtain row where row: "revision_row s rv = Some row"
    and s': "file_revisions s' = update_where (\<lambda>r. fr_revision_id r = rv) (\<lambda>r. r\<lparr>fr_is_current := 1\<rparr>)
      (update_where (\<lambda>r. fr_inode_id r = fr_inode_id row) (\<lambda>r. r\<lparr>fr_is_current := 0\<rparr>) (file_revisions s))"
    by (auto simp: promote_revision_to_current_def revision_row_def split: option.splits)
  define g where "g r = (if fr_revision_id r = rv then r\<lparr>fr_is_current := 1\<rparr>
    else if fr_inode_id r = fr_inode_id row then r\<lparr>fr_is_current := 0\<rparr> else r)" for r :: FileRevisionRecord
  have cur: "current_revisions s' = filter (\<lambda>r. fr_is_current r = 1) (map g (file_revisions s))"
  proof -
    have "file_revisions s' = map g (file_revisions s)"
      unfolding s' update_where_def map_map by (rule map_cong) (simp_all add: g_def)
    then show ?thesis by (simp add: current_revisions_def)
  qed
  from row have in_t: "row \<in> set (file_revisions s)" "fr_revision_id row = rv"
    unfolding revision_row_def by (auto dest: fetch_optional_in)
  have d: "distinct (map fr_revision_id (file_revisions s))" using s by (simp add: schema_ok_def)
  have key: "r = row" if "r \<in> set (file_revisions s)" "fr_revision_id r = rv" for r
    using distinct_map_key [OF d that(1) in_t(1)] that(2) in_t(2) by simp
  have g: "fr_is_current (g r) = 1 \<and> fr_inode_id (g r) = fr_inode_id row \<longleftrightarrow> fr_revision_id r = rv"
    "fr_is_current (g r) = 1 \<and> fr_inode_id (g r) \<noteq> fr_inode_id row \<longleftrightarrow>
       fr_is_current r = 1 \<and> fr_inode_id r \<noteq> fr_inode_id row"
    "fr_inode_id r \<noteq> fr_inode_id row \<Longrightarrow> g r = r" if "r \<in> set (file_revisions s)" for r
    using key [OF that] by (cases "fr_revision_id r = rv", simp_all add: g_def)+
  have "filter (\<lambda>r. fr_inode_id r = fr_inode_id row) (current_revisions s') =
      map g (filter (\<lambda>r. fr_revision_id r = rv) (file_revisions s))"
    unfolding cur filter_filter filter_map
    by (rule arg_cong [of _ _ "map g"], rule filter_cong) (simp_all add: g(1) conj_commute comp_def)
  also have "\<dots> = [row\<lparr>fr_is_current := 1\<rparr>]"
    using filter_key_singleton [OF d in_t(1)] in_t(2) by (simp add: g_def)
  finally have one: "filter (\<lambda>r. fr_inode_id r = fr_inode_id row) (current_revisions s') =
    [row\<lparr>fr_is_current := 1\<rparr>]" .
  have "filter (\<lambda>r. fr_inode_id r \<noteq> fr_inode_id row) (current_revisions s') =
      map g (filter (\<lambda>r. fr_is_current r = 1 \<and> fr_inode_id r \<noteq> fr_inode_id row) (file_revisions s))"
    unfolding cur filter_filter filter_map
    by (rule arg_cong [of _ _ "map g"], rule filter_cong) (simp_all add: g(2) conj_commute comp_def)
  also have "\<dots> = filter (\<lambda>r. fr_is_current r = 1 \<and> fr_inode_id r \<noteq> fr_inode_id row) (file_revisions s)"
    by (rule map_idI) (simp add: g(3))
  finally have "filter (\<lambda>r. fr_inode_id r \<noteq> fr_inode_id row) (current_revisions s') =
      filter (\<lambda>r. fr_inode_id r \<noteq> fr_inode_id row) (current_revisions s)"
    by (simp add: current_revisions_def)
  with one row show ?thesis by (auto simp: current_switched_def)
qed

text \<open>
  C24: the current revision. Creating a revision makes it, under a fresh id, the one current revision of
  its file; promoting an existing one does the same; the current revisions of other files do not
  change, and a database in which no file has two current revisions stays one. Promoting a revision that does not
  exist fails.
\<close>

theorem current_revision_switch:
  assumes s: "schema_ok s" and one: "one_current s"
  shows "(create_file_revision s now i n im dev par org c = Inr (new, s') \<longrightarrow>
      one_current s' \<and> schema_ok s' \<and> new \<notin> set (revision_ids s) \<and>
      (\<exists>row. get_current_file_revision s' i = Some row \<and> fr_revision_id row = new \<and>
         fr_parent_revision_id row = par \<and> fr_size row = n) \<and>
      (\<forall>j. j \<noteq> i \<longrightarrow> get_current_file_revision s' j = get_current_file_revision s j)) \<and>
    (promote_revision_to_current s rv = Inr s'' \<longrightarrow>
      one_current s'' \<and> schema_ok s'' \<and>
      (\<exists>row. revision_row s rv = Some row \<and>
         get_current_file_revision s'' (fr_inode_id row) = Some (row\<lparr>fr_is_current := 1\<rparr>) \<and>
         (\<forall>j. j \<noteq> fr_inode_id row \<longrightarrow> get_current_file_revision s'' j = get_current_file_revision s j))) \<and>
    (rv \<notin> set (revision_ids s) \<longrightarrow> promote_revision_to_current s rv = Inl RowNotFound)"
proof (intro conjI impI)
  assume c: "create_file_revision s now i n im dev par org c = Inr (new, s')"
  from current_after_create [OF c] obtain row where sw: "current_switched s s' row"
    and row: "fr_revision_id row = new" "fr_inode_id row = i" "fr_parent_revision_id row = par" "fr_size row = n"
    by blast
  note f = current_switched_facts [OF sw, unfolded row(2)]
  show "one_current s'" "\<forall>j. j \<noteq> i \<longrightarrow> get_current_file_revision s' j = get_current_file_revision s j"
    using f one by simp_all
  show "schema_ok s'" by (rule schema_ok_create_file_revision [OF s c])
  show "new \<notin> set (revision_ids s)" using c s
    by (auto simp: create_file_revision_def schema_ok_def list_all_iff revision_ids_def Let_def split: if_splits)
  show "\<exists>row. get_current_file_revision s' i = Some row \<and> fr_revision_id row = new \<and>
      fr_parent_revision_id row = par \<and> fr_size row = n"
    using f(1) row by blast
next
  assume p: "promote_revision_to_current s rv = Inr s''"
  from current_after_promote [OF s p] obtain row where row: "revision_row s rv = Some row"
    and sw: "current_switched s s'' (row\<lparr>fr_is_current := 1\<rparr>)" by blast
  note f = current_switched_facts [OF sw]
  show "one_current s''" using f(3) one by simp
  show "schema_ok s''" by (rule schema_ok_promote_revision [OF s p])
  show "\<exists>row. revision_row s rv = Some row \<and>
      get_current_file_revision s'' (fr_inode_id row) = Some (row\<lparr>fr_is_current := 1\<rparr>) \<and>
      (\<forall>j. j \<noteq> fr_inode_id row \<longrightarrow> get_current_file_revision s'' j = get_current_file_revision s j)"
    using row f(1,2) by auto
next
  assume "rv \<notin> set (revision_ids s)"
  then have "filter (\<lambda>r. fr_revision_id r = rv) (file_revisions s) = []"
    by (auto simp: revision_ids_def filter_empty_conv)
  then show "promote_revision_to_current s rv = Inl RowNotFound"
    by (simp add: promote_revision_to_current_def)
qed

definition sample_inode :: InodeRecord where
  "sample_inode = \<lparr>in_id = 1, in_parent_id = None, in_name = ''f.txt'', in_kind = ''FILE'', in_size = 20,
     in_mode = None, in_mtime = None, in_deleted_at = None\<rparr>"

definition sample_revision :: "int \<Rightarrow> int option \<Rightarrow> FileRevisionRecord" where
  "sample_revision i par = \<lparr>fr_revision_id = i, fr_inode_id = 1, fr_created_at = i, fr_size = 20,
     fr_is_current = (if i = 3 then 1 else 0), fr_immutable_until = None, fr_device_id = None,
     fr_parent_revision_id = par, fr_origin = ''local'', fr_conflict_reason = None\<rparr>"

text \<open>A file with three revisions: 2 and 3 both come from 1.\<close>

definition revision_db :: db where
  "revision_db = empty_db\<lparr>inodes := [sample_inode], inodes_seq := 1,
     file_revisions := [sample_revision 1 None, sample_revision 2 (Some 1), sample_revision 3 (Some 1)],
     file_revisions_seq := 3\<rparr>"

lemma revision_db_ok: "schema_ok revision_db" "one_current revision_db"
  by (simp_all add: revision_db_def empty_db_def schema_ok_def inodes_ok_def sample_inode_def
      sample_revision_def refers_to_def live_inode_def one_current_def current_revisions_def)

theorem current_revision_switch_witness:
  "\<exists>s''. promote_revision_to_current revision_db 2 = Inr s'' \<and> one_current s'' \<and>
     promote_revision_to_current revision_db 9 = Inl RowNotFound"
proof -
  obtain s'' where "promote_revision_to_current revision_db 2 = Inr s''"
    by (simp add: promote_revision_to_current_def revision_db_def sample_revision_def)
  moreover have "9 \<notin> set (revision_ids revision_db)"
    by (simp add: revision_ids_def revision_db_def sample_revision_def)
  ultimately show ?thesis
    using current_revision_switch [OF revision_db_ok, of 0 0 0 None None None "[]" None 0 revision_db 2 s'']
      current_revision_switch [OF revision_db_ok, of 0 0 0 None None None "[]" None 0 revision_db 9 s'']
    by blast
qed

section \<open>Descent\<close>

definition parent_rel :: "db \<Rightarrow> (int \<times> int) set" where
  "parent_rel s = {(a, b). \<exists>r \<in> set (file_revisions s). fr_revision_id r = a \<and> fr_parent_revision_id r = Some b}"

definition parents_older :: "db \<Rightarrow> bool" where
  "parents_older s \<longleftrightarrow> list_all (\<lambda>r. case fr_parent_revision_id r of None \<Rightarrow> True
     | Some p \<Rightarrow> p < fr_revision_id r) (file_revisions s)"

lemma parents_older_create:
  assumes "schema_ok s" and "parents_older s" and "par \<noteq> Some (file_revisions_seq s + 1)"
    and c: "create_file_revision s now i n im dev par org c = Inr (new, s')"
  shows "parents_older s'"
proof -
  have "p < file_revisions_seq s + 1" if "par = Some p" for p
    using that assms c by (auto simp: create_file_revision_def refers_to_def schema_ok_def revision_ids_def
        list_all_iff Let_def split: if_splits)
  moreover have "list_all (\<lambda>r. case fr_parent_revision_id r of None \<Rightarrow> True | Some p \<Rightarrow> p < fr_revision_id r)
      (update_where (\<lambda>r. fr_inode_id r = i) (\<lambda>r. r\<lparr>fr_is_current := 0\<rparr>) (file_revisions s))"
    using assms(2) unfolding parents_older_def by (rule list_all_update_where) (simp split: option.splits)
  ultimately show ?thesis
    using c by (auto simp: create_file_revision_def parents_older_def Let_def split: if_splits option.splits)
qed

lemma parents_older_promote:
  assumes "parents_older s" and "promote_revision_to_current s rv = Inr s'"
  shows "parents_older s'"
  using assms unfolding parents_older_def promote_revision_to_current_def
  by (auto split: option.splits intro!: list_all_update_where)

lemma parents_older_delete_revisions:
  assumes "parents_older s"
  shows "parents_older (delete_revisions P s)"
  using assms unfolding parents_older_def delete_revisions_def Let_def
  by (auto intro!: list_all_update_where list_all_delete_where)

lemma revision_row_in:
  assumes "schema_ok s" and "r \<in> set (file_revisions s)"
  shows "revision_row s (fr_revision_id r) = Some r"
  using assms filter_key_singleton [of fr_revision_id "file_revisions s" r]
  by (simp add: revision_row_def schema_ok_def)

lemma parent_rel_older:
  assumes "parents_older s" and "(a, b) \<in> (parent_rel s)\<^sup>+"
  shows "b < a"
  using assms(2)
proof induction
  case (base b)
  with assms(1) show ?case by (auto simp: parent_rel_def parents_older_def list_all_iff)
next
  case (step b c)
  with assms(1) have "c < b" by (auto simp: parent_rel_def parents_older_def list_all_iff)
  with step show ?case by simp
qed

lemma is_revision_ancestor_walk:
  assumes s: "schema_ok s" and old: "parents_older s"
  shows "d \<in> set (revision_ids s) \<Longrightarrow>
    is_revision_ancestor s a d = Some ((d, a) \<in> (parent_rel s)\<^sup>*)"
proof (induction "card {x \<in> set (revision_ids s). x < d}" arbitrary: d rule: less_induct)
  case less
  from less.prems obtain r where r: "r \<in> set (file_revisions s)" "d = fr_revision_id r"
    by (auto simp: revision_ids_def)
  have row: "revision_row s d = Some r" using revision_row_in [OF s r(1)] r(2) by simp
  have edge: "(d, b) \<in> parent_rel s \<longleftrightarrow> fr_parent_revision_id r = Some b" for b
    using r distinct_map_key [of fr_revision_id "file_revisions s"] s
    by (auto simp: parent_rel_def schema_ok_def)
  show ?case
  proof (cases "d = a \<or> fr_parent_revision_id r = None")
    case True
    have "(d, a) \<in> (parent_rel s)\<^sup>* \<longleftrightarrow> d = a" if "d \<noteq> a"
      using True that edge by (auto elim: converse_rtranclE)
    with True row r show ?thesis by (subst is_revision_ancestor.simps) auto
  next
    case False
    then obtain b where b: "fr_parent_revision_id r = Some b" by auto
    have "refers_to (map fr_revision_id (file_revisions s)) (fr_parent_revision_id r)"
      using s r by (simp add: schema_ok_def inodes_ok_def list_all_iff)
    with b have mem: "b \<in> set (revision_ids s)" by (simp add: refers_to_def revision_ids_def)
    have "b < d" using old r b by (auto simp: parents_older_def list_all_iff)
    then have "{x \<in> set (revision_ids s). x < b} \<subset> {x \<in> set (revision_ids s). x < d}"
      using mem by force
    then have "card {x \<in> set (revision_ids s). x < b} < card {x \<in> set (revision_ids s). x < d}"
      by (intro psubset_card_mono) simp
    from less.hyps [OF this mem] have "is_revision_ancestor s a b = Some ((b, a) \<in> (parent_rel s)\<^sup>*)" .
    moreover have "(d, a) \<in> (parent_rel s)\<^sup>* \<longleftrightarrow> (b, a) \<in> (parent_rel s)\<^sup>*"
      using False edge b by (auto elim: converse_rtranclE intro: converse_rtrancl_into_rtrancl)
    ultimately show ?thesis using False row r b by (subst is_revision_ancestor.simps) simp
  qed
qed

text \<open>
  C25: the lineage of two revisions. On a table whose parents are older than their children the query
  ends, and it answers by descent: the candidate descends from the current revision, or the other way
  round, exactly if a chain of parents leads from one to the other; it is parallel exactly if neither
  does. Such a table stays one when a revision is created under an existing parent (or none).
\<close>

theorem revision_lineage:
  assumes s: "schema_ok s" and old: "parents_older s"
    and a: "a \<in> set (revision_ids s)" and b: "b \<in> set (revision_ids s)"
  shows "(\<exists>rel. classify_revision_lineage s a b = Some rel \<and>
      (rel = Same \<longleftrightarrow> a = b) \<and>
      (rel = CandidateDescendsFromCurrent \<longleftrightarrow> (a, b) \<in> (parent_rel s)\<^sup>+) \<and>
      (rel = CurrentDescendsFromCandidate \<longleftrightarrow> (b, a) \<in> (parent_rel s)\<^sup>+) \<and>
      (rel = Parallel \<longleftrightarrow> a \<noteq> b \<and> (a, b) \<notin> (parent_rel s)\<^sup>+ \<and> (b, a) \<notin> (parent_rel s)\<^sup>+)) \<and>
    (create_file_revision s now i n im dev (Some a) org c = Inr (new, s') \<longrightarrow> parents_older s')"
proof
  have walk: "is_revision_ancestor s b a = Some ((a, b) \<in> (parent_rel s)\<^sup>*)"
    "is_revision_ancestor s a b = Some ((b, a) \<in> (parent_rel s)\<^sup>*)"
    using is_revision_ancestor_walk [OF s old] a b by simp_all
  note lt = parent_rel_older [OF old]
  show "\<exists>rel. classify_revision_lineage s a b = Some rel \<and>
      (rel = Same \<longleftrightarrow> a = b) \<and>
      (rel = CandidateDescendsFromCurrent \<longleftrightarrow> (a, b) \<in> (parent_rel s)\<^sup>+) \<and>
      (rel = CurrentDescendsFromCandidate \<longleftrightarrow> (b, a) \<in> (parent_rel s)\<^sup>+) \<and>
      (rel = Parallel \<longleftrightarrow> a \<noteq> b \<and> (a, b) \<notin> (parent_rel s)\<^sup>+ \<and> (b, a) \<notin> (parent_rel s)\<^sup>+)"
  proof (cases "a = b")
    case True
    with lt show ?thesis by (auto simp: classify_revision_lineage_def)
  next
    case False
    with walk lt [of a b] lt [of b a] show ?thesis
      by (auto simp: classify_revision_lineage_def rtrancl_eq_or_trancl split: bool.splits)
  qed
  have "list_all (\<lambda>r. fr_revision_id r \<le> file_revisions_seq s) (file_revisions s)"
    using s by (simp add: schema_ok_def)
  with a have "a \<noteq> file_revisions_seq s + 1" by (auto simp: revision_ids_def list_all_iff)
  then show "create_file_revision s now i n im dev (Some a) org c = Inr (new, s') \<longrightarrow> parents_older s'"
    using parents_older_create [OF s old, of "Some a"] by blast
qed

theorem revision_lineage_witness:
  "classify_revision_lineage revision_db 2 3 = Some Parallel"
proof -
  have old: "parents_older revision_db"
    by (simp add: parents_older_def revision_db_def sample_revision_def)
  have ids: "set (revision_ids revision_db) = {1, 2, 3}"
    by (simp add: revision_ids_def revision_db_def sample_revision_def)
  have three: "(3, b) \<in> parent_rel revision_db \<longleftrightarrow> b = 1" for b
    by (auto simp: parent_rel_def revision_db_def sample_revision_def)
  have "(2, 3) \<notin> (parent_rel revision_db)\<^sup>+" using parent_rel_older [OF old, of 2 3] by auto
  moreover have "(3, 2) \<notin> (parent_rel revision_db)\<^sup>+"
  proof
    assume "(3, 2) \<in> (parent_rel revision_db)\<^sup>+"
    then show False
      by (rule converse_tranclE) (use three parent_rel_older [OF old, of 1 2] in auto)
  qed
  ultimately show ?thesis
    using revision_lineage [OF revision_db_ok(1) old, of 2 3 0 0 0 None None "[]" None 0 revision_db]
    by (auto simp: ids)
qed

section \<open>The number of a chunk found by its id\<close>

lemma ordered_chunks_single: "length rows = 1 \<Longrightarrow> (i, c) \<in> set (ordered_chunks rows) \<Longrightarrow> i = 0"
  by (auto simp: ordered_chunks_def in_set_enumerate_eq)

text \<open>
  A chunk looked up by its id that occurs once in its revision always gets the number 0, whatever
  its place in the file: the query numbers the uses of this one chunk and not the chunks of the revision.
  The witness is a file of two chunks: the second chunk has the number 1 among the locations of its
  revision and the number 0 when it is looked up, the number of the first chunk.
\<close>

theorem chunk_lookup_number:
  assumes x: "x \<in> set (chunk_lookup_results s cid)"
    and once: "length (filter (\<lambda>c. cref_chunk_id c = cid \<and> cref_revision_id c = cl_revision_id x) (chunk_refs s)) = 1"
  shows "fcl_chunk_index (cl_location x) = 0"
proof -
  from x obtain r ic where ic: "(r, ic) \<in> set (chunk_lookup_rows s cid)"
    and lx: "cl_location x \<in> set (join_location s ic)" "cl_revision_id x = fr_revision_id r"
    by (auto simp: chunk_lookup_results_def)
  from ic have "ic \<in> set (ordered_chunks (filter (\<lambda>c. cref_chunk_id c = cid \<and>
      cref_revision_id c = fr_revision_id r) (chunk_refs s)))"
    by (auto simp: chunk_lookup_rows_def)
  with lx obtain i c where rc: "(i, c) \<in> set (ordered_chunks (filter (\<lambda>c. cref_chunk_id c = cid \<and>
      cref_revision_id c = fr_revision_id r) (chunk_refs s)))"
    and l: "cl_location x \<in> set (join_location s (i, c))" "cl_revision_id x = fr_revision_id r"
    by (cases ic) auto
  from ordered_chunks_single [OF _ rc] once l(2) have "i = 0" by simp
  with l(1) show ?thesis by (auto simp: join_location_def)
qed

definition two_chunks_db :: db where
  "two_chunks_db = revision_db\<lparr>
     chunk_refs := [\<lparr>cref_id = 1, cref_revision_id = 3, cref_chunk_id = [1], cref_file_offset = 0, cref_size = 10\<rparr>,
                    \<lparr>cref_id = 2, cref_revision_id = 3, cref_chunk_id = [2], cref_file_offset = 10, cref_size = 10\<rparr>],
     chunk_refs_seq := 2,
     pack_locations := [\<lparr>pl_chunk_id = [1], pl_pack_id = ''p1'', pl_pack_offset = 0, pl_encrypted_size = 106\<rparr>,
                        \<lparr>pl_chunk_id = [2], pl_pack_id = ''p2'', pl_pack_offset = 0, pl_encrypted_size = 106\<rparr>]\<rparr>"

lemma two_chunks_lookup: "chunk_lookup_results two_chunks_db [2] =
  [\<lparr>cl_inode_id = 1, cl_revision_id = 3, cl_location = \<lparr>fcl_chunk_id = [2], fcl_chunk_index = 0,
     fcl_file_offset = 10, fcl_size = 10, fcl_pack_id = ''p2'', fcl_pack_offset = 0, fcl_encrypted_size = 106\<rparr>\<rparr>]"
  by (simp add: chunk_lookup_results_def chunk_lookup_rows_def two_chunks_db_def revision_db_def
      sample_revision_def ordered_chunks_def join_location_def)

theorem chunk_lookup_number_witness:
  "\<exists>x. get_chunk_lookup_by_chunk_id two_chunks_db [2] = Some x \<and> cl_revision_id x = 3 \<and>
     fcl_chunk_index (cl_location x) = 0 \<and>
     map (\<lambda>l. (fcl_chunk_id l, fcl_chunk_index l)) (get_chunk_locations_for_revision two_chunks_db 3) =
       [([1], 0), ([2], 1)]"
proof -
  define x where "x = hd (chunk_lookup_results two_chunks_db [2])"
  have x: "chunk_lookup_results two_chunks_db [2] = [x]" and rv: "cl_revision_id x = 3"
    by (simp_all add: x_def two_chunks_lookup)
  have "length (filter (\<lambda>c. cref_chunk_id c = [2] \<and> cref_revision_id c = cl_revision_id x)
      (chunk_refs two_chunks_db)) = 1"
    by (simp add: rv) (simp add: two_chunks_db_def)
  from chunk_lookup_number [OF _ this] x have "fcl_chunk_index (cl_location x) = 0" by simp
  moreover have "get_chunk_lookup_by_chunk_id two_chunks_db [2] = Some x"
    by (simp add: get_chunk_lookup_by_chunk_id_def x)
  moreover have "map (\<lambda>l. (fcl_chunk_id l, fcl_chunk_index l)) (get_chunk_locations_for_revision two_chunks_db 3) =
      [([1], 0), ([2], 1)]"
    by (simp add: get_chunk_locations_for_revision_def chunk_locations_def ordered_chunks_def
        join_location_def two_chunks_db_def)
  ultimately show ?thesis using rv by (intro exI [of _ x] conjI)
qed

end
