(* ===== verification/Inodes.thy ===== *)
theory Inodes
  imports ChunkIndex
begin

text \<open>
  The directory tree (\<^verbatim>\<open>db/inodes.rs\<close>, \<open>get_inode_path\<close> of \<^verbatim>\<open>db/projection.rs\<close>), the sync policies
  of path prefixes (\<^verbatim>\<open>db/sync_policies.rs\<close>), and the storage mode a pack should have, which follows
  from the policies of the files that refer to it (\<^verbatim>\<open>db/packs.rs\<close>). Following parents may not end
  on a cyclic table, so \<open>inode_names\<close> is a \<open>partial_function\<close>; the same holds for the search of a free
  name, which is proved to end.
\<close>

section \<open>Inodes\<close>

definition validate_inode_kind :: "string \<Rightarrow> sqlx_error + unit" where
  "validate_inode_kind kind = (if kind \<in> {''FILE'', ''DIR''} then Inr () else Inl InvalidArgument)"

definition inode_ids :: "db \<Rightarrow> int list" where
  "inode_ids s = map in_id (inodes s)"

text \<open>
  The constraints of an insert: \<open>UNIQUE(parent_id, name)\<close>, which a deleted row still counts for but a
  \<open>NULL\<close> parent does not, the unique index over live rows, and the foreign key of the parent.
\<close>

definition inode_name_taken :: "db \<Rightarrow> int option \<Rightarrow> string \<Rightarrow> bool" where
  "inode_name_taken s parent_id name \<longleftrightarrow>
     list_ex (\<lambda>r. in_name r = name \<and>
       ((parent_id \<noteq> None \<and> in_parent_id r = parent_id) \<or>
        (live_inode r \<and> coalesce (in_parent_id r) (- 1) = coalesce parent_id (- 1)))) (inodes s)"

definition insert_inode ::
  "db \<Rightarrow> int option \<Rightarrow> string \<Rightarrow> string \<Rightarrow> int \<Rightarrow> int option \<Rightarrow> sqlx_error + int \<times> db" where
  "insert_inode s parent_id name kind isize mtime =
     (let new_id = inodes_seq s + 1
      in if inode_name_taken s parent_id name then Inl UniqueViolation
         else if \<not> refers_to (new_id # inode_ids s) parent_id then Inl ForeignKeyViolation
         else Inr (new_id, s\<lparr>inodes := inodes s @ [\<lparr>in_id = new_id, in_parent_id = parent_id, in_name = name,
             in_kind = kind, in_size = isize, in_mode = None, in_mtime = mtime, in_deleted_at = None\<rparr>],
           inodes_seq := new_id\<rparr>))"

definition create_inode :: "db \<Rightarrow> int option \<Rightarrow> string \<Rightarrow> string \<Rightarrow> int \<Rightarrow> sqlx_error + int \<times> db" where
  "create_inode s parent_id name kind isize =
     bindR (validate_inode_kind kind) (\<lambda>_. insert_inode s parent_id name kind isize None)"

definition get_inode_by_path :: "db \<Rightarrow> int option \<Rightarrow> string \<Rightarrow> InodeRecord option" where
  "get_inode_by_path s parent_id name =
     fetch_optional (filter (\<lambda>r. in_parent_id r = parent_id \<and> in_name r = name \<and> live_inode r) (inodes s))"

definition get_inode_by_id :: "db \<Rightarrow> int \<Rightarrow> InodeRecord option" where
  "get_inode_by_id s inode_id = fetch_optional (filter (\<lambda>r. in_id r = inode_id) (inodes s))"

definition upsert_inode ::
  "db \<Rightarrow> int option \<Rightarrow> string \<Rightarrow> string \<Rightarrow> int \<Rightarrow> int option \<Rightarrow> sqlx_error + int \<times> db" where
  "upsert_inode s parent_id name kind isize mtime =
     bindR (validate_inode_kind kind) (\<lambda>_.
       case get_inode_by_path s parent_id name of
         Some existing \<Rightarrow>
           if in_kind existing \<noteq> kind then Inl InvalidArgument
           else Inr (in_id existing, s\<lparr>inodes := update_where (\<lambda>r. in_id r = in_id existing)
                  (\<lambda>r. r\<lparr>in_size := isize, in_mtime := mtime\<rparr>) (inodes s)\<rparr>)
       | None \<Rightarrow> insert_inode s parent_id name kind isize mtime)"

fun resolve_segments :: "db \<Rightarrow> int option \<Rightarrow> string list \<Rightarrow> int option" where
  "resolve_segments s parent_id [] = parent_id"
| "resolve_segments s parent_id (seg # segs) =
     (case get_inode_by_path s parent_id seg of
        None \<Rightarrow> None
      | Some inode \<Rightarrow> resolve_segments s (Some (in_id inode)) segs)"

definition resolve_path :: "db \<Rightarrow> string \<Rightarrow> int option" where
  "resolve_path s path =
     (let trimmed = str_trim path
      in if trimmed = [] \<or> trimmed = ''/'' then None
         else resolve_segments s None (filter (\<lambda>seg. seg \<noteq> []) (split_on (CHR ''/'') trimmed)))"

text \<open>Deleting an inode row: refused while it has children, and its revisions go with it.\<close>

definition delete_inode_record :: "db \<Rightarrow> int \<Rightarrow> sqlx_error + nat \<times> db" where
  "delete_inode_record s inode_id =
     (if list_ex (\<lambda>r. in_parent_id r = Some inode_id \<and> in_id r \<noteq> inode_id) (inodes s)
      then Inl ForeignKeyViolation
      else let s1 = delete_revisions (\<lambda>r. fr_inode_id r = inode_id \<and> inode_id \<in> set (inode_ids s)) s
           in Inr (rows_affected (\<lambda>r. in_id r = inode_id) (inodes s),
                   s1\<lparr>inodes := delete_where (\<lambda>r. in_id r = inode_id) (inodes s1)\<rparr>))"

definition soft_delete_inode :: "db \<Rightarrow> int \<Rightarrow> int \<Rightarrow> bool \<times> db" where
  "soft_delete_inode s inode_id now_ms =
     (let P = (\<lambda>r. in_id r = inode_id \<and> in_kind r = ''FILE'' \<and> live_inode r)
      in (0 < rows_affected P (inodes s),
          s\<lparr>inodes := update_where P (\<lambda>r. r\<lparr>in_deleted_at := Some now_ms\<rparr>) (inodes s)\<rparr>))"

record SoftDeletedInode =
  sd_inode_id :: int
  sd_name :: string
  sd_deleted_at :: int
  sd_size :: int

definition list_soft_deleted :: "db \<Rightarrow> SoftDeletedInode list" where
  "list_soft_deleted s =
     map (\<lambda>r. \<lparr>sd_inode_id = in_id r, sd_name = in_name r, sd_deleted_at = coalesce (in_deleted_at r) 0,
            sd_size = in_size r\<rparr>)
       (sort_key (\<lambda>r. - coalesce (in_deleted_at r) 0)
         (filter (\<lambda>r. \<not> live_inode r \<and> in_kind r = ''FILE'') (inodes s)))"

definition restored_name :: "string \<Rightarrow> nat \<Rightarrow> string" where
  "restored_name original attempt =
     (let (stem, ext) = (case rsplit_once (CHR ''.'') original of
            Some (st, e) \<Rightarrow> if st \<noteq> [] \<and> e \<noteq> [] then (st, ''.'' @ e) else (original, [])
          | None \<Rightarrow> (original, []))
      in if attempt = 1 then stem @ '' (restored)'' @ ext
         else stem @ '' (restored '' @ dec_nat attempt @ '')'' @ ext)"

partial_function (option) free_name :: "db \<Rightarrow> int option \<Rightarrow> string \<Rightarrow> nat \<Rightarrow> string \<Rightarrow> string option" where
  "free_name s parent_id original attempt name =
     (if get_inode_by_path s parent_id name = None then Some name
      else free_name s parent_id original (attempt + 1) (restored_name original attempt))"

definition restore_soft_deleted_inode :: "db \<Rightarrow> int \<Rightarrow> (sqlx_error + string \<times> db) option" where
  "restore_soft_deleted_inode s inode_id =
     (case get_inode_by_id s inode_id of
        None \<Rightarrow> Some (Inl RowNotFound)
      | Some inode \<Rightarrow>
          (case free_name s (in_parent_id inode) (in_name inode) 1 (in_name inode) of
             None \<Rightarrow> None
           | Some final_name \<Rightarrow>
               if list_ex (\<lambda>r. in_id r \<noteq> inode_id \<and> in_parent_id r = in_parent_id inode \<and>
                    in_parent_id inode \<noteq> None \<and> in_name r = final_name) (inodes s)
               then Some (Inl UniqueViolation)
               else Some (Inr (final_name, s\<lparr>inodes := update_where (\<lambda>r. in_id r = inode_id)
                      (\<lambda>r. r\<lparr>in_deleted_at := None, in_name := final_name\<rparr>) (inodes s)\<rparr>))))"

definition list_expired_soft_deleted :: "db \<Rightarrow> int \<Rightarrow> int list" where
  "list_expired_soft_deleted s cutoff_ms =
     sort (map in_id (filter (\<lambda>r. case in_deleted_at r of None \<Rightarrow> False | Some t \<Rightarrow> t < cutoff_ms) (inodes s)))"

partial_function (option) inode_names :: "db \<Rightarrow> InodeRecord option \<Rightarrow> string list \<Rightarrow> string list option" where
  "inode_names s current names =
     (case current of
        None \<Rightarrow> Some names
      | Some inode \<Rightarrow>
          inode_names s (case in_parent_id inode of Some p \<Rightarrow> get_inode_by_id s p | None \<Rightarrow> None)
            (in_name inode # names))"

definition get_inode_path :: "db \<Rightarrow> int \<Rightarrow> string option option" where
  "get_inode_path s inode_id =
     map_option (\<lambda>names. if names = [] then None else Some (join_with (CHR ''/'') names))
       (inode_names s (get_inode_by_id s inode_id) [])"

section \<open>Sync policies\<close>

definition policy_row :: "db \<Rightarrow> string \<Rightarrow> int \<Rightarrow> int \<Rightarrow> string \<Rightarrow> int \<times> db" where
  "policy_row s path_prefix require_healthy enable_versioning policy_type =
     (case fetch_optional (filter (\<lambda>p. sp_path_prefix p = path_prefix) (sync_policies s)) of
        Some p \<Rightarrow> (sp_policy_id p, s\<lparr>sync_policies := update_where (\<lambda>r. sp_path_prefix r = path_prefix)
          (\<lambda>r. r\<lparr>sp_require_healthy := require_healthy, sp_enable_versioning := enable_versioning,
                 sp_policy_type := policy_type\<rparr>) (sync_policies s)\<rparr>)
      | None \<Rightarrow> (sync_policies_seq s + 1, s\<lparr>sync_policies := sync_policies s @
          [\<lparr>sp_policy_id = sync_policies_seq s + 1, sp_path_prefix = path_prefix,
            sp_require_healthy = require_healthy, sp_enable_versioning = enable_versioning,
            sp_policy_type = policy_type\<rparr>], sync_policies_seq := sync_policies_seq s + 1\<rparr>))"

definition upsert_sync_policy :: "db \<Rightarrow> string \<Rightarrow> bool \<Rightarrow> bool \<Rightarrow> int \<times> db" where
  "upsert_sync_policy s path_prefix require_healthy enable_versioning =
     policy_row s path_prefix (if require_healthy then 1 else 0) (if enable_versioning then 1 else 0)
       (if require_healthy then ''PARANOIA'' else ''STANDARD'')"

definition set_sync_policy_type_for_path :: "db \<Rightarrow> string \<Rightarrow> string \<Rightarrow> int \<times> db" where
  "set_sync_policy_type_for_path s path_prefix policy_type =
     policy_row s path_prefix (if policy_type \<in> {''STANDARD'', ''LOCAL''} then 0 else 1) 1 policy_type"

definition list_sync_policies :: "db \<Rightarrow> SyncPolicyRecord list" where
  "list_sync_policies s = sort_key (\<lambda>p. (- int (length (sp_path_prefix p)), sp_policy_id p)) (sync_policies s)"

definition normalize_policy_path :: "string \<Rightarrow> string" where
  "normalize_policy_path path =
     (let replaced = map (\<lambda>c. if c = CHR 0x5C then CHR ''/'' else c) path;
          normalized = trim_end_where (\<lambda>c. c = CHR ''/'') (str_trim replaced)
      in if normalized = [] then ''/'' else normalized)"

definition strip_prefix :: "string \<Rightarrow> string \<Rightarrow> string option" where
  "strip_prefix p s = (if take (length p) s = p then Some (drop (length p) s) else None)"

definition path_matches_policy :: "string \<Rightarrow> string \<Rightarrow> bool" where
  "path_matches_policy path prefix =
     (let path' = normalize_policy_path path; prefix' = normalize_policy_path prefix
      in if prefix' = ''/'' then True
         else if path' = prefix' then True
         else (case strip_prefix prefix' path' of
                 None \<Rightarrow> False | Some suffix \<Rightarrow> suffix \<noteq> [] \<and> hd suffix = CHR ''/''))"

text \<open>\<open>max_by_key\<close>: the last of the greatest elements.\<close>

fun max_by_key :: "('a \<Rightarrow> 'k::linorder) \<Rightarrow> 'a list \<Rightarrow> 'a option" where
  "max_by_key k [] = None"
| "max_by_key k (x # xs) =
     (case max_by_key k xs of None \<Rightarrow> Some x | Some y \<Rightarrow> if k x \<le> k y then Some y else Some x)"

definition find_sync_policy_for_path :: "db \<Rightarrow> string \<Rightarrow> SyncPolicyRecord option" where
  "find_sync_policy_for_path s path =
     max_by_key (\<lambda>p. length (sp_path_prefix p))
       (filter (\<lambda>p. path_matches_policy (normalize_policy_path path) (sp_path_prefix p)) (list_sync_policies s))"

section \<open>The storage mode a pack should have\<close>

fun show_int :: "int \<Rightarrow> string" where
  "show_int i = (if i < 0 then CHR ''-'' # dec_nat (nat (- i)) else dec_nat (nat i))"

definition policy_type_of_path :: "db \<Rightarrow> string \<Rightarrow> string" where
  "policy_type_of_path s path =
     (case find_sync_policy_for_path s path of None \<Rightarrow> ''PARANOIA'' | Some p \<Rightarrow> sp_policy_type p)"

definition get_storage_mode_for_inode :: "db \<Rightarrow> int \<Rightarrow> StorageMode option" where
  "get_storage_mode_for_inode s inode_id =
     map_option (\<lambda>path. StorageMode_from_policy_type
         (policy_type_of_path s (coalesce path (''inode/'' @ show_int inode_id))))
       (get_inode_path s inode_id)"

fun desired_mode_loop :: "db \<Rightarrow> StorageMode \<Rightarrow> int list \<Rightarrow> StorageMode option" where
  "desired_mode_loop s desired [] = Some desired"
| "desired_mode_loop s desired (i # is) =
     (case get_storage_mode_for_inode s i of
        None \<Rightarrow> None
      | Some Ec2_1 \<Rightarrow> Some Ec2_1
      | Some SingleReplica \<Rightarrow> desired_mode_loop s SingleReplica is
      | Some LocalOnly \<Rightarrow> desired_mode_loop s desired is)"

definition get_desired_storage_mode_for_pack :: "db \<Rightarrow> string \<Rightarrow> StorageMode option" where
  "get_desired_storage_mode_for_pack s pack_id =
     (let inode_ids = get_referencing_inode_ids_for_pack s pack_id
      in if inode_ids = [] then Some Ec2_1 else desired_mode_loop s LocalOnly inode_ids)"

fun reconciliation_loop :: "db \<Rightarrow> int \<Rightarrow> PackRecord list \<Rightarrow> PackRecord option option" where
  "reconciliation_loop s now [] = Some None"
| "reconciliation_loop s now (p # ps) =
     (case get_desired_storage_mode_for_pack s (pk_pack_id p) of
        None \<Rightarrow> None
      | Some desired \<Rightarrow>
          if StorageMode_from_str (pk_storage_mode p) \<noteq> desired \<and> \<not> pack_repair_is_deferred s now (pk_pack_id p)
          then Some (Some p) else reconciliation_loop s now ps)"

definition get_next_pack_requiring_reconciliation :: "db \<Rightarrow> int \<Rightarrow> PackRecord option option" where
  "get_next_pack_requiring_reconciliation s now = reconciliation_loop s now (list_active_packs s 256)"

fun requires_healthy_loop :: "db \<Rightarrow> bool \<Rightarrow> int list \<Rightarrow> bool option" where
  "requires_healthy_loop s saw_policy [] = Some (\<not> saw_policy)"
| "requires_healthy_loop s saw_policy (i # is) =
     (case get_inode_path s i of
        None \<Rightarrow> None
      | Some None \<Rightarrow> requires_healthy_loop s saw_policy is
      | Some (Some path) \<Rightarrow>
          (case find_sync_policy_for_path s path of
             None \<Rightarrow> Some True
           | Some policy \<Rightarrow> if sp_require_healthy policy \<noteq> 0 then Some True
                            else requires_healthy_loop s True is))"

definition pack_requires_healthy :: "db \<Rightarrow> string \<Rightarrow> bool option" where
  "pack_requires_healthy s pack_id =
     (let inode_ids = get_referencing_inode_ids_for_pack s pack_id
      in if inode_ids = [] then Some False else requires_healthy_loop s False inode_ids)"

section \<open>Statements keep the schema\<close>

lemma schema_ok_inodes:
  "inodes_ok s' \<Longrightarrow> schema_ok s \<Longrightarrow> packs s' = packs s \<Longrightarrow> pack_shards s' = pack_shards s \<Longrightarrow>
     pack_shards_seq s' = pack_shards_seq s \<Longrightarrow> pack_locations s' = pack_locations s \<Longrightarrow>
     chunk_refs s' = chunk_refs s \<Longrightarrow> chunk_refs_seq s' = chunk_refs_seq s \<Longrightarrow>
     file_revisions s' = file_revisions s \<Longrightarrow> file_revisions_seq s' = file_revisions_seq s \<Longrightarrow>
     upload_jobs s' = upload_jobs s \<Longrightarrow> upload_jobs_seq s' = upload_jobs_seq s \<Longrightarrow>
     upload_job_targets s' = upload_job_targets s \<Longrightarrow> upload_job_targets_seq s' = upload_job_targets_seq s \<Longrightarrow>
     schema_ok s'"
  by (simp add: schema_ok_def)

lemma inodes_okD: "schema_ok s \<Longrightarrow> inodes_ok s"
  by (simp add: schema_ok_def)

lemma inode_name_free:
  assumes "\<not> inode_name_taken s par nm"
  shows "par \<noteq> None \<Longrightarrow> (par, nm) \<notin> inode_key ` {r \<in> set (inodes s). in_parent_id r \<noteq> None}"
    and "(coalesce par (- 1), nm) \<notin> live_key ` {r \<in> set (inodes s). live_inode r}"
  using assms by (auto simp: inode_name_taken_def list_ex_iff inode_key_def live_key_def)

lemma schema_ok_insert_inode:
  assumes s: "schema_ok s" and r: "insert_inode s par nm kd sz mt = Inr (new, s')"
  shows "schema_ok s'"
proof -
  note ok = inodes_okD [OF s, unfolded inodes_ok_def]
  from r have new: "new = inodes_seq s + 1" and free: "\<not> inode_name_taken s par nm"
    and fk: "refers_to (new # inode_ids s) par"
    and s': "s' = s\<lparr>inodes := inodes s @ [\<lparr>in_id = new, in_parent_id = par, in_name = nm, in_kind = kd,
      in_size = sz, in_mode = None, in_mtime = mt, in_deleted_at = None\<rparr>], inodes_seq := new\<rparr>"
    by (auto simp: insert_inode_def Let_def split: if_splits)
  have "new \<notin> in_id ` set (inodes s)" using ok by (auto simp: new list_all_iff)
  moreover have "list_all (\<lambda>r. 0 < in_id r \<and> in_id r \<le> new) (inodes s)"
    using ok by (auto simp: new list_all_iff)
  moreover have "list_all (\<lambda>r. refers_to (map in_id (inodes s)) (in_parent_id r)) (inodes s)"
    using ok by simp
  then have "list_all (\<lambda>r. refers_to (map in_id (inodes s) @ [new]) (in_parent_id r)) (inodes s)"
    by (rule list_all_refers_to_mono) auto
  moreover have "refers_to (map in_id (inodes s) @ [new]) par"
    by (rule refers_to_mono [OF fk]) (auto simp: inode_ids_def)
  moreover have "list_all (\<lambda>r. fr_inode_id r \<in> set (map in_id (inodes s) @ [new])) (file_revisions s)"
    using ok by (auto simp: list_all_iff)
  ultimately have "inodes_ok s'"
    using ok inode_name_free [OF free] unfolding s'
    by (cases par) (simp_all add: inodes_ok_def new live_inode_def inode_key_def live_key_def)
  then show ?thesis by (rule schema_ok_inodes [OF _ s]) (simp_all add: s')
qed

lemma schema_ok_create_inode: "schema_ok s \<Longrightarrow> create_inode s par nm kd sz = Inr (new, s') \<Longrightarrow> schema_ok s'"
  by (auto simp: create_inode_def bindR_eq_Inr intro: schema_ok_insert_inode)

lemma schema_ok_update_inodes:
  assumes s: "schema_ok s" and f: "\<And>r. in_id (f r) = in_id r" "\<And>r. in_parent_id (f r) = in_parent_id r"
    "\<And>r. in_name (f r) = in_name r" "\<And>r. live_inode (f r) \<Longrightarrow> live_inode r"
  shows "schema_ok (s\<lparr>inodes := update_where P f (inodes s)\<rparr>)"
proof -
  let ?t = "update_where P f (inodes s)"
  note ok = inodes_okD [OF s, unfolded inodes_ok_def]
  have ids: "map in_id ?t = map in_id (inodes s)" by (rule update_where_key) (simp add: f)
  have "map inode_key (filter (\<lambda>r. in_parent_id r \<noteq> None) ?t) =
      map inode_key (filter (\<lambda>r. in_parent_id r \<noteq> None) (inodes s))"
    by (simp add: filter_update_where f update_where_key inode_key_def)
  moreover have "distinct (map live_key (filter live_inode ?t))"
  proof -
    have one: "map live_key (filter live_inode (update_where P f t)) =
        map live_key (filter (\<lambda>r. live_inode (if P r then f r else r)) t)" for t
      by (induction t) (auto simp: f live_key_def)
    have live: "live_inode r" if "live_inode (if P r then f r else r)" for r
      using that f(4) [of r] by (cases "P r") simp_all
    have two: "filter (\<lambda>r. live_inode (if P r then f r else r)) t =
        filter (\<lambda>r. live_inode (if P r then f r else r)) (filter live_inode t)" for t
      unfolding filter_filter by (rule filter_cong [OF refl]) (use live in blast)
    from ok have "distinct (map live_key (filter live_inode (inodes s)))" by simp
    then have "distinct (map live_key (filter (\<lambda>r. live_inode (if P r then f r else r))
        (filter live_inode (inodes s))))" by (rule distinct_map_filter)
    then show ?thesis by (simp only: one two [symmetric])
  qed
  moreover have "list_all (\<lambda>r. refers_to (map in_id (inodes s)) (in_parent_id r)) ?t"
    "list_all (\<lambda>r. 0 < in_id r \<and> in_id r \<le> inodes_seq s) ?t"
    using ok by (simp_all add: list_all_update_where f)
  ultimately have "inodes_ok (s\<lparr>inodes := ?t\<rparr>)" using ok ids by (simp add: inodes_ok_def del: set_map)
  then show ?thesis by (rule schema_ok_inodes [OF _ s]) simp_all
qed

lemma schema_ok_soft_delete: "schema_ok s \<Longrightarrow> schema_ok (snd (soft_delete_inode s i now))"
  unfolding soft_delete_inode_def Let_def snd_conv
  by (rule schema_ok_update_inodes) (simp_all add: live_inode_def)

lemma schema_ok_upsert_inode:
  assumes "schema_ok s" and "upsert_inode s par nm kd sz mt = Inr (i, s')"
  shows "schema_ok s'"
proof (cases "get_inode_by_path s par nm")
  case None
  with assms show ?thesis by (auto simp: upsert_inode_def bindR_eq_Inr intro: schema_ok_insert_inode)
next
  case (Some r)
  have "schema_ok (s\<lparr>inodes := update_where (\<lambda>x. in_id x = in_id r) (\<lambda>x. x\<lparr>in_size := sz, in_mtime := mt\<rparr>) (inodes s)\<rparr>)"
    by (rule schema_ok_update_inodes [OF assms(1)]) (simp_all add: live_inode_def)
  with Some assms show ?thesis by (auto simp: upsert_inode_def bindR_eq_Inr split: if_splits)
qed

lemma schema_ok_policy_row:
  assumes s: "schema_ok s"
  shows "schema_ok (snd (policy_row s pre h v ty))"
proof (cases "fetch_optional (filter (\<lambda>p. sp_path_prefix p = pre) (sync_policies s))")
  case None
  note ok = inodes_okD [OF s, unfolded inodes_ok_def]
  have "pre \<notin> sp_path_prefix ` set (sync_policies s)" using None by (auto simp: filter_empty_conv)
  moreover have "sync_policies_seq s + 1 \<notin> sp_policy_id ` set (sync_policies s)"
    "list_all (\<lambda>r. sp_policy_id r \<le> sync_policies_seq s + 1) (sync_policies s)"
    using ok by (force simp: list_all_iff)+
  ultimately have "inodes_ok (snd (policy_row s pre h v ty))"
    using ok None by (simp add: policy_row_def inodes_ok_def)
  then show ?thesis by (rule schema_ok_inodes [OF _ s]) (simp_all add: policy_row_def None)
next
  case (Some p)
  let ?f = "\<lambda>r. r\<lparr>sp_require_healthy := h, sp_enable_versioning := v, sp_policy_type := ty\<rparr>"
  let ?t = "update_where (\<lambda>r. sp_path_prefix r = pre) ?f (sync_policies s)"
  note ok = inodes_okD [OF s, unfolded inodes_ok_def]
  have "map sp_policy_id ?t = map sp_policy_id (sync_policies s)"
    "map sp_path_prefix ?t = map sp_path_prefix (sync_policies s)"
    by (rule update_where_key, simp)+
  moreover have "list_all (\<lambda>r. sp_policy_id r \<le> sync_policies_seq s) ?t"
    using ok by (simp add: list_all_update_where)
  ultimately have "inodes_ok (snd (policy_row s pre h v ty))"
    using ok Some by (simp add: policy_row_def inodes_ok_def)
  then show ?thesis by (rule schema_ok_inodes [OF _ s]) (simp_all add: policy_row_def Some)
qed

section \<open>Soft deletion\<close>

lemma inode_by_id:
  assumes "schema_ok s" and "r \<in> set (inodes s)"
  shows "filter (\<lambda>x. in_id x = in_id r) (inodes s) = [r]"
  using filter_key_singleton [of in_id "inodes s" r] inodes_okD [OF assms(1)] assms(2)
  by (simp add: inodes_ok_def)

lemma get_inode_by_id_in:
  "schema_ok s \<Longrightarrow> r \<in> set (inodes s) \<Longrightarrow> get_inode_by_id s (in_id r) = Some r"
  by (simp add: get_inode_by_id_def inode_by_id)

lemma get_inode_by_id_Some: "get_inode_by_id s i = Some r \<Longrightarrow> r \<in> set (inodes s) \<and> in_id r = i"
  unfolding get_inode_by_id_def by (drule fetch_optional_in) simp

lemma get_inode_by_path_Some:
  "get_inode_by_path s par nm = Some r \<Longrightarrow>
     r \<in> set (inodes s) \<and> in_parent_id r = par \<and> in_name r = nm \<and> live_inode r"
  unfolding get_inode_by_path_def by (drule fetch_optional_in) simp

lemma get_inode_by_path_None:
  "get_inode_by_path s par nm = None \<longleftrightarrow>
     (\<forall>r \<in> set (inodes s). in_parent_id r = par \<longrightarrow> in_name r = nm \<longrightarrow> \<not> live_inode r)"
  by (auto simp: get_inode_by_path_def filter_empty_conv)

lemma live_inode_unique:
  assumes s: "schema_ok s" and r: "r \<in> set (inodes s)" "live_inode r"
    and q: "q \<in> set (inodes s)" "live_inode q" and eq: "in_parent_id q = in_parent_id r" "in_name q = in_name r"
  shows "q = r"
proof -
  have "distinct (map live_key (filter live_inode (inodes s)))"
    using inodes_okD [OF s] by (simp add: inodes_ok_def)
  moreover have "live_key q = live_key r" using eq by (simp add: live_key_def)
  ultimately show ?thesis using r q distinct_map_key [of live_key "filter live_inode (inodes s)" q r] by simp
qed

lemma get_inode_by_path_in:
  assumes "schema_ok s" and "r \<in> set (inodes s)" and "live_inode r"
  shows "get_inode_by_path s (in_parent_id r) (in_name r) = Some r"
proof (cases "get_inode_by_path s (in_parent_id r) (in_name r)")
  case None
  with assms(2,3) show ?thesis by (auto simp: get_inode_by_path_None)
next
  case (Some q)
  from get_inode_by_path_Some [OF this] live_inode_unique [OF assms, of q] Some show ?thesis by simp
qed

lemma free_name_taken:
  assumes "free_name s par orig k nm = Some final"
  shows "get_inode_by_path s par final = None"
  by (rule free_name.raw_induct [where P = "\<lambda>s par orig k nm final. get_inode_by_path s par final = None",
        OF _ assms]) (auto split: if_splits)

lemma restored_name_inject:
  assumes "restored_name orig m = restored_name orig n" and "2 \<le> m" and "2 \<le> n"
  shows "m = n"
proof -
  obtain stem ext where "(case rsplit_once (CHR ''.'') orig of
        Some (st, e) \<Rightarrow> if st \<noteq> [] \<and> e \<noteq> [] then (st, ''.'' @ e) else (orig, [])
      | None \<Rightarrow> (orig, [])) = (stem, ext)" by fastforce
  with assms have "dec_nat m = dec_nat n" by (simp add: restored_name_def)
  then show ?thesis by (simp add: dec_nat_inject)
qed

lemma free_name_by:
  "get_inode_by_path s par (restored_name orig m) = None \<Longrightarrow> k \<le> m \<Longrightarrow>
     \<exists>final. free_name s par orig k nm = Some final"
proof (induction "m - k" arbitrary: k nm)
  case 0
  then have "m = k" by simp
  with 0 have "free_name s par orig (k + 1) (restored_name orig k) = Some (restored_name orig k)"
    by (subst free_name.simps) simp
  then show ?case by (subst free_name.simps) simp
next
  case (Suc d)
  then have "\<exists>final. free_name s par orig (k + 1) (restored_name orig k) = Some final" by simp
  then show ?case by (subst free_name.simps) simp
qed

text \<open>Only finitely many names are taken, and the candidates are all different: the search ends.\<close>

lemma free_name_ends: "\<exists>final. free_name s par orig k nm = Some final"
proof -
  let ?taken = "in_name ` set (inodes s)"
  have "inj_on (restored_name orig) {max 2 k..}" using restored_name_inject by (auto simp: inj_on_def)
  then have "infinite (restored_name orig ` {max 2 k..})" by (simp add: finite_image_iff infinite_Ici)
  then have "\<not> restored_name orig ` {max 2 k..} \<subseteq> ?taken" using finite_subset by blast
  then obtain m where m: "m \<in> {max 2 k..}" "restored_name orig m \<notin> ?taken" by blast
  then have "k \<le> m" by simp
  from m(2) have "get_inode_by_path s par (restored_name orig m) = None"
    unfolding get_inode_by_path_None by (metis imageI)
  from free_name_by [OF this \<open>k \<le> m\<close>] show ?thesis .
qed

lemma soft_delete_row:
  assumes s: "schema_ok s" and r: "r \<in> set (inodes s)" "live_inode r" "in_kind r = ''FILE''"
  shows "soft_delete_inode s (in_id r) now =
    (True, s\<lparr>inodes := update_where (\<lambda>x. in_id x = in_id r) (\<lambda>x. x\<lparr>in_deleted_at := Some now\<rparr>) (inodes s)\<rparr>)"
proof -
  have same: "in_id x = in_id r \<and> in_kind x = ''FILE'' \<and> live_inode x \<longleftrightarrow> in_id x = in_id r"
    if "x \<in> set (inodes s)" for x
  proof -
    have "in_id x = in_id r \<Longrightarrow> x = r"
      using inodes_okD [OF s] distinct_map_key [of in_id "inodes s" x r] that r(1) by (simp add: inodes_ok_def)
    with r show ?thesis by blast
  qed
  then have "update_where (\<lambda>x. in_id x = in_id r \<and> in_kind x = ''FILE'' \<and> live_inode x) f (inodes s) =
      update_where (\<lambda>x. in_id x = in_id r) f (inodes s)" for f
    unfolding update_where_def by (intro map_cong) simp_all
  moreover have "0 < rows_affected (\<lambda>x. in_id x = in_id r \<and> in_kind x = ''FILE'' \<and> live_inode x) (inodes s)"
    using r by (auto simp: rows_affected_def filter_empty_conv)
  ultimately show ?thesis by (simp add: soft_delete_inode_def)
qed

lemma soft_delete_undo:
  assumes s: "schema_ok s" and r: "r \<in> set (inodes s)" and live: "live_inode r" and kd: "in_kind r = ''FILE''"
  shows "\<exists>s1. soft_delete_inode s (in_id r) now = (True, s1) \<and>
    get_inode_by_path s1 (in_parent_id r) (in_name r) = None \<and>
    file_revisions s1 = file_revisions s \<and> chunk_refs s1 = chunk_refs s \<and>
    fst (soft_delete_inode s1 (in_id r) now') = False \<and>
    restore_soft_deleted_inode s1 (in_id r) = Some (Inr (in_name r, s))"
proof -
  let ?del = "\<lambda>x. x\<lparr>in_deleted_at := Some now\<rparr>"
  let ?s1 = "s\<lparr>inodes := update_where (\<lambda>x. in_id x = in_id r) ?del (inodes s)\<rparr>"
  note row = soft_delete_row [OF s r live kd]
  have s1: "schema_ok ?s1" using schema_ok_soft_delete [OF s, of "in_id r" now] by (simp add: row)
  have r1: "?del r \<in> set (inodes ?s1)" using r by (auto simp: set_update_where)
  have uniq: "x = r" if "x \<in> set (inodes s)" "in_id x = in_id r" for x
    using inodes_okD [OF s] distinct_map_key [of in_id "inodes s" x r] that r by (simp add: inodes_ok_def)
  have gone: "get_inode_by_path ?s1 (in_parent_id r) (in_name r) = None"
    unfolding get_inode_by_path_None
  proof (intro ballI impI)
    fix x assume x: "x \<in> set (inodes ?s1)" "in_parent_id x = in_parent_id r" "in_name x = in_name r"
    then consider y where "x = ?del y" | "x \<in> set (inodes s)" "in_id x \<noteq> in_id r"
      by (auto simp: set_update_where)
    then show "\<not> live_inode x"
      using live_inode_unique [OF s r live, of x] x(2,3) by cases (auto simp: live_inode_def)
  qed
  have "\<not> (in_id x = in_id r \<and> in_kind x = ''FILE'' \<and> live_inode x)" if "x \<in> set (inodes ?s1)" for x
    using that by (auto simp: set_update_where live_inode_def)
  then have again: "fst (soft_delete_inode ?s1 (in_id r) now') = False"
    by (simp add: soft_delete_inode_def Let_def rows_affected_0)
  have name: "free_name ?s1 (in_parent_id r) (in_name r) 1 (in_name r) = Some (in_name r)"
    by (subst free_name.simps) (simp add: gone)
  have "get_inode_by_id ?s1 (in_id r) = Some (?del r)" using get_inode_by_id_in [OF s1 r1] by simp
  moreover have "\<not> list_ex (\<lambda>x. in_id x \<noteq> in_id r \<and> in_parent_id x = in_parent_id r \<and>
      in_parent_id r \<noteq> None \<and> in_name x = in_name r) (inodes ?s1)"
  proof -
    have d: "distinct (map inode_key (filter (\<lambda>x. in_parent_id x \<noteq> None) (inodes ?s1)))"
      using inodes_okD [OF s1] by (simp only: inodes_ok_def)
    have "x = ?del r" if "x \<in> set (inodes ?s1)" "in_parent_id x = in_parent_id r" "in_parent_id r \<noteq> None"
      "in_name x = in_name r" for x
      using distinct_map_key [OF d, of x "?del r"] that r1 by (simp add: inode_key_def)
    then show ?thesis by (fastforce simp: list_ex_iff)
  qed
  moreover have "update_where (\<lambda>x. in_id x = in_id r) (\<lambda>x. x\<lparr>in_deleted_at := None, in_name := in_name r\<rparr>)
      (inodes ?s1) = inodes s"
  proof -
    have same: "r\<lparr>in_deleted_at := None, in_name := in_name r\<rparr> = r"
      using live by (cases r) (simp add: live_inode_def)
    have "in_id (?del x) = in_id r \<and> (?del x)\<lparr>in_deleted_at := None, in_name := in_name r\<rparr> = x"
      if "x \<in> set (inodes s)" "in_id x = in_id r" for x
      using uniq [OF that] same by simp
    then have "update_where (\<lambda>x. in_id x = in_id r) (\<lambda>x. x\<lparr>in_deleted_at := None, in_name := in_name r\<rparr>)
        (update_where (\<lambda>x. in_id x = in_id r) ?del (inodes s)) = inodes s"
      by (rule update_where_undo)
    then show ?thesis by simp
  qed
  ultimately have "restore_soft_deleted_inode ?s1 (in_id r) = Some (Inr (in_name r, s))"
    using name by (simp add: restore_soft_deleted_inode_def)
  with row gone again show ?thesis by simp
qed

lemma restore_finds_name:
  assumes s: "schema_ok s" and r: "r \<in> set (inodes s)"
  shows "\<exists>res. restore_soft_deleted_inode s (in_id r) = Some res \<and>
    (\<forall>final s2. res = Inr (final, s2) \<longrightarrow> get_inode_by_path s (in_parent_id r) final = None \<and>
      (\<exists>r2. get_inode_by_path s2 (in_parent_id r) final = Some r2 \<and> in_id r2 = in_id r))"
proof -
  obtain nm where nm: "free_name s (in_parent_id r) (in_name r) 1 (in_name r) = Some nm"
    using free_name_ends by blast
  note free = free_name_taken [OF nm]
  let ?f = "\<lambda>x. x\<lparr>in_deleted_at := None, in_name := nm\<rparr>"
  let ?s2 = "s\<lparr>inodes := update_where (\<lambda>x. in_id x = in_id r) ?f (inodes s)\<rparr>"
  have "get_inode_by_path ?s2 (in_parent_id r) nm \<noteq> None"
  proof
    assume "get_inode_by_path ?s2 (in_parent_id r) nm = None"
    moreover have "?f r \<in> set (inodes ?s2)" using r by (auto simp: set_update_where)
    ultimately show False by (auto simp: get_inode_by_path_None live_inode_def)
  qed
  then obtain r2 where r2: "get_inode_by_path ?s2 (in_parent_id r) nm = Some r2" by auto
  note p = get_inode_by_path_Some [OF r2]
  have "in_id r2 = in_id r"
  proof (rule ccontr)
    assume "in_id r2 \<noteq> in_id r"
    from p consider y where "r2 = ?f y" "in_id y = in_id r" | "r2 \<in> set (inodes s)"
      by (auto simp: set_update_where)
    then show False
      using \<open>in_id r2 \<noteq> in_id r\<close> p free by cases (auto simp: get_inode_by_path_None)
  qed
  with r2 free show ?thesis
    using get_inode_by_id_in [OF s r] nm by (simp add: restore_soft_deleted_inode_def)
qed

text \<open>
  C29: soft deletion can be undone. Deleting a live file succeeds once; its path no longer resolves and a
  second deletion changes nothing, but its revisions and chunk references stay, and restoring it gives
  back the database as it was. In general a restore finds a free name and ends; the file is then found
  under the name it returns.
\<close>

theorem soft_delete_restore:
  assumes s: "schema_ok s" and r: "r \<in> set (inodes s)"
  shows "(live_inode r \<longrightarrow> in_kind r = ''FILE'' \<longrightarrow>
      (\<exists>s1. soft_delete_inode s (in_id r) now = (True, s1) \<and>
        get_inode_by_path s1 (in_parent_id r) (in_name r) = None \<and>
        file_revisions s1 = file_revisions s \<and> chunk_refs s1 = chunk_refs s \<and>
        fst (soft_delete_inode s1 (in_id r) now') = False \<and>
        restore_soft_deleted_inode s1 (in_id r) = Some (Inr (in_name r, s)))) \<and>
    (\<exists>res. restore_soft_deleted_inode s (in_id r) = Some res \<and>
      (\<forall>final s2. res = Inr (final, s2) \<longrightarrow> get_inode_by_path s (in_parent_id r) final = None \<and>
        (\<exists>r2. get_inode_by_path s2 (in_parent_id r) final = Some r2 \<and> in_id r2 = in_id r)))"
  using soft_delete_undo [OF assms] restore_finds_name [OF assms] by blast

definition dir_inode :: InodeRecord where
  "dir_inode = \<lparr>in_id = 1, in_parent_id = None, in_name = ''docs'', in_kind = ''DIR'', in_size = 0,
     in_mode = None, in_mtime = None, in_deleted_at = None\<rparr>"

definition file_inode :: InodeRecord where
  "file_inode = \<lparr>in_id = 2, in_parent_id = Some 1, in_name = ''a.txt'', in_kind = ''FILE'', in_size = 5,
     in_mode = None, in_mtime = None, in_deleted_at = None\<rparr>"

definition tree_db :: db where
  "tree_db = empty_db\<lparr>inodes := [dir_inode, file_inode], inodes_seq := 2\<rparr>"

lemma tree_db_ok: "schema_ok tree_db"
  by (simp add: tree_db_def empty_db_def schema_ok_def inodes_ok_def dir_inode_def file_inode_def
      refers_to_def live_inode_def inode_key_def live_key_def)

theorem soft_delete_restore_witness:
  "\<exists>s1. soft_delete_inode tree_db 2 7 = (True, s1) \<and>
     restore_soft_deleted_inode s1 2 = Some (Inr (''a.txt'', tree_db))"
proof -
  have "file_inode \<in> set (inodes tree_db)" by (simp add: tree_db_def)
  from soft_delete_restore [OF tree_db_ok this, of 7 8]
  show ?thesis by (auto simp: file_inode_def live_inode_def)
qed

text \<open>
  The name of a deleted file stays taken, except at the root. After a file in a directory has been
  deleted, its path does not resolve, but creating or upserting a file of the same name in that directory is
  refused by \<open>UNIQUE(parent_id, name)\<close>, which the deleted row still counts for; at the root both succeed.
\<close>

theorem deleted_name_stays_taken:
  assumes s: "schema_ok s" and r: "r \<in> set (inodes s)" "\<not> live_inode r"
    and free: "get_inode_by_path s (in_parent_id r) (in_name r) = None"
  shows "(in_parent_id r \<noteq> None \<longrightarrow>
      create_inode s (in_parent_id r) (in_name r) ''FILE'' n = Inl UniqueViolation \<and>
      upsert_inode s (in_parent_id r) (in_name r) ''FILE'' n mt = Inl UniqueViolation) \<and>
    (in_parent_id r = None \<longrightarrow>
      (\<exists>new s'. create_inode s None (in_name r) ''FILE'' n = Inr (new, s')) \<and>
      (\<exists>new s'. upsert_inode s None (in_name r) ''FILE'' n mt = Inr (new, s')))"
proof (intro conjI impI)
  assume "in_parent_id r \<noteq> None"
  then have taken: "inode_name_taken s (in_parent_id r) (in_name r)"
    using r(1) by (auto simp: inode_name_taken_def list_ex_iff)
  show "create_inode s (in_parent_id r) (in_name r) ''FILE'' n = Inl UniqueViolation"
    and "upsert_inode s (in_parent_id r) (in_name r) ''FILE'' n mt = Inl UniqueViolation"
    using taken free
    by (simp_all add: create_inode_def upsert_inode_def validate_inode_kind_def insert_inode_def Let_def)
next
  assume root: "in_parent_id r = None"
  have "list_all (\<lambda>x. 0 < in_id x \<and> in_id x \<le> inodes_seq s) (inodes s)"
    "list_all (\<lambda>x. refers_to (map in_id (inodes s)) (in_parent_id x)) (inodes s)"
    using inodes_okD [OF s] by (simp_all add: inodes_ok_def)
  then have "in_parent_id x \<noteq> Some (- 1)" if "x \<in> set (inodes s)" for x
    using that by (force simp: list_all_iff refers_to_def)
  then have "coalesce (in_parent_id x) (- 1) \<noteq> - 1 \<or> in_parent_id x = None" if "x \<in> set (inodes s)" for x
    using that by (cases "in_parent_id x") auto
  then have free': "\<not> inode_name_taken s None (in_name r)"
    using free unfolding root get_inode_by_path_None by (auto simp: inode_name_taken_def list_ex_iff)
  then show "\<exists>new s'. create_inode s None (in_name r) ''FILE'' n = Inr (new, s')"
    and "\<exists>new s'. upsert_inode s None (in_name r) ''FILE'' n mt = Inr (new, s')"
    using free root
    by (simp_all add: create_inode_def upsert_inode_def validate_inode_kind_def insert_inode_def refers_to_def Let_def)
qed

theorem deleted_name_stays_taken_witness:
  "create_inode (snd (soft_delete_inode tree_db 2 7)) (Some 1) ''a.txt'' ''FILE'' 9 = Inl UniqueViolation \<and>
   get_inode_by_path (snd (soft_delete_inode tree_db 2 7)) (Some 1) ''a.txt'' = None"
proof -
  let ?s = "snd (soft_delete_inode tree_db 2 7)"
  have ok: "schema_ok ?s" by (rule schema_ok_soft_delete [OF tree_db_ok])
  have rows: "inodes ?s = [dir_inode, file_inode\<lparr>in_deleted_at := Some 7\<rparr>]"
    by (simp add: soft_delete_inode_def tree_db_def dir_inode_def file_inode_def live_inode_def Let_def)
  have none: "get_inode_by_path ?s (Some 1) ''a.txt'' = None"
    by (simp add: get_inode_by_path_def rows dir_inode_def live_inode_def)
  have "file_inode\<lparr>in_deleted_at := Some 7\<rparr> \<in> set (inodes ?s)" by (simp add: rows)
  from deleted_name_stays_taken [OF ok this, of 9 None] none
  show ?thesis by (simp add: file_inode_def live_inode_def)
qed

section \<open>Paths\<close>

text \<open>
  What paths rest on: a directory is created before what is in it, it is not deleted, and a name is not
  empty, has no slash and neither starts nor ends with white space.
\<close>

definition parents_older_inodes :: "db \<Rightarrow> bool" where
  "parents_older_inodes s \<longleftrightarrow>
     list_all (\<lambda>r. case in_parent_id r of None \<Rightarrow> True | Some p \<Rightarrow> p < in_id r) (inodes s)"

definition parents_live :: "db \<Rightarrow> bool" where
  "parents_live s \<longleftrightarrow>
     list_all (\<lambda>r. list_all (\<lambda>q. in_parent_id r = Some (in_id q) \<longrightarrow> live_inode q) (inodes s)) (inodes s)"

definition name_ok :: "string \<Rightarrow> bool" where
  "name_ok n \<longleftrightarrow> n \<noteq> [] \<and> CHR ''/'' \<notin> set n"

definition names_ok :: "db \<Rightarrow> bool" where
  "names_ok s \<longleftrightarrow> list_all (\<lambda>r. name_ok (in_name r)) (inodes s)"

lemma inode_parent:
  assumes s: "schema_ok s" and old: "parents_older_inodes s" and r: "r \<in> set (inodes s)" "in_parent_id r = Some p"
  shows "\<exists>q \<in> set (inodes s). in_id q = p \<and> get_inode_by_id s p = Some q \<and> nat (in_id q) < nat (in_id r)"
proof -
  have "list_all (\<lambda>r. refers_to (map in_id (inodes s)) (in_parent_id r)) (inodes s)"
    "list_all (\<lambda>r. 0 < in_id r \<and> in_id r \<le> inodes_seq s) (inodes s)"
    using inodes_okD [OF s] by (simp_all add: inodes_ok_def)
  then have "refers_to (map in_id (inodes s)) (in_parent_id r)" and "0 < in_id r"
    using r(1) by (simp_all add: list_all_iff)
  with r(2) obtain q where q: "q \<in> set (inodes s)" "in_id q = p" and "0 < in_id r"
    by (auto simp: refers_to_def)
  moreover have "p < in_id r" using old r by (auto simp: parents_older_inodes_def list_all_iff)
  ultimately show ?thesis using get_inode_by_id_in [OF s q(1)] by auto
qed

lemma inode_names_ends:
  assumes s: "schema_ok s" and old: "parents_older_inodes s" and r: "r \<in> set (inodes s)"
  shows "\<exists>ns. (\<forall>acc. inode_names s (Some r) acc = Some (ns @ acc)) \<and> ns \<noteq> [] \<and>
    set ns \<subseteq> in_name ` set (inodes s) \<and>
    (parents_live s \<longrightarrow> live_inode r \<longrightarrow>
      (\<forall>rest. resolve_segments s None (ns @ rest) = resolve_segments s (Some (in_id r)) rest))"
  using r
proof (induction "nat (in_id r)" arbitrary: r rule: less_induct)
  case less
  show ?case
  proof (cases "in_parent_id r")
    case None
    have "inode_names s (Some r) acc = Some ([in_name r] @ acc)" for acc
      by (subst inode_names.simps, simp add: None, subst inode_names.simps, simp)
    moreover have "live_inode r \<Longrightarrow> resolve_segments s None ([in_name r] @ rest) =
        resolve_segments s (Some (in_id r)) rest" for rest
      using get_inode_by_path_in [OF s less.prems] None by simp
    ultimately show ?thesis using less.prems by (intro exI [of _ "[in_name r]"]) simp
  next
    case (Some p)
    from inode_parent [OF s old less.prems Some] obtain q where
      q: "q \<in> set (inodes s)" "in_id q = p" "get_inode_by_id s p = Some q" "nat (in_id q) < nat (in_id r)" by blast
    from less.hyps [OF q(4,1)] obtain ns where ns: "\<And>acc. inode_names s (Some q) acc = Some (ns @ acc)" "ns \<noteq> []"
      "set ns \<subseteq> in_name ` set (inodes s)"
      "\<And>rest. parents_live s \<Longrightarrow> live_inode q \<Longrightarrow>
        resolve_segments s None (ns @ rest) = resolve_segments s (Some (in_id q)) rest" by blast
    have "inode_names s (Some r) acc = Some ((ns @ [in_name r]) @ acc)" for acc
      by (subst inode_names.simps) (simp add: Some q ns(1))
    moreover have "resolve_segments s None ((ns @ [in_name r]) @ rest) = resolve_segments s (Some (in_id r)) rest"
      if "parents_live s" "live_inode r" for rest
    proof -
      have "live_inode q" using that(1) less.prems q(1,2) Some by (auto simp: parents_live_def list_all_iff)
      then show ?thesis using ns(4) [OF that(1)] get_inode_by_path_in [OF s less.prems that(2)] Some q(2) by simp
    qed
    ultimately show ?thesis using less.prems ns(2,3) by (intro exI [of _ "ns @ [in_name r]"]) simp
  qed
qed

lemma join_names:
  assumes "ns \<noteq> []" and "\<forall>n \<in> set ns. name_ok n"
  shows "join_with (CHR ''/'') ns \<noteq> []" and "hd (join_with (CHR ''/'') ns) \<noteq> CHR ''/''"
proof -
  have "join_with (CHR ''/'') ns \<noteq> [] \<and> hd (join_with (CHR ''/'') ns) \<noteq> CHR ''/''"
    using assms
  proof (induction ns)
    case (Cons n ns)
    then show ?case
      by (cases "ns = []") (auto simp: name_ok_def join_with_Cons dest: hd_in_set)
  qed simp
  then show "join_with (CHR ''/'') ns \<noteq> []" "hd (join_with (CHR ''/'') ns) \<noteq> CHR ''/''" by simp_all
qed

lemma str_trim_twice: "str_trim (str_trim s) = str_trim s"
proof (cases "str_trim s = []")
  case True
  then show ?thesis by (simp only: True) (simp add: str_trim_def trim_end_where_def)
next
  case False
  let ?d = "dropWhile is_space s" and ?t = "dropWhile is_space (rev (dropWhile is_space s))"
  have t: "str_trim s = rev ?t" by (simp add: str_trim_def trim_end_where_def)
  with False have ne: "?t \<noteq> []" by simp
  then have last: "\<not> is_space (hd ?t)" by (rule hd_dropWhile)
  have "?d \<noteq> []"
  proof
    assume "?d = []"
    then have "?t = []" by (simp only: rev.simps dropWhile.simps)
    with ne show False ..
  qed
  then have first: "\<not> is_space (hd ?d)" by (rule hd_dropWhile)
  have "rev ?d = takeWhile is_space (rev ?d) @ ?t" by simp
  then have "last (rev ?d) = last ?t" using ne by (metis last_appendR)
  then have "last ?t = hd ?d" using \<open>?d \<noteq> []\<close> by (simp add: last_rev)
  with t ne last first show ?thesis by (intro str_trim_id) (simp_all add: hd_rev last_rev)
qed

text \<open>
  C28: every inode of a well-founded tree (a schema-conforming one whose parents have smaller ids) has a path: the loop over
  the parents ends. When the names are not empty and have no slash and no live inode is below a deleted one, the path of a
  live inode leads back to it, so no two live inodes have the same such path; this holds for every path without white space
  at its ends. The resolution trims its argument: a path with white space at an end is resolved as the trimmed one, so an
  inode whose path begins or ends with white space is not found by its own path.
\<close>

theorem inode_path_roundtrip:
  assumes s: "schema_ok s" and old: "parents_older_inodes s" and r: "r \<in> set (inodes s)"
  shows "\<exists>path. get_inode_path s (in_id r) = Some (Some path) \<and>
    (names_ok s \<longrightarrow> parents_live s \<longrightarrow> live_inode r \<longrightarrow> str_trim path = path \<longrightarrow> resolve_path s path = Some (in_id r)) \<and>
    resolve_path s path = resolve_path s (str_trim path)"
proof -
  from inode_names_ends [OF assms] obtain ns where ns: "\<And>acc. inode_names s (Some r) acc = Some (ns @ acc)"
    "ns \<noteq> []" "set ns \<subseteq> in_name ` set (inodes s)"
    "\<And>rest. parents_live s \<Longrightarrow> live_inode r \<Longrightarrow>
      resolve_segments s None (ns @ rest) = resolve_segments s (Some (in_id r)) rest" by blast
  let ?p = "join_with (CHR ''/'') ns"
  have "get_inode_path s (in_id r) = Some (Some ?p)"
    using get_inode_by_id_in [OF s r] ns(1) [of "[]"] ns(2) by (simp add: get_inode_path_def)
  moreover have "resolve_path s ?p = Some (in_id r)" if h: "names_ok s" "parents_live s" "live_inode r" "str_trim ?p = ?p"
  proof -
    have ok: "\<forall>n \<in> set ns. name_ok n" using ns(3) h(1) by (auto simp: names_ok_def list_all_iff)
    note j = join_names [OF ns(2) ok]
    have "split_on (CHR ''/'') ?p = ns" using ok by (intro split_on_join [OF ns(2)]) (auto simp: name_ok_def)
    moreover have "filter (\<lambda>seg. seg \<noteq> []) ns = ns" using ok by (auto simp: name_ok_def filter_id_conv)
    moreover have "?p \<noteq> ''/''" using j by auto
    ultimately show ?thesis using j(1) ns(4) [OF h(2,3), of "[]"] unfolding resolve_path_def Let_def h(4) by simp
  qed
  moreover have "resolve_path s ?p = resolve_path s (str_trim ?p)"
    by (simp add: resolve_path_def str_trim_twice)
  ultimately show ?thesis by blast
qed

text \<open>An inode at the root whose name begins with a space has a path that is not resolved.\<close>

definition spaced_db :: db where
  "spaced_db = empty_db\<lparr>inodes := [dir_inode\<lparr>in_name := '' docs''\<rparr>], inodes_seq := 1\<rparr>"

lemma spaced_path_unresolved:
  "get_inode_path spaced_db 1 = Some (Some '' docs'')" "get_inode_by_path spaced_db None '' docs'' \<noteq> None"
  "resolve_path spaced_db '' docs'' = None"
proof -
  have "inode_names spaced_db (get_inode_by_id spaced_db 1) [] = Some ['' docs'']"
    by (subst inode_names.simps, simp add: spaced_db_def get_inode_by_id_def dir_inode_def, subst inode_names.simps, simp)
  then show "get_inode_path spaced_db 1 = Some (Some '' docs'')" by (simp add: get_inode_path_def)
  show "get_inode_by_path spaced_db None '' docs'' \<noteq> None" by code_simp
  show "resolve_path spaced_db '' docs'' = None" by code_simp
qed

theorem inode_path_roundtrip_witness:
  "get_inode_path tree_db 2 = Some (Some ''docs/a.txt'') \<and> resolve_path tree_db ''docs/a.txt'' = Some 2"
proof -
  have r: "file_inode \<in> set (inodes tree_db)" and i: "in_id file_inode = 2"
    by (simp_all add: tree_db_def file_inode_def)
  have h: "parents_older_inodes tree_db" "names_ok tree_db" "parents_live tree_db" "live_inode file_inode"
    by (simp_all add: tree_db_def dir_inode_def file_inode_def parents_older_inodes_def names_ok_def name_ok_def
        parents_live_def live_inode_def is_space_def)
  have "inode_names tree_db (get_inode_by_id tree_db 2) [] = Some [''docs'', ''a.txt'']"
    by (subst inode_names.simps, simp add: tree_db_def get_inode_by_id_def dir_inode_def file_inode_def,
        subst inode_names.simps, simp, subst inode_names.simps, simp)
  then have "get_inode_path tree_db 2 = Some (Some ''docs/a.txt'')" by (simp add: get_inode_path_def)
  moreover have "str_trim ''docs/a.txt'' = ''docs/a.txt''" by code_simp
  ultimately show ?thesis using inode_path_roundtrip [OF tree_db_ok h(1) r] h i by auto
qed

section \<open>Policies and storage modes\<close>

lemma max_by_key_None: "max_by_key k xs = None \<longleftrightarrow> xs = []"
  by (cases xs) (auto split: option.splits)

lemma max_by_key_Some: "max_by_key k xs = Some x \<Longrightarrow> x \<in> set xs \<and> (\<forall>y \<in> set xs. k y \<le> k x)"
proof (induction xs arbitrary: x)
  case (Cons a xs)
  then show ?case
    by (cases "max_by_key k xs") (fastforce simp: max_by_key_None split: if_splits)+
qed simp

lemma strip_prefix_Some: "strip_prefix p s = Some rest \<longleftrightarrow> s = p @ rest"
  by (auto simp: strip_prefix_def) (metis append_take_drop_id)

lemma path_matches_iff:
  "path_matches_policy path pre \<longleftrightarrow> normalize_policy_path pre = ''/'' \<or>
     (\<exists>vs. split_on (CHR ''/'') (normalize_policy_path path) = split_on (CHR ''/'') (normalize_policy_path pre) @ vs)"
proof -
  let ?p = "normalize_policy_path path" and ?q = "normalize_policy_path pre"
  have "(case strip_prefix ?q ?p of None \<Rightarrow> False | Some suffix \<Rightarrow> suffix \<noteq> [] \<and> hd suffix = CHR ''/'') \<longleftrightarrow>
      (\<exists>rest. ?p = ?q @ CHR ''/'' # rest)"
  proof (cases "strip_prefix ?q ?p")
    case None
    then show ?thesis by (auto simp: strip_prefix_def)
  next
    case (Some suffix)
    then have "?p = ?q @ suffix" by (simp add: strip_prefix_Some)
    with Some show ?thesis by (cases suffix) simp_all
  qed
  then show ?thesis by (auto simp: path_matches_policy_def Let_def split_on_prefix_iff)
qed

lemma set_list_sync_policies: "set (list_sync_policies s) = set (sync_policies s)"
  by (simp add: list_sync_policies_def)

text \<open>
  C31: the policy of a path is the most specific one that covers it. A policy covers a path when its prefix is
  the root or the components of the prefix are the first components of the path, never part of a
  component; of these the one with the longest prefix is chosen, and there is none exactly when no policy covers
  the path.
\<close>

theorem sync_policy_most_specific:
  "(find_sync_policy_for_path s path = None \<longleftrightarrow>
      \<not> (\<exists>p \<in> set (sync_policies s). path_matches_policy (normalize_policy_path path) (sp_path_prefix p))) \<and>
   (find_sync_policy_for_path s path = Some p \<longrightarrow>
      p \<in> set (sync_policies s) \<and> path_matches_policy (normalize_policy_path path) (sp_path_prefix p) \<and>
      (\<forall>q \<in> set (sync_policies s). path_matches_policy (normalize_policy_path path) (sp_path_prefix q) \<longrightarrow>
         length (sp_path_prefix q) \<le> length (sp_path_prefix p))) \<and>
   (path_matches_policy path pre \<longleftrightarrow> normalize_policy_path pre = ''/'' \<or>
      (\<exists>vs. split_on (CHR ''/'') (normalize_policy_path path) = split_on (CHR ''/'') (normalize_policy_path pre) @ vs))"
proof (intro conjI impI path_matches_iff)
  show "find_sync_policy_for_path s path = None \<longleftrightarrow>
      \<not> (\<exists>p \<in> set (sync_policies s). path_matches_policy (normalize_policy_path path) (sp_path_prefix p))"
    by (auto simp: find_sync_policy_for_path_def max_by_key_None filter_empty_conv set_list_sync_policies)
next
  assume "find_sync_policy_for_path s path = Some p"
  from max_by_key_Some [OF this [unfolded find_sync_policy_for_path_def]]
  show "p \<in> set (sync_policies s)" "path_matches_policy (normalize_policy_path path) (sp_path_prefix p)"
    "\<forall>q \<in> set (sync_policies s). path_matches_policy (normalize_policy_path path) (sp_path_prefix q) \<longrightarrow>
       length (sp_path_prefix q) \<le> length (sp_path_prefix p)"
    by (simp_all add: set_list_sync_policies)
qed

definition policy_db :: db where
  "policy_db = snd (set_sync_policy_type_for_path (snd (upsert_sync_policy tree_db ''/docs'' True True))
     ''/docs/tmp'' ''LOCAL'')"

theorem sync_policy_most_specific_witness:
  "map_option sp_policy_type (find_sync_policy_for_path policy_db ''/docs/tmp/x'') = Some ''LOCAL'' \<and>
   map_option sp_policy_type (find_sync_policy_for_path policy_db ''/docs/tmpx'') = Some ''PARANOIA'' \<and>
   find_sync_policy_for_path policy_db ''/pictures'' = None"
proof -
  let ?p1 = "\<lparr>sp_policy_id = 1, sp_path_prefix = ''/docs'', sp_require_healthy = 1, sp_enable_versioning = 1,
    sp_policy_type = ''PARANOIA''\<rparr>"
  let ?p2 = "\<lparr>sp_policy_id = 2, sp_path_prefix = ''/docs/tmp'', sp_require_healthy = 0, sp_enable_versioning = 1,
    sp_policy_type = ''LOCAL''\<rparr>"
  have ps: "set (sync_policies policy_db) = {?p1, ?p2}"
    by (simp add: policy_db_def upsert_sync_policy_def set_sync_policy_type_for_path_def policy_row_def
        tree_db_def empty_db_def)
  have m: "path_matches_policy (normalize_policy_path ''/docs/tmp/x'') ''/docs/tmp''"
    "\<not> path_matches_policy (normalize_policy_path ''/docs/tmpx'') ''/docs/tmp''"
    "path_matches_policy (normalize_policy_path ''/docs/tmpx'') ''/docs''"
    "\<not> path_matches_policy (normalize_policy_path ''/pictures'') ''/docs/tmp''"
    "\<not> path_matches_policy (normalize_policy_path ''/pictures'') ''/docs''" by code_simp+
  note best = sync_policy_most_specific [of policy_db _ _ "[]"]
  obtain p where p: "find_sync_policy_for_path policy_db ''/docs/tmp/x'' = Some p"
    using best [of "''/docs/tmp/x''" ?p1] m by (auto simp: ps)
  have "p = ?p2" using best [of "''/docs/tmp/x''" p] p m by (auto simp: ps)
  moreover obtain q where q: "find_sync_policy_for_path policy_db ''/docs/tmpx'' = Some q"
    using best [of "''/docs/tmpx''" ?p1] m by (auto simp: ps)
  have "q = ?p1" using best [of "''/docs/tmpx''" q] q m by (auto simp: ps)
  moreover have "find_sync_policy_for_path policy_db ''/pictures'' = None"
    using best [of "''/pictures''" ?p1] m by (simp add: ps)
  ultimately show ?thesis using p q by simp
qed

fun mode_rank :: "StorageMode \<Rightarrow> nat" where
  "mode_rank LocalOnly = 0"
| "mode_rank SingleReplica = 1"
| "mode_rank Ec2_1 = 2"

lemma desired_mode_loop_max:
  "(\<forall>i \<in> set is. get_storage_mode_for_inode s i \<noteq> None) \<Longrightarrow> desired \<noteq> Ec2_1 \<Longrightarrow>
     \<exists>m. desired_mode_loop s desired is = Some m \<and>
       (m = desired \<or> (\<exists>i \<in> set is. get_storage_mode_for_inode s i = Some m)) \<and> mode_rank desired \<le> mode_rank m \<and>
       (\<forall>i \<in> set is. \<forall>k. get_storage_mode_for_inode s i = Some k \<longrightarrow> mode_rank k \<le> mode_rank m)"
proof (induction "is" arbitrary: desired)
  case (Cons i "is")
  then obtain k where k: "get_storage_mode_for_inode s i = Some k" by auto
  show ?case
  proof (cases k)
    case Ec2_1
    have "mode_rank j \<le> 2" for j by (cases j) simp_all
    with k Ec2_1 show ?thesis by simp
  next
    case SingleReplica
    have "mode_rank desired \<le> 1" using Cons.prems(2) by (cases desired) simp_all
    moreover obtain m where "desired_mode_loop s SingleReplica is = Some m"
      "m = SingleReplica \<or> (\<exists>i \<in> set is. get_storage_mode_for_inode s i = Some m)" "1 \<le> mode_rank m"
      "\<forall>i \<in> set is. \<forall>k. get_storage_mode_for_inode s i = Some k \<longrightarrow> mode_rank k \<le> mode_rank m"
      using Cons.IH [of SingleReplica] Cons.prems(1) by auto
    ultimately show ?thesis using k SingleReplica by (intro exI [of _ m]) auto
  next
    case LocalOnly
    obtain m where "desired_mode_loop s desired is = Some m"
      "m = desired \<or> (\<exists>i \<in> set is. get_storage_mode_for_inode s i = Some m)" "mode_rank desired \<le> mode_rank m"
      "\<forall>i \<in> set is. \<forall>k. get_storage_mode_for_inode s i = Some k \<longrightarrow> mode_rank k \<le> mode_rank m"
      using Cons.IH [of desired] Cons.prems by auto
    then show ?thesis using k LocalOnly by (intro exI [of _ m]) auto
  qed
qed simp

lemma referencing_inode:
  assumes s: "schema_ok s" and "i \<in> set (get_referencing_inode_ids_for_pack s pid)"
  shows "\<exists>r \<in> set (inodes s). in_id r = i"
proof -
  have "list_all (\<lambda>r. fr_inode_id r \<in> set (map in_id (inodes s))) (file_revisions s)"
    using inodes_okD [OF s] by (simp add: inodes_ok_def)
  moreover have "i \<in> fr_inode_id ` set (file_revisions s)"
    using assms(2) by (auto simp: get_referencing_inode_ids_for_pack_def)
  ultimately have "i \<in> in_id ` set (inodes s)" by (auto simp: list_all_iff)
  then show ?thesis by blast
qed

lemma storage_mode_defined:
  assumes "schema_ok s" and "parents_older_inodes s" and "r \<in> set (inodes s)"
  shows "get_storage_mode_for_inode s (in_id r) \<noteq> None"
  using inode_names_ends [OF assms] get_inode_by_id_in [OF assms(1,3)]
  by (auto simp: get_storage_mode_for_inode_def get_inode_path_def)

text \<open>
  C30: the storage mode a pack should have is the strongest mode that any file it holds a chunk of asks for
  (erasure coding before a single replica before local only), so no file is stored with less redundancy than
  its policy says; a pack no file refers to is kept erasure coded.
\<close>

theorem desired_mode_strongest:
  assumes s: "schema_ok s" and old: "parents_older_inodes s"
  shows "\<exists>m. get_desired_storage_mode_for_pack s pid = Some m \<and>
    (if get_referencing_inode_ids_for_pack s pid = [] then m = Ec2_1
     else (\<exists>i \<in> set (get_referencing_inode_ids_for_pack s pid). get_storage_mode_for_inode s i = Some m)) \<and>
    (\<forall>i \<in> set (get_referencing_inode_ids_for_pack s pid).
       \<exists>k. get_storage_mode_for_inode s i = Some k \<and> mode_rank k \<le> mode_rank m)"
proof (cases "get_referencing_inode_ids_for_pack s pid = []")
  case True
  then show ?thesis by (simp add: get_desired_storage_mode_for_pack_def)
next
  case False
  let ?is = "get_referencing_inode_ids_for_pack s pid"
  have def: "\<forall>i \<in> set ?is. get_storage_mode_for_inode s i \<noteq> None"
    using referencing_inode [OF s] storage_mode_defined [OF s old] by blast
  from desired_mode_loop_max [OF def, of LocalOnly] obtain m where
    m: "desired_mode_loop s LocalOnly ?is = Some m"
      "m = LocalOnly \<or> (\<exists>i \<in> set ?is. get_storage_mode_for_inode s i = Some m)"
      "\<forall>i \<in> set ?is. \<forall>k. get_storage_mode_for_inode s i = Some k \<longrightarrow> mode_rank k \<le> mode_rank m" by auto
  have some: "\<exists>i \<in> set ?is. get_storage_mode_for_inode s i = Some m"
  proof (cases "m = LocalOnly")
    case True
    from False obtain i where i: "i \<in> set ?is" by (cases ?is) auto
    with def obtain k where k: "get_storage_mode_for_inode s i = Some k" by auto
    with m(3) i True have "mode_rank k \<le> 0" by auto
    with k i True show ?thesis by (cases k) auto
  qed (use m(2) in simp)
  have "\<forall>i \<in> set ?is. \<exists>k. get_storage_mode_for_inode s i = Some k \<and> mode_rank k \<le> mode_rank m"
    using def m(3) by blast
  with some m(1) False show ?thesis by (simp add: get_desired_storage_mode_for_pack_def)
qed

text \<open>A file under a \<open>STANDARD\<close> policy, with its only chunk in pack \<open>p1\<close>.\<close>

definition mode_db :: db where
  "mode_db = sample_db\<lparr>inodes := [sample_inode], inodes_seq := 1,
     sync_policies := [\<lparr>sp_policy_id = 1, sp_path_prefix = ''f.txt'', sp_require_healthy = 0,
       sp_enable_versioning = 1, sp_policy_type = ''STANDARD''\<rparr>], sync_policies_seq := 1,
     file_revisions := [sample_revision 1 None], file_revisions_seq := 1,
     chunk_refs := [\<lparr>cref_id = 1, cref_revision_id = 1, cref_chunk_id = [1], cref_file_offset = 0, cref_size = 10\<rparr>],
     chunk_refs_seq := 1,
     pack_locations := [\<lparr>pl_chunk_id = [1], pl_pack_id = ''p1'', pl_pack_offset = 0, pl_encrypted_size = 106\<rparr>]\<rparr>"

lemma mode_db_ok: "schema_ok mode_db" "parents_older_inodes mode_db"
  by (simp_all add: mode_db_def sample_db_def sample_pack_def empty_db_def schema_ok_def inodes_ok_def
      sample_inode_def sample_revision_def refers_to_def live_inode_def parents_older_inodes_def)

theorem desired_mode_strongest_witness:
  "get_referencing_inode_ids_for_pack mode_db ''p1'' = [1] \<and>
   get_desired_storage_mode_for_pack mode_db ''p1'' = Some SingleReplica \<and>
   get_desired_storage_mode_for_pack mode_db ''p9'' = Some Ec2_1"
proof -
  have refs: "get_referencing_inode_ids_for_pack mode_db ''p1'' = [1]"
    "get_referencing_inode_ids_for_pack mode_db ''p9'' = []"
    by (simp_all add: get_referencing_inode_ids_for_pack_def mode_db_def sample_revision_def)
  have "inode_names mode_db (get_inode_by_id mode_db 1) [] = Some [''f.txt'']"
    by (subst inode_names.simps, simp add: mode_db_def get_inode_by_id_def sample_inode_def,
        subst inode_names.simps, simp)
  then have "get_inode_path mode_db 1 = Some (Some ''f.txt'')" by (simp add: get_inode_path_def)
  moreover have "path_matches_policy (normalize_policy_path ''f.txt'') ''f.txt''" by code_simp
  ultimately have "get_storage_mode_for_inode mode_db 1 = Some SingleReplica"
    by (simp add: get_storage_mode_for_inode_def policy_type_of_path_def find_sync_policy_for_path_def
        list_sync_policies_def mode_db_def StorageMode_from_policy_type_def)
  with desired_mode_strongest [OF mode_db_ok, of "''p1''"] desired_mode_strongest [OF mode_db_ok, of "''p9''"] refs
  show ?thesis by simp
qed

end
