(* ===== verification/Accounts.thy ===== *)
theory Accounts
  imports Inodes
begin

text \<open>
  Users, devices, vault members, sessions, invite codes, the audit log, recovery keys, the local device
  identity and the vault record (\<^verbatim>\<open>db/users.rs\<close>, \<^verbatim>\<open>db/devices.rs\<close>, \<^verbatim>\<open>db/sessions.rs\<close>, \<^verbatim>\<open>db/invites.rs\<close>,
  \<^verbatim>\<open>db/audit.rs\<close>, \<^verbatim>\<open>db/recovery_keys.rs\<close>, \<^verbatim>\<open>db/device_identity.rs\<close>, \<^verbatim>\<open>db/oauth.rs\<close>, the vault record of
  \<^verbatim>\<open>db/vault_state.rs\<close>), and the role check of every guarded request (\<^verbatim>\<open>acl.rs\<close>). The tables live in the
  database of \<open>PackStore\<close>: \<open>ad_core\<close> holds the tables of that theory. The clock (\<open>epoch_secs\<close>) and fresh
  identifiers are arguments.
\<close>

section \<open>Tables\<close>

record UserRecord =
  us_user_id :: string
  us_display_name :: string
  us_email :: "string option"
  us_auth_provider :: string
  us_auth_subject :: "string option"
  us_created_at :: int
  us_refresh_token :: "string option"
  us_refresh_token_ciphertext :: "bytes option"

record DeviceRecord =
  dv_device_id :: string
  dv_user_id :: string
  dv_device_name :: string
  dv_public_key :: bytes
  dv_wrapped_vault_key :: "bytes option"
  dv_vault_key_generation :: "int option"
  dv_revoked_at :: "int option"
  dv_last_seen_at :: "int option"
  dv_created_at :: int
  dv_enrolled_at :: "int option"
  dv_kyber_public_key :: "bytes option"
  dv_wrapped_vault_key_kyber :: "bytes option"
  dv_safety_verified_at :: "int option"

record VaultMemberRecord =
  vm_user_id :: string
  vm_vault_id :: string
  vm_role :: string
  vm_invited_by :: "string option"
  vm_joined_at :: int

record UserSession =
  ss_token :: string
  ss_user_id :: string
  ss_device_id :: string
  ss_created_at :: int
  ss_expires_at :: int

record InviteCodeRecord =
  ic_code :: string
  ic_vault_id :: string
  ic_created_by :: string
  ic_role :: string
  ic_max_uses :: int
  ic_used_count :: int
  ic_expires_at :: "int option"
  ic_created_at :: int

record AuditLogRecord =
  al_id :: int
  al_timestamp :: int
  al_actor_user_id :: "string option"
  al_actor_device_id :: "string option"
  al_action :: string
  al_target_user_id :: "string option"
  al_target_device_id :: "string option"
  al_details :: "string option"
  al_vault_id :: string

record RecoveryKeyRecord =
  rk_id :: int
  rk_vault_id :: string
  rk_wrapped_vault_key :: bytes
  rk_vk_generation :: int
  rk_created_at :: int
  rk_created_by :: "string option"
  rk_revoked_at :: "int option"

record LocalDeviceIdentityRecord =
  ld_device_id :: string
  ld_device_name :: string
  ld_peer_token :: string
  ld_created_at :: int
  ld_updated_at :: int
  ld_encrypted_private_key :: "bytes option"
  ld_public_key :: "bytes option"
  ld_encrypted_kyber_private_key :: "bytes option"
  ld_kyber_public_key :: "bytes option"

text \<open>The single row of \<open>vault_state\<close>; \<open>legacy_read_key\<close> is the column the KDF migration adds.\<close>

record VaultRecord =
  vr_master_key_salt :: bytes
  vr_argon2_params :: "string \<times> int \<times> int \<times> int \<times> int"
  vr_vault_id :: string
  vr_vault_format_version :: "int option"
  vr_encrypted_vault_key :: "bytes option"
  vr_vault_key_generation :: "int option"
  vr_legacy_read_key :: "bytes option"

record VaultConfigRecord =
  vc_salt :: bytes
  vc_parameter_set_version :: int
  vc_memory_cost_kib :: int
  vc_time_cost :: int
  vc_lanes :: int

record WrappedDekRecord =
  dk_dek_id :: int
  dk_inode_id :: int
  dk_wrapped_dek :: bytes
  dk_key_version :: int
  dk_vault_key_gen :: int
  dk_created_at :: int

record RewrapQueueItem =
  rq_dek_id :: int
  rq_source_vk_generation :: int
  rq_target_vk_generation :: int
  rq_status :: string
  rq_attempted_at :: "int option"

record adb =
  ad_core :: db
  users :: "UserRecord list"
  devices :: "DeviceRecord list"
  vault_members :: "VaultMemberRecord list"
  user_sessions :: "UserSession list"
  invite_codes :: "InviteCodeRecord list"
  audit_logs :: "AuditLogRecord list"
  audit_logs_seq :: int
  recovery_keys :: "RecoveryKeyRecord list"
  recovery_keys_seq :: int
  local_device_identity :: "LocalDeviceIdentityRecord option"
  vault_state :: "VaultRecord option"
  vault_config :: "VaultConfigRecord option"
  data_encryption_keys :: "WrappedDekRecord list"
  data_encryption_keys_seq :: int
  pack_deks :: "(string \<times> int) list"
  dek_rewrap_queue :: "RewrapQueueItem list"

definition empty_adb :: adb where
  "empty_adb = \<lparr>ad_core = empty_db, users = [], devices = [], vault_members = [], user_sessions = [],
     invite_codes = [], audit_logs = [], audit_logs_seq = 0, recovery_keys = [], recovery_keys_seq = 0,
     local_device_identity = None, vault_state = None, vault_config = None, data_encryption_keys = [],
     data_encryption_keys_seq = 0, pack_deks = [], dek_rewrap_queue = []\<rparr>"

definition user_ids :: "adb \<Rightarrow> string list" where
  "user_ids s = map us_user_id (users s)"

definition subject_key :: "UserRecord \<Rightarrow> string \<times> string option" where
  "subject_key u = (us_auth_provider u, us_auth_subject u)"

definition member_key :: "VaultMemberRecord \<Rightarrow> string \<times> string" where
  "member_key m = (vm_user_id m, vm_vault_id m)"

text \<open>The keys, unique constraints and foreign keys of the account tables.\<close>

definition accounts_ok :: "adb \<Rightarrow> bool" where
  "accounts_ok s \<longleftrightarrow>
     distinct (user_ids s) \<and>
     distinct (map subject_key (filter (\<lambda>u. us_auth_subject u \<noteq> None) (users s))) \<and>
     distinct (map dv_device_id (devices s)) \<and>
     list_all (\<lambda>d. dv_user_id d \<in> set (user_ids s)) (devices s) \<and>
     distinct (map member_key (vault_members s)) \<and>
     list_all (\<lambda>m. vm_user_id m \<in> set (user_ids s)) (vault_members s) \<and>
     list_all (\<lambda>m. refers_to (user_ids s) (vm_invited_by m)) (vault_members s) \<and>
     distinct (map ss_token (user_sessions s)) \<and>
     list_all (\<lambda>x. ss_user_id x \<in> set (user_ids s)) (user_sessions s) \<and>
     distinct (map ic_code (invite_codes s)) \<and>
     list_all (\<lambda>c. ic_created_by c \<in> set (user_ids s)) (invite_codes s)"

lemma accounts_ok_empty: "accounts_ok empty_adb"
  by (simp add: accounts_ok_def empty_adb_def user_ids_def)

section \<open>Users (db/users.rs)\<close>

definition create_user ::
  "adb \<Rightarrow> int \<Rightarrow> string \<Rightarrow> string \<Rightarrow> string option \<Rightarrow> string \<Rightarrow> string option \<Rightarrow> sqlx_error + adb" where
  "create_user s now user_id display_name email auth_provider auth_subject =
     (if user_id \<in> set (user_ids s) \<or>
         (auth_subject \<noteq> None \<and> (auth_provider, auth_subject) \<in> set (map subject_key (users s)))
      then Inl UniqueViolation
      else Inr (s\<lparr>users := users s @ [\<lparr>us_user_id = user_id, us_display_name = display_name, us_email = email,
        us_auth_provider = auth_provider, us_auth_subject = auth_subject, us_created_at = now,
        us_refresh_token = None, us_refresh_token_ciphertext = None\<rparr>]\<rparr>))"

definition get_user :: "adb \<Rightarrow> string \<Rightarrow> UserRecord option" where
  "get_user s user_id = fetch_optional (filter (\<lambda>u. us_user_id u = user_id) (users s))"

definition list_users :: "adb \<Rightarrow> UserRecord list" where
  "list_users s = sort_key us_created_at (users s)"

definition update_user_display_name :: "adb \<Rightarrow> string \<Rightarrow> string \<Rightarrow> bool \<times> adb" where
  "update_user_display_name s user_id display_name =
     (0 < rows_affected (\<lambda>u. us_user_id u = user_id) (users s),
      s\<lparr>users := update_where (\<lambda>u. us_user_id u = user_id) (\<lambda>u. u\<lparr>us_display_name := display_name\<rparr>) (users s)\<rparr>)"

text \<open>Deleting a user is refused while a device, member, session or invite code refers to it.\<close>

definition user_referenced :: "adb \<Rightarrow> string \<Rightarrow> bool" where
  "user_referenced s user_id \<longleftrightarrow>
     list_ex (\<lambda>d. dv_user_id d = user_id) (devices s) \<or>
     list_ex (\<lambda>m. vm_user_id m = user_id \<or> vm_invited_by m = Some user_id) (vault_members s) \<or>
     list_ex (\<lambda>x. ss_user_id x = user_id) (user_sessions s) \<or>
     list_ex (\<lambda>c. ic_created_by c = user_id) (invite_codes s)"

definition delete_user :: "adb \<Rightarrow> string \<Rightarrow> sqlx_error + bool \<times> adb" where
  "delete_user s user_id =
     (if user_id \<in> set (user_ids s) \<and> user_referenced s user_id then Inl ForeignKeyViolation
      else Inr (0 < rows_affected (\<lambda>u. us_user_id u = user_id) (users s),
                s\<lparr>users := delete_where (\<lambda>u. us_user_id u = user_id) (users s)\<rparr>))"

definition add_vault_member ::
  "adb \<Rightarrow> int \<Rightarrow> string \<Rightarrow> string \<Rightarrow> string \<Rightarrow> string option \<Rightarrow> sqlx_error + adb" where
  "add_vault_member s now user_id vault_id role invited_by =
     (if (user_id, vault_id) \<in> set (map member_key (vault_members s)) then Inl UniqueViolation
      else if user_id \<notin> set (user_ids s) \<or> \<not> refers_to (user_ids s) invited_by then Inl ForeignKeyViolation
      else Inr (s\<lparr>vault_members := vault_members s @ [\<lparr>vm_user_id = user_id, vm_vault_id = vault_id,
        vm_role = role, vm_invited_by = invited_by, vm_joined_at = now\<rparr>]\<rparr>))"

definition get_vault_member :: "adb \<Rightarrow> string \<Rightarrow> string \<Rightarrow> VaultMemberRecord option" where
  "get_vault_member s user_id vault_id =
     fetch_optional (filter (\<lambda>m. vm_user_id m = user_id \<and> vm_vault_id m = vault_id) (vault_members s))"

definition count_vault_members :: "adb \<Rightarrow> string \<Rightarrow> int" where
  "count_vault_members s vault_id = int (length (filter (\<lambda>m. vm_vault_id m = vault_id) (vault_members s)))"

definition list_vault_members :: "adb \<Rightarrow> string \<Rightarrow> VaultMemberRecord list" where
  "list_vault_members s vault_id =
     sort_key vm_joined_at (filter (\<lambda>m. vm_vault_id m = vault_id) (vault_members s))"

definition update_vault_member_role :: "adb \<Rightarrow> string \<Rightarrow> string \<Rightarrow> string \<Rightarrow> bool \<times> adb" where
  "update_vault_member_role s user_id vault_id new_role =
     (let P = (\<lambda>m. vm_user_id m = user_id \<and> vm_vault_id m = vault_id)
      in (0 < rows_affected P (vault_members s),
          s\<lparr>vault_members := update_where P (\<lambda>m. m\<lparr>vm_role := new_role\<rparr>) (vault_members s)\<rparr>))"

definition remove_vault_member :: "adb \<Rightarrow> string \<Rightarrow> string \<Rightarrow> bool \<times> adb" where
  "remove_vault_member s user_id vault_id =
     (let P = (\<lambda>m. vm_user_id m = user_id \<and> vm_vault_id m = vault_id)
      in (0 < rows_affected P (vault_members s),
          s\<lparr>vault_members := delete_where P (vault_members s)\<rparr>))"

section \<open>Devices (db/devices.rs, db/device_identity.rs, db/stats.rs)\<close>

definition new_device :: "string \<Rightarrow> string \<Rightarrow> string \<Rightarrow> bytes \<Rightarrow> int \<Rightarrow> DeviceRecord" where
  "new_device device_id user_id device_name public_key now =
     \<lparr>dv_device_id = device_id, dv_user_id = user_id, dv_device_name = device_name, dv_public_key = public_key,
      dv_wrapped_vault_key = None, dv_vault_key_generation = None, dv_revoked_at = None,
      dv_last_seen_at = Some now, dv_created_at = now, dv_enrolled_at = None, dv_kyber_public_key = None,
      dv_wrapped_vault_key_kyber = None, dv_safety_verified_at = None\<rparr>"

definition create_device ::
  "adb \<Rightarrow> int \<Rightarrow> string \<Rightarrow> string \<Rightarrow> string \<Rightarrow> bytes \<Rightarrow> sqlx_error + adb" where
  "create_device s now device_id user_id device_name public_key =
     (if device_id \<in> set (map dv_device_id (devices s)) then Inl UniqueViolation
      else if user_id \<notin> set (user_ids s) then Inl ForeignKeyViolation
      else Inr (s\<lparr>devices := devices s @ [new_device device_id user_id device_name public_key now]\<rparr>))"

definition get_device :: "adb \<Rightarrow> string \<Rightarrow> DeviceRecord option" where
  "get_device s device_id = fetch_optional (filter (\<lambda>d. dv_device_id d = device_id) (devices s))"

text \<open>An \<open>UPDATE devices SET ... WHERE device_id = ?\<close>.\<close>

definition update_device :: "string \<Rightarrow> (DeviceRecord \<Rightarrow> DeviceRecord) \<Rightarrow> adb \<Rightarrow> adb" where
  "update_device device_id f s = s\<lparr>devices := update_where (\<lambda>d. dv_device_id d = device_id) f (devices s)\<rparr>"

definition device_exists :: "adb \<Rightarrow> string \<Rightarrow> bool" where
  "device_exists s device_id \<longleftrightarrow> 0 < rows_affected (\<lambda>d. dv_device_id d = device_id) (devices s)"

definition set_device_safety_verified :: "adb \<Rightarrow> int \<Rightarrow> string \<Rightarrow> adb" where
  "set_device_safety_verified s now device_id =
     update_device device_id (\<lambda>d. d\<lparr>dv_safety_verified_at := Some now\<rparr>) s"

definition get_device_safety_verified_at :: "adb \<Rightarrow> string \<Rightarrow> int option" where
  "get_device_safety_verified_at s device_id = Option.bind (get_device s device_id) dv_safety_verified_at"

definition list_devices_for_user :: "adb \<Rightarrow> string \<Rightarrow> DeviceRecord list" where
  "list_devices_for_user s user_id =
     sort_key dv_created_at (filter (\<lambda>d. dv_user_id d = user_id) (devices s))"

definition set_device_wrapped_vault_key :: "adb \<Rightarrow> string \<Rightarrow> bytes \<Rightarrow> int \<Rightarrow> bool \<times> adb" where
  "set_device_wrapped_vault_key s device_id wrapped generation =
     (device_exists s device_id,
      update_device device_id (\<lambda>d. d\<lparr>dv_wrapped_vault_key := Some wrapped,
        dv_vault_key_generation := Some generation\<rparr>) s)"

definition set_device_wrapped_vault_key_kyber :: "adb \<Rightarrow> string \<Rightarrow> bytes \<Rightarrow> adb" where
  "set_device_wrapped_vault_key_kyber s device_id wrapped =
     update_device device_id (\<lambda>d. d\<lparr>dv_wrapped_vault_key_kyber := Some wrapped\<rparr>) s"

definition active_device :: "DeviceRecord \<Rightarrow> bool" where
  "active_device d \<longleftrightarrow> dv_revoked_at d = None \<and> dv_wrapped_vault_key d \<noteq> None"

definition get_active_devices_for_user :: "adb \<Rightarrow> string \<Rightarrow> DeviceRecord list" where
  "get_active_devices_for_user s user_id =
     sort_key dv_created_at (filter (\<lambda>d. dv_user_id d = user_id \<and> active_device d) (devices s))"

definition revoke_row :: "int \<Rightarrow> DeviceRecord \<Rightarrow> DeviceRecord" where
  "revoke_row now d = d\<lparr>dv_revoked_at := Some now, dv_wrapped_vault_key := None,
     dv_wrapped_vault_key_kyber := None, dv_vault_key_generation := None\<rparr>"

definition revoke_device :: "adb \<Rightarrow> int \<Rightarrow> string \<Rightarrow> bool \<times> adb" where
  "revoke_device s now device_id =
     (let P = (\<lambda>d. dv_device_id d = device_id \<and> dv_revoked_at d = None)
      in (0 < rows_affected P (devices s), s\<lparr>devices := update_where P (revoke_row now) (devices s)\<rparr>))"

definition set_device_public_key :: "adb \<Rightarrow> int \<Rightarrow> string \<Rightarrow> bytes \<Rightarrow> bool \<times> adb" where
  "set_device_public_key s now device_id public_key =
     (device_exists s device_id,
      update_device device_id (\<lambda>d. d\<lparr>dv_public_key := public_key, dv_enrolled_at := Some now\<rparr>) s)"

definition touch_device_last_seen :: "adb \<Rightarrow> int \<Rightarrow> string \<Rightarrow> adb" where
  "touch_device_last_seen s now device_id = update_device device_id (\<lambda>d. d\<lparr>dv_last_seen_at := Some now\<rparr>) s"

definition set_device_kyber_public_key :: "adb \<Rightarrow> string \<Rightarrow> bytes \<Rightarrow> adb" where
  "set_device_kyber_public_key s device_id k = update_device device_id (\<lambda>d. d\<lparr>dv_kyber_public_key := Some k\<rparr>) s"

definition count_active_devices :: "adb \<Rightarrow> int" where
  "count_active_devices s = int (length (filter (\<lambda>d. dv_revoked_at d = None) (devices s)))"

definition get_local_device_identity :: "adb \<Rightarrow> LocalDeviceIdentityRecord option" where
  "get_local_device_identity s = local_device_identity s"

definition upsert_local_device_identity :: "adb \<Rightarrow> int \<Rightarrow> string \<Rightarrow> string \<Rightarrow> string \<Rightarrow> adb" where
  "upsert_local_device_identity s now device_id device_name peer_token =
     s\<lparr>local_device_identity := Some (case local_device_identity s of
         None \<Rightarrow> \<lparr>ld_device_id = device_id, ld_device_name = device_name, ld_peer_token = peer_token,
           ld_created_at = now, ld_updated_at = now, ld_encrypted_private_key = None, ld_public_key = None,
           ld_encrypted_kyber_private_key = None, ld_kyber_public_key = None\<rparr>
       | Some r \<Rightarrow> r\<lparr>ld_device_id := device_id, ld_device_name := device_name, ld_peer_token := peer_token,
           ld_updated_at := now\<rparr>)\<rparr>"

definition update_local_device_name :: "adb \<Rightarrow> int \<Rightarrow> string \<Rightarrow> adb" where
  "update_local_device_name s now device_name =
     s\<lparr>local_device_identity := map_option (\<lambda>r. r\<lparr>ld_device_name := device_name, ld_updated_at := now\<rparr>)
        (local_device_identity s)\<rparr>"

definition store_device_keypair :: "adb \<Rightarrow> int \<Rightarrow> bytes \<Rightarrow> bytes \<Rightarrow> adb" where
  "store_device_keypair s now encrypted_private_key public_key =
     s\<lparr>local_device_identity := map_option (\<lambda>r. r\<lparr>ld_encrypted_private_key := Some encrypted_private_key,
        ld_public_key := Some public_key, ld_updated_at := now\<rparr>) (local_device_identity s)\<rparr>"

definition store_kyber_keypair :: "adb \<Rightarrow> int \<Rightarrow> bytes \<Rightarrow> bytes \<Rightarrow> adb" where
  "store_kyber_keypair s now encrypted_kyber_private_key kyber_public_key =
     s\<lparr>local_device_identity := map_option (\<lambda>r. r\<lparr>ld_encrypted_kyber_private_key := Some encrypted_kyber_private_key,
        ld_kyber_public_key := Some kyber_public_key, ld_updated_at := now\<rparr>) (local_device_identity s)\<rparr>"

section \<open>Sessions (db/sessions.rs)\<close>

definition SESSION_TTL_SECONDS :: int where "SESSION_TTL_SECONDS = 86400"

definition create_user_session ::
  "adb \<Rightarrow> int \<Rightarrow> string \<Rightarrow> string \<Rightarrow> string \<Rightarrow> int \<Rightarrow> sqlx_error + UserSession \<times> adb" where
  "create_user_session s now token user_id device_id ttl_seconds =
     (let x = \<lparr>ss_token = token, ss_user_id = user_id, ss_device_id = device_id, ss_created_at = now,
               ss_expires_at = now + ttl_seconds\<rparr>
      in if token \<in> set (map ss_token (user_sessions s)) then Inl UniqueViolation
         else if user_id \<notin> set (user_ids s) then Inl ForeignKeyViolation
         else Inr (x, s\<lparr>user_sessions := user_sessions s @ [x]\<rparr>))"

definition validate_user_session :: "adb \<Rightarrow> int \<Rightarrow> string \<Rightarrow> UserSession option" where
  "validate_user_session s now token =
     fetch_optional (filter (\<lambda>x. ss_token x = token \<and> ss_expires_at x > now) (user_sessions s))"

definition renew_user_session :: "adb \<Rightarrow> int \<Rightarrow> string \<Rightarrow> int \<Rightarrow> bool \<times> adb" where
  "renew_user_session s now token ttl_seconds =
     (let P = (\<lambda>x. ss_token x = token \<and> ss_expires_at x > now)
      in (0 < rows_affected P (user_sessions s),
          s\<lparr>user_sessions := update_where P (\<lambda>x. x\<lparr>ss_expires_at := now + ttl_seconds\<rparr>) (user_sessions s)\<rparr>))"

definition delete_user_session :: "adb \<Rightarrow> string \<Rightarrow> bool \<times> adb" where
  "delete_user_session s token =
     (0 < rows_affected (\<lambda>x. ss_token x = token) (user_sessions s),
      s\<lparr>user_sessions := delete_where (\<lambda>x. ss_token x = token) (user_sessions s)\<rparr>)"

definition delete_user_sessions_for_user :: "adb \<Rightarrow> string \<Rightarrow> nat \<times> adb" where
  "delete_user_sessions_for_user s user_id =
     (rows_affected (\<lambda>x. ss_user_id x = user_id) (user_sessions s),
      s\<lparr>user_sessions := delete_where (\<lambda>x. ss_user_id x = user_id) (user_sessions s)\<rparr>)"

definition cleanup_expired_sessions :: "adb \<Rightarrow> int \<Rightarrow> nat \<times> adb" where
  "cleanup_expired_sessions s now =
     (rows_affected (\<lambda>x. ss_expires_at x \<le> now) (user_sessions s),
      s\<lparr>user_sessions := delete_where (\<lambda>x. ss_expires_at x \<le> now) (user_sessions s)\<rparr>)"

section \<open>Invite codes (db/invites.rs)\<close>

definition create_invite_code ::
  "adb \<Rightarrow> int \<Rightarrow> string \<Rightarrow> string \<Rightarrow> string \<Rightarrow> string \<Rightarrow> int \<Rightarrow> int option \<Rightarrow> sqlx_error + adb" where
  "create_invite_code s now code vault_id created_by role max_uses expires_at =
     (if code \<in> set (map ic_code (invite_codes s)) then Inl UniqueViolation
      else if created_by \<notin> set (user_ids s) then Inl ForeignKeyViolation
      else Inr (s\<lparr>invite_codes := invite_codes s @ [\<lparr>ic_code = code, ic_vault_id = vault_id,
        ic_created_by = created_by, ic_role = role, ic_max_uses = max_uses, ic_used_count = 0,
        ic_expires_at = expires_at, ic_created_at = now\<rparr>]\<rparr>))"

definition get_invite_code :: "adb \<Rightarrow> string \<Rightarrow> InviteCodeRecord option" where
  "get_invite_code s code = fetch_optional (filter (\<lambda>c. ic_code c = code) (invite_codes s))"

definition is_invite_code_valid :: "int \<Rightarrow> InviteCodeRecord \<Rightarrow> bool" where
  "is_invite_code_valid now c =
     (if ic_max_uses c \<le> ic_used_count c then False
      else (case ic_expires_at c of None \<Rightarrow> True | Some exp \<Rightarrow> \<not> exp < now))"

definition consume_invite_code :: "adb \<Rightarrow> string \<Rightarrow> bool \<times> adb" where
  "consume_invite_code s code =
     (let P = (\<lambda>c. ic_code c = code \<and> ic_used_count c < ic_max_uses c)
      in (0 < rows_affected P (invite_codes s),
          s\<lparr>invite_codes := update_where P (\<lambda>c. c\<lparr>ic_used_count := ic_used_count c + 1\<rparr>) (invite_codes s)\<rparr>))"

definition list_invite_codes :: "adb \<Rightarrow> string \<Rightarrow> InviteCodeRecord list" where
  "list_invite_codes s vault_id =
     sort_key (\<lambda>c. - ic_created_at c) (filter (\<lambda>c. ic_vault_id c = vault_id) (invite_codes s))"

definition delete_invite_code :: "adb \<Rightarrow> string \<Rightarrow> bool \<times> adb" where
  "delete_invite_code s code =
     (0 < rows_affected (\<lambda>c. ic_code c = code) (invite_codes s),
      s\<lparr>invite_codes := delete_where (\<lambda>c. ic_code c = code) (invite_codes s)\<rparr>)"

section \<open>Audit log and recovery keys (db/audit.rs, db/recovery_keys.rs)\<close>

definition insert_audit_log ::
  "adb \<Rightarrow> int \<Rightarrow> string \<Rightarrow> string \<Rightarrow> string option \<Rightarrow> string option \<Rightarrow> string option \<Rightarrow> string option
     \<Rightarrow> string option \<Rightarrow> int \<times> adb" where
  "insert_audit_log s now vault_id action actor_user actor_device target_user target_device details =
     (audit_logs_seq s + 1, s\<lparr>audit_logs := audit_logs s @ [\<lparr>al_id = audit_logs_seq s + 1, al_timestamp = now,
        al_actor_user_id = actor_user, al_actor_device_id = actor_device, al_action = action,
        al_target_user_id = target_user, al_target_device_id = target_device, al_details = details,
        al_vault_id = vault_id\<rparr>],
      audit_logs_seq := audit_logs_seq s + 1\<rparr>)"

definition list_audit_logs :: "adb \<Rightarrow> string \<Rightarrow> int \<Rightarrow> AuditLogRecord list" where
  "list_audit_logs s vault_id lim =
     sql_limit lim (sort_key (\<lambda>a. - al_timestamp a) (filter (\<lambda>a. al_vault_id a = vault_id) (audit_logs s)))"

definition insert_recovery_key ::
  "adb \<Rightarrow> int \<Rightarrow> string \<Rightarrow> bytes \<Rightarrow> int \<Rightarrow> string option \<Rightarrow> int \<times> adb" where
  "insert_recovery_key s now vault_id wrapped vk_generation created_by =
     (recovery_keys_seq s + 1, s\<lparr>recovery_keys := recovery_keys s @ [\<lparr>rk_id = recovery_keys_seq s + 1,
        rk_vault_id = vault_id, rk_wrapped_vault_key = wrapped, rk_vk_generation = vk_generation,
        rk_created_at = now, rk_created_by = created_by, rk_revoked_at = None\<rparr>],
      recovery_keys_seq := recovery_keys_seq s + 1\<rparr>)"

definition list_active_recovery_keys :: "adb \<Rightarrow> string \<Rightarrow> RecoveryKeyRecord list" where
  "list_active_recovery_keys s vault_id =
     sort_key (\<lambda>r. - rk_created_at r)
       (filter (\<lambda>r. rk_vault_id r = vault_id \<and> rk_revoked_at r = None) (recovery_keys s))"

definition revoke_all_recovery_keys :: "adb \<Rightarrow> int \<Rightarrow> string \<Rightarrow> nat \<times> adb" where
  "revoke_all_recovery_keys s now vault_id =
     (let P = (\<lambda>r. rk_vault_id r = vault_id \<and> rk_revoked_at r = None)
      in (rows_affected P (recovery_keys s),
          s\<lparr>recovery_keys := update_where P (\<lambda>r. r\<lparr>rk_revoked_at := Some now\<rparr>) (recovery_keys s)\<rparr>))"

section \<open>The vault record (db/vault_state.rs) and refresh tokens (db/oauth.rs)\<close>

definition get_vault_params :: "adb \<Rightarrow> VaultRecord option" where
  "get_vault_params s = vault_state s"

definition users_with_plaintext_refresh_token :: "adb \<Rightarrow> (string \<times> string) list" where
  "users_with_plaintext_refresh_token s =
     List.map_filter (\<lambda>u. case us_refresh_token u of
         Some t \<Rightarrow> if us_refresh_token_ciphertext u = None then Some (us_user_id u, t) else None
       | None \<Rightarrow> None) (users s)"

definition store_encrypted_refresh_token :: "adb \<Rightarrow> string \<Rightarrow> bytes \<Rightarrow> adb" where
  "store_encrypted_refresh_token s user_id ciphertext =
     s\<lparr>users := update_where (\<lambda>u. us_user_id u = user_id)
        (\<lambda>u. u\<lparr>us_refresh_token_ciphertext := Some ciphertext\<rparr>) (users s)\<rparr>"

definition get_encrypted_refresh_token :: "adb \<Rightarrow> string \<Rightarrow> bytes option" where
  "get_encrypted_refresh_token s user_id =
     Option.bind (fetch_optional (filter (\<lambda>u. us_user_id u = user_id \<and> us_refresh_token_ciphertext u \<noteq> None) (users s)))
       us_refresh_token_ciphertext"

definition clear_plaintext_refresh_token :: "adb \<Rightarrow> string \<Rightarrow> adb" where
  "clear_plaintext_refresh_token s user_id =
     s\<lparr>users := update_where (\<lambda>u. us_user_id u = user_id) (\<lambda>u. u\<lparr>us_refresh_token := None\<rparr>) (users s)\<rparr>"

section \<open>Migrations of the account tables (db/users.rs)\<close>

text \<open>
  The first start of a single-user vault creates its owner; the inserts are separate statements, and with no
  user in the tables and fresh identifiers none of them can fail but the one of the device row.
\<close>

definition placeholder_pubkey :: bytes where
  "placeholder_pubkey = replicate 32 0"

definition migrate_single_to_multi_user :: "adb \<Rightarrow> int \<Rightarrow> string \<Rightarrow> string \<Rightarrow> (sqlx_error + bool) \<times> adb" where
  "migrate_single_to_multi_user s now owner_user_id vault_id =
     (if users s \<noteq> [] then (Inr False, s)
      else (case get_local_device_identity s of
          None \<Rightarrow> (Inr False, s)
        | Some device \<Rightarrow>
            (case create_user s now owner_user_id (ld_device_name device) None ''local'' None of
               Inl e \<Rightarrow> (Inl e, s)
             | Inr s1 \<Rightarrow>
                 (case create_device s1 now (ld_device_id device) owner_user_id (ld_device_name device)
                         placeholder_pubkey of
                    Inl e \<Rightarrow> (Inl e, s1)
                  | Inr s2 \<Rightarrow>
                      (case add_vault_member s2 now owner_user_id vault_id ''owner'' None of
                         Inl e \<Rightarrow> (Inl e, s2)
                       | Inr s3 \<Rightarrow> (Inr True, snd (insert_audit_log s3 now vault_id ''migrate_single_to_multi''
                           (Some owner_user_id) (Some (ld_device_id device)) (Some owner_user_id)
                           (Some (ld_device_id device)) (Some ''auto-migration from single-user vault''))))))))"

definition ensure_local_device_in_vault :: "adb \<Rightarrow> int \<Rightarrow> string \<Rightarrow> bool \<times> adb" where
  "ensure_local_device_in_vault s now vault_id =
     (case get_local_device_identity s of
        None \<Rightarrow> (False, s)
      | Some device \<Rightarrow>
          if get_device s (ld_device_id device) \<noteq> None then (False, s)
          else (case fetch_optional (filter (\<lambda>m. vm_vault_id m = vault_id \<and> vm_role m = ''owner'') (vault_members s)) of
              None \<Rightarrow> (False, s)
            | Some owner \<Rightarrow>
                (True, s\<lparr>devices := devices s @ [new_device (ld_device_id device) (vm_user_id owner)
                          (ld_device_name device) placeholder_pubkey now]\<rparr>)))"

definition verify_vault_device_binding :: "adb \<Rightarrow> string \<Rightarrow> string \<Rightarrow> bool" where
  "verify_vault_device_binding s expected_vault_id device_id \<longleftrightarrow>
     expected_vault_id = ''local-vault'' \<or>
     list_ex (\<lambda>d. dv_device_id d = device_id \<and>
       list_ex (\<lambda>m. vm_user_id m = dv_user_id d \<and> vm_vault_id m = expected_vault_id) (vault_members s)) (devices s)"

text \<open>
  \<open>LIKE 'owner-%'\<close> ignores the case of ASCII letters. Each legacy id is replaced in every table that refers
  to it, with the foreign keys switched off; the copied row keeps \<open>auth_provider\<close> and \<open>auth_subject\<close>, so the
  insert fails for an id that has a subject.
\<close>

definition legacy_owner_id :: "string \<Rightarrow> bool" where
  "legacy_owner_id user_id \<longleftrightarrow> map ascii_lower (take 6 user_id) = ''owner-''"

definition rename_user :: "string \<Rightarrow> string \<Rightarrow> string \<Rightarrow> string" where
  "rename_user old new u = (if u = old then new else u)"

definition rename_user_refs :: "string \<Rightarrow> string \<Rightarrow> adb \<Rightarrow> adb" where
  "rename_user_refs old new s =
     s\<lparr>devices := map (\<lambda>d. d\<lparr>dv_user_id := rename_user old new (dv_user_id d)\<rparr>) (devices s),
       vault_members := map (\<lambda>m. m\<lparr>vm_user_id := rename_user old new (vm_user_id m),
         vm_invited_by := map_option (rename_user old new) (vm_invited_by m)\<rparr>) (vault_members s),
       audit_logs := map (\<lambda>a. a\<lparr>al_actor_user_id := map_option (rename_user old new) (al_actor_user_id a),
         al_target_user_id := map_option (rename_user old new) (al_target_user_id a)\<rparr>) (audit_logs s),
       user_sessions := map (\<lambda>x. x\<lparr>ss_user_id := rename_user old new (ss_user_id x)\<rparr>) (user_sessions s),
       invite_codes := map (\<lambda>c. c\<lparr>ic_created_by := rename_user old new (ic_created_by c)\<rparr>) (invite_codes s)\<rparr>"

definition backfill_one :: "string \<Rightarrow> string \<Rightarrow> adb \<Rightarrow> sqlx_error + adb" where
  "backfill_one old new s =
     (case get_user s old of
        None \<Rightarrow> Inr (rename_user_refs old new s)
      | Some u \<Rightarrow>
          bindR (create_user s (us_created_at u) new (us_display_name u) (us_email u) (us_auth_provider u)
                   (us_auth_subject u)) (\<lambda>s1.
            let s2 = rename_user_refs old new s1
            in Inr (s2\<lparr>users := delete_where (\<lambda>x. us_user_id x = old) (users s2)\<rparr>)))"

fun backfill_loop :: "adb \<Rightarrow> nat \<Rightarrow> (string \<times> string) list \<Rightarrow> (sqlx_error + nat) \<times> adb" where
  "backfill_loop s count [] = (Inr count, s)"
| "backfill_loop s count ((old, new) # rest) =
     (case backfill_one old new s of Inl e \<Rightarrow> (Inl e, s) | Inr s' \<Rightarrow> backfill_loop s' (count + 1) rest)"

definition backfill_uuid_user_ids :: "adb \<Rightarrow> string list \<Rightarrow> (sqlx_error + nat) \<times> adb" where
  "backfill_uuid_user_ids s fresh_ids =
     backfill_loop s 0 (zip (filter legacy_owner_id (user_ids s)) fresh_ids)"

section \<open>The statements keep the keys and references\<close>

lemmas account_defs = create_user_def add_vault_member_def create_device_def create_user_session_def
  create_invite_code_def

lemma user_ids_simps [simp]:
  "user_ids (s\<lparr>devices := d\<rparr>) = user_ids s" "user_ids (s\<lparr>vault_members := m\<rparr>) = user_ids s"
  "user_ids (s\<lparr>user_sessions := x\<rparr>) = user_ids s" "user_ids (s\<lparr>invite_codes := c\<rparr>) = user_ids s"
  "user_ids (s\<lparr>audit_logs := a, audit_logs_seq := n\<rparr>) = user_ids s"
  "user_ids (s\<lparr>vault_state := v\<rparr>) = user_ids s" "user_ids (s\<lparr>vault_config := w\<rparr>) = user_ids s"
  "user_ids (s\<lparr>local_device_identity := l\<rparr>) = user_ids s"
  by (simp_all add: user_ids_def)

lemma refers_to_app: "refers_to ks x \<Longrightarrow> refers_to (ks @ [k]) x"
  by (cases x) (simp_all add: refers_to_def)

lemma list_all_app_mono: "list_all (\<lambda>x. k x \<in> set ks) t \<Longrightarrow> list_all (\<lambda>x. k x \<in> set (ks @ [u])) t"
  by (simp add: list_all_iff)

lemma accounts_ok_create_user:
  assumes ok: "accounts_ok s" and r: "create_user s now u nm em prov subj = Inr s'"
  shows "accounts_ok s'"
proof -
  from r have u: "u \<notin> set (user_ids s)"
    and subj: "subj \<noteq> None \<Longrightarrow> (prov, subj) \<notin> subject_key ` set (users s)"
    and s': "s' = s\<lparr>users := users s @ [\<lparr>us_user_id = u, us_display_name = nm, us_email = em,
        us_auth_provider = prov, us_auth_subject = subj, us_created_at = now,
        us_refresh_token = None, us_refresh_token_ciphertext = None\<rparr>]\<rparr>"
    by (auto simp: create_user_def split: if_splits)
  have ids: "user_ids s' = user_ids s @ [u]" by (simp add: s' user_ids_def)
  have "list_all (\<lambda>m. refers_to (user_ids s @ [u]) (vm_invited_by m)) (vault_members s)"
    using ok by (auto simp: accounts_ok_def list_all_iff intro: refers_to_app)
  moreover have "distinct (map subject_key (filter (\<lambda>x. us_auth_subject x \<noteq> None) (users s')))"
    using ok subj by (auto simp: accounts_ok_def s' subject_key_def)
  ultimately show ?thesis
    using ok u unfolding accounts_ok_def ids by (simp add: s' list_all_iff)
qed

lemma accounts_ok_create_device:
  "accounts_ok s \<Longrightarrow> create_device s now d u nm pk = Inr s' \<Longrightarrow> accounts_ok s'"
  by (auto simp: create_device_def accounts_ok_def new_device_def split: if_splits)

lemma accounts_ok_add_vault_member:
  "accounts_ok s \<Longrightarrow> add_vault_member s now u v ro by_user = Inr s' \<Longrightarrow> accounts_ok s'"
  by (auto simp: add_vault_member_def accounts_ok_def member_key_def split: if_splits)

lemma accounts_ok_create_user_session:
  "accounts_ok s \<Longrightarrow> create_user_session s now tok u d ttl = Inr (x, s') \<Longrightarrow> accounts_ok s'"
  by (auto simp: create_user_session_def accounts_ok_def Let_def split: if_splits)

lemma accounts_ok_create_invite_code:
  "accounts_ok s \<Longrightarrow> create_invite_code s now c v u ro mx ex = Inr s' \<Longrightarrow> accounts_ok s'"
  by (auto simp: create_invite_code_def accounts_ok_def split: if_splits)

lemma accounts_ok_update_devices:
  assumes "accounts_ok s" and "\<And>d. dv_device_id (f d) = dv_device_id d" and "\<And>d. dv_user_id (f d) = dv_user_id d"
  shows "accounts_ok (s\<lparr>devices := update_where P f (devices s)\<rparr>)"
  using assms by (simp add: accounts_ok_def update_where_key list_all_update_where)

lemma accounts_ok_update_sessions:
  assumes "accounts_ok s" and "\<And>x. ss_token (f x) = ss_token x" and "\<And>x. ss_user_id (f x) = ss_user_id x"
  shows "accounts_ok (s\<lparr>user_sessions := update_where P f (user_sessions s)\<rparr>)"
  using assms by (simp add: accounts_ok_def update_where_key list_all_update_where)

lemma accounts_ok_delete_sessions:
  "accounts_ok s \<Longrightarrow> accounts_ok (s\<lparr>user_sessions := delete_where P (user_sessions s)\<rparr>)"
  by (auto simp: accounts_ok_def distinct_delete_where list_all_iff set_delete_where)

lemma accounts_ok_delete_members:
  "accounts_ok s \<Longrightarrow> accounts_ok (s\<lparr>vault_members := delete_where P (vault_members s)\<rparr>)"
  by (auto simp: accounts_ok_def distinct_delete_where list_all_iff set_delete_where)

lemma accounts_ok_update_invites:
  assumes "accounts_ok s" and "\<And>x. ic_code (f x) = ic_code x" and "\<And>x. ic_created_by (f x) = ic_created_by x"
  shows "accounts_ok (s\<lparr>invite_codes := update_where P f (invite_codes s)\<rparr>)"
  using assms by (simp add: accounts_ok_def update_where_key list_all_update_where)

lemma accounts_ok_audit: "accounts_ok s \<Longrightarrow> accounts_ok (snd (insert_audit_log s now v a b c d e f))"
  by (simp add: accounts_ok_def insert_audit_log_def)

lemma accounts_ok_delete_user:
  assumes ok: "accounts_ok s" and r: "delete_user s u = Inr (b, s')"
  shows "accounts_ok s'"
proof -
  have s': "s' = s\<lparr>users := delete_where (\<lambda>x. us_user_id x = u) (users s)\<rparr>"
    and ref: "u \<in> set (user_ids s) \<Longrightarrow> \<not> user_referenced s u"
    using r by (auto simp: delete_user_def split: if_splits)
  have ids: "set (user_ids s') = set (user_ids s) - {u}"
    by (auto simp: s' user_ids_def set_delete_where)
  have keep: "x \<in> set (user_ids s')" if "x \<in> set (user_ids s)" "user_referenced s x" for x
    using that ref ids by auto
  have "list_all (\<lambda>d. dv_user_id d \<in> set (user_ids s')) (devices s)"
    "list_all (\<lambda>m. vm_user_id m \<in> set (user_ids s')) (vault_members s)"
    "list_all (\<lambda>x. ss_user_id x \<in> set (user_ids s')) (user_sessions s)"
    "list_all (\<lambda>c. ic_created_by c \<in> set (user_ids s')) (invite_codes s)"
    using ok by (auto simp: accounts_ok_def list_all_iff user_referenced_def list_ex_iff intro!: keep)
  moreover have "list_all (\<lambda>m. refers_to (user_ids s') (vm_invited_by m)) (vault_members s)"
    using ok by (auto simp: accounts_ok_def list_all_iff refers_to_def user_referenced_def list_ex_iff
        intro!: keep split: option.splits)
  moreover have "distinct (user_ids s')"
    using ok by (simp add: accounts_ok_def s' user_ids_def distinct_delete_where)
  moreover have "distinct (map subject_key (filter (\<lambda>x. us_auth_subject x \<noteq> None) (users s')))"
  proof -
    have "filter (\<lambda>x. us_auth_subject x \<noteq> None) (users s') =
        filter (\<lambda>x. us_user_id x \<noteq> u) (filter (\<lambda>x. us_auth_subject x \<noteq> None) (users s))"
      by (simp add: s' delete_where_def conj_commute)
    moreover have "distinct (map subject_key (filter (\<lambda>x. us_auth_subject x \<noteq> None) (users s)))"
      using ok by (simp only: accounts_ok_def)
    ultimately show ?thesis by (simp only: distinct_map_filter)
  qed
  ultimately show ?thesis using ok by (simp add: accounts_ok_def s' user_ids_def)
qed

end
