(* ===== verification/Access.thy ===== *)
theory Access
  imports Accounts
begin

text \<open>
  Who may do what: the roles and the check in front of every guarded request (\<^verbatim>\<open>acl.rs\<close>, \<^verbatim>\<open>api/gate.rs\<close>), the
  session endpoints of \<^verbatim>\<open>api/auth.rs\<close> that do not touch the vault keys, and what a session token is good for.
  A request is its \<open>Authorization\<close> header, absent or a text.
\<close>

section \<open>Roles and errors\<close>

datatype Role = Viewer | Member | Admin | Owner

fun Role_level :: "Role \<Rightarrow> nat" where
  "Role_level Viewer = 0"
| "Role_level Member = 1"
| "Role_level Admin = 2"
| "Role_level Owner = 3"

definition Role_from_str :: "string \<Rightarrow> Role option" where
  "Role_from_str r =
     (if r = ''owner'' then Some Owner else if r = ''admin'' then Some Admin
      else if r = ''member'' then Some Member else if r = ''viewer'' then Some Viewer else None)"

definition satisfies :: "Role \<Rightarrow> Role \<Rightarrow> bool" where
  "satisfies r required \<longleftrightarrow> Role_level required \<le> Role_level r"

instantiation Role :: linorder
begin

definition less_eq_Role :: "Role \<Rightarrow> Role \<Rightarrow> bool" where
  "less_eq_Role a b \<longleftrightarrow> Role_level a \<le> Role_level b"

definition less_Role :: "Role \<Rightarrow> Role \<Rightarrow> bool" where
  "less_Role a b \<longleftrightarrow> Role_level a < Role_level b"

instance
proof
  fix a b :: Role
  show "a \<le> b \<Longrightarrow> b \<le> a \<Longrightarrow> a = b" by (cases a; cases b) (simp_all add: less_eq_Role_def)
qed (auto simp: less_eq_Role_def less_Role_def)

end

lemma satisfies_iff: "satisfies r q \<longleftrightarrow> q \<le> r"
  by (simp add: satisfies_def less_eq_Role_def)

text \<open>The errors of the API; the messages are left out.\<close>

datatype ApiError = BadRequest string | Unauthorized | Forbidden | NotFound string string | Conflict
  | Gone | Locked_api | TooManyRequests nat | Internal | BadGateway | ServiceUnavailable

record AuthorizedCaller =
  ca_user_id :: string
  ca_device_id :: string
  ca_vault_id :: string
  ca_role :: Role

section \<open>The checks\<close>

definition authenticate_session :: "adb \<Rightarrow> int \<Rightarrow> string option \<Rightarrow> ApiError + UserSession" where
  "authenticate_session s now header =
     bindR (ok_or Unauthorized (Option.bind header (strip_prefix ''Bearer ''))) (\<lambda>token.
       ok_or Unauthorized (validate_user_session s now token))"

definition is_vault_member :: "adb \<Rightarrow> string \<Rightarrow> bool" where
  "is_vault_member s user_id =
     (case get_vault_params s of
        None \<Rightarrow> True
      | Some v \<Rightarrow> get_vault_member s user_id (vr_vault_id v) \<noteq> None)"

definition ensure_vault_member :: "adb \<Rightarrow> string \<Rightarrow> ApiError + unit" where
  "ensure_vault_member s user_id = (if is_vault_member s user_id then Inr () else Inl Forbidden)"

definition require_session :: "adb \<Rightarrow> int \<Rightarrow> string option \<Rightarrow> ApiError + UserSession" where
  "require_session s now header =
     bindR (authenticate_session s now header) (\<lambda>x.
     bindR (ensure_vault_member s (ss_user_id x)) (\<lambda>_. Inr x))"

definition require_session_no_touch :: "adb \<Rightarrow> int \<Rightarrow> string option \<Rightarrow> ApiError + UserSession" where
  "require_session_no_touch s now header =
     bindR (authenticate_session s now header) (\<lambda>x.
     bindR (ensure_vault_member s (ss_user_id x)) (\<lambda>_. Inr x))"

definition require_role :: "adb \<Rightarrow> int \<Rightarrow> string option \<Rightarrow> Role \<Rightarrow> ApiError + AuthorizedCaller" where
  "require_role s now header min_role =
     bindR (authenticate_session s now header) (\<lambda>session.
     bindR (ok_or (BadRequest ''vault_not_initialized'') (get_vault_params s)) (\<lambda>v.
     bindR (ok_or Forbidden (get_vault_member s (ss_user_id session) (vr_vault_id v))) (\<lambda>member.
     bindR (ok_or Internal (Role_from_str (vm_role member))) (\<lambda>role.
       if \<not> satisfies role min_role then Inl Forbidden
       else Inr \<lparr>ca_user_id = ss_user_id session, ca_device_id = ss_device_id session,
                 ca_vault_id = vr_vault_id v, ca_role = role\<rparr>))))"

text \<open>The onboarding endpoints are guarded only once onboarding has completed.\<close>

definition eq_ignore_ascii_case :: "string \<Rightarrow> string \<Rightarrow> bool" where
  "eq_ignore_ascii_case a b \<longleftrightarrow> map ascii_lower a = map ascii_lower b"

definition admin_after_onboarding ::
  "adb \<Rightarrow> int \<Rightarrow> string option \<Rightarrow> string option \<Rightarrow> ApiError + unit" where
  "admin_after_onboarding s now header onboarding_state =
     (if (case onboarding_state of None \<Rightarrow> False | Some v \<Rightarrow> eq_ignore_ascii_case v ''COMPLETED'')
      then bindR (require_role s now header Admin) (\<lambda>_. Inr ())
      else Inr ())"

section \<open>Session endpoints (api/auth.rs)\<close>

datatype session_error = NoLocalDevice | DeviceNotRegistered | SessionInsert sqlx_error

definition create_session_for_local_device ::
  "adb \<Rightarrow> int \<Rightarrow> string \<Rightarrow> session_error + UserSession \<times> adb" where
  "create_session_for_local_device s now token =
     bindR (ok_or NoLocalDevice (get_local_device_identity s)) (\<lambda>device.
     bindR (ok_or DeviceNotRegistered (get_device s (ld_device_id device))) (\<lambda>rec.
       map_err SessionInsert
         (create_user_session s now token (dv_user_id rec) (ld_device_id device) SESSION_TTL_SECONDS)))"

definition extract_session :: "adb \<Rightarrow> int \<Rightarrow> string option \<Rightarrow> UserSession option" where
  "extract_session s now header =
     Option.bind (Option.bind header (strip_prefix ''Bearer '')) (validate_user_session s now)"

definition post_auth_renew :: "adb \<Rightarrow> int \<Rightarrow> string option \<Rightarrow> ApiError + int \<times> adb" where
  "post_auth_renew s now header =
     bindR (require_session s now header) (\<lambda>session.
       case renew_user_session s now (ss_token session) SESSION_TTL_SECONDS of (renewed, s') \<Rightarrow>
         if renewed then Inr (now + SESSION_TTL_SECONDS, s') else Inl Unauthorized)"

section \<open>Tokens that expire\<close>

text \<open>
  What a store of expiring tokens promises: a token that is valid was valid at every earlier time, and
  revoking a token ends that one and no other. Whatever is revoked and however time passes, no token comes
  back to life.
\<close>

locale expiring_tokens =
  fixes valid :: "'s \<Rightarrow> int \<Rightarrow> 'k \<Rightarrow> 'e option"
    and revoke :: "'k \<Rightarrow> 's \<Rightarrow> 's"
  assumes valid_earlier: "valid s t k = Some e \<Longrightarrow> t' \<le> t \<Longrightarrow> valid s t' k = Some e"
    and valid_revoke: "valid (revoke k s) t k' = (if k' = k then None else valid s t k')"
begin

lemma expired_stays: "valid s t k = None \<Longrightarrow> t \<le> t' \<Longrightarrow> valid s t' k = None"
  using valid_earlier [of s t' k _ t] by (cases "valid s t' k") auto

lemma valid_revoke_all: "valid (fold revoke ks s) t k = (if k \<in> set ks then None else valid s t k)"
  by (induction ks arbitrary: s) (auto simp: valid_revoke)

lemma never_again: "valid s t k = None \<Longrightarrow> t \<le> t' \<Longrightarrow> valid (fold revoke ks s) t' k = None"
  by (simp add: valid_revoke_all expired_stays)

end

lemma validate_iff:
  assumes "accounts_ok s"
  shows "validate_user_session s now tok = Some x \<longleftrightarrow>
    x \<in> set (user_sessions s) \<and> ss_token x = tok \<and> now < ss_expires_at x"
proof -
  have d: "distinct (map ss_token (user_sessions s))" using assms by (simp add: accounts_ok_def)
  show ?thesis
  proof
    assume "validate_user_session s now tok = Some x"
    then show "x \<in> set (user_sessions s) \<and> ss_token x = tok \<and> now < ss_expires_at x"
      unfolding validate_user_session_def by (auto dest: fetch_optional_in)
  next
    assume x: "x \<in> set (user_sessions s) \<and> ss_token x = tok \<and> now < ss_expires_at x"
    then have "filter (\<lambda>y. ss_token y = tok) (user_sessions s) = [x]"
      using filter_key_singleton [OF d, of x] by simp
    then have "filter (\<lambda>y. now < ss_expires_at y) (filter (\<lambda>y. ss_token y = tok) (user_sessions s)) = [x]"
      using x by simp
    then show "validate_user_session s now tok = Some x"
      by (simp add: validate_user_session_def conj_commute)
  qed
qed

text \<open>
  The session table is such a store: a lookup that also asks for the token to be unique agrees with
  \<open>validate_user_session\<close> on every database that keeps its constraints.
\<close>

definition live_session :: "UserSession list \<Rightarrow> int \<Rightarrow> string \<Rightarrow> UserSession option" where
  "live_session t now tok =
     (case filter (\<lambda>x. ss_token x = tok) t of [x] \<Rightarrow> if now < ss_expires_at x then Some x else None | _ \<Rightarrow> None)"

lemma filter_delete_token:
  "filter (\<lambda>x. ss_token x = k') (delete_where (\<lambda>x. ss_token x = k) t) =
     (if k' = k then [] else filter (\<lambda>x. ss_token x = k') t)"
  by (induction t) auto

interpretation sess: expiring_tokens live_session "\<lambda>k. delete_where (\<lambda>x. ss_token x = k)"
proof unfold_locales
  show "live_session s t k = Some e \<Longrightarrow> t' \<le> t \<Longrightarrow> live_session s t' k = Some e" for s t k e t'
    by (auto simp: live_session_def split: list.splits if_splits)
  show "live_session (delete_where (\<lambda>x. ss_token x = k) s) t k' = (if k' = k then None else live_session s t k')"
    for k s t k'
    by (simp add: live_session_def filter_delete_token)
qed

lemma validate_live_session:
  assumes "accounts_ok s"
  shows "validate_user_session s now tok = live_session (user_sessions s) now tok"
proof (cases "filter (\<lambda>x. ss_token x = tok) (user_sessions s)")
  case Nil
  then have "filter (\<lambda>x. ss_token x = tok \<and> now < ss_expires_at x) (user_sessions s) = []"
    by (auto simp: filter_empty_conv)
  with Nil show ?thesis by (simp add: validate_user_session_def live_session_def)
next
  case (Cons x xs)
  then have "x \<in> set (filter (\<lambda>x. ss_token x = tok) (user_sessions s))" by simp
  then have x: "x \<in> set (user_sessions s)" "ss_token x = tok" by simp_all
  have d: "distinct (map ss_token (user_sessions s))" using assms by (simp add: accounts_ok_def)
  from filter_key_singleton [OF d x(1)] x(2) have f: "filter (\<lambda>x. ss_token x = tok) (user_sessions s) = [x]"
    by simp
  have "filter (\<lambda>y. ss_token y = tok \<and> now < ss_expires_at y) (user_sessions s) =
      filter (\<lambda>y. now < ss_expires_at y) (filter (\<lambda>y. ss_token y = tok) (user_sessions s))"
    by (simp add: conj_commute)
  then show ?thesis by (simp add: f validate_user_session_def live_session_def)
qed

lemma authenticate_iff:
  assumes "accounts_ok s"
  shows "authenticate_session s now header = Inr x \<longleftrightarrow>
    (\<exists>tok. header = Some (''Bearer '' @ tok) \<and> x \<in> set (user_sessions s) \<and> ss_token x = tok \<and> now < ss_expires_at x)"
  by (cases header) (auto simp: authenticate_session_def result_elims strip_prefix_Some validate_iff [OF assms])

lemma authenticate_cases:
  "authenticate_session s now header = Inl Unauthorized \<or> (\<exists>x. authenticate_session s now header = Inr x)"
  by (auto simp: authenticate_session_def ok_or_def bindR_def split: option.splits)

lemma get_vault_member_iff:
  assumes "accounts_ok s"
  shows "get_vault_member s u v = Some m \<longleftrightarrow> m \<in> set (vault_members s) \<and> vm_user_id m = u \<and> vm_vault_id m = v"
proof
  assume "get_vault_member s u v = Some m"
  then show "m \<in> set (vault_members s) \<and> vm_user_id m = u \<and> vm_vault_id m = v"
    unfolding get_vault_member_def by (drule_tac fetch_optional_in) simp
next
  have dist: "distinct (map member_key (vault_members s))" using assms by (simp add: accounts_ok_def)
  assume "m \<in> set (vault_members s) \<and> vm_user_id m = u \<and> vm_vault_id m = v"
  then show "get_vault_member s u v = Some m"
    using filter_key_singleton [OF dist, of m] by (auto simp: get_vault_member_def member_key_def)
qed

lemma get_vault_member_None:
  "(u, v) \<notin> member_key ` set (vault_members s) \<Longrightarrow> get_vault_member s u v = None"
  by (auto simp: get_vault_member_def member_key_def filter_empty_conv)

lemma require_role_iff:
  assumes ok: "accounts_ok s"
  shows "require_role s now header q = Inr c \<longleftrightarrow>
    (\<exists>x v m. authenticate_session s now header = Inr x \<and> vault_state s = Some v \<and> m \<in> set (vault_members s) \<and>
       vm_user_id m = ss_user_id x \<and> vm_vault_id m = vr_vault_id v \<and> Role_from_str (vm_role m) = Some (ca_role c) \<and>
       q \<le> ca_role c \<and> ca_user_id c = ss_user_id x \<and> ca_device_id c = ss_device_id x \<and>
       ca_vault_id c = vr_vault_id v)" (is "?l \<longleftrightarrow> ?r")
proof
  assume ?l
  then obtain x v m where x: "authenticate_session s now header = Inr x" and v: "vault_state s = Some v"
    and m: "get_vault_member s (ss_user_id x) (vr_vault_id v) = Some m"
    and r: "Role_from_str (vm_role m) = Some (ca_role c)" "satisfies (ca_role c) q"
    and c: "ca_user_id c = ss_user_id x" "ca_device_id c = ss_device_id x" "ca_vault_id c = vr_vault_id v"
    by (auto simp: require_role_def result_elims get_vault_params_def split: if_splits)
  then show ?r unfolding get_vault_member_iff [OF ok] satisfies_iff by blast
next
  assume ?r
  then obtain x v m where x: "authenticate_session s now header = Inr x" and v: "vault_state s = Some v"
    and m: "m \<in> set (vault_members s)" "vm_user_id m = ss_user_id x" "vm_vault_id m = vr_vault_id v"
    and r: "Role_from_str (vm_role m) = Some (ca_role c)" "q \<le> ca_role c"
    and c: "ca_user_id c = ss_user_id x" "ca_device_id c = ss_device_id x" "ca_vault_id c = vr_vault_id v"
    by blast
  have "get_vault_member s (ss_user_id x) (vr_vault_id v) = Some m" using m by (simp add: get_vault_member_iff [OF ok])
  then show ?l using x v r c by (cases c) (simp add: require_role_def get_vault_params_def satisfies_iff)
qed

section \<open>Properties\<close>

text \<open>
  C14: the role check is exact. A request passes with a role exactly when its header carries, after
  \<open>Bearer\<close>, the token of a session that has not expired, the vault is initialised, the user of the session is
  a member of this vault, and the role of that member is at least the one required; the caller reported is
  the user and device of that session. Without such a session the answer is 401, for a user outside the vault
  403, and a check that passes for a role passes for every weaker one.
\<close>

theorem require_role_exact:
  assumes ok: "accounts_ok s"
  shows "(require_role s now header q = Inr c \<longleftrightarrow>
      (\<exists>tok x v m. header = Some (''Bearer '' @ tok) \<and> x \<in> set (user_sessions s) \<and> ss_token x = tok \<and>
         now < ss_expires_at x \<and> vault_state s = Some v \<and> m \<in> set (vault_members s) \<and>
         vm_user_id m = ss_user_id x \<and> vm_vault_id m = vr_vault_id v \<and> Role_from_str (vm_role m) = Some (ca_role c) \<and>
         q \<le> ca_role c \<and> ca_user_id c = ss_user_id x \<and> ca_device_id c = ss_device_id x \<and>
         ca_vault_id c = vr_vault_id v)) \<and>
    (\<not> (\<exists>tok x. header = Some (''Bearer '' @ tok) \<and> x \<in> set (user_sessions s) \<and> ss_token x = tok \<and>
          now < ss_expires_at x) \<longrightarrow> require_role s now header q = Inl Unauthorized) \<and>
    (\<forall>x v. authenticate_session s now header = Inr x \<longrightarrow> vault_state s = Some v \<longrightarrow>
       (ss_user_id x, vr_vault_id v) \<notin> member_key ` set (vault_members s) \<longrightarrow>
       require_role s now header q = Inl Forbidden) \<and>
    (\<forall>q'. require_role s now header q = Inr c \<longrightarrow> q' \<le> q \<longrightarrow> require_role s now header q' = Inr c)"
proof (intro conjI)
  show "\<not> (\<exists>tok x. header = Some (''Bearer '' @ tok) \<and> x \<in> set (user_sessions s) \<and> ss_token x = tok \<and>
      now < ss_expires_at x) \<longrightarrow> require_role s now header q = Inl Unauthorized"
    using authenticate_cases [of s now header] by (auto simp: authenticate_iff [OF ok] require_role_def)
  show "\<forall>x v. authenticate_session s now header = Inr x \<longrightarrow> vault_state s = Some v \<longrightarrow>
      (ss_user_id x, vr_vault_id v) \<notin> member_key ` set (vault_members s) \<longrightarrow>
      require_role s now header q = Inl Forbidden"
    by (simp add: require_role_def get_vault_params_def get_vault_member_None)
  show "\<forall>q'. require_role s now header q = Inr c \<longrightarrow> q' \<le> q \<longrightarrow> require_role s now header q' = Inr c"
    unfolding require_role_iff [OF ok] using order_trans by blast
qed (unfold require_role_iff [OF ok] authenticate_iff [OF ok], blast)

definition session_db :: adb where
  "session_db = empty_adb\<lparr>users := [\<lparr>us_user_id = ''u1'', us_display_name = ''Ann'', us_email = None,
       us_auth_provider = ''local'', us_auth_subject = None, us_created_at = 0, us_refresh_token = None,
       us_refresh_token_ciphertext = None\<rparr>],
     devices := [new_device ''d1'' ''u1'' ''laptop'' (replicate 32 1) 0],
     vault_members := [\<lparr>vm_user_id = ''u1'', vm_vault_id = ''v1'', vm_role = ''admin'', vm_invited_by = None,
       vm_joined_at = 0\<rparr>],
     user_sessions := [\<lparr>ss_token = ''t1'', ss_user_id = ''u1'', ss_device_id = ''d1'', ss_created_at = 0,
       ss_expires_at = 100\<rparr>],
     vault_state := Some \<lparr>vr_master_key_salt = [], vr_argon2_params = (''LOCAL_VAULT'', 2, 262144, 3, 1),
       vr_vault_id = ''v1'', vr_vault_format_version = None, vr_encrypted_vault_key = None,
       vr_vault_key_generation = None, vr_legacy_read_key = None\<rparr>\<rparr>"

lemma session_db_ok: "accounts_ok session_db"
  by (simp add: session_db_def accounts_ok_def empty_adb_def user_ids_def new_device_def refers_to_def)

theorem require_role_exact_witness:
  "require_role session_db 50 (Some ''Bearer t1'') Member =
     Inr \<lparr>ca_user_id = ''u1'', ca_device_id = ''d1'', ca_vault_id = ''v1'', ca_role = Admin\<rparr> \<and>
   require_role session_db 100 (Some ''Bearer t1'') Member = Inl Unauthorized"
proof -
  note ex = require_role_exact [OF session_db_ok]
  have "\<exists>tok x v m. Some ''Bearer t1'' = Some (''Bearer '' @ tok) \<and> x \<in> set (user_sessions session_db) \<and>
     ss_token x = tok \<and> 50 < ss_expires_at x \<and> vault_state session_db = Some v \<and> m \<in> set (vault_members session_db) \<and>
     vm_user_id m = ss_user_id x \<and> vm_vault_id m = vr_vault_id v \<and> Role_from_str (vm_role m) = Some Admin \<and>
     ''u1'' = ss_user_id x \<and> ''d1'' = ss_device_id x \<and> ''v1'' = vr_vault_id v"
    by (simp add: session_db_def Role_from_str_def)
  moreover have "Member \<le> Admin" by (simp add: less_eq_Role_def)
  ultimately have "require_role session_db 50 (Some ''Bearer t1'') Member =
      Inr \<lparr>ca_user_id = ''u1'', ca_device_id = ''d1'', ca_vault_id = ''v1'', ca_role = Admin\<rparr>"
    using ex [of 50 "Some ''Bearer t1''" Member
        "\<lparr>ca_user_id = ''u1'', ca_device_id = ''d1'', ca_vault_id = ''v1'', ca_role = Admin\<rparr>"] by simp
  moreover have "require_role session_db 100 (Some ''Bearer t1'') Member = Inl Unauthorized"
    using ex [of 100 "Some ''Bearer t1''" Member] by (simp add: session_db_def)
  ultimately show ?thesis by blast
qed

text \<open>
  The life of a session. A new session is valid until exactly its time to live has passed and not
  longer; renewing moves the end but only while the session is still valid; logging out ends this session and
  no other, for good; and sweeping expired sessions changes no answer from then on.
\<close>

theorem session_lifecycle:
  assumes ok: "accounts_ok s" and new: "create_user_session s now tok u d ttl = Inr (x, s1)"
  shows "validate_user_session s1 t tok = (if t < now + ttl then Some x else None) \<and>
    validate_user_session (snd (renew_user_session s1 t1 tok ttl1)) t tok =
      (if t1 < now + ttl
       then (if t < t1 + ttl1 then Some (x\<lparr>ss_expires_at := t1 + ttl1\<rparr>) else None)
       else (if t < now + ttl then Some x else None)) \<and>
    validate_user_session (snd (delete_user_session s1 tok)) t tok = None \<and>
    (k \<noteq> tok \<longrightarrow> validate_user_session (snd (delete_user_session s1 tok)) t k = validate_user_session s1 t k) \<and>
    (t1 \<le> t \<longrightarrow> validate_user_session (snd (cleanup_expired_sessions s1 t1)) t k = validate_user_session s1 t k)"
proof -
  from new have x: "ss_token x = tok" "ss_expires_at x = now + ttl" and s1: "user_sessions s1 = user_sessions s @ [x]"
    and fresh: "tok \<notin> ss_token ` set (user_sessions s)"
    by (auto simp: create_user_session_def Let_def split: if_splits)
  note ok1 = accounts_ok_create_user_session [OF ok new]
  have old: "filter (\<lambda>y. ss_token y = tok) (user_sessions s) = []"
    using fresh by (auto simp: filter_empty_conv)
  then have one: "filter (\<lambda>y. ss_token y = tok) (user_sessions s1) = [x]" using x by (simp add: s1)
  have a: "validate_user_session s1 t tok = (if t < now + ttl then Some x else None)"
    using x one by (simp add: validate_live_session [OF ok1] live_session_def)
  have "filter (\<lambda>y. ss_token y = tok)
      (update_where (\<lambda>y. ss_token y = tok \<and> t1 < ss_expires_at y) (\<lambda>y. y\<lparr>ss_expires_at := t1 + ttl1\<rparr>) (user_sessions s1)) =
      [if t1 < now + ttl then x\<lparr>ss_expires_at := t1 + ttl1\<rparr> else x]"
    by (simp add: filter_update_where one x)
  then have b: "validate_user_session (snd (renew_user_session s1 t1 tok ttl1)) t tok =
      (if t1 < now + ttl then (if t < t1 + ttl1 then Some (x\<lparr>ss_expires_at := t1 + ttl1\<rparr>) else None)
       else (if t < now + ttl then Some x else None))"
    using x accounts_ok_update_sessions [OF ok1, of "\<lambda>y. y\<lparr>ss_expires_at := t1 + ttl1\<rparr>"]
    by (simp add: validate_live_session live_session_def renew_user_session_def Let_def)
  have c: "validate_user_session (snd (delete_user_session s1 tok)) t k' =
      (if k' = tok then None else validate_user_session s1 t k')" for k'
    using sess.valid_revoke [of tok "user_sessions s1" t k']
    by (simp add: validate_live_session accounts_ok_delete_sessions ok1 delete_user_session_def)
  have "validate_user_session (snd (cleanup_expired_sessions s1 t1)) t k = validate_user_session s1 t k" if "t1 \<le> t"
    using that by (simp add: cleanup_expired_sessions_def validate_user_session_def delete_where_def)
      (rule arg_cong [where f = fetch_optional], rule filter_cong, auto)
  with a b c show ?thesis by auto
qed

theorem session_lifecycle_witness:
  "\<exists>x s1. create_user_session session_db 10 ''t2'' ''u1'' ''d1'' 60 = Inr (x, s1) \<and>
     validate_user_session s1 69 ''t2'' = Some x \<and> validate_user_session s1 70 ''t2'' = None \<and>
     validate_user_session (snd (delete_user_session s1 ''t2'')) 20 ''t2'' = None"
proof -
  obtain x s1 where r: "create_user_session session_db 10 ''t2'' ''u1'' ''d1'' 60 = Inr (x, s1)"
    by (simp add: create_user_session_def session_db_def user_ids_def Let_def)
  from session_lifecycle [OF session_db_ok r, of 69] session_lifecycle [OF session_db_ok r, of 70]
    session_lifecycle [OF session_db_ok r, of 20] r show ?thesis by auto
qed

end
