(* ===== verification/KeyStore.thy ===== *)
theory KeyStore
  imports Accounts
begin

text \<open>
  \<^verbatim>\<open>db/vault_state.rs\<close>: the rows of the vault record and its key-derivation parameters, the wrapped
  data-encryption keys (DEKs), the key a pack is bound to, and the queue of DEKs to re-wrap after a rotation of the
  vault key. \<open>argon2_params\<close>, a JSON text in the table, is kept as the tuple of its fields.
\<close>

section \<open>The vault record\<close>

type_synonym argon2_json = "string \<times> int \<times> int \<times> int \<times> int"

definition set_vault_params :: "adb \<Rightarrow> bytes \<Rightarrow> argon2_json \<Rightarrow> string \<Rightarrow> adb" where
  "set_vault_params s master_salt params_json vault_id =
     s\<lparr>vault_state := Some (case vault_state s of
         None \<Rightarrow> \<lparr>vr_master_key_salt = master_salt, vr_argon2_params = params_json, vr_vault_id = vault_id,
           vr_vault_format_version = None, vr_encrypted_vault_key = None, vr_vault_key_generation = None,
           vr_legacy_read_key = None\<rparr>
       | Some v \<Rightarrow> v\<lparr>vr_master_key_salt := master_salt, vr_argon2_params := params_json, vr_vault_id := vault_id\<rparr>)\<rparr>"

definition update_vault_state :: "(VaultRecord \<Rightarrow> VaultRecord) \<Rightarrow> adb \<Rightarrow> adb" where
  "update_vault_state f s = s\<lparr>vault_state := map_option f (vault_state s)\<rparr>"

definition store_encrypted_vault_key :: "adb \<Rightarrow> bytes \<Rightarrow> int \<Rightarrow> adb" where
  "store_encrypted_vault_key s wrapped generation =
     update_vault_state (\<lambda>v. v\<lparr>vr_encrypted_vault_key := Some wrapped, vr_vault_key_generation := Some generation,
       vr_vault_format_version := Some 2\<rparr>) s"

definition rotate_vault_state :: "adb \<Rightarrow> bytes \<Rightarrow> argon2_json \<Rightarrow> bytes \<Rightarrow> int \<Rightarrow> adb" where
  "rotate_vault_state s new_salt params_json wrapped generation =
     update_vault_state (\<lambda>v. v\<lparr>vr_master_key_salt := new_salt, vr_argon2_params := params_json,
       vr_encrypted_vault_key := Some wrapped, vr_vault_key_generation := Some generation\<rparr>) s"

definition rotate_vault_key_only :: "adb \<Rightarrow> bytes \<Rightarrow> int \<Rightarrow> adb" where
  "rotate_vault_key_only s wrapped generation =
     update_vault_state (\<lambda>v. v\<lparr>vr_encrypted_vault_key := Some wrapped, vr_vault_key_generation := Some generation\<rparr>) s"

definition get_vault_config :: "adb \<Rightarrow> VaultConfigRecord option" where
  "get_vault_config s = vault_config s"

definition set_vault_config :: "adb \<Rightarrow> bytes \<Rightarrow> int \<Rightarrow> int \<Rightarrow> int \<Rightarrow> int \<Rightarrow> adb" where
  "set_vault_config s new_salt version memory tcost nlanes =
     s\<lparr>vault_config := Some \<lparr>vc_salt = new_salt, vc_parameter_set_version = version, vc_memory_cost_kib = memory,
        vc_time_cost = tcost, vc_lanes = nlanes\<rparr>\<rparr>"

definition get_legacy_read_key :: "adb \<Rightarrow> bytes option" where
  "get_legacy_read_key s = Option.bind (vault_state s) vr_legacy_read_key"

record KdfMigrationWrites =
  kw_new_salt :: bytes
  kw_new_argon2_params :: argon2_json
  kw_new_param_version :: int
  kw_new_memory_cost_kib :: int
  kw_new_time_cost :: int
  kw_new_lanes :: int
  kw_new_encrypted_vault_key :: bytes
  kw_legacy_read_key_blob :: bytes
  kw_new_device_private_key :: "bytes option"

definition migrate_kdf_params_tx :: "adb \<Rightarrow> KdfMigrationWrites \<Rightarrow> adb" where
  "migrate_kdf_params_tx s w =
     (let s1 = s\<lparr>vault_config := map_option (\<lambda>c. c\<lparr>vc_salt := kw_new_salt w,
            vc_parameter_set_version := kw_new_param_version w, vc_memory_cost_kib := kw_new_memory_cost_kib w,
            vc_time_cost := kw_new_time_cost w, vc_lanes := kw_new_lanes w\<rparr>) (vault_config s)\<rparr>;
          s2 = update_vault_state (\<lambda>v. v\<lparr>vr_master_key_salt := kw_new_salt w,
            vr_argon2_params := kw_new_argon2_params w, vr_encrypted_vault_key := Some (kw_new_encrypted_vault_key w),
            vr_legacy_read_key := Some (kw_legacy_read_key_blob w)\<rparr>) s1
      in case kw_new_device_private_key w of
           None \<Rightarrow> s2
         | Some blob \<Rightarrow> s2\<lparr>local_device_identity :=
             map_option (\<lambda>d. d\<lparr>ld_encrypted_private_key := Some blob\<rparr>) (local_device_identity s2)\<rparr>)"

section \<open>Data-encryption keys\<close>

definition get_wrapped_dek :: "adb \<Rightarrow> int \<Rightarrow> WrappedDekRecord option" where
  "get_wrapped_dek s inode_id =
     fetch_optional (sort_key (\<lambda>k. - dk_key_version k)
       (filter (\<lambda>k. dk_inode_id k = inode_id) (data_encryption_keys s)))"

definition dek_key :: "WrappedDekRecord \<Rightarrow> int \<times> int" where
  "dek_key k = (dk_inode_id k, dk_key_version k)"

definition insert_wrapped_dek :: "adb \<Rightarrow> int \<Rightarrow> int \<Rightarrow> bytes \<Rightarrow> int \<Rightarrow> int \<Rightarrow> sqlx_error + int \<times> adb" where
  "insert_wrapped_dek s now_ms inode_id wrapped key_version vault_key_gen =
     (if (inode_id, key_version) \<in> set (map dek_key (data_encryption_keys s)) then Inl UniqueViolation
      else let new_id = data_encryption_keys_seq s + 1
           in Inr (new_id, s\<lparr>data_encryption_keys := data_encryption_keys s @ [\<lparr>dk_dek_id = new_id,
                dk_inode_id = inode_id, dk_wrapped_dek = wrapped, dk_key_version = key_version,
                dk_vault_key_gen = vault_key_gen, dk_created_at = now_ms\<rparr>], data_encryption_keys_seq := new_id\<rparr>))"

definition set_pack_dek :: "adb \<Rightarrow> string \<Rightarrow> int \<Rightarrow> adb" where
  "set_pack_dek s pack_id dek_id =
     (if pack_id \<in> set (map fst (pack_deks s)) then s else s\<lparr>pack_deks := pack_deks s @ [(pack_id, dek_id)]\<rparr>)"

definition get_pack_dek_id :: "adb \<Rightarrow> string \<Rightarrow> int option" where
  "get_pack_dek_id s pack_id = map_option snd (fetch_optional (filter (\<lambda>p. fst p = pack_id) (pack_deks s)))"

definition get_wrapped_dek_by_id :: "adb \<Rightarrow> int \<Rightarrow> WrappedDekRecord option" where
  "get_wrapped_dek_by_id s dek_id = fetch_optional (filter (\<lambda>k. dk_dek_id k = dek_id) (data_encryption_keys s))"

definition next_dek_key_version :: "adb \<Rightarrow> int \<Rightarrow> int" where
  "next_dek_key_version s inode_id =
     (let versions = map dk_key_version (filter (\<lambda>k. dk_inode_id k = inode_id) (data_encryption_keys s))
      in (if versions = [] then 0 else Max (set versions)) + 1)"

text \<open>The earliest revision that refers to a chunk of the pack.\<close>

definition creating_inode_for_pack :: "adb \<Rightarrow> string \<Rightarrow> int option" where
  "creating_inode_for_pack s pack_id =
     map_option fr_inode_id (fetch_optional (sort_key fr_revision_id
       (filter (\<lambda>r. list_ex (\<lambda>c. cref_revision_id c = fr_revision_id r \<and>
            list_ex (\<lambda>l. pl_chunk_id l = cref_chunk_id c \<and> pl_pack_id l = pack_id) (pack_locations (ad_core s)))
          (chunk_refs (ad_core s))) (file_revisions (ad_core s)))))"

definition get_all_wrapped_deks :: "adb \<Rightarrow> WrappedDekRecord list" where
  "get_all_wrapped_deks s = sort_key dk_dek_id (data_encryption_keys s)"

definition update_wrapped_dek :: "adb \<Rightarrow> int \<Rightarrow> bytes \<Rightarrow> int \<Rightarrow> adb" where
  "update_wrapped_dek s dek_id wrapped vault_key_gen =
     s\<lparr>data_encryption_keys := update_where (\<lambda>k. dk_dek_id k = dek_id)
        (\<lambda>k. k\<lparr>dk_wrapped_dek := wrapped, dk_vault_key_gen := vault_key_gen\<rparr>) (data_encryption_keys s)\<rparr>"

definition get_deks_by_generation :: "adb \<Rightarrow> int \<Rightarrow> WrappedDekRecord list" where
  "get_deks_by_generation s vault_key_gen =
     sort_key dk_dek_id (filter (\<lambda>k. dk_vault_key_gen k = vault_key_gen) (data_encryption_keys s))"

section \<open>The re-wrap queue\<close>

text \<open>\<open>INSERT OR IGNORE\<close>: a DEK that is already queued, even as failed, keeps its row. The text of the
  error of a failed item (column \<open>error\<close>) is left out: no code reads it.\<close>

definition enqueue_deks_for_rewrap :: "adb \<Rightarrow> int \<Rightarrow> nat \<times> adb" where
  "enqueue_deks_for_rewrap s target =
     (let new = map (\<lambda>k. \<lparr>rq_dek_id = dk_dek_id k, rq_source_vk_generation = dk_vault_key_gen k,
                 rq_target_vk_generation = target, rq_status = ''PENDING'', rq_attempted_at = None\<rparr>)
            (filter (\<lambda>k. dk_vault_key_gen k < target \<and>
               dk_dek_id k \<notin> set (map rq_dek_id (dek_rewrap_queue s))) (data_encryption_keys s))
      in (length new, s\<lparr>dek_rewrap_queue := dek_rewrap_queue s @ new\<rparr>))"

fun attach_deks :: "adb \<Rightarrow> RewrapQueueItem list \<Rightarrow> sqlx_error + (RewrapQueueItem \<times> bytes) list" where
  "attach_deks s [] = Inr []"
| "attach_deks s (i # is) =
     (case get_wrapped_dek_by_id s (rq_dek_id i) of
        None \<Rightarrow> Inl RowNotFound
      | Some k \<Rightarrow> bindR (attach_deks s is) (\<lambda>rest. Inr ((i, dk_wrapped_dek k) # rest)))"

definition get_pending_rewrap_batch :: "adb \<Rightarrow> int \<Rightarrow> sqlx_error + (RewrapQueueItem \<times> bytes) list" where
  "get_pending_rewrap_batch s lim =
     attach_deks s (sql_limit lim (sort_key rq_dek_id
       (filter (\<lambda>i. rq_status i = ''PENDING'') (dek_rewrap_queue s))))"

definition complete_rewrap_item :: "adb \<Rightarrow> int \<Rightarrow> adb" where
  "complete_rewrap_item s dek_id =
     s\<lparr>dek_rewrap_queue := delete_where (\<lambda>i. rq_dek_id i = dek_id) (dek_rewrap_queue s)\<rparr>"

definition fail_rewrap_item :: "adb \<Rightarrow> int \<Rightarrow> int \<Rightarrow> adb" where
  "fail_rewrap_item s now dek_id =
     s\<lparr>dek_rewrap_queue := update_where (\<lambda>i. rq_dek_id i = dek_id)
        (\<lambda>i. i\<lparr>rq_status := ''FAILED'', rq_attempted_at := Some now\<rparr>) (dek_rewrap_queue s)\<rparr>"

definition get_rewrap_status :: "adb \<Rightarrow> int \<times> int \<times> int" where
  "get_rewrap_status s =
     (int (length (dek_rewrap_queue s)),
      int (length (filter (\<lambda>i. rq_status i = ''PENDING'') (dek_rewrap_queue s))),
      int (length (filter (\<lambda>i. rq_status i = ''FAILED'') (dek_rewrap_queue s))))"

section \<open>Keys of the tables\<close>

definition keys_ok :: "adb \<Rightarrow> bool" where
  "keys_ok s \<longleftrightarrow>
     distinct (map dk_dek_id (data_encryption_keys s)) \<and>
     distinct (map dek_key (data_encryption_keys s)) \<and>
     list_all (\<lambda>k. dk_dek_id k \<le> data_encryption_keys_seq s) (data_encryption_keys s) \<and>
     distinct (map fst (pack_deks s)) \<and>
     distinct (map rq_dek_id (dek_rewrap_queue s))"

lemma keys_ok_insert:
  assumes "keys_ok s" and "insert_wrapped_dek s now i w v g = Inr (new, s')"
  shows "keys_ok s'"
proof -
  from assms(2) have n: "(i, v) \<notin> dek_key ` set (data_encryption_keys s)" and new: "new = data_encryption_keys_seq s + 1"
    and s': "s' = s\<lparr>data_encryption_keys := data_encryption_keys s @ [\<lparr>dk_dek_id = new, dk_inode_id = i,
      dk_wrapped_dek = w, dk_key_version = v, dk_vault_key_gen = g, dk_created_at = now\<rparr>],
      data_encryption_keys_seq := new\<rparr>"
    by (auto simp: insert_wrapped_dek_def Let_def split: if_splits)
  have "new \<notin> dk_dek_id ` set (data_encryption_keys s)"
    using assms(1) by (auto simp: keys_ok_def list_all_iff new)
  moreover have "list_all (\<lambda>k. dk_dek_id k \<le> new) (data_encryption_keys s)"
    using assms(1) by (auto simp: keys_ok_def list_all_iff new)
  ultimately show ?thesis using assms(1) n by (simp add: keys_ok_def s' dek_key_def)
qed

lemma keys_ok_update_dek: "keys_ok s \<Longrightarrow> keys_ok (update_wrapped_dek s d w g)"
  by (simp add: keys_ok_def update_wrapped_dek_def update_where_key dek_key_def list_all_update_where)

lemma keys_ok_complete: "keys_ok s \<Longrightarrow> keys_ok (complete_rewrap_item s d)"
  by (simp add: keys_ok_def complete_rewrap_item_def distinct_delete_where)

lemma keys_ok_fail: "keys_ok s \<Longrightarrow> keys_ok (fail_rewrap_item s now d)"
  by (simp add: keys_ok_def fail_rewrap_item_def update_where_key)

lemma keys_ok_enqueue: "keys_ok s \<Longrightarrow> keys_ok (snd (enqueue_deks_for_rewrap s g))"
  by (auto simp: keys_ok_def enqueue_deks_for_rewrap_def Let_def o_def distinct_map_filter) (metis imageI)

lemma keys_ok_set_pack_dek: "keys_ok s \<Longrightarrow> keys_ok (set_pack_dek s p d)"
  by (auto simp: keys_ok_def set_pack_dek_def)

lemma next_version_fresh: "(i, next_dek_key_version s i) \<notin> dek_key ` set (data_encryption_keys s)"
proof -
  let ?vs = "map dk_key_version (filter (\<lambda>k. dk_inode_id k = i) (data_encryption_keys s))"
  have "dk_key_version k < next_dek_key_version s i" if "k \<in> set (data_encryption_keys s)" "dk_inode_id k = i" for k
  proof -
    have k: "dk_key_version k \<in> set ?vs" using that by auto
    then have "dk_key_version k \<le> Max (set ?vs)" by (rule Max_ge [OF finite_set])
    moreover have "?vs \<noteq> []" using k by (metis empty_iff empty_set)
    ultimately show ?thesis by (simp add: next_dek_key_version_def)
  qed
  then show ?thesis by (fastforce simp: dek_key_def)
qed

end
