(* ===== verification/Identity.thy ===== *)
theory Identity
  imports Hybrid Accounts
begin

text \<open>
  \<^verbatim>\<open>identity.rs\<close>: the X25519 and ML-KEM key pairs of the local device, sealed at rest under a key derived from the
  master key, and the wrap of the vault key for another device; \<^verbatim>\<open>recovery.rs\<close> and \<^verbatim>\<open>sharing.rs\<close>: the wraps of
  the vault key under a recovery phrase and of a pack key under a share link. X25519 and BIP-39 are crates outside
  the repository: parameters with their documented laws. Random bytes are arguments.
\<close>

section \<open>Primitives\<close>

record dh_prims =
  x25519_public :: "bytes \<Rightarrow> bytes"
  x25519_dh :: "bytes \<Rightarrow> bytes \<Rightarrow> bytes"

text \<open>RFC 7748: keys and shared secrets have 32 bytes, and both sides compute the same secret.\<close>

definition dh_ok :: "dh_prims \<Rightarrow> bool" where
  "dh_ok X \<longleftrightarrow> (\<forall>a. length a = 32 \<longrightarrow> length (x25519_public X a) = 32) \<and>
     (\<forall>a b. length (x25519_dh X a b) = 32) \<and>
     (\<forall>a b. x25519_dh X a (x25519_public X b) = x25519_dh X b (x25519_public X a))"

datatype IdentityError = NoDeviceIdentity | Id_Crypto

definition IDENTITY_KEK_INFO :: bytes where "IDENTITY_KEK_INFO = str_bytes ''omnidrive-identity-kek-v1''"
definition VAULT_KEY_WRAP_INFO :: bytes where "VAULT_KEY_WRAP_INFO = str_bytes ''vault-key-wrap-v1''"
definition NONCE_LEN :: nat where "NONCE_LEN = 12"

definition crypto_result :: "CryptoError + 'a \<Rightarrow> IdentityError + 'a" where
  "crypto_result r = map_err (\<lambda>_. Id_Crypto) r"

lemma crypto_result_simps [simp]: "crypto_result (Inr x) = Inr x" "crypto_result (Inl e) = Inl Id_Crypto"
  by (simp_all add: crypto_result_def)

lemma crypto_result_Inr: "crypto_result r = Inr x \<longleftrightarrow> r = Inr x"
  by (cases r) simp_all

section \<open>Keys at rest\<close>

definition derive_identity_kek :: "crypto_prims \<Rightarrow> bytes \<Rightarrow> IdentityError + bytes" where
  "derive_identity_kek P mk = crypto_result (expand_labeled_key P mk IDENTITY_KEK_INFO)"

text \<open>The cipher appends the tag to the ciphertext; opening splits the last 16 bytes off again.\<close>

definition gcm_open_combined :: "crypto_prims \<Rightarrow> bytes \<Rightarrow> bytes \<Rightarrow> bytes \<Rightarrow> CryptoError + bytes" where
  "gcm_open_combined P k n c =
     (if length c < GCM_TAG_LEN then Inl Aead
      else gcm_open P k n [] (take (length c - GCM_TAG_LEN) c) (drop (length c - GCM_TAG_LEN) c))"

definition seal_secret_blob :: "crypto_prims \<Rightarrow> bytes \<Rightarrow> bytes \<Rightarrow> bytes \<Rightarrow> IdentityError + bytes" where
  "seal_secret_blob P nonce kk plaintext =
     bindR (crypto_result (gcm_seal P kk nonce [] plaintext)) (\<lambda>(ct, tag). Inr (nonce @ ct @ tag))"

definition open_secret_blob :: "crypto_prims \<Rightarrow> bytes \<Rightarrow> bytes \<Rightarrow> IdentityError + bytes" where
  "open_secret_blob P kk blob =
     (if length blob < NONCE_LEN + 16 then Inl Id_Crypto
      else crypto_result (gcm_open_combined P kk (take NONCE_LEN blob) (drop NONCE_LEN blob)))"

definition encrypt_private_key :: "crypto_prims \<Rightarrow> bytes \<Rightarrow> bytes \<Rightarrow> bytes \<Rightarrow> IdentityError + bytes" where
  "encrypt_private_key P nonce kk private_key =
     bindR (crypto_result (gcm_seal P kk nonce [] private_key)) (\<lambda>(ct, tag). Inr (nonce @ ct @ tag))"

definition decrypt_private_key :: "crypto_prims \<Rightarrow> bytes \<Rightarrow> bytes \<Rightarrow> IdentityError + bytes" where
  "decrypt_private_key P kk blob =
     (if length blob < NONCE_LEN + 32 then Inl Id_Crypto
      else bindR (crypto_result (gcm_open_combined P kk (take NONCE_LEN blob) (drop NONCE_LEN blob))) (\<lambda>pt.
        if length pt \<noteq> 32 then Inl Id_Crypto else Inr pt))"

definition reseal_local_device_private_key ::
  "crypto_prims \<Rightarrow> bytes \<Rightarrow> bytes \<Rightarrow> bytes \<Rightarrow> bytes \<Rightarrow> IdentityError + bytes" where
  "reseal_local_device_private_key P nonce old_master new_master current_blob =
     bindR (derive_identity_kek P old_master) (\<lambda>old_kek.
     bindR (decrypt_private_key P old_kek current_blob) (\<lambda>private_key.
     bindR (derive_identity_kek P new_master) (\<lambda>new_kek.
       encrypt_private_key P nonce new_kek private_key)))"

definition get_device_private_key :: "crypto_prims \<Rightarrow> adb \<Rightarrow> bytes \<Rightarrow> IdentityError + bytes" where
  "get_device_private_key P s mk =
     bindR (ok_or NoDeviceIdentity (get_local_device_identity s)) (\<lambda>device.
     bindR (ok_or Id_Crypto (ld_encrypted_private_key device)) (\<lambda>encrypted.
     bindR (derive_identity_kek P mk) (\<lambda>kek. decrypt_private_key P kek encrypted)))"

definition get_device_kyber_private_key :: "crypto_prims \<Rightarrow> adb \<Rightarrow> bytes \<Rightarrow> IdentityError + bytes" where
  "get_device_kyber_private_key P s mk =
     bindR (ok_or NoDeviceIdentity (get_local_device_identity s)) (\<lambda>device.
     bindR (ok_or Id_Crypto (ld_encrypted_kyber_private_key device)) (\<lambda>encrypted.
     bindR (derive_identity_kek P mk) (\<lambda>kek. open_secret_blob P kek encrypted)))"

definition has_keypair :: "LocalDeviceIdentityRecord \<Rightarrow> bool" where
  "has_keypair d \<longleftrightarrow> ld_encrypted_private_key d \<noteq> None \<and>
     (case ld_public_key d of None \<Rightarrow> False | Some pk \<Rightarrow> length pk = 32)"

definition ensure_device_keypair ::
  "crypto_prims \<Rightarrow> dh_prims \<Rightarrow> bytes \<Rightarrow> bytes \<Rightarrow> int \<Rightarrow> adb \<Rightarrow> bytes \<Rightarrow> IdentityError + bytes \<times> adb" where
  "ensure_device_keypair P X secret nonce now s mk =
     bindR (ok_or NoDeviceIdentity (get_local_device_identity s)) (\<lambda>device.
       if has_keypair device then Inr (the (ld_public_key device), s)
       else let public = x25519_public X secret
            in bindR (derive_identity_kek P mk) (\<lambda>kek.
               bindR (encrypt_private_key P nonce kek secret) (\<lambda>encrypted_private.
                 let s1 = store_device_keypair s now encrypted_private public
                 in Inr (public, snd (set_device_public_key s1 now (ld_device_id device) public)))))"

definition has_kyber_keypair :: "LocalDeviceIdentityRecord \<Rightarrow> bool" where
  "has_kyber_keypair d \<longleftrightarrow> ld_encrypted_kyber_private_key d \<noteq> None \<and>
     (case ld_kyber_public_key d of None \<Rightarrow> False | Some pk \<Rightarrow> length pk = ML_KEM_768_ENCAPS_KEY_LEN)"

definition ensure_device_kyber_keypair ::
  "crypto_prims \<Rightarrow> bytes \<times> bytes \<Rightarrow> bytes \<Rightarrow> int \<Rightarrow> adb \<Rightarrow> bytes \<Rightarrow> IdentityError + bytes \<times> adb" where
  "ensure_device_kyber_keypair P keypair nonce now s mk =
     bindR (ok_or NoDeviceIdentity (get_local_device_identity s)) (\<lambda>device.
       if has_kyber_keypair device then Inr (the (ld_kyber_public_key device), s)
       else case keypair of (encaps_key, decaps_key) \<Rightarrow>
            bindR (derive_identity_kek P mk) (\<lambda>kek.
            bindR (seal_secret_blob P nonce kek decaps_key) (\<lambda>sealed.
              let s1 = store_kyber_keypair s now sealed encaps_key
              in Inr (encaps_key, set_device_kyber_public_key s1 (ld_device_id device) encaps_key))))"

section \<open>Wrapping the vault key for a device\<close>

definition zero_key :: bytes where "zero_key = replicate 32 0"

definition validate_x25519_pubkey :: "bytes \<Rightarrow> IdentityError + unit" where
  "validate_x25519_pubkey pk = (if pk = zero_key then Inl Id_Crypto else Inr ())"

text \<open>HKDF without a salt is HKDF with a salt of 32 zero bytes (RFC 5869).\<close>

definition derive_wrapping_key :: "kem_prims \<Rightarrow> bytes \<Rightarrow> IdentityError + bytes" where
  "derive_wrapping_key K shared = ok_or Id_Crypto (hkdf_salted K (replicate 32 0) shared VAULT_KEY_WRAP_INFO)"

text \<open>The common start of the four operations: the shared secret, refused when it is all zero.\<close>

definition device_shared_secret :: "dh_prims \<Rightarrow> bytes \<Rightarrow> bytes \<Rightarrow> IdentityError + bytes" where
  "device_shared_secret X my_private their_public =
     bindR (validate_x25519_pubkey their_public) (\<lambda>_.
       let shared = x25519_dh X my_private their_public
       in if shared = zero_key then Inl Id_Crypto else Inr shared)"

definition wrap_vault_key_for_device ::
  "crypto_prims \<Rightarrow> kem_prims \<Rightarrow> dh_prims \<Rightarrow> bytes \<Rightarrow> bytes \<Rightarrow> bytes \<Rightarrow> IdentityError + bytes" where
  "wrap_vault_key_for_device P K X my_private their_public vk =
     bindR (device_shared_secret X my_private their_public) (\<lambda>shared.
     bindR (derive_wrapping_key K shared) (\<lambda>wk. crypto_result (wrap_key P wk vk)))"

definition unwrap_vault_key_from_device ::
  "crypto_prims \<Rightarrow> kem_prims \<Rightarrow> dh_prims \<Rightarrow> bytes \<Rightarrow> bytes \<Rightarrow> bytes \<Rightarrow> IdentityError + bytes" where
  "unwrap_vault_key_from_device P K X my_private their_public wrapped =
     bindR (device_shared_secret X my_private their_public) (\<lambda>shared.
     bindR (derive_wrapping_key K shared) (\<lambda>wk. crypto_result (unwrap_key P wk wrapped)))"

definition device_ctx :: "string \<Rightarrow> string \<Rightarrow> HybridWrapContext" where
  "device_ctx vault_id device_id =
     \<lparr>hw_version = HYBRID_WRAP_VERSION, hw_vault_id = vault_id, hw_device_id = device_id\<rparr>"

definition hybrid_wrap_vault_key_for_device ::
  "crypto_prims \<Rightarrow> kem_prims \<Rightarrow> dh_prims \<Rightarrow> bytes \<Rightarrow> bytes \<Rightarrow> bytes \<Rightarrow> bytes \<Rightarrow> bytes \<Rightarrow> string \<Rightarrow> string
     \<Rightarrow> IdentityError + bytes" where
  "hybrid_wrap_vault_key_for_device P K X r my_private their_public their_ek vk vault_id device_id =
     bindR (device_shared_secret X my_private their_public) (\<lambda>shared.
       map_err (\<lambda>_. Id_Crypto) (hybrid_wrap_vault_key P K r shared their_ek vk (device_ctx vault_id device_id)))"

definition hybrid_unwrap_vault_key_from_device ::
  "crypto_prims \<Rightarrow> kem_prims \<Rightarrow> dh_prims \<Rightarrow> bytes \<Rightarrow> bytes \<Rightarrow> bytes \<Rightarrow> bytes \<Rightarrow> bytes \<Rightarrow> string \<Rightarrow> string
     \<Rightarrow> IdentityError + bytes" where
  "hybrid_unwrap_vault_key_from_device P K X my_private their_public my_dk my_ek blob vault_id device_id =
     bindR (device_shared_secret X my_private their_public) (\<lambda>shared.
       map_err (\<lambda>_. Id_Crypto) (hybrid_unwrap_vault_key P K shared my_dk my_ek blob (device_ctx vault_id device_id)))"

definition select_and_unwrap_vault_key ::
  "crypto_prims \<Rightarrow> kem_prims \<Rightarrow> dh_prims \<Rightarrow> bytes \<Rightarrow> bytes \<Rightarrow> bytes option \<Rightarrow> bytes option \<Rightarrow> bytes \<Rightarrow> bytes option
     \<Rightarrow> string \<Rightarrow> string \<Rightarrow> IdentityError + bytes" where
  "select_and_unwrap_vault_key P K X my_private their_public my_dk my_ek wrapped_x25519 wrapped_hybrid
     vault_id device_id =
     (case (wrapped_hybrid, my_dk, my_ek) of
        (Some blob, Some dk, Some ek) \<Rightarrow>
          hybrid_unwrap_vault_key_from_device P K X my_private their_public dk ek blob vault_id device_id
      | _ \<Rightarrow> unwrap_vault_key_from_device P K X my_private their_public wrapped_x25519)"

section \<open>Recovery phrases and share links\<close>

text \<open>
  A BIP-39 phrase is parsed and turned into a 64-byte seed by the \<open>bip39\<close> crate: \<open>mnemonic_seed\<close> is \<open>None\<close> for a
  phrase with an unknown word or a wrong checksum.
\<close>

datatype RecoveryError = InvalidMnemonic | WrongWordCount nat nat | Rec_Crypto CryptoError

definition RECOVERY_WORD_COUNT :: nat where "RECOVERY_WORD_COUNT = 24"

definition words_of :: "string \<Rightarrow> string list" where
  "words_of phrase = filter (\<lambda>w. w \<noteq> []) (split_on (CHR '' '') (map (\<lambda>c. if is_space c then CHR '' '' else c) phrase))"

definition parse_mnemonic :: "(string \<Rightarrow> bytes option) \<Rightarrow> string \<Rightarrow> RecoveryError + bytes" where
  "parse_mnemonic mnemonic_seed phrase =
     (let word_count = length (words_of phrase)
      in if word_count \<noteq> RECOVERY_WORD_COUNT then Inl (WrongWordCount RECOVERY_WORD_COUNT word_count)
         else ok_or InvalidMnemonic (mnemonic_seed phrase))"

definition derive_recovery_key :: "bytes \<Rightarrow> bytes" where
  "derive_recovery_key seed = take KEY_LEN seed"

definition recovery_wrap_vault_key :: "crypto_prims \<Rightarrow> bytes \<Rightarrow> bytes \<Rightarrow> RecoveryError + bytes" where
  "recovery_wrap_vault_key P rk vk = map_err Rec_Crypto (wrap_key P rk vk)"

definition recovery_unwrap_vault_key :: "crypto_prims \<Rightarrow> bytes \<Rightarrow> bytes \<Rightarrow> RecoveryError + bytes" where
  "recovery_unwrap_vault_key P rk wrapped = map_err Rec_Crypto (unwrap_key P rk wrapped)"

definition SHARE_DEK_INFO :: bytes where "SHARE_DEK_INFO = str_bytes ''omnidrive-share-dek-v1''"

definition share_wrapping_key :: "crypto_prims \<Rightarrow> bytes \<Rightarrow> CryptoError + bytes" where
  "share_wrapping_key P share_key = derive_subkey P share_key SHARE_DEK_INFO"

definition seal_dek_for_share :: "crypto_prims \<Rightarrow> bytes \<Rightarrow> bytes \<Rightarrow> string \<Rightarrow> bytes \<Rightarrow> CryptoError + bytes" where
  "seal_dek_for_share P nonce share_key pack_id dek =
     bindR (share_wrapping_key P share_key) (\<lambda>k. encrypt_secret P nonce k dek (str_bytes pack_id))"

definition open_dek_for_share :: "crypto_prims \<Rightarrow> bytes \<Rightarrow> string \<Rightarrow> bytes \<Rightarrow> CryptoError + bytes" where
  "open_dek_for_share P share_key pack_id sealed =
     bindR (share_wrapping_key P share_key) (\<lambda>k.
     bindR (decrypt_secret P k sealed (str_bytes pack_id)) (\<lambda>pt.
       if length pt = 32 then Inr pt else Inl Aead))"

section \<open>The formats keep their promise\<close>

lemma gcm_open_combined_parts:
  "length tag = 16 \<Longrightarrow> gcm_open_combined P k n (ct @ tag) = gcm_open P k n [] ct tag"
  by (simp add: gcm_open_combined_def GCM_TAG_LEN_def)

interpretation box_identity: sealed_box
  "\<lambda>(P, nonce, k). \<lambda>pt. seal_secret_blob P nonce k pt"
  "\<lambda>(P, nonce, k). \<lambda>blob. open_secret_blob P k blob"
  "\<lambda>(P, nonce, k). \<lambda>pt. prims_ok P \<and> length k = 32 \<and> length nonce = 12"
proof (unfold_locales, clarify)
  fix P :: crypto_prims and n k p :: bytes
  assume P: "prims_ok P" and k: "length k = 32" and n: "length n = 12"
  obtain ct t where "gcm_seal P k n [] p = Inr (ct, t)" "length t = 16" "gcm_open P k n [] ct t = Inr p"
    using prims_seal [OF P k n] by blast
  then show "\<exists>b. seal_secret_blob P n k p = Inr b \<and> open_secret_blob P k b = Inr p"
    using n by (simp add: seal_secret_blob_def open_secret_blob_def NONCE_LEN_def gcm_open_combined_parts)
qed

interpretation box_private_key: sealed_box
  "\<lambda>(P, nonce, k). \<lambda>pt. encrypt_private_key P nonce k pt"
  "\<lambda>(P, nonce, k). \<lambda>blob. decrypt_private_key P k blob"
  "\<lambda>(P, nonce, k). \<lambda>pt. prims_ok P \<and> length k = 32 \<and> length nonce = 12 \<and> length pt = 32"
proof (unfold_locales, clarify)
  fix P :: crypto_prims and n k p :: bytes
  assume P: "prims_ok P" and k: "length k = 32" and n: "length n = 12" and p: "length p = 32"
  obtain ct t where "gcm_seal P k n [] p = Inr (ct, t)" "length ct = length p" "length t = 16"
    "gcm_open P k n [] ct t = Inr p"
    using prims_seal [OF P k n] by blast
  then show "\<exists>b. encrypt_private_key P n k p = Inr b \<and> decrypt_private_key P k b = Inr p"
    using n p by (simp add: encrypt_private_key_def decrypt_private_key_def NONCE_LEN_def gcm_open_combined_parts)
qed

lemma identity_kek: "prims_ok P \<Longrightarrow> length mk = 32 \<Longrightarrow> \<exists>k. derive_identity_kek P mk = Inr k \<and> length k = 32"
  using prims_expand [of P mk IDENTITY_KEK_INFO] by (auto simp: derive_identity_kek_def)

lemma wrapping_key: "kem_ok K \<Longrightarrow> \<exists>wk. derive_wrapping_key K ss = Inr wk \<and> length wk = 32"
  unfolding kem_ok_def derive_wrapping_key_def by (metis ok_or_simps(2))

lemma shared_secret_symmetric:
  assumes "dh_ok X" and "x25519_public X b \<noteq> zero_key" and "x25519_public X a \<noteq> zero_key"
  shows "device_shared_secret X a (x25519_public X b) = device_shared_secret X b (x25519_public X a)"
  using assms by (simp add: device_shared_secret_def validate_x25519_pubkey_def dh_ok_def)

text \<open>
  The wrap for a device as a box between a sender \<open>a\<close> and a receiver \<open>b\<close>: what one wraps with the public key of
  the other, the other unwraps with the public key of the first.
\<close>

interpretation box_device: sealed_box
  "\<lambda>(P, K, X, a, b). \<lambda>vk. wrap_vault_key_for_device P K X a (x25519_public X b) vk"
  "\<lambda>(P, K, X, a, b). \<lambda>w. unwrap_vault_key_from_device P K X b (x25519_public X a) w"
  "\<lambda>(P, K, X, a, b). \<lambda>vk. prims_ok P \<and> kem_ok K \<and> dh_ok X \<and> x25519_public X a \<noteq> zero_key \<and>
     x25519_public X b \<noteq> zero_key \<and> x25519_dh X a (x25519_public X b) \<noteq> zero_key \<and> length vk = 32"
proof (unfold_locales, clarify)
  fix P :: crypto_prims and K :: kem_prims and X :: dh_prims and a b vk :: bytes
  assume P: "prims_ok P" and K: "kem_ok K" and X: "dh_ok X" and a: "x25519_public X a \<noteq> zero_key"
    and b: "x25519_public X b \<noteq> zero_key" and ss: "x25519_dh X a (x25519_public X b) \<noteq> zero_key"
    and vk: "length vk = 32"
  have sh: "device_shared_secret X a (x25519_public X b) = Inr (x25519_dh X a (x25519_public X b))"
    using b ss by (simp add: device_shared_secret_def validate_x25519_pubkey_def)
  obtain wk where wk: "derive_wrapping_key K (x25519_dh X a (x25519_public X b)) = Inr wk" "length wk = 32"
    using wrapping_key [OF K] by blast
  obtain w where "wrap_key P wk vk = Inr w" "unwrap_key P wk w = Inr vk" using prims_wrap [OF P wk(2) vk] by blast
  with sh wk shared_secret_symmetric [OF X b a]
  show "\<exists>w. wrap_vault_key_for_device P K X a (x25519_public X b) vk = Inr w \<and>
      unwrap_vault_key_from_device P K X b (x25519_public X a) w = Inr vk"
    by (simp add: wrap_vault_key_for_device_def unwrap_vault_key_from_device_def)
qed

interpretation box_device_hybrid: sealed_box
  "\<lambda>(P, K, X, r, a, b, ek, dk, v, d). \<lambda>vk. hybrid_wrap_vault_key_for_device P K X r a (x25519_public X b) ek vk v d"
  "\<lambda>(P, K, X, r, a, b, ek, dk, v, d). \<lambda>w. hybrid_unwrap_vault_key_from_device P K X b (x25519_public X a) dk ek w v d"
  "\<lambda>(P, K, X, r, a, b, ek, dk, v, d). \<lambda>vk. prims_ok P \<and> kem_ok K \<and> dh_ok X \<and> x25519_public X a \<noteq> zero_key \<and>
     x25519_public X b \<noteq> zero_key \<and> x25519_dh X a (x25519_public X b) \<noteq> zero_key \<and> kem_pair K ek dk \<and> length vk = 32"
proof (unfold_locales, clarify)
  fix P :: crypto_prims and K :: kem_prims and X :: dh_prims and r a b ek dk vk :: bytes and v d :: string
  assume P: "prims_ok P" and K: "kem_ok K" and X: "dh_ok X" and a: "x25519_public X a \<noteq> zero_key"
    and b: "x25519_public X b \<noteq> zero_key" and ss: "x25519_dh X a (x25519_public X b) \<noteq> zero_key"
    and pair: "kem_pair K ek dk" and vk: "length vk = 32"
  let ?ss = "x25519_dh X a (x25519_public X b)"
  have sh: "device_shared_secret X a (x25519_public X b) = Inr ?ss"
    using b ss by (simp add: device_shared_secret_def validate_x25519_pubkey_def)
  have "\<exists>w. hybrid_wrap_vault_key P K r ?ss ek vk (device_ctx v d) = Inr w \<and>
      hybrid_unwrap_vault_key P K ?ss dk ek w (device_ctx v d) = Inr vk"
    using box_hybrid.seal_open [of "(P, K, r, ?ss, ek, dk, device_ctx v d)" vk] P K pair vk by simp
  with sh shared_secret_symmetric [OF X b a]
  show "\<exists>w. hybrid_wrap_vault_key_for_device P K X r a (x25519_public X b) ek vk v d = Inr w \<and>
      hybrid_unwrap_vault_key_from_device P K X b (x25519_public X a) dk ek w v d = Inr vk"
    by (auto simp: hybrid_wrap_vault_key_for_device_def hybrid_unwrap_vault_key_from_device_def)
qed

interpretation box_share: sealed_box
  "\<lambda>(P, nonce, k, pid). \<lambda>dek. seal_dek_for_share P nonce k pid dek"
  "\<lambda>(P, nonce, k, pid). \<lambda>b. open_dek_for_share P k pid b"
  "\<lambda>(P, nonce, k, pid). \<lambda>dek. prims_ok P \<and> length k = 32 \<and> length nonce = 12 \<and> length dek = 32"
proof (unfold_locales, clarify)
  fix P :: crypto_prims and n k dek :: bytes and pid :: string
  assume P: "prims_ok P" and k: "length k = 32" and n: "length n = 12" and dek: "length dek = 32"
  obtain wk where wk: "share_wrapping_key P k = Inr wk" "length wk = 32"
    using prims_expand [OF P k] by (auto simp: share_wrapping_key_def derive_subkey_def)
  have "\<exists>b. encrypt_secret P n wk dek (str_bytes pid) = Inr b \<and> decrypt_secret P wk b (str_bytes pid) = Inr dek"
    using box_secret.seal_open [of "(P, n, wk, str_bytes pid)" dek] P wk n by simp
  then show "\<exists>b. seal_dek_for_share P n k pid dek = Inr b \<and> open_dek_for_share P k pid b = Inr dek"
    using wk dek by (auto simp: seal_dek_for_share_def open_dek_for_share_def)
qed

section \<open>Properties\<close>

text \<open>
  C33: the vault key reaches the device it was wrapped for, and the hybrid wrap is the one that counts. The device unwraps
  with its own private key and the sender's public key what the sender wrapped with its private key and the device's
  public key. When the X25519 wrap holds one key and the hybrid wrap another, a device with the blob and both ML-KEM keys
  gets the key of the hybrid wrap, and one that lacks the blob or either ML-KEM key the key of the X25519 wrap; a hybrid
  blob that does not open is an error, without a fall back. An all-zero public key, or a peer key that gives the all-zero
  secret, is refused by all four operations.
\<close>

theorem device_wrap_roundtrip:
  assumes "prims_ok P" and "kem_ok K" and "dh_ok X" and "x25519_public X a \<noteq> zero_key"
    and "x25519_public X b \<noteq> zero_key" and "x25519_dh X a (x25519_public X b) \<noteq> zero_key"
    and "kem_pair K ek dk" and "length vk = 32" and "length hk = 32"
  shows "(\<exists>w h. wrap_vault_key_for_device P K X a (x25519_public X b) vk = Inr w \<and>
      hybrid_wrap_vault_key_for_device P K X r a (x25519_public X b) ek hk v d = Inr h \<and>
      select_and_unwrap_vault_key P K X b (x25519_public X a) (Some dk) (Some ek) w (Some h) v d = Inr hk \<and>
      select_and_unwrap_vault_key P K X b (x25519_public X a) (Some dk) (Some ek) w None v d = Inr vk \<and>
      select_and_unwrap_vault_key P K X b (x25519_public X a) None (Some ek) w (Some h) v d = Inr vk \<and>
      select_and_unwrap_vault_key P K X b (x25519_public X a) (Some dk) None w (Some h) v d = Inr vk \<and>
      (\<forall>h' e. hybrid_unwrap_vault_key_from_device P K X b (x25519_public X a) dk ek h' v d = Inl e \<longrightarrow>
         select_and_unwrap_vault_key P K X b (x25519_public X a) (Some dk) (Some ek) w (Some h') v d = Inl e)) \<and>
    (pk = zero_key \<or> x25519_dh X a pk = zero_key \<longrightarrow>
      wrap_vault_key_for_device P K X a pk vk = Inl Id_Crypto \<and>
      unwrap_vault_key_from_device P K X a pk w' = Inl Id_Crypto \<and>
      hybrid_wrap_vault_key_for_device P K X r a pk ek vk v d = Inl Id_Crypto \<and>
      hybrid_unwrap_vault_key_from_device P K X a pk dk ek w' v d = Inl Id_Crypto)"
proof (intro conjI impI)
  obtain w where w: "wrap_vault_key_for_device P K X a (x25519_public X b) vk = Inr w"
    "unwrap_vault_key_from_device P K X b (x25519_public X a) w = Inr vk"
    using box_device.seal_open [of "(P, K, X, a, b)" vk] assms by auto
  obtain h where h: "hybrid_wrap_vault_key_for_device P K X r a (x25519_public X b) ek hk v d = Inr h"
    "hybrid_unwrap_vault_key_from_device P K X b (x25519_public X a) dk ek h v d = Inr hk"
    using box_device_hybrid.seal_open [of "(P, K, X, r, a, b, ek, dk, v, d)" hk] assms by auto
  show "\<exists>w h. wrap_vault_key_for_device P K X a (x25519_public X b) vk = Inr w \<and>
      hybrid_wrap_vault_key_for_device P K X r a (x25519_public X b) ek hk v d = Inr h \<and>
      select_and_unwrap_vault_key P K X b (x25519_public X a) (Some dk) (Some ek) w (Some h) v d = Inr hk \<and>
      select_and_unwrap_vault_key P K X b (x25519_public X a) (Some dk) (Some ek) w None v d = Inr vk \<and>
      select_and_unwrap_vault_key P K X b (x25519_public X a) None (Some ek) w (Some h) v d = Inr vk \<and>
      select_and_unwrap_vault_key P K X b (x25519_public X a) (Some dk) None w (Some h) v d = Inr vk \<and>
      (\<forall>h' e. hybrid_unwrap_vault_key_from_device P K X b (x25519_public X a) dk ek h' v d = Inl e \<longrightarrow>
         select_and_unwrap_vault_key P K X b (x25519_public X a) (Some dk) (Some ek) w (Some h') v d = Inl e)"
    by (intro exI [of _ w] exI [of _ h]) (simp add: select_and_unwrap_vault_key_def w h)
next
  assume "pk = zero_key \<or> x25519_dh X a pk = zero_key"
  then have "device_shared_secret X a pk = Inl Id_Crypto"
    by (auto simp: device_shared_secret_def validate_x25519_pubkey_def)
  then show "wrap_vault_key_for_device P K X a pk vk = Inl Id_Crypto"
    "unwrap_vault_key_from_device P K X a pk w' = Inl Id_Crypto"
    "hybrid_wrap_vault_key_for_device P K X r a pk ek vk v d = Inl Id_Crypto"
    "hybrid_unwrap_vault_key_from_device P K X a pk dk ek w' v d = Inl Id_Crypto"
    by (simp_all add: wrap_vault_key_for_device_def unwrap_vault_key_from_device_def
        hybrid_wrap_vault_key_for_device_def hybrid_unwrap_vault_key_from_device_def)
qed

text \<open>A group where the public key is the secret and the shared secret the bytewise sum.\<close>

definition add_dh :: dh_prims where
  "add_dh = \<lparr>x25519_public = (\<lambda>a. take 32 (a @ replicate 32 0)),
     x25519_dh = (\<lambda>a b. map2 (+) (take 32 (a @ replicate 32 0)) (take 32 (b @ replicate 32 0)))\<rparr>"

lemma add_dh_ok: "dh_ok add_dh"
proof -
  have pad: "take 32 (take 32 (a @ replicate 32 (0 :: byte)) @ replicate 32 0) = take 32 (a @ replicate 32 0)" for a
    by simp
  have "map2 (+) xs ys = map2 (+) ys xs" if "length xs = length ys" for xs ys :: bytes
    using that by (induction xs ys rule: list_induct2) (simp_all add: add.commute)
  then show ?thesis unfolding dh_ok_def add_dh_def by (simp only: dh_prims.simps pad) (auto simp: min_def)
qed

lemma add_dh_keys:
  "x25519_public add_dh (replicate 32 7) = replicate 32 7" "x25519_public add_dh (replicate 32 5) = replicate 32 5"
  "x25519_dh add_dh (replicate 32 7) (replicate 32 5) = replicate 32 12"
  "x25519_dh add_dh (replicate 32 5) (replicate 32 7) = replicate 32 12"
  by (simp_all add: add_dh_def)

theorem device_wrap_roundtrip_witness:
  "\<exists>w h. wrap_vault_key_for_device xor_prims toy_kem add_dh (replicate 32 7) (replicate 32 5) (replicate 32 3) = Inr w \<and>
     select_and_unwrap_vault_key xor_prims toy_kem add_dh (replicate 32 5) (replicate 32 7) (Some toy_dk) (Some toy_ek)
       w (Some h) ''v'' ''d'' = Inr (replicate 32 4) \<and>
     select_and_unwrap_vault_key xor_prims toy_kem add_dh (replicate 32 5) (replicate 32 7) (Some toy_dk) (Some toy_ek)
       w None ''v'' ''d'' = Inr (replicate 32 3)"
proof -
  have nz: "(replicate 32 7 :: bytes) \<noteq> zero_key" "(replicate 32 5 :: bytes) \<noteq> zero_key"
    "(replicate 32 12 :: bytes) \<noteq> zero_key"
    by (simp_all add: zero_key_def replicate_eq_replicate)
  from device_wrap_roundtrip [OF xor_prims_ok toy_kem_ok add_dh_ok, of "replicate 32 7" "replicate 32 5" toy_ek toy_dk
      "replicate 32 3" "replicate 32 4", unfolded add_dh_keys, OF nz toy_pair length_replicate length_replicate, THEN conjunct1]
  show ?thesis by blast
qed

end
