(* ===== verification/Packer.thy ===== *)
theory Packer
  imports Crypto ChunkIndex
begin

text \<open>
  The pure part of \<^verbatim>\<open>packer.rs\<close>: how the ciphertext of a chunk is cut into two data shards and one
  parity shard, where each shard goes, and the manifest (chunk record) a pack consists of. The
  Reed-Solomon code and SHA-256 are crates outside the repository: the record \<open>rs_prims\<close> and the
  argument \<open>sha256\<close>; \<open>rs_ok\<close> is what \<^verbatim>\<open>reed_solomon_erasure\<close> documents for two data shards and one
  parity shard. A spool file is named by its name below the spool directory.
\<close>

section \<open>Constants and errors\<close>

definition DATA_SHARDS :: nat where "DATA_SHARDS = 2"
definition PARITY_SHARDS :: nat where "PARITY_SHARDS = 1"
definition TOTAL_SHARDS :: nat where "TOTAL_SHARDS = DATA_SHARDS + PARITY_SHARDS"
definition DEFAULT_CHUNK_SIZE :: nat where "DEFAULT_CHUNK_SIZE = 4 * 1024 * 1024"
definition SHARD_PROVIDERS :: "string list" where
  "SHARD_PROVIDERS = [''cloudflare-r2'', ''backblaze-b2'', ''scaleway'']"
definition SINGLE_REPLICA_PROVIDER :: string where "SINGLE_REPLICA_PROVIDER = ''backblaze-b2''"

datatype PackerError = PE_InvalidChunkSize nat | PE_Io | PE_Db sqlx_error | PE_Crypto CryptoError
  | PE_ErasureCoding | PE_NumericOverflow string | PE_InvalidStoredPack string

fun storage_mode_scheme :: "StorageMode \<Rightarrow> string" where
  "storage_mode_scheme Ec2_1 = ''rs_2_1''"
| "storage_mode_scheme SingleReplica = ''single_replica''"
| "storage_mode_scheme LocalOnly = ''local_only''"

section \<open>The erasure code\<close>

record rs_prims =
  rs_encode :: "bytes list \<Rightarrow> bytes list option"
  rs_reconstruct :: "bytes option list \<Rightarrow> bytes option list option"

definition agrees_with :: "bytes list \<Rightarrow> bytes option list \<Rightarrow> bool" where
  "agrees_with enc opt \<longleftrightarrow> length opt = length enc \<and>
     list_all2 (\<lambda>o1 e. case o1 of None \<Rightarrow> True | Some b \<Rightarrow> b = e) opt enc"

definition present :: "bytes option list \<Rightarrow> nat" where
  "present opt = length (filter (\<lambda>x. x \<noteq> None) opt)"

text \<open>
  Encoding shards of one non-zero length keeps the data shards and fills the parity shard; from any two of the
  three encoded shards all three are reconstructed.
\<close>

definition rs_ok :: "rs_prims \<Rightarrow> bool" where
  "rs_ok R \<longleftrightarrow> (\<forall>a b z. a \<noteq> [] \<and> length b = length a \<and> length z = length a \<longrightarrow>
     (\<exists>p. rs_encode R [a, b, z] = Some [a, b, p] \<and> length p = length a \<and>
        (\<forall>opt. agrees_with [a, b, p] opt \<and> 2 \<le> present opt \<longrightarrow>
           rs_reconstruct R opt = Some [Some a, Some b, Some p])))"

section \<open>Cutting a ciphertext into shards\<close>

definition place_byte :: "nat \<Rightarrow> nat \<times> byte \<Rightarrow> bytes list \<Rightarrow> bytes list" where
  "place_byte shard_len ob shards =
     (let (offset, b) = ob; i = offset div shard_len; position = offset mod shard_len
      in shards[i := (shards ! i)[position := b]])"

definition shard_len_of :: "bytes \<Rightarrow> nat" where
  "shard_len_of ciphertext = max ((length ciphertext + DATA_SHARDS - 1) div DATA_SHARDS) 1"

definition split_ciphertext_into_shards :: "rs_prims \<Rightarrow> bytes \<Rightarrow> PackerError + bytes list" where
  "split_ciphertext_into_shards R ciphertext =
     (let shard_len = shard_len_of ciphertext;
          shards = fold (place_byte shard_len) (List.enumerate 0 ciphertext)
                     (replicate TOTAL_SHARDS (replicate shard_len 0))
      in ok_or PE_ErasureCoding (rs_encode R shards))"

record PreparedShard =
  ps_shard_index :: int
  ps_shard_role :: ShardRole
  ps_provider :: string
  ps_object_key :: string
  ps_local_name :: string
  ps_size :: int
  ps_checksum :: string

definition to_i64 :: "nat \<Rightarrow> string \<Rightarrow> PackerError + int" where
  "to_i64 v ctx = (if int v \<le> i64_max then Inr (int v) else Inl (PE_NumericOverflow ctx))"

definition checked_add_i64 :: "int \<Rightarrow> int \<Rightarrow> string \<Rightarrow> PackerError + int" where
  "checked_add_i64 a b ctx = ok_or (PE_NumericOverflow ctx) (i64_checked_add a b)"

definition hex_digit :: "nat \<Rightarrow> char" where
  "hex_digit n = ''0123456789abcdef'' ! n"

definition hex_lower :: "bytes \<Rightarrow> string" where
  "hex_lower bs = concat (map (\<lambda>b. [hex_digit (unat b div 16), hex_digit (unat b mod 16)]) bs)"

definition hex_sha256 :: "(bytes \<Rightarrow> bytes) \<Rightarrow> bytes \<Rightarrow> string" where
  "hex_sha256 sha256 bs = hex_lower (sha256 bs)"

definition local_pack_name :: "string \<Rightarrow> string" where
  "local_pack_name pack_id = pack_id @ ''.odpk''"

definition local_shard_name :: "string \<Rightarrow> nat \<Rightarrow> string" where
  "local_shard_name pack_id i = pack_id @ ''.shard'' @ dec_nat i"

definition shard_bytes_for :: "rs_prims \<Rightarrow> StorageMode \<Rightarrow> bytes \<Rightarrow> PackerError + bytes list" where
  "shard_bytes_for R mode ciphertext =
     (case mode of Ec2_1 \<Rightarrow> split_ciphertext_into_shards R ciphertext
      | SingleReplica \<Rightarrow> Inr [ciphertext] | LocalOnly \<Rightarrow> Inr [])"

definition prepare_shard ::
  "(bytes \<Rightarrow> bytes) \<Rightarrow> string \<Rightarrow> StorageMode \<Rightarrow> nat \<times> bytes \<Rightarrow> PackerError + PreparedShard" where
  "prepare_shard sha256 pack_id mode ib =
     (let (i, bs) = ib
      in bindR (to_i64 (length bs) ''shard size'') (\<lambda>n. Inr
        \<lparr>ps_shard_index = int i,
         ps_shard_role = (if mode = Ec2_1 \<and> DATA_SHARDS \<le> i then Parity else Data),
         ps_provider = (if mode = Ec2_1 then SHARD_PROVIDERS ! i else SINGLE_REPLICA_PROVIDER),
         ps_object_key = ''packs/'' @ pack_id @ ''/shards/'' @ dec_nat i @ ''.shard'',
         ps_local_name = local_shard_name pack_id i, ps_size = n,
         ps_checksum = hex_sha256 sha256 bs\<rparr>))"

fun prepare_shards ::
  "(bytes \<Rightarrow> bytes) \<Rightarrow> string \<Rightarrow> StorageMode \<Rightarrow> (nat \<times> bytes) list \<Rightarrow> PackerError + PreparedShard list" where
  "prepare_shards sha256 pack_id mode [] = Inr []"
| "prepare_shards sha256 pack_id mode (ib # ibs) =
     bindR (prepare_shard sha256 pack_id mode ib) (\<lambda>p.
     bindR (prepare_shards sha256 pack_id mode ibs) (\<lambda>ps. Inr (p # ps)))"

text \<open>The second component is the content of the spool files written, by file name.\<close>

definition build_shards ::
  "rs_prims \<Rightarrow> (bytes \<Rightarrow> bytes) \<Rightarrow> string \<Rightarrow> bytes \<Rightarrow> StorageMode
     \<Rightarrow> PackerError + PreparedShard list \<times> (string \<times> bytes) list" where
  "build_shards R sha256 pack_id ciphertext mode =
     bindR (shard_bytes_for R mode ciphertext) (\<lambda>bss.
     bindR (prepare_shards sha256 pack_id mode (List.enumerate 0 bss)) (\<lambda>ps.
       Inr (ps, map (\<lambda>(i, bs). (local_shard_name pack_id i, bs)) (List.enumerate 0 bss))))"

section \<open>Manifests\<close>

definition u32_be :: "u32 \<Rightarrow> bytes" where "u32_be w = be_encode 4 (unat w)"

definition build_manifest_bytes :: "bytes \<Rightarrow> bytes \<Rightarrow> bytes \<Rightarrow> bytes \<Rightarrow> nat \<Rightarrow> bytes" where
  "build_manifest_bytes cid nonce ciphertext gcm_tag plaintext_len =
     ChunkRecordPrefix_as_bytes \<lparr>cr_record_magic = CHUNK_RECORD_MAGIC, cr_record_version = 1,
       cr_flags = 0, cr_compression_algo = COMPRESSION_ALGO_NONE, cr_key_wrapping_algo = 0,
       cr_chunk_id = cid, cr_plain_len = of_nat plaintext_len,
       cr_cipher_len = of_nat (length ciphertext), cr_nonce = nonce, cr_dek_id_hint = replicate 4 0,
       cr_reserved_1 = replicate 8 0\<rparr> @ ciphertext @ gcm_tag"

definition build_manifest_bytes_v2 :: "bytes \<Rightarrow> bytes \<Rightarrow> bytes \<Rightarrow> bytes \<Rightarrow> nat \<Rightarrow> int \<Rightarrow> bytes" where
  "build_manifest_bytes_v2 cid nonce ciphertext gcm_tag plaintext_len dek_id =
     ChunkRecordPrefix_as_bytes \<lparr>cr_record_magic = CHUNK_RECORD_MAGIC, cr_record_version = 2,
       cr_flags = 0, cr_compression_algo = COMPRESSION_ALGO_NONE,
       cr_key_wrapping_algo = KEY_WRAPPING_ALGO_AES_KW,
       cr_chunk_id = cid, cr_plain_len = of_nat plaintext_len,
       cr_cipher_len = of_nat (length ciphertext), cr_nonce = nonce,
       cr_dek_id_hint = u32_be (of_int dek_id),
       cr_reserved_1 = replicate 8 0\<rparr> @ ciphertext @ gcm_tag"

definition compute_pack_id :: "(bytes \<Rightarrow> bytes) \<Rightarrow> StorageMode \<Rightarrow> bytes \<Rightarrow> string" where
  "compute_pack_id sha256 mode manifest =
     hex_sha256 sha256 (str_bytes (StorageMode_as_str mode) @ [0] @ manifest)"

definition usize_max :: nat where "usize_max = 2 ^ 64 - 1"

definition usize_checked_add :: "nat \<Rightarrow> nat \<Rightarrow> nat option" where
  "usize_checked_add a b = (if a + b \<le> usize_max then Some (a + b) else None)"

definition manifest_size_from_pack :: "PackRecord \<Rightarrow> PackerError + int" where
  "manifest_size_from_pack pack =
     (if pk_cipher_size pack < 0 then Inl (PE_NumericOverflow ''stored cipher_size'')
      else
        bindR (ok_or (PE_NumericOverflow ''stored manifest size'')
          (Option.bind (usize_checked_add ChunkRecordPrefix_SIZE (nat (pk_cipher_size pack)))
             (\<lambda>v. usize_checked_add v (length (pk_gcm_tag pack)))))
        (\<lambda>total. to_i64 total ''stored manifest size''))"

text \<open>
  \<open>read_next_chunk\<close>: one read returns some of the bytes that are left, at least one unless none are
  left; the loop reads until the buffer is full or the file ends. The lengths the operating system
  returns are the argument \<open>reads\<close>.
\<close>

fun read_next_chunk :: "nat list \<Rightarrow> nat \<Rightarrow> bytes \<Rightarrow> bytes \<times> bytes" where
  "read_next_chunk [] room content = (take room content, drop room content)"
| "read_next_chunk (r # reads) room content =
     (if room = 0 \<or> content = [] then ([], content)
      else let n = max 1 (min r (min room (length content)));
               (more, rest) = read_next_chunk reads (room - n) (drop n content)
           in (take n content @ more, rest))"

section \<open>Reading\<close>

lemma read_next_chunk_eq: "read_next_chunk reads room content = (take room content, drop room content)"
proof (induction reads room content rule: read_next_chunk.induct)
  case (2 r reads room content)
  define n where "n = max 1 (min r (min room (length content)))"
  show ?case
  proof (cases "room = 0 \<or> content = []")
    case False
    then have n: "n \<le> room" by (auto simp: n_def)
    from 2 [OF False n_def] have "read_next_chunk reads (room - n) (drop n content) =
        (take (room - n) (drop n content), drop (room - n) (drop n content))" .
    moreover have "take n content @ take (room - n) (drop n content) = take room content"
      using n by (metis le_add_diff_inverse take_add)
    moreover have "drop (room - n) (drop n content) = drop room content" using n by simp
    ultimately show ?thesis
      using False unfolding read_next_chunk.simps Let_def n_def [symmetric] by simp
  qed auto
qed simp

section \<open>The shards hold the ciphertext\<close>

lemma concat_list_update:
  assumes "\<forall>x \<in> set xss. length x = L" and "i < length xss" and "j < L"
  shows "concat (xss[i := (xss ! i)[j := b]]) = (concat xss)[i * L + j := b]"
  using assms
proof (induction xss arbitrary: i)
  case (Cons x xss)
  show ?case
  proof (cases i)
    case 0
    with Cons.prems show ?thesis by (simp add: list_update_append)
  next
    case (Suc k)
    have "length x + (k * L + j) \<ge> length x" by simp
    with Suc Cons show ?thesis by (simp add: list_update_append add.assoc)
  qed
qed simp

lemma place_byte_concat:
  assumes "\<forall>x \<in> set shards. length x = L" and "0 < L" and "offset < length shards * L"
  shows "concat (place_byte L (offset, b) shards) = (concat shards)[offset := b]"
    and "\<forall>x \<in> set (place_byte L (offset, b) shards). length x = L"
    and "length (place_byte L (offset, b) shards) = length shards"
proof -
  have i: "offset div L < length shards" using assms by (simp add: div_less_iff_less_mult)
  have "concat (place_byte L (offset, b) shards) = (concat shards)[offset div L * L + offset mod L := b]"
    unfolding place_byte_def Let_def prod.case
    by (rule concat_list_update [OF assms(1) i]) (simp add: assms(2))
  then show "concat (place_byte L (offset, b) shards) = (concat shards)[offset := b]" by simp
  have "length (shards ! (offset div L)) = L" using assms(1) i by simp
  then show "\<forall>x \<in> set (place_byte L (offset, b) shards). length x = L"
    using assms(1) by (auto simp: place_byte_def Let_def dest!: set_update_subset_insert [THEN subsetD])
  show "length (place_byte L (offset, b) shards) = length shards" by (simp add: place_byte_def Let_def)
qed

lemma fold_place_bytes:
  assumes "\<forall>x \<in> set shards. length x = L" and "0 < L" and "k + length c \<le> length shards * L"
  shows "concat (fold (place_byte L) (List.enumerate k c) shards) =
      take k (concat shards) @ c @ drop (k + length c) (concat shards)
    \<and> (\<forall>x \<in> set (fold (place_byte L) (List.enumerate k c) shards). length x = L)
    \<and> length (fold (place_byte L) (List.enumerate k c) shards) = length shards"
  using assms(1,3)
proof (induction c arbitrary: k shards)
  case (Cons b c)
  have k: "k < length shards * L" using Cons.prems by simp
  note p = place_byte_concat [OF Cons.prems(1) assms(2) k, of b]
  have len: "length (concat shards) = length shards * L"
    using Cons.prems(1) by (induction shards) auto
  have "Suc k + length c \<le> length (place_byte L (k, b) shards) * L" using Cons.prems(2) p(3) by simp
  from Cons.IH [OF p(2) this]
  have "concat (fold (place_byte L) (List.enumerate (Suc k) c) (place_byte L (k, b) shards)) =
      take (Suc k) ((concat shards)[k := b]) @ c @ drop (Suc k + length c) ((concat shards)[k := b])
    \<and> (\<forall>x \<in> set (fold (place_byte L) (List.enumerate (Suc k) c) (place_byte L (k, b) shards)). length x = L)
    \<and> length (fold (place_byte L) (List.enumerate (Suc k) c) (place_byte L (k, b) shards)) = length shards"
    unfolding p(1,3) .
  moreover have "take (Suc k) ((concat shards)[k := b]) = take k (concat shards) @ [b]"
    using k len by (simp add: take_Suc_conv_app_nth)
  moreover have "drop (Suc k + length c) ((concat shards)[k := b]) = drop (k + length (b # c)) (concat shards)"
    by simp
  ultimately show ?case by simp
qed simp

lemma shard_len_bounds: "0 < shard_len_of c" "length c \<le> 2 * shard_len_of c"
  by (simp_all add: shard_len_of_def DATA_SHARDS_def)

lemma filled_shards:
  "\<exists>a b z. fold (place_byte (shard_len_of c)) (List.enumerate 0 c)
       (replicate TOTAL_SHARDS (replicate (shard_len_of c) 0)) = [a, b, z] \<and>
     length a = shard_len_of c \<and> length b = shard_len_of c \<and> length z = shard_len_of c \<and>
     take (length c) (a @ b) = c"
proof -
  let ?L = "shard_len_of c"
  let ?z = "replicate TOTAL_SHARDS (replicate ?L (0 :: byte))"
  define t where "t = fold (place_byte ?L) (List.enumerate 0 c) ?z"
  have three: "length ?z = 3" by (simp add: TOTAL_SHARDS_def DATA_SHARDS_def PARITY_SHARDS_def)
  have fit: "0 + length c \<le> length ?z * ?L" unfolding three using shard_len_bounds(2) [of c] by simp
  from fold_place_bytes [OF _ shard_len_bounds(1) fit] have
    f: "concat t = c @ drop (length c) (concat ?z)" "\<forall>x \<in> set t. length x = ?L" "length t = length ?z"
    by (simp_all add: t_def)
  from f(3) three have "length t = 3" by simp
  then obtain a b z where abz: "t = [a, b, z]"
    by (metis (no_types, opaque_lifting) length_0_conv length_Suc_conv numeral_3_eq_3)
  have "length c \<le> length (a @ b)" using f(2) shard_len_bounds(2) [of c] by (simp add: abz)
  moreover have "(a @ b) @ z = c @ drop (length c) (concat ?z)" using f(1) by (simp add: abz)
  ultimately have "take (length c) (a @ b) = c"
    by (metis append_eq_conv_conj take_append take_all_iff diff_is_0_eq take0 append_Nil2)
  with abz f(2) show ?thesis by (simp add: t_def)
qed

lemma split_ciphertext_ok:
  assumes "rs_ok R"
  shows "\<exists>a b p. split_ciphertext_into_shards R c = Inr [a, b, p] \<and>
    length a = shard_len_of c \<and> length b = shard_len_of c \<and> length p = shard_len_of c \<and>
    take (length c) (a @ b) = c \<and>
    (\<forall>opt. agrees_with [a, b, p] opt \<longrightarrow> 2 \<le> present opt \<longrightarrow>
       rs_reconstruct R opt = Some [Some a, Some b, Some p])"
proof -
  from filled_shards [of c] obtain a b z where f: "fold (place_byte (shard_len_of c)) (List.enumerate 0 c)
       (replicate TOTAL_SHARDS (replicate (shard_len_of c) 0)) = [a, b, z]"
    "length a = shard_len_of c" "length b = shard_len_of c" "length z = shard_len_of c"
    "take (length c) (a @ b) = c" by blast
  moreover have "a \<noteq> []" using f(2) shard_len_bounds(1) [of c] by auto
  ultimately obtain p where "rs_encode R [a, b, z] = Some [a, b, p]" "length p = length a"
    "\<forall>opt. agrees_with [a, b, p] opt \<and> 2 \<le> present opt \<longrightarrow>
       rs_reconstruct R opt = Some [Some a, Some b, Some p]"
    using assms unfolding rs_ok_def by metis
  with f show ?thesis by (simp add: split_ciphertext_into_shards_def Let_def)
qed

text \<open>A concrete code with the documented behaviour: the parity shard is the XOR of the data shards.\<close>

definition xor_bytes :: "bytes \<Rightarrow> bytes \<Rightarrow> bytes" where
  "xor_bytes a b = map2 (XOR) a b"

definition xor_code :: rs_prims where
  "xor_code = \<lparr>rs_encode = (\<lambda>s. case s of [a, b, z] \<Rightarrow> Some [a, b, xor_bytes a b] | _ \<Rightarrow> None),
     rs_reconstruct = (\<lambda>s. case s of
         [Some a, Some b, _] \<Rightarrow> Some [Some a, Some b, Some (xor_bytes a b)]
       | [Some a, None, Some p] \<Rightarrow> Some [Some a, Some (xor_bytes a p), Some p]
       | [None, Some b, Some p] \<Rightarrow> Some [Some (xor_bytes b p), Some b, Some p]
       | _ \<Rightarrow> None)\<rparr>"

lemma xor_byte_cancel: "(x :: byte) XOR (x XOR y) = y" "(y :: byte) XOR (x XOR y) = x"
proof -
  show "x XOR (x XOR y) = y" by (simp flip: xor.assoc)
  have "y XOR (x XOR y) = y XOR (y XOR x)" by (simp add: xor.commute)
  then show "y XOR (x XOR y) = x" by (simp flip: xor.assoc)
qed

lemma xor_bytes_cancel:
  assumes "length a = length b"
  shows "xor_bytes a (xor_bytes a b) = b" and "xor_bytes b (xor_bytes a b) = a"
  using assms unfolding xor_bytes_def
  by (induction a b rule: list_induct2) (simp_all add: xor_byte_cancel)

lemma two_present:
  assumes "agrees_with [a, b, p] opt" and "2 \<le> present opt"
  shows "opt \<in> {[Some a, Some b, Some p], [Some a, Some b, None], [Some a, None, Some p], [None, Some b, Some p]}"
proof -
  from assms(1) have "length opt = 3" by (simp add: agrees_with_def)
  then obtain x y z where "opt = [x, y, z]"
    by (metis (no_types, opaque_lifting) length_0_conv length_Suc_conv numeral_3_eq_3)
  with assms show ?thesis
    by (cases x; cases y; cases z) (simp_all add: agrees_with_def present_def)
qed

lemma xor_code_ok: "rs_ok xor_code"
  unfolding rs_ok_def
proof (intro allI impI)
  fix a b z :: bytes
  assume "a \<noteq> [] \<and> length b = length a \<and> length z = length a"
  then have len: "length a = length b" by simp
  have "rs_reconstruct xor_code opt = Some [Some a, Some b, Some (xor_bytes a b)]"
    if "agrees_with [a, b, xor_bytes a b] opt" "2 \<le> present opt" for opt
    using two_present [OF that] xor_bytes_cancel [OF len] by (auto simp: xor_code_def)
  moreover have "rs_encode xor_code [a, b, z] = Some [a, b, xor_bytes a b]"
    by (simp add: xor_code_def)
  moreover have "length (xor_bytes a b) = length a" using len by (simp add: xor_bytes_def)
  ultimately show "\<exists>p. rs_encode xor_code [a, b, z] = Some [a, b, p] \<and> length p = length a \<and>
        (\<forall>opt. agrees_with [a, b, p] opt \<and> 2 \<le> present opt \<longrightarrow>
           rs_reconstruct xor_code opt = Some [Some a, Some b, Some p])"
    by blast
qed

text \<open>
  C27: splitting is padding and halving. The byte-by-byte placement of the code is the plain description of the shards:
  the ciphertext filled up with zeros to twice the shard length, its first half, its second half, and an empty parity
  shard for the encoder to fill; and what the encoder refuses is refused.
\<close>

theorem split_ciphertext_is_padding:
  "split_ciphertext_into_shards R c =
     (let L = shard_len_of c; padded = c @ replicate (2 * L - length c) 0
      in case rs_encode R [take L padded, drop L padded, replicate L 0] of
           None \<Rightarrow> Inl PE_ErasureCoding | Some shards \<Rightarrow> Inr shards)"
proof -
  let ?L = "shard_len_of c"
  let ?z = "replicate TOTAL_SHARDS (replicate ?L (0 :: byte))"
  let ?p = "c @ replicate (2 * ?L - length c) 0"
  define t where "t = fold (place_byte ?L) (List.enumerate 0 c) ?z"
  obtain a b z where abz: "t = [a, b, z]" "length a = ?L" "length b = ?L" "length z = ?L"
    using filled_shards [of c] by (auto simp: t_def)
  have three: "length ?z = 3" by (simp add: TOTAL_SHARDS_def DATA_SHARDS_def PARITY_SHARDS_def)
  have le: "length c \<le> 2 * ?L" using shard_len_bounds(2) [of c] by simp
  have fit: "0 + length c \<le> length ?z * ?L" unfolding three using le by simp
  have zeros: "concat ?z = replicate (3 * ?L) 0"
    by (simp add: TOTAL_SHARDS_def DATA_SHARDS_def PARITY_SHARDS_def numeral_3_eq_3 replicate_add)
  have "concat t = take 0 (concat ?z) @ c @ drop (0 + length c) (concat ?z)"
    using fold_place_bytes [OF _ shard_len_bounds(1) fit] by (simp add: t_def)
  then have cat: "a @ b @ z = c @ replicate (3 * ?L - length c) 0" by (simp add: abz(1) zeros)
  have "replicate (3 * ?L - length c) (0 :: byte) = replicate (2 * ?L - length c) 0 @ replicate ?L 0"
    using le by (simp flip: replicate_add)
  with cat have "(a @ b) @ z = ?p @ replicate ?L 0" by simp
  moreover have "length z = length (replicate ?L (0 :: byte))" using abz(4) by simp
  ultimately have "a @ b = ?p \<and> z = replicate ?L 0" by (subst (asm) append_eq_append_conv) simp_all
  then have "a @ b = ?p" "z = replicate ?L 0" by simp_all
  then have "a = take ?L ?p" "b = drop ?L ?p" "z = replicate ?L 0" using abz(2) by (metis append_eq_conv_conj)+
  with abz(1) have "t = [take ?L ?p, drop ?L ?p, replicate ?L 0]" by simp
  then show ?thesis by (simp add: split_ciphertext_into_shards_def t_def Let_def ok_or_def split: option.split)
qed

end
