(* ===== verification/VaultKeys.thy ===== *)
theory VaultKeys
  imports KeyStore Identity Packer
begin

text \<open>
  \<^verbatim>\<open>vault.rs\<close>: the keys of an unlocked vault and every operation on them. The master key and the V1 vault key are
  derived from the passphrase; the envelope vault key is random, stored wrapped under a key derived from the
  master key, and wraps the data-encryption key of every pack. The state is the database together with the keys in
  memory (\<open>VaultKeyStore\<close>), which a restart or a lock forgets. An operation returns its result and the state it
  leaves, also when it fails half way: the writes of the rotation to a new passphrase are made one by one, and an argument
  says which of them fails and how (\<open>write_fault\<close>). Random keys, salts and nonces are arguments, and so are the primitives:
  \<open>prims\<close> bundles those of \<open>Crypto\<close>, \<open>Hybrid\<close> and \<open>Identity\<close>.
\<close>

section \<open>State\<close>

record prims =
  pr_crypto :: crypto_prims
  pr_kem :: kem_prims
  pr_dh :: dh_prims

record UnlockedVaultKeys =
  uk_master_key :: bytes
  uk_vault_key :: bytes
  uk_envelope_vault_key :: "bytes option"
  uk_previous_envelope_vault_key :: "bytes option"

definition with_envelope_key :: "bytes \<Rightarrow> bytes \<Rightarrow> bytes \<Rightarrow> UnlockedVaultKeys" where
  "with_envelope_key mk vk ek =
     \<lparr>uk_master_key = mk, uk_vault_key = vk, uk_envelope_vault_key = Some ek, uk_previous_envelope_vault_key = None\<rparr>"

definition with_previous_key :: "bytes \<Rightarrow> bytes \<Rightarrow> bytes \<Rightarrow> bytes \<Rightarrow> UnlockedVaultKeys" where
  "with_previous_key mk vk ek prev =
     \<lparr>uk_master_key = mk, uk_vault_key = vk, uk_envelope_vault_key = Some ek,
      uk_previous_envelope_vault_key = Some prev\<rparr>"

record vault =
  va_db :: adb
  va_keys :: "UnlockedVaultKeys option"

datatype VaultError = Locked | EmptyPassphrase | V_Db sqlx_error | V_Crypto CryptoError | InvalidConfig string

record UnlockResult =
  ur_initialized :: bool
  ur_unlocked :: bool

record RotationResult =
  rr_new_generation :: int
  rr_deks_rewrapped :: nat

record RevocationRotationResult =
  vr_new_generation :: int
  vr_devices_rewrapped :: nat
  vr_deks_enqueued :: nat

datatype MigrationOutcome = Migrated int int | Skipped | Declined

section \<open>Parameters of the key derivation\<close>

definition TARGET_PARAMETER_SET_VERSION :: u32 where "TARGET_PARAMETER_SET_VERSION = 2"
definition TARGET_MEMORY_COST_KIB :: u32 where "TARGET_MEMORY_COST_KIB = 262144"
definition TARGET_TIME_COST :: u32 where "TARGET_TIME_COST = 3"
definition TARGET_LANES :: u32 where "TARGET_LANES = 1"

definition needs_kdf_migration :: "int \<Rightarrow> bool" where
  "needs_kdf_migration current \<longleftrightarrow> current < uint TARGET_PARAMETER_SET_VERSION"

definition target_kdf_params :: "bytes \<Rightarrow> RootKdfParams" where
  "target_kdf_params new_salt =
     \<lparr>parameter_set_version = TARGET_PARAMETER_SET_VERSION, salt = new_salt,
      memory_cost_kib = TARGET_MEMORY_COST_KIB, time_cost = TARGET_TIME_COST, lanes = TARGET_LANES\<rparr>"

text \<open>\<open>u32::try_from\<close> on an \<open>i64\<close>.\<close>

definition to_u32 :: "string \<Rightarrow> int \<Rightarrow> VaultError + u32" where
  "to_u32 what i = (if 0 \<le> i \<and> i < 2 ^ 32 then Inr (word_of_int i) else Inl (InvalidConfig what))"

definition to_root_kdf_params :: "VaultConfigRecord \<Rightarrow> VaultError + RootKdfParams" where
  "to_root_kdf_params c =
     bindR (to_u32 ''parameter_set_version'' (vc_parameter_set_version c)) (\<lambda>v.
     bindR (to_u32 ''memory_cost_kib'' (vc_memory_cost_kib c)) (\<lambda>m.
     bindR (to_u32 ''time_cost'' (vc_time_cost c)) (\<lambda>t.
     bindR (to_u32 ''lanes'' (vc_lanes c)) (\<lambda>l.
       Inr \<lparr>parameter_set_version = v, salt = vc_salt c, memory_cost_kib = m, time_cost = t, lanes = l\<rparr>))))"

definition argon2_json_of :: "RootKdfParams \<Rightarrow> argon2_json" where
  "argon2_json_of p = (''LOCAL_VAULT'', uint (parameter_set_version p), uint (memory_cost_kib p),
     uint (time_cost p), uint (lanes p))"

definition store_config :: "adb \<Rightarrow> RootKdfParams \<Rightarrow> adb" where
  "store_config s p = set_vault_config s (salt p) (uint (parameter_set_version p)) (uint (memory_cost_kib p))
     (uint (time_cost p)) (uint (lanes p))"

definition ensure_vault_config :: "adb \<Rightarrow> bytes \<Rightarrow> (VaultError + RootKdfParams \<times> bool) \<times> adb" where
  "ensure_vault_config s rnd_salt =
     (case get_vault_config s of
        Some existing \<Rightarrow> (bindR (to_root_kdf_params existing) (\<lambda>p. Inr (p, False)), s)
      | None \<Rightarrow> (Inr (target_kdf_params rnd_salt, True), store_config s (target_kdf_params rnd_salt)))"

definition hex_prefix :: "bytes \<Rightarrow> string" where
  "hex_prefix bs = hex_lower (take 8 bs)"

definition ensure_local_vault_params :: "adb \<Rightarrow> bytes \<Rightarrow> RootKdfParams \<Rightarrow> bool \<times> adb" where
  "ensure_local_vault_params s rnd_salt config =
     (if get_vault_params s \<noteq> None then (False, s)
      else (True, set_vault_params s rnd_salt (argon2_json_of config) (''local-vault-'' @ hex_prefix (salt config))))"

definition bootstrap_local_vault :: "adb \<Rightarrow> bytes \<Rightarrow> bytes \<Rightarrow> (VaultError + bool) \<times> adb" where
  "bootstrap_local_vault s rnd_salt rnd_vsalt =
     (case ensure_vault_config s rnd_salt of
        (Inl e, s1) \<Rightarrow> (Inl e, s1)
      | (Inr (config, initialized), s1) \<Rightarrow>
          (case ensure_local_vault_params s1 rnd_vsalt config of (created, s2) \<Rightarrow> (Inr (initialized \<or> created), s2)))"

section \<open>Keys in memory\<close>

definition require_key :: "vault \<Rightarrow> VaultError + bytes" where
  "require_key st = (case va_keys st of Some keys \<Rightarrow> Inr (uk_vault_key keys) | None \<Rightarrow> Inl Locked)"

definition require_master_key :: "vault \<Rightarrow> VaultError + bytes" where
  "require_master_key st = (case va_keys st of Some keys \<Rightarrow> Inr (uk_master_key keys) | None \<Rightarrow> Inl Locked)"

definition require_envelope_key :: "vault \<Rightarrow> VaultError + bytes" where
  "require_envelope_key st =
     (case va_keys st of Some keys \<Rightarrow> ok_or Locked (uk_envelope_vault_key keys) | None \<Rightarrow> Inl Locked)"

definition previous_envelope_key :: "vault \<Rightarrow> bytes option" where
  "previous_envelope_key st = Option.bind (va_keys st) uk_previous_envelope_vault_key"

definition clear_previous_envelope_key :: "vault \<Rightarrow> vault" where
  "clear_previous_envelope_key st =
     st\<lparr>va_keys := map_option (\<lambda>k. k\<lparr>uk_previous_envelope_vault_key := None\<rparr>) (va_keys st)\<rparr>"

definition lock :: "vault \<Rightarrow> vault" where
  "lock st = st\<lparr>va_keys := None\<rparr>"

definition vcrypto :: "CryptoError + 'a \<Rightarrow> VaultError + 'a" where
  "vcrypto r = map_err V_Crypto r"

lemma vcrypto_simps [simp]: "vcrypto (Inr x) = Inr x" "vcrypto (Inl e) = Inl (V_Crypto e)"
  by (simp_all add: vcrypto_def)

lemma vcrypto_Inr: "vcrypto r = Inr x \<longleftrightarrow> r = Inr x"
  by (cases r) simp_all

definition wrapped_array :: "string \<Rightarrow> bytes \<Rightarrow> VaultError + bytes" where
  "wrapped_array what w = (if length w = WRAPPED_KEY_LEN then Inr w else Inl (InvalidConfig what))"

section \<open>Sealed tokens and the legacy read key\<close>

definition OAUTH_REFRESH_TOKEN_INFO :: bytes where
  "OAUTH_REFRESH_TOKEN_INFO = str_bytes ''omnidrive-oauth-refresh-tokens-v1''"
definition LEGACY_READ_KEY_INFO :: bytes where "LEGACY_READ_KEY_INFO = str_bytes ''legacy-read-key-v1''"
definition LOCAL_CACHE_KEY_INFO :: bytes where "LOCAL_CACHE_KEY_INFO = str_bytes ''omnidrive-local-cache-v1''"

definition seal_oauth_token :: "prims \<Rightarrow> bytes \<Rightarrow> vault \<Rightarrow> string \<Rightarrow> string \<Rightarrow> VaultError + bytes" where
  "seal_oauth_token P nonce st user_id token =
     bindR (require_envelope_key st) (\<lambda>evk.
     bindR (vcrypto (derive_subkey (pr_crypto P) evk OAUTH_REFRESH_TOKEN_INFO)) (\<lambda>derived.
       vcrypto (encrypt_secret (pr_crypto P) nonce derived (str_bytes token) (str_bytes user_id))))"

definition unseal_oauth_token :: "prims \<Rightarrow> vault \<Rightarrow> string \<Rightarrow> bytes \<Rightarrow> VaultError + bytes" where
  "unseal_oauth_token P st user_id blob =
     bindR (require_envelope_key st) (\<lambda>evk.
     bindR (vcrypto (derive_subkey (pr_crypto P) evk OAUTH_REFRESH_TOKEN_INFO)) (\<lambda>derived.
       vcrypto (decrypt_secret (pr_crypto P) derived blob (str_bytes user_id))))"

definition seal_legacy_read_key :: "prims \<Rightarrow> bytes \<Rightarrow> bytes \<Rightarrow> bytes \<Rightarrow> string \<Rightarrow> VaultError + bytes" where
  "seal_legacy_read_key P nonce ek old_vk vault_id =
     bindR (vcrypto (derive_subkey (pr_crypto P) ek LEGACY_READ_KEY_INFO)) (\<lambda>subkey.
       vcrypto (encrypt_secret (pr_crypto P) nonce subkey old_vk (str_bytes vault_id)))"

definition open_legacy_read_key :: "prims \<Rightarrow> bytes \<Rightarrow> bytes \<Rightarrow> string \<Rightarrow> VaultError + bytes" where
  "open_legacy_read_key P ek blob vault_id =
     bindR (vcrypto (derive_subkey (pr_crypto P) ek LEGACY_READ_KEY_INFO)) (\<lambda>subkey.
     bindR (vcrypto (decrypt_secret (pr_crypto P) subkey blob (str_bytes vault_id))) (\<lambda>pt.
       if length pt = KEY_LEN then Inr pt else Inl (InvalidConfig ''legacy_read_key has invalid length'')))"

definition derive_cache_key :: "prims \<Rightarrow> bytes \<Rightarrow> VaultError + bytes" where
  "derive_cache_key P mk = vcrypto (expand_labeled_key (pr_crypto P) mk LOCAL_CACHE_KEY_INFO)"

definition vault_key_for_v1_read :: "prims \<Rightarrow> vault \<Rightarrow> VaultError + bytes" where
  "vault_key_for_v1_read P st =
     (case get_legacy_read_key (va_db st) of
        Some blob \<Rightarrow>
          bindR (require_envelope_key st) (\<lambda>ek.
          bindR (ok_or (InvalidConfig ''no vault_state found'') (get_vault_params (va_db st))) (\<lambda>v.
            open_legacy_read_key P ek blob (vr_vault_id v)))
      | None \<Rightarrow> require_key st)"

section \<open>Unlocking\<close>

text \<open>
  The plaintext refresh tokens are sealed once the envelope key is in memory; a token that cannot be sealed
  stays as it is.
\<close>

fun seal_plaintext_tokens :: "prims \<Rightarrow> (string \<Rightarrow> bytes) \<Rightarrow> vault \<Rightarrow> (string \<times> string) list \<Rightarrow> vault" where
  "seal_plaintext_tokens P nonce st [] = st"
| "seal_plaintext_tokens P nonce st ((uid, token) # rest) =
     (case seal_oauth_token P (nonce uid) st uid token of
        Inl e \<Rightarrow> seal_plaintext_tokens P nonce st rest
      | Inr cipher \<Rightarrow>
          seal_plaintext_tokens P nonce
            (st\<lparr>va_db := clear_plaintext_refresh_token (store_encrypted_refresh_token (va_db st) uid cipher) uid\<rparr>) rest)"

text \<open>The keys an unlock arrives at, and the database with the envelope key it had to create.\<close>

definition unlock_keys :: "prims \<Rightarrow> bytes \<Rightarrow> adb \<Rightarrow> RootKeys \<Rightarrow> VaultError + UnlockedVaultKeys \<times> adb" where
  "unlock_keys P rnd_key s root =
     (case Option.bind (get_vault_params s) vr_encrypted_vault_key of
        Some wrapped \<Rightarrow>
          if length wrapped = WRAPPED_KEY_LEN
          then bindR (vcrypto (unwrap_key (pr_crypto P) (kek root) wrapped)) (\<lambda>ek.
                 Inr (with_envelope_key (master_key root) (vault_key root) ek, s))
          else bindR (vcrypto (wrap_key (pr_crypto P) (kek root) rnd_key)) (\<lambda>w.
                 Inr (with_envelope_key (master_key root) (vault_key root) rnd_key, store_encrypted_vault_key s w 1))
      | None \<Rightarrow>
          bindR (vcrypto (wrap_key (pr_crypto P) (kek root) rnd_key)) (\<lambda>w.
            Inr (with_envelope_key (master_key root) (vault_key root) rnd_key, store_encrypted_vault_key s w 1)))"

record unlock_rnd =
  un_config_salt :: bytes
  un_vault_salt :: bytes
  un_key :: bytes
  un_nonce :: "string \<Rightarrow> bytes"

definition unlock :: "prims \<Rightarrow> unlock_rnd \<Rightarrow> vault \<Rightarrow> bytes \<Rightarrow> (VaultError + UnlockResult) \<times> vault" where
  "unlock P rnd st passphrase =
     (if passphrase = [] then (Inl EmptyPassphrase, st)
      else case ensure_vault_config (va_db st) (un_config_salt rnd) of
        (Inl e, s1) \<Rightarrow> (Inl e, st\<lparr>va_db := s1\<rparr>)
      | (Inr (config, initialized), s1) \<Rightarrow>
          let s2 = snd (ensure_local_vault_params s1 (un_vault_salt rnd) config)
          in (case bindR (vcrypto (derive_root_keys (pr_crypto P) passphrase config))
                     (unlock_keys P (un_key rnd) s2) of
                Inl e \<Rightarrow> (Inl e, st\<lparr>va_db := s2\<rparr>)
              | Inr (keys, s3) \<Rightarrow>
                  (Inr \<lparr>ur_initialized = initialized, ur_unlocked = True\<rparr>,
                   seal_plaintext_tokens P (un_nonce rnd) (st\<lparr>va_db := s3, va_keys := Some keys\<rparr>)
                     (users_with_plaintext_refresh_token s3))))"

definition verify_passphrase :: "prims \<Rightarrow> vault \<Rightarrow> bytes \<Rightarrow> VaultError + bool" where
  "verify_passphrase P st passphrase =
     (if passphrase = [] then Inr False
      else
        bindR (ok_or (InvalidConfig ''no vault_config found'') (get_vault_config (va_db st))) (\<lambda>config.
        bindR (to_root_kdf_params config) (\<lambda>params.
        bindR (vcrypto (derive_root_keys (pr_crypto P) passphrase params)) (\<lambda>root.
          case Option.bind (get_vault_params (va_db st)) vr_encrypted_vault_key of
            Some wrapped \<Rightarrow>
              if length wrapped = WRAPPED_KEY_LEN
              then Inr (case unwrap_key (pr_crypto P) (kek root) wrapped of Inr _ \<Rightarrow> True | Inl _ \<Rightarrow> False)
              else Inl (InvalidConfig ''no wrapped vault key in DB'')
          | None \<Rightarrow> Inl (InvalidConfig ''no wrapped vault key in DB'')))))"

section \<open>Data-encryption keys\<close>

definition current_vault_key_generation :: "adb \<Rightarrow> int" where
  "current_vault_key_generation s = coalesce (Option.bind (get_vault_params s) vr_vault_key_generation) 1"

text \<open>The current envelope key first, the previous one while a re-wrap is under way.\<close>

definition unwrap_dek_bytes :: "prims \<Rightarrow> vault \<Rightarrow> bytes \<Rightarrow> VaultError + bytes" where
  "unwrap_dek_bytes P st wrapped_dek =
     bindR (require_envelope_key st) (\<lambda>ek.
     bindR (wrapped_array ''wrapped_dek has invalid length'' wrapped_dek) (\<lambda>wrapped.
       case unwrap_key (pr_crypto P) ek wrapped of
         Inr key \<Rightarrow> Inr key
       | Inl first_err \<Rightarrow>
           (case previous_envelope_key st of
              Some previous \<Rightarrow> vcrypto (unwrap_key (pr_crypto P) previous wrapped)
            | None \<Rightarrow> Inl (V_Crypto first_err))))"

definition get_or_create_dek ::
  "prims \<Rightarrow> bytes \<Rightarrow> int \<Rightarrow> vault \<Rightarrow> int \<Rightarrow> VaultError + (int \<times> bytes) \<times> vault" where
  "get_or_create_dek P rnd_key now_ms st inode_id =
     bindR (require_envelope_key st) (\<lambda>ek.
       case get_wrapped_dek (va_db st) inode_id of
         Some record \<Rightarrow>
           bindR (unwrap_dek_bytes P st (dk_wrapped_dek record)) (\<lambda>dek. Inr ((dk_dek_id record, dek), st))
       | None \<Rightarrow>
           bindR (vcrypto (wrap_key (pr_crypto P) ek rnd_key)) (\<lambda>wrapped.
           bindR (map_err V_Db (insert_wrapped_dek (va_db st) now_ms inode_id wrapped 1
                    (current_vault_key_generation (va_db st)))) (\<lambda>(dek_id, s').
             Inr ((dek_id, rnd_key), st\<lparr>va_db := s'\<rparr>))))"

definition create_pack_dek ::
  "prims \<Rightarrow> bytes \<Rightarrow> int \<Rightarrow> vault \<Rightarrow> int \<Rightarrow> VaultError + (int \<times> bytes) \<times> vault" where
  "create_pack_dek P rnd_key now_ms st creating_inode_id =
     bindR (require_envelope_key st) (\<lambda>ek.
     bindR (vcrypto (wrap_key (pr_crypto P) ek rnd_key)) (\<lambda>wrapped.
     bindR (map_err V_Db (insert_wrapped_dek (va_db st) now_ms creating_inode_id wrapped
              (next_dek_key_version (va_db st) creating_inode_id)
              (current_vault_key_generation (va_db st)))) (\<lambda>(dek_id, s').
       Inr ((dek_id, rnd_key), st\<lparr>va_db := s'\<rparr>))))"

definition dek_for_pack :: "prims \<Rightarrow> vault \<Rightarrow> string \<Rightarrow> VaultError + bytes \<times> vault" where
  "dek_for_pack P st pack_id =
     (case get_pack_dek_id (va_db st) pack_id of
        Some dek_id \<Rightarrow>
          bindR (ok_or (InvalidConfig ''pack_deks points at a missing DEK'')
                   (get_wrapped_dek_by_id (va_db st) dek_id)) (\<lambda>record.
          bindR (unwrap_dek_bytes P st (dk_wrapped_dek record)) (\<lambda>dek. Inr (dek, st)))
      | None \<Rightarrow>
          bindR (ok_or (InvalidConfig ''pack has no referencing revision'')
                   (creating_inode_for_pack (va_db st) pack_id)) (\<lambda>inode_id.
          bindR (ok_or (InvalidConfig ''legacy pack has no DEK for its inode'')
                   (get_wrapped_dek (va_db st) inode_id)) (\<lambda>record.
          bindR (unwrap_dek_bytes P st (dk_wrapped_dek record)) (\<lambda>dek.
            Inr (dek, st\<lparr>va_db := set_pack_dek (va_db st) pack_id (dk_dek_id record)\<rparr>)))))"

section \<open>Rotation to a new passphrase\<close>

fun rewrap_all :: "prims \<Rightarrow> bytes \<Rightarrow> bytes \<Rightarrow> WrappedDekRecord list \<Rightarrow> VaultError + (int \<times> bytes) list" where
  "rewrap_all P old_key new_key [] = Inr []"
| "rewrap_all P old_key new_key (k # ks) =
     bindR (wrapped_array ''wrapped_dek has invalid length'' (dk_wrapped_dek k)) (\<lambda>old_wrapped.
     bindR (vcrypto (unwrap_key (pr_crypto P) old_key old_wrapped)) (\<lambda>plaintext_dek.
     bindR (vcrypto (wrap_key (pr_crypto P) new_key plaintext_dek)) (\<lambda>new_wrapped.
     bindR (rewrap_all P old_key new_key ks) (\<lambda>rest. Inr ((dk_dek_id k, new_wrapped) # rest)))))"

text \<open>
  The writes of a rotation, in order, each a statement of its own: the vault record, the parameters of the key
  derivation, then one update per DEK. They are not one transaction.
\<close>

definition rotation_writes ::
  "RootKdfParams \<Rightarrow> bytes \<Rightarrow> int \<Rightarrow> (int \<times> bytes) list \<Rightarrow> (adb \<Rightarrow> adb) list" where
  "rotation_writes new_params wrapped_new_vault_key new_generation rewrapped =
     [\<lambda>s. rotate_vault_state s (salt new_params) (argon2_json_of new_params) wrapped_new_vault_key new_generation,
      \<lambda>s. store_config s new_params] @
     map (\<lambda>(dek_id, new_wrapped) s. update_wrapped_dek s dek_id new_wrapped new_generation) rewrapped"

definition apply_writes :: "(adb \<Rightarrow> adb) list \<Rightarrow> adb \<Rightarrow> adb" where
  "apply_writes ws s = fold (\<lambda>w s. w s) ws s"

text \<open>
  Each write can fail; \<open>fail_at\<close> says which one does (counted from 0) and with which error. The writes before it
  stay, and the keys in memory are replaced only after the last.
\<close>

type_synonym write_fault = "(nat \<times> sqlx_error) option"

fun apply_fallible :: "write_fault \<Rightarrow> (adb \<Rightarrow> adb) list \<Rightarrow> adb \<Rightarrow> (sqlx_error + unit) \<times> adb" where
  "apply_fallible fail_at [] s = (Inr (), s)"
| "apply_fallible (Some (0, e)) (w # ws) s = (Inl e, s)"
| "apply_fallible (Some (Suc k, e)) (w # ws) s = apply_fallible (Some (k, e)) ws (w s)"
| "apply_fallible None (w # ws) s = apply_fallible None ws (w s)"

lemma apply_fallible_eq:
  "apply_fallible fail_at ws s =
     (case fail_at of
        None \<Rightarrow> (Inr (), apply_writes ws s)
      | Some (k, e) \<Rightarrow> if k < length ws then (Inl e, apply_writes (take k ws) s) else (Inr (), apply_writes ws s))"
  by (induction fail_at ws s rule: apply_fallible.induct) (auto simp: apply_writes_def split: option.splits)

text \<open>Everything a rotation computes before its first write.\<close>

definition plan_rotation ::
  "prims \<Rightarrow> bytes \<Rightarrow> bytes \<Rightarrow> vault \<Rightarrow> bytes \<Rightarrow>
     VaultError + RootKeys \<times> RootKdfParams \<times> int \<times> (int \<times> bytes) list \<times> (adb \<Rightarrow> adb) list" where
  "plan_rotation P rnd_salt rnd_key st new_passphrase =
     (if new_passphrase = [] then Inl EmptyPassphrase
      else
        bindR (require_envelope_key st) (\<lambda>old_key.
        bindR (ok_or (InvalidConfig ''no vault_config found'') (get_vault_config (va_db st))) (\<lambda>existing.
        bindR (to_root_kdf_params (existing\<lparr>vc_salt := rnd_salt\<rparr>)) (\<lambda>new_params.
        bindR (vcrypto (derive_root_keys (pr_crypto P) new_passphrase new_params)) (\<lambda>new_root.
        bindR (vcrypto (wrap_key (pr_crypto P) (kek new_root) rnd_key)) (\<lambda>wrapped.
        bindR (rewrap_all P old_key rnd_key (get_all_wrapped_deks (va_db st))) (\<lambda>rewrapped.
          let new_generation = current_vault_key_generation (va_db st) + 1
          in Inr (new_root, new_params, new_generation, rewrapped,
                  rotation_writes new_params wrapped new_generation rewrapped))))))))"

definition rotate_vault_key ::
  "prims \<Rightarrow> bytes \<Rightarrow> bytes \<Rightarrow> write_fault \<Rightarrow> vault \<Rightarrow> bytes \<Rightarrow> (VaultError + RotationResult) \<times> vault" where
  "rotate_vault_key P rnd_salt rnd_key fail_at st new_passphrase =
     (case plan_rotation P rnd_salt rnd_key st new_passphrase of
        Inl e \<Rightarrow> (Inl e, st)
      | Inr (new_root, new_params, new_generation, rewrapped, writes) \<Rightarrow>
          (case apply_fallible fail_at writes (va_db st) of
             (Inl e, s) \<Rightarrow> (Inl (V_Db e), st\<lparr>va_db := s\<rparr>)
           | (Inr _, s) \<Rightarrow>
               (Inr \<lparr>rr_new_generation = new_generation, rr_deks_rewrapped = length rewrapped\<rparr>,
                st\<lparr>va_db := s,
                   va_keys := Some (with_envelope_key (master_key new_root) (vault_key new_root) rnd_key)\<rparr>)))"

section \<open>Rotation after a revocation\<close>

definition rewrap_device :: "prims \<Rightarrow> bytes \<Rightarrow> bytes \<Rightarrow> int \<Rightarrow> DeviceRecord \<Rightarrow> nat \<times> adb \<Rightarrow> nat \<times> adb" where
  "rewrap_device P owner_private new_key new_generation dev acc =
     (if length (dv_public_key dev) = 32 \<and> dv_public_key dev \<noteq> zero_key
      then (case wrap_vault_key_for_device (pr_crypto P) (pr_kem P) (pr_dh P) owner_private (dv_public_key dev) new_key of
              Inr wrapped \<Rightarrow>
                (fst acc + 1, snd (set_device_wrapped_vault_key (snd acc) (dv_device_id dev) wrapped new_generation))
            | Inl e \<Rightarrow> acc)
      else acc)"

definition rewrap_member :: "prims \<Rightarrow> bytes \<Rightarrow> bytes \<Rightarrow> int \<Rightarrow> VaultMemberRecord \<Rightarrow> nat \<times> adb \<Rightarrow> nat \<times> adb" where
  "rewrap_member P owner_private new_key new_generation member acc =
     fold (rewrap_device P owner_private new_key new_generation)
       (get_active_devices_for_user (snd acc) (vm_user_id member)) acc"

definition rewrap_devices :: "prims \<Rightarrow> bytes \<Rightarrow> bytes \<Rightarrow> int \<Rightarrow> string \<Rightarrow> adb \<Rightarrow> nat \<times> adb" where
  "rewrap_devices P owner_private new_key new_generation vault_id s =
     fold (rewrap_member P owner_private new_key new_generation) (list_vault_members s vault_id) (0, s)"

definition rotate_for_revocation ::
  "prims \<Rightarrow> bytes \<Rightarrow> vault \<Rightarrow> (VaultError + RevocationRotationResult) \<times> vault" where
  "rotate_for_revocation P rnd_key st =
     (case bindR (require_envelope_key st) (\<lambda>old_key.
           bindR (require_master_key st) (\<lambda>mk.
           bindR (vcrypto (derive_kek (pr_crypto P) mk)) (\<lambda>kk.
           bindR (vcrypto (wrap_key (pr_crypto P) kk rnd_key)) (\<lambda>wrapped.
             Inr (old_key, mk, wrapped))))) of
        Inl e \<Rightarrow> (Inl e, st)
      | Inr (old_key, mk, wrapped) \<Rightarrow>
          let new_generation = current_vault_key_generation (va_db st) + 1;
              vault_params = get_vault_params (va_db st);
              st1 = st\<lparr>va_db := rotate_vault_key_only (va_db st) wrapped new_generation\<rparr>
          in (case get_device_private_key (pr_crypto P) (va_db st1) mk of
                Inl e \<Rightarrow> (Inl (InvalidConfig ''identity''), st1)
              | Inr owner_private \<Rightarrow>
                  (case vault_params of
                     None \<Rightarrow> (Inl (InvalidConfig ''no vault_id''), st1)
                   | Some v \<Rightarrow>
                       let (devices_rewrapped, s2) =
                             rewrap_devices P owner_private rnd_key new_generation (vr_vault_id v) (va_db st1);
                           (deks_enqueued, s3) = enqueue_deks_for_rewrap s2 new_generation
                       in (case require_key st1 of
                             Inl e \<Rightarrow> (Inl e, st1\<lparr>va_db := s3\<rparr>)
                           | Inr vk \<Rightarrow>
                               (Inr \<lparr>vr_new_generation = new_generation, vr_devices_rewrapped = devices_rewrapped,
                                     vr_deks_enqueued = deks_enqueued\<rparr>,
                                st1\<lparr>va_db := s3, va_keys := Some (with_previous_key mk vk rnd_key old_key)\<rparr>)))))"

section \<open>Re-wrapping in the background\<close>

definition rewrap_item :: "prims \<Rightarrow> bytes \<Rightarrow> bytes \<Rightarrow> int \<Rightarrow> int \<Rightarrow> RewrapQueueItem \<times> bytes \<Rightarrow> nat \<times> adb \<Rightarrow> nat \<times> adb" where
  "rewrap_item P old_key new_key new_generation now entry acc =
     (let dek_id = rq_dek_id (fst entry)
      in case bindR (wrapped_array ''wrapped_dek invalid length'' (snd entry)) (\<lambda>wrapped.
              bindR (vcrypto (unwrap_key (pr_crypto P) old_key wrapped)) (\<lambda>plaintext_dek.
                vcrypto (wrap_key (pr_crypto P) new_key plaintext_dek))) of
           Inr new_wrapped \<Rightarrow>
             (fst acc + 1, complete_rewrap_item (update_wrapped_dek (snd acc) dek_id new_wrapped new_generation) dek_id)
         | Inl e \<Rightarrow> (fst acc, fail_rewrap_item (snd acc) now dek_id))"

definition process_rewrap_batch :: "prims \<Rightarrow> int \<Rightarrow> vault \<Rightarrow> int \<Rightarrow> (VaultError + nat) \<times> vault" where
  "process_rewrap_batch P now st batch_size =
     (case require_envelope_key st of
        Inl e \<Rightarrow> (Inl e, st)
      | Inr new_key \<Rightarrow>
          (case previous_envelope_key st of
             None \<Rightarrow> (Inr 0, st)
           | Some old_key \<Rightarrow>
               (case get_pending_rewrap_batch (va_db st) batch_size of
                  Inl e \<Rightarrow> (Inl (V_Db e), st)
                | Inr [] \<Rightarrow> (Inr 0, clear_previous_envelope_key st)
                | Inr batch \<Rightarrow>
                    let (processed, s') = fold (rewrap_item P old_key new_key
                            (current_vault_key_generation (va_db st)) now) batch (0, va_db st);
                        (total, pending, failed) = get_rewrap_status s';
                        st' = st\<lparr>va_db := s'\<rparr>
                    in (Inr processed,
                        if total = 0 \<or> pending = 0 then clear_previous_envelope_key st' else st'))))"

section \<open>Migration of the key-derivation parameters\<close>

definition reseal_device_blob ::
  "prims \<Rightarrow> bytes \<Rightarrow> adb \<Rightarrow> bytes \<Rightarrow> bytes \<Rightarrow> VaultError + bytes option" where
  "reseal_device_blob P nonce s old_master new_master =
     (case Option.bind (get_local_device_identity s) ld_encrypted_private_key of
        None \<Rightarrow> Inr None
      | Some old_blob \<Rightarrow>
          map_err (\<lambda>_. InvalidConfig ''device key reseal failed'')
            (bindR (reseal_local_device_private_key (pr_crypto P) nonce old_master new_master old_blob)
               (\<lambda>b. Inr (Some b))))"

definition kdf_writes :: "RootKdfParams \<Rightarrow> bytes \<Rightarrow> bytes \<Rightarrow> bytes option \<Rightarrow> KdfMigrationWrites" where
  "kdf_writes p wrapped legacy_blob device_blob =
     \<lparr>kw_new_salt = salt p, kw_new_argon2_params = argon2_json_of p,
      kw_new_param_version = uint (parameter_set_version p), kw_new_memory_cost_kib = uint (memory_cost_kib p),
      kw_new_time_cost = uint (time_cost p), kw_new_lanes = uint (lanes p),
      kw_new_encrypted_vault_key = wrapped, kw_legacy_read_key_blob = legacy_blob,
      kw_new_device_private_key = device_blob\<rparr>"

definition migrate_kdf_params_if_needed ::
  "prims \<Rightarrow> bytes \<Rightarrow> bytes \<Rightarrow> bytes \<Rightarrow> vault \<Rightarrow> bytes \<Rightarrow> VaultError + MigrationOutcome \<times> vault" where
  "migrate_kdf_params_if_needed P rnd_salt nonce1 nonce2 st passphrase =
     bindR (ok_or (InvalidConfig ''no vault_config found'') (get_vault_config (va_db st))) (\<lambda>cfg.
       if \<not> needs_kdf_migration (vc_parameter_set_version cfg) then Inr (Skipped, st)
       else if 1 < count_active_devices (va_db st) then Inr (Declined, st)
       else
         bindR (require_master_key st) (\<lambda>old_master.
         bindR (require_envelope_key st) (\<lambda>ek.
         bindR (require_key st) (\<lambda>old_vk.
         bindR (ok_or (InvalidConfig ''no vault_state found'') (get_vault_params (va_db st))) (\<lambda>v.
         let new_params = target_kdf_params rnd_salt in
         bindR (vcrypto (derive_root_keys (pr_crypto P) passphrase new_params)) (\<lambda>new_root.
         bindR (vcrypto (wrap_key (pr_crypto P) (kek new_root) ek)) (\<lambda>wrapped.
         bindR (seal_legacy_read_key P nonce1 ek old_vk (vr_vault_id v)) (\<lambda>legacy_blob.
         bindR (reseal_device_blob P nonce2 (va_db st) old_master (master_key new_root)) (\<lambda>device_blob.
           Inr (Migrated (vc_parameter_set_version cfg) (uint TARGET_PARAMETER_SET_VERSION),
             st\<lparr>va_db := migrate_kdf_params_tx (va_db st) (kdf_writes new_params wrapped legacy_blob device_blob),
                va_keys := Some (with_envelope_key (master_key new_root) (vault_key new_root) ek)\<rparr>))))))))))"

record maintenance_rnd =
  mr_salt :: bytes
  mr_nonce1 :: bytes
  mr_nonce2 :: bytes
  mr_secret :: bytes
  mr_nonce3 :: bytes
  mr_kyber :: "bytes \<times> bytes"
  mr_nonce4 :: bytes

definition run_post_unlock_maintenance ::
  "prims \<Rightarrow> maintenance_rnd \<Rightarrow> int \<Rightarrow> vault \<Rightarrow> bytes \<Rightarrow> (VaultError + unit) \<times> vault" where
  "run_post_unlock_maintenance P rnd now st passphrase =
     (let st1 = (case migrate_kdf_params_if_needed P (mr_salt rnd) (mr_nonce1 rnd) (mr_nonce2 rnd) st passphrase of
            Inr (_, st') \<Rightarrow> st' | Inl _ \<Rightarrow> st)
      in case require_master_key st1 of
           Inl e \<Rightarrow> (Inl e, st1)
         | Inr mk \<Rightarrow>
             let s2 = (case ensure_device_keypair (pr_crypto P) (pr_dh P) (mr_secret rnd) (mr_nonce3 rnd) now (va_db st1) mk of
                   Inr (_, s') \<Rightarrow> s' | Inl _ \<Rightarrow> va_db st1);
                 s3 = (case ensure_device_kyber_keypair (pr_crypto P) (mr_kyber rnd) (mr_nonce4 rnd) now s2 mk of
                   Inr (_, s') \<Rightarrow> s' | Inl _ \<Rightarrow> s2)
             in (Inr (), st1\<lparr>va_db := s3\<rparr>))"

end
