(* ===== verification/VaultProofs.thy ===== *)
theory VaultProofs
  imports VaultKeys
begin

text \<open>
  Correctness of the vault keys: unlocking again gives the same keys, a rotation to a new passphrase that ends keeps
  every data-encryption key, and one that fails between two of its writes loses those it had not reached.
\<close>

section \<open>Derived keys\<close>

lemma expand_len: "prims_ok P \<Longrightarrow> expand_labeled_key P k i = Inr d \<Longrightarrow> length d = 32"
proof -
  assume "prims_ok P" "expand_labeled_key P k i = Inr d"
  moreover obtain d' where "hkdf_expand P k i = Some d'" "length d' = 32"
    using \<open>prims_ok P\<close> [unfolded prims_ok_def, THEN conjunct2, THEN conjunct2, THEN conjunct1] by blast
  ultimately show ?thesis by (simp add: expand_labeled_key_def split: if_splits)
qed

lemma root_keys_props:
  assumes "prims_ok P" and "derive_root_keys P pp params = Inr root"
  shows "length (kek root) = 32" and "length (vault_key root) = 32" and "derive_kek P (master_key root) = Inr (kek root)"
    and "length (master_key root) = 32"
proof -
  from assms(2) obtain m vk kk where root: "master_key root = m" "vault_key root = vk" "kek root = kk"
    and vk: "expand_labeled_key P m VAULT_KEY_INFO = Inr vk" and kk: "expand_labeled_key P m KEK_V2_INFO = Inr kk"
    and m: "argon2_hash P (memory_cost_kib params) (time_cost params) (lanes params) pp (salt params) = Some m"
    by (auto simp: derive_root_keys_def result_elims split: if_splits)
  from m show "length (master_key root) = 32" using assms(1) by (simp add: root prims_ok_def)
  from vk kk show "length (kek root) = 32" "length (vault_key root) = 32"
    "derive_kek P (master_key root) = Inr (kek root)"
    using expand_len [OF assms(1)] by (simp_all add: root derive_kek_def)
qed

lemma to_u32_uint: "to_u32 what (uint (x :: u32)) = Inr x"
  using uint_lt2p [of x] by (simp add: to_u32_def)

lemma root_params_stored:
  "vault_config s = Some \<lparr>vc_salt = salt p, vc_parameter_set_version = uint (parameter_set_version p),
     vc_memory_cost_kib = uint (memory_cost_kib p), vc_time_cost = uint (time_cost p), vc_lanes = uint (lanes p)\<rparr> \<Longrightarrow>
   ensure_vault_config s r = (Inr (p, False), s)"
  by (simp add: ensure_vault_config_def get_vault_config_def to_root_kdf_params_def to_u32_uint)

lemma wrap_len: "prims_ok P \<Longrightarrow> length k = 32 \<Longrightarrow> length p = 32 \<Longrightarrow> wrap_key P k p = Inr w \<Longrightarrow>
    length w = WRAPPED_KEY_LEN \<and> unwrap_key P k w = Inr p"
  using prims_wrap [of P k p] by (auto simp: WRAPPED_KEY_LEN_def KEY_LEN_def)

section \<open>Sealing tokens touches only the users\<close>

definition same_but_users :: "adb \<Rightarrow> adb \<Rightarrow> bool" where
  "same_but_users s s' \<longleftrightarrow> (\<exists>u. s' = s\<lparr>users := u\<rparr>)"

lemma same_but_users_refl: "same_but_users s s"
  unfolding same_but_users_def by (intro exI [of _ "users s"]) simp

lemma same_but_users_trans: "same_but_users s s' \<Longrightarrow> same_but_users s' s'' \<Longrightarrow> same_but_users s s''"
  unfolding same_but_users_def by (elim exE) (simp, blast)

lemma same_but_users_seal:
  "same_but_users s (clear_plaintext_refresh_token (store_encrypted_refresh_token s uid c) uid)"
  by (auto simp: same_but_users_def clear_plaintext_refresh_token_def store_encrypted_refresh_token_def)

lemma seal_tokens_state:
  "va_keys (seal_plaintext_tokens P n st ts) = va_keys st \<and>
   same_but_users (va_db st) (va_db (seal_plaintext_tokens P n st ts))"
proof (induction P n st ts rule: seal_plaintext_tokens.induct)
  case (2 P nonce st uid token rest)
  show ?case
  proof (cases "seal_oauth_token P (nonce uid) st uid token")
    case (Inl e)
    with "2.IH"(1) show ?thesis by simp
  next
    case (Inr c)
    note ih = "2.IH"(2) [OF Inr]
    have "same_but_users (va_db st) (va_db (seal_plaintext_tokens P nonce st ((uid, token) # rest)))"
      using ih by (simp add: Inr) (rule same_but_users_trans [OF same_but_users_seal], blast)
    with ih show ?thesis by (simp add: Inr)
  qed
qed (simp add: same_but_users_refl)

lemma same_but_users_tables:
  assumes "same_but_users s s'"
  shows "vault_state s' = vault_state s" "vault_config s' = vault_config s"
    "data_encryption_keys s' = data_encryption_keys s" "dek_rewrap_queue s' = dek_rewrap_queue s"
    "local_device_identity s' = local_device_identity s" "pack_deks s' = pack_deks s" "ad_core s' = ad_core s"
  using assms by (auto simp: same_but_users_def)

text \<open>
  An unlock of a vault whose parameters and wrapped key are stored: it derives the keys, unwraps, and changes
  nothing but sealed tokens.
\<close>

lemma unlock_stored:
  assumes cfg: "ensure_vault_config (va_db st) (un_config_salt rnd) = (Inr (params, False), va_db st)"
    and v: "vault_state (va_db st) = Some v" and w: "vr_encrypted_vault_key v = Some w" "length w = WRAPPED_KEY_LEN"
    and pp: "pp \<noteq> []" and root: "derive_root_keys (pr_crypto P) pp params = Inr root"
    and ek: "unwrap_key (pr_crypto P) (kek root) w = Inr ek"
  shows "\<exists>st'. unlock P rnd st pp = (Inr \<lparr>ur_initialized = False, ur_unlocked = True\<rparr>, st') \<and>
    va_keys st' = Some (with_envelope_key (master_key root) (vault_key root) ek) \<and>
    same_but_users (va_db st) (va_db st')"
proof -
  let ?keys = "with_envelope_key (master_key root) (vault_key root) ek"
  let ?st = "st\<lparr>va_keys := Some ?keys\<rparr>"
  have "unlock P rnd st pp = (Inr \<lparr>ur_initialized = False, ur_unlocked = True\<rparr>,
      seal_plaintext_tokens P (un_nonce rnd) ?st (users_with_plaintext_refresh_token (va_db st)))"
    using assms by (simp add: unlock_def ensure_local_vault_params_def get_vault_params_def unlock_keys_def)
  with seal_tokens_state [of P "un_nonce rnd" ?st] show ?thesis by auto
qed

lemma unlock_wrong_passphrase:
  assumes cfg: "ensure_vault_config (va_db st) (un_config_salt rnd) = (Inr (params, False), va_db st)"
    and v: "vault_state (va_db st) = Some v" and w: "vr_encrypted_vault_key v = Some w" "length w = WRAPPED_KEY_LEN"
    and pp: "pp \<noteq> []" and root: "derive_root_keys (pr_crypto P) pp params = Inr root"
    and ek: "unwrap_key (pr_crypto P) (kek root) w = Inl e"
  shows "unlock P rnd st pp = (Inl (V_Crypto e), st)"
  using assms by (simp add: unlock_def ensure_local_vault_params_def get_vault_params_def unlock_keys_def)

text \<open>What a successful unlock leaves behind, whether it created the key or found it.\<close>

lemma config_stored:
  assumes "ensure_vault_config s r = (Inr (params, i), s1)"
  shows "ensure_vault_config s1 r' = (Inr (params, False), s1)"
proof (cases "vault_config s")
  case None
  with assms have "s1 = store_config s (target_kdf_params r)" "params = target_kdf_params r"
    by (auto simp: ensure_vault_config_def get_vault_config_def)
  then show ?thesis by (intro root_params_stored) (simp add: store_config_def set_vault_config_def)
next
  case (Some c)
  with assms show ?thesis by (auto simp: ensure_vault_config_def get_vault_config_def result_elims)
qed

lemma config_stored_params:
  "ensure_vault_config s r = (Inr (params, False), s) \<Longrightarrow> vault_config s' = vault_config s \<Longrightarrow>
     ensure_vault_config s' r = (Inr (params, False), s')"
  by (auto simp: ensure_vault_config_def get_vault_config_def split: option.splits)

lemma local_params_state:
  assumes "s2 = snd (ensure_local_vault_params s1 vsalt params)"
  shows "\<exists>v. vault_state s2 = Some v" and "vault_config s2 = vault_config s1"
  using assms by (auto simp: ensure_local_vault_params_def get_vault_params_def set_vault_params_def)

lemma unlock_keys_result:
  assumes P: "prims_ok (pr_crypto P)" and rnd: "length rnd_key = 32" and kk: "length (kek root) = 32"
    and v: "vault_state s = Some v" and r: "unlock_keys P rnd_key s root = Inr (keys, s')"
  shows "\<exists>ek v' w. keys = with_envelope_key (master_key root) (vault_key root) ek \<and> vault_state s' = Some v' \<and>
    vr_encrypted_vault_key v' = Some w \<and> length w = WRAPPED_KEY_LEN \<and> unwrap_key (pr_crypto P) (kek root) w = Inr ek \<and>
    vault_config s' = vault_config s \<and> vr_vault_id v' = vr_vault_id v"
proof -
  have fresh: ?thesis if "wrap_key (pr_crypto P) (kek root) rnd_key = Inr w"
    "keys = with_envelope_key (master_key root) (vault_key root) rnd_key" "s' = store_encrypted_vault_key s w 1" for w
    using that v wrap_len [OF P kk rnd] by (auto simp: store_encrypted_vault_key_def update_vault_state_def)
  show ?thesis
  proof (cases "vr_encrypted_vault_key v")
    case None
    with r v fresh show ?thesis by (auto simp: unlock_keys_def get_vault_params_def result_elims vcrypto_Inr)
  next
    case (Some w)
    with r v fresh show ?thesis
      by (cases "length w = WRAPPED_KEY_LEN") (auto simp: unlock_keys_def get_vault_params_def result_elims vcrypto_Inr)
  qed
qed

lemma unlock_result:
  assumes P: "prims_ok (pr_crypto P)" and rnd: "length (un_key rnd) = 32"
    and r: "unlock P rnd st pp = (Inr res, st')"
  shows "\<exists>params root ek v w. pp \<noteq> [] \<and> ensure_vault_config (va_db st') r' = (Inr (params, False), va_db st') \<and>
    derive_root_keys (pr_crypto P) pp params = Inr root \<and>
    va_keys st' = Some (with_envelope_key (master_key root) (vault_key root) ek) \<and>
    vault_state (va_db st') = Some v \<and> vr_encrypted_vault_key v = Some w \<and> length w = WRAPPED_KEY_LEN \<and>
    unwrap_key (pr_crypto P) (kek root) w = Inr ek"
proof -
  from r obtain params i s1 where pp: "pp \<noteq> []"
    and cfg: "ensure_vault_config (va_db st) (un_config_salt rnd) = (Inr (params, i), s1)"
    by (auto simp: unlock_def Let_def split: if_splits prod.splits sum.splits)
  define s2 where "s2 = snd (ensure_local_vault_params s1 (un_vault_salt rnd) params)"
  from r pp cfg obtain root keys s3 where root: "derive_root_keys (pr_crypto P) pp params = Inr root"
    and uk: "unlock_keys P (un_key rnd) s2 root = Inr (keys, s3)"
    and st': "st' = seal_plaintext_tokens P (un_nonce rnd) (st\<lparr>va_db := s3, va_keys := Some keys\<rparr>)
      (users_with_plaintext_refresh_token s3)"
    by (auto simp: unlock_def s2_def [symmetric] result_elims vcrypto_Inr bindR_eq_Inl split: sum.splits prod.splits)
  from local_params_state [OF s2_def] obtain v2 where v2: "vault_state s2 = Some v2" and c2: "vault_config s2 = vault_config s1"
    by blast
  from unlock_keys_result [OF P rnd root_keys_props(1) [OF P root] v2 uk] obtain ek v w where
    k: "keys = with_envelope_key (master_key root) (vault_key root) ek" "vault_state s3 = Some v"
      "vr_encrypted_vault_key v = Some w" "length w = WRAPPED_KEY_LEN" "unwrap_key (pr_crypto P) (kek root) w = Inr ek"
      "vault_config s3 = vault_config s1" using c2 by auto
  have tables: "va_keys st' = Some keys" "vault_state (va_db st') = Some v" "vault_config (va_db st') = vault_config s1"
    using seal_tokens_state [of P "un_nonce rnd" "st\<lparr>va_db := s3, va_keys := Some keys\<rparr>"] k(2,6)
    by (simp_all add: st' same_but_users_tables(1,2) [of s3])
  have "ensure_vault_config (va_db st') r' = (Inr (params, False), va_db st')"
    using config_stored_params [OF config_stored [OF cfg] tables(3)] .
  with pp root k tables show ?thesis by auto
qed

text \<open>
  Unlocking is stable. After a successful unlock, locking and unlocking with the same passphrase succeeds,
  finds the vault initialised, gives the same master, vault and envelope keys and changes no table but the
  sealed tokens; verification accepts the passphrase; and a passphrase whose derived key does not open the stored
  envelope key is refused with the vault left locked and unchanged.
\<close>

theorem unlock_stable:
  assumes P: "prims_ok (pr_crypto P)" and rnd: "length (un_key rnd) = 32"
    and r: "unlock P rnd st pp = (Inr res, st1)"
  shows "(\<exists>st2. unlock P rnd2 (lock st1) pp = (Inr \<lparr>ur_initialized = False, ur_unlocked = True\<rparr>, st2) \<and>
      va_keys st2 = va_keys st1 \<and> same_but_users (va_db st1) (va_db st2)) \<and>
    verify_passphrase P st1 pp = Inr True \<and>
    (\<forall>params root w e. to_root_kdf_params (the (vault_config (va_db st1))) = Inr params \<longrightarrow>
       derive_root_keys (pr_crypto P) bad params = Inr root \<longrightarrow> bad \<noteq> [] \<longrightarrow>
       vr_encrypted_vault_key (the (vault_state (va_db st1))) = Some w \<longrightarrow> kw_unwrap (pr_crypto P) (kek root) w = None \<longrightarrow>
       unlock P rnd2 (lock st1) bad = (Inl (V_Crypto KeyWrap), lock st1) \<and> verify_passphrase P st1 bad = Inr False)"
proof -
  from unlock_result [OF P rnd r] obtain params root ek v w where
    k: "pp \<noteq> []" "ensure_vault_config (va_db st1) (un_config_salt rnd2) = (Inr (params, False), va_db st1)"
      "derive_root_keys (pr_crypto P) pp params = Inr root"
      "va_keys st1 = Some (with_envelope_key (master_key root) (vault_key root) ek)"
      "vault_state (va_db st1) = Some v" "vr_encrypted_vault_key v = Some w" "length w = WRAPPED_KEY_LEN"
      "unwrap_key (pr_crypto P) (kek root) w = Inr ek" by metis
  from k(2) obtain c where c: "vault_config (va_db st1) = Some c" "to_root_kdf_params c = Inr params"
    by (auto simp: ensure_vault_config_def get_vault_config_def result_elims split: option.splits)
  have cfg: "ensure_vault_config (va_db (lock st1)) (un_config_salt rnd2) = (Inr (params, False), va_db (lock st1))"
    using k(2) by (simp add: lock_def)
  have one: "\<exists>st2. unlock P rnd2 (lock st1) pp = (Inr \<lparr>ur_initialized = False, ur_unlocked = True\<rparr>, st2) \<and>
      va_keys st2 = va_keys st1 \<and> same_but_users (va_db st1) (va_db st2)"
    using unlock_stored [OF cfg _ k(6,7,1,3,8)] k(4,5) by (auto simp: lock_def)
  have two: "verify_passphrase P st1 pp = Inr True"
    using k c by (simp add: verify_passphrase_def get_vault_config_def get_vault_params_def)
  have "unlock P rnd2 (lock st1) bad = (Inl (V_Crypto KeyWrap), lock st1) \<and> verify_passphrase P st1 bad = Inr False"
    if "derive_root_keys (pr_crypto P) bad params = Inr root'" "bad \<noteq> []" "kw_unwrap (pr_crypto P) (kek root') w = None"
    for root'
  proof
    have u: "unwrap_key (pr_crypto P) (kek root') w = Inl KeyWrap" using that(3) by (simp add: unwrap_key_def)
    then show "unlock P rnd2 (lock st1) bad = (Inl (V_Crypto KeyWrap), lock st1)"
      using unlock_wrong_passphrase [OF cfg _ k(6,7) that(2,1) u] k(5) by (simp add: lock_def)
    show "verify_passphrase P st1 bad = Inr False"
      using k c that u by (simp add: verify_passphrase_def get_vault_config_def get_vault_params_def)
  qed
  with one two k(5,6) c show ?thesis by auto
qed

definition toy_prims :: prims where
  "toy_prims = \<lparr>pr_crypto = xor_prims, pr_kem = toy_kem, pr_dh = add_dh\<rparr>"

definition toy_rnd :: unlock_rnd where
  "toy_rnd = \<lparr>un_config_salt = replicate 32 4, un_vault_salt = replicate 32 6, un_key = replicate 32 8,
     un_nonce = (\<lambda>_. replicate 12 9)\<rparr>"

definition new_vault :: vault where
  "new_vault = \<lparr>va_db = empty_adb, va_keys = None\<rparr>"

lemma toy_prims_ok: "prims_ok (pr_crypto toy_prims)" "kem_ok (pr_kem toy_prims)" "dh_ok (pr_dh toy_prims)"
  by (simp_all add: toy_prims_def xor_prims_ok toy_kem_ok add_dh_ok)

lemma xor_root_keys:
  assumes "8 \<le> memory_cost_kib p" and "1 \<le> time_cost p" and "1 \<le> lanes p"
  shows "\<exists>root. derive_root_keys xor_prims pp p = Inr root"
proof -
  let ?m = "take 32 (pp @ salt p @ replicate 32 0)"
  have "32 \<le> length ?m" by simp
  then have "\<exists>d. expand_labeled_key xor_prims ?m i = Inr d" for i
    by (simp add: expand_labeled_key_def xor_prims_def)
  then obtain f where "expand_labeled_key xor_prims ?m i = Inr (f i)" for i by metis
  moreover have "argon2_hash xor_prims (memory_cost_kib p) (time_cost p) (lanes p) pp (salt p) = Some ?m"
    "argon2_params_ok xor_prims (memory_cost_kib p) (time_cost p) (lanes p)"
    using assms by (simp_all add: xor_prims_def)
  ultimately show ?thesis by (simp add: derive_root_keys_def)
qed

lemma new_vault_unlocks: "\<exists>st1. unlock toy_prims toy_rnd new_vault [1, 2, 3] =
  (Inr \<lparr>ur_initialized = True, ur_unlocked = True\<rparr>, st1)"
proof -
  let ?p = "target_kdf_params (replicate 32 4)"
  obtain root where root: "derive_root_keys xor_prims [1, 2, 3] ?p = Inr root"
    using xor_root_keys [of ?p] by (auto simp: target_kdf_params_def TARGET_MEMORY_COST_KIB_def
        TARGET_TIME_COST_def TARGET_LANES_def)
  obtain w where "wrap_key xor_prims (kek root) (replicate 32 8) = Inr w"
    using prims_wrap [OF xor_prims_ok root_keys_props(1) [OF xor_prims_ok root] length_replicate] by blast
  with root show ?thesis
    by (simp add: unlock_def toy_rnd_def new_vault_def empty_adb_def ensure_vault_config_def get_vault_config_def
        store_config_def set_vault_config_def ensure_local_vault_params_def get_vault_params_def
        set_vault_params_def unlock_keys_def toy_prims_def Let_def)
qed

theorem unlock_stable_witness:
  "\<exists>st1 st2. unlock toy_prims toy_rnd new_vault [1, 2, 3] = (Inr \<lparr>ur_initialized = True, ur_unlocked = True\<rparr>, st1) \<and>
     unlock toy_prims toy_rnd (lock st1) [1, 2, 3] = (Inr \<lparr>ur_initialized = False, ur_unlocked = True\<rparr>, st2) \<and>
     va_keys st2 = va_keys st1"
proof -
  have key: "length (un_key toy_rnd) = 32" by (simp add: toy_rnd_def)
  from new_vault_unlocks obtain st1 where
    st1: "unlock toy_prims toy_rnd new_vault [1, 2, 3] = (Inr \<lparr>ur_initialized = True, ur_unlocked = True\<rparr>, st1)" by blast
  from unlock_stable [OF toy_prims_ok(1) key st1, of toy_rnd "[]", THEN conjunct1] obtain st2 where
    st2: "unlock toy_prims toy_rnd (lock st1) [1, 2, 3] = (Inr \<lparr>ur_initialized = False, ur_unlocked = True\<rparr>, st2)"
      "va_keys st2 = va_keys st1" by (elim exE conjE)
  show ?thesis by (intro exI conjI, rule st1, rule st2(1), rule st2(2))
qed

section \<open>Rotation to a new passphrase\<close>

text \<open>What the store offers its readers: every DEK with its identity and the key it unwraps to.\<close>

definition dek_view :: "prims \<Rightarrow> vault \<Rightarrow> (int \<times> int \<times> int \<times> (VaultError + bytes)) list" where
  "dek_view P st = map (\<lambda>k. (dk_dek_id k, dk_inode_id k, dk_key_version k, unwrap_dek_bytes P st (dk_wrapped_dek k)))
     (data_encryption_keys (va_db st))"

lemma unwrap_dek_current:
  "va_keys st = Some (with_envelope_key mk vk ek) \<Longrightarrow> length w = WRAPPED_KEY_LEN \<Longrightarrow>
     unwrap_key (pr_crypto P) ek w = Inr p \<Longrightarrow> unwrap_dek_bytes P st w = Inr p"
  by (simp add: unwrap_dek_bytes_def require_envelope_key_def with_envelope_key_def wrapped_array_def)

lemma rewrap_all_Inr:
  assumes "rewrap_all P old new ks = Inr rs"
  shows "map fst rs = map dk_dek_id ks" and "length rs = length ks"
    and "\<forall>i < length ks. \<exists>p. length (dk_wrapped_dek (ks ! i)) = WRAPPED_KEY_LEN \<and>
      unwrap_key (pr_crypto P) old (dk_wrapped_dek (ks ! i)) = Inr p \<and> wrap_key (pr_crypto P) new p = Inr (snd (rs ! i))"
proof -
  have "map fst rs = map dk_dek_id ks \<and> list_all2 (\<lambda>k r. \<exists>p. length (dk_wrapped_dek k) = WRAPPED_KEY_LEN \<and>
      unwrap_key (pr_crypto P) old (dk_wrapped_dek k) = Inr p \<and> wrap_key (pr_crypto P) new p = Inr (snd r)) ks rs"
    using assms
    by (induction ks arbitrary: rs) (auto simp: result_elims vcrypto_Inr wrapped_array_def split: if_splits)
  then show "map fst rs = map dk_dek_id ks" "length rs = length ks"
    "\<forall>i < length ks. \<exists>p. length (dk_wrapped_dek (ks ! i)) = WRAPPED_KEY_LEN \<and>
      unwrap_key (pr_crypto P) old (dk_wrapped_dek (ks ! i)) = Inr p \<and> wrap_key (pr_crypto P) new p = Inr (snd (rs ! i))"
    by (auto simp: list_all2_conv_all_nth)
qed

text \<open>The updates of a rotation as one pass over the table: every row gets the new wrapping of its key.\<close>

definition rewrapped_row :: "(int \<times> bytes) list \<Rightarrow> int \<Rightarrow> WrappedDekRecord \<Rightarrow> WrappedDekRecord" where
  "rewrapped_row rs g k =
     (case map_of rs (dk_dek_id k) of None \<Rightarrow> k | Some w \<Rightarrow> k\<lparr>dk_wrapped_dek := w, dk_vault_key_gen := g\<rparr>)"

lemma apply_dek_updates:
  assumes "distinct (map fst rs)"
  shows "apply_writes (map (\<lambda>(d, w) s. update_wrapped_dek s d w g) rs) s =
    s\<lparr>data_encryption_keys := map (rewrapped_row rs g) (data_encryption_keys s)\<rparr>"
  using assms
proof (induction rs arbitrary: s)
  case Nil
  then show ?case by (simp add: apply_writes_def rewrapped_row_def)
next
  case (Cons r rs)
  obtain d w where r: "r = (d, w)" by (cases r)
  have notin: "map_of rs d = None" using Cons.prems by (simp add: r map_of_eq_None_iff)
  have step: "rewrapped_row rs g (if dk_dek_id k = d then k\<lparr>dk_wrapped_dek := w, dk_vault_key_gen := g\<rparr> else k) =
      rewrapped_row (r # rs) g k" for k
    using notin by (auto simp: rewrapped_row_def r)
  have "apply_writes (map (\<lambda>(d, w) s. update_wrapped_dek s d w g) (r # rs)) s =
      apply_writes (map (\<lambda>(d, w) s. update_wrapped_dek s d w g) rs) (update_wrapped_dek s d w g)"
    by (simp add: apply_writes_def r)
  also have "\<dots> = s\<lparr>data_encryption_keys := map (rewrapped_row (r # rs) g) (data_encryption_keys s)\<rparr>"
    using Cons by (simp add: update_wrapped_dek_def update_where_def o_def step)
  finally show ?case .
qed

lemma apply_rotation_writes:
  assumes "distinct (map fst rs)"
  shows "apply_writes (rotation_writes p w g rs) s =
    (store_config (rotate_vault_state s (salt p) (argon2_json_of p) w g) p)
      \<lparr>data_encryption_keys := map (rewrapped_row rs g) (data_encryption_keys s)\<rparr>"
proof -
  have "apply_writes (rotation_writes p w g rs) s =
      apply_writes (map (\<lambda>(d, w) s. update_wrapped_dek s d w g) rs)
        (store_config (rotate_vault_state s (salt p) (argon2_json_of p) w g) p)"
    by (simp add: rotation_writes_def apply_writes_def)
  then show ?thesis by (simp add: apply_dek_updates [OF assms] store_config_def set_vault_config_def
        rotate_vault_state_def update_vault_state_def)
qed

lemma rewrapped_key:
  assumes P: "prims_ok (pr_crypto P)" and new: "length new = 32"
    and rs: "rewrap_all P old new ks = Inr rs" and d: "distinct (map dk_dek_id ks)" and k: "k \<in> set ks"
  shows "\<exists>p. unwrap_key (pr_crypto P) old (dk_wrapped_dek k) = Inr p \<and> length (dk_wrapped_dek k) = WRAPPED_KEY_LEN \<and>
    length (dk_wrapped_dek (rewrapped_row rs g k)) = WRAPPED_KEY_LEN \<and> dk_vault_key_gen (rewrapped_row rs g k) = g \<and>
    unwrap_key (pr_crypto P) new (dk_wrapped_dek (rewrapped_row rs g k)) = Inr p"
proof -
  note r = rewrap_all_Inr [OF rs]
  from k obtain i where i: "i < length ks" "ks ! i = k" by (auto simp: in_set_conv_nth)
  with r(3) obtain p where p: "length (dk_wrapped_dek k) = WRAPPED_KEY_LEN"
    "unwrap_key (pr_crypto P) old (dk_wrapped_dek k) = Inr p" "wrap_key (pr_crypto P) new p = Inr (snd (rs ! i))" by auto
  have "fst (rs ! i) = dk_dek_id k" using r(1,2) i by (metis nth_map)
  then have "(dk_dek_id k, snd (rs ! i)) \<in> set rs" using r(2) i by (metis nth_mem prod.collapse)
  then have "map_of rs (dk_dek_id k) = Some (snd (rs ! i))" using d r(1) by (simp add: map_of_is_SomeI)
  moreover have "length (snd (rs ! i)) = WRAPPED_KEY_LEN \<and> unwrap_key (pr_crypto P) new (snd (rs ! i)) = Inr p"
    using wrap_len [OF P new unwrap_len [OF P p(1,2)] p(3)] .
  ultimately show ?thesis using p by (auto simp: rewrapped_row_def)
qed

lemma rotate_plan:
  assumes "plan_rotation P rnd_salt rnd_key st pp = Inr (root, params, g, rs, ws)"
  shows "\<exists>old w c. pp \<noteq> [] \<and> require_envelope_key st = Inr old \<and> vault_config (va_db st) = Some c \<and>
    to_root_kdf_params (c\<lparr>vc_salt := rnd_salt\<rparr>) = Inr params \<and> derive_root_keys (pr_crypto P) pp params = Inr root \<and>
    wrap_key (pr_crypto P) (kek root) rnd_key = Inr w \<and>
    rewrap_all P old rnd_key (get_all_wrapped_deks (va_db st)) = Inr rs \<and>
    g = current_vault_key_generation (va_db st) + 1 \<and> ws = rotation_writes params w g rs"
  using assms by (auto simp: plan_rotation_def result_elims vcrypto_Inr Let_def get_vault_config_def split: if_splits)

text \<open>
  A rotation with a passphrase, a key and a salt, whichever of its writes fails: what it has computed before the first,
  and the database after the last.
\<close>

definition rotated_db :: "adb \<Rightarrow> RootKdfParams \<Rightarrow> bytes \<Rightarrow> int \<Rightarrow> (int \<times> bytes) list \<Rightarrow> adb" where
  "rotated_db s params w g rs =
     (store_config (rotate_vault_state s (salt params) (argon2_json_of params) w g) params)
       \<lparr>data_encryption_keys := map (rewrapped_row rs g) (data_encryption_keys s)\<rparr>"

definition rotation_of :: "prims \<Rightarrow> bytes \<Rightarrow> vault \<Rightarrow> bytes \<Rightarrow> bytes \<Rightarrow> RootKeys \<Rightarrow> RootKdfParams \<Rightarrow> int \<Rightarrow> (int \<times> bytes) list \<Rightarrow> bytes \<Rightarrow> bool" where
  "rotation_of P rnd_key st pp old root params g rs w \<longleftrightarrow> pp \<noteq> [] \<and> require_envelope_key st = Inr old \<and>
    derive_root_keys (pr_crypto P) pp params = Inr root \<and> length w = WRAPPED_KEY_LEN \<and>
    unwrap_key (pr_crypto P) (kek root) w = Inr rnd_key \<and>
    rewrap_all P old rnd_key (get_all_wrapped_deks (va_db st)) = Inr rs \<and>
    g = current_vault_key_generation (va_db st) + 1"

lemma plan_rotation_of:
  assumes P: "prims_ok (pr_crypto P)" and key: "length rnd_key = 32"
    and plan: "plan_rotation P rnd_salt rnd_key st pp = Inr (root, params, g, rs, ws)"
  shows "\<exists>old w. rotation_of P rnd_key st pp old root params g rs w \<and> ws = rotation_writes params w g rs"
proof -
  from rotate_plan [OF plan] obtain old w where k: "pp \<noteq> []" "require_envelope_key st = Inr old"
    "derive_root_keys (pr_crypto P) pp params = Inr root" "wrap_key (pr_crypto P) (kek root) rnd_key = Inr w"
    "rewrap_all P old rnd_key (get_all_wrapped_deks (va_db st)) = Inr rs"
    "g = current_vault_key_generation (va_db st) + 1" "ws = rotation_writes params w g rs" by blast
  from wrap_len [OF P root_keys_props(1) [OF P k(3)] key k(4)] k show ?thesis unfolding rotation_of_def by blast
qed

lemma rotation_of_ids:
  assumes "keys_ok (va_db st)" and "rotation_of P rnd_key st pp old root params g rs w"
  shows "distinct (map fst rs)" and "map fst rs = map dk_dek_id (get_all_wrapped_deks (va_db st))"
proof -
  from assms(2) have "rewrap_all P old rnd_key (get_all_wrapped_deks (va_db st)) = Inr rs" by (simp add: rotation_of_def)
  from rewrap_all_Inr(1) [OF this] show "map fst rs = map dk_dek_id (get_all_wrapped_deks (va_db st))" .
  then show "distinct (map fst rs)" using assms(1) by (simp add: get_all_wrapped_deks_def keys_ok_def distinct_map)
qed

text \<open>A rotation that ends with success has done all its writes.\<close>

lemma rotate_result:
  assumes P: "prims_ok (pr_crypto P)" and ok: "keys_ok (va_db st)" and key: "length rnd_key = 32"
    and r: "rotate_vault_key P rnd_salt rnd_key fail_at st pp = (Inr res, st1)"
  shows "\<exists>old root params g rs w. rotation_of P rnd_key st pp old root params g rs w \<and>
    plan_rotation P rnd_salt rnd_key st pp = Inr (root, params, g, rs, rotation_writes params w g rs) \<and>
    va_keys st1 = Some (with_envelope_key (master_key root) (vault_key root) rnd_key) \<and>
    va_db st1 = rotated_db (va_db st) params w g rs"
proof -
  from r obtain root params g rs ws where plan: "plan_rotation P rnd_salt rnd_key st pp = Inr (root, params, g, rs, ws)"
    and st1: "st1 = st\<lparr>va_db := apply_writes ws (va_db st),
      va_keys := Some (with_envelope_key (master_key root) (vault_key root) rnd_key)\<rparr>"
    by (auto simp: rotate_vault_key_def apply_fallible_eq split: sum.splits prod.splits option.splits if_splits)
  from plan_rotation_of [OF P key plan] obtain old w where rot: "rotation_of P rnd_key st pp old root params g rs w"
    and ws: "ws = rotation_writes params w g rs" by blast
  from apply_rotation_writes [OF rotation_of_ids(1) [OF ok rot]] have "va_db st1 = rotated_db (va_db st) params w g rs"
    by (simp add: st1 ws rotated_db_def)
  with rot plan show ?thesis unfolding ws by (intro exI conjI) (assumption, assumption, simp_all add: st1)
qed

text \<open>
  A restart after the first two writes: the database has the new vault record and the new parameters, and the DEKs that
  the rotation has reached (\<open>rs'\<close>) are wrapped under the new key. The new passphrase unlocks it.
\<close>

lemma rotated_unlocks:
  assumes rot: "rotation_of P rnd_key st pp old root params g rs w" and v: "vault_state (va_db st) = Some v"
    and db: "va_db st1 = rotated_db (va_db st) params w g rs'"
  shows "\<exists>st2. unlock P rnd (lock st1) pp = (Inr \<lparr>ur_initialized = False, ur_unlocked = True\<rparr>, st2) \<and>
    va_keys st2 = Some (with_envelope_key (master_key root) (vault_key root) rnd_key) \<and>
    same_but_users (va_db st1) (va_db st2)" and "current_vault_key_generation (va_db st1) = g"
proof -
  have vs: "vault_state (va_db st1) = Some (v\<lparr>vr_master_key_salt := salt params,
      vr_argon2_params := argon2_json_of params, vr_encrypted_vault_key := Some w, vr_vault_key_generation := Some g\<rparr>)"
    using v by (simp add: db rotated_db_def store_config_def set_vault_config_def rotate_vault_state_def update_vault_state_def)
  then show "current_vault_key_generation (va_db st1) = g"
    by (simp add: current_vault_key_generation_def get_vault_params_def)
  have cfg: "ensure_vault_config (va_db (lock st1)) (un_config_salt rnd) = (Inr (params, False), va_db (lock st1))"
    by (rule root_params_stored) (simp add: lock_def db rotated_db_def store_config_def set_vault_config_def)
  have vl: "vault_state (va_db (lock st1)) = Some (v\<lparr>vr_master_key_salt := salt params,
      vr_argon2_params := argon2_json_of params, vr_encrypted_vault_key := Some w, vr_vault_key_generation := Some g\<rparr>)"
    using vs by (simp add: lock_def)
  have k: "length w = WRAPPED_KEY_LEN" "pp \<noteq> []" "derive_root_keys (pr_crypto P) pp params = Inr root"
    "unwrap_key (pr_crypto P) (kek root) w = Inr rnd_key" using rot by (simp_all add: rotation_of_def)
  from unlock_stored [OF cfg vl _ k] show "\<exists>st2. unlock P rnd (lock st1) pp = (Inr \<lparr>ur_initialized = False, ur_unlocked = True\<rparr>, st2) \<and>
      va_keys st2 = Some (with_envelope_key (master_key root) (vault_key root) rnd_key) \<and> same_but_users (va_db st1) (va_db st2)"
    by (auto simp: lock_def)
qed

text \<open>
  What is left to read when a rotation has reached the DEKs of \<open>ids\<close> only: those as before, and of the others, which no
  key in memory opens any more, only the error.
\<close>

definition only_read :: "int set \<Rightarrow> (int \<times> int \<times> int \<times> (VaultError + bytes)) list \<Rightarrow> (int \<times> int \<times> int \<times> (VaultError + bytes)) list" where
  "only_read ids = map (\<lambda>(d, i, v, r). (d, i, v, if d \<in> ids then r else Inl (V_Crypto KeyWrap)))"

definition opens_none :: "prims \<Rightarrow> bytes \<Rightarrow> vault \<Rightarrow> bool" where
  "opens_none P k st \<longleftrightarrow> list_all (\<lambda>d. kw_unwrap (pr_crypto P) k (dk_wrapped_dek d) = None) (data_encryption_keys (va_db st))"

lemma only_read_all: "fst ` set xs \<subseteq> ids \<Longrightarrow> only_read ids xs = xs"
  by (induction xs) (auto simp: only_read_def)

lemma view_ids: "fst ` set (dek_view P st) = dk_dek_id ` set (data_encryption_keys (va_db st))"
  by (force simp: dek_view_def)

lemma rewrapped_row_keeps [simp]: "dk_dek_id (rewrapped_row rs g k) = dk_dek_id k"
  "dk_inode_id (rewrapped_row rs g k) = dk_inode_id k" "dk_key_version (rewrapped_row rs g k) = dk_key_version k"
  by (auto simp: rewrapped_row_def split: option.splits)

lemma rewrapped_row_take:
  "rewrapped_row (take j rs) g k = (if dk_dek_id k \<in> set (take j (map fst rs)) then rewrapped_row rs g k else k)"
proof -
  have sub: "map_of rs d = Some w" if "map_of (take j rs) d = Some w" for d w
  proof -
    have "map_of rs d = map_of (take j rs @ drop j rs) d" by simp
    with that show ?thesis by (simp add: map_add_def del: append_take_drop_id)
  qed
  have none: "map_of (take j rs) d = None \<longleftrightarrow> d \<notin> set (take j (map fst rs))" for d
    by (simp add: map_of_eq_None_iff take_map)
  show ?thesis
  proof (cases "map_of (take j rs) (dk_dek_id k)")
    case None
    then have "dk_dek_id k \<notin> set (take j (map fst rs))" using none by blast
    with None show ?thesis by (simp add: rewrapped_row_def)
  next
    case (Some w)
    then have "dk_dek_id k \<in> set (take j (map fst rs))" using none [of "dk_dek_id k"] by auto
    with Some sub [OF Some] show ?thesis by (simp add: rewrapped_row_def)
  qed
qed

lemma rotated_view:
  assumes P: "prims_ok (pr_crypto P)" and ok: "keys_ok (va_db st)" and key: "length rnd_key = 32"
    and rot: "rotation_of P rnd_key st pp old root params g rs w"
    and keys: "va_keys st' = Some (with_envelope_key mk vk rnd_key)"
    and deks: "data_encryption_keys (va_db st') = map (rewrapped_row (take j rs) g) (data_encryption_keys (va_db st))"
    and none: "length rs \<le> j \<or> opens_none P rnd_key st"
  shows "dek_view P st' = only_read (set (take j (map fst rs))) (dek_view P st)"
proof -
  let ?ids = "set (take j (map fst rs))"
  have old: "require_envelope_key st = Inr old" and rs: "rewrap_all P old rnd_key (get_all_wrapped_deks (va_db st)) = Inr rs"
    using rot by (simp_all add: rotation_of_def)
  have row: "unwrap_dek_bytes P st' (dk_wrapped_dek (rewrapped_row (take j rs) g k)) =
      (if dk_dek_id k \<in> ?ids then unwrap_dek_bytes P st (dk_wrapped_dek k) else Inl (V_Crypto KeyWrap))"
    if "k \<in> set (data_encryption_keys (va_db st))" for k
  proof -
    have k: "k \<in> set (get_all_wrapped_deks (va_db st))" using that by (simp add: get_all_wrapped_deks_def)
    have d: "distinct (map dk_dek_id (get_all_wrapped_deks (va_db st)))"
      using ok by (simp add: get_all_wrapped_deks_def keys_ok_def distinct_map)
    from rewrapped_key [OF P key rs d k, of g] obtain p where p: "unwrap_key (pr_crypto P) old (dk_wrapped_dek k) = Inr p"
      "length (dk_wrapped_dek k) = WRAPPED_KEY_LEN"
      "length (dk_wrapped_dek (rewrapped_row rs g k)) = WRAPPED_KEY_LEN"
      "unwrap_key (pr_crypto P) rnd_key (dk_wrapped_dek (rewrapped_row rs g k)) = Inr p"
      by (elim exE conjE)
    show ?thesis
    proof (cases "dk_dek_id k \<in> ?ids")
      case True
      have "unwrap_dek_bytes P st (dk_wrapped_dek k) = Inr p"
        using old p(1,2) by (simp add: unwrap_dek_bytes_def wrapped_array_def)
      with unwrap_dek_current [OF keys p(3,4)] True show ?thesis by (simp add: rewrapped_row_take)
    next
      case False
      have "dk_dek_id k \<in> set (map fst rs)" using rewrap_all_Inr(1) [OF rs] k by simp
      have "\<not> length rs \<le> j"
      proof
        assume "length rs \<le> j"
        then have "take j (map fst rs) = map fst rs" by simp
        with False \<open>dk_dek_id k \<in> set (map fst rs)\<close> show False by simp
      qed
      with none that have "unwrap_key (pr_crypto P) rnd_key (dk_wrapped_dek k) = Inl KeyWrap"
        by (simp add: opens_none_def list_all_iff unwrap_key_def)
      with False keys p(2) show ?thesis
        by (simp add: rewrapped_row_take unwrap_dek_bytes_def require_envelope_key_def previous_envelope_key_def
            with_envelope_key_def wrapped_array_def)
    qed
  qed
  then show ?thesis by (simp add: dek_view_def deks only_read_def)
qed

lemma rotated_view_all:
  assumes "prims_ok (pr_crypto P)" and ok: "keys_ok (va_db st)" and "length rnd_key = 32"
    and rot: "rotation_of P rnd_key st pp old root params g rs w"
    and "va_keys st' = Some (with_envelope_key mk vk rnd_key)"
    and "data_encryption_keys (va_db st') = map (rewrapped_row rs g) (data_encryption_keys (va_db st))"
  shows "dek_view P st' = dek_view P st"
proof -
  have "dek_view P st' = only_read (set (take (length rs) (map fst rs))) (dek_view P st)"
    by (rule rotated_view [OF assms(1-5)]) (simp_all add: assms(6))
  also have "\<dots> = dek_view P st"
  proof (rule only_read_all)
    have "take (length rs) (map fst rs) = map fst rs" by simp
    then show "fst ` set (dek_view P st) \<subseteq> set (take (length rs) (map fst rs))"
      by (simp add: view_ids rotation_of_ids(2) [OF ok rot] get_all_wrapped_deks_def del: take_map)
  qed
  finally show ?thesis .
qed

text \<open>
  C10: a change of passphrase that ends keeps every key. After a successful rotation every DEK, under the same id,
  unwraps to the key it unwrapped to before, the generation has gone up by one, and after a restart the new passphrase
  unlocks the vault to the same keys, under which every DEK still reads the same. A rotation that fails leaves the keys
  in memory, and one that fails before or in its first write (of the vault record) has written nothing. (What a
  failure between two writes does is the property after this one.)
\<close>

theorem rotation_keeps_deks:
  assumes P: "prims_ok (pr_crypto P)" and ok: "keys_ok (va_db st)" and v: "vault_state (va_db st) = Some v"
    and key: "length rnd_key = 32"
  shows "(\<forall>res st1. rotate_vault_key P rnd_salt rnd_key fail_at st pp = (Inr res, st1) \<longrightarrow>
      dek_view P st1 = dek_view P st \<and>
      current_vault_key_generation (va_db st1) = current_vault_key_generation (va_db st) + 1 \<and>
      (\<exists>st2. unlock P rnd (lock st1) pp = (Inr \<lparr>ur_initialized = False, ur_unlocked = True\<rparr>, st2) \<and>
         va_keys st2 = va_keys st1 \<and> dek_view P st2 = dek_view P st)) \<and>
    (\<forall>e st1. rotate_vault_key P rnd_salt rnd_key fail_at st pp = (Inl e, st1) \<longrightarrow>
      va_keys st1 = va_keys st \<and> (fail_at = None \<or> fst (the fail_at) = 0 \<longrightarrow> st1 = st))"
proof (intro conjI allI impI)
  fix res st1 assume r: "rotate_vault_key P rnd_salt rnd_key fail_at st pp = (Inr res, st1)"
  from rotate_result [OF P ok key r] obtain old root params g rs w where
    rot: "rotation_of P rnd_key st pp old root params g rs w"
    and keys: "va_keys st1 = Some (with_envelope_key (master_key root) (vault_key root) rnd_key)"
    and db: "va_db st1 = rotated_db (va_db st) params w g rs" by (elim exE conjE)
  note view = rotated_view_all [OF P ok key rot]
  show "dek_view P st1 = dek_view P st" by (rule view [OF keys]) (simp add: db rotated_db_def)
  note ul = rotated_unlocks [OF rot v db]
  show "current_vault_key_generation (va_db st1) = current_vault_key_generation (va_db st) + 1"
    using ul(2) rot by (simp add: rotation_of_def)
  from ul(1) [of rnd] obtain st2 where
    st2: "unlock P rnd (lock st1) pp = (Inr \<lparr>ur_initialized = False, ur_unlocked = True\<rparr>, st2)"
      "va_keys st2 = Some (with_envelope_key (master_key root) (vault_key root) rnd_key)"
      "same_but_users (va_db st1) (va_db st2)" by blast
  have "dek_view P st2 = dek_view P st"
    by (rule view [OF st2(2)]) (simp add: same_but_users_tables(3) [OF st2(3)] db rotated_db_def)
  with st2 keys show "\<exists>st2. unlock P rnd (lock st1) pp = (Inr \<lparr>ur_initialized = False, ur_unlocked = True\<rparr>, st2) \<and>
      va_keys st2 = va_keys st1 \<and> dek_view P st2 = dek_view P st" by auto
next
  fix e st1 assume r: "rotate_vault_key P rnd_salt rnd_key fail_at st pp = (Inl e, st1)"
  then show "va_keys st1 = va_keys st"
    by (auto simp: rotate_vault_key_def apply_fallible_eq split: sum.splits prod.splits option.splits if_splits)
  assume "fail_at = None \<or> fst (the fail_at) = 0"
  with r show "st1 = st"
    by (auto simp: rotate_vault_key_def apply_fallible_eq apply_writes_def split: sum.splits prod.splits option.splits if_splits)
qed

text \<open>
  C11: a change of passphrase that fails between two writes loses data keys for good. Take a rotation that would succeed,
  and let the update of DEK number \<open>j\<close> fail (the vault record and the parameters are written first). The caller gets the
  error and the keys in memory stay the old ones; after a restart the new passphrase unlocks the vault, the first \<open>j\<close> DEKs
  read as before, and every other is lost: its blob is wrapped under the old vault key, which is neither in memory nor in
  the database. A passphrase whose derived key does not open the stored vault key, the old one among them, is refused.
  The new key is assumed to open no blob of before.
\<close>

theorem interrupted_rotation_loses_deks:
  assumes P: "prims_ok (pr_crypto P)" and ok: "keys_ok (va_db st)" and v: "vault_state (va_db st) = Some v"
    and key: "length rnd_key = 32" and none: "opens_none P rnd_key st"
    and r: "rotate_vault_key P rnd_salt rnd_key None st pp = (Inr res, st1)"
    and j: "j < length (data_encryption_keys (va_db st))"
  shows "\<exists>st2. rotate_vault_key P rnd_salt rnd_key (Some (j + 2, e)) st pp = (Inl (V_Db e), st2) \<and> va_keys st2 = va_keys st \<and>
    (\<exists>st3. unlock P rnd (lock st2) pp = (Inr \<lparr>ur_initialized = False, ur_unlocked = True\<rparr>, st3) \<and>
       dek_view P st3 = only_read (set (take j (map dk_dek_id (get_all_wrapped_deks (va_db st))))) (dek_view P st)) \<and>
    (\<exists>params w. vr_encrypted_vault_key (the (vault_state (va_db st2))) = Some w \<and>
       to_root_kdf_params (the (vault_config (va_db st2))) = Inr params \<and>
       (\<forall>pp' root'. pp' \<noteq> [] \<longrightarrow> derive_root_keys (pr_crypto P) pp' params = Inr root' \<longrightarrow>
          kw_unwrap (pr_crypto P) (kek root') w = None \<longrightarrow>
          unlock P rnd (lock st2) pp' = (Inl (V_Crypto KeyWrap), lock st2)))"
proof -
  from rotate_result [OF P ok key r] obtain old root params g rs w where
    rot: "rotation_of P rnd_key st pp old root params g rs w"
    and plan: "plan_rotation P rnd_salt rnd_key st pp = Inr (root, params, g, rs, rotation_writes params w g rs)"
    by (elim exE conjE)
  note ids = rotation_of_ids [OF ok rot]
  let ?ws = "rotation_writes params w g rs"
  let ?st = "st\<lparr>va_db := apply_writes (take (j + 2) ?ws) (va_db st)\<rparr>"
  have len: "length rs = length (data_encryption_keys (va_db st))"
    using arg_cong [OF ids(2), of length] by (simp add: get_all_wrapped_deks_def)
  have run: "rotate_vault_key P rnd_salt rnd_key (Some (j + 2, e)) st pp = (Inl (V_Db e), ?st)"
    using j by (simp add: rotate_vault_key_def plan apply_fallible_eq rotation_writes_def len)
  have db: "va_db ?st = rotated_db (va_db st) params w g (take j rs)"
  proof -
    have "take (j + 2) ?ws = rotation_writes params w g (take j rs)" by (simp add: rotation_writes_def take_map)
    moreover have "distinct (map fst (take j rs))" using ids(1) by (simp add: take_map [symmetric])
    ultimately show ?thesis using apply_rotation_writes by (simp add: rotated_db_def)
  qed
  have vs: "vr_encrypted_vault_key (the (vault_state (va_db ?st))) = Some w" "\<exists>v. vault_state (va_db ?st) = Some v"
    unfolding db using v by (simp_all add: rotated_db_def store_config_def set_vault_config_def rotate_vault_state_def update_vault_state_def)
  have cfg: "ensure_vault_config (va_db (lock ?st)) (un_config_salt rnd) = (Inr (params, False), va_db (lock ?st))"
    by (rule root_params_stored)
      (simp add: lock_def db [simplified] rotated_db_def store_config_def set_vault_config_def)
  from rotated_unlocks(1) [OF rot v db, of rnd] obtain st3 where
    st3: "unlock P rnd (lock ?st) pp = (Inr \<lparr>ur_initialized = False, ur_unlocked = True\<rparr>, st3)"
      "va_keys st3 = Some (with_envelope_key (master_key root) (vault_key root) rnd_key)"
      "same_but_users (va_db ?st) (va_db st3)" by blast
  have deks: "data_encryption_keys (va_db st3) = map (rewrapped_row (take j rs) g) (data_encryption_keys (va_db st))"
    unfolding same_but_users_tables(3) [OF st3(3)] db by (simp add: rotated_db_def)
  from rotated_view [OF P ok key rot st3(2) deks] none ids(2) have view:
    "dek_view P st3 = only_read (set (take j (map dk_dek_id (get_all_wrapped_deks (va_db st))))) (dek_view P st)" by simp
  have bad: "unlock P rnd (lock ?st) pp' = (Inl (V_Crypto KeyWrap), lock ?st)"
    if "pp' \<noteq> []" "derive_root_keys (pr_crypto P) pp' params = Inr root'" "kw_unwrap (pr_crypto P) (kek root') w = None" for pp' root'
  proof -
    have "unwrap_key (pr_crypto P) (kek root') w = Inl KeyWrap" using that(3) by (simp add: unwrap_key_def)
    moreover obtain v' where "vault_state (va_db (lock ?st)) = Some v'" "vr_encrypted_vault_key v' = Some w"
      using vs by (auto simp: lock_def)
    moreover have "length w = WRAPPED_KEY_LEN" using rot by (simp add: rotation_of_def)
    ultimately show ?thesis using unlock_wrong_passphrase [OF cfg _ _ _ that(1,2)] by blast
  qed
  have kdf: "to_root_kdf_params (the (vault_config (va_db ?st))) = Inr params"
    unfolding db by (simp add: rotated_db_def store_config_def set_vault_config_def to_root_kdf_params_def to_u32_uint)
  show ?thesis
    by (intro exI [of _ ?st] conjI exI [of _ st3] exI [of _ params] exI [of _ w] allI impI)
      (rule run, simp, rule st3(1), rule view, rule vs(1), rule kdf, rule bad)
qed

text \<open>A vault with one DEK, wrapped under its envelope key.\<close>

definition key_vault :: vault where
  "key_vault = \<lparr>va_db = empty_adb\<lparr>
       vault_config := Some \<lparr>vc_salt = replicate 32 4, vc_parameter_set_version = 2, vc_memory_cost_kib = 262144,
         vc_time_cost = 3, vc_lanes = 1\<rparr>,
       vault_state := Some \<lparr>vr_master_key_salt = [], vr_argon2_params = (''LOCAL_VAULT'', 2, 262144, 3, 1),
         vr_vault_id = ''v1'', vr_vault_format_version = Some 2, vr_encrypted_vault_key = None,
         vr_vault_key_generation = Some 1, vr_legacy_read_key = None\<rparr>,
       data_encryption_keys := [\<lparr>dk_dek_id = 1, dk_inode_id = 7, dk_wrapped_dek = replicate 32 3 @ replicate 8 8,
         dk_key_version = 1, dk_vault_key_gen = 1, dk_created_at = 0\<rparr>],
       data_encryption_keys_seq := 1\<rparr>,
     va_keys = Some (with_envelope_key (replicate 32 1) (replicate 32 2) (replicate 32 8))\<rparr>"

lemma key_vault_ok: "keys_ok (va_db key_vault)"
  by (simp add: key_vault_def keys_ok_def empty_adb_def)

lemma key_vault_dek:
  "unwrap_key xor_prims (replicate 32 8) (replicate 32 3 @ replicate 8 8) = Inr (replicate 32 3)"
  by (simp add: unwrap_key_def xor_prims_def)

lemma toy_rotates:
  assumes st: "vault_config (va_db st) = vault_config (va_db key_vault)" "require_envelope_key st = Inr (replicate 32 8)"
    and all: "rewrap_all toy_prims (replicate 32 8) (replicate 32 9) (get_all_wrapped_deks (va_db st)) = Inr rs"
  shows "\<exists>res st1. rotate_vault_key toy_prims (replicate 32 6) (replicate 32 9) None st [5] = (Inr res, st1)"
proof -
  let ?p = "target_kdf_params (replicate 32 6)"
  obtain root where root: "derive_root_keys xor_prims [5] ?p = Inr root"
    using xor_root_keys [of ?p] by (auto simp: target_kdf_params_def TARGET_MEMORY_COST_KIB_def
        TARGET_TIME_COST_def TARGET_LANES_def)
  have params: "to_root_kdf_params \<lparr>vc_salt = replicate 32 6, vc_parameter_set_version = 2, vc_memory_cost_kib = 262144,
      vc_time_cost = 3, vc_lanes = 1\<rparr> = Inr ?p"
    by (simp add: to_root_kdf_params_def to_u32_def target_kdf_params_def TARGET_PARAMETER_SET_VERSION_def
        TARGET_MEMORY_COST_KIB_def TARGET_TIME_COST_def TARGET_LANES_def)
  have wraps: "wrap_key xor_prims k p = Inr (p @ take 8 k)" for k p by (simp add: wrap_key_def xor_prims_def)
  have "vault_config (va_db st) = Some \<lparr>vc_salt = replicate 32 4, vc_parameter_set_version = 2,
      vc_memory_cost_kib = 262144, vc_time_cost = 3, vc_lanes = 1\<rparr>"
    by (simp add: st(1) key_vault_def)
  then show ?thesis
    using st(2) root params all by (simp add: rotate_vault_key_def plan_rotation_def get_vault_config_def wraps Let_def
        toy_prims_def apply_fallible_eq)
qed

lemma toy_wraps: "wrap_key (pr_crypto toy_prims) k p = Inr (p @ take 8 k)"
  by (simp add: toy_prims_def wrap_key_def xor_prims_def)

lemma key_vault_rotates:
  assumes st: "vault_config (va_db st) = vault_config (va_db key_vault)"
    "data_encryption_keys (va_db st) = data_encryption_keys (va_db key_vault)" "require_envelope_key st = Inr (replicate 32 8)"
  shows "\<exists>res st1. rotate_vault_key toy_prims (replicate 32 6) (replicate 32 9) None st [5] = (Inr res, st1)"
proof (rule toy_rotates [OF st(1,3)])
  show "rewrap_all toy_prims (replicate 32 8) (replicate 32 9) (get_all_wrapped_deks (va_db st)) =
      Inr [(1, replicate 32 3 @ take 8 (replicate 32 9))]"
    by (simp add: get_all_wrapped_deks_def st(2) key_vault_def toy_wraps wrapped_array_def WRAPPED_KEY_LEN_def KEY_LEN_def)
      (simp add: toy_prims_def key_vault_dek)
qed

theorem rotation_keeps_deks_witness:
  "\<exists>res st1 st2. rotate_vault_key toy_prims (replicate 32 6) (replicate 32 9) None key_vault [5] = (Inr res, st1) \<and>
     unlock toy_prims toy_rnd (lock st1) [5] = (Inr \<lparr>ur_initialized = False, ur_unlocked = True\<rparr>, st2) \<and>
     dek_view toy_prims st2 = [(1, 7, 1, Inr (replicate 32 3))]"
proof -
  have "require_envelope_key key_vault = Inr (replicate 32 8)"
    by (simp add: key_vault_def require_envelope_key_def with_envelope_key_def)
  from key_vault_rotates [OF refl refl this] obtain res st1 where
    r: "rotate_vault_key toy_prims (replicate 32 6) (replicate 32 9) None key_vault [5] = (Inr res, st1)" by blast
  have v: "vault_state (va_db key_vault) = Some \<lparr>vr_master_key_salt = [], vr_argon2_params = (''LOCAL_VAULT'', 2, 262144, 3, 1),
      vr_vault_id = ''v1'', vr_vault_format_version = Some 2, vr_encrypted_vault_key = None,
      vr_vault_key_generation = Some 1, vr_legacy_read_key = None\<rparr>" by (simp add: key_vault_def)
  have view: "dek_view toy_prims key_vault = [(1, 7, 1, Inr (replicate 32 3))]"
    by (simp add: dek_view_def key_vault_def unwrap_dek_bytes_def require_envelope_key_def with_envelope_key_def
        wrapped_array_def WRAPPED_KEY_LEN_def KEY_LEN_def toy_prims_def key_vault_dek)
  from rotation_keeps_deks [OF toy_prims_ok(1) key_vault_ok v length_replicate, of "replicate 32 6" 9 None "[5]" toy_rnd,
      THEN conjunct1, rule_format, OF r] obtain st2 where
    urun: "unlock toy_prims toy_rnd (lock st1) [5] = (Inr \<lparr>ur_initialized = False, ur_unlocked = True\<rparr>, st2)" and
    same: "dek_view toy_prims st2 = dek_view toy_prims key_vault" by (elim exE conjE)
  show ?thesis by (intro exI conjI, rule r, rule urun, rule trans [OF same view])
qed

text \<open>The same vault with a second DEK: a rotation that fails at its update loses it.\<close>

definition two_key_vault :: vault where
  "two_key_vault = key_vault\<lparr>va_db := (va_db key_vault)\<lparr>
     data_encryption_keys := [\<lparr>dk_dek_id = 1, dk_inode_id = 7, dk_wrapped_dek = replicate 32 3 @ replicate 8 8,
         dk_key_version = 1, dk_vault_key_gen = 1, dk_created_at = 0\<rparr>,
       \<lparr>dk_dek_id = 2, dk_inode_id = 9, dk_wrapped_dek = replicate 32 2 @ replicate 8 8,
         dk_key_version = 1, dk_vault_key_gen = 1, dk_created_at = 0\<rparr>],
     data_encryption_keys_seq := 2\<rparr>\<rparr>"

lemmas two_key_defs = two_key_vault_def key_vault_def empty_adb_def

theorem interrupted_rotation_loses_deks_witness:
  "\<exists>st2 st3. rotate_vault_key toy_prims (replicate 32 6) (replicate 32 9) (Some (3, Database)) two_key_vault [5] =
      (Inl (V_Db Database), st2) \<and>
     unlock toy_prims toy_rnd (lock st2) [5] = (Inr \<lparr>ur_initialized = False, ur_unlocked = True\<rparr>, st3) \<and>
     dek_view toy_prims two_key_vault = [(1, 7, 1, Inr (replicate 32 3)), (2, 9, 1, Inr (replicate 32 2))] \<and>
     dek_view toy_prims st3 = [(1, 7, 1, Inr (replicate 32 3)), (2, 9, 1, Inl (V_Crypto KeyWrap))]"
proof -
  have ok: "keys_ok (va_db two_key_vault)" by (simp add: two_key_defs keys_ok_def dek_key_def)
  have env: "require_envelope_key two_key_vault = Inr (replicate 32 8)"
    by (simp add: two_key_defs require_envelope_key_def with_envelope_key_def)
  have deks: "get_all_wrapped_deks (va_db two_key_vault) = data_encryption_keys (va_db two_key_vault)"
    by (simp add: get_all_wrapped_deks_def two_key_defs)
  have opens: "unwrap_key (pr_crypto toy_prims) (replicate 32 8) (p @ replicate 8 8) = Inr p" if "length p = 32" for p
    using that by (simp add: toy_prims_def unwrap_key_def xor_prims_def)
  have none: "opens_none toy_prims (replicate 32 9) two_key_vault"
    by (simp add: opens_none_def two_key_defs toy_prims_def xor_prims_def replicate_eq_replicate)
  have all: "rewrap_all toy_prims (replicate 32 8) (replicate 32 9) (get_all_wrapped_deks (va_db two_key_vault)) =
      Inr [(1, replicate 32 3 @ take 8 (replicate 32 9)), (2, replicate 32 2 @ take 8 (replicate 32 9))]"
    unfolding deks by (simp add: two_key_defs toy_wraps wrapped_array_def WRAPPED_KEY_LEN_def KEY_LEN_def opens)
  have cfg: "vault_config (va_db two_key_vault) = vault_config (va_db key_vault)" by (simp add: two_key_vault_def)
  from toy_rotates [OF cfg env all] obtain res st1 where
    r: "rotate_vault_key toy_prims (replicate 32 6) (replicate 32 9) None two_key_vault [5] = (Inr res, st1)" by blast
  have v: "\<exists>v. vault_state (va_db two_key_vault) = Some v" by (simp add: two_key_defs)
  have view: "dek_view toy_prims two_key_vault = [(1, 7, 1, Inr (replicate 32 3)), (2, 9, 1, Inr (replicate 32 2))]"
    using opens by (simp add: dek_view_def unwrap_dek_bytes_def env wrapped_array_def WRAPPED_KEY_LEN_def KEY_LEN_def)
      (simp add: two_key_defs)
  have j: "1 < length (data_encryption_keys (va_db two_key_vault))" by (simp add: two_key_defs)
  from v obtain v0 where v0: "vault_state (va_db two_key_vault) = Some v0" by blast
  from interrupted_rotation_loses_deks [OF toy_prims_ok(1) ok v0 length_replicate none r j, of Database toy_rnd]
  obtain st2 st3 where st: "rotate_vault_key toy_prims (replicate 32 6) (replicate 32 9) (Some (1 + 2, Database)) two_key_vault [5] =
      (Inl (V_Db Database), st2)"
    "unlock toy_prims toy_rnd (lock st2) [5] = (Inr \<lparr>ur_initialized = False, ur_unlocked = True\<rparr>, st3)"
    "dek_view toy_prims st3 = only_read (set (take 1 (map dk_dek_id (get_all_wrapped_deks (va_db two_key_vault))))) (dek_view toy_prims two_key_vault)"
    by (elim exE conjE)
  have "dek_view toy_prims st3 = [(1, 7, 1, Inr (replicate 32 3)), (2, 9, 1, Inl (V_Crypto KeyWrap))]"
    unfolding st(3) view deks by (simp add: only_read_def two_key_defs)
  moreover have "(1 :: nat) + 2 = 3" by simp
  ultimately show ?thesis using st(1,2) view by metis
qed

end
