(* ===== verification/VaultRewrap.thy ===== *)
theory VaultRewrap
  imports VaultProofs "HOL-Library.Sublist"
begin

text \<open>
  The lazy re-wrap of \<^verbatim>\<open>vault.rs\<close> after a revocation. A rotation for a revocation replaces the envelope key at
  once and leaves the data-encryption keys wrapped under the old one, which stays in memory while batches move them
  over. Between the batches the daemon goes on creating and reading keys: \<open>rewrap_step\<close> is the transition system of
  these operations. It is shown that no reachable state has lost a key and that enough batches end the work; and
  what happens when the process restarts, or a second device is revoked, before the work has ended.
\<close>

section \<open>The transition system\<close>

inductive rewrap_step :: "prims \<Rightarrow> vault \<Rightarrow> vault \<Rightarrow> bool" for P where
  batch: "process_rewrap_batch P now st n = (r, st') \<Longrightarrow> n \<noteq> 0 \<Longrightarrow> rewrap_step P st st'"
| new_pack: "create_pack_dek P key now st i = Inr (r, st') \<Longrightarrow> length key = 32 \<Longrightarrow> rewrap_step P st st'"
| file_key: "get_or_create_dek P key now st i = Inr (r, st') \<Longrightarrow> length key = 32 \<Longrightarrow> rewrap_step P st st'"
| pack_key: "dek_for_pack P st p = Inr (r, st') \<Longrightarrow> rewrap_step P st st'"

section \<open>The invariant\<close>

definition dek_ids :: "adb \<Rightarrow> int set" where
  "dek_ids s = dk_dek_id ` set (data_encryption_keys s)"

definition queued :: "adb \<Rightarrow> int set" where
  "queued s = rq_dek_id ` set (dek_rewrap_queue s)"

text \<open>
  A queued DEK still opens with the old key and not with the new one; every other DEK opens with the new key and
  carries the new generation. \<open>key\<close> says which plaintext belongs to which id.
\<close>

definition dek_inv :: "prims \<Rightarrow> bytes \<Rightarrow> bytes \<Rightarrow> int \<Rightarrow> (int \<Rightarrow> bytes) \<Rightarrow> int set \<Rightarrow> WrappedDekRecord \<Rightarrow> bool" where
  "dek_inv P old new g key Q k \<longleftrightarrow> length (dk_wrapped_dek k) = WRAPPED_KEY_LEN \<and>
     (if dk_dek_id k \<in> Q
      then unwrap_key (pr_crypto P) old (dk_wrapped_dek k) = Inr (key (dk_dek_id k)) \<and>
           (\<exists>e. unwrap_key (pr_crypto P) new (dk_wrapped_dek k) = Inl e)
      else unwrap_key (pr_crypto P) new (dk_wrapped_dek k) = Inr (key (dk_dek_id k)) \<and> dk_vault_key_gen k = g)"

definition rewrap_inv :: "prims \<Rightarrow> bytes \<Rightarrow> bytes \<Rightarrow> int \<Rightarrow> (int \<Rightarrow> bytes) \<Rightarrow> adb \<Rightarrow> bool" where
  "rewrap_inv P old new g key s \<longleftrightarrow> keys_ok s \<and> queued s \<subseteq> dek_ids s \<and>
     (\<forall>i \<in> set (dek_rewrap_queue s). rq_status i = ''PENDING'') \<and>
     (\<forall>k \<in> set (data_encryption_keys s). dek_inv P old new g key (queued s) k)"

definition vault_inv :: "prims \<Rightarrow> bytes \<Rightarrow> bytes \<Rightarrow> int \<Rightarrow> (int \<Rightarrow> bytes) \<Rightarrow> bytes \<Rightarrow> bytes \<Rightarrow> vault \<Rightarrow> bool" where
  "vault_inv P old new g key mk vk st \<longleftrightarrow> rewrap_inv P old new g key (va_db st) \<and>
     current_vault_key_generation (va_db st) = g \<and>
     (va_keys st = Some (with_previous_key mk vk new old) \<or>
      va_keys st = Some (with_envelope_key mk vk new) \<and> dek_rewrap_queue (va_db st) = [])"

definition dek_ident :: "adb \<Rightarrow> (int \<times> int \<times> int) list" where
  "dek_ident s = map (\<lambda>k. (dk_dek_id k, dk_inode_id k, dk_key_version k)) (data_encryption_keys s)"

lemma vault_inv_keys:
  assumes "vault_inv P old new g key mk vk st"
  shows "require_envelope_key st = Inr new"
    and "dek_rewrap_queue (va_db st) \<noteq> [] \<Longrightarrow> previous_envelope_key st = Some old"
  using assms by (auto simp: vault_inv_def require_envelope_key_def previous_envelope_key_def with_previous_key_def
      with_envelope_key_def)

text \<open>The invariant says what the readers see.\<close>

lemma vault_inv_unwrap:
  assumes inv: "vault_inv P old new g key mk vk st" and k: "k \<in> set (data_encryption_keys (va_db st))"
  shows "unwrap_dek_bytes P st (dk_wrapped_dek k) = Inr (key (dk_dek_id k))"
proof -
  have d: "dek_inv P old new g key (queued (va_db st)) k" using inv k by (simp add: vault_inv_def rewrap_inv_def)
  show ?thesis
  proof (cases "dk_dek_id k \<in> queued (va_db st)")
    case True
    then have "dek_rewrap_queue (va_db st) \<noteq> []" by (auto simp: queued_def)
    from vault_inv_keys(2) [OF inv this] d True show ?thesis
      by (auto simp: unwrap_dek_bytes_def vault_inv_keys(1) [OF inv] dek_inv_def wrapped_array_def)
  next
    case False
    with d show ?thesis
      by (simp add: unwrap_dek_bytes_def vault_inv_keys(1) [OF inv] dek_inv_def wrapped_array_def)
  qed
qed

lemma vault_inv_view:
  "vault_inv P old new g key mk vk st \<Longrightarrow>
     dek_view P st = map (\<lambda>(d, i, v). (d, i, v, Inr (key d))) (dek_ident (va_db st))"
  by (simp add: dek_view_def dek_ident_def o_def vault_inv_unwrap)

section \<open>One item, one batch\<close>

text \<open>The statements that move one DEK over, and what they leave.\<close>

definition moved :: "int \<Rightarrow> bytes \<Rightarrow> int \<Rightarrow> adb \<Rightarrow> adb" where
  "moved d w g s = complete_rewrap_item (update_wrapped_dek s d w g) d"

lemma moved_table: "data_encryption_keys (moved d w g s) =
    map (\<lambda>k. if dk_dek_id k = d then k\<lparr>dk_wrapped_dek := w, dk_vault_key_gen := g\<rparr> else k) (data_encryption_keys s)"
  by (simp add: moved_def complete_rewrap_item_def update_wrapped_dek_def update_where_def)

lemma moved_simps [simp]:
  "dek_rewrap_queue (moved d w g s) = delete_where (\<lambda>i. rq_dek_id i = d) (dek_rewrap_queue s)"
  "vault_state (moved d w g s) = vault_state s" "dek_ident (moved d w g s) = dek_ident s"
  "queued (moved d w g s) = queued s - {d}" "dek_ids (moved d w g s) = dek_ids s"
proof -
  show "dek_ids (moved d w g s) = dek_ids s" unfolding dek_ids_def moved_table set_map image_image
    by (rule image_cong) auto
qed (auto simp: dek_ident_def moved_table, auto simp: moved_def complete_rewrap_item_def update_wrapped_dek_def queued_def
    set_delete_where)

lemma moved_deks:
  "k \<in> set (data_encryption_keys (moved d w g s)) \<longleftrightarrow>
     (\<exists>k' \<in> set (data_encryption_keys s). k = (if dk_dek_id k' = d then k'\<lparr>dk_wrapped_dek := w, dk_vault_key_gen := g\<rparr> else k'))"
  unfolding moved_table set_map image_iff ..

lemma rewrap_inv_moved:
  assumes inv: "rewrap_inv P old new g key s" and w: "length w = WRAPPED_KEY_LEN"
    "unwrap_key (pr_crypto P) new w = Inr (key d)"
  shows "rewrap_inv P old new g key (moved d w g s)"
proof -
  have "keys_ok (moved d w g s)"
    using inv by (simp add: moved_def keys_ok_complete keys_ok_update_dek rewrap_inv_def)
  moreover have "dek_inv P old new g key (queued s - {d}) k" if "k \<in> set (data_encryption_keys (moved d w g s))" for k
  proof -
    from that obtain k' where k': "k' \<in> set (data_encryption_keys s)"
      "k = (if dk_dek_id k' = d then k'\<lparr>dk_wrapped_dek := w, dk_vault_key_gen := g\<rparr> else k')" by (auto simp: moved_deks)
    with inv have "dek_inv P old new g key (queued s) k'" by (simp add: rewrap_inv_def)
    with k'(2) w show ?thesis by (auto simp: dek_inv_def)
  qed
  ultimately show ?thesis using inv by (auto simp: rewrap_inv_def set_delete_where)
qed

lemma rewrap_item_moves:
  assumes P: "prims_ok (pr_crypto P)" and new: "length new = 32" and inv: "rewrap_inv P old new g key s"
    and i: "i \<in> set (dek_rewrap_queue s)" and k: "k \<in> set (data_encryption_keys s)" "dk_dek_id k = rq_dek_id i"
  shows "\<exists>w. rewrap_item P old new g now (i, dk_wrapped_dek k) (n, s) = (n + 1, moved (rq_dek_id i) w g s) \<and>
    rewrap_inv P old new g key (moved (rq_dek_id i) w g s)"
proof -
  have "rq_dek_id i \<in> queued s" using i by (simp add: queued_def)
  with inv k have u: "unwrap_key (pr_crypto P) old (dk_wrapped_dek k) = Inr (key (rq_dek_id i))"
    "length (dk_wrapped_dek k) = WRAPPED_KEY_LEN" by (auto simp: rewrap_inv_def dek_inv_def)
  note len = unwrap_len [OF P u(2,1)]
  obtain w where w: "wrap_key (pr_crypto P) new (key (rq_dek_id i)) = Inr w" using prims_wrap [OF P new len] by blast
  then have "rewrap_item P old new g now (i, dk_wrapped_dek k) (n, s) = (n + 1, moved (rq_dek_id i) w g s)"
    using u by (simp add: rewrap_item_def wrapped_array_def moved_def Let_def)
  with rewrap_inv_moved [OF inv] wrap_len [OF P new len w] show ?thesis by blast
qed

text \<open>A batch names distinct queued items, each with the DEK as the table has it.\<close>

definition batch_ok :: "adb \<Rightarrow> (RewrapQueueItem \<times> bytes) list \<Rightarrow> bool" where
  "batch_ok s es \<longleftrightarrow> distinct (map (rq_dek_id \<circ> fst) es) \<and>
     (\<forall>(i, w) \<in> set es. i \<in> set (dek_rewrap_queue s) \<and>
        (\<exists>k \<in> set (data_encryption_keys s). dk_dek_id k = rq_dek_id i \<and> dk_wrapped_dek k = w))"

lemma batch_ok_tail:
  assumes "batch_ok s (e # es)"
  shows "batch_ok (moved (rq_dek_id (fst e)) w g s) es"
proof -
  have d: "rq_dek_id i \<noteq> rq_dek_id (fst e)" if "(i, x) \<in> set es" for i x
    using assms that by (force simp: batch_ok_def)
  have "\<exists>k \<in> set (data_encryption_keys (moved (rq_dek_id (fst e)) w g s)). dk_dek_id k = rq_dek_id i \<and> dk_wrapped_dek k = x"
    if ix: "(i, x) \<in> set es" for i x
  proof -
    from assms ix obtain k where k: "k \<in> set (data_encryption_keys s)" "dk_dek_id k = rq_dek_id i" "dk_wrapped_dek k = x"
      by (force simp: batch_ok_def)
    then have "k \<in> set (data_encryption_keys (moved (rq_dek_id (fst e)) w g s))"
      unfolding moved_deks by (intro bexI [of _ k]) (simp_all add: d [OF ix])
    with k show ?thesis by blast
  qed
  then show ?thesis using assms d by (force simp: batch_ok_def set_delete_where)
qed

lemma rewrap_batch:
  assumes P: "prims_ok (pr_crypto P)" and new: "length new = 32" and inv: "rewrap_inv P old new g key s"
    and es: "batch_ok s es"
  shows "\<exists>s'. fold (rewrap_item P old new g now) es (n, s) = (n + length es, s') \<and> rewrap_inv P old new g key s' \<and>
    dek_rewrap_queue s' = filter (\<lambda>i. rq_dek_id i \<notin> rq_dek_id ` fst ` set es) (dek_rewrap_queue s) \<and>
    dek_ident s' = dek_ident s \<and> vault_state s' = vault_state s"
  using inv es
proof (induction es arbitrary: n s)
  case (Cons e es)
  obtain i x where e: "e = (i, x)" by (cases e)
  from Cons.prems(2) obtain k where k: "i \<in> set (dek_rewrap_queue s)" "k \<in> set (data_encryption_keys s)"
    "dk_dek_id k = rq_dek_id i" "dk_wrapped_dek k = x" by (auto simp: batch_ok_def e)
  from rewrap_item_moves [OF P new Cons.prems(1) k(1-3)] obtain w where
    w: "rewrap_item P old new g now e (n, s) = (n + 1, moved (rq_dek_id i) w g s)"
      "rewrap_inv P old new g key (moved (rq_dek_id i) w g s)" by (auto simp: e k(4))
  from Cons.IH [OF w(2) batch_ok_tail [OF Cons.prems(2), unfolded e fst_conv], of "n + 1"] obtain s' where
    s': "fold (rewrap_item P old new g now) es (n + 1, moved (rq_dek_id i) w g s) = (n + 1 + length es, s')"
      "rewrap_inv P old new g key s'"
      "dek_rewrap_queue s' = filter (\<lambda>i. rq_dek_id i \<notin> rq_dek_id ` fst ` set es) (dek_rewrap_queue (moved (rq_dek_id i) w g s))"
      "dek_ident s' = dek_ident s" "vault_state s' = vault_state s" by auto
  have "dek_rewrap_queue s' = filter (\<lambda>i. rq_dek_id i \<notin> rq_dek_id ` fst ` set (e # es)) (dek_rewrap_queue s)"
    unfolding s'(3) moved_simps delete_where_def filter_filter e by (rule filter_cong) auto
  with s' w show ?case by (intro exI [of _ s']) simp
qed simp

section \<open>The steps keep the invariant\<close>

lemma attach_deks_found:
  assumes "\<forall>i \<in> set is. rq_dek_id i \<in> dek_ids s"
  shows "\<exists>es. attach_deks s is = Inr es \<and> map fst es = is \<and>
    (\<forall>(i, w) \<in> set es. \<exists>k \<in> set (data_encryption_keys s). dk_dek_id k = rq_dek_id i \<and> dk_wrapped_dek k = w)"
  using assms
proof (induction "is")
  case (Cons i js)
  from Cons.prems obtain k where k: "get_wrapped_dek_by_id s (rq_dek_id i) = Some k"
    by (cases "get_wrapped_dek_by_id s (rq_dek_id i)")
      (auto simp: get_wrapped_dek_by_id_def dek_ids_def filter_empty_conv)
  then have "k \<in> set (data_encryption_keys s) \<and> dk_dek_id k = rq_dek_id i"
    using fetch_optional_in unfolding get_wrapped_dek_by_id_def by fastforce
  with Cons k show ?case by auto
qed simp

lemma pending_batch:
  assumes inv: "rewrap_inv P old new g key s"
  shows "\<exists>es. get_pending_rewrap_batch s n = Inr es \<and> batch_ok s es \<and>
    map fst es = sql_limit n (sort_key rq_dek_id (dek_rewrap_queue s))"
proof -
  let ?is = "sql_limit n (sort_key rq_dek_id (dek_rewrap_queue s))"
  have all: "filter (\<lambda>i. rq_status i = ''PENDING'') (dek_rewrap_queue s) = dek_rewrap_queue s"
    using inv by (simp add: rewrap_inv_def filter_id_conv)
  have sub: "set ?is \<subseteq> set (dek_rewrap_queue s)" using set_sql_limit by fastforce
  then have "\<forall>i \<in> set ?is. rq_dek_id i \<in> dek_ids s" using inv by (auto simp: rewrap_inv_def queued_def)
  from attach_deks_found [OF this] obtain es where es: "attach_deks s ?is = Inr es" "map fst es = ?is"
    "\<forall>(i, w) \<in> set es. \<exists>k \<in> set (data_encryption_keys s). dk_dek_id k = rq_dek_id i \<and> dk_wrapped_dek k = w" by blast
  have "distinct (map rq_dek_id (sort_key rq_dek_id (dek_rewrap_queue s)))"
    using inv by (simp add: rewrap_inv_def keys_ok_def distinct_map)
  then have "distinct (map rq_dek_id ?is)" by (simp add: sql_limit_def take_map [symmetric])
  then have "distinct (map (rq_dek_id \<circ> fst) es)" by (simp add: es(2) [symmetric])
  moreover have "i \<in> set (dek_rewrap_queue s)" if "(i, w) \<in> set es" for i w
    using sub that by (auto simp: es(2) [symmetric])
  ultimately have "batch_ok s es" using es(3) by (auto simp: batch_ok_def)
  with es(1,2) show ?thesis by (simp add: get_pending_rewrap_batch_def all)
qed

text \<open>What a batch leaves: the first items of the queue are gone, and with the last one the old key.\<close>

lemma clear_previous [simp]: "va_db (clear_previous_envelope_key st) = va_db st"
  "va_keys st = Some (with_previous_key mk vk new old) \<Longrightarrow>
     va_keys (clear_previous_envelope_key st) = Some (with_envelope_key mk vk new)"
  by (simp_all add: clear_previous_envelope_key_def with_previous_key_def with_envelope_key_def)

lemma length_filter_notin:
  assumes "distinct (map f xs)" and "f ` set ys \<subseteq> f ` set xs" and "distinct (map f ys)"
  shows "length (filter (\<lambda>x. f x \<notin> f ` set ys) xs) = length xs - length ys"
proof -
  have "map f (filter (\<lambda>x. f x \<in> f ` set ys) xs) = filter (\<lambda>y. y \<in> f ` set ys) (map f xs)"
    by (simp add: filter_map o_def)
  then have "length (filter (\<lambda>x. f x \<in> f ` set ys) xs) = length (filter (\<lambda>y. y \<in> f ` set ys) (map f xs))"
    by (metis length_map)
  also have "\<dots> = card (set (map f xs) \<inter> f ` set ys)"
    using distinct_card [OF distinct_filter [OF assms(1)], of "\<lambda>y. y \<in> f ` set ys"]
    by (metis set_filter Int_def Collect_mem_eq)
  also have "\<dots> = card (set (map f ys))" using assms(2) by (simp add: Int_absorb1)
  finally have "length (filter (\<lambda>x. f x \<in> f ` set ys) xs) = length ys"
    using distinct_card [OF assms(3)] by simp
  then show ?thesis using sum_length_filter_compl [of "\<lambda>x. f x \<in> f ` set ys" xs] by simp
qed

lemma batch_step:
  assumes P: "prims_ok (pr_crypto P)" and new: "length new = 32" and inv: "vault_inv P old new g key mk vk st"
    and n: "n \<noteq> 0"
  shows "\<exists>r st'. process_rewrap_batch P now st n = (Inr r, st') \<and> vault_inv P old new g key mk vk st' \<and>
    dek_ident (va_db st') = dek_ident (va_db st) \<and>
    length (dek_rewrap_queue (va_db st')) =
      length (dek_rewrap_queue (va_db st)) - length (sql_limit n (dek_rewrap_queue (va_db st))) \<and>
    (dek_rewrap_queue (va_db st') = [] \<longrightarrow> previous_envelope_key st' = None)"
proof (cases "previous_envelope_key st")
  case None
  then have "dek_rewrap_queue (va_db st) = []" using vault_inv_keys(2) [OF inv] by auto
  with None inv show ?thesis by (simp add: process_rewrap_batch_def vault_inv_keys(1) [OF inv])
next
  case (Some old')
  let ?q = "dek_rewrap_queue (va_db st)"
  have keys: "va_keys st = Some (with_previous_key mk vk new old)" and old': "old' = old"
    using Some inv by (auto simp: vault_inv_def previous_envelope_key_def with_envelope_key_def with_previous_key_def)
  have db: "rewrap_inv P old new g key (va_db st)" and gen: "current_vault_key_generation (va_db st) = g"
    using inv by (simp_all add: vault_inv_def)
  from pending_batch [OF db] obtain es where es: "get_pending_rewrap_batch (va_db st) n = Inr es" "batch_ok (va_db st) es"
    "map fst es = sql_limit n (sort_key rq_dek_id ?q)" by blast
  from rewrap_batch [OF P new db es(2), of now 0] obtain s' where
    s': "fold (rewrap_item P old new g now) es (0, va_db st) = (length es, s')" "rewrap_inv P old new g key s'"
      "dek_rewrap_queue s' = filter (\<lambda>i. rq_dek_id i \<notin> rq_dek_id ` fst ` set es) ?q"
      "dek_ident s' = dek_ident (va_db st)" "vault_state s' = vault_state (va_db st)" by auto
  have "length (dek_rewrap_queue s') = length ?q - length (map fst es)"
    using length_filter_notin [of rq_dek_id ?q "map fst es"] es(2) db
    by (force simp: s'(3) batch_ok_def rewrap_inv_def keys_ok_def)
  moreover have "length (map fst es) = length (sql_limit n ?q)" by (simp add: es(3) sql_limit_def)
  ultimately have len: "length (dek_rewrap_queue s') = length ?q - length (sql_limit n ?q)" by simp
  have gen': "current_vault_key_generation s' = g"
    using s'(5) gen by (simp add: current_vault_key_generation_def get_vault_params_def)
  let ?st = "st\<lparr>va_db := s'\<rparr>"
  have pend: "filter (\<lambda>i. rq_status i = ''PENDING'') (dek_rewrap_queue s') = dek_rewrap_queue s'"
    using s'(2) by (simp add: rewrap_inv_def filter_id_conv)
  let ?st' = "if dek_rewrap_queue s' = [] then clear_previous_envelope_key ?st else ?st"
  have st': "va_db ?st' = s'" "va_keys ?st' = Some (if dek_rewrap_queue s' = [] then with_envelope_key mk vk new
      else with_previous_key mk vk new old)" using keys by simp_all
  have run: "process_rewrap_batch P now st n = (Inr (length es), ?st')"
  proof (cases es)
    case Nil
    then have "sql_limit n (sort_key rq_dek_id ?q) = []" using es(3) by simp
    with n have "?q = []" by (simp add: sql_limit_def split: if_splits)
    moreover have same: "?st = st" using s'(1) Nil by (cases st) simp
    ultimately show ?thesis
      unfolding same using Nil s'(1,3) es(1) Some by (simp add: process_rewrap_batch_def vault_inv_keys(1) [OF inv])
  next
    case (Cons e es')
    with es(1) s'(1) Some show ?thesis
      by (simp add: process_rewrap_batch_def vault_inv_keys(1) [OF inv] old' gen get_rewrap_status_def pend)
  qed
  have inv': "vault_inv P old new g key mk vk ?st'"
    unfolding vault_inv_def st' using s'(2) gen' by simp
  have "dek_rewrap_queue s' = [] \<longrightarrow> previous_envelope_key ?st' = None"
    unfolding previous_envelope_key_def st'(2) by (simp add: with_envelope_key_def)
  then show ?thesis
    by (intro exI conjI) (rule run, rule inv', simp_all only: st'(1) s'(4) len)
qed

text \<open>A new key is wrapped under the new envelope key and is not queued.\<close>

lemma insert_step:
  assumes P: "prims_ok (pr_crypto P)" and new: "length new = 32" and inv: "vault_inv P old new g key mk vk st"
    and k: "length k = 32" and w: "wrap_key (pr_crypto P) new k = Inr w"
    and ins: "insert_wrapped_dek (va_db st) now i w v (current_vault_key_generation (va_db st)) = Inr (d, s')"
  shows "vault_inv P old new g (key(d := k)) mk vk (st\<lparr>va_db := s'\<rparr>) \<and> d \<notin> dek_ids (va_db st) \<and>
    dek_ident s' = dek_ident (va_db st) @ [(d, i, v)]"
proof -
  let ?s = "va_db st"
  have db: "rewrap_inv P old new g key ?s" and gen: "current_vault_key_generation ?s = g"
    using inv by (simp_all add: vault_inv_def)
  from ins have d: "d = data_encryption_keys_seq ?s + 1" and s': "s' = ?s\<lparr>data_encryption_keys := data_encryption_keys ?s @
      [\<lparr>dk_dek_id = d, dk_inode_id = i, dk_wrapped_dek = w, dk_key_version = v, dk_vault_key_gen = g, dk_created_at = now\<rparr>],
      data_encryption_keys_seq := d\<rparr>" by (auto simp: insert_wrapped_dek_def Let_def gen split: if_splits)
  have fresh: "d \<notin> dek_ids ?s"
    using db by (auto simp: d dek_ids_def rewrap_inv_def keys_ok_def list_all_iff)
  then have notq: "d \<notin> queued ?s" using db by (auto simp: rewrap_inv_def)
  have old_rows: "dek_inv P old new g (key(d := k)) (queued ?s) r" if "r \<in> set (data_encryption_keys ?s)" for r
  proof -
    have "dk_dek_id r \<noteq> d" using that fresh by (auto simp: dek_ids_def)
    moreover have "dek_inv P old new g key (queued ?s) r" using that db by (simp add: rewrap_inv_def)
    ultimately show ?thesis by (simp add: dek_inv_def)
  qed
  note wl = wrap_len [OF P new k w]
  have q: "queued s' = queued ?s" "dek_rewrap_queue s' = dek_rewrap_queue ?s" "dek_ids s' = insert d (dek_ids ?s)"
    by (simp_all add: s' queued_def dek_ids_def)
  have "keys_ok s'" by (rule keys_ok_insert [OF _ ins]) (use db in \<open>simp add: rewrap_inv_def\<close>)
  moreover have "dek_inv P old new g (key(d := k)) (queued ?s) r" if "r \<in> set (data_encryption_keys s')" for r
    using that old_rows notq wl by (auto simp: s' dek_inv_def)
  ultimately have "rewrap_inv P old new g (key(d := k)) s'" using db by (auto simp: rewrap_inv_def q)
  moreover have "current_vault_key_generation s' = g"
    using gen by (simp add: s' current_vault_key_generation_def get_vault_params_def)
  ultimately have "vault_inv P old new g (key(d := k)) mk vk (st\<lparr>va_db := s'\<rparr>)"
    using inv by (simp add: vault_inv_def q)
  with fresh show ?thesis by (simp add: s' dek_ident_def)
qed

lemma rewrap_inv_pack_dek: "rewrap_inv P old new g key s \<Longrightarrow> rewrap_inv P old new g key (set_pack_dek s p d)"
  by (simp add: rewrap_inv_def keys_ok_set_pack_dek) (simp add: set_pack_dek_def queued_def dek_ids_def)

lemma step_inv:
  assumes P: "prims_ok (pr_crypto P)" and new: "length new = 32" and inv: "vault_inv P old new g key mk vk st"
    and step: "rewrap_step P st st'"
  shows "\<exists>key'. vault_inv P old new g key' mk vk st' \<and> (\<forall>d \<in> dek_ids (va_db st). key' d = key d) \<and>
    prefix (dek_ident (va_db st)) (dek_ident (va_db st'))"
  using step
proof cases
  case (batch now n r)
  with batch_step [OF P new inv, of n now] show ?thesis by auto
next
  case (new_pack k now i r)
  from new_pack(1) obtain w d s' where w: "wrap_key (pr_crypto P) new k = Inr w"
    and ins: "insert_wrapped_dek (va_db st) now i w (next_dek_key_version (va_db st) i)
      (current_vault_key_generation (va_db st)) = Inr (d, s')" and st': "st' = st\<lparr>va_db := s'\<rparr>"
    by (auto simp: create_pack_dek_def vault_inv_keys(1) [OF inv] result_elims vcrypto_Inr)
  from insert_step [OF P new inv new_pack(2) w ins] show ?thesis by (intro exI [of _ "key(d := k)"]) (auto simp: st')
next
  case (file_key k now i r)
  show ?thesis
  proof (cases "get_wrapped_dek (va_db st) i")
    case None
    with file_key(1) obtain w d s' where w: "wrap_key (pr_crypto P) new k = Inr w"
      and ins: "insert_wrapped_dek (va_db st) now i w 1 (current_vault_key_generation (va_db st)) = Inr (d, s')"
      and st': "st' = st\<lparr>va_db := s'\<rparr>"
      by (auto simp: get_or_create_dek_def vault_inv_keys(1) [OF inv] result_elims vcrypto_Inr)
    from insert_step [OF P new inv file_key(2) w ins] show ?thesis by (intro exI [of _ "key(d := k)"]) (auto simp: st')
  next
    case (Some rec)
    with file_key(1) have "st' = st" by (auto simp: get_or_create_dek_def result_elims)
    with inv show ?thesis by blast
  qed
next
  case (pack_key p r)
  have "vault_inv P old new g key mk vk (st\<lparr>va_db := set_pack_dek (va_db st) p d\<rparr>)" for d
    using inv by (auto simp: vault_inv_def rewrap_inv_pack_dek)
      (simp_all add: set_pack_dek_def current_vault_key_generation_def get_vault_params_def)
  moreover have "dek_ident (set_pack_dek (va_db st) p d) = dek_ident (va_db st)" for d
    by (simp add: set_pack_dek_def dek_ident_def)
  moreover have "st' = st \<or> (\<exists>d. st' = st\<lparr>va_db := set_pack_dek (va_db st) p d\<rparr>)"
    using pack_key by (auto simp: dek_for_pack_def result_elims split: option.splits)
  ultimately show ?thesis using inv by (intro exI [of _ key]) auto
qed

lemma dek_ids_ident: "dek_ids s = fst ` set (dek_ident s)"
  by (simp add: dek_ids_def dek_ident_def image_image)

lemma reach_inv:
  assumes P: "prims_ok (pr_crypto P)" and new: "length new = 32" and inv: "vault_inv P old new g key mk vk st"
    and reach: "(rewrap_step P)\<^sup>*\<^sup>* st st'"
  shows "\<exists>key'. vault_inv P old new g key' mk vk st' \<and> prefix (dek_view P st) (dek_view P st')"
  using reach
proof (induction rule: rtranclp_induct)
  case base
  show ?case using inv by (intro exI [of _ key] conjI) simp_all
next
  case (step y z)
  then obtain key1 where k1: "vault_inv P old new g key1 mk vk y" "prefix (dek_view P st) (dek_view P y)" by blast
  from step_inv [OF P new k1(1) step.hyps(2)] obtain key2 where k2: "vault_inv P old new g key2 mk vk z"
    "\<forall>d \<in> dek_ids (va_db y). key2 d = key1 d" "prefix (dek_ident (va_db y)) (dek_ident (va_db z))" by blast
  have "map (\<lambda>(d, i, v). (d, i, v, Inr (key1 d))) (dek_ident (va_db y)) =
      map (\<lambda>(d, i, v). (d, i, v, Inr (key2 d))) (dek_ident (va_db y))"
    using k2(2) by (auto simp: dek_ids_ident)
  then have "dek_view P y = map (\<lambda>(d, i, v). (d, i, v, Inr (key2 d))) (dek_ident (va_db y))"
    using vault_inv_view [OF k1(1)] by simp
  then have "prefix (dek_view P y) (dek_view P z)"
    using k2(3) unfolding vault_inv_view [OF k2(1)] by (simp add: map_mono_prefix)
  with k1(2) k2(1) show ?case by (meson prefix_order.trans)
qed

section \<open>The work ends\<close>

definition rewrap_batches :: "prims \<Rightarrow> int \<Rightarrow> int \<Rightarrow> nat \<Rightarrow> vault \<Rightarrow> vault" where
  "rewrap_batches P now n m = (\<lambda>st. snd (process_rewrap_batch P now st n)) ^^ m"

lemma batches_reach: "n \<noteq> 0 \<Longrightarrow> (rewrap_step P)\<^sup>*\<^sup>* st (rewrap_batches P now n m st)"
proof (induction m)
  case (Suc m)
  have "rewrap_step P st' (snd (process_rewrap_batch P now st' n))" for st'
    using Suc.prems by (intro rewrap_step.batch [of P now st' n "fst (process_rewrap_batch P now st' n)"]) simp_all
  with Suc show ?case by (simp add: rewrap_batches_def) (meson rtranclp.rtrancl_into_rtrancl)
qed (simp add: rewrap_batches_def)

lemma batches_queue:
  assumes P: "prims_ok (pr_crypto P)" and new: "length new = 32" and inv: "vault_inv P old new g key mk vk st"
    and n: "0 < n"
  shows "vault_inv P old new g key mk vk (rewrap_batches P now n m st) \<and>
    length (dek_rewrap_queue (va_db (rewrap_batches P now n m st))) = length (dek_rewrap_queue (va_db st)) - m * nat n \<and>
    (0 < m \<longrightarrow> dek_rewrap_queue (va_db (rewrap_batches P now n m st)) = [] \<longrightarrow>
       previous_envelope_key (rewrap_batches P now n m st) = None)"
proof (induction m)
  case 0
  with inv show ?case by (simp add: rewrap_batches_def)
next
  case (Suc m)
  let ?st = "rewrap_batches P now n m st"
  have ih: "vault_inv P old new g key mk vk ?st" using Suc by blast
  have "n \<noteq> 0" using n by simp
  from batch_step [OF P new ih this, of now] obtain r st' where
    b: "process_rewrap_batch P now ?st n = (Inr r, st')" "vault_inv P old new g key mk vk st'"
      "length (dek_rewrap_queue (va_db st')) =
        length (dek_rewrap_queue (va_db ?st)) - length (sql_limit n (dek_rewrap_queue (va_db ?st)))"
      "dek_rewrap_queue (va_db st') = [] \<longrightarrow> previous_envelope_key st' = None" by (elim exE conjE)
  have "rewrap_batches P now n (Suc m) st = st'" using b(1) by (simp add: rewrap_batches_def)
  moreover have "length (dek_rewrap_queue (va_db st')) = length (dek_rewrap_queue (va_db st)) - Suc m * nat n"
    using b(3) Suc n by (auto simp: sql_limit_def min_def add.commute)
  ultimately show ?case using b(2,4) by simp
qed

section \<open>What a rotation for a revocation leaves\<close>

definition same_but_devices :: "adb \<Rightarrow> adb \<Rightarrow> bool" where
  "same_but_devices s s' \<longleftrightarrow> (\<exists>ds. s' = s\<lparr>devices := ds\<rparr>)"

lemma same_but_devices_refl: "same_but_devices s s"
  unfolding same_but_devices_def by (intro exI [of _ "devices s"]) simp

lemma same_but_devices_trans: "same_but_devices s s' \<Longrightarrow> same_but_devices s' s'' \<Longrightarrow> same_but_devices s s''"
  by (auto simp: same_but_devices_def)

lemma rewrap_device_same: "same_but_devices (snd acc) (snd (rewrap_device P a n g dev acc))"
  using same_but_devices_refl [of "snd acc"]
  by (auto simp: rewrap_device_def split: sum.splits)
    (auto simp: same_but_devices_def set_device_wrapped_vault_key_def update_device_def)

lemma fold_same_but_devices:
  assumes "\<And>x acc. same_but_devices (snd acc) (snd (f x acc))"
  shows "same_but_devices (snd acc) (snd (fold f xs acc))"
proof (induction xs arbitrary: acc)
  case (Cons x xs)
  show ?case using same_but_devices_trans [OF assms Cons] by simp
qed (simp add: same_but_devices_refl)

lemma rewrap_devices_same: "same_but_devices s (snd (rewrap_devices P a n g v s))"
proof -
  have "same_but_devices (snd acc) (snd (rewrap_member P a n g m acc))" for m acc
    unfolding rewrap_member_def by (rule fold_same_but_devices) (rule rewrap_device_same)
  from fold_same_but_devices [of "rewrap_member P a n g", OF this, of "(0, s)"]
  show ?thesis by (simp add: rewrap_devices_def)
qed

lemma revocation_result:
  assumes r: "rotate_for_revocation P k st = (Inr res, st1)"
  shows "\<exists>old mk vk kk w v s2 g. require_envelope_key st = Inr old \<and> require_master_key st = Inr mk \<and>
    derive_kek (pr_crypto P) mk = Inr kk \<and> wrap_key (pr_crypto P) kk k = Inr w \<and> vault_state (va_db st) = Some v \<and>
    g = current_vault_key_generation (va_db st) + 1 \<and>
    same_but_devices (rotate_vault_key_only (va_db st) w g) s2 \<and>
    va_db st1 = snd (enqueue_deks_for_rewrap s2 g) \<and> va_keys st1 = Some (with_previous_key mk vk k old)"
proof -
  from r obtain old mk kk w where k: "require_envelope_key st = Inr old" "require_master_key st = Inr mk"
    "derive_kek (pr_crypto P) mk = Inr kk" "wrap_key (pr_crypto P) kk k = Inr w"
    by (auto simp: rotate_for_revocation_def result_elims vcrypto_Inr split: sum.splits)
  let ?g = "current_vault_key_generation (va_db st) + 1"
  let ?s1 = "rotate_vault_key_only (va_db st) w ?g"
  from r k obtain own v where own: "get_device_private_key (pr_crypto P) ?s1 mk = Inr own"
    and v: "vault_state (va_db st) = Some v"
    by (auto simp: rotate_for_revocation_def Let_def get_vault_params_def split: sum.splits option.splits)
  obtain c s2 where s2: "rewrap_devices P own k ?g (vr_vault_id v) ?s1 = (c, s2)" by force
  have "va_db st1 = snd (enqueue_deks_for_rewrap s2 ?g) \<and> (\<exists>vk. va_keys st1 = Some (with_previous_key mk vk k old))"
    using r k own v s2 by (auto simp: rotate_for_revocation_def Let_def get_vault_params_def split: sum.splits prod.splits)
  moreover have "same_but_devices ?s1 s2" using rewrap_devices_same [of ?s1 P own k ?g "vr_vault_id v"] by (simp add: s2)
  ultimately show ?thesis using k v by blast
qed

text \<open>A rotation that starts with every DEK under the current key establishes the invariant.\<close>

definition settled :: "prims \<Rightarrow> vault \<Rightarrow> bool" where
  "settled P st \<longleftrightarrow> keys_ok (va_db st) \<and> dek_rewrap_queue (va_db st) = [] \<and>
     (\<forall>ek. require_envelope_key st = Inr ek \<longrightarrow> (\<forall>k \<in> set (data_encryption_keys (va_db st)).
        length (dk_wrapped_dek k) = WRAPPED_KEY_LEN \<and> (\<exists>p. unwrap_key (pr_crypto P) ek (dk_wrapped_dek k) = Inr p) \<and>
        dk_vault_key_gen k \<le> current_vault_key_generation (va_db st)))"

lemma revocation_inv:
  assumes set: "settled P st" and none: "opens_none P k st"
    and r: "rotate_for_revocation P k st = (Inr res, st1)"
  shows "\<exists>old g key mk vk. vault_inv P old k g key mk vk st1 \<and> require_envelope_key st = Inr old \<and>
    g = current_vault_key_generation (va_db st) + 1 \<and>
    dek_view P st1 = dek_view P st \<and> length (dek_rewrap_queue (va_db st1)) = length (data_encryption_keys (va_db st))"
proof -
  from revocation_result [OF r] obtain old mk vk w v s2 g where k: "require_envelope_key st = Inr old"
    "vault_state (va_db st) = Some v" "g = current_vault_key_generation (va_db st) + 1"
    "same_but_devices (rotate_vault_key_only (va_db st) w g) s2" "va_db st1 = snd (enqueue_deks_for_rewrap s2 g)"
    "va_keys st1 = Some (with_previous_key mk vk k old)" by (elim exE conjE)
  let ?deks = "data_encryption_keys (va_db st)"
  have s2: "data_encryption_keys s2 = ?deks" "dek_rewrap_queue s2 = []" "keys_ok s2"
    "vault_state s2 = Some (v\<lparr>vr_encrypted_vault_key := Some w, vr_vault_key_generation := Some g\<rparr>)"
    using k(4) set k(2)
    by (auto simp: same_but_devices_def rotate_vault_key_only_def update_vault_state_def settled_def keys_ok_def)
  have old: "length (dk_wrapped_dek d) = WRAPPED_KEY_LEN" "\<exists>p. unwrap_key (pr_crypto P) old (dk_wrapped_dek d) = Inr p"
    "dk_vault_key_gen d < g" if "d \<in> set ?deks" for d using set k(1,3) that by (force simp: settled_def)+
  define key where "key d = (case filter (\<lambda>r. dk_dek_id r = d) ?deks of r # _ \<Rightarrow>
      (case unwrap_key (pr_crypto P) old (dk_wrapped_dek r) of Inr p \<Rightarrow> p | Inl _ \<Rightarrow> []) | [] \<Rightarrow> [])" for d
  have dist: "distinct (map dk_dek_id ?deks)" using set by (simp add: settled_def keys_ok_def)
  have key: "unwrap_key (pr_crypto P) old (dk_wrapped_dek d) = Inr (key (dk_dek_id d))" if "d \<in> set ?deks" for d
  proof -
    have "filter (\<lambda>r. dk_dek_id r = dk_dek_id d) ?deks = [d]" using dist that by (rule filter_key_singleton)
    with old(2) [OF that] show ?thesis by (auto simp: key_def)
  qed
  have q: "map rq_dek_id (dek_rewrap_queue (va_db st1)) = map dk_dek_id ?deks"
    and pend: "\<forall>i \<in> set (dek_rewrap_queue (va_db st1)). rq_status i = ''PENDING''"
    and deks: "data_encryption_keys (va_db st1) = ?deks" and vs: "vault_state (va_db st1) = vault_state s2"
    using s2(1,2) old(3) by (auto simp: k(5) enqueue_deks_for_rewrap_def o_def filter_id_conv)
  have ids: "queued (va_db st1) = dk_dek_id ` set ?deks" by (metis q queued_def set_map)
  have ok1: "keys_ok (va_db st1)" using keys_ok_enqueue [OF s2(3)] by (simp add: k(5))
  have "dek_inv P old k g key (queued (va_db st1)) d" if "d \<in> set ?deks" for d
    using old(1) [OF that] key [OF that] none that
    by (auto simp: dek_inv_def ids opens_none_def list_all_iff unwrap_key_def)
  with ok1 pend have "rewrap_inv P old k g key (va_db st1)"
    by (auto simp: rewrap_inv_def ids deks dek_ids_def)
  moreover have "current_vault_key_generation (va_db st1) = g"
    by (simp add: current_vault_key_generation_def get_vault_params_def vs s2(4))
  ultimately have inv: "vault_inv P old k g key mk vk st1" using k(6) by (simp add: vault_inv_def)
  have "unwrap_dek_bytes P st (dk_wrapped_dek d) = Inr (key (dk_dek_id d))" if "d \<in> set ?deks" for d
    using key [OF that] old(1) [OF that] k(1) by (simp add: unwrap_dek_bytes_def wrapped_array_def)
  then have "dek_view P st1 = dek_view P st"
    using vault_inv_unwrap [OF inv] by (simp add: dek_view_def deks)
  moreover have "length (dek_rewrap_queue (va_db st1)) = length ?deks" by (metis q length_map)
  ultimately show ?thesis using inv k(1,3) by blast
qed

section \<open>Properties\<close>

text \<open>
  C12: no key is lost while a revocation is worked off, and the work ends. After a rotation for a revocation, in
  every state the daemon can reach by re-wrapping batches, creating keys and reading keys, every DEK reads as it did
  before the rotation (new DEKs come after them); and from each such state, as many batches as it takes to cover the
  queue empty it, drop the old envelope key from memory, leave every DEK under the new generation, and change no key.
\<close>

theorem lazy_rewrap_complete:
  assumes P: "prims_ok (pr_crypto P)" and st: "settled P st" and none: "opens_none P k st" and k: "length k = 32"
    and r: "rotate_for_revocation P k st = (Inr res, st1)" and reach: "(rewrap_step P)\<^sup>*\<^sup>* st1 st2"
    and m: "0 < n" "0 < m" "length (dek_rewrap_queue (va_db st2)) \<le> m * nat n"
  shows "prefix (dek_view P st) (dek_view P st2) \<and>
    dek_view P (rewrap_batches P now n m st2) = dek_view P st2 \<and>
    dek_rewrap_queue (va_db (rewrap_batches P now n m st2)) = [] \<and>
    previous_envelope_key (rewrap_batches P now n m st2) = None \<and>
    (\<forall>d \<in> set (data_encryption_keys (va_db (rewrap_batches P now n m st2))).
       dk_vault_key_gen d = current_vault_key_generation (va_db st) + 1)"
proof -
  let ?st3 = "rewrap_batches P now n m st2"
  from revocation_inv [OF st none r] obtain old g key mk vk where i1: "vault_inv P old k g key mk vk st1"
    and g: "g = current_vault_key_generation (va_db st) + 1" and v1: "dek_view P st1 = dek_view P st" by (elim exE conjE)
  from reach_inv [OF P k i1 reach] obtain key2 where i2: "vault_inv P old k g key2 mk vk st2"
    "prefix (dek_view P st1) (dek_view P st2)" by blast
  from m(1) have n: "n \<noteq> 0" by simp
  note i3 = batches_queue [OF P k i2(1) m(1), of now m]
  then have q: "dek_rewrap_queue (va_db ?st3) = []" and inv3: "vault_inv P old k g key2 mk vk ?st3" using m(3) by auto
  from reach_inv [OF P k i2(1) batches_reach [OF n]] have p: "prefix (dek_view P st2) (dek_view P ?st3)" by blast
  have "dek_ident (va_db ?st3) = dek_ident (va_db st2)"
  proof (induction m)
    case (Suc j)
    have "vault_inv P old k g key2 mk vk (rewrap_batches P now n j st2)"
      using batches_queue [OF P k i2(1) m(1), of now j] by blast
    from batch_step [OF P k this n, of now] Suc show ?case by (auto simp: rewrap_batches_def)
  qed (simp add: rewrap_batches_def)
  then have "dek_view P ?st3 = dek_view P st2" using vault_inv_view [OF inv3] vault_inv_view [OF i2(1)] by simp
  moreover have "\<forall>d \<in> set (data_encryption_keys (va_db ?st3)). dk_vault_key_gen d = g"
    using inv3 q by (auto simp: vault_inv_def rewrap_inv_def dek_inv_def queued_def)
  ultimately show ?thesis using i2(2) v1 i3 q m(2) g by auto
qed

section \<open>A restart before the work has ended\<close>

text \<open>The keys in memory are those the passphrase derives from the stored parameters.\<close>

definition unlocked_by :: "prims \<Rightarrow> bytes \<Rightarrow> vault \<Rightarrow> bool" where
  "unlocked_by P pp st \<longleftrightarrow> pp \<noteq> [] \<and>
     (case (vault_config (va_db st), va_keys st) of
        (Some c, Some keys) \<Rightarrow>
          (case bindR (to_root_kdf_params c) (\<lambda>params. vcrypto (derive_root_keys (pr_crypto P) pp params)) of
             Inr root \<Rightarrow> uk_master_key keys = master_key root | Inl _ \<Rightarrow> False)
      | _ \<Rightarrow> False)"

lemma unlocked_by_root:
  assumes "unlocked_by P pp st" and "require_master_key st = Inr mk" and "vault_config s' = vault_config (va_db st)"
  shows "\<exists>params root. pp \<noteq> [] \<and> derive_root_keys (pr_crypto P) pp params = Inr root \<and> master_key root = mk \<and>
    ensure_vault_config s' x = (Inr (params, False), s')"
  using assms
  by (auto simp: unlocked_by_def require_master_key_def ensure_vault_config_def get_vault_config_def result_elims
      vcrypto_Inr split: option.splits sum.splits)

lemma revocation_unlock:
  assumes P: "prims_ok (pr_crypto P)" and k: "length k = 32" and pw: "unlocked_by P pp st"
    and r: "rotate_for_revocation P k st = (Inr res, st1)"
    and same: "vault_config (va_db st2) = vault_config (va_db st1)" "vault_state (va_db st2) = vault_state (va_db st1)"
  shows "\<exists>st3 mk vk. unlock P rnd (lock st2) pp = (Inr \<lparr>ur_initialized = False, ur_unlocked = True\<rparr>, st3) \<and>
    va_keys st3 = Some (with_envelope_key mk vk k) \<and> same_but_users (va_db st2) (va_db st3)"
proof -
  from revocation_result [OF r] obtain mk kk w v s2 g where q: "require_master_key st = Inr mk"
    "derive_kek (pr_crypto P) mk = Inr kk" "wrap_key (pr_crypto P) kk k = Inr w" "vault_state (va_db st) = Some v"
    "same_but_devices (rotate_vault_key_only (va_db st) w g) s2" "va_db st1 = snd (enqueue_deks_for_rewrap s2 g)"
    by (elim exE conjE)
  have tabs: "vault_config (va_db (lock st2)) = vault_config (va_db st)"
    "vault_state (va_db (lock st2)) = Some (v\<lparr>vr_encrypted_vault_key := Some w, vr_vault_key_generation := Some g\<rparr>)"
    using q(4,5) by (auto simp: lock_def same q(6) enqueue_deks_for_rewrap_def Let_def same_but_devices_def
        rotate_vault_key_only_def update_vault_state_def)
  from unlocked_by_root [OF pw q(1) tabs(1), of "un_config_salt rnd"] obtain params root where
    root: "pp \<noteq> []" "derive_root_keys (pr_crypto P) pp params = Inr root" "master_key root = mk"
      "ensure_vault_config (va_db (lock st2)) (un_config_salt rnd) = (Inr (params, False), va_db (lock st2))" by blast
  note rk = root_keys_props [OF P root(2)]
  have "kk = kek root" using rk(3) q(2) root(3) by simp
  with wrap_len [OF P rk(1) k] q(3) have w: "length w = WRAPPED_KEY_LEN" "unwrap_key (pr_crypto P) (kek root) w = Inr k"
    by auto
  from unlock_stored [OF root(4) tabs(2) _ w(1) root(1,2) w(2)] show ?thesis by (auto simp: lock_def)
qed

text \<open>The steps of the daemon leave the vault record and the parameters of the key derivation.\<close>

lemma rewrap_items_keep:
  "vault_config (snd (fold (rewrap_item P old new g now) es acc)) = vault_config (snd acc) \<and>
   vault_state (snd (fold (rewrap_item P old new g now) es acc)) = vault_state (snd acc)"
proof (induction es arbitrary: acc)
  case (Cons e es)
  have "vault_config (snd (rewrap_item P old new g now e acc)) = vault_config (snd acc) \<and>
      vault_state (snd (rewrap_item P old new g now e acc)) = vault_state (snd acc)"
    by (simp add: rewrap_item_def Let_def complete_rewrap_item_def update_wrapped_dek_def fail_rewrap_item_def split: sum.split)
  with Cons show ?case by simp
qed simp

lemma step_keeps_params:
  assumes "rewrap_step P st st'"
  shows "vault_config (va_db st') = vault_config (va_db st) \<and> vault_state (va_db st') = vault_state (va_db st)"
  using assms
proof cases
  case (batch now n r)
  have keep: "vault_config (va_db (snd (process_rewrap_batch P now st n))) = vault_config (va_db st) \<and>
      vault_state (va_db (snd (process_rewrap_batch P now st n))) = vault_state (va_db st)"
  proof (cases "require_envelope_key st")
    case (Inr new)
    show ?thesis
    proof (cases "previous_envelope_key st")
      case (Some old)
      show ?thesis
      proof (cases "get_pending_rewrap_batch (va_db st) n")
        case es: (Inr es)
        obtain p s' where f: "fold (rewrap_item P old new (current_vault_key_generation (va_db st)) now) es (0, va_db st) = (p, s')"
          by force
        have "vault_config s' = vault_config (va_db st)" "vault_state s' = vault_state (va_db st)"
          using rewrap_items_keep [of P old new "current_vault_key_generation (va_db st)" now es "(0, va_db st)"] f by simp_all
        then show ?thesis
          using Inr Some es f by (cases es) (simp_all add: process_rewrap_batch_def Let_def clear_previous_envelope_key_def split: prod.split)
      qed (simp add: process_rewrap_batch_def Inr Some)
    qed (simp add: process_rewrap_batch_def Inr)
  qed (simp add: process_rewrap_batch_def)
  then show ?thesis by (simp add: batch(1))
next
  case (new_pack k now i r)
  then show ?thesis by (auto simp: create_pack_dek_def result_elims insert_wrapped_dek_def Let_def split: if_splits)
next
  case (file_key k now i r)
  then show ?thesis
    by (auto simp: get_or_create_dek_def result_elims insert_wrapped_dek_def Let_def split: option.splits if_splits)
next
  case (pack_key p r)
  then show ?thesis by (auto simp: dek_for_pack_def result_elims set_pack_dek_def split: option.splits)
qed

lemma reach_keeps_params:
  "(rewrap_step P)\<^sup>*\<^sup>* st st' \<Longrightarrow> vault_config (va_db st') = vault_config (va_db st) \<and> vault_state (va_db st') = vault_state (va_db st)"
  by (induction rule: rtranclp_induct) (auto dest: step_keeps_params)

text \<open>What the invariant leaves to a reader that has the new envelope key but not the old one.\<close>

lemma vault_inv_without_old:
  assumes inv: "vault_inv P old new g key mk vk st"
    and deks: "data_encryption_keys (va_db st') = data_encryption_keys (va_db st)"
    and keys: "require_envelope_key st' = Inr new \<and> previous_envelope_key st' = None \<or>
      (\<exists>k2. require_envelope_key st' = Inr k2 \<and> previous_envelope_key st' = Some new \<and> opens_none P k2 st)"
  shows "dek_view P st' = only_read (- queued (va_db st)) (dek_view P st)"
proof -
  have "unwrap_dek_bytes P st' (dk_wrapped_dek k) =
      (if dk_dek_id k \<in> - queued (va_db st) then unwrap_dek_bytes P st (dk_wrapped_dek k) else Inl (V_Crypto KeyWrap))"
    if kin: "k \<in> set (data_encryption_keys (va_db st))" for k
  proof -
    have d: "dek_inv P old new g key (queued (va_db st)) k" using inv kin by (simp add: vault_inv_def rewrap_inv_def)
    have u: "unwrap_key (pr_crypto P) new (dk_wrapped_dek k) =
        (if dk_dek_id k \<in> - queued (va_db st) then Inr (key (dk_dek_id k)) else Inl KeyWrap)"
      "length (dk_wrapped_dek k) = WRAPPED_KEY_LEN"
      using d by (auto simp: dek_inv_def unwrap_key_def ok_or_def split: option.splits if_splits)
    have "unwrap_dek_bytes P st' (dk_wrapped_dek k) =
        (if dk_dek_id k \<in> - queued (va_db st) then Inr (key (dk_dek_id k)) else Inl (V_Crypto KeyWrap))"
      using keys
    proof
      assume "require_envelope_key st' = Inr new \<and> previous_envelope_key st' = None"
      with u show ?thesis by (simp add: unwrap_dek_bytes_def wrapped_array_def)
    next
      assume "\<exists>k2. require_envelope_key st' = Inr k2 \<and> previous_envelope_key st' = Some new \<and> opens_none P k2 st"
      then obtain k2 where "require_envelope_key st' = Inr k2" "previous_envelope_key st' = Some new"
        "unwrap_key (pr_crypto P) k2 (dk_wrapped_dek k) = Inl KeyWrap"
        using kin by (auto simp: opens_none_def list_all_iff unwrap_key_def ok_or_def)
      with u show ?thesis by (simp add: unwrap_dek_bytes_def wrapped_array_def)
    qed
    with vault_inv_unwrap [OF inv kin] show ?thesis by simp
  qed
  then show ?thesis by (simp add: dek_view_def deks only_read_def)
qed

text \<open>
  C34: a restart during the re-wrap loses every DEK that is still queued. The old envelope key is only in memory. Take a
  rotation for a revocation (from a vault whose DEKs are all under its envelope key) and any state the daemon reaches
  while it works off the queue: every DEK of before still reads there. But locking and unlocking with the right
  passphrase succeeds with a vault in which exactly the DEKs that are still queued cannot be read any more, while the others
  read as before, and in which no batch re-wraps one: each returns 0 and changes nothing. A second revocation at that
  point loses the same DEKs without a restart. (The new envelope keys are assumed to open no blob of an earlier key.)
\<close>

theorem restart_loses_old_deks:
  assumes P: "prims_ok (pr_crypto P)" and st: "settled P st" and none: "opens_none P k st" and k: "length k = 32"
    and pw: "unlocked_by P pp st" and r: "rotate_for_revocation P k st = (Inr res, st1)"
    and reach: "(rewrap_step P)\<^sup>*\<^sup>* st1 st2"
  shows "prefix (dek_view P st) (dek_view P st2) \<and>
    (\<exists>st3. unlock P rnd (lock st2) pp = (Inr \<lparr>ur_initialized = False, ur_unlocked = True\<rparr>, st3) \<and>
      dek_view P st3 = only_read (- queued (va_db st2)) (dek_view P st2) \<and>
      process_rewrap_batch P now st3 n = (Inr 0, st3)) \<and>
    (\<forall>k2 res2 st3. rotate_for_revocation P k2 st2 = (Inr res2, st3) \<longrightarrow> opens_none P k2 st2 \<longrightarrow>
      dek_view P st3 = only_read (- queued (va_db st2)) (dek_view P st2))"
proof -
  from revocation_inv [OF st none r] obtain old g key mk vk where i1: "vault_inv P old k g key mk vk st1"
    and v1: "dek_view P st1 = dek_view P st" by (elim exE conjE)
  from reach_inv [OF P k i1 reach] obtain key2 where i2: "vault_inv P old k g key2 mk vk st2"
    "prefix (dek_view P st1) (dek_view P st2)" by blast
  note same = reach_keeps_params [OF reach]
  from revocation_unlock [OF P k pw r conjunct1 [OF same] conjunct2 [OF same], of rnd] obtain st3 mk' vk' where
    st3: "unlock P rnd (lock st2) pp = (Inr \<lparr>ur_initialized = False, ur_unlocked = True\<rparr>, st3)"
      "va_keys st3 = Some (with_envelope_key mk' vk' k)" "same_but_users (va_db st2) (va_db st3)" by (elim exE conjE)
  have keys: "require_envelope_key st3 = Inr k" "previous_envelope_key st3 = None"
    using st3(2) by (simp_all add: require_envelope_key_def previous_envelope_key_def with_envelope_key_def)
  have view: "dek_view P st3 = only_read (- queued (va_db st2)) (dek_view P st2)"
    by (rule vault_inv_without_old [OF i2(1) same_but_users_tables(3) [OF st3(3)]]) (simp add: keys)
  have batch: "process_rewrap_batch P now st3 n = (Inr 0, st3)" by (simp add: process_rewrap_batch_def keys)
  have again: "dek_view P st4 = only_read (- queued (va_db st2)) (dek_view P st2)"
    if r2: "rotate_for_revocation P k2 st2 = (Inr res2, st4)" and none2: "opens_none P k2 st2" for k2 res2 st4
  proof -
    from revocation_result [OF r2] obtain mk' vk' w' s3 g' where q: "va_keys st4 = Some (with_previous_key mk' vk' k2 k)"
      "same_but_devices (rotate_vault_key_only (va_db st2) w' g') s3" "va_db st4 = snd (enqueue_deks_for_rewrap s3 g')"
      by (elim exE conjE) (simp add: vault_inv_keys(1) [OF i2(1)])
    have "data_encryption_keys (va_db st4) = data_encryption_keys (va_db st2)"
      using q(2) by (auto simp: q(3) enqueue_deks_for_rewrap_def Let_def same_but_devices_def
          rotate_vault_key_only_def update_vault_state_def)
    moreover have "require_envelope_key st4 = Inr k2" "previous_envelope_key st4 = Some k"
      using q(1) by (simp_all add: require_envelope_key_def previous_envelope_key_def with_previous_key_def)
    ultimately show ?thesis using vault_inv_without_old [OF i2(1)] none2 by blast
  qed
  show ?thesis
    by (intro conjI exI [of _ st3] allI impI) (use v1 i2(2) st3(1) view batch again in simp_all)
qed

section \<open>Witnesses\<close>

text \<open>The vault of \<open>key_vault\<close>, unlocked by the passphrase \<open>[5]\<close>, on a device that has its own key pair.\<close>

definition rev_master :: bytes where
  "rev_master = 5 # replicate 31 4"

definition rev_blob :: bytes where
  "rev_blob = (case bindR (derive_identity_kek xor_prims rev_master)
       (\<lambda>k. encrypt_private_key xor_prims (replicate 12 9) k (replicate 32 7)) of Inr b \<Rightarrow> b | Inl _ \<Rightarrow> [])"

definition rev_vault :: vault where
  "rev_vault = key_vault\<lparr>va_db := (va_db key_vault)\<lparr>local_device_identity := Some \<lparr>ld_device_id = ''d1'',
       ld_device_name = ''pc'', ld_peer_token = '''', ld_created_at = 0, ld_updated_at = 0,
       ld_encrypted_private_key = Some rev_blob, ld_public_key = None, ld_encrypted_kyber_private_key = None,
       ld_kyber_public_key = None\<rparr>\<rparr>,
     va_keys := Some (with_envelope_key rev_master (replicate 32 2) (replicate 32 8))\<rparr>"

lemmas rev_vault_defs = rev_vault_def key_vault_def empty_adb_def

lemma rev_device_key:
  assumes "local_device_identity s = local_device_identity (va_db rev_vault)"
  shows "get_device_private_key xor_prims s rev_master = Inr (replicate 32 7)"
proof -
  have "length rev_master = 32" by (simp add: rev_master_def)
  from identity_kek [OF xor_prims_ok this] obtain k where k: "derive_identity_kek xor_prims rev_master = Inr k"
    "length k = 32" by blast
  from box_private_key.seal_open [of "(xor_prims, replicate 12 9, k)" "replicate 32 7"] k(2) xor_prims_ok
  obtain b where b: "encrypt_private_key xor_prims (replicate 12 9) k (replicate 32 7) = Inr b"
    "decrypt_private_key xor_prims k b = Inr (replicate 32 7)" by auto
  then have "rev_blob = b" using k by (simp add: rev_blob_def)
  with b k assms show ?thesis by (simp add: get_device_private_key_def get_local_device_identity_def rev_vault_def)
qed

lemma rev_vault_settled: "settled toy_prims rev_vault"
  by (simp add: settled_def rev_vault_defs keys_ok_def require_envelope_key_def with_envelope_key_def toy_prims_def
      key_vault_dek WRAPPED_KEY_LEN_def KEY_LEN_def current_vault_key_generation_def get_vault_params_def)

lemma rev_vault_none: "opens_none toy_prims (replicate 32 9) rev_vault"
  by (simp add: opens_none_def rev_vault_defs toy_prims_def xor_prims_def replicate_eq_replicate)

lemma rev_vault_unlocked: "unlocked_by toy_prims [5] rev_vault"
proof -
  let ?c = "\<lparr>vc_salt = replicate 32 4, vc_parameter_set_version = 2, vc_memory_cost_kib = 262144, vc_time_cost = 3, vc_lanes = 1\<rparr>"
  let ?p = "target_kdf_params (replicate 32 4)"
  have "to_root_kdf_params ?c = Inr ?p"
    by (simp add: to_root_kdf_params_def to_u32_def target_kdf_params_def TARGET_PARAMETER_SET_VERSION_def
        TARGET_MEMORY_COST_KIB_def TARGET_TIME_COST_def TARGET_LANES_def)
  moreover obtain root where root: "derive_root_keys xor_prims [5] ?p = Inr root"
    using xor_root_keys [of ?p] by (auto simp: target_kdf_params_def TARGET_MEMORY_COST_KIB_def
        TARGET_TIME_COST_def TARGET_LANES_def)
  moreover have "argon2_hash xor_prims a b c [5] (replicate 32 4) = Some rev_master" for a b c
    by (simp add: xor_prims_def rev_master_def)
  then have "master_key root = rev_master"
    using root by (auto simp: derive_root_keys_def result_elims target_kdf_params_def split: if_splits)
  ultimately show ?thesis by (simp add: unlocked_by_def rev_vault_defs with_envelope_key_def toy_prims_def)
qed

lemma rev_rotates:
  assumes keys: "va_keys st = va_keys rev_vault" and v: "vault_state (va_db st) = vault_state (va_db rev_vault)"
    and dev: "local_device_identity (va_db st) = local_device_identity (va_db rev_vault)"
  shows "\<exists>res st1. rotate_for_revocation toy_prims (replicate 32 9) st = (Inr res, st1)"
proof -
  have m: "length rev_master = 32" by (simp add: rev_master_def)
  from prims_expand [OF xor_prims_ok m] obtain kk where kk: "derive_kek xor_prims rev_master = Inr kk" "length kk = 32"
    unfolding derive_kek_def by blast
  have k: "require_envelope_key st = Inr (replicate 32 8)" "require_master_key st = Inr rev_master"
    "require_key (st\<lparr>va_db := s\<rparr>) = Inr (replicate 32 2)" for s
    by (simp_all add: keys rev_vault_def require_envelope_key_def require_master_key_def require_key_def with_envelope_key_def)
  obtain vp where vp: "get_vault_params (va_db st) = Some vp" by (simp add: v rev_vault_defs get_vault_params_def)
  have own: "get_device_private_key xor_prims (rotate_vault_key_only (va_db st) w g) rev_master = Inr (replicate 32 7)"
    for w g by (rule rev_device_key) (simp add: rotate_vault_key_only_def update_vault_state_def dev)
  have w: "wrap_key xor_prims kk (replicate 32 9) = Inr (replicate 32 9 @ take 8 kk)"
    by (simp add: wrap_key_def xor_prims_def)
  have p: "pr_crypto toy_prims = xor_prims" by (simp add: toy_prims_def)
  show ?thesis
    using kk(1) k vp own w by (simp add: rotate_for_revocation_def p Let_def split: prod.splits)
qed

lemma rev_vault_rotates: "\<exists>res st1. rotate_for_revocation toy_prims (replicate 32 9) rev_vault = (Inr res, st1) \<and>
    length (dek_rewrap_queue (va_db st1)) = 1"
proof -
  from rev_rotates [OF refl refl refl] obtain res st1 where
    r: "rotate_for_revocation toy_prims (replicate 32 9) rev_vault = (Inr res, st1)" by blast
  from revocation_inv [OF rev_vault_settled rev_vault_none r] have
    "length (dek_rewrap_queue (va_db st1)) = length (data_encryption_keys (va_db rev_vault))" by (elim exE conjE)
  then have "length (dek_rewrap_queue (va_db st1)) = 1" by (simp add: rev_vault_defs)
  with r show ?thesis by blast
qed

theorem lazy_rewrap_complete_witness:
  "\<exists>res st1. rotate_for_revocation toy_prims (replicate 32 9) rev_vault = (Inr res, st1) \<and>
     previous_envelope_key (rewrap_batches toy_prims 0 10 1 st1) = None \<and>
     dek_rewrap_queue (va_db (rewrap_batches toy_prims 0 10 1 st1)) = [] \<and>
     dek_view toy_prims (rewrap_batches toy_prims 0 10 1 st1) = dek_view toy_prims st1"
proof -
  from rev_vault_rotates obtain res st1 where r: "rotate_for_revocation toy_prims (replicate 32 9) rev_vault = (Inr res, st1)"
    and q: "length (dek_rewrap_queue (va_db st1)) = 1" by blast
  have n: "(0 :: int) < 10" "(0 :: nat) < 1" "length (dek_rewrap_queue (va_db st1)) \<le> 1 * nat 10" using q by simp_all
  note fin = lazy_rewrap_complete [OF toy_prims_ok(1) rev_vault_settled rev_vault_none length_replicate r rtranclp.rtrancl_refl n,
      of 0]
  show ?thesis
    by (intro exI conjI, rule r, rule fin [THEN conjunct2, THEN conjunct2, THEN conjunct2, THEN conjunct1],
        rule fin [THEN conjunct2, THEN conjunct2, THEN conjunct1], rule fin [THEN conjunct2, THEN conjunct1])
qed

text \<open>The same vault with two DEKs, of which one batch re-wraps one before the restart.\<close>

definition rev_two_vault :: vault where
  "rev_two_vault = rev_vault\<lparr>va_db := (va_db rev_vault)\<lparr>data_encryption_keys := data_encryption_keys (va_db two_key_vault),
     data_encryption_keys_seq := 2\<rparr>\<rparr>"

lemmas rev_two_defs = rev_two_vault_def two_key_vault_def rev_vault_defs

lemma rev_two_facts: "settled toy_prims rev_two_vault" "opens_none toy_prims (replicate 32 9) rev_two_vault"
  "unlocked_by toy_prims [5] rev_two_vault"
  "dek_view toy_prims rev_two_vault = [(1, 7, 1, Inr (replicate 32 3)), (2, 9, 1, Inr (replicate 32 2))]"
proof -
  have opens: "unwrap_key (pr_crypto toy_prims) (replicate 32 8) (p @ replicate 8 8) = Inr p" if "length p = 32" for p
    using that by (simp add: toy_prims_def unwrap_key_def xor_prims_def)
  have env: "require_envelope_key rev_two_vault = Inr (replicate 32 8)"
    by (simp add: rev_two_defs require_envelope_key_def with_envelope_key_def)
  show "settled toy_prims rev_two_vault"
    unfolding settled_def using env opens
    by (simp add: rev_two_defs keys_ok_def dek_key_def WRAPPED_KEY_LEN_def KEY_LEN_def current_vault_key_generation_def get_vault_params_def)
  show "opens_none toy_prims (replicate 32 9) rev_two_vault"
    by (simp add: opens_none_def rev_two_defs toy_prims_def xor_prims_def replicate_eq_replicate)
  show "unlocked_by toy_prims [5] rev_two_vault"
    using rev_vault_unlocked by (simp add: unlocked_by_def rev_two_vault_def)
  show "dek_view toy_prims rev_two_vault = [(1, 7, 1, Inr (replicate 32 3)), (2, 9, 1, Inr (replicate 32 2))]"
    using opens by (simp add: dek_view_def unwrap_dek_bytes_def env wrapped_array_def WRAPPED_KEY_LEN_def KEY_LEN_def)
      (simp add: rev_two_defs)
qed

theorem restart_loses_old_deks_witness:
  "\<exists>res st1 st2 st3. rotate_for_revocation toy_prims (replicate 32 9) rev_two_vault = (Inr res, st1) \<and>
     st2 = snd (process_rewrap_batch toy_prims 0 st1 1) \<and>
     dek_view toy_prims st2 = [(1, 7, 1, Inr (replicate 32 3)), (2, 9, 1, Inr (replicate 32 2))] \<and>
     unlock toy_prims toy_rnd (lock st2) [5] = (Inr \<lparr>ur_initialized = False, ur_unlocked = True\<rparr>, st3) \<and>
     (dek_view toy_prims st3 = [(1, 7, 1, Inl (V_Crypto KeyWrap)), (2, 9, 1, Inr (replicate 32 2))] \<or>
      dek_view toy_prims st3 = [(1, 7, 1, Inr (replicate 32 3)), (2, 9, 1, Inl (V_Crypto KeyWrap))])"
proof -
  have "va_keys rev_two_vault = va_keys rev_vault" "vault_state (va_db rev_two_vault) = vault_state (va_db rev_vault)"
    "local_device_identity (va_db rev_two_vault) = local_device_identity (va_db rev_vault)"
    by (simp_all add: rev_two_vault_def)
  from rev_rotates [OF this] obtain res st1 where
    r: "rotate_for_revocation toy_prims (replicate 32 9) rev_two_vault = (Inr res, st1)" by blast
  from revocation_inv [OF rev_two_facts(1,2) r] obtain old g key mk vk where
    inv: "vault_inv toy_prims old (replicate 32 9) g key mk vk st1"
    and view1: "dek_view toy_prims st1 = dek_view toy_prims rev_two_vault"
    and len: "length (dek_rewrap_queue (va_db st1)) = length (data_encryption_keys (va_db rev_two_vault))" by (elim exE conjE)
  have one: "(1 :: int) \<noteq> 0" by simp
  from batch_step [OF toy_prims_ok(1) length_replicate inv one, of 0] obtain b st2 where
    b: "process_rewrap_batch toy_prims 0 st1 1 = (Inr b, st2)" "vault_inv toy_prims old (replicate 32 9) g key mk vk st2"
      "dek_ident (va_db st2) = dek_ident (va_db st1)"
      "length (dek_rewrap_queue (va_db st2)) = length (dek_rewrap_queue (va_db st1)) - length (sql_limit 1 (dek_rewrap_queue (va_db st1)))"
    by (elim exE conjE)
  have "length (dek_rewrap_queue (va_db st2)) = 1"
    using b(4) len by (simp add: sql_limit_def rev_two_defs)
  then obtain i where "dek_rewrap_queue (va_db st2) = [i]" by (cases "dek_rewrap_queue (va_db st2)") auto
  then have q: "queued (va_db st2) = {rq_dek_id i}" by (simp add: queued_def)
  have view2: "dek_view toy_prims st2 = [(1, 7, 1, Inr (replicate 32 3)), (2, 9, 1, Inr (replicate 32 2))]"
    using vault_inv_view [OF b(2)] vault_inv_view [OF inv] view1 rev_two_facts(4) b(3) by simp
  have "queued (va_db st2) \<subseteq> dek_ids (va_db st2)" using b(2) by (simp add: vault_inv_def rewrap_inv_def)
  also have "dek_ids (va_db st2) = fst ` set (dek_view toy_prims st2)" by (simp add: view_ids dek_ids_def)
  finally have i: "rq_dek_id i = 1 \<or> rq_dek_id i = 2" by (simp add: q view2)
  have "rewrap_step toy_prims st1 st2" by (rule rewrap_step.batch [OF b(1) one])
  from restart_loses_old_deks [OF toy_prims_ok(1) rev_two_facts(1,2) length_replicate rev_two_facts(3) r
      r_into_rtranclp [where r = "rewrap_step toy_prims", OF this], of toy_rnd 0 1] obtain st3 where
    st3: "unlock toy_prims toy_rnd (lock st2) [5] = (Inr \<lparr>ur_initialized = False, ur_unlocked = True\<rparr>, st3)"
      "dek_view toy_prims st3 = only_read (- queued (va_db st2)) (dek_view toy_prims st2)" by (elim exE conjE)
  have "dek_view toy_prims st3 = [(1, 7, 1, Inl (V_Crypto KeyWrap)), (2, 9, 1, Inr (replicate 32 2))] \<or>
      dek_view toy_prims st3 = [(1, 7, 1, Inr (replicate 32 3)), (2, 9, 1, Inl (V_Crypto KeyWrap))]"
    using i unfolding st3(2) q view2 by (auto simp: only_read_def)
  moreover have "st2 = snd (process_rewrap_batch toy_prims 0 st1 1)" by (simp add: b(1))
  ultimately show ?thesis using r view2 st3(1) by blast
qed

end
