(* ===== verification/VaultMigration.thy ===== *)
theory VaultMigration
  imports VaultRewrap
begin

text \<open>
  The migration of the key-derivation parameters (\<^verbatim>\<open>vault.rs\<close>, \<open>migrate_kdf_params_if_needed\<close>) and what a change of
  the master key does to the secrets sealed under it: which of them are carried over, and which are left behind by
  the migration and by a change of passphrase.
\<close>

section \<open>What a vault can open\<close>

text \<open>
  The secrets the daemon reads: every DEK, the key of V1 chunks, the X25519 private key of the device and its ML-KEM
  private key. Both private keys are sealed under the identity key, which is derived from the master key.
\<close>

definition device_key_view :: "prims \<Rightarrow> vault \<Rightarrow> (VaultError + IdentityError + bytes)" where
  "device_key_view P st = bindR (require_master_key st) (\<lambda>mk. Inr (get_device_private_key (pr_crypto P) (va_db st) mk))"

definition kyber_key_view :: "prims \<Rightarrow> vault \<Rightarrow> (VaultError + IdentityError + bytes)" where
  "kyber_key_view P st = bindR (require_master_key st) (\<lambda>mk. Inr (get_device_kyber_private_key (pr_crypto P) (va_db st) mk))"

definition device_blob :: "vault \<Rightarrow> bytes option" where
  "device_blob st = Option.bind (local_device_identity (va_db st)) ld_encrypted_private_key"

definition kyber_blob :: "vault \<Rightarrow> bytes option" where
  "kyber_blob st = Option.bind (local_device_identity (va_db st)) ld_encrypted_kyber_private_key"

text \<open>The identity key of the master key in memory fails on a blob.\<close>

definition identity_fails :: "prims \<Rightarrow> (crypto_prims \<Rightarrow> bytes \<Rightarrow> bytes \<Rightarrow> IdentityError + bytes) \<Rightarrow> bytes \<Rightarrow> vault \<Rightarrow> bool" where
  "identity_fails P dec blob st \<longleftrightarrow> (\<forall>mk kk. require_master_key st = Inr mk \<longrightarrow> derive_identity_kek (pr_crypto P) mk = Inr kk \<longrightarrow>
     dec (pr_crypto P) kk blob = Inl Id_Crypto)"

text \<open>What the migration carries over: the DEKs, the key of V1 chunks and the X25519 private key.\<close>

definition secrets_view ::
  "prims \<Rightarrow> vault \<Rightarrow> (int \<times> int \<times> int \<times> (VaultError + bytes)) list \<times> (VaultError + bytes) \<times> (VaultError + IdentityError + bytes)" where
  "secrets_view P st = (dek_view P st, vault_key_for_v1_read P st, device_key_view P st)"

definition migration_ready :: "vault \<Rightarrow> bool" where
  "migration_ready st \<longleftrightarrow> previous_envelope_key st = None \<and> get_legacy_read_key (va_db st) = None \<and>
     (case va_keys st of None \<Rightarrow> False
      | Some keys \<Rightarrow> length (uk_vault_key keys) = 32 \<and> length (uk_master_key keys) = 32 \<and>
          (case uk_envelope_vault_key keys of None \<Rightarrow> False | Some ek \<Rightarrow> length ek = 32))"

lemma migration_ready_keys:
  assumes "migration_ready st"
  obtains mk vk ek where "va_keys st = Some (with_envelope_key mk vk ek)" "length mk = 32" "length vk = 32" "length ek = 32"
proof -
  from assms obtain keys ek where k: "va_keys st = Some keys" "uk_envelope_vault_key keys = Some ek" "length ek = 32"
    "length (uk_vault_key keys) = 32" "length (uk_master_key keys) = 32" "uk_previous_envelope_vault_key keys = None"
    by (auto simp: migration_ready_def previous_envelope_key_def split: option.splits)
  then have "keys = with_envelope_key (uk_master_key keys) (uk_vault_key keys) ek"
    by (cases keys) (simp add: with_envelope_key_def)
  with k that show ?thesis by metis
qed

lemma key_simps:
  assumes "va_keys st = Some (with_envelope_key mk vk ek)"
  shows "require_key st = Inr vk" "require_master_key st = Inr mk" "require_envelope_key st = Inr ek"
    "previous_envelope_key st = None"
  using assms by (simp_all add: require_key_def require_master_key_def require_envelope_key_def
      previous_envelope_key_def with_envelope_key_def)

section \<open>The migration\<close>

lemma migrate_result:
  assumes keys: "va_keys st = Some (with_envelope_key mk vk ek)"
    and r: "migrate_kdf_params_if_needed P sl n1 n2 st pp = Inr (Migrated a b, st1)"
  shows "\<exists>c v root w legacy dev. vault_config (va_db st) = Some c \<and> vc_parameter_set_version c = a \<and> needs_kdf_migration a \<and>
    b = uint TARGET_PARAMETER_SET_VERSION \<and> vault_state (va_db st) = Some v \<and>
    derive_root_keys (pr_crypto P) pp (target_kdf_params sl) = Inr root \<and> wrap_key (pr_crypto P) (kek root) ek = Inr w \<and>
    seal_legacy_read_key P n1 ek vk (vr_vault_id v) = Inr legacy \<and>
    reseal_device_blob P n2 (va_db st) mk (master_key root) = Inr dev \<and>
    st1 = st\<lparr>va_db := migrate_kdf_params_tx (va_db st) (kdf_writes (target_kdf_params sl) w legacy dev),
       va_keys := Some (with_envelope_key (master_key root) (vault_key root) ek)\<rparr>"
  using r by (auto simp: migrate_kdf_params_if_needed_def key_simps [OF keys] result_elims vcrypto_Inr Let_def
      get_vault_config_def get_vault_params_def split: if_splits)

lemma migrate_tx_tables:
  fixes s :: adb and w :: KdfMigrationWrites
  defines "s1 \<equiv> migrate_kdf_params_tx s w"
  assumes v: "vault_state s = Some v" and c: "vault_config s = Some c"
  shows "vault_state s1 = Some (v\<lparr>vr_master_key_salt := kw_new_salt w, vr_argon2_params := kw_new_argon2_params w,
      vr_encrypted_vault_key := Some (kw_new_encrypted_vault_key w), vr_legacy_read_key := Some (kw_legacy_read_key_blob w)\<rparr>)"
    and "vault_config s1 = Some (c\<lparr>vc_salt := kw_new_salt w, vc_parameter_set_version := kw_new_param_version w,
      vc_memory_cost_kib := kw_new_memory_cost_kib w, vc_time_cost := kw_new_time_cost w, vc_lanes := kw_new_lanes w\<rparr>)"
    and "data_encryption_keys s1 = data_encryption_keys s"
    and "local_device_identity s1 = (case kw_new_device_private_key w of None \<Rightarrow> local_device_identity s
      | Some blob \<Rightarrow> map_option (\<lambda>d. d\<lparr>ld_encrypted_private_key := Some blob\<rparr>) (local_device_identity s))"
  using v c by (auto simp: s1_def migrate_kdf_params_tx_def update_vault_state_def Let_def split: option.splits)

lemma legacy_key_opens:
  assumes P: "prims_ok (pr_crypto P)" and n: "length n = 12" and ek: "length ek = 32" and vk: "length vk = 32"
    and s: "seal_legacy_read_key P n ek vk vid = Inr blob"
  shows "open_legacy_read_key P ek blob vid = Inr vk"
proof -
  obtain sk where sk: "derive_subkey (pr_crypto P) ek LEGACY_READ_KEY_INFO = Inr sk" "length sk = 32"
    using prims_expand [OF P ek] by (auto simp: derive_subkey_def)
  with s have "encrypt_secret (pr_crypto P) n sk vk (str_bytes vid) = Inr blob"
    by (simp add: seal_legacy_read_key_def vcrypto_Inr)
  with box_secret.open_seal [of "(pr_crypto P, n, sk, str_bytes vid)" vk blob] P sk n
  have "decrypt_secret (pr_crypto P) sk blob (str_bytes vid) = Inr vk" by simp
  with sk vk show ?thesis by (simp add: open_legacy_read_key_def KEY_LEN_def)
qed

text \<open>The private key of the device opens under the new master key to what it was under the old one.\<close>

lemma resealed_device_key:
  assumes P: "prims_ok (pr_crypto P)" and n: "length n = 12" and mk: "length mk = 32" and mk': "length mk' = 32"
    and d: "reseal_device_blob P n s mk mk' = Inr dev"
    and s': "local_device_identity s' = (case dev of None \<Rightarrow> local_device_identity s
      | Some blob \<Rightarrow> map_option (\<lambda>d. d\<lparr>ld_encrypted_private_key := Some blob\<rparr>) (local_device_identity s))"
  shows "get_device_private_key (pr_crypto P) s' mk' = get_device_private_key (pr_crypto P) s mk"
proof (cases "Option.bind (local_device_identity s) ld_encrypted_private_key")
  case None
  with d have "dev = None" by (simp add: reseal_device_blob_def get_local_device_identity_def)
  with None s' show ?thesis
    by (cases "local_device_identity s") (simp_all add: get_device_private_key_def get_local_device_identity_def)
next
  case (Some old_blob)
  then obtain l where l: "local_device_identity s = Some l" "ld_encrypted_private_key l = Some old_blob"
    by (auto simp: bind_eq_Some_conv)
  from d Some obtain blob where dev: "dev = Some blob"
    and re: "reseal_local_device_private_key (pr_crypto P) n mk mk' old_blob = Inr blob"
    by (auto simp: reseal_device_blob_def get_local_device_identity_def result_elims)
  from re obtain k k' pk where k: "derive_identity_kek (pr_crypto P) mk = Inr k"
    "decrypt_private_key (pr_crypto P) k old_blob = Inr pk" "derive_identity_kek (pr_crypto P) mk' = Inr k'"
    "encrypt_private_key (pr_crypto P) n k' pk = Inr blob"
    by (auto simp: reseal_local_device_private_key_def result_elims)
  have pk: "length pk = 32" using k(2) by (auto simp: decrypt_private_key_def result_elims split: if_splits)
  have "length k' = 32" using identity_kek [OF P mk'] k(3) by auto
  with box_private_key.open_seal [of "(pr_crypto P, n, k')" pk blob] P n pk k(4)
  have "decrypt_private_key (pr_crypto P) k' blob = Inr pk" by simp
  with k l s' dev show ?thesis by (simp add: get_device_private_key_def get_local_device_identity_def)
qed

lemma migrated_unlocks:
  assumes P: "prims_ok (pr_crypto P)" and pp: "pp \<noteq> []" and ek: "length ek = 32"
    and root: "derive_root_keys (pr_crypto P) pp (target_kdf_params sl) = Inr root"
    and w: "wrap_key (pr_crypto P) (kek root) ek = Inr w"
    and c: "vault_config (va_db st1) = Some \<lparr>vc_salt = sl, vc_parameter_set_version = uint TARGET_PARAMETER_SET_VERSION,
      vc_memory_cost_kib = uint TARGET_MEMORY_COST_KIB, vc_time_cost = uint TARGET_TIME_COST, vc_lanes = uint TARGET_LANES\<rparr>"
    and v: "vault_state (va_db st1) = Some v" "vr_encrypted_vault_key v = Some w"
  shows "\<exists>st2. unlock P rnd (lock st1) pp = (Inr \<lparr>ur_initialized = False, ur_unlocked = True\<rparr>, st2) \<and>
    va_keys st2 = Some (with_envelope_key (master_key root) (vault_key root) ek) \<and> same_but_users (va_db st1) (va_db st2)"
proof -
  let ?p = "target_kdf_params sl"
  have cfg: "ensure_vault_config (va_db (lock st1)) (un_config_salt rnd) = (Inr (?p, False), va_db (lock st1))"
    by (rule root_params_stored) (simp add: lock_def c target_kdf_params_def)
  have vs: "vault_state (va_db (lock st1)) = Some v" using v by (simp add: lock_def)
  from wrap_len [OF P root_keys_props(1) [OF P root] ek w] have "length w = WRAPPED_KEY_LEN"
    "unwrap_key (pr_crypto P) (kek root) w = Inr ek" by simp_all
  from unlock_stored [OF cfg vs v(2) this(1) pp root this(2)] show ?thesis by (simp add: lock_def)
qed

lemma dek_view_cong:
  assumes "va_keys st = Some (with_envelope_key mk vk ek)" and "va_keys st' = Some (with_envelope_key mk' vk' ek)"
    and "data_encryption_keys (va_db st') = data_encryption_keys (va_db st)"
  shows "dek_view P st' = dek_view P st"
  unfolding dek_view_def unwrap_dek_bytes_def key_simps [OF assms(1)] key_simps [OF assms(2)] assms(3) ..

text \<open>A second run after a migration is skipped; the ML-KEM key of a device that has one is left as it is.\<close>

lemma migrated_skips:
  assumes "vault_config (va_db st1) = Some c" and "vc_parameter_set_version c = uint TARGET_PARAMETER_SET_VERSION"
  shows "migrate_kdf_params_if_needed P sl n1 n2 st1 pp = Inr (Skipped, st1)"
  using assms by (simp add: migrate_kdf_params_if_needed_def get_vault_config_def needs_kdf_migration_def)

lemma keypair_keeps_kyber:
  assumes "ensure_device_keypair C X a n now s mk = Inr (r, s')" and "local_device_identity s = Some l"
  shows "\<exists>l'. local_device_identity s' = Some l' \<and> ld_encrypted_kyber_private_key l' = ld_encrypted_kyber_private_key l \<and>
    ld_kyber_public_key l' = ld_kyber_public_key l"
  using assms by (auto simp: ensure_device_keypair_def get_local_device_identity_def result_elims store_device_keypair_def
      set_device_public_key_def update_device_def Let_def split: if_splits)

lemma maintenance_keeps_kyber:
  assumes skip: "\<And>sl n1 n2. migrate_kdf_params_if_needed P sl n1 n2 st pp = Inr (Skipped, st)"
    and mk: "require_master_key st = Inr mk" and l: "local_device_identity (va_db st) = Some l" "has_kyber_keypair l"
  shows "\<exists>st2. run_post_unlock_maintenance P mrnd now st pp = (Inr (), st2) \<and> va_keys st2 = va_keys st \<and> kyber_blob st2 = kyber_blob st"
proof -
  define s2 where "s2 = (case ensure_device_keypair (pr_crypto P) (pr_dh P) (mr_secret mrnd) (mr_nonce3 mrnd) now (va_db st) mk of
      Inr (_, s') \<Rightarrow> s' | Inl _ \<Rightarrow> va_db st)"
  have "\<exists>l'. local_device_identity s2 = Some l' \<and> ld_encrypted_kyber_private_key l' = ld_encrypted_kyber_private_key l \<and>
      ld_kyber_public_key l' = ld_kyber_public_key l"
    using keypair_keeps_kyber [of "pr_crypto P" "pr_dh P" "mr_secret mrnd" "mr_nonce3 mrnd" now "va_db st" mk] l(1)
    by (simp add: s2_def split: sum.split prod.split)
  then obtain l' where l': "local_device_identity s2 = Some l'" "ld_encrypted_kyber_private_key l' = ld_encrypted_kyber_private_key l"
    "ld_kyber_public_key l' = ld_kyber_public_key l" by blast
  have "ensure_device_kyber_keypair (pr_crypto P) (mr_kyber mrnd) (mr_nonce4 mrnd) now s2 mk = Inr (the (ld_kyber_public_key l'), s2)"
    using l' l(2) by (simp add: ensure_device_kyber_keypair_def get_local_device_identity_def has_kyber_keypair_def)
  then have "run_post_unlock_maintenance P mrnd now st pp = (Inr (), st\<lparr>va_db := s2\<rparr>)"
    by (simp add: run_post_unlock_maintenance_def skip mk s2_def [symmetric] Let_def)
  then show ?thesis using l' l(1) by (simp add: kyber_blob_def)
qed

lemma kyber_view_fails:
  assumes "kyber_blob st = Some blob" and "require_master_key st = Inr mk" and "derive_identity_kek (pr_crypto P) mk = Inr kk"
    and "open_secret_blob (pr_crypto P) kk blob = Inl Id_Crypto"
  shows "kyber_key_view P st = Inr (Inl Id_Crypto)"
  using assms by (cases "local_device_identity (va_db st)")
    (simp_all add: kyber_blob_def kyber_key_view_def get_device_kyber_private_key_def get_local_device_identity_def)

text \<open>
  C13: the migration to the stronger parameters keeps the DEKs, the key of V1 chunks and the X25519 private key, and
  leaves the ML-KEM private key behind. When a vault with keys in memory is migrated, every DEK, the key of V1 chunks and
  the X25519 private key open to what they opened to before, at once and after a restart with the same passphrase; a
  second run finds nothing to do; and a run that is skipped or declined has changed nothing. The sealed ML-KEM key, by
  contrast, is not resealed: its blob stays as it was, so when it opened before and the new identity key does not open
  it, it opens no more, neither at once nor after the maintenance that follows, which keeps a pair that exists.
\<close>

theorem kdf_migration_keeps_secrets:
  assumes P: "prims_ok (pr_crypto P)" and ready: "migration_ready st" and n: "length n1 = 12" "length n2 = 12"
    and pp: "pp \<noteq> []" and r: "migrate_kdf_params_if_needed P sl n1 n2 st pp = Inr (out, st1)"
  shows "(\<forall>a b. out = Migrated a b \<longrightarrow> a < 2 \<and> b = 2 \<and> secrets_view P st1 = secrets_view P st \<and>
      (\<exists>st2. unlock P rnd (lock st1) pp = (Inr \<lparr>ur_initialized = False, ur_unlocked = True\<rparr>, st2) \<and>
         va_keys st2 = va_keys st1 \<and> secrets_view P st2 = secrets_view P st) \<and>
      migrate_kdf_params_if_needed P sl' n1' n2' st1 pp' = Inr (Skipped, st1) \<and>
      kyber_blob st1 = kyber_blob st \<and>
      (\<forall>l blob dk. local_device_identity (va_db st) = Some l \<longrightarrow> has_kyber_keypair l \<longrightarrow> kyber_blob st = Some blob \<longrightarrow>
         kyber_key_view P st = Inr (Inr dk) \<longrightarrow> identity_fails P open_secret_blob blob st1 \<longrightarrow>
         kyber_key_view P st1 = Inr (Inl Id_Crypto) \<and>
         (\<exists>st2. run_post_unlock_maintenance P mrnd now st1 pp' = (Inr (), st2) \<and> kyber_blob st2 = Some blob \<and>
            kyber_key_view P st2 = Inr (Inl Id_Crypto)))) \<and>
    ((\<forall>a b. out \<noteq> Migrated a b) \<longrightarrow> st1 = st)"
proof (intro conjI allI impI)
  fix a b assume out: "out = Migrated a b"
  from ready obtain mk vk ek where keys: "va_keys st = Some (with_envelope_key mk vk ek)" "length mk = 32"
    "length vk = 32" "length ek = 32" by (rule migration_ready_keys)
  from migrate_result [OF keys(1) r [unfolded out]] obtain c v root w legacy dev where
    m: "vault_config (va_db st) = Some c" "vc_parameter_set_version c = a" "needs_kdf_migration a"
      "b = uint TARGET_PARAMETER_SET_VERSION" "vault_state (va_db st) = Some v"
      "derive_root_keys (pr_crypto P) pp (target_kdf_params sl) = Inr root" "wrap_key (pr_crypto P) (kek root) ek = Inr w"
      "seal_legacy_read_key P n1 ek vk (vr_vault_id v) = Inr legacy"
      "reseal_device_blob P n2 (va_db st) mk (master_key root) = Inr dev"
      "st1 = st\<lparr>va_db := migrate_kdf_params_tx (va_db st) (kdf_writes (target_kdf_params sl) w legacy dev),
         va_keys := Some (with_envelope_key (master_key root) (vault_key root) ek)\<rparr>" by (elim exE conjE)
  note tabs = migrate_tx_tables [OF m(5,1), of "kdf_writes (target_kdf_params sl) w legacy dev"]
  let ?v1 = "v\<lparr>vr_master_key_salt := sl, vr_argon2_params := argon2_json_of (target_kdf_params sl),
      vr_encrypted_vault_key := Some w, vr_legacy_read_key := Some legacy\<rparr>"
  have t1: "vault_state (va_db st1) = Some ?v1" "data_encryption_keys (va_db st1) = data_encryption_keys (va_db st)"
    and cfg: "vault_config (va_db st1) = Some \<lparr>vc_salt = sl, vc_parameter_set_version = uint TARGET_PARAMETER_SET_VERSION,
      vc_memory_cost_kib = uint TARGET_MEMORY_COST_KIB, vc_time_cost = uint TARGET_TIME_COST, vc_lanes = uint TARGET_LANES\<rparr>"
    and dev: "local_device_identity (va_db st1) = (case dev of None \<Rightarrow> local_device_identity (va_db st)
      | Some blob \<Rightarrow> map_option (\<lambda>d. d\<lparr>ld_encrypted_private_key := Some blob\<rparr>) (local_device_identity (va_db st)))"
    using tabs by (simp_all add: m(10) kdf_writes_def target_kdf_params_def)
  have view: "secrets_view P st' = secrets_view P st"
    if k': "va_keys st' = Some (with_envelope_key (master_key root) (vault_key root) ek)"
      and s': "vault_state (va_db st') = vault_state (va_db st1)"
        "data_encryption_keys (va_db st') = data_encryption_keys (va_db st1)"
        "local_device_identity (va_db st') = local_device_identity (va_db st1)" for st'
  proof -
    have "dek_view P st' = dek_view P st" using dek_view_cong [OF keys(1) k'] s'(2) t1(2) by simp
    moreover have "vault_key_for_v1_read P st' = vault_key_for_v1_read P st"
      using legacy_key_opens [OF P n(1) keys(4,3) m(8)] ready s'(1) t1(1) keys(1) k'
      by (simp add: vault_key_for_v1_read_def get_legacy_read_key_def get_vault_params_def key_simps migration_ready_def)
    moreover have "device_key_view P st' = device_key_view P st"
      using resealed_device_key [OF P n(2) keys(2) root_keys_props(4) [OF P m(6)] m(9)] s'(3) dev
      by (simp add: device_key_view_def key_simps [OF keys(1)] key_simps [OF k'])
    ultimately show ?thesis by (simp add: secrets_view_def)
  qed
  have k1: "va_keys st1 = Some (with_envelope_key (master_key root) (vault_key root) ek)" by (simp add: m(10))
  show "secrets_view P st1 = secrets_view P st" by (rule view [OF k1 refl refl refl])
  from migrated_unlocks [OF P pp keys(4) m(6,7) cfg t1(1), of rnd] obtain st2 where
    st2: "unlock P rnd (lock st1) pp = (Inr \<lparr>ur_initialized = False, ur_unlocked = True\<rparr>, st2)"
      "va_keys st2 = Some (with_envelope_key (master_key root) (vault_key root) ek)" "same_but_users (va_db st1) (va_db st2)"
    by auto
  note tt = same_but_users_tables [OF st2(3)]
  show "\<exists>st2. unlock P rnd (lock st1) pp = (Inr \<lparr>ur_initialized = False, ur_unlocked = True\<rparr>, st2) \<and>
      va_keys st2 = va_keys st1 \<and> secrets_view P st2 = secrets_view P st"
    by (intro exI conjI, rule st2(1), rule trans [OF st2(2) k1 [symmetric]], rule view [OF st2(2) tt(1,3,5)])
  have skip: "migrate_kdf_params_if_needed P sl' n1' n2' st1 pp' = Inr (Skipped, st1)" for sl' n1' n2' pp'
    by (rule migrated_skips [OF cfg]) simp
  then show "migrate_kdf_params_if_needed P sl' n1' n2' st1 pp' = Inr (Skipped, st1)" .
  have lk: "\<exists>l'. local_device_identity (va_db st1) = Some l' \<and> ld_encrypted_kyber_private_key l' = ld_encrypted_kyber_private_key l \<and>
      ld_kyber_public_key l' = ld_kyber_public_key l" if "local_device_identity (va_db st) = Some l" for l
    using dev that by (cases dev) simp_all
  show kb: "kyber_blob st1 = kyber_blob st"
    using dev by (cases dev; cases "local_device_identity (va_db st)") (simp_all add: kyber_blob_def)
  show "a < 2" "b = 2" using m(3,4) by (simp_all add: needs_kdf_migration_def TARGET_PARAMETER_SET_VERSION_def)
  have "length (master_key root) = 32" by (rule root_keys_props(4) [OF P m(6)])
  from identity_kek [OF P this] obtain ik where ik: "derive_identity_kek (pr_crypto P) (master_key root) = Inr ik" by blast
  note mk1 = key_simps(2) [OF k1]
  fix l blob dk assume l: "local_device_identity (va_db st) = Some l" "has_kyber_keypair l" "kyber_blob st = Some blob"
    and shut: "identity_fails P open_secret_blob blob st1"
  have op: "open_secret_blob (pr_crypto P) ik blob = Inl Id_Crypto" using shut mk1 ik by (simp add: identity_fails_def)
  show "kyber_key_view P st1 = Inr (Inl Id_Crypto)" by (rule kyber_view_fails [OF _ mk1 ik op]) (simp add: kb l(3))
  from lk [OF l(1)] obtain l' where l': "local_device_identity (va_db st1) = Some l'" "has_kyber_keypair l'"
    using l(2) by (auto simp: has_kyber_keypair_def)
  from maintenance_keeps_kyber [OF skip mk1 l', of mrnd now] obtain st2 where
    st2: "run_post_unlock_maintenance P mrnd now st1 pp' = (Inr (), st2)" "va_keys st2 = va_keys st1" "kyber_blob st2 = Some blob"
    using kb l(3) by auto
  have "require_master_key st2 = Inr (master_key root)" using mk1 st2(2) by (simp add: require_master_key_def)
  from kyber_view_fails [OF st2(3) this ik op] st2 show "\<exists>st2. run_post_unlock_maintenance P mrnd now st1 pp' = (Inr (), st2) \<and>
      kyber_blob st2 = Some blob \<and> kyber_key_view P st2 = Inr (Inl Id_Crypto)" by blast
next
  assume "\<forall>a b. out \<noteq> Migrated a b"
  with r show "st1 = st"
    by (auto simp: migrate_kdf_params_if_needed_def result_elims Let_def split: if_splits)
qed

section \<open>Secrets that a new master key leaves behind\<close>

lemma rotation_identity:
  assumes "rotate_vault_key P sl k fail_at st pp = (Inr res, st1)" and "keys_ok (va_db st)" and "prims_ok (pr_crypto P)" and "length k = 32"
  shows "local_device_identity (va_db st1) = local_device_identity (va_db st)"
    and "\<exists>mk vk. va_keys st1 = Some (with_envelope_key mk vk k) \<and> length mk = 32"
proof -
  from rotate_result [OF assms(3,2,4,1)] obtain old root params g rs w where
    q: "rotation_of P k st pp old root params g rs w"
      "va_keys st1 = Some (with_envelope_key (master_key root) (vault_key root) k)"
      "va_db st1 = rotated_db (va_db st) params w g rs" by (elim exE conjE)
  show "local_device_identity (va_db st1) = local_device_identity (va_db st)"
    by (simp add: q(3) rotated_db_def store_config_def set_vault_config_def rotate_vault_state_def update_vault_state_def)
  have "derive_root_keys (pr_crypto P) pp params = Inr root" using q(1) by (simp add: rotation_of_def)
  from root_keys_props(4) [OF assms(3) this] q(2) show "\<exists>mk vk. va_keys st1 = Some (with_envelope_key mk vk k) \<and> length mk = 32"
    by blast
qed

text \<open>A blob that the key in memory does not open stays in place through the maintenance after an unlock.\<close>

lemma reseal_needs_open:
  assumes l: "local_device_identity s = Some l" "ld_encrypted_private_key l = Some blob"
    and kk: "derive_identity_kek (pr_crypto P) mk = Inr kk" "decrypt_private_key (pr_crypto P) kk blob = Inl e"
  shows "reseal_device_blob P n s mk mk' = Inl (InvalidConfig ''device key reseal failed'')"
  using assms by (simp add: reseal_device_blob_def get_local_device_identity_def reseal_local_device_private_key_def)

lemma maintenance_keeps_blob:
  assumes keys: "va_keys st = Some (with_envelope_key mk vk ek)"
    and l: "local_device_identity (va_db st) = Some l" "has_keypair l" "ld_encrypted_private_key l = Some blob"
    and kk: "derive_identity_kek (pr_crypto P) mk = Inr kk" "decrypt_private_key (pr_crypto P) kk blob = Inl e"
  shows "\<exists>l' s. run_post_unlock_maintenance P rnd now st pp = (Inr (), st\<lparr>va_db := s\<rparr>) \<and>
    local_device_identity s = Some l' \<and> ld_encrypted_private_key l' = Some blob"
proof -
  have mig: "(case migrate_kdf_params_if_needed P sl n1 n2 st pp of Inr (_, st') \<Rightarrow> st' | Inl _ \<Rightarrow> st) = st" for sl n1 n2
  proof (cases "migrate_kdf_params_if_needed P sl n1 n2 st pp")
    case (Inr r)
    obtain out st' where r: "r = (out, st')" by (cases r)
    show ?thesis
    proof (cases "\<exists>a b. out = Migrated a b")
      case True
      then obtain a b where "migrate_kdf_params_if_needed P sl n1 n2 st pp = Inr (Migrated a b, st')" using Inr r by blast
      from migrate_result [OF keys this] reseal_needs_open [OF l(1,3) kk] show ?thesis by auto
    next
      case False
      then have "st' = st" using Inr r
        by (auto simp: migrate_kdf_params_if_needed_def result_elims Let_def split: if_splits)
      then show ?thesis using Inr r by simp
    qed
  qed simp
  have pair: "ensure_device_keypair (pr_crypto P) (pr_dh P) a n now (va_db st) mk = Inr (the (ld_public_key l), va_db st)" for a n
    using l by (simp add: ensure_device_keypair_def get_local_device_identity_def)
  have "\<exists>l' s. (case ensure_device_kyber_keypair (pr_crypto P) y n now (va_db st) mk of Inr (_, s') \<Rightarrow> s' | Inl _ \<Rightarrow> va_db st) = s \<and>
      local_device_identity s = Some l' \<and> ld_encrypted_private_key l' = Some blob" for y n
    using l by (cases "ensure_device_kyber_keypair (pr_crypto P) y n now (va_db st) mk")
      (auto simp: ensure_device_kyber_keypair_def get_local_device_identity_def result_elims store_kyber_keypair_def
        set_device_kyber_public_key_def update_device_def Let_def split: if_splits prod.splits)
  from this [of "mr_kyber rnd" "mr_nonce4 rnd"] obtain l' s where
    s: "(case ensure_device_kyber_keypair (pr_crypto P) (mr_kyber rnd) (mr_nonce4 rnd) now (va_db st) mk of
        Inr (_, s') \<Rightarrow> s' | Inl _ \<Rightarrow> va_db st) = s"
      "local_device_identity s = Some l'" "ld_encrypted_private_key l' = Some blob" by blast
  have "run_post_unlock_maintenance P rnd now st pp = (Inr (), st\<lparr>va_db := s\<rparr>)"
    by (simp add: run_post_unlock_maintenance_def mig key_simps [OF keys] pair s(1) Let_def)
  with s(2,3) show ?thesis by blast
qed

lemma device_view_fails:
  assumes "local_device_identity (va_db st) = Some l" and "ld_encrypted_private_key l = Some blob"
    and "require_master_key st = Inr mk" and "derive_identity_kek (pr_crypto P) mk = Inr kk"
    and "decrypt_private_key (pr_crypto P) kk blob = Inl Id_Crypto"
  shows "device_key_view P st = Inr (Inl Id_Crypto)"
  using assms by (simp add: device_key_view_def get_device_private_key_def get_local_device_identity_def)

text \<open>
  C36: a change of passphrase strands the key of the device. The X25519 private key of the device is sealed under the
  identity key of the master key; a rotation to a new passphrase does not reseal it. So when the blob opened before (to
  \<open>sk\<close>) and the identity key of the new master key does not open it, the device can no longer read its own private
  key after the rotation, and cannot after a restart and the maintenance that follows the unlock either, which leaves
  the old blob in place.
\<close>

theorem passphrase_change_strands_device_key:
  assumes P: "prims_ok (pr_crypto P)" and ok: "keys_ok (va_db st)" and v: "vault_state (va_db st) = Some v" and k: "length k = 32"
    and r: "rotate_vault_key P sl k None st pp = (Inr res, st1)"
    and l: "local_device_identity (va_db st) = Some l" "has_keypair l" "ld_encrypted_private_key l = Some blob"
    and before: "device_key_view P st = Inr (Inr sk)"
    and shut: "identity_fails P decrypt_private_key blob st1"
  shows "device_key_view P st1 = Inr (Inl Id_Crypto) \<and> device_blob st1 = Some blob \<and>
    (\<exists>st2 st3. unlock P urnd (lock st1) pp = (Inr \<lparr>ur_initialized = False, ur_unlocked = True\<rparr>, st2) \<and>
       run_post_unlock_maintenance P rnd now st2 pp = (Inr (), st3) \<and>
       device_key_view P st3 = Inr (Inl Id_Crypto) \<and> device_blob st3 = Some blob)"
proof -
  from rotation_identity(2) [OF r ok P k] obtain mk vk where keys: "va_keys st1 = Some (with_envelope_key mk vk k)"
    "length mk = 32" by blast
  from identity_kek [OF P keys(2)] obtain ik where ik: "derive_identity_kek (pr_crypto P) mk = Inr ik" by blast
  with shut keys(1) have op: "decrypt_private_key (pr_crypto P) ik blob = Inl Id_Crypto"
    by (simp add: identity_fails_def key_simps)
  have l1: "local_device_identity (va_db st1) = Some l" using rotation_identity(1) [OF r ok P k] l(1) by simp
  from rotate_result [OF P ok k r] obtain old root params g rs w where
    rot: "rotation_of P k st pp old root params g rs w" and k1: "va_keys st1 = Some (with_envelope_key (master_key root) (vault_key root) k)"
    and db: "va_db st1 = rotated_db (va_db st) params w g rs" by (elim exE conjE)
  from rotated_unlocks(1) [OF rot v db, of urnd] obtain st2 where
    st2: "unlock P urnd (lock st1) pp = (Inr \<lparr>ur_initialized = False, ur_unlocked = True\<rparr>, st2)"
      "va_keys st2 = va_keys st1" "same_but_users (va_db st1) (va_db st2)" using k1 by auto
  have keys2: "va_keys st2 = Some (with_envelope_key mk vk k)" by (simp add: st2(2) keys(1))
  have l2: "local_device_identity (va_db st2) = Some l" by (simp add: same_but_users_tables(5) [OF st2(3)] l1)
  from maintenance_keeps_blob [OF keys2 l2 l(2,3) ik op, of rnd now pp] obtain l' s where
    st3: "run_post_unlock_maintenance P rnd now st2 pp = (Inr (), st2\<lparr>va_db := s\<rparr>)" "local_device_identity s = Some l'"
      "ld_encrypted_private_key l' = Some blob" by blast
  let ?st3 = "st2\<lparr>va_db := s\<rparr>"
  have mk1: "require_master_key st1 = Inr mk" "require_master_key ?st3 = Inr mk"
    using keys(1) keys2 by (simp_all add: require_master_key_def with_envelope_key_def)
  have "local_device_identity (va_db ?st3) = Some l'" using st3(2) by simp
  note after = device_view_fails [OF this st3(3) mk1(2) ik op]
  show ?thesis
    by (intro conjI exI [of _ st2] exI [of _ ?st3])
      (rule device_view_fails [OF l1 l(3) mk1(1) ik op], simp add: device_blob_def l1 l(3), rule st2(1), rule st3(1), rule after,
       simp add: device_blob_def st3(2,3))
qed

text \<open>
  C35: a revocation that fails on the key of the device loses every key at the next restart. The rotation has
  stored the new envelope key before it reads the private key of the device; when that read fails, the operation
  reports an error and the keys in memory still read everything, but after a restart the same passphrase opens the
  vault under the new envelope key, under which no DEK opens, and none is queued to be re-wrapped.
\<close>

theorem failed_revocation_loses_keys:
  assumes P: "prims_ok (pr_crypto P)" and k: "length k = 32" and pw: "unlocked_by P pp st"
    and none: "opens_none P k st" and keys: "va_keys st = Some (with_envelope_key mk vk ek)" "length mk = 32"
    and v: "vault_state (va_db st) = Some v" and dev: "device_key_view P st = Inr (Inl e)"
  shows "\<exists>st1 st2. rotate_for_revocation P k st = (Inl (InvalidConfig ''identity''), st1) \<and>
    dek_view P st1 = dek_view P st \<and> dek_rewrap_queue (va_db st1) = dek_rewrap_queue (va_db st) \<and>
    unlock P rnd (lock st1) pp = (Inr \<lparr>ur_initialized = False, ur_unlocked = True\<rparr>, st2) \<and>
    map dk_dek_id (data_encryption_keys (va_db st2)) = map dk_dek_id (data_encryption_keys (va_db st)) \<and>
    (\<forall>d \<in> set (data_encryption_keys (va_db st2)). \<exists>e. unwrap_dek_bytes P st2 (dk_wrapped_dek d) = Inl e)"
proof -
  note ks = key_simps [OF keys(1)]
  obtain kk where kk: "derive_kek (pr_crypto P) mk = Inr kk" "length kk = 32"
    using prims_expand [OF P keys(2), of KEK_V2_INFO] by (auto simp: derive_kek_def)
  obtain w where w: "wrap_key (pr_crypto P) kk k = Inr w" using prims_wrap [OF P kk(2) k] by blast
  let ?g = "current_vault_key_generation (va_db st) + 1"
  define st1 where "st1 = st\<lparr>va_db := rotate_vault_key_only (va_db st) w ?g\<rparr>"
  have tabs: "local_device_identity (va_db st1) = local_device_identity (va_db st)"
    "data_encryption_keys (va_db st1) = data_encryption_keys (va_db st)" "vault_config (va_db (lock st1)) = vault_config (va_db st)"
    "vault_state (va_db (lock st1)) = Some (v\<lparr>vr_encrypted_vault_key := Some w, vr_vault_key_generation := Some ?g\<rparr>)"
    "dek_rewrap_queue (va_db st1) = dek_rewrap_queue (va_db st)" "va_keys st1 = va_keys st"
    by (simp_all add: st1_def lock_def rotate_vault_key_only_def update_vault_state_def v)
  have own: "get_device_private_key (pr_crypto P) (va_db st1) mk = Inl e"
    using dev tabs(1) by (simp add: device_key_view_def ks get_device_private_key_def get_local_device_identity_def)
  have rot: "rotate_for_revocation P k st = (Inl (InvalidConfig ''identity''), st1)"
    using own by (simp add: rotate_for_revocation_def ks kk w Let_def st1_def)
  have view: "dek_view P st1 = dek_view P st" by (rule dek_view_cong [OF keys(1) _ tabs(2)]) (simp add: tabs(6) keys(1))
  from unlocked_by_root [OF pw ks(2) tabs(3), of "un_config_salt rnd"] obtain params root where
    root: "pp \<noteq> []" "derive_root_keys (pr_crypto P) pp params = Inr root" "master_key root = mk"
      "ensure_vault_config (va_db (lock st1)) (un_config_salt rnd) = (Inr (params, False), va_db (lock st1))" by blast
  note rk = root_keys_props [OF P root(2)]
  have "kk = kek root" using rk(3) kk(1) root(3) by simp
  with wrap_len [OF P rk(1) k] w have wl: "length w = WRAPPED_KEY_LEN" "unwrap_key (pr_crypto P) (kek root) w = Inr k" by auto
  have e: "vr_encrypted_vault_key (v\<lparr>vr_encrypted_vault_key := Some w, vr_vault_key_generation := Some ?g\<rparr>) = Some w" by simp
  from unlock_stored [OF root(4) tabs(4) e wl(1) root(1,2) wl(2)] obtain st2 where
    st2: "unlock P rnd (lock st1) pp = (Inr \<lparr>ur_initialized = False, ur_unlocked = True\<rparr>, st2)"
      "va_keys st2 = Some (with_envelope_key (master_key root) (vault_key root) k)"
      "same_but_users (va_db (lock st1)) (va_db st2)" by blast
  have deks: "data_encryption_keys (va_db st2) = data_encryption_keys (va_db st)"
    using same_but_users_tables(3) [OF st2(3)] tabs(2) by (simp add: lock_def)
  have lost: "\<forall>d \<in> set (data_encryption_keys (va_db st2)). \<exists>e. unwrap_dek_bytes P st2 (dk_wrapped_dek d) = Inl e"
    using none by (auto simp: deks unwrap_dek_bytes_def key_simps [OF st2(2)] opens_none_def list_all_iff unwrap_key_def
        wrapped_array_def)
  show ?thesis by (intro exI conjI, rule rot, rule view, rule tabs(5), rule st2(1), simp only: deks, rule lost)
qed

section \<open>Witnesses\<close>

text \<open>
  The vault of \<open>rev_vault\<close> with a device key that does not open, and, over primitives whose tag depends on the key, the
  same vault with the old parameters and with both private keys of the device sealed under the identity key of its master key.
\<close>

definition stranded_vault :: vault where
  "stranded_vault = rev_vault\<lparr>va_db := (va_db rev_vault)\<lparr>local_device_identity := Some \<lparr>ld_device_id = ''d1'',
     ld_device_name = ''pc'', ld_peer_token = '''', ld_created_at = 0, ld_updated_at = 0,
     ld_encrypted_private_key = Some [], ld_public_key = Some (replicate 32 7), ld_encrypted_kyber_private_key = None,
     ld_kyber_public_key = None\<rparr>\<rparr>\<rparr>"

lemmas stranded_defs = stranded_vault_def rev_vault_def key_vault_def empty_adb_def

definition strict_prims :: prims where
  "strict_prims = toy_prims\<lparr>pr_crypto := xor_prims\<lparr>
     gcm_encrypt := (\<lambda>k n a p. Some (map (\<lambda>b. b XOR hd k) p, take 16 (rev k))),
     gcm_decrypt := (\<lambda>k n a c t. if t = take 16 (rev k) then Some (map (\<lambda>b. b XOR hd k) c) else None)\<rparr>\<rparr>"

lemma strict_prims_ok: "prims_ok (pr_crypto strict_prims)"
  using xor_prims_ok by (simp add: prims_ok_def strict_prims_def) (simp add: xor_prims_def comp_def xor.assoc map_idI)

lemma strict_expand: "expand_labeled_key (pr_crypto strict_prims) = expand_labeled_key xor_prims"
  by (intro ext) (simp add: expand_labeled_key_def strict_prims_def cong: if_cong)

lemma strict_derives: "derive_root_keys (pr_crypto strict_prims) = derive_root_keys xor_prims"
  "wrap_key (pr_crypto strict_prims) = wrap_key xor_prims" "unwrap_key (pr_crypto strict_prims) = unwrap_key xor_prims"
  by (intro ext, simp add: derive_root_keys_def strict_expand, simp add: strict_prims_def cong: if_cong)
    (intro ext, simp add: strict_prims_def wrap_key_def unwrap_key_def)+

text \<open>The identity key of a master key, and what it seals: another identity key does not open it.\<close>

definition strict_kek :: "bytes \<Rightarrow> bytes" where
  "strict_kek mk = take 32 (IDENTITY_KEK_INFO @ mk @ replicate 32 0)"

lemma strict_identity: "length mk = 32 \<Longrightarrow> derive_identity_kek (pr_crypto strict_prims) mk = Inr (strict_kek mk)"
  by (simp add: derive_identity_kek_def expand_labeled_key_def strict_prims_def xor_prims_def strict_kek_def)

definition strict_blob :: "bytes \<Rightarrow> bytes \<Rightarrow> bytes" where
  "strict_blob mk p = replicate 12 9 @ map (\<lambda>b. b XOR hd (strict_kek mk)) p @ take 16 (rev (strict_kek mk))"

lemma strict_open:
  assumes "length p = 32"
  shows "decrypt_private_key (pr_crypto strict_prims) (strict_kek mk') (strict_blob mk p) =
      (if take 16 (rev (strict_kek mk)) = take 16 (rev (strict_kek mk'))
       then Inr (map (\<lambda>b. b XOR hd (strict_kek mk) XOR hd (strict_kek mk')) p) else Inl Id_Crypto)"
    and "open_secret_blob (pr_crypto strict_prims) (strict_kek mk') (strict_blob mk p) =
      (if take 16 (rev (strict_kek mk)) = take 16 (rev (strict_kek mk'))
       then Inr (map (\<lambda>b. b XOR hd (strict_kek mk) XOR hd (strict_kek mk')) p) else Inl Id_Crypto)"
proof -
  have kl: "length (strict_kek m) = 32" for m by (simp add: strict_kek_def)
  have g: "gcm_open (pr_crypto strict_prims) (strict_kek mk') n [] ct t =
      (if t = take 16 (rev (strict_kek mk')) then Inr (map (\<lambda>b. b XOR hd (strict_kek mk')) ct) else Inl Aead)" for n ct t
    using kl [of mk'] by (simp add: gcm_open_def strict_prims_def xor_prims_def)
  show "decrypt_private_key (pr_crypto strict_prims) (strict_kek mk') (strict_blob mk p) =
      (if take 16 (rev (strict_kek mk)) = take 16 (rev (strict_kek mk'))
       then Inr (map (\<lambda>b. b XOR hd (strict_kek mk) XOR hd (strict_kek mk')) p) else Inl Id_Crypto)"
    using assms kl [of mk] by (simp add: decrypt_private_key_def strict_blob_def NONCE_LEN_def gcm_open_combined_parts g o_def xor.assoc)
  show "open_secret_blob (pr_crypto strict_prims) (strict_kek mk') (strict_blob mk p) =
      (if take 16 (rev (strict_kek mk)) = take 16 (rev (strict_kek mk'))
       then Inr (map (\<lambda>b. b XOR hd (strict_kek mk) XOR hd (strict_kek mk')) p) else Inl Id_Crypto)"
    using assms kl [of mk] by (simp add: open_secret_blob_def strict_blob_def NONCE_LEN_def gcm_open_combined_parts g o_def xor.assoc)
qed

definition next_master :: bytes where
  "next_master = 5 # replicate 31 6"

lemma strict_kek_differs: "take 16 (rev (strict_kek rev_master)) \<noteq> take 16 (rev (strict_kek next_master))"
  by code_simp

definition quiet_rnd :: maintenance_rnd where
  "quiet_rnd = \<lparr>mr_salt = replicate 32 6, mr_nonce1 = replicate 12 1, mr_nonce2 = replicate 12 2, mr_secret = replicate 32 3,
     mr_nonce3 = replicate 12 4, mr_kyber = ([], []), mr_nonce4 = replicate 12 5\<rparr>"

lemma target_root: "\<exists>root. derive_root_keys xor_prims pp (target_kdf_params sl) = Inr root"
  by (rule xor_root_keys) (simp_all add: target_kdf_params_def TARGET_MEMORY_COST_KIB_def TARGET_TIME_COST_def TARGET_LANES_def)

lemma toy_crypto [simp]: "pr_crypto toy_prims = xor_prims"
  by (simp add: toy_prims_def)

text \<open>A vault in its old parameters migrates when the device key opens and it has no second device.\<close>

lemma migration_succeeds:
  assumes P: "prims_ok (pr_crypto P)" and keys: "va_keys st = Some (with_envelope_key mk vk ek)" "length mk = 32"
    "length vk = 32" "length ek = 32" and n: "length n1 = 12" "length n2 = 12"
    and c: "vault_config (va_db st) = Some c" "needs_kdf_migration (vc_parameter_set_version c)"
    and one: "count_active_devices (va_db st) \<le> 1" and v: "vault_state (va_db st) = Some v"
    and root: "derive_root_keys (pr_crypto P) pp (target_kdf_params sl) = Inr root"
    and dev: "get_device_private_key (pr_crypto P) (va_db st) mk = Inr sk"
  shows "\<exists>st1. migrate_kdf_params_if_needed P sl n1 n2 st pp =
    Inr (Migrated (vc_parameter_set_version c) (uint TARGET_PARAMETER_SET_VERSION), st1)"
proof -
  obtain w where w: "wrap_key (pr_crypto P) (kek root) ek = Inr w"
    using prims_wrap [OF P root_keys_props(1) [OF P root] keys(4)] by blast
  obtain legacy where legacy: "seal_legacy_read_key P n1 ek vk (vr_vault_id v) = Inr legacy"
  proof -
    obtain sk where sk: "derive_subkey (pr_crypto P) ek LEGACY_READ_KEY_INFO = Inr sk" "length sk = 32"
      using prims_expand [OF P keys(4)] by (auto simp: derive_subkey_def)
    with box_secret.seal_open [of "(pr_crypto P, n1, sk, str_bytes (vr_vault_id v))" vk] P n that show ?thesis
      by (auto simp: seal_legacy_read_key_def)
  qed
  from dev obtain l blob kk where l: "local_device_identity (va_db st) = Some l" "ld_encrypted_private_key l = Some blob"
    "derive_identity_kek (pr_crypto P) mk = Inr kk" "decrypt_private_key (pr_crypto P) kk blob = Inr sk"
    by (auto simp: get_device_private_key_def get_local_device_identity_def result_elims)
  have sk: "length sk = 32" using l(4) by (auto simp: decrypt_private_key_def result_elims split: if_splits)
  obtain kk' where kk': "derive_identity_kek (pr_crypto P) (master_key root) = Inr kk'" "length kk' = 32"
    using identity_kek [OF P root_keys_props(4) [OF P root]] by blast
  from box_private_key.seal_open [of "(pr_crypto P, n2, kk')" sk] P n sk kk'(2)
  obtain blob' where "encrypt_private_key (pr_crypto P) n2 kk' sk = Inr blob'" by auto
  then have "reseal_device_blob P n2 (va_db st) mk (master_key root) = Inr (Some blob')"
    using l kk' by (simp add: reseal_device_blob_def get_local_device_identity_def reseal_local_device_private_key_def)
  then show ?thesis
    using c one v root w legacy
    by (simp add: migrate_kdf_params_if_needed_def get_vault_config_def get_vault_params_def key_simps [OF keys(1)] Let_def)
qed

definition sealed_identity :: LocalDeviceIdentityRecord where
  "sealed_identity = \<lparr>ld_device_id = ''d1'', ld_device_name = ''pc'', ld_peer_token = '''', ld_created_at = 0, ld_updated_at = 0,
     ld_encrypted_private_key = Some (strict_blob rev_master (replicate 32 7)), ld_public_key = Some (replicate 32 7),
     ld_encrypted_kyber_private_key = Some (strict_blob rev_master (replicate 32 1)), ld_kyber_public_key = Some (replicate 1184 1)\<rparr>"

definition sealed_vault :: vault where
  "sealed_vault = rev_vault\<lparr>va_db := (va_db rev_vault)\<lparr>local_device_identity := Some sealed_identity\<rparr>\<rparr>"

definition old_vault :: vault where
  "old_vault = sealed_vault\<lparr>va_db := (va_db sealed_vault)\<lparr>vault_config := Some \<lparr>vc_salt = replicate 32 4,
     vc_parameter_set_version = 1, vc_memory_cost_kib = 65536, vc_time_cost = 3, vc_lanes = 1\<rparr>\<rparr>\<rparr>"

lemmas sealed_defs = sealed_vault_def rev_vault_def key_vault_def empty_adb_def
lemmas old_vault_defs = old_vault_def sealed_defs

lemma sealed_views:
  assumes keys: "require_master_key st = Inr rev_master" and l: "local_device_identity (va_db st) = Some sealed_identity"
  shows "get_device_private_key (pr_crypto strict_prims) (va_db st) rev_master = Inr (replicate 32 7)"
    and "device_key_view strict_prims st = Inr (Inr (replicate 32 7))"
    and "kyber_key_view strict_prims st = Inr (Inr (replicate 32 1))"
proof -
  have m: "length rev_master = 32" by (simp add: rev_master_def)
  note o = strict_open [of "replicate 32 x" rev_master rev_master for x, simplified]
  show d: "get_device_private_key (pr_crypto strict_prims) (va_db st) rev_master = Inr (replicate 32 7)"
    using strict_open(1) [of "replicate 32 7" rev_master rev_master]
    by (simp add: get_device_private_key_def get_local_device_identity_def l sealed_identity_def strict_identity [OF m] xor.assoc)
  then show "device_key_view strict_prims st = Inr (Inr (replicate 32 7))" by (simp add: device_key_view_def keys)
  show "kyber_key_view strict_prims st = Inr (Inr (replicate 32 1))"
    using strict_open(2) [of "replicate 32 1" rev_master rev_master]
    by (simp add: kyber_key_view_def keys get_device_kyber_private_key_def get_local_device_identity_def l sealed_identity_def
        strict_identity [OF m] xor.assoc)
qed

text \<open>The master key of the passphrase with the new salt, whose identity key opens neither blob.\<close>

lemma next_root:
  assumes "derive_root_keys (pr_crypto strict_prims) [5] p = Inr root" and "salt p = replicate 32 6"
  shows "master_key root = next_master"
  using assms by (auto simp: strict_derives derive_root_keys_def result_elims xor_prims_def next_master_def split: if_splits)

lemma next_master_shut:
  assumes "va_keys st = Some (with_envelope_key next_master vk ek)" and "length p = 32"
  shows "identity_fails strict_prims decrypt_private_key (strict_blob rev_master p) st"
    and "identity_fails strict_prims open_secret_blob (strict_blob rev_master p) st"
proof -
  have n: "length next_master = 32" by (simp add: next_master_def)
  show "identity_fails strict_prims decrypt_private_key (strict_blob rev_master p) st"
    "identity_fails strict_prims open_secret_blob (strict_blob rev_master p) st"
    using strict_kek_differs
    by (simp_all add: identity_fails_def key_simps(2) [OF assms(1)] strict_identity [OF n] strict_open [OF assms(2)])
qed

lemma old_vault_facts: "migration_ready old_vault" "kyber_blob old_vault = Some (strict_blob rev_master (replicate 32 1))"
  "has_kyber_keypair sealed_identity" "local_device_identity (va_db old_vault) = Some sealed_identity"
  by (simp_all add: migration_ready_def old_vault_defs previous_envelope_key_def with_envelope_key_def get_legacy_read_key_def
      rev_master_def kyber_blob_def sealed_identity_def has_kyber_keypair_def ML_KEM_768_ENCAPS_KEY_LEN_def)

lemma old_vault_migrates:
  "\<exists>st1. migrate_kdf_params_if_needed strict_prims (replicate 32 6) (replicate 12 1) (replicate 12 2) old_vault [5] =
     Inr (Migrated 1 2, st1)"
proof -
  obtain root where root: "derive_root_keys (pr_crypto strict_prims) [5] (target_kdf_params (replicate 32 6)) = Inr root"
    using target_root by (auto simp: strict_derives)
  have keys: "va_keys old_vault = Some (with_envelope_key rev_master (replicate 32 2) (replicate 32 8))"
    by (simp add: old_vault_defs)
  have m: "length rev_master = 32" by (simp add: rev_master_def)
  have c: "vault_config (va_db old_vault) = Some \<lparr>vc_salt = replicate 32 4, vc_parameter_set_version = 1,
      vc_memory_cost_kib = 65536, vc_time_cost = 3, vc_lanes = 1\<rparr>" "count_active_devices (va_db old_vault) \<le> 1"
    by (simp_all add: old_vault_defs count_active_devices_def)
  obtain v where v: "vault_state (va_db old_vault) = Some v" by (simp add: old_vault_defs)
  note dev = sealed_views(1) [OF key_simps(2) [OF keys] old_vault_facts(4)]
  have one: "needs_kdf_migration (vc_parameter_set_version \<lparr>vc_salt = replicate 32 4, vc_parameter_set_version = 1,
      vc_memory_cost_kib = 65536, vc_time_cost = 3, vc_lanes = 1\<rparr>)"
    by (simp add: needs_kdf_migration_def TARGET_PARAMETER_SET_VERSION_def)
  from migration_succeeds [OF strict_prims_ok keys m length_replicate length_replicate length_replicate [of 12 1]
      length_replicate [of 12 2] c(1) one c(2) v root dev] show ?thesis
    by (simp add: TARGET_PARAMETER_SET_VERSION_def)
qed

theorem kdf_migration_keeps_secrets_witness:
  "\<exists>st1 st2. migrate_kdf_params_if_needed strict_prims (replicate 32 6) (replicate 12 1) (replicate 12 2) old_vault [5] =
       Inr (Migrated 1 2, st1) \<and>
     unlock strict_prims toy_rnd (lock st1) [5] = (Inr \<lparr>ur_initialized = False, ur_unlocked = True\<rparr>, st2) \<and>
     secrets_view strict_prims st2 = secrets_view strict_prims old_vault \<and>
     device_key_view strict_prims old_vault = Inr (Inr (replicate 32 7)) \<and>
     kyber_key_view strict_prims old_vault = Inr (Inr (replicate 32 1)) \<and> kyber_key_view strict_prims st1 = Inr (Inl Id_Crypto)"
proof -
  from old_vault_migrates obtain st1 where
    st1: "migrate_kdf_params_if_needed strict_prims (replicate 32 6) (replicate 12 1) (replicate 12 2) old_vault [5] =
       Inr (Migrated 1 2, st1)" by blast
  have keys: "va_keys old_vault = Some (with_envelope_key rev_master (replicate 32 2) (replicate 32 8))"
    by (simp add: old_vault_defs)
  note views = sealed_views(2,3) [OF key_simps(2) [OF keys] old_vault_facts(4)]
  from migrate_result [OF keys st1] obtain root where "derive_root_keys (pr_crypto strict_prims) [5] (target_kdf_params (replicate 32 6)) = Inr root"
    "va_keys st1 = Some (with_envelope_key (master_key root) (vault_key root) (replicate 32 8))" by auto
  with next_root have "va_keys st1 = Some (with_envelope_key next_master (vault_key root) (replicate 32 8))"
    by (simp add: target_kdf_params_def)
  note shut = next_master_shut(2) [OF this length_replicate]
  note kept = kdf_migration_keeps_secrets [OF strict_prims_ok old_vault_facts(1) length_replicate length_replicate list.distinct(2) st1,
      of toy_rnd, THEN conjunct1, rule_format, OF refl]
  from kept [THEN conjunct2, THEN conjunct2, THEN conjunct2, THEN conjunct1] obtain st2 where
    st2: "unlock strict_prims toy_rnd (lock st1) [5] = (Inr \<lparr>ur_initialized = False, ur_unlocked = True\<rparr>, st2)"
    "secrets_view strict_prims st2 = secrets_view strict_prims old_vault" by (elim exE conjE)
  from kept [THEN conjunct2, THEN conjunct2, THEN conjunct2, THEN conjunct2, THEN conjunct2, THEN conjunct2, rule_format,
      OF old_vault_facts(4,3,2) views(2) shut] have "kyber_key_view strict_prims st1 = Inr (Inl Id_Crypto)" by blast
  with st1 st2 views show ?thesis by blast
qed

lemma strict_rotates: "rotate_vault_key strict_prims = rotate_vault_key toy_prims"
proof -
  have "rewrap_all strict_prims a b ks = rewrap_all toy_prims a b ks" for a b ks
    by (induction ks) (simp_all add: strict_derives)
  then show ?thesis by (intro ext) (simp add: rotate_vault_key_def plan_rotation_def strict_derives)
qed

theorem passphrase_change_strands_device_key_witness:
  "\<exists>res st1 st2 st3. rotate_vault_key strict_prims (replicate 32 6) (replicate 32 9) None sealed_vault [5] = (Inr res, st1) \<and>
     device_key_view strict_prims sealed_vault = Inr (Inr (replicate 32 7)) \<and>
     device_key_view strict_prims st1 = Inr (Inl Id_Crypto) \<and>
     unlock strict_prims toy_rnd (lock st1) [5] = (Inr \<lparr>ur_initialized = False, ur_unlocked = True\<rparr>, st2) \<and>
     run_post_unlock_maintenance strict_prims quiet_rnd 9 st2 [5] = (Inr (), st3) \<and>
     device_key_view strict_prims st3 = Inr (Inl Id_Crypto)"
proof -
  have keys: "va_keys sealed_vault = Some (with_envelope_key rev_master (replicate 32 2) (replicate 32 8))"
    by (simp add: sealed_defs)
  have tabs: "vault_config (va_db sealed_vault) = vault_config (va_db key_vault)"
    "data_encryption_keys (va_db sealed_vault) = data_encryption_keys (va_db key_vault)"
    by (simp_all add: sealed_vault_def rev_vault_def)
  from key_vault_rotates [OF tabs key_simps(3) [OF keys]] obtain res st1 where
    r: "rotate_vault_key strict_prims (replicate 32 6) (replicate 32 9) None sealed_vault [5] = (Inr res, st1)"
    by (auto simp: strict_rotates)
  have ok: "keys_ok (va_db sealed_vault)" by (simp add: keys_ok_def sealed_defs)
  have l: "local_device_identity (va_db sealed_vault) = Some sealed_identity" "has_keypair sealed_identity"
    "ld_encrypted_private_key sealed_identity = Some (strict_blob rev_master (replicate 32 7))"
    by (simp_all add: sealed_vault_def sealed_identity_def has_keypair_def)
  obtain v where v: "vault_state (va_db sealed_vault) = Some v" by (simp add: sealed_defs)
  note before = sealed_views(2) [OF key_simps(2) [OF keys] l(1)]
  from rotate_result [OF strict_prims_ok ok length_replicate r] obtain old root params g rs w where
    rot: "rotation_of strict_prims (replicate 32 9) sealed_vault [5] old root params g rs w"
      "plan_rotation strict_prims (replicate 32 6) (replicate 32 9) sealed_vault [5] = Inr (root, params, g, rs, rotation_writes params w g rs)"
      "va_keys st1 = Some (with_envelope_key (master_key root) (vault_key root) (replicate 32 9))" by (elim exE conjE)
  have "salt params = replicate 32 6"
    using rotate_plan [OF rot(2)] by (auto simp: to_root_kdf_params_def result_elims)
  moreover have "derive_root_keys (pr_crypto strict_prims) [5] params = Inr root" using rot(1) by (simp add: rotation_of_def)
  ultimately have "va_keys st1 = Some (with_envelope_key next_master (vault_key root) (replicate 32 9))"
    using next_root rot(3) by simp
  from passphrase_change_strands_device_key [OF strict_prims_ok ok v length_replicate r l before next_master_shut(1) [OF this length_replicate],
      of toy_rnd quiet_rnd 9] r before show ?thesis by blast
qed

lemma short_blob_shut: "decrypt_private_key P k [] = Inl Id_Crypto"
  by (simp add: decrypt_private_key_def)

theorem failed_revocation_loses_keys_witness:
  "\<exists>st1 st2. rotate_for_revocation toy_prims (replicate 32 9) stranded_vault = (Inl (InvalidConfig ''identity''), st1) \<and>
     unlock toy_prims toy_rnd (lock st1) [5] = (Inr \<lparr>ur_initialized = False, ur_unlocked = True\<rparr>, st2) \<and>
     map dk_dek_id (data_encryption_keys (va_db st2)) = [1] \<and>
     (\<forall>d \<in> set (data_encryption_keys (va_db st2)). \<exists>e. unwrap_dek_bytes toy_prims st2 (dk_wrapped_dek d) = Inl e)"
proof -
  have pw: "unlocked_by toy_prims [5] stranded_vault"
    using rev_vault_unlocked by (simp add: unlocked_by_def stranded_vault_def)
  have none: "opens_none toy_prims (replicate 32 9) stranded_vault"
    using rev_vault_none by (simp add: opens_none_def stranded_vault_def)
  have keys: "va_keys stranded_vault = Some (with_envelope_key rev_master (replicate 32 2) (replicate 32 8))"
    by (simp add: stranded_defs)
  have m: "length rev_master = 32" by (simp add: rev_master_def)
  define v where "v = the (vault_state (va_db stranded_vault))"
  have v: "vault_state (va_db stranded_vault) = Some v" by (simp add: v_def stranded_defs)
  from identity_kek [OF xor_prims_ok m] obtain kk where "derive_identity_kek xor_prims rev_master = Inr kk" by blast
  moreover have "map_option ld_encrypted_private_key (local_device_identity (va_db stranded_vault)) = Some (Some [])"
    by (simp add: stranded_vault_def)
  ultimately have dev: "device_key_view toy_prims stranded_vault = Inr (Inl Id_Crypto)"
    by (auto simp: device_key_view_def key_simps [OF keys] get_device_private_key_def get_local_device_identity_def short_blob_shut)
  have ids: "map dk_dek_id (data_encryption_keys (va_db stranded_vault)) = [1]" by (simp add: stranded_defs)
  from failed_revocation_loses_keys [OF toy_prims_ok(1) length_replicate pw none keys m v dev, of toy_rnd] obtain st1 st2 where
    q: "rotate_for_revocation toy_prims (replicate 32 9) stranded_vault = (Inl (InvalidConfig ''identity''), st1)"
      "unlock toy_prims toy_rnd (lock st1) [5] = (Inr \<lparr>ur_initialized = False, ur_unlocked = True\<rparr>, st2)"
      "map dk_dek_id (data_encryption_keys (va_db st2)) = map dk_dek_id (data_encryption_keys (va_db stranded_vault))"
      "\<forall>d \<in> set (data_encryption_keys (va_db st2)). \<exists>e. unwrap_dek_bytes toy_prims st2 (dk_wrapped_dek d) = Inl e"
    by (elim exE conjE)
  show ?thesis by (intro exI conjI, rule q(1), rule q(2), rule trans [OF q(3) ids], rule q(4))
qed

end
