(* ===== verification/VaultApi.thy ===== *)
theory VaultApi
  imports Access VaultMigration
begin

text \<open>
  The HTTP handlers of \<^verbatim>\<open>api/vault.rs\<close>: invitations, joining, accepting and adding devices, revoking a device,
  removing a member, locking and rotating the key. A handler takes the database and the keys (\<open>vault\<close>), the clock,
  the \<open>Authorization\<close> header and its request, and returns an answer together with the state it leaves. Keys travel
  base64url-encoded; the decoder is a parameter (\<open>b64\<close>), and answers carry the bytes. Random codes, keys and nonces
  are arguments. Sums of times are taken not to leave the range of \<open>i64\<close>.
\<close>

definition dec_int :: "int \<Rightarrow> string" where
  "dec_int i = (if i < 0 then ''-'' @ dec_nat (nat (- i)) else dec_nat (nat i))"

definition json_bool :: "bool \<Rightarrow> string" where
  "json_bool b = (if b then ''true'' else ''false'')"

text \<open>A write whose failure is only logged.\<close>

definition or_warn :: "adb \<Rightarrow> sqlx_error + adb \<Rightarrow> adb" where
  "or_warn s r = (case r of Inr s' \<Rightarrow> s' | Inl _ \<Rightarrow> s)"

lemma or_warn_simps [simp]: "or_warn s (Inr s') = s'" "or_warn s (Inl e) = s"
  by (simp_all add: or_warn_def)

definition audit ::
  "adb \<Rightarrow> int \<Rightarrow> string \<Rightarrow> string \<Rightarrow> string option \<Rightarrow> string option \<Rightarrow> string option \<Rightarrow> string option \<Rightarrow> string option \<Rightarrow> adb" where
  "audit s now vault_id action actor_user actor_device target_user target_device details =
     snd (insert_audit_log s now vault_id action actor_user actor_device target_user target_device details)"

section \<open>Health and status\<close>

definition api_vault_health :: "vault \<Rightarrow> int \<Rightarrow> string option \<Rightarrow> ApiError + VaultHealthSummary" where
  "api_vault_health st now header =
     bindR (require_role (va_db st) now header Viewer) (\<lambda>_. Inr (get_vault_health_summary (ad_core (va_db st))))"

record VaultStatus =
  st_unlocked :: bool
  st_initialized :: bool
  st_members_count :: int
  st_multi_user :: bool

definition api_vault_status :: "vault \<Rightarrow> VaultStatus" where
  "api_vault_status st =
     (let unlocked = (case require_key st of Inr _ \<Rightarrow> True | Inl _ \<Rightarrow> False);
          initialized = get_vault_config (va_db st) \<noteq> None;
          members = (case get_vault_params (va_db st) of
                       Some v \<Rightarrow> count_vault_members (va_db st) (vr_vault_id v) | None \<Rightarrow> 0)
      in \<lparr>st_unlocked = unlocked, st_initialized = initialized \<or> unlocked, st_members_count = members,
          st_multi_user = 1 < members\<rparr>)"

section \<open>Invitations\<close>

record InviteResponse =
  ir_code :: string
  ir_role :: string
  ir_max_uses :: int
  ir_expires_at :: "int option"

definition post_vault_invite ::
  "vault \<Rightarrow> int \<Rightarrow> string option \<Rightarrow> string \<Rightarrow> string option \<Rightarrow> int option \<Rightarrow> int option
     \<Rightarrow> (ApiError + InviteResponse) \<times> vault" where
  "post_vault_invite st now header code role_opt max_uses_opt expires_in =
     (case require_role (va_db st) now header Admin of
        Inl e \<Rightarrow> (Inl e, st)
      | Inr caller \<Rightarrow>
          let role = coalesce role_opt ''member'';
              max_uses = coalesce max_uses_opt 1;
              expires_at = map_option (\<lambda>secs. now + secs) expires_in
          in case create_invite_code (va_db st) now code (ca_vault_id caller) (ca_user_id caller) role max_uses expires_at of
               Inl _ \<Rightarrow> (Inl Internal, st)
             | Inr s1 \<Rightarrow>
                 (Inr \<lparr>ir_code = code, ir_role = role, ir_max_uses = max_uses, ir_expires_at = expires_at\<rparr>,
                  st\<lparr>va_db := audit s1 now (ca_vault_id caller) ''create_invite'' (Some (ca_user_id caller))
                      (Some (ca_device_id caller)) None None
                      (Some (''{\"role\":\"'' @ role @ ''\",\"max_uses\":'' @ dec_int max_uses @ ''}''))\<rparr>))"

record JoinResponse =
  jr_user_id :: string
  jr_device_id :: string
  jr_role :: string

text \<open>
  Joining reads and checks the code first and writes afterwards; nothing holds a lock in between, so the two halves
  of two requests may interleave. The result of consuming the code is not looked at.
\<close>

definition join_check ::
  "(string \<Rightarrow> bytes option) \<Rightarrow> adb \<Rightarrow> int \<Rightarrow> string \<Rightarrow> string \<Rightarrow> ApiError + InviteCodeRecord \<times> bytes" where
  "join_check b64 s now invite_code public_key =
     bindR (ok_or (BadRequest ''invalid_invite_code'') (get_invite_code s invite_code)) (\<lambda>invite.
       if \<not> is_invite_code_valid now invite then Inl (BadRequest ''invite_expired_or_exhausted'')
       else (case b64 public_key of
               Some pk \<Rightarrow> if length pk = 32 then Inr (invite, pk) else Inl (BadRequest ''invalid_public_key'')
             | None \<Rightarrow> Inl (BadRequest ''invalid_public_key'')))"

definition join_commit ::
  "adb \<Rightarrow> int \<Rightarrow> InviteCodeRecord \<Rightarrow> bytes \<Rightarrow> string \<Rightarrow> string \<Rightarrow> string \<Rightarrow> JoinResponse \<times> adb" where
  "join_commit s now invite public_key invite_code device_id device_name =
     (let s1 = snd (consume_invite_code s invite_code);
          user_id = ''user-'' @ device_id;
          s2 = or_warn s1 (create_user s1 now user_id device_name None ''local'' None);
          s3 = or_warn s2 (create_device s2 now device_id user_id device_name public_key);
          s4 = or_warn s3 (add_vault_member s3 now user_id (ic_vault_id invite) (ic_role invite) (Some (ic_created_by invite)))
      in (\<lparr>jr_user_id = user_id, jr_device_id = device_id, jr_role = ic_role invite\<rparr>,
          audit s4 now (ic_vault_id invite) ''join'' (Some user_id) (Some device_id) None None
            (Some (''{\"invite_code\":\"[REDACTED]\",\"role\":\"'' @ ic_role invite @ ''\"}''))))"

definition post_vault_join ::
  "(string \<Rightarrow> bytes option) \<Rightarrow> vault \<Rightarrow> int \<Rightarrow> string \<Rightarrow> string \<Rightarrow> string \<Rightarrow> string \<Rightarrow> (ApiError + JoinResponse) \<times> vault" where
  "post_vault_join b64 st now invite_code device_id device_name public_key =
     (case join_check b64 (va_db st) now invite_code public_key of
        Inl e \<Rightarrow> (Inl e, st)
      | Inr (invite, pk) \<Rightarrow>
          (case join_commit (va_db st) now invite pk invite_code device_id device_name of
             (resp, s') \<Rightarrow> (Inr resp, st\<lparr>va_db := s'\<rparr>)))"

section \<open>Giving a device the vault key\<close>

text \<open>The checks on a device before it is given the key, in their order.\<close>

definition accept_check :: "DeviceRecord \<Rightarrow> ApiError + bytes" where
  "accept_check d =
     (if dv_wrapped_vault_key d \<noteq> None then Inl Conflict
      else if dv_revoked_at d \<noteq> None then Inl Forbidden
      else if dv_enrolled_at d = None then Inl Conflict
      else if length (dv_public_key d) \<noteq> 32 then Inl (BadRequest ''invalid_device_public_key'')
      else if dv_public_key d = zero_key then Inl (BadRequest ''low_order_pubkey'')
      else Inr (dv_public_key d))"

definition store_hybrid_wrap ::
  "prims \<Rightarrow> bytes \<Rightarrow> adb \<Rightarrow> bytes \<Rightarrow> bytes \<Rightarrow> bytes \<Rightarrow> string \<Rightarrow> string \<Rightarrow> bytes option \<Rightarrow> adb" where
  "store_hybrid_wrap P rnd s own member_pubkey ek vault_id device_id kyber =
     (case kyber of
        None \<Rightarrow> s
      | Some kyber_ek \<Rightarrow>
          (case hybrid_wrap_vault_key_for_device (pr_crypto P) (pr_kem P) (pr_dh P) rnd own member_pubkey kyber_ek ek
                  vault_id device_id of
             Inr wrapped_kyber \<Rightarrow> set_device_wrapped_vault_key_kyber s device_id wrapped_kyber
           | Inl _ \<Rightarrow> s))"

definition post_accept_device ::
  "prims \<Rightarrow> bytes \<Rightarrow> vault \<Rightarrow> int \<Rightarrow> string option \<Rightarrow> string \<Rightarrow> (ApiError + string \<times> string) \<times> vault" where
  "post_accept_device P rnd st now header target_device_id =
     (case bindR (require_role (va_db st) now header Admin) (\<lambda>caller.
           bindR (map_err (\<lambda>_. Locked_api) (require_master_key st)) (\<lambda>mk.
           bindR (map_err (\<lambda>_. BadRequest ''no_envelope_key'') (require_envelope_key st)) (\<lambda>ek.
           bindR (map_err (\<lambda>_. Internal) (get_device_private_key (pr_crypto P) (va_db st) mk)) (\<lambda>own.
           bindR (ok_or (NotFound ''device'' target_device_id) (get_device (va_db st) target_device_id)) (\<lambda>target.
           bindR (accept_check target) (\<lambda>member_pubkey.
           bindR (map_err (\<lambda>_. Internal) (wrap_vault_key_for_device (pr_crypto P) (pr_kem P) (pr_dh P) own member_pubkey ek)) (\<lambda>wrapped.
             Inr (caller, ek, own, target, member_pubkey, wrapped)))))))) of
        Inl e \<Rightarrow> (Inl e, st)
      | Inr (caller, ek, own, target, member_pubkey, wrapped) \<Rightarrow>
          let s1 = snd (set_device_wrapped_vault_key (va_db st) target_device_id wrapped 1);
              s2 = store_hybrid_wrap P rnd s1 own member_pubkey ek (ca_vault_id caller) target_device_id
                (dv_kyber_public_key target)
          in (Inr (target_device_id, dv_user_id target),
              st\<lparr>va_db := audit s2 now (ca_vault_id caller) ''accept_device'' None None (Some (dv_user_id target))
                  (Some target_device_id) None\<rparr>))"

definition find_owner_public_key :: "adb \<Rightarrow> bytes option" where
  "find_owner_public_key s =
     Option.bind (get_local_device_identity s) (\<lambda>device.
     Option.bind (ld_public_key device) (\<lambda>pubkey.
       if length pubkey = 32 \<and> pubkey \<noteq> zero_key then Some pubkey else None))"

record WrappedKeyResponse =
  wk_wrapped_vault_key :: "bytes option"
  wk_vault_key_generation :: "int option"
  wk_owner_public_key :: "bytes option"
  wk_status :: string

definition get_my_wrapped_key :: "vault \<Rightarrow> int \<Rightarrow> string option \<Rightarrow> string option \<Rightarrow> ApiError + WrappedKeyResponse" where
  "get_my_wrapped_key st now header device_param =
     bindR (require_role (va_db st) now header Viewer) (\<lambda>caller.
     bindR (ok_or (BadRequest ''missing_device_id'') device_param) (\<lambda>device_id.
       if device_id \<noteq> ca_device_id caller then Inl Forbidden
       else
         bindR (ok_or (NotFound ''device'' device_id) (get_device (va_db st) device_id)) (\<lambda>device.
           if dv_revoked_at device \<noteq> None then Inl Forbidden
           else Inr \<lparr>wk_wrapped_vault_key = dv_wrapped_vault_key device,
             wk_vault_key_generation = dv_vault_key_generation device,
             wk_owner_public_key = (if dv_wrapped_vault_key device = None then None else find_owner_public_key (va_db st)),
             wk_status = (if dv_wrapped_vault_key device = None then ''pending_acceptance'' else ''ready'')\<rparr>)))"

definition member_devices :: "adb \<Rightarrow> string \<Rightarrow> DeviceRecord list" where
  "member_devices s vault_id = concat (map (\<lambda>m. list_devices_for_user s (vm_user_id m)) (list_vault_members s vault_id))"

definition get_pending_devices :: "vault \<Rightarrow> int \<Rightarrow> string option \<Rightarrow> ApiError + DeviceRecord list" where
  "get_pending_devices st now header =
     bindR (require_role (va_db st) now header Admin) (\<lambda>caller.
       Inr (filter (\<lambda>d. dv_wrapped_vault_key d = None \<and> dv_revoked_at d = None \<and> dv_public_key d \<noteq> zero_key)
         (member_devices (va_db st) (ca_vault_id caller))))"

section \<open>Adding a device of a member\<close>

text \<open>
  The key is wrapped and stored before the public key of this device is looked at, so the wrap may stay in the table
  although the answer does not report it.
\<close>

definition auto_wrap_plan ::
  "prims \<Rightarrow> vault \<Rightarrow> string \<Rightarrow> bytes \<Rightarrow> (bytes \<times> int) option" where
  "auto_wrap_plan P st target_device_id target_public_key =
     (case (require_master_key st, require_envelope_key st) of
        (Inr mk, Inr ek) \<Rightarrow>
          (case (get_device_private_key (pr_crypto P) (va_db st) mk, get_device (va_db st) target_device_id) of
             (Inr own, Some target) \<Rightarrow>
               if dv_revoked_at target \<noteq> None \<or> dv_enrolled_at target = None then None
               else if length target_public_key \<noteq> 32 then None
               else (case wrap_vault_key_for_device (pr_crypto P) (pr_kem P) (pr_dh P) own target_public_key ek of
                       Inr wrapped \<Rightarrow> Some (wrapped, current_vault_key_generation (va_db st))
                     | Inl _ \<Rightarrow> None)
           | _ \<Rightarrow> None)
      | _ \<Rightarrow> None)"

definition try_auto_wrap_vault_key ::
  "prims \<Rightarrow> vault \<Rightarrow> int \<Rightarrow> string \<Rightarrow> bytes \<Rightarrow> string \<Rightarrow> (bytes \<times> int \<times> bytes) option \<times> vault" where
  "try_auto_wrap_vault_key P st now target_device_id target_public_key vault_id =
     (case auto_wrap_plan P st target_device_id target_public_key of
        None \<Rightarrow> (None, st)
      | Some (wrapped, vk_gen) \<Rightarrow>
          let s1 = snd (set_device_wrapped_vault_key (va_db st) target_device_id wrapped vk_gen)
          in case find_owner_public_key s1 of
               None \<Rightarrow> (None, st\<lparr>va_db := s1\<rparr>)
             | Some pub \<Rightarrow>
                 (Some (wrapped, vk_gen, pub),
                  st\<lparr>va_db := audit s1 now vault_id ''auto_accept_device'' None (Some target_device_id) None None
                      (Some ''{\"reason\":\"existing_member_auto_accept\"}'')\<rparr>))"

record AddDeviceResponse =
  ad_status :: string
  ad_device_id :: string
  ad_user_id :: string
  ad_wrapped :: "(bytes \<times> int \<times> bytes) option"

definition add_device_check ::
  "(string \<Rightarrow> bytes option) \<Rightarrow> adb \<Rightarrow> string \<Rightarrow> string \<Rightarrow> string \<Rightarrow> ApiError + string \<times> bytes" where
  "add_device_check b64 s user_id device_id public_key =
     bindR (ok_or (BadRequest ''vault_not_initialized'') (get_vault_params s)) (\<lambda>v.
     bindR (ok_or Forbidden (get_vault_member s user_id (vr_vault_id v))) (\<lambda>_.
     bindR (case b64 public_key of
              Some pk \<Rightarrow> if length pk = 32 then Inr pk else Inl (BadRequest ''invalid_public_key'')
            | None \<Rightarrow> Inl (BadRequest ''invalid_public_key'')) (\<lambda>pk.
       case get_device s device_id of
         None \<Rightarrow> Inr (vr_vault_id v, pk)
       | Some existing \<Rightarrow>
           if dv_revoked_at existing \<noteq> None then Inl Forbidden
           else if dv_wrapped_vault_key existing \<noteq> None then Inl Conflict
           else Inr (vr_vault_id v, pk))))"

definition post_add_device ::
  "(string \<Rightarrow> bytes option) \<Rightarrow> prims \<Rightarrow> vault \<Rightarrow> int \<Rightarrow> string option \<Rightarrow> string \<Rightarrow> string \<Rightarrow> string \<Rightarrow> string
     \<Rightarrow> (ApiError + AddDeviceResponse) \<times> vault" where
  "post_add_device b64 P st now header user_id device_id device_name public_key =
     (case bindR (require_role (va_db st) now header Admin) (\<lambda>_. add_device_check b64 (va_db st) user_id device_id public_key) of
        Inl e \<Rightarrow> (Inl e, st)
      | Inr (vault_id, pk) \<Rightarrow>
          let st1 = st\<lparr>va_db := or_warn (va_db st) (create_device (va_db st) now device_id user_id device_name pk)\<rparr>;
              (accepted, st2) = try_auto_wrap_vault_key P st1 now device_id pk vault_id
          in (Inr \<lparr>ad_status = (if accepted = None then ''pending_acceptance'' else ''accepted''), ad_device_id = device_id,
                   ad_user_id = user_id, ad_wrapped = accepted\<rparr>,
              st2\<lparr>va_db := audit (va_db st2) now vault_id ''add_device'' (Some user_id) (Some device_id) None None
                  (Some (''{\"auto_accepted\":'' @ json_bool (accepted \<noteq> None) @ '',\"device_name\":\"'' @ device_name @ ''\"}''))\<rparr>))"

section \<open>Revoking a device, removing a member\<close>

text \<open>A failed rotation is logged; the answer then carries no rotation, and what the rotation wrote stays.\<close>

definition rotate_and_warn :: "prims \<Rightarrow> bytes \<Rightarrow> vault \<Rightarrow> RevocationRotationResult option \<times> vault" where
  "rotate_and_warn P rnd_key st =
     (case rotate_for_revocation P rnd_key st of (Inr r, st') \<Rightarrow> (Some r, st') | (Inl _, st') \<Rightarrow> (None, st'))"

record RevokeResponse =
  rv_device_id :: string
  rv_user_id :: string
  rv_remaining :: nat
  rv_rotation :: "RevocationRotationResult option"

definition post_revoke_device ::
  "prims \<Rightarrow> bytes \<Rightarrow> vault \<Rightarrow> int \<Rightarrow> string option \<Rightarrow> string \<Rightarrow> (ApiError + RevokeResponse) \<times> vault" where
  "post_revoke_device P rnd_key st now header target_device_id =
     (case bindR (require_role (va_db st) now header Admin) (\<lambda>caller.
           if ca_device_id caller = target_device_id then Inl (BadRequest ''cannot_revoke_self'')
           else bindR (ok_or (NotFound ''device'' target_device_id) (get_device (va_db st) target_device_id)) (\<lambda>target.
             if dv_revoked_at target \<noteq> None then Inl Conflict else Inr (caller, target))) of
        Inl e \<Rightarrow> (Inl e, st)
      | Inr (caller, target) \<Rightarrow>
          let s1 = snd (revoke_device (va_db st) now target_device_id);
              s2 = audit s1 now (ca_vault_id caller) ''revoke_device'' (Some (ca_user_id caller)) (Some (ca_device_id caller))
                     (Some (dv_user_id target)) (Some target_device_id)
                     (Some (''{\"device_name\":\"'' @ dv_device_name target @ ''\",\"user_id\":\"'' @ dv_user_id target @ ''\"}''));
              remaining = length (get_active_devices_for_user s2 (dv_user_id target));
              (rotation, st') = rotate_and_warn P rnd_key (st\<lparr>va_db := s2\<rparr>)
          in (Inr \<lparr>rv_device_id = target_device_id, rv_user_id = dv_user_id target, rv_remaining = remaining,
                   rv_rotation = rotation\<rparr>, st'))"

record RemoveResponse =
  rm_user_id :: string
  rm_devices_revoked :: nat
  rm_rotation :: "RevocationRotationResult option"

fun revoke_all :: "int \<Rightarrow> DeviceRecord list \<Rightarrow> nat \<times> adb \<Rightarrow> nat \<times> adb" where
  "revoke_all now [] acc = acc"
| "revoke_all now (d # ds) (n, s) =
     (if dv_revoked_at d = None
      then (case revoke_device s now (dv_device_id d) of (ok, s') \<Rightarrow> revoke_all now ds (if ok then n + 1 else n, s'))
      else revoke_all now ds (n, s))"

definition post_remove_member ::
  "prims \<Rightarrow> bytes \<Rightarrow> vault \<Rightarrow> int \<Rightarrow> string option \<Rightarrow> string \<Rightarrow> (ApiError + RemoveResponse) \<times> vault" where
  "post_remove_member P rnd_key st now header target_user_id =
     (case bindR (require_role (va_db st) now header Admin) (\<lambda>caller.
           if ca_user_id caller = target_user_id then Inl (BadRequest ''cannot_remove_self'')
           else (case get_vault_member (va_db st) target_user_id (ca_vault_id caller) of
                   None \<Rightarrow> Inl (NotFound ''member'' target_user_id)
                 | Some m \<Rightarrow> if vm_role m = ''owner'' then Inl Forbidden else Inr caller)) of
        Inl e \<Rightarrow> (Inl e, st)
      | Inr caller \<Rightarrow>
          let (devices_revoked, s1) = revoke_all now (list_devices_for_user (va_db st) target_user_id) (0, va_db st);
              s2 = snd (remove_vault_member s1 target_user_id (ca_vault_id caller));
              s3 = audit s2 now (ca_vault_id caller) ''remove_member'' (Some (ca_user_id caller)) (Some (ca_device_id caller))
                     (Some target_user_id) None (Some (''{\"devices_revoked\":'' @ dec_nat devices_revoked @ ''}''));
              (rotation, st') = rotate_and_warn P rnd_key (st\<lparr>va_db := s3\<rparr>)
          in (Inr \<lparr>rm_user_id = target_user_id, rm_devices_revoked = devices_revoked, rm_rotation = rotation\<rparr>, st'))"

section \<open>Devices, locking, rotation\<close>

definition get_vault_devices :: "vault \<Rightarrow> int \<Rightarrow> string option \<Rightarrow> ApiError + DeviceRecord list" where
  "get_vault_devices st now header =
     bindR (require_role (va_db st) now header Viewer) (\<lambda>caller. Inr (member_devices (va_db st) (ca_vault_id caller)))"

record RewrapStatus =
  rs_total :: int
  rs_done :: int
  rs_pending :: int
  rs_failed :: int
  rs_complete :: bool

definition api_rewrap_status :: "vault \<Rightarrow> int \<Rightarrow> string option \<Rightarrow> ApiError + RewrapStatus" where
  "api_rewrap_status st now header =
     bindR (require_role (va_db st) now header Viewer) (\<lambda>_.
       case get_rewrap_status (va_db st) of (all, pending, failed) \<Rightarrow>
         Inr \<lparr>rs_total = all, rs_done = all - pending - failed, rs_pending = pending, rs_failed = failed,
              rs_complete = (pending = 0 \<and> failed = 0)\<rparr>)"

definition post_vault_lock :: "vault \<Rightarrow> int \<Rightarrow> string option \<Rightarrow> (ApiError + unit) \<times> vault" where
  "post_vault_lock st now header =
     (case bindR (require_role (va_db st) now header Admin) (\<lambda>caller.
           case require_key st of Inl _ \<Rightarrow> Inl Conflict | Inr _ \<Rightarrow> Inr caller) of
        Inl e \<Rightarrow> (Inl e, st)
      | Inr caller \<Rightarrow>
          (Inr (), (lock st)\<lparr>va_db := audit (va_db st) now (ca_vault_id caller) ''vault_locked'' (Some (ca_user_id caller))
             (Some (ca_device_id caller)) None None None\<rparr>))"

definition checked_rotation ::
  "prims \<Rightarrow> bytes \<Rightarrow> bytes \<Rightarrow> write_fault \<Rightarrow> vault \<Rightarrow> bytes \<Rightarrow> bytes \<Rightarrow> (ApiError + RotationResult) \<times> vault" where
  "checked_rotation P rnd_salt rnd_key fail_at st old_passphrase new_passphrase =
     (if new_passphrase = [] then (Inl (BadRequest ''empty_passphrase''), st)
      else case verify_passphrase P st old_passphrase of
             Inl _ \<Rightarrow> (Inl Internal, st)
           | Inr False \<Rightarrow> (Inl (BadRequest ''wrong_passphrase''), st)
           | Inr True \<Rightarrow>
               (case rotate_vault_key P rnd_salt rnd_key fail_at st new_passphrase of
                  (Inl _, st') \<Rightarrow> (Inl Internal, st')
                | (Inr r, st') \<Rightarrow> (Inr r, st')))"

definition post_rotate_key ::
  "prims \<Rightarrow> bytes \<Rightarrow> bytes \<Rightarrow> write_fault \<Rightarrow> vault \<Rightarrow> int \<Rightarrow> string option \<Rightarrow> bytes \<Rightarrow> bytes \<Rightarrow> (ApiError + unit) \<times> vault" where
  "post_rotate_key P rnd_salt rnd_key fail_at st now header old_passphrase new_passphrase =
     (case require_role (va_db st) now header Admin of
        Inl e \<Rightarrow> (Inl e, st)
      | Inr caller \<Rightarrow>
          (case checked_rotation P rnd_salt rnd_key fail_at st old_passphrase new_passphrase of
             (Inl e, st') \<Rightarrow> (Inl e, st')
           | (Inr _, st') \<Rightarrow>
               (Inr (), st'\<lparr>va_db := audit (va_db st') now (ca_vault_id caller) ''rotate_vk'' (Some (ca_user_id caller))
                  (Some (ca_device_id caller)) None None None\<rparr>)))"

definition post_verify_device :: "vault \<Rightarrow> int \<Rightarrow> string option \<Rightarrow> string \<Rightarrow> (ApiError + int) \<times> vault" where
  "post_verify_device st now header target_device_id =
     (case bindR (require_role (va_db st) now header Admin) (\<lambda>_.
           ok_or (NotFound ''device'' target_device_id) (get_device (va_db st) target_device_id)) of
        Inl e \<Rightarrow> (Inl e, st)
      | Inr _ \<Rightarrow> (Inr now, st\<lparr>va_db := set_device_safety_verified (va_db st) now target_device_id\<rparr>))"

end
