(* ===== verification/VaultApiProofs.thy ===== *)
theory VaultApiProofs
  imports VaultApi
begin

text \<open>
  Correctness of the handlers of \<open>VaultApi\<close>: what removing a member and revoking a device leave of their access, and
  how often an invitation can be used.
\<close>

section \<open>What a rotation does to the devices\<close>

text \<open>A device row after a rotation: as before, or an active device with a new wrap of the key.\<close>

definition rewrapped_from :: "DeviceRecord \<Rightarrow> DeviceRecord \<Rightarrow> bool" where
  "rewrapped_from d d' \<longleftrightarrow> d' = d \<or>
     active_device d \<and> (\<exists>w g. d' = d\<lparr>dv_wrapped_vault_key := Some w, dv_vault_key_generation := Some g\<rparr>)"

lemma rewrapped_from_refl [simp]: "rewrapped_from d d"
  by (simp add: rewrapped_from_def)

lemma rewrapped_from_trans:
  assumes "rewrapped_from a b" and "rewrapped_from b c"
  shows "rewrapped_from a c"
proof (cases "b = a \<or> c = b")
  case False
  with assms obtain w g wa ga where "active_device a"
    "b = a\<lparr>dv_wrapped_vault_key := Some w, dv_vault_key_generation := Some g\<rparr>"
    "c = b\<lparr>dv_wrapped_vault_key := Some wa, dv_vault_key_generation := Some ga\<rparr>" by (auto simp: rewrapped_from_def)
  then have "active_device a" "c = a\<lparr>dv_wrapped_vault_key := Some wa, dv_vault_key_generation := Some ga\<rparr>" by simp_all
  then show ?thesis unfolding rewrapped_from_def by blast
qed (use assms in auto)

lemma rewrapped_from_fields:
  assumes "rewrapped_from d d'"
  shows "dv_device_id d' = dv_device_id d" "dv_user_id d' = dv_user_id d" "dv_revoked_at d' = dv_revoked_at d"
    "active_device d' = active_device d" "\<not> active_device d \<Longrightarrow> d' = d"
  using assms by (auto simp: rewrapped_from_def active_device_def)

definition devices_rewrapped :: "adb \<Rightarrow> adb \<Rightarrow> bool" where
  "devices_rewrapped s s' \<longleftrightarrow> same_but_devices s s' \<and> list_all2 rewrapped_from (devices s) (devices s')"

lemma devices_rewrapped_refl: "devices_rewrapped s s"
  by (simp add: devices_rewrapped_def same_but_devices_refl list_all2_refl)

lemma devices_rewrapped_trans: "devices_rewrapped s s' \<Longrightarrow> devices_rewrapped s' s'' \<Longrightarrow> devices_rewrapped s s''"
  unfolding devices_rewrapped_def
  by (meson same_but_devices_trans list_all2_trans [of rewrapped_from rewrapped_from rewrapped_from] rewrapped_from_trans)

lemma devices_rewrapped_ids:
  assumes "devices_rewrapped s s'"
  shows "map dv_device_id (devices s') = map dv_device_id (devices s)"
proof -
  have "list_all2 rewrapped_from (devices s) (devices s')" using assms by (simp add: devices_rewrapped_def)
  then show ?thesis by (induction rule: list_all2_induct) (simp_all add: rewrapped_from_fields)
qed

lemma devices_rewrapped_row:
  assumes "devices_rewrapped s s'" and "d' \<in> set (devices s')"
  shows "\<exists>d \<in> set (devices s). rewrapped_from d d'"
  using assms by (force simp: devices_rewrapped_def list_all2_conv_all_nth in_set_conv_nth)

lemma rewrap_device_row:
  assumes "\<forall>r \<in> set (devices (snd acc)). dv_device_id r = dv_device_id dev \<longrightarrow> active_device r"
  shows "devices_rewrapped (snd acc) (snd (rewrap_device P a n g dev acc))"
proof -
  let ?upd = "\<lambda>w. snd (set_device_wrapped_vault_key (snd acc) (dv_device_id dev) w g)"
  have "list_all2 rewrapped_from (devices (snd acc)) (devices (?upd w))" for w
    unfolding set_device_wrapped_vault_key_def update_device_def update_where_def
    using assms by (simp add: list_all2_conv_all_nth rewrapped_from_def) (metis nth_mem)
  moreover have "same_but_devices (snd acc) (?upd w)" for w
    by (auto simp: same_but_devices_def set_device_wrapped_vault_key_def update_device_def)
  ultimately have "devices_rewrapped (snd acc) (?upd w)" for w by (simp add: devices_rewrapped_def)
  then show ?thesis using devices_rewrapped_refl by (auto simp: rewrap_device_def split: sum.splits)
qed

lemma active_after:
  assumes "devices_rewrapped s s'" and "\<forall>r \<in> set (devices s). dv_device_id r = i \<longrightarrow> active_device r"
  shows "\<forall>r \<in> set (devices s'). dv_device_id r = i \<longrightarrow> active_device r"
proof (intro ballI impI)
  fix r assume "r \<in> set (devices s')" "dv_device_id r = i"
  with devices_rewrapped_row [OF assms(1)] obtain d where "d \<in> set (devices s)" "rewrapped_from d r" by blast
  with assms(2) \<open>dv_device_id r = i\<close> show "active_device r" by (auto simp: rewrapped_from_fields)
qed

lemma fold_rewrap_rows:
  assumes "\<forall>dev \<in> set ds. \<forall>r \<in> set (devices (snd acc)). dv_device_id r = dv_device_id dev \<longrightarrow> active_device r"
  shows "devices_rewrapped (snd acc) (snd (fold (rewrap_device P a n g) ds acc))"
  using assms
proof (induction ds arbitrary: acc)
  case (Cons d ds)
  let ?acc = "rewrap_device P a n g d acc"
  have one: "devices_rewrapped (snd acc) (snd ?acc)" using Cons.prems by (intro rewrap_device_row) simp
  have "\<forall>dev \<in> set ds. \<forall>r \<in> set (devices (snd ?acc)). dv_device_id r = dv_device_id dev \<longrightarrow> active_device r"
  proof
    fix dev assume "dev \<in> set ds"
    then show "\<forall>r \<in> set (devices (snd ?acc)). dv_device_id r = dv_device_id dev \<longrightarrow> active_device r"
      using Cons.prems by (intro active_after [OF one]) simp
  qed
  from devices_rewrapped_trans [OF one Cons.IH [OF this]] show ?case by simp
qed (simp add: devices_rewrapped_refl)

lemma rewrap_member_rows:
  assumes "distinct (map dv_device_id (devices (snd acc)))"
  shows "devices_rewrapped (snd acc) (snd (rewrap_member P a n g m acc))"
  unfolding rewrap_member_def
proof (rule fold_rewrap_rows, intro ballI impI)
  fix dev r assume dev: "dev \<in> set (get_active_devices_for_user (snd acc) (vm_user_id m))"
    and r: "r \<in> set (devices (snd acc))" "dv_device_id r = dv_device_id dev"
  then have "dev \<in> set (devices (snd acc))" "active_device dev" by (auto simp: get_active_devices_for_user_def)
  with distinct_map_key [OF assms r(1) _ r(2)] show "active_device r" by simp
qed

lemma rewrap_devices_rows:
  assumes "distinct (map dv_device_id (devices s))"
  shows "devices_rewrapped s (snd (rewrap_devices P a n g v s))"
proof -
  have "devices_rewrapped (snd acc) (snd (fold (rewrap_member P a n g) ms acc))"
    if "distinct (map dv_device_id (devices (snd acc)))" for ms acc
    using that
  proof (induction ms arbitrary: acc)
    case (Cons m ms)
    note one = rewrap_member_rows [OF Cons.prems, of P a n g m]
    have "distinct (map dv_device_id (devices (snd (rewrap_member P a n g m acc))))"
      using devices_rewrapped_ids [OF one] Cons.prems by simp
    from devices_rewrapped_trans [OF one Cons.IH [OF this]] show ?case by simp
  qed (simp add: devices_rewrapped_refl)
  from this [of "(0, s)"] assms show ?thesis by (simp add: rewrap_devices_def)
qed

text \<open>What a rotation for a revocation leaves alone, whether it succeeds or fails half way.\<close>

definition access_frame :: "adb \<Rightarrow> adb \<Rightarrow> bool" where
  "access_frame s s' \<longleftrightarrow> vault_members s' = vault_members s \<and> user_sessions s' = user_sessions s \<and>
     map_option vr_vault_id (vault_state s') = map_option vr_vault_id (vault_state s) \<and>
     list_all2 rewrapped_from (devices s) (devices s')"

lemma access_frame_refl: "access_frame s s"
  by (simp add: access_frame_def list_all2_refl)

lemma access_frame_row:
  "access_frame s s' \<Longrightarrow> d' \<in> set (devices s') \<Longrightarrow> \<exists>d \<in> set (devices s). rewrapped_from d d'"
  by (force simp: access_frame_def list_all2_conv_all_nth in_set_conv_nth)

lemma access_frame_key_only:
  "access_frame s (rotate_vault_key_only s w g)"
  by (simp add: access_frame_def rotate_vault_key_only_def update_vault_state_def list_all2_refl option.map_comp o_def)

lemma rotate_revocation_frame:
  assumes "distinct (map dv_device_id (devices (va_db st)))" and "rotate_for_revocation P k st = (r, st')"
  shows "access_frame (va_db st) (va_db st')"
proof -
  have rw: "access_frame s (snd (enqueue_deks_for_rewrap (snd (rewrap_devices P a k g v (rotate_vault_key_only s w g))) g'))"
    if "distinct (map dv_device_id (devices s))" for s a g g' v w
  proof -
    let ?s1 = "rotate_vault_key_only s w g"
    have "distinct (map dv_device_id (devices ?s1))"
      using that by (simp add: rotate_vault_key_only_def update_vault_state_def)
    from rewrap_devices_rows [OF this, of P a k g v] access_frame_key_only [of s w g] show ?thesis
      by (auto simp: access_frame_def devices_rewrapped_def same_but_devices_def enqueue_deks_for_rewrap_def Let_def
          rotate_vault_key_only_def update_vault_state_def)
  qed
  have "va_db st' = va_db st \<or> (\<exists>w g. va_db st' = rotate_vault_key_only (va_db st) w g) \<or>
      (\<exists>a g g' v w. va_db st' = snd (enqueue_deks_for_rewrap (snd (rewrap_devices P a k g v (rotate_vault_key_only (va_db st) w g))) g'))"
    using assms(2) by (auto simp: rotate_for_revocation_def Let_def split: sum.splits option.splits prod.splits)
      (metis snd_conv)+
  then show ?thesis using access_frame_refl access_frame_key_only rw [OF assms(1)] by auto
qed

section \<open>The role check depends on sessions, members and the vault id only\<close>

lemma require_role_cong:
  assumes "user_sessions s' = user_sessions s" and "vault_members s' = vault_members s"
    and v: "map_option vr_vault_id (vault_state s') = map_option vr_vault_id (vault_state s)"
  shows "require_role s' now h q = require_role s now h q"
proof -
  have a: "authenticate_session s' now h = authenticate_session s now h"
    using assms(1) by (simp add: authenticate_session_def validate_user_session_def [abs_def])
  have m: "get_vault_member s' = get_vault_member s" using assms(2) by (simp add: get_vault_member_def [abs_def])
  show ?thesis
    using v by (cases "vault_state s"; cases "vault_state s'")
      (simp_all add: require_role_def a m get_vault_params_def cong: if_cong)
qed

lemma audit_simps [simp]:
  "devices (audit s now v a b c d e f) = devices s" "vault_members (audit s now v a b c d e f) = vault_members s"
  "user_sessions (audit s now v a b c d e f) = user_sessions s" "vault_state (audit s now v a b c d e f) = vault_state s"
  "invite_codes (audit s now v a b c d e f) = invite_codes s" "user_ids (audit s now v a b c d e f) = user_ids s"
  "users (audit s now v a b c d e f) = users s"
  by (simp_all add: audit_def insert_audit_log_def user_ids_def)

lemma rotate_and_warn_frame:
  assumes "distinct (map dv_device_id (devices (va_db st)))" and "rotate_and_warn P k st = (r, st')"
  shows "access_frame (va_db st) (va_db st')"
proof -
  obtain r0 st0 where r0: "rotate_for_revocation P k st = (r0, st0)" by force
  with assms(2) have "st' = st0" by (auto simp: rotate_and_warn_def split: sum.splits)
  with rotate_revocation_frame [OF assms(1) r0] show ?thesis by simp
qed

section \<open>Removing a member\<close>

lemma revoke_all_tables:
  "\<exists>n' ds'. revoke_all now ds (n, s) = (n', s\<lparr>devices := ds'\<rparr>) \<and> map dv_device_id ds' = map dv_device_id (devices s) \<and>
     map dv_user_id ds' = map dv_user_id (devices s) \<and>
     list_all2 (\<lambda>d d'. d' = d \<or> d' = revoke_row now d \<and> dv_revoked_at d = None \<and> dv_device_id d \<in> dv_device_id ` set ds)
       (devices s) ds'"
proof (induction ds arbitrary: n s)
  case Nil
  show ?case by (intro exI [of _ n] exI [of _ "devices s"]) (simp add: list_all2_refl)
next
  case (Cons d ds)
  show ?case
  proof (cases "dv_revoked_at d = None")
    case False
    obtain n' ds' where ih: "revoke_all now ds (n, s) = (n', s\<lparr>devices := ds'\<rparr>)"
      "map dv_device_id ds' = map dv_device_id (devices s)" "map dv_user_id ds' = map dv_user_id (devices s)"
      "list_all2 (\<lambda>d d'. d' = d \<or> d' = revoke_row now d \<and> dv_revoked_at d = None \<and> dv_device_id d \<in> dv_device_id ` set ds)
         (devices s) ds'" using Cons [of n s] by blast
    have "list_all2 (\<lambda>x d'. d' = x \<or> d' = revoke_row now x \<and> dv_revoked_at x = None \<and> dv_device_id x \<in> dv_device_id ` set (d # ds))
        (devices s) ds'" by (rule list_all2_mono [OF ih(4)]) auto
    with ih(1-3) show ?thesis by (intro exI [of _ n'] exI [of _ ds']) (simp add: False)
  next
    case True
    let ?f = "\<lambda>x. if dv_device_id x = dv_device_id d \<and> dv_revoked_at x = None then revoke_row now x else x"
    let ?s = "s\<lparr>devices := map ?f (devices s)\<rparr>"
    obtain ok where ok: "revoke_device s now (dv_device_id d) = (ok, ?s)"
      by (simp add: revoke_device_def Let_def update_where_def)
    obtain n' ds' where ih: "revoke_all now ds (if ok then n + 1 else n, ?s) = (n', ?s\<lparr>devices := ds'\<rparr>)"
      "map dv_device_id ds' = map dv_device_id (devices ?s)" "map dv_user_id ds' = map dv_user_id (devices ?s)"
      "list_all2 (\<lambda>d d'. d' = d \<or> d' = revoke_row now d \<and> dv_revoked_at d = None \<and> dv_device_id d \<in> dv_device_id ` set ds)
         (devices ?s) ds'" using Cons [of "if ok then n + 1 else n" ?s] by blast
    have f: "dv_device_id (?f x) = dv_device_id x" "dv_user_id (?f x) = dv_user_id x" for x by (simp_all add: revoke_row_def)
    have "list_all2 (\<lambda>x d'. d' = x \<or> d' = revoke_row now x \<and> dv_revoked_at x = None \<and> dv_device_id x \<in> dv_device_id ` set (d # ds))
        (devices s) ds'"
      using ih(4) by (auto simp: list_all2_map1 revoke_row_def elim!: list_all2_mono split: if_splits)
    moreover have "map dv_device_id ds' = map dv_device_id (devices s)" "map dv_user_id ds' = map dv_user_id (devices s)"
      using ih(2,3) by (simp_all add: f o_def)
    ultimately show ?thesis using ih(1) by (intro exI [of _ n'] exI [of _ ds']) (simp add: True ok)
  qed
qed

lemma revoke_all_revokes:
  assumes "d \<in> set ds" and "dv_revoked_at d = None" and "d' \<in> set (devices (snd (revoke_all now ds (n, s))))"
    and "dv_device_id d' = dv_device_id d"
  shows "dv_revoked_at d' \<noteq> None"
  using assms
proof (induction ds arbitrary: n s)
  case (Cons x ds)
  show ?case
  proof (cases "dv_revoked_at x = None")
    case False
    with Cons show ?thesis by auto
  next
    case True
    let ?s = "snd (revoke_device s now (dv_device_id x))" and ?ok = "fst (revoke_device s now (dv_device_id x))"
    have run: "revoke_all now (x # ds) (n, s) = revoke_all now ds (if ?ok then n + 1 else n, ?s)"
      by (simp add: True split: prod.splits)
    show ?thesis
    proof (cases "d \<in> set ds")
      case True
      with Cons run show ?thesis by simp
    next
      case False
      then have d: "d = x" using Cons.prems by simp
      obtain n' ds' where ra: "revoke_all now ds (if ?ok then n + 1 else n, ?s) = (n', ?s\<lparr>devices := ds'\<rparr>)"
        "list_all2 (\<lambda>d d'. d' = d \<or> d' = revoke_row now d \<and> dv_revoked_at d = None \<and> dv_device_id d \<in> dv_device_id ` set ds)
           (devices ?s) ds'" using revoke_all_tables [of now ds "if ?ok then n + 1 else n" ?s] by blast
      from Cons.prems(3) run ra(1) have "d' \<in> set ds'" by simp
      with ra(2) obtain d0 where d0: "d0 \<in> set (devices ?s)" "d' = d0 \<or> d' = revoke_row now d0"
        by (fastforce simp: list_all2_conv_all_nth in_set_conv_nth)
      have "dv_device_id d0 = dv_device_id x" using d0(2) Cons.prems(4) d by (auto simp: revoke_row_def)
      with d0(1) have "dv_revoked_at d0 \<noteq> None"
        by (auto simp: revoke_device_def Let_def update_where_def revoke_row_def split: if_splits)
      with d0(2) show ?thesis by (auto simp: revoke_row_def)
    qed
  qed
qed simp

lemma remove_member_result:
  assumes ok: "accounts_ok (va_db st)" and r: "post_remove_member P k st now header u = (Inr resp, st')"
  shows "\<exists>caller m s2. require_role (va_db st) now header Admin = Inr caller \<and> ca_user_id caller \<noteq> u \<and>
    get_vault_member (va_db st) u (ca_vault_id caller) = Some m \<and> vm_role m \<noteq> ''owner'' \<and>
    access_frame s2 (va_db st') \<and> user_sessions s2 = user_sessions (va_db st) \<and> vault_state s2 = vault_state (va_db st) \<and>
    vault_members s2 = delete_where (\<lambda>m. vm_user_id m = u \<and> vm_vault_id m = ca_vault_id caller) (vault_members (va_db st)) \<and>
    devices s2 = devices (snd (revoke_all now (list_devices_for_user (va_db st) u) (0, va_db st)))"
proof -
  let ?s = "va_db st"
  from r obtain caller m where c: "require_role ?s now header Admin = Inr caller" "ca_user_id caller \<noteq> u"
    "get_vault_member ?s u (ca_vault_id caller) = Some m" "vm_role m \<noteq> ''owner''"
    by (cases "require_role ?s now header Admin")
      (auto simp: post_remove_member_def split: if_splits option.splits prod.splits)
  obtain n ds' where ra: "revoke_all now (list_devices_for_user ?s u) (0, ?s) = (n, ?s\<lparr>devices := ds'\<rparr>)"
    "map dv_device_id ds' = map dv_device_id (devices ?s)"
    using revoke_all_tables [of now "list_devices_for_user ?s u" 0 ?s] by blast
  define s2 where "s2 = audit (snd (remove_vault_member (?s\<lparr>devices := ds'\<rparr>) u (ca_vault_id caller))) now (ca_vault_id caller)
    ''remove_member'' (Some (ca_user_id caller)) (Some (ca_device_id caller)) (Some u) None
    (Some (''{\"devices_revoked\":'' @ dec_nat n @ ''}''))"
  have t: "devices s2 = ds'" "user_sessions s2 = user_sessions ?s" "vault_state s2 = vault_state ?s"
    "vault_members s2 = delete_where (\<lambda>m. vm_user_id m = u \<and> vm_vault_id m = ca_vault_id caller) (vault_members ?s)"
    by (simp_all add: s2_def remove_vault_member_def Let_def)
  obtain rot st2 where rot: "rotate_and_warn P k (st\<lparr>va_db := s2\<rparr>) = (rot, st2)" by force
  have "st' = st2" using r c ra(1) rot by (auto simp: post_remove_member_def s2_def Let_def split: prod.splits)
  moreover have "access_frame s2 (va_db st2)"
    using rotate_and_warn_frame [OF _ rot] ok by (simp add: t(1) ra(2) accounts_ok_def)
  ultimately show ?thesis using c t ra(1) by (intro exI [of _ caller] exI [of _ m] exI [of _ s2]) simp
qed

text \<open>The devices after revoking those of a user: rows of other users are as before, those of the user are revoked.\<close>

lemma revoke_all_row:
  assumes dist: "distinct (map dv_device_id (devices s))"
    and d: "d \<in> set (devices (snd (revoke_all now (list_devices_for_user s u) (0, s))))"
  shows "\<exists>d0 \<in> set (devices s). dv_device_id d = dv_device_id d0 \<and> dv_user_id d = dv_user_id d0 \<and>
    (dv_user_id d0 \<noteq> u \<longrightarrow> d = d0) \<and> (dv_user_id d0 = u \<longrightarrow> dv_revoked_at d \<noteq> None)"
proof -
  obtain n ds' where ra: "revoke_all now (list_devices_for_user s u) (0, s) = (n, s\<lparr>devices := ds'\<rparr>)"
    "list_all2 (\<lambda>d d'. d' = d \<or> d' = revoke_row now d \<and> dv_revoked_at d = None \<and>
        dv_device_id d \<in> dv_device_id ` set (list_devices_for_user s u)) (devices s) ds'"
    using revoke_all_tables [of now "list_devices_for_user s u" 0 s] by blast
  from d ra have "d \<in> set ds'" by simp
  with ra(2) obtain d0 where d0: "d0 \<in> set (devices s)" "d = d0 \<or> d = revoke_row now d0 \<and>
      dv_device_id d0 \<in> dv_device_id ` set (list_devices_for_user s u)"
    by (fastforce simp: list_all2_conv_all_nth in_set_conv_nth)
  have own: "dv_user_id d0 = u" if "dv_device_id d0 \<in> dv_device_id ` set (list_devices_for_user s u)"
    using that distinct_map_key [OF dist d0(1)] by (auto simp: list_devices_for_user_def)
  have ids: "dv_device_id d = dv_device_id d0" "dv_user_id d = dv_user_id d0" using d0(2) by (auto simp: revoke_row_def)
  have "dv_revoked_at d \<noteq> None" if u: "dv_user_id d0 = u"
  proof (cases "dv_revoked_at d0 = None")
    case True
    have "d0 \<in> set (list_devices_for_user s u)" using d0(1) u by (simp add: list_devices_for_user_def)
    from revoke_all_revokes [OF this True d ids(1)] show ?thesis .
  next
    case False
    with d0(2) show ?thesis by (auto simp: revoke_row_def)
  qed
  with d0 own ids show ?thesis by (intro bexI [of _ d0]) auto
qed

text \<open>A user without a membership of the vault passes no check.\<close>

lemma no_member_no_role:
  assumes "vault_state s = Some v" and "\<forall>m \<in> set (vault_members s). vm_user_id m = u \<longrightarrow> vm_vault_id m \<noteq> vr_vault_id v"
    and "require_role s t h q = Inr x"
  shows "ca_user_id x \<noteq> u"
proof
  assume "ca_user_id x = u"
  with assms(1,3) obtain m where "get_vault_member s u (vr_vault_id v) = Some m"
    by (auto simp: require_role_def get_vault_params_def result_elims split: if_splits)
  then have "m \<in> set (filter (\<lambda>m. vm_user_id m = u \<and> vm_vault_id m = vr_vault_id v) (vault_members s))"
    unfolding get_vault_member_def by (rule fetch_optional_in)
  with assms(2) show False by auto
qed

text \<open>
  C15: a removed member is locked out. After a member has been removed no request of theirs passes any role
  check, whatever session it carries and for whatever time; every device of theirs is revoked and holds no active
  wrap of the vault key; the membership of everybody else and the revocation state of their devices are as before.
  The owner cannot be removed, nobody can remove themselves, and a refused removal changes nothing.
\<close>

theorem removed_member_locked_out:
  assumes ok: "accounts_ok (va_db st)" and r: "post_remove_member P k st now header u = (ans, st')"
  shows "(\<forall>resp. ans = Inr resp \<longrightarrow>
      (\<forall>t h q c. require_role (va_db st') t h q = Inr c \<longrightarrow> ca_user_id c \<noteq> u) \<and>
      (\<forall>d \<in> set (devices (va_db st')). dv_user_id d = u \<longrightarrow> dv_revoked_at d \<noteq> None \<and> \<not> active_device d) \<and>
      (\<forall>m. vm_user_id m \<noteq> u \<longrightarrow> (m \<in> set (vault_members (va_db st')) \<longleftrightarrow> m \<in> set (vault_members (va_db st)))) \<and>
      (\<forall>d \<in> set (devices (va_db st')). dv_user_id d \<noteq> u \<longrightarrow>
        (\<exists>d0 \<in> set (devices (va_db st)). dv_device_id d0 = dv_device_id d \<and> dv_revoked_at d = dv_revoked_at d0)) \<and>
      (\<exists>m \<in> set (vault_members (va_db st)). vm_user_id m = u \<and> vm_role m \<noteq> ''owner'')) \<and>
    (\<forall>e. ans = Inl e \<longrightarrow> st' = st) \<and>
    (\<forall>c. require_role (va_db st) now header Admin = Inr c \<longrightarrow> ca_user_id c = u \<longrightarrow> ans = Inl (BadRequest ''cannot_remove_self''))"
proof (intro conjI allI impI)
  fix resp assume "ans = Inr resp"
  with r have r': "post_remove_member P k st now header u = (Inr resp, st')" by simp
  from remove_member_result [OF ok r'] obtain caller m s2 where
    c: "require_role (va_db st) now header Admin = Inr caller" "get_vault_member (va_db st) u (ca_vault_id caller) = Some m"
      "vm_role m \<noteq> ''owner''" and fr: "access_frame s2 (va_db st')" and vs: "vault_state s2 = vault_state (va_db st)"
    and ms: "vault_members s2 = delete_where (\<lambda>m. vm_user_id m = u \<and> vm_vault_id m = ca_vault_id caller) (vault_members (va_db st))"
    and ds: "devices s2 = devices (snd (revoke_all now (list_devices_for_user (va_db st) u) (0, va_db st)))" by (elim exE conjE)
  have ms': "vault_members (va_db st') = vault_members s2" using fr by (simp add: access_frame_def)
  from c(1) obtain v where v: "vault_state (va_db st) = Some v" "ca_vault_id caller = vr_vault_id v"
    by (auto simp: require_role_def get_vault_params_def result_elims split: if_splits)
  obtain v' where v': "vault_state (va_db st') = Some v'" "vr_vault_id v' = vr_vault_id v"
    using fr vs v(1) by (auto simp: access_frame_def)
  show "ca_user_id x \<noteq> u" if "require_role (va_db st') t h q = Inr x" for t h q x
    by (rule no_member_no_role [OF v'(1) _ that]) (auto simp: ms' ms v(2) v'(2) set_delete_where)
  show "vm_user_id m \<noteq> u \<Longrightarrow> (m \<in> set (vault_members (va_db st'))) = (m \<in> set (vault_members (va_db st)))" for m
    by (auto simp: ms' ms set_delete_where)
  show "\<exists>m \<in> set (vault_members (va_db st)). vm_user_id m = u \<and> vm_role m \<noteq> ''owner''"
    using c(2,3) fetch_optional_in [of "filter (\<lambda>m. vm_user_id m = u \<and> vm_vault_id m = ca_vault_id caller) (vault_members (va_db st))"]
    by (auto simp: get_vault_member_def)
  have row: "\<exists>d0 \<in> set (devices (va_db st)). dv_device_id d = dv_device_id d0 \<and> dv_user_id d = dv_user_id d0 \<and>
      (dv_user_id d0 \<noteq> u \<longrightarrow> dv_revoked_at d = dv_revoked_at d0) \<and> (dv_user_id d0 = u \<longrightarrow> dv_revoked_at d \<noteq> None)"
    if "d \<in> set (devices (va_db st'))" for d
  proof -
    from access_frame_row [OF fr that] obtain d1 where d1: "d1 \<in> set (devices s2)" "rewrapped_from d1 d" by blast
    have dist: "distinct (map dv_device_id (devices (va_db st)))" using ok by (simp add: accounts_ok_def)
    from revoke_all_row [OF dist d1(1) [unfolded ds]] obtain d0 where d0: "d0 \<in> set (devices (va_db st))"
      "dv_device_id d1 = dv_device_id d0" "dv_user_id d1 = dv_user_id d0"
      "dv_user_id d0 \<noteq> u \<longrightarrow> d1 = d0" "dv_user_id d0 = u \<longrightarrow> dv_revoked_at d1 \<noteq> None" by blast
    show ?thesis by (rule bexI [OF _ d0(1)]) (use d0(2-5) rewrapped_from_fields(1-3) [OF d1(2)] in simp)
  qed
  show "\<forall>d \<in> set (devices (va_db st')). dv_user_id d \<noteq> u \<longrightarrow>
      (\<exists>d0 \<in> set (devices (va_db st)). dv_device_id d0 = dv_device_id d \<and> dv_revoked_at d = dv_revoked_at d0)"
  proof (intro ballI impI)
    fix d assume "d \<in> set (devices (va_db st'))" "dv_user_id d \<noteq> u"
    with row [of d] show "\<exists>d0 \<in> set (devices (va_db st)). dv_device_id d0 = dv_device_id d \<and> dv_revoked_at d = dv_revoked_at d0"
      by metis
  qed
  show "\<forall>d \<in> set (devices (va_db st')). dv_user_id d = u \<longrightarrow> dv_revoked_at d \<noteq> None \<and> \<not> active_device d"
  proof (intro ballI impI)
    fix d assume d: "d \<in> set (devices (va_db st'))" "dv_user_id d = u"
    from row [OF d(1)] d(2) have "dv_revoked_at d \<noteq> None" by metis
    then show "dv_revoked_at d \<noteq> None \<and> \<not> active_device d" by (simp add: active_device_def)
  qed
next
  fix e assume "ans = Inl e"
  with r show "st' = st" by (auto simp: post_remove_member_def Let_def split: sum.splits prod.splits)
next
  fix c assume "require_role (va_db st) now header Admin = Inr c" "ca_user_id c = u"
  with r show "ans = Inl (BadRequest ''cannot_remove_self'')" by (simp add: post_remove_member_def)
qed

section \<open>Revoking a device\<close>

lemma revoke_device_result:
  assumes ok: "accounts_ok (va_db st)" and r: "post_revoke_device P k st now header target = (Inr resp, st')"
  shows "\<exists>s2 d0. access_frame s2 (va_db st') \<and> user_sessions s2 = user_sessions (va_db st) \<and>
    vault_state s2 = vault_state (va_db st) \<and> vault_members s2 = vault_members (va_db st) \<and>
    d0 \<in> set (devices (va_db st)) \<and> dv_device_id d0 = target \<and> dv_revoked_at d0 = None \<and>
    devices s2 = update_where (\<lambda>d. dv_device_id d = target \<and> dv_revoked_at d = None) (revoke_row now) (devices (va_db st))"
proof -
  let ?s = "va_db st"
  from r obtain caller d0 where c: "require_role ?s now header Admin = Inr caller" "ca_device_id caller \<noteq> target"
    "get_device ?s target = Some d0" "dv_revoked_at d0 = None"
    by (cases "require_role ?s now header Admin"; cases "get_device ?s target")
      (auto simp: post_revoke_device_def split: if_splits)
  have d0: "d0 \<in> set (devices ?s)" "dv_device_id d0 = target"
    using c(3) fetch_optional_in [of "filter (\<lambda>d. dv_device_id d = target) (devices ?s)"] by (auto simp: get_device_def)
  define s2 where "s2 = audit (snd (revoke_device ?s now target)) now (ca_vault_id caller) ''revoke_device''
    (Some (ca_user_id caller)) (Some (ca_device_id caller)) (Some (dv_user_id d0)) (Some target)
    (Some (''{\"device_name\":\"'' @ dv_device_name d0 @ ''\",\"user_id\":\"'' @ dv_user_id d0 @ ''\"}''))"
  have t: "devices s2 = update_where (\<lambda>d. dv_device_id d = target \<and> dv_revoked_at d = None) (revoke_row now) (devices ?s)"
    "user_sessions s2 = user_sessions ?s" "vault_state s2 = vault_state ?s" "vault_members s2 = vault_members ?s"
    by (simp_all add: s2_def revoke_device_def Let_def)
  obtain rot st2 where rot: "rotate_and_warn P k (st\<lparr>va_db := s2\<rparr>) = (rot, st2)" by force
  have "st' = st2" using r c rot by (auto simp: post_revoke_device_def s2_def Let_def split: prod.splits)
  moreover have "distinct (map dv_device_id (devices s2))"
    using ok by (simp add: t(1) accounts_ok_def update_where_key revoke_row_def)
  ultimately show ?thesis using rotate_and_warn_frame [of "st\<lparr>va_db := s2\<rparr>", OF _ rot] t c(4) d0
    by (intro exI [of _ s2] exI [of _ d0]) simp
qed

lemma bindR_fails: "(\<And>x. \<exists>e. f x = Inl e) \<Longrightarrow> \<exists>e. bindR m f = Inl e"
  by (cases m) auto

lemma fails_first: "\<exists>e. m = Inl e \<Longrightarrow> \<exists>e. (case m of Inl e \<Rightarrow> (Inl e, st) | Inr y \<Rightarrow> g y) = (Inl e, st)"
  by auto

text \<open>The devices after one revocation: the row of the device is revoked and holds no key, the others keep their state.\<close>

lemma revoked_device_rows:
  assumes ok: "accounts_ok (va_db st)" and r: "post_revoke_device P k st now header target = (Inr resp, st')"
    and d: "d \<in> set (devices (va_db st'))"
  shows "dv_device_id d = target \<Longrightarrow>
      dv_revoked_at d = Some now \<and> dv_wrapped_vault_key d = None \<and> dv_wrapped_vault_key_kyber d = None"
    and "dv_device_id d \<noteq> target \<Longrightarrow>
      \<exists>d0 \<in> set (devices (va_db st)). dv_device_id d0 = dv_device_id d \<and> dv_revoked_at d = dv_revoked_at d0"
proof -
  from revoke_device_result [OF ok r] obtain s2 d0 where fr: "access_frame s2 (va_db st')"
    and d0: "d0 \<in> set (devices (va_db st))" "dv_device_id d0 = target" "dv_revoked_at d0 = None"
    and ds: "devices s2 = update_where (\<lambda>d. dv_device_id d = target \<and> dv_revoked_at d = None) (revoke_row now) (devices (va_db st))"
    by (elim exE conjE)
  have dist: "distinct (map dv_device_id (devices (va_db st)))" using ok by (simp add: accounts_ok_def)
  from access_frame_row [OF fr d] obtain d1 where d1: "d1 \<in> set (devices s2)" "rewrapped_from d1 d" by blast
  from d1(1) obtain dx where dx: "dx \<in> set (devices (va_db st))"
    "d1 = (if dv_device_id dx = target \<and> dv_revoked_at dx = None then revoke_row now dx else dx)"
    unfolding ds update_where_def set_map by blast
  have "dv_device_id d1 = dv_device_id dx" using dx(2) by (simp add: revoke_row_def)
  then have id: "dv_device_id d = dv_device_id dx" using rewrapped_from_fields(1) [OF d1(2)] by simp
  show "dv_revoked_at d = Some now \<and> dv_wrapped_vault_key d = None \<and> dv_wrapped_vault_key_kyber d = None"
    if "dv_device_id d = target"
  proof -
    have "dx = d0" using distinct_map_key [OF dist dx(1) d0(1)] id that d0(2) by simp
    with dx(2) d0 have "d1 = revoke_row now d0" by simp
    with rewrapped_from_fields(5) [OF d1(2)] show ?thesis by (simp add: revoke_row_def active_device_def)
  qed
  show "\<exists>d0 \<in> set (devices (va_db st)). dv_device_id d0 = dv_device_id d \<and> dv_revoked_at d = dv_revoked_at d0"
    if "dv_device_id d \<noteq> target"
  proof -
    from dx(2) id that have "d1 = dx" by simp
    with dx(1) rewrapped_from_fields [OF d1(2)] show ?thesis by (intro bexI [of _ dx]) simp_all
  qed
qed

text \<open>
  C37: a revoked device gets no key, but keeps its session. After a revocation the device holds neither wrap of the
  vault key, can fetch none and cannot be accepted again, and no other device is revoked; yet every role check gives
  the same answer as before, so requests with the session of the revoked device still pass.
\<close>

theorem revoked_device_keeps_session:
  assumes ok: "accounts_ok (va_db st)" and r: "post_revoke_device P k st now header target = (Inr resp, st')"
  shows "(\<forall>d \<in> set (devices (va_db st')). dv_device_id d = target \<longrightarrow>
      dv_revoked_at d = Some now \<and> dv_wrapped_vault_key d = None \<and> dv_wrapped_vault_key_kyber d = None) \<and>
    (\<forall>d \<in> set (devices (va_db st')). dv_device_id d \<noteq> target \<longrightarrow>
      (\<exists>d0 \<in> set (devices (va_db st)). dv_device_id d0 = dv_device_id d \<and> dv_revoked_at d = dv_revoked_at d0)) \<and>
    (\<forall>t h. \<exists>e. get_my_wrapped_key st' t h (Some target) = Inl e) \<and>
    (\<forall>rnd t h. \<exists>e. post_accept_device P rnd st' t h target = (Inl e, st')) \<and>
    (\<forall>t h q. require_role (va_db st') t h q = require_role (va_db st) t h q)"
proof -
  from revoke_device_result [OF ok r] obtain s2 where fr: "access_frame s2 (va_db st')"
    and t: "user_sessions s2 = user_sessions (va_db st)" "vault_state s2 = vault_state (va_db st)"
      "vault_members s2 = vault_members (va_db st)" by (elim exE conjE)
  note gone = revoked_device_rows(1) [OF ok r] and others = revoked_device_rows(2) [OF ok r]
  have dev: "dv_revoked_at d \<noteq> None \<and> dv_wrapped_vault_key d = None" if "get_device (va_db st') target = Some d" for d
  proof -
    have "d \<in> set (filter (\<lambda>d. dv_device_id d = target) (devices (va_db st')))"
      using that unfolding get_device_def by (rule fetch_optional_in)
    then have "d \<in> set (devices (va_db st'))" "dv_device_id d = target" by simp_all
    from gone [OF this] show ?thesis by simp
  qed
  have key: "\<exists>e. get_my_wrapped_key st' tt h (Some target) = Inl e" for tt h
  proof (cases "get_device (va_db st') target")
    case (Some d)
    from dev [OF this] Some show ?thesis
      by (cases "require_role (va_db st') tt h Viewer") (auto simp: get_my_wrapped_key_def)
  next
    case None
    then show ?thesis by (cases "require_role (va_db st') tt h Viewer") (auto simp: get_my_wrapped_key_def)
  qed
  have "accept_check d = Inl Forbidden" if "get_device (va_db st') target = Some d" for d
    using dev [OF that] by (simp add: accept_check_def)
  then have refused: "\<exists>e. bindR (ok_or (NotFound ''device'' target) (get_device (va_db st') target)) (\<lambda>d. bindR (accept_check d) (f d)) = Inl e" for f
    by (cases "get_device (va_db st') target") simp_all
  have acc: "\<exists>e. post_accept_device P rnd st' tt h target = (Inl e, st')" for rnd tt h
    unfolding post_accept_device_def by (rule fails_first, rule bindR_fails, rule bindR_fails, rule bindR_fails, rule bindR_fails, rule refused)
  have "require_role (va_db st') tt h q = require_role (va_db st) tt h q" for tt h q
    by (rule require_role_cong) (use fr t in \<open>simp_all add: access_frame_def\<close>)
  with gone others key acc show ?thesis by blast
qed

section \<open>A vault with two members\<close>

text \<open>An admin with one device and a member with another; the vault is locked, so no key is rotated.\<close>

definition team_vault :: vault where
  "team_vault = \<lparr>va_db = session_db
     \<lparr>users := users session_db @ [\<lparr>us_user_id = ''u2'', us_display_name = ''Bob'', us_email = None, us_auth_provider = ''local'',
        us_auth_subject = None, us_created_at = 0, us_refresh_token = None, us_refresh_token_ciphertext = None\<rparr>],
      devices := [new_device ''d1'' ''u1'' ''one'' [1] 5, new_device ''d2'' ''u2'' ''two'' [2] 5],
      vault_members := vault_members session_db @ [\<lparr>vm_user_id = ''u2'', vm_vault_id = ''v1'', vm_role = ''member'',
        vm_invited_by = Some ''u1'', vm_joined_at = 6\<rparr>],
      user_sessions := user_sessions session_db @ [\<lparr>ss_token = ''t2'', ss_user_id = ''u2'', ss_device_id = ''d2'', ss_created_at = 0,
        ss_expires_at = 100\<rparr>]\<rparr>, va_keys = None\<rparr>"

lemmas team_defs = team_vault_def session_db_def empty_adb_def new_device_def

lemma team_vault_ok: "accounts_ok (va_db team_vault)"
  by (simp add: team_defs accounts_ok_def user_ids_def refers_to_def member_key_def)

lemma team_admin:
  "require_role (va_db team_vault) 50 (Some ''Bearer t1'') Admin =
     Inr \<lparr>ca_user_id = ''u1'', ca_device_id = ''d1'', ca_vault_id = ''v1'', ca_role = Admin\<rparr>"
  by (simp add: team_defs require_role_def authenticate_session_def validate_user_session_def get_vault_params_def
      get_vault_member_def Role_from_str_def satisfies_def strip_prefix_def fetch_optional_def)

lemma team_member: "\<exists>m. get_vault_member (va_db team_vault) ''u2'' ''v1'' = Some m \<and> vm_role m = ''member''"
  by (simp add: team_defs get_vault_member_def fetch_optional_def)

lemma team_device: "\<exists>d. get_device (va_db team_vault) ''d2'' = Some d \<and> dv_revoked_at d = None"
  by (simp add: team_defs get_device_def fetch_optional_def)

lemma team_removes: "\<exists>resp st'. post_remove_member P k team_vault 50 (Some ''Bearer t1'') ''u2'' = (Inr resp, st')"
  using team_member by (auto simp: post_remove_member_def team_admin Let_def split: prod.split)

lemma team_revokes: "\<exists>resp st'. post_revoke_device P k team_vault 50 (Some ''Bearer t1'') ''d2'' = (Inr resp, st')"
  using team_device by (auto simp: post_revoke_device_def team_admin Let_def split: prod.split)

theorem removed_member_locked_out_witness:
  "\<exists>resp st'. post_remove_member toy_prims [] team_vault 50 (Some ''Bearer t1'') ''u2'' = (Inr resp, st') \<and>
     (\<forall>t h q x. require_role (va_db st') t h q = Inr x \<longrightarrow> ca_user_id x \<noteq> ''u2'')"
proof -
  obtain resp st' where r: "post_remove_member toy_prims [] team_vault 50 (Some ''Bearer t1'') ''u2'' = (Inr resp, st')"
    using team_removes by blast
  show ?thesis
    by (intro exI conjI, rule r) (rule removed_member_locked_out [OF team_vault_ok r, THEN conjunct1, rule_format, OF refl, THEN conjunct1])
qed

theorem revoked_device_keeps_session_witness:
  "\<exists>resp st' x. post_revoke_device toy_prims [] team_vault 50 (Some ''Bearer t1'') ''d2'' = (Inr resp, st') \<and>
     (\<forall>t h. \<exists>e. get_my_wrapped_key st' t h (Some ''d2'') = Inl e) \<and>
     require_role (va_db st') 50 (Some ''Bearer t2'') Member = Inr x \<and> ca_device_id x = ''d2''"
proof -
  obtain resp st' where r: "post_revoke_device toy_prims [] team_vault 50 (Some ''Bearer t1'') ''d2'' = (Inr resp, st')"
    using team_revokes by blast
  have x: "require_role (va_db team_vault) 50 (Some ''Bearer t2'') Member =
     Inr \<lparr>ca_user_id = ''u2'', ca_device_id = ''d2'', ca_vault_id = ''v1'', ca_role = Member\<rparr>"
    by (simp add: team_defs require_role_def authenticate_session_def validate_user_session_def get_vault_params_def
      get_vault_member_def Role_from_str_def satisfies_def strip_prefix_def fetch_optional_def)
  note res = revoked_device_keeps_session [OF team_vault_ok r, THEN conjunct2, THEN conjunct2]
  have s: "require_role (va_db st') 50 (Some ''Bearer t2'') Member = require_role (va_db team_vault) 50 (Some ''Bearer t2'') Member"
    by (rule res [THEN conjunct2, THEN conjunct2, rule_format])
  show ?thesis by (intro exI conjI, rule r, rule res [THEN conjunct1], unfold s, rule x) simp
qed

end
