(* ===== verification/InviteProofs.thy ===== *)
theory InviteProofs
  imports VaultApiProofs
begin

text \<open>
  Invitations: one request after the other, a code lets in no more people than its uses; two requests whose checks
  both run before either writes overspend it, because the result of consuming the code is ignored.
\<close>

section \<open>Uses left\<close>

definition uses_left :: "adb \<Rightarrow> string \<Rightarrow> nat" where
  "uses_left s code = (case get_invite_code s code of None \<Rightarrow> 0 | Some i \<Rightarrow> nat (ic_max_uses i - ic_used_count i))"

lemma fetch_update_same_key:
  assumes "\<And>c. ic_code (f c) = ic_code c"
  shows "fetch_optional (filter (\<lambda>c. ic_code c = k') (update_where (\<lambda>c. ic_code c = k \<and> Q c) f t)) =
    map_option (\<lambda>c. if ic_code c = k \<and> Q c then f c else c) (fetch_optional (filter (\<lambda>c. ic_code c = k') t))"
  by (induction t) (auto simp: assms)

lemma consume_uses:
  "uses_left (snd (consume_invite_code s code)) code' = uses_left s code' - (if code' = code then 1 else 0)"
proof -
  have "get_invite_code (snd (consume_invite_code s code)) code' =
      map_option (\<lambda>c. if ic_code c = code \<and> ic_used_count c < ic_max_uses c then c\<lparr>ic_used_count := ic_used_count c + 1\<rparr> else c)
        (get_invite_code s code')"
    by (simp add: get_invite_code_def consume_invite_code_def Let_def fetch_update_same_key)
  moreover have "ic_code i = code'" if "get_invite_code s code' = Some i" for i
  proof -
    have "i \<in> set (filter (\<lambda>c. ic_code c = code') (invite_codes s))"
      using that unfolding get_invite_code_def by (rule fetch_optional_in)
    then show ?thesis by simp
  qed
  ultimately show ?thesis by (auto simp: uses_left_def split: option.split)
qed

lemma uses_left_cong: "invite_codes s = invite_codes s' \<Longrightarrow> uses_left s c = uses_left s' c"
  by (simp add: uses_left_def get_invite_code_def)

lemma or_warn_invites:
  "invite_codes (or_warn s (create_user s now u nm em pr sub)) = invite_codes s"
  "invite_codes (or_warn s (create_device s now d u nm pk)) = invite_codes s"
  "invite_codes (or_warn s (add_vault_member s now u v ro inv')) = invite_codes s"
  by (simp_all add: create_user_def create_device_def add_vault_member_def)

lemma join_commit_uses:
  "uses_left (snd (join_commit s now i pk code d nm)) c = uses_left (snd (consume_invite_code s code)) c"
  by (rule uses_left_cong) (simp add: join_commit_def Let_def or_warn_invites)

lemma join_check_uses: "join_check b64 s now code pk = Inr (i, key) \<Longrightarrow> get_invite_code s code = Some i \<and> 0 < uses_left s code"
  by (auto simp: join_check_def result_elims is_invite_code_valid_def uses_left_def split: if_splits option.splits)

section \<open>Requests one after the other\<close>

record join_request =
  jq_now :: int
  jq_code :: string
  jq_device_id :: string
  jq_device_name :: string
  jq_public_key :: string

definition join_one :: "(string \<Rightarrow> bytes option) \<Rightarrow> vault \<Rightarrow> join_request \<Rightarrow> (ApiError + JoinResponse) \<times> vault" where
  "join_one b64 st q = post_vault_join b64 st (jq_now q) (jq_code q) (jq_device_id q) (jq_device_name q) (jq_public_key q)"

fun join_run :: "(string \<Rightarrow> bytes option) \<Rightarrow> vault \<Rightarrow> join_request list \<Rightarrow> join_request list \<times> vault" where
  "join_run b64 st [] = ([], st)"
| "join_run b64 st (q # qs) =
     (case join_one b64 st q of (r, st1) \<Rightarrow>
        (case join_run b64 st1 qs of (joined, st2) \<Rightarrow> (case r of Inr _ \<Rightarrow> q # joined | Inl _ \<Rightarrow> joined, st2)))"

lemma join_one_uses:
  assumes "join_one b64 st q = (r, st')"
  shows "uses_left (va_db st') c + (case r of Inr _ \<Rightarrow> if jq_code q = c then 1 else 0 | Inl _ \<Rightarrow> 0) = uses_left (va_db st) c"
proof (cases "join_check b64 (va_db st) (jq_now q) (jq_code q) (jq_public_key q)")
  case (Inl e)
  with assms show ?thesis by (auto simp: join_one_def post_vault_join_def)
next
  case (Inr x)
  obtain i key where x: "x = (i, key)" by force
  with Inr join_check_uses have "0 < uses_left (va_db st) (jq_code q)" by blast
  with assms Inr x show ?thesis
    using join_commit_uses [of "va_db st" "jq_now q" i key "jq_code q" "jq_device_id q" "jq_device_name q" c]
    by (auto simp: join_one_def post_vault_join_def consume_uses split: prod.splits)
qed

lemma join_run_uses:
  "join_run b64 st qs = (joined, st') \<Longrightarrow>
     length (filter (\<lambda>q. jq_code q = c) joined) + uses_left (va_db st') c = uses_left (va_db st) c"
proof (induction qs arbitrary: st joined)
  case (Cons q qs)
  obtain r st1 where one: "join_one b64 st q = (r, st1)" by force
  obtain j1 where run: "join_run b64 st1 qs = (j1, st')" "joined = (case r of Inr _ \<Rightarrow> q # j1 | Inl _ \<Rightarrow> j1)"
    using Cons.prems one by (auto split: prod.splits)
  from Cons.IH [OF run(1)] join_one_uses [OF one, of c] run(2) show ?case by (auto split: sum.splits if_splits)
qed simp

lemma created:
  "u \<notin> set (user_ids s) \<Longrightarrow> \<exists>s2. create_user s now u nm None ''local'' None = Inr s2 \<and> user_ids s2 = user_ids s @ [u] \<and>
     vault_members s2 = vault_members s"
  by (simp add: create_user_def) (simp add: user_ids_def)

lemma added:
  assumes "u \<notin> set (map vm_user_id (vault_members s))"
  shows "u \<in> set (user_ids s) \<Longrightarrow> refers_to (user_ids s) inviter \<Longrightarrow> \<exists>s2. add_vault_member s now u v ro inviter = Inr s2 \<and>
     vault_members s2 = vault_members s @ [\<lparr>vm_user_id = u, vm_vault_id = v, vm_role = ro, vm_invited_by = inviter, vm_joined_at = now\<rparr>] \<and>
     user_ids s2 = user_ids s"
proof -
  have "(u, v) \<notin> set (map member_key (vault_members s))" using assms by (auto simp: member_key_def)
  then show "u \<in> set (user_ids s) \<Longrightarrow> refers_to (user_ids s) inviter \<Longrightarrow> ?thesis"
    by (simp add: add_vault_member_def user_ids_def)
qed

text \<open>A fresh device that joins becomes a member with the role of the invitation.\<close>

lemma join_commit_member:
  fixes now :: int and pk :: bytes and code nm :: string
  assumes ok: "accounts_ok s" and by_user: "ic_created_by i \<in> set (user_ids s)" and fresh: "''user-'' @ d \<notin> set (user_ids s)"
  defines "s' \<equiv> snd (join_commit s now i pk code d nm)"
  shows "vault_members s' = vault_members s @ [\<lparr>vm_user_id = ''user-'' @ d, vm_vault_id = ic_vault_id i, vm_role = ic_role i,
      vm_invited_by = Some (ic_created_by i), vm_joined_at = now\<rparr>]"
    and "user_ids s' = user_ids s @ [''user-'' @ d]" and "accounts_ok s'"
proof -
  define u where "u = ''user-'' @ d"
  define s1 where "s1 = snd (consume_invite_code s code)"
  have ok1: "accounts_ok s1" unfolding s1_def consume_invite_code_def Let_def snd_conv by (rule accounts_ok_update_invites [OF ok]) simp_all
  have t1: "user_ids s1 = user_ids s" "vault_members s1 = vault_members s" "devices s1 = devices s"
    by (simp_all add: s1_def consume_invite_code_def Let_def user_ids_def)
  obtain s2 where s2: "create_user s1 now u nm None ''local'' None = Inr s2" "user_ids s2 = user_ids s @ [u]"
    "vault_members s2 = vault_members s"
    using created [OF fresh [folded u_def t1(1)], of now nm] unfolding t1 by blast
  note ok2 = accounts_ok_create_user [OF ok1 s2(1)]
  define s3 where "s3 = or_warn s2 (create_device s2 now d u nm pk)"
  have ok3: "accounts_ok s3"
    using accounts_ok_create_device [of s2 now d u nm pk] ok2 by (cases "create_device s2 now d u nm pk") (simp_all add: s3_def)
  have t3: "user_ids s3 = user_ids s @ [u]" "vault_members s3 = vault_members s"
    using s2(2,3) by (simp_all add: s3_def create_device_def user_ids_def)
  have "u \<notin> set (map vm_user_id (vault_members s3))" using ok fresh by (auto simp: t3 accounts_ok_def list_all_iff u_def)
  from added [OF this, of "Some (ic_created_by i)" now "ic_vault_id i" "ic_role i"] obtain s4 where s4: "add_vault_member s3 now u (ic_vault_id i) (ic_role i) (Some (ic_created_by i)) = Inr s4"
    "vault_members s4 = vault_members s @ [\<lparr>vm_user_id = u, vm_vault_id = ic_vault_id i, vm_role = ic_role i,
      vm_invited_by = Some (ic_created_by i), vm_joined_at = now\<rparr>]" "user_ids s4 = user_ids s @ [u]"
    using t3 by_user by (auto simp: refers_to_def)
  have s': "s' = audit s4 now (ic_vault_id i) ''join'' (Some u) (Some d) None None
      (Some (''{\"invite_code\":\"[REDACTED]\",\"role\":\"'' @ ic_role i @ ''\"}''))"
    unfolding s'_def join_commit_def Let_def s1_def [symmetric] u_def [symmetric] s2(1) or_warn_simps s3_def [symmetric] s4(1) snd_conv
    by (rule refl)
  show "vault_members s' = vault_members s @ [\<lparr>vm_user_id = ''user-'' @ d, vm_vault_id = ic_vault_id i, vm_role = ic_role i,
      vm_invited_by = Some (ic_created_by i), vm_joined_at = now\<rparr>]" "user_ids s' = user_ids s @ [''user-'' @ d]"
    by (simp_all add: s' s4 u_def)
  show "accounts_ok s'" unfolding s' audit_def by (rule accounts_ok_audit, rule accounts_ok_add_vault_member [OF ok3 s4(1)])
qed

text \<open>
  C22: one request after the other, an invitation code lets in no more devices than it has uses left, whatever codes the
  other requests carry and however they end; and the uses left afterwards are exactly the difference.
\<close>

theorem invite_uses_bound:
  assumes "join_run b64 st qs = (joined, st')"
  shows "length (filter (\<lambda>q. jq_code q = c) joined) \<le> uses_left (va_db st) c \<and>
    uses_left (va_db st') c = uses_left (va_db st) c - length (filter (\<lambda>q. jq_code q = c) joined)"
  using join_run_uses [OF assms, of c] by simp

section \<open>Interleaved requests\<close>

lemma invite_creator:
  assumes "accounts_ok s" and "get_invite_code s code = Some i"
  shows "ic_created_by i \<in> set (user_ids s)"
proof -
  have "i \<in> set (filter (\<lambda>c. ic_code c = code) (invite_codes s))"
    using assms(2) unfolding get_invite_code_def by (rule fetch_optional_in)
  with assms(1) show ?thesis by (auto simp: accounts_ok_def list_all_iff)
qed

text \<open>
  C38: two joins at the same time overspend a code. When the checks of two requests with the same code, from two new
  devices, both run before either of them writes, both devices become members with the role of the invitation, even when
  the code had a single use left.
\<close>

theorem invite_race:
  assumes ok: "accounts_ok s" and c1: "join_check b64 s t1 code pk1 = Inr (i, k1)" and c2: "join_check b64 s t2 code pk2 = Inr (i2, k2)"
    and new: "''user-'' @ d1 \<notin> set (user_ids s)" "''user-'' @ d2 \<notin> set (user_ids s)" "d1 \<noteq> d2"
    and s': "s' = snd (join_commit (snd (join_commit s t1 i k1 code d1 n1)) t2 i2 k2 code d2 n2)"
  shows "(\<forall>d \<in> {d1, d2}. \<exists>m \<in> set (vault_members s'). vm_user_id m = ''user-'' @ d \<and> vm_vault_id m = ic_vault_id i \<and>
      vm_role m = ic_role i) \<and> length (vault_members s') = length (vault_members s) + 2"
proof -
  let ?s1 = "snd (join_commit s t1 i k1 code d1 n1)"
  have code: "get_invite_code s code = Some i" "i2 = i" using join_check_uses [OF c1] join_check_uses [OF c2] by simp_all
  have creator: "ic_created_by i \<in> set (user_ids s)" by (rule invite_creator [OF ok code(1)])
  note first = join_commit_member [OF ok creator new(1), of t1 k1 code n1]
  have "''user-'' @ d2 \<notin> set (user_ids ?s1)" "ic_created_by i \<in> set (user_ids ?s1)" using first(2) new creator by simp_all
  note second = join_commit_member(1) [OF first(3) this(2,1), of t2 k2 code n2]
  show ?thesis unfolding s' code(2) second first(1) by simp
qed

section \<open>A vault with one invitation\<close>

definition invite_db :: adb where
  "invite_db = session_db\<lparr>invite_codes := [\<lparr>ic_code = ''c'', ic_vault_id = ''v1'', ic_created_by = ''u1'', ic_role = ''member'', ic_max_uses = 1,
     ic_used_count = 0, ic_expires_at = None, ic_created_at = 0\<rparr>]\<rparr>"

definition any_key :: "string \<Rightarrow> bytes option" where
  "any_key x = Some (replicate 32 7)"

lemma invite_db_ok: "accounts_ok invite_db"
  by (simp add: invite_db_def session_db_def empty_adb_def new_device_def accounts_ok_def user_ids_def refers_to_def)

lemma invite_db_users: "user_ids invite_db = [''u1'']"
  by (simp add: invite_db_def session_db_def user_ids_def)

lemma invite_db_check: "\<exists>i k. join_check any_key invite_db 5 ''c'' pk = Inr (i, k)"
  by (simp add: join_check_def invite_db_def get_invite_code_def is_invite_code_valid_def any_key_def)

theorem invite_uses_bound_witness:
  "\<exists>joined st'. join_run any_key \<lparr>va_db = invite_db, va_keys = None\<rparr>
       [\<lparr>jq_now = 5, jq_code = ''c'', jq_device_id = ''d2'', jq_device_name = ''n'', jq_public_key = ''p''\<rparr>,
        \<lparr>jq_now = 6, jq_code = ''c'', jq_device_id = ''d3'', jq_device_name = ''n'', jq_public_key = ''p''\<rparr>] = (joined, st') \<and>
     length (filter (\<lambda>q. jq_code q = ''c'') joined) \<le> 1"
proof -
  let ?qs = "[\<lparr>jq_now = 5, jq_code = ''c'', jq_device_id = ''d2'', jq_device_name = ''n'', jq_public_key = ''p''\<rparr>,
    \<lparr>jq_now = 6, jq_code = ''c'', jq_device_id = ''d3'', jq_device_name = ''n'', jq_public_key = ''p''\<rparr>]"
  obtain joined st' where r: "join_run any_key \<lparr>va_db = invite_db, va_keys = None\<rparr> ?qs = (joined, st')" by force
  have "uses_left invite_db ''c'' = 1" by (simp add: uses_left_def invite_db_def get_invite_code_def)
  with invite_uses_bound [OF r, of "''c''", THEN conjunct1] have le: "length (filter (\<lambda>q. jq_code q = ''c'') joined) \<le> 1" by simp
  show ?thesis by (intro exI conjI, rule r, rule le)
qed

theorem invite_race_witness:
  "\<exists>i k. uses_left invite_db ''c'' = 1 \<and> join_check any_key invite_db 5 ''c'' ''p'' = Inr (i, k) \<and>
     length (vault_members (snd (join_commit (snd (join_commit invite_db 5 i k ''c'' ''d2'' ''n'')) 5 i k ''c'' ''d3'' ''n''))) =
     length (vault_members invite_db) + 2"
proof -
  obtain i k where c: "join_check any_key invite_db 5 ''c'' ''p'' = Inr (i, k)" using invite_db_check by blast
  have "''user-'' @ ''d2'' \<notin> set (user_ids invite_db)" "''user-'' @ ''d3'' \<notin> set (user_ids invite_db)" "''d2'' \<noteq> ''d3''"
    by (simp_all add: invite_db_users)
  from invite_race [OF invite_db_ok c c this refl, THEN conjunct2] c show ?thesis
    by (intro exI [of _ i] exI [of _ k]) (simp add: uses_left_def invite_db_def get_invite_code_def)
qed

end
