(* ===== verification/CloudGuard.thy ===== *)
theory CloudGuard
  imports PackStore
begin

text \<open>
  The key-value table \<open>system_config\<close> and the daily cloud usage (\<^verbatim>\<open>db/system_config.rs\<close>), the limits read from the
  environment (\<^verbatim>\<open>config.rs\<close>) and the circuit breaker that every cloud operation asks first (\<^verbatim>\<open>cloud_guard.rs\<close>).
  The environment and the clock (milliseconds since the epoch) are arguments. Prices, the watched directory and the
  OAuth endpoints of \<open>AppConfig\<close> and the percentages of the snapshot are left out: nothing is decided from them. The
  statements inside \<open>BEGIN IMMEDIATE\<close> are one step. The properties range over sequences of requests, corrections after
  a download and restarts. The contract of the key-value table is the locale
  \<open>key_value\<close>; the flags of the breaker and the roster marker are clients of it.
\<close>

section \<open>Numbers in text\<close>

text \<open>
  \<open>str::parse\<close> for the integer types: an optional sign (a minus only for the signed ones), at least one decimal digit,
  and a value in the range of the type.
\<close>

definition digit_value :: "char \<Rightarrow> nat option" where
  "digit_value c = (if 48 \<le> (of_char c :: nat) \<and> of_char c \<le> (57 :: nat) then Some (of_char c - 48) else None)"

fun digits_value :: "nat \<Rightarrow> string \<Rightarrow> nat option" where
  "digits_value acc [] = Some acc"
| "digits_value acc (c # cs) = (case digit_value c of None \<Rightarrow> None | Some d \<Rightarrow> digits_value (10 * acc + d) cs)"

definition parse_digits :: "string \<Rightarrow> nat option" where
  "parse_digits s = (if s = [] then None else digits_value 0 s)"

definition strip_sign :: "char \<Rightarrow> string \<Rightarrow> string option" where
  "strip_sign c s = (case s of [] \<Rightarrow> None | d # t \<Rightarrow> if d = c then Some t else None)"

definition parse_unsigned :: "nat \<Rightarrow> string \<Rightarrow> nat option" where
  "parse_unsigned max_value s =
     Option.bind (parse_digits (coalesce (strip_sign CHR ''+'' s) s)) (\<lambda>n. if n \<le> max_value then Some n else None)"

definition parse_i64 :: "string \<Rightarrow> int option" where
  "parse_i64 s =
     (case strip_sign CHR ''-'' s of
        Some t \<Rightarrow> Option.bind (parse_digits t) (\<lambda>n. if is_i64 (- int n) then Some (- int n) else None)
      | None \<Rightarrow> Option.bind (parse_digits (coalesce (strip_sign CHR ''+'' s) s)) (\<lambda>n. if is_i64 (int n) then Some (int n) else None))"

definition show_i64 :: "int \<Rightarrow> string" where
  "show_i64 i = (if i < 0 then CHR ''-'' # dec_nat (nat (- i)) else dec_nat (nat i))"

section \<open>The configuration table (db/system_config.rs)\<close>

record SystemConfigRecord =
  sc_config_key :: string
  sc_config_value :: string
  sc_created_at :: int
  sc_updated_at :: int

record CloudUsageDailyRecord =
  cu_day_epoch :: int
  cu_read_ops :: int
  cu_write_ops :: int
  cu_egress_bytes :: int
  cu_updated_at :: int

record CloudUsageDelta =
  cd_read_ops :: int
  cd_write_ops :: int
  cd_egress_bytes :: int

record CloudUsageApplyResult =
  ar_day_epoch :: int
  ar_read_ops :: int
  ar_write_ops :: int
  ar_egress_bytes :: int
  ar_allowed :: bool

record cfgdb =
  system_config :: "SystemConfigRecord list"
  cloud_usage_daily :: "CloudUsageDailyRecord list"

definition get_system_config_value :: "cfgdb \<Rightarrow> string \<Rightarrow> string option" where
  "get_system_config_value s config_key =
     fetch_optional (map sc_config_value (filter (\<lambda>r. sc_config_key r = config_key) (system_config s)))"

definition list_system_config :: "cfgdb \<Rightarrow> SystemConfigRecord list" where
  "list_system_config s = sort_key sc_config_key (system_config s)"

definition set_system_config_value :: "int \<Rightarrow> cfgdb \<Rightarrow> string \<Rightarrow> string \<Rightarrow> cfgdb" where
  "set_system_config_value now s config_key config_value =
     (if config_key \<in> set (map sc_config_key (system_config s))
      then s\<lparr>system_config := update_where (\<lambda>r. sc_config_key r = config_key)
             (\<lambda>r. r\<lparr>sc_config_value := config_value, sc_updated_at := now\<rparr>) (system_config s)\<rparr>
      else s\<lparr>system_config := system_config s @ [\<lparr>sc_config_key = config_key, sc_config_value = config_value,
             sc_created_at = now, sc_updated_at = now\<rparr>]\<rparr>)"

definition get_last_applied_roster_snapshot_at :: "cfgdb \<Rightarrow> int option" where
  "get_last_applied_roster_snapshot_at s =
     Option.bind (get_system_config_value s ''last_applied_roster_snapshot_at'') parse_i64"

definition set_last_applied_roster_snapshot_at :: "int \<Rightarrow> cfgdb \<Rightarrow> int \<Rightarrow> cfgdb" where
  "set_last_applied_roster_snapshot_at now s created_at =
     set_system_config_value now s ''last_applied_roster_snapshot_at'' (show_i64 created_at)"

definition get_cloud_usage_for_day :: "cfgdb \<Rightarrow> int \<Rightarrow> CloudUsageDailyRecord option" where
  "get_cloud_usage_for_day s day_epoch = fetch_optional (filter (\<lambda>r. cu_day_epoch r = day_epoch) (cloud_usage_daily s))"

text \<open>\<open>INSERT OR IGNORE\<close> of the row of the day, so the row read afterwards exists.\<close>

definition ensure_usage_row :: "int \<Rightarrow> cfgdb \<Rightarrow> int \<Rightarrow> cfgdb" where
  "ensure_usage_row now s day_epoch =
     (if day_epoch \<in> set (map cu_day_epoch (cloud_usage_daily s)) then s
      else s\<lparr>cloud_usage_daily := cloud_usage_daily s @
             [\<lparr>cu_day_epoch = day_epoch, cu_read_ops = 0, cu_write_ops = 0, cu_egress_bytes = 0, cu_updated_at = now\<rparr>]\<rparr>)"

definition apply_cloud_usage_delta_with_limits ::
  "int \<Rightarrow> cfgdb \<Rightarrow> int \<Rightarrow> CloudUsageDelta \<Rightarrow> int \<Rightarrow> int \<Rightarrow> int \<Rightarrow> (sqlx_error + CloudUsageApplyResult) \<times> cfgdb" where
  "apply_cloud_usage_delta_with_limits now s day_epoch delta read_limit write_limit egress_limit =
     (let s1 = ensure_usage_row now s day_epoch
      in case get_cloud_usage_for_day s1 day_epoch of
           None \<Rightarrow> (Inl RowNotFound, s)
         | Some existing \<Rightarrow>
             let next_read_ops = i64_saturating_add (cu_read_ops existing) (cd_read_ops delta);
                 next_write_ops = i64_saturating_add (cu_write_ops existing) (cd_write_ops delta);
                 next_egress_bytes = i64_saturating_add (cu_egress_bytes existing) (cd_egress_bytes delta);
                 allowed = (next_read_ops \<le> read_limit \<and> next_write_ops \<le> write_limit \<and> next_egress_bytes \<le> egress_limit)
             in if allowed
                then (Inr \<lparr>ar_day_epoch = day_epoch, ar_read_ops = next_read_ops, ar_write_ops = next_write_ops,
                           ar_egress_bytes = next_egress_bytes, ar_allowed = True\<rparr>,
                      s1\<lparr>cloud_usage_daily := update_where (\<lambda>r. cu_day_epoch r = day_epoch)
                           (\<lambda>r. r\<lparr>cu_read_ops := next_read_ops, cu_write_ops := next_write_ops,
                              cu_egress_bytes := next_egress_bytes, cu_updated_at := now\<rparr>) (cloud_usage_daily s1)\<rparr>)
                else (Inr \<lparr>ar_day_epoch = day_epoch, ar_read_ops = cu_read_ops existing, ar_write_ops = cu_write_ops existing,
                           ar_egress_bytes = cu_egress_bytes existing, ar_allowed = False\<rparr>, s1))"

section \<open>Limits from the environment (config.rs)\<close>

type_synonym environment = "string \<Rightarrow> string option"

definition u64_max :: nat where "u64_max = 2 ^ 64 - 1"
definition u16_max :: nat where "u16_max = 2 ^ 16 - 1"

definition env_u64 :: "environment \<Rightarrow> string \<Rightarrow> nat \<Rightarrow> nat" where
  "env_u64 env key dflt = coalesce (Option.bind (env key) (parse_unsigned u64_max)) dflt"

definition env_u16 :: "environment \<Rightarrow> string \<Rightarrow> nat \<Rightarrow> nat" where
  "env_u16 env key dflt = coalesce (Option.bind (env key) (parse_unsigned u16_max)) dflt"

definition env_flag :: "environment \<Rightarrow> string \<Rightarrow> bool" where
  "env_flag env key =
     (case env key of
        None \<Rightarrow> False
      | Some v \<Rightarrow> List.member [''1'', ''true'', ''yes'', ''on''] (map ascii_lower (str_trim v)))"

record AppConfig =
  cf_max_physical_bytes_per_provider :: nat
  cf_max_upload_bytes_per_sec :: nat
  cf_max_cache_bytes :: nat
  cf_cloud_daily_write_ops_limit :: nat
  cf_cloud_daily_read_ops_limit :: nat
  cf_cloud_daily_egress_bytes_limit :: nat
  cf_cloud_max_single_upload_bytes :: nat
  cf_dry_run_active :: bool
  cf_peer_port :: nat
  cf_peer_discovery_port :: nat
  cf_peer_discovery_interval_ms :: nat
  cf_peer_stale_after_ms :: nat
  cf_peer_error_backoff_ms :: nat
  cf_device_name_override :: "string option"
  cf_oauth_redirect_url :: string

definition AppConfig_from_env :: "environment \<Rightarrow> AppConfig" where
  "AppConfig_from_env env =
     \<lparr>cf_max_physical_bytes_per_provider = env_u64 env ''OMNIDRIVE_MAX_PHYSICAL_BYTES_PER_PROVIDER'' 80530636800,
      cf_max_upload_bytes_per_sec = env_u64 env ''OMNIDRIVE_MAX_UPLOAD_BYTES_PER_SEC'' 0,
      cf_max_cache_bytes = env_u64 env ''OMNIDRIVE_CACHE_MAX_BYTES'' 53687091200,
      cf_cloud_daily_write_ops_limit = env_u64 env ''OMNIDRIVE_CLOUD_DAILY_WRITE_OPS_LIMIT'' 1000,
      cf_cloud_daily_read_ops_limit = env_u64 env ''OMNIDRIVE_CLOUD_DAILY_READ_OPS_LIMIT'' 5000,
      cf_cloud_daily_egress_bytes_limit = env_u64 env ''OMNIDRIVE_CLOUD_DAILY_EGRESS_BYTES_LIMIT'' (500 * 1024 * 1024),
      cf_cloud_max_single_upload_bytes = env_u64 env ''OMNIDRIVE_CLOUD_MAX_SINGLE_UPLOAD_BYTES'' (100 * 1024 * 1024),
      cf_dry_run_active = env_flag env ''OMNIDRIVE_DRY_RUN'',
      cf_peer_port = env_u16 env ''OMNIDRIVE_PEER_PORT'' 8788,
      cf_peer_discovery_port = env_u16 env ''OMNIDRIVE_PEER_DISCOVERY_PORT'' 8789,
      cf_peer_discovery_interval_ms = env_u64 env ''OMNIDRIVE_PEER_DISCOVERY_INTERVAL_MS'' 5000,
      cf_peer_stale_after_ms = env_u64 env ''OMNIDRIVE_PEER_STALE_AFTER_MS'' 60000,
      cf_peer_error_backoff_ms = env_u64 env ''OMNIDRIVE_PEER_ERROR_BACKOFF_MS'' 15000,
      cf_device_name_override =
        (case map_option str_trim (env ''OMNIDRIVE_DEVICE_NAME'') of Some n \<Rightarrow> if n = [] then None else Some n | None \<Rightarrow> None),
      cf_oauth_redirect_url = coalesce (env ''OAUTH_REDIRECT_URL'') ''http://127.0.0.1:8787/api/auth/google/callback''\<rparr>"

definition validate_oauth_redirect_loopback_only :: "AppConfig \<Rightarrow> string + unit" where
  "validate_oauth_redirect_loopback_only c =
     (if list_ex (\<lambda>p. take (length p) (cf_oauth_redirect_url c) = p)
           [''http://127.0.0.1:'', ''http://localhost:'', ''http://[::1]:'']
      then Inr ()
      else Inl (''OAUTH_REDIRECT_URL must be a loopback URL, got '' @ cf_oauth_redirect_url c))"

section \<open>The circuit breaker (cloud_guard.rs)\<close>

datatype GuardOperation = Read int int | Write int

datatype GuardDecision = Allowed | DryRun string | Suspended string | QuotaExceeded string

record SessionUsage =
  su_read_ops :: int
  su_write_ops :: int
  su_egress_bytes :: int

record guard =
  gd_cfg :: cfgdb
  gd_session :: SessionUsage

definition clear_cloud_suspension :: "int \<Rightarrow> cfgdb \<Rightarrow> cfgdb" where
  "clear_cloud_suspension now s =
     set_system_config_value now (set_system_config_value now s ''cloud_suspended'' ''0'') ''cloud_suspend_reason'' ''''"

definition sync_runtime_flags :: "int \<Rightarrow> cfgdb \<Rightarrow> bool \<Rightarrow> cfgdb" where
  "sync_runtime_flags now s dry_run_active =
     (let s1 = set_system_config_value now s ''dry_run_active'' (if dry_run_active then ''1'' else ''0'')
      in if dry_run_active then s1 else clear_cloud_suspension now s1)"

definition set_cloud_suspension :: "int \<Rightarrow> cfgdb \<Rightarrow> string \<Rightarrow> cfgdb" where
  "set_cloud_suspension now s reason =
     set_system_config_value now (set_system_config_value now s ''cloud_suspended'' ''1'') ''cloud_suspend_reason'' reason"

definition is_cloud_suspended :: "cfgdb \<Rightarrow> bool" where
  "is_cloud_suspended s \<longleftrightarrow> get_system_config_value s ''cloud_suspended'' = Some ''1''"

definition suspend_reason :: "cfgdb \<Rightarrow> string option" where
  "suspend_reason s =
     (case get_system_config_value s ''cloud_suspend_reason'' of
        Some v \<Rightarrow> if str_trim v = [] then None else Some v
      | None \<Rightarrow> None)"

definition dry_run :: "AppConfig \<Rightarrow> cfgdb \<Rightarrow> bool" where
  "dry_run config s \<longleftrightarrow> cf_dry_run_active config \<or> get_system_config_value s ''dry_run_active'' = Some ''1''"

definition current_day_epoch :: "int \<Rightarrow> int" where
  "current_day_epoch now = now div 86400000"

definition operation_delta :: "GuardOperation \<Rightarrow> CloudUsageDelta" where
  "operation_delta op =
     (case op of
        Read n estimated_egress_bytes \<Rightarrow>
          \<lparr>cd_read_ops = max n 0, cd_write_ops = 0, cd_egress_bytes = max estimated_egress_bytes 0\<rparr>
      | Write n \<Rightarrow> \<lparr>cd_read_ops = 0, cd_write_ops = max n 0, cd_egress_bytes = 0\<rparr>)"

text \<open>\<open>i64::try_from(limit).unwrap_or(i64::MAX)\<close>\<close>

definition limit_i64 :: "nat \<Rightarrow> int" where
  "limit_i64 n = min (int n) i64_max"

definition breaker_reason :: "CloudUsageApplyResult \<Rightarrow> int \<Rightarrow> int \<Rightarrow> int \<Rightarrow> string" where
  "breaker_reason r read_limit write_limit egress_limit =
     ''cloud circuit breaker tripped (daily read_ops='' @ show_i64 (ar_read_ops r) @ ''/'' @ show_i64 read_limit @
     '' write_ops='' @ show_i64 (ar_write_ops r) @ ''/'' @ show_i64 write_limit @
     '' egress_bytes='' @ show_i64 (ar_egress_bytes r) @ ''/'' @ show_i64 egress_limit @ '')''"

definition add_session_usage :: "SessionUsage \<Rightarrow> CloudUsageDelta \<Rightarrow> SessionUsage" where
  "add_session_usage u d =
     u\<lparr>su_read_ops := i64_saturating_add (su_read_ops u) (cd_read_ops d),
       su_write_ops := i64_saturating_add (su_write_ops u) (cd_write_ops d),
       su_egress_bytes := i64_saturating_add (su_egress_bytes u) (cd_egress_bytes d)\<rparr>"

definition current_decision :: "AppConfig \<Rightarrow> int \<Rightarrow> guard \<Rightarrow> GuardOperation \<Rightarrow> (sqlx_error + GuardDecision) \<times> guard" where
  "current_decision config now g op =
     (if dry_run config (gd_cfg g) then (Inr (DryRun ''DRY-RUN MODE ACTIVE - NO CLOUD COSTS''), g)
      else if is_cloud_suspended (gd_cfg g)
      then (Inr (Suspended (coalesce (suspend_reason (gd_cfg g)) ''cloud operations are suspended by circuit breaker'')), g)
      else
        let delta = operation_delta op;
            read_limit = limit_i64 (cf_cloud_daily_read_ops_limit config);
            write_limit = limit_i64 (cf_cloud_daily_write_ops_limit config);
            egress_limit = limit_i64 (cf_cloud_daily_egress_bytes_limit config)
        in case apply_cloud_usage_delta_with_limits now (gd_cfg g) (current_day_epoch now) delta read_limit write_limit egress_limit of
             (Inl e, s1) \<Rightarrow> (Inl e, g\<lparr>gd_cfg := s1\<rparr>)
           | (Inr result, s1) \<Rightarrow>
               if \<not> ar_allowed result
               then (let reason = breaker_reason result read_limit write_limit egress_limit
                     in (Inr (QuotaExceeded reason), g\<lparr>gd_cfg := set_cloud_suspension now s1 reason\<rparr>))
               else (Inr Allowed, g\<lparr>gd_cfg := s1, gd_session := add_session_usage (gd_session g) delta\<rparr>))"

definition try_authorize_read :: "AppConfig \<Rightarrow> int \<Rightarrow> guard \<Rightarrow> int \<Rightarrow> (string + unit) \<times> guard" where
  "try_authorize_read config now g estimated_bytes =
     (case current_decision config now g (Read 1 (max estimated_bytes 0)) of
        (Inr Allowed, g') \<Rightarrow> (Inr (), g')
      | (Inr (DryRun message), g') \<Rightarrow> (Inl (''dry-run: '' @ message), g')
      | (Inr (Suspended reason), g') \<Rightarrow> (Inl reason, g')
      | (Inr (QuotaExceeded reason), g') \<Rightarrow> (Inl reason, g')
      | (Inl _, g') \<Rightarrow> (Inl ''cloud guard error'', g'))"

definition reconcile_read_bytes :: "int \<Rightarrow> guard \<Rightarrow> int \<Rightarrow> (sqlx_error + unit) \<times> guard" where
  "reconcile_read_bytes now g delta_bytes =
     (if delta_bytes = 0 then (Inr (), g)
      else
        let delta = \<lparr>cd_read_ops = 0, cd_write_ops = 0, cd_egress_bytes = delta_bytes\<rparr>
        in case apply_cloud_usage_delta_with_limits now (gd_cfg g) (current_day_epoch now) delta i64_max i64_max i64_max of
             (Inl e, s1) \<Rightarrow> (Inl e, g\<lparr>gd_cfg := s1\<rparr>)
           | (Inr _, s1) \<Rightarrow> (Inr (), g\<lparr>gd_cfg := s1, gd_session := add_session_usage (gd_session g) delta\<rparr>))"

definition enforce_single_upload_size_limit :: "AppConfig \<Rightarrow> nat \<Rightarrow> string + unit" where
  "enforce_single_upload_size_limit config file_size =
     (if cf_cloud_max_single_upload_bytes config < file_size
      then Inl (''file size guard exceeded: '' @ dec_nat file_size @ '' bytes is above the configured limit '' @
                dec_nat (cf_cloud_max_single_upload_bytes config) @ '' bytes'')
      else Inr ())"

record CloudGuardSnapshot =
  cg_status :: string
  cg_message :: string
  cg_dry_run_active :: bool
  cg_cloud_suspended :: bool
  cg_cloud_suspend_reason :: "string option"
  cg_day_epoch :: int
  cg_session :: SessionUsage
  cg_daily :: "int \<times> int \<times> int"
  cg_limits :: "int \<times> int \<times> int"

definition snapshot :: "AppConfig \<Rightarrow> int \<Rightarrow> guard \<Rightarrow> CloudGuardSnapshot" where
  "snapshot config now g =
     (let s = gd_cfg g;
          daily = get_cloud_usage_for_day s (current_day_epoch now);
          suspended = is_cloud_suspended s;
          dry = dry_run config s
      in \<lparr>cg_status = (if dry then ''WARN'' else if suspended then ''ERROR'' else ''OK''),
          cg_message = (if dry then ''DRY-RUN mode is active; cloud operations are simulated with no external side effects.''
            else if suspended then coalesce (suspend_reason s) ''cloud operations are suspended by circuit breaker''
            else ''Cloud guard is active and within configured daily limits.''),
          cg_dry_run_active = dry, cg_cloud_suspended = suspended, cg_cloud_suspend_reason = suspend_reason s,
          cg_day_epoch = current_day_epoch now, cg_session = gd_session g,
          cg_daily = (case daily of None \<Rightarrow> (0, 0, 0) | Some d \<Rightarrow> (cu_read_ops d, cu_write_ops d, cu_egress_bytes d)),
          cg_limits = (limit_i64 (cf_cloud_daily_read_ops_limit config), limit_i64 (cf_cloud_daily_write_ops_limit config),
            limit_i64 (cf_cloud_daily_egress_bytes_limit config))\<rparr>)"

section \<open>Printed numbers are read back\<close>

lemma digit_value_digit: "n < 10 \<Longrightarrow> digit_value (digit n) = Some n"
proof -
  have "\<forall>n \<in> set [0..<10]. digit_value (digit n) = Some n" unfolding digit_value_def digit_def by code_simp
  then show "n < 10 \<Longrightarrow> digit_value (digit n) = Some n" by simp
qed

lemma digits_value_append: "digits_value acc (u @ v) = Option.bind (digits_value acc u) (\<lambda>a. digits_value a v)"
  by (induction u arbitrary: acc) (simp_all split: option.split)

lemma digits_value_dec_nat: "digits_value 0 (dec_nat n) = Some n"
proof (induction n rule: dec_nat.induct)
  case (1 n)
  show ?case
  proof (cases "n < 10")
    case True
    then show ?thesis by (simp add: dec_nat_small digit_value_digit)
  next
    case False
    then show ?thesis using 1 by (subst dec_nat.simps) (simp add: digits_value_append digit_value_digit)
  qed
qed

lemma parse_dec_nat: "parse_digits (dec_nat n) = Some n"
  by (simp add: parse_digits_def dec_nat_nonempty digits_value_dec_nat)

lemma dec_nat_head:
  "dec_nat n = c # t \<Longrightarrow> digit_value c \<noteq> None"
  using digits_value_dec_nat [of n] by (auto split: option.splits)

lemma dec_nat_no_sign: "strip_sign CHR ''+'' (dec_nat n) = None" "strip_sign CHR ''-'' (dec_nat n) = None"
  using dec_nat_head [of n] by (auto simp: strip_sign_def digit_value_def split: list.split)

lemma parse_unsigned_dec_nat: "n \<le> m \<Longrightarrow> parse_unsigned m (dec_nat n) = Some n"
  by (simp add: parse_unsigned_def parse_dec_nat dec_nat_no_sign)

lemma parse_i64_show: "is_i64 i \<Longrightarrow> parse_i64 (show_i64 i) = Some i"
  by (cases "i < 0") (simp_all add: parse_i64_def show_i64_def dec_nat_no_sign parse_dec_nat, simp add: strip_sign_def parse_dec_nat)

section \<open>The key-value contract\<close>

locale key_value =
  fixes get :: "'s \<Rightarrow> 'k \<Rightarrow> 'v option" and put :: "'t \<Rightarrow> 's \<Rightarrow> 'k \<Rightarrow> 'v \<Rightarrow> 's"
  assumes get_put_same: "get (put t s k v) k = Some v"
    and get_put_other: "k \<noteq> k' \<Longrightarrow> get (put t s k v) k' = get s k'"
begin

lemma get_put: "get (put t s k v) k' = (if k = k' then Some v else get s k')"
  by (simp add: get_put_same get_put_other)

lemma put_pair:
  assumes "k1 \<noteq> k2"
  shows "get (put t (put t' s k1 v1) k2 v2) k1 = Some v1" and "get (put t (put t' s k1 v1) k2 v2) k2 = Some v2"
    and "k \<noteq> k1 \<Longrightarrow> k \<noteq> k2 \<Longrightarrow> get (put t (put t' s k1 v1) k2 v2) k = get s k"
  using assms by (auto simp: get_put)

end

lemma fetch_map_update:
  assumes "\<And>r. key (f r) = key r"
  shows "fetch_optional (map val (filter (\<lambda>r. key r = k') (update_where (\<lambda>r. key r = k) f t))) =
    (if k = k' then map_option (val \<circ> f) (fetch_optional (filter (\<lambda>r. key r = k) t))
     else fetch_optional (map val (filter (\<lambda>r. key r = k') t)))"
  by (induction t) (auto simp: assms o_def)

interpretation cfg: key_value get_system_config_value set_system_config_value
proof
  fix t s k v k'
  show "get_system_config_value (set_system_config_value t s k v) k = Some v"
  proof (cases "k \<in> set (map sc_config_key (system_config s))")
    case True
    then have "filter (\<lambda>r. sc_config_key r = k) (system_config s) \<noteq> []" by (auto simp: filter_empty_conv)
    then obtain r where "fetch_optional (filter (\<lambda>r. sc_config_key r = k) (system_config s)) = Some r"
      by (cases "filter (\<lambda>r. sc_config_key r = k) (system_config s)") simp_all
    with True show ?thesis
      by (simp add: get_system_config_value_def set_system_config_value_def fetch_map_update)
  next
    case False
    then have "filter (\<lambda>r. sc_config_key r = k) (system_config s) = []" by (auto simp: filter_empty_conv)
    with False show ?thesis by (simp add: get_system_config_value_def set_system_config_value_def)
  qed
  show "k \<noteq> k' \<Longrightarrow> get_system_config_value (set_system_config_value t s k v) k' = get_system_config_value s k'"
    by (simp add: get_system_config_value_def set_system_config_value_def fetch_map_update)
qed

lemma set_config_usage [simp]: "cloud_usage_daily (set_system_config_value now s k v) = cloud_usage_daily s"
  by (simp add: set_system_config_value_def)

lemma roster_marker_read_back:
  "is_i64 t \<Longrightarrow> get_last_applied_roster_snapshot_at (set_last_applied_roster_snapshot_at now s t) = Some t"
  by (simp add: get_last_applied_roster_snapshot_at_def set_last_applied_roster_snapshot_at_def cfg.get_put parse_i64_show)


section \<open>The breaker keeps the daily budget\<close>

definition daily_usage :: "cfgdb \<Rightarrow> int \<Rightarrow> int \<times> int \<times> int" where
  "daily_usage s day =
     (case get_cloud_usage_for_day s day of None \<Rightarrow> (0, 0, 0) | Some d \<Rightarrow> (cu_read_ops d, cu_write_ops d, cu_egress_bytes d))"

definition add_usage :: "int \<times> int \<times> int \<Rightarrow> CloudUsageDelta \<Rightarrow> int \<times> int \<times> int" where
  "add_usage u d = (case u of (r, w, e) \<Rightarrow>
     (i64_saturating_add r (cd_read_ops d), i64_saturating_add w (cd_write_ops d), i64_saturating_add e (cd_egress_bytes d)))"

definition within :: "int \<Rightarrow> int \<Rightarrow> int \<Rightarrow> int \<times> int \<times> int \<Rightarrow> bool" where
  "within rl wl el u \<longleftrightarrow> fst u \<le> rl \<and> fst (snd u) \<le> wl \<and> snd (snd u) \<le> el"

definition within_limits :: "AppConfig \<Rightarrow> int \<times> int \<times> int \<Rightarrow> bool" where
  "within_limits c = within (limit_i64 (cf_cloud_daily_read_ops_limit c)) (limit_i64 (cf_cloud_daily_write_ops_limit c))
     (limit_i64 (cf_cloud_daily_egress_bytes_limit c))"

lemma ensure_usage_row_facts:
  "daily_usage (ensure_usage_row now s day) d = daily_usage s d" "system_config (ensure_usage_row now s day) = system_config s"
  "\<exists>r. get_cloud_usage_for_day (ensure_usage_row now s day) day = Some r"
proof -
  show "daily_usage (ensure_usage_row now s day) d = daily_usage s d"
  proof (cases "d = day")
    case False
    then show ?thesis by (simp add: daily_usage_def ensure_usage_row_def get_cloud_usage_for_day_def)
  next
    case True
    have "filter (\<lambda>r. cu_day_epoch r = day) (cloud_usage_daily s) = []" if "day \<notin> set (map cu_day_epoch (cloud_usage_daily s))"
      using that by (auto simp: filter_empty_conv)
    with True show ?thesis by (simp add: daily_usage_def ensure_usage_row_def get_cloud_usage_for_day_def)
  qed
  show "system_config (ensure_usage_row now s day) = system_config s" by (simp add: ensure_usage_row_def)
  have "filter (\<lambda>r. cu_day_epoch r = day) (cloud_usage_daily (ensure_usage_row now s day)) \<noteq> []"
    by (auto simp: ensure_usage_row_def filter_empty_conv)
  then show "\<exists>r. get_cloud_usage_for_day (ensure_usage_row now s day) day = Some r"
    unfolding get_cloud_usage_for_day_def
    by (cases "filter (\<lambda>r. cu_day_epoch r = day) (cloud_usage_daily (ensure_usage_row now s day))") simp_all
qed

text \<open>One booking: all of the operation is counted, or nothing, and no other day and no flag changes.\<close>

lemma apply_delta_result:
  assumes "apply_cloud_usage_delta_with_limits now s day delta rl wl el = (r, s')"
  shows "\<exists>res. r = Inr res \<and> (ar_allowed res \<longleftrightarrow> within rl wl el (add_usage (daily_usage s day) delta)) \<and>
    daily_usage s' day = (if ar_allowed res then add_usage (daily_usage s day) delta else daily_usage s day)"
    and "system_config s' = system_config s" and "d \<noteq> day \<Longrightarrow> daily_usage s' d = daily_usage s d"
proof -
  let ?s1 = "ensure_usage_row now s day"
  note row = ensure_usage_row_facts [of now s day]
  from row(3) obtain x where x: "get_cloud_usage_for_day ?s1 day = Some x" by blast
  then have u: "daily_usage s day = (cu_read_ops x, cu_write_ops x, cu_egress_bytes x)"
    using row(1) [of day] by (simp add: daily_usage_def)
  have upd: "get_cloud_usage_for_day (?s1\<lparr>cloud_usage_daily := update_where (\<lambda>r. cu_day_epoch r = day) f (cloud_usage_daily ?s1)\<rparr>) d' =
      (if d' = day then Some (f x) else get_cloud_usage_for_day ?s1 d')" if "\<And>r. cu_day_epoch (f r) = cu_day_epoch r" for f :: "CloudUsageDailyRecord \<Rightarrow> CloudUsageDailyRecord" and d'
    using fetch_map_update [of cu_day_epoch f id d' day "cloud_usage_daily ?s1", OF that] x
    by (auto simp: get_cloud_usage_for_day_def)
  define nxt where "nxt = add_usage (daily_usage s day) delta"
  define f :: "CloudUsageDailyRecord \<Rightarrow> CloudUsageDailyRecord" where "f = (\<lambda>r. r\<lparr>cu_read_ops := fst nxt, cu_write_ops := fst (snd nxt), cu_egress_bytes := snd (snd nxt), cu_updated_at := now\<rparr>)"
  define s2 where "s2 = ?s1\<lparr>cloud_usage_daily := update_where (\<lambda>r. cu_day_epoch r = day) f (cloud_usage_daily ?s1)\<rparr>"
  have s2: "daily_usage s2 day = nxt" "d \<noteq> day \<Longrightarrow> daily_usage s2 d = daily_usage s d" "system_config s2 = system_config s"
    using upd [of f day] upd [of f d] row(1) [of d] row(2) by (simp_all add: s2_def f_def daily_usage_def)
  have "within rl wl el nxt \<Longrightarrow> \<exists>res. apply_cloud_usage_delta_with_limits now s day delta rl wl el = (Inr res, s2) \<and> ar_allowed res"
    "\<not> within rl wl el nxt \<Longrightarrow> \<exists>res. apply_cloud_usage_delta_with_limits now s day delta rl wl el = (Inr res, ?s1) \<and> \<not> ar_allowed res"
    unfolding apply_cloud_usage_delta_with_limits_def Let_def x
    by (simp_all add: nxt_def u add_usage_def within_def s2_def f_def)
  with assms consider res where "within rl wl el nxt" "r = Inr res" "ar_allowed res" "s' = s2"
    | res where "\<not> within rl wl el nxt" "r = Inr res" "\<not> ar_allowed res" "s' = ?s1" by fastforce
  note cs = this
  show "\<exists>res. r = Inr res \<and> (ar_allowed res \<longleftrightarrow> within rl wl el (add_usage (daily_usage s day) delta)) \<and>
      daily_usage s' day = (if ar_allowed res then add_usage (daily_usage s day) delta else daily_usage s day)"
    by (rule cs) (simp_all add: s2 row nxt_def)
  show "system_config s' = system_config s" by (rule cs) (simp_all add: s2 row)
  show "daily_usage s' d = daily_usage s d" if "d \<noteq> day" by (rule cs) (simp_all add: s2 row that)
qed

lemma daily_usage_cong: "cloud_usage_daily s = cloud_usage_daily s' \<Longrightarrow> daily_usage s = daily_usage s'"
  by (intro ext) (simp add: daily_usage_def get_cloud_usage_for_day_def)

lemma get_config_cong: "system_config s = system_config s' \<Longrightarrow> get_system_config_value s = get_system_config_value s'"
  by (intro ext) (simp add: get_system_config_value_def)

lemma breaker_reason_shown: "str_trim (breaker_reason r rl wl el) \<noteq> []"
  by (simp add: breaker_reason_def str_trim_def trim_end_where_def is_space_def dropWhile_append)

lemma suspension_facts:
  "is_cloud_suspended (set_cloud_suspension now s reason)" "daily_usage (set_cloud_suspension now s reason) = daily_usage s"
  "str_trim reason \<noteq> [] \<Longrightarrow> suspend_reason (set_cloud_suspension now s reason) = Some reason"
  "dry_run config (set_cloud_suspension now s reason) = dry_run config s"
  by (simp_all add: is_cloud_suspended_def set_cloud_suspension_def suspend_reason_def dry_run_def cfg.get_put
      daily_usage_cong [OF set_config_usage])

text \<open>A cleared suspension and a restart without dry run put the breaker back.\<close>

lemma clear_suspension_facts:
  "\<not> is_cloud_suspended (clear_cloud_suspension now s)" "\<not> is_cloud_suspended (sync_runtime_flags now s False)"
  "dry_run config (sync_runtime_flags now s b) \<longleftrightarrow> cf_dry_run_active config \<or> b"
  by (simp_all add: is_cloud_suspended_def clear_cloud_suspension_def sync_runtime_flags_def dry_run_def cfg.get_put Let_def)

lemma decision_suspended:
  assumes "\<not> dry_run config (gd_cfg g)" and "is_cloud_suspended (gd_cfg g)" and "suspend_reason (gd_cfg g) = Some reason"
  shows "current_decision config now g op = (Inr (Suspended reason), g)"
  using assms by (simp add: current_decision_def)

lemma decision_active:
  assumes nodry: "\<not> dry_run config (gd_cfg g)" and act: "\<not> is_cloud_suspended (gd_cfg g)"
    and c: "current_decision config now g op = (r, g')"
  defines "nxt \<equiv> add_usage (daily_usage (gd_cfg g) (current_day_epoch now)) (operation_delta op)"
  shows "within_limits config nxt \<Longrightarrow> r = Inr Allowed \<and> daily_usage (gd_cfg g') (current_day_epoch now) = nxt \<and>
      \<not> dry_run config (gd_cfg g') \<and> \<not> is_cloud_suspended (gd_cfg g')"
    and "\<not> within_limits config nxt \<Longrightarrow> \<exists>reason. r = Inr (QuotaExceeded reason) \<and>
      daily_usage (gd_cfg g') (current_day_epoch now) = daily_usage (gd_cfg g) (current_day_epoch now) \<and>
      \<not> dry_run config (gd_cfg g') \<and> is_cloud_suspended (gd_cfg g') \<and> suspend_reason (gd_cfg g') = Some reason"
    and "d \<noteq> current_day_epoch now \<Longrightarrow> daily_usage (gd_cfg g') d = daily_usage (gd_cfg g) d"
proof -
  let ?rl = "limit_i64 (cf_cloud_daily_read_ops_limit config)" and ?wl = "limit_i64 (cf_cloud_daily_write_ops_limit config)"
    and ?el = "limit_i64 (cf_cloud_daily_egress_bytes_limit config)" and ?day = "current_day_epoch now"
  obtain x s1 where ap: "apply_cloud_usage_delta_with_limits now (gd_cfg g) ?day (operation_delta op) ?rl ?wl ?el = (x, s1)"
    by force
  note res = apply_delta_result [OF ap]
  from res(1) obtain res where x: "x = Inr res" "ar_allowed res \<longleftrightarrow> within_limits config nxt"
    "daily_usage s1 ?day = (if ar_allowed res then nxt else daily_usage (gd_cfg g) ?day)"
    unfolding within_limits_def nxt_def by blast
  have flags: "dry_run config s1 = dry_run config (gd_cfg g)" "is_cloud_suspended s1 = is_cloud_suspended (gd_cfg g)"
    by (simp_all add: dry_run_def is_cloud_suspended_def get_config_cong [OF res(2)])
  have run: "current_decision config now g op = (if ar_allowed res
      then (Inr Allowed, g\<lparr>gd_cfg := s1, gd_session := add_session_usage (gd_session g) (operation_delta op)\<rparr>)
      else (Inr (QuotaExceeded (breaker_reason res ?rl ?wl ?el)),
        g\<lparr>gd_cfg := set_cloud_suspension now s1 (breaker_reason res ?rl ?wl ?el)\<rparr>))"
    using nodry act by (simp add: current_decision_def ap x(1) Let_def)
  show "within_limits config nxt \<Longrightarrow> r = Inr Allowed \<and> daily_usage (gd_cfg g') ?day = nxt \<and>
      \<not> dry_run config (gd_cfg g') \<and> \<not> is_cloud_suspended (gd_cfg g')"
    using c x nodry act flags by (auto simp: run)
  show "\<not> within_limits config nxt \<Longrightarrow> \<exists>reason. r = Inr (QuotaExceeded reason) \<and>
      daily_usage (gd_cfg g') ?day = daily_usage (gd_cfg g) ?day \<and>
      \<not> dry_run config (gd_cfg g') \<and> is_cloud_suspended (gd_cfg g') \<and> suspend_reason (gd_cfg g') = Some reason"
    using c x nodry flags by (auto simp: run suspension_facts breaker_reason_shown)
  show "d \<noteq> ?day \<Longrightarrow> daily_usage (gd_cfg g') d = daily_usage (gd_cfg g) d"
    using c res(3) [of d] by (auto simp: run suspension_facts split: if_splits)
qed

lemma reconcile_result:
  assumes "reconcile_read_bytes now g b = (r, g')"
  shows "daily_usage (gd_cfg g') day = (if current_day_epoch now = day \<and> b \<noteq> 0
      then add_usage (daily_usage (gd_cfg g) day) \<lparr>cd_read_ops = 0, cd_write_ops = 0, cd_egress_bytes = b\<rparr>
      else daily_usage (gd_cfg g) day)"
    and "system_config (gd_cfg g') = system_config (gd_cfg g)"
proof -
  let ?d = "\<lparr>cd_read_ops = 0, cd_write_ops = 0, cd_egress_bytes = b\<rparr>"
  obtain x s1 where ap: "apply_cloud_usage_delta_with_limits now (gd_cfg g) (current_day_epoch now) ?d i64_max i64_max i64_max = (x, s1)"
    by force
  have full: "within i64_max i64_max i64_max (add_usage u d)" for u d
    by (cases u) (simp add: within_def add_usage_def i64_saturating_add_def saturate_i64_def i64_min_def i64_max_def)
  note res = apply_delta_result [OF ap]
  have g': "gd_cfg g' = (if b = 0 then gd_cfg g else s1)"
    using assms ap by (auto simp: reconcile_read_bytes_def Let_def split: sum.splits if_splits)
  show "system_config (gd_cfg g') = system_config (gd_cfg g)" by (simp add: g' res(2))
  show "daily_usage (gd_cfg g') day = (if current_day_epoch now = day \<and> b \<noteq> 0 then add_usage (daily_usage (gd_cfg g) day) ?d
      else daily_usage (gd_cfg g) day)"
    using res(1) res(3) [of day] full by (auto simp: g')
qed

text \<open>
  What happens to the breaker: a request for a cloud operation, the correction of the traffic after a download, and a start
  of the daemon, which keeps the tables and clears a suspension unless it runs dry. The events come one after the other.
\<close>

datatype guard_event = Ask GuardOperation | Reconcile int | Restart bool

definition guard_step :: "AppConfig \<Rightarrow> guard \<Rightarrow> int \<times> guard_event \<Rightarrow> (sqlx_error + GuardDecision) option \<times> guard" where
  "guard_step config g e =
     (case e of
        (now, Ask op) \<Rightarrow> (case current_decision config now g op of (d, g') \<Rightarrow> (Some d, g'))
      | (now, Reconcile b) \<Rightarrow> (None, snd (reconcile_read_bytes now g b))
      | (now, Restart dry) \<Rightarrow> (None, \<lparr>gd_cfg = sync_runtime_flags now (gd_cfg g) dry,
           gd_session = \<lparr>su_read_ops = 0, su_write_ops = 0, su_egress_bytes = 0\<rparr>\<rparr>))"

definition guard_after :: "AppConfig \<Rightarrow> guard \<Rightarrow> (int \<times> guard_event) list \<Rightarrow> guard" where
  "guard_after config = foldl (\<lambda>g e. snd (guard_step config g e))"

definition guard_answer :: "AppConfig \<Rightarrow> guard \<Rightarrow> (int \<times> guard_event) list \<Rightarrow> nat \<Rightarrow> (sqlx_error + GuardDecision) option" where
  "guard_answer config g evs i = fst (guard_step config (guard_after config g (take i evs)) (evs ! i))"

definition refused :: "(sqlx_error + GuardDecision) option \<Rightarrow> bool" where
  "refused a \<longleftrightarrow> (case a of Some (Inr (QuotaExceeded _)) \<Rightarrow> True | Some (Inr (Suspended _)) \<Rightarrow> True | _ \<Rightarrow> False)"

text \<open>What an event books for a day, and what corrections add to its traffic.\<close>

definition booking :: "int \<Rightarrow> int \<times> guard_event \<Rightarrow> (sqlx_error + GuardDecision) option \<Rightarrow> CloudUsageDelta list" where
  "booking day e a =
     (if current_day_epoch (fst e) \<noteq> day then []
      else case snd e of
             Ask op \<Rightarrow> if a = Some (Inr Allowed) then [operation_delta op] else []
           | Reconcile b \<Rightarrow> if b = 0 then [] else [\<lparr>cd_read_ops = 0, cd_write_ops = 0, cd_egress_bytes = b\<rparr>]
           | Restart _ \<Rightarrow> [])"

definition bookings :: "AppConfig \<Rightarrow> guard \<Rightarrow> int \<Rightarrow> (int \<times> guard_event) list \<Rightarrow> CloudUsageDelta list" where
  "bookings config g day evs = concat (map (\<lambda>i. booking day (evs ! i) (guard_answer config g evs i)) [0..<length evs])"

definition corrected :: "int \<Rightarrow> (int \<times> guard_event) list \<Rightarrow> int" where
  "corrected day evs = sum_list (map (\<lambda>e. case snd e of Reconcile b \<Rightarrow> if current_day_epoch (fst e) = day then max b 0 else 0 | _ \<Rightarrow> 0) evs)"

definition i64_usage :: "int \<times> int \<times> int \<Rightarrow> bool" where
  "i64_usage u \<longleftrightarrow> is_i64 (fst u) \<and> is_i64 (fst (snd u)) \<and> is_i64 (snd (snd u))"

lemma guard_after_snoc: "guard_after config g (evs @ [e]) = snd (guard_step config (guard_after config g evs) e)"
  by (simp add: guard_after_def)

lemma guard_answer_snoc:
  "i < length evs \<Longrightarrow> guard_answer config g (evs @ [e]) i = guard_answer config g evs i"
  "guard_answer config g (evs @ [e]) (length evs) = fst (guard_step config (guard_after config g evs) e)"
  by (simp_all add: guard_answer_def nth_append)

lemma bookings_snoc:
  "bookings config g day (evs @ [e]) =
     bookings config g day evs @ booking day e (fst (guard_step config (guard_after config g evs) e))"
proof -
  have "map (\<lambda>i. booking day ((evs @ [e]) ! i) (guard_answer config g (evs @ [e]) i)) [0..<length evs] =
      map (\<lambda>i. booking day (evs ! i) (guard_answer config g evs i)) [0..<length evs]"
    by (simp cong: map_cong add: guard_answer_snoc(1) nth_append)
  then have "concat (map (\<lambda>i. booking day ((evs @ [e]) ! i) (guard_answer config g (evs @ [e]) i)) [0..<length evs]) = bookings config g day evs"
    by (simp only: bookings_def)
  then show ?thesis by (simp add: bookings_def [of config g day "evs @ [e]"] guard_answer_snoc)
qed

lemma decision_refuses:
  assumes "dry_run config (gd_cfg g) \<or> is_cloud_suspended (gd_cfg g)"
  shows "\<exists>d. current_decision config now g op = (Inr d, g) \<and> d \<noteq> Allowed"
  using assms by (auto simp: current_decision_def)

text \<open>An operation is allowed exactly when the breaker is closed and the day with it is within the limits.\<close>

lemma ask_allowed:
  "fst (guard_step config g (now, Ask op)) = Some (Inr Allowed) \<longleftrightarrow>
     \<not> dry_run config (gd_cfg g) \<and> \<not> is_cloud_suspended (gd_cfg g) \<and>
     within_limits config (add_usage (daily_usage (gd_cfg g) (current_day_epoch now)) (operation_delta op))"
proof -
  obtain d g' where d: "current_decision config now g op = (d, g')" by force
  show ?thesis
  proof (cases "dry_run config (gd_cfg g) \<or> is_cloud_suspended (gd_cfg g)")
    case True
    from decision_refuses [OF True, of now op] d True show ?thesis by (auto simp: guard_step_def)
  next
    case False
    then have nd: "\<not> dry_run config (gd_cfg g)" "\<not> is_cloud_suspended (gd_cfg g)" by simp_all
    from decision_active [OF nd d] d nd show ?thesis by (auto simp: guard_step_def)
  qed
qed

lemma restart_keeps_usage: "daily_usage (sync_runtime_flags now s dry) = daily_usage s"
  by (rule daily_usage_cong) (simp add: sync_runtime_flags_def clear_cloud_suspension_def Let_def)

lemma ask_step:
  assumes "current_decision config now g op = (d, g')"
  shows "guard_step config g (now, Ask op) = (Some d, g')"
    and "d = Inr Allowed \<longleftrightarrow> fst (guard_step config g (now, Ask op)) = Some (Inr Allowed)"
  using assms by (simp_all add: guard_step_def)

lemma step_books:
  "daily_usage (gd_cfg (snd (guard_step config g e))) day =
     foldl add_usage (daily_usage (gd_cfg g) day) (booking day e (fst (guard_step config g e)))"
proof -
  obtain now ev where e: "e = (now, ev)" by (cases e)
  show ?thesis
  proof (cases ev)
    case (Ask op)
    obtain d g' where d: "current_decision config now g op = (d, g')" by force
    note st = ask_step(1) [OF d]
    show ?thesis
    proof (cases "dry_run config (gd_cfg g) \<or> is_cloud_suspended (gd_cfg g)")
      case True
      from decision_refuses [OF True, of now op] d have "g' = g" "d \<noteq> Inr Allowed" by auto
      then show ?thesis by (simp add: st e Ask booking_def)
    next
      case False
      then have nd: "\<not> dry_run config (gd_cfg g)" "\<not> is_cloud_suspended (gd_cfg g)" by simp_all
      note dec = decision_active [OF nd d]
      show ?thesis
      proof (cases "current_day_epoch now = day")
        case same: True
        show ?thesis
        proof (cases "within_limits config (add_usage (daily_usage (gd_cfg g) (current_day_epoch now)) (operation_delta op))")
          case True
          from dec(1) [OF True] show ?thesis by (simp add: st e Ask booking_def same)
        next
          case False
          from dec(2) [OF False] obtain reason where "d = Inr (QuotaExceeded reason)"
            "daily_usage (gd_cfg g') (current_day_epoch now) = daily_usage (gd_cfg g) (current_day_epoch now)" by blast
          then show ?thesis by (simp add: st e Ask booking_def same)
        qed
      next
        case False
        with dec(3) [of day] show ?thesis by (simp add: st e Ask booking_def)
      qed
    qed
  next
    case (Reconcile b)
    obtain r g' where r: "reconcile_read_bytes now g b = (r, g')" by force
    from reconcile_result(1) [OF r, of day] show ?thesis by (simp add: guard_step_def e Reconcile booking_def r)
  next
    case (Restart dry)
    then show ?thesis by (simp add: guard_step_def e booking_def restart_keeps_usage)
  qed
qed

lemma step_suspends:
  assumes "refused (fst (guard_step config g e)) \<or> is_cloud_suspended (gd_cfg g) \<and> (\<forall>dry. snd e \<noteq> Restart dry)"
  shows "is_cloud_suspended (gd_cfg (snd (guard_step config g e)))"
proof -
  obtain now ev where e: "e = (now, ev)" by (cases e)
  show ?thesis
  proof (cases ev)
    case (Ask op)
    obtain d g' where d: "current_decision config now g op = (d, g')" by force
    note st = ask_step(1) [OF d]
    show ?thesis
    proof (cases "is_cloud_suspended (gd_cfg g)")
      case True
      with decision_refuses [of config g now op] d have "g' = g" by auto
      with True show ?thesis by (simp add: st e Ask)
    next
      case False
      with assms have r: "refused (Some d)" by (simp add: st e Ask)
      have nd: "\<not> dry_run config (gd_cfg g)"
      proof
        assume "dry_run config (gd_cfg g)"
        with d have "d = Inr (DryRun ''DRY-RUN MODE ACTIVE - NO CLOUD COSTS'')" by (simp add: current_decision_def)
        with r show False by (simp add: refused_def)
      qed
      note dec = decision_active [OF nd False d]
      have "\<not> within_limits config (add_usage (daily_usage (gd_cfg g) (current_day_epoch now)) (operation_delta op))"
        using dec(1) r by (auto simp: refused_def)
      from dec(2) [OF this] have "is_cloud_suspended (gd_cfg g')" by blast
      then show ?thesis by (simp add: st e Ask)
    qed
  next
    case (Reconcile b)
    obtain r g' where r: "reconcile_read_bytes now g b = (r, g')" by force
    have "is_cloud_suspended (gd_cfg g') = is_cloud_suspended (gd_cfg g)"
      by (simp add: is_cloud_suspended_def get_config_cong [OF reconcile_result(2) [OF r]])
    with assms show ?thesis by (simp add: guard_step_def e Reconcile refused_def r)
  next
    case (Restart dry)
    with assms show ?thesis by (auto simp: guard_step_def e refused_def)
  qed
qed

text \<open>One booking within the bounds: only a correction takes the traffic past its limit, by no more than it adds.\<close>

lemma sat_add_mono: "is_i64 a \<Longrightarrow> b \<le> 0 \<Longrightarrow> i64_saturating_add a b \<le> a"
  by (auto simp: i64_saturating_add_def saturate_i64_def is_i64_def i64_min_def i64_max_def)

lemma sat_add_le: "is_i64 a \<Longrightarrow> i64_saturating_add a b \<le> a + max b 0"
  by (auto simp: i64_saturating_add_def saturate_i64_def is_i64_def i64_min_def i64_max_def)

lemma sat_add_i64: "is_i64 (i64_saturating_add a b)"
  by (simp add: i64_saturating_add_def saturate_i64_def is_i64_def i64_min_def i64_max_def)

lemma step_bounds:
  fixes config :: AppConfig and e :: "int \<times> guard_event"
  assumes "i64_usage (daily_usage (gd_cfg g) day)"
  defines "u \<equiv> daily_usage (gd_cfg g) day" and "u' \<equiv> daily_usage (gd_cfg (snd (guard_step config g e))) day"
  shows "i64_usage u' \<and> fst u' \<le> max (fst u) (limit_i64 (cf_cloud_daily_read_ops_limit config)) \<and>
    fst (snd u') \<le> max (fst (snd u)) (limit_i64 (cf_cloud_daily_write_ops_limit config)) \<and>
    snd (snd u') \<le> max (snd (snd u)) (limit_i64 (cf_cloud_daily_egress_bytes_limit config)) + corrected day [e]"
proof -
  obtain now ev where e: "e = (now, ev)" by (cases e)
  have u': "u' = foldl add_usage u (booking day e (fst (guard_step config g e)))" by (simp add: u_def u'_def step_books)
  obtain a b c where u: "u = (a, b, c)" by (cases u) auto
  then have i: "is_i64 a" "is_i64 b" "is_i64 c" using assms(1) by (simp_all add: u_def [symmetric] i64_usage_def)
  show ?thesis
  proof (cases "booking day e (fst (guard_step config g e))")
    case Nil
    then show ?thesis using u' assms(1) by (auto simp: u_def corrected_def e split: guard_event.split)
  next
    case (Cons d ds)
    show ?thesis
    proof (cases ev)
      case (Ask op)
      with Cons have day: "current_day_epoch now = day" and d: "d = operation_delta op" "ds = []"
        and ok: "fst (guard_step config g e) = Some (Inr Allowed)" by (auto simp: booking_def e split: if_splits)
      from ok have "within_limits config (add_usage u (operation_delta op))" by (simp add: e Ask ask_allowed day u_def)
      moreover have "u' = add_usage u (operation_delta op)" by (simp only: u' Cons d foldl.simps)
      ultimately show ?thesis
        by (auto simp: corrected_def e Ask within_limits_def within_def u add_usage_def i64_usage_def sat_add_i64)
    next
      case (Reconcile x)
      with Cons have day: "current_day_epoch now = day" "x \<noteq> 0" and d: "d = \<lparr>cd_read_ops = 0, cd_write_ops = 0, cd_egress_bytes = x\<rparr>" "ds = []"
        by (auto simp: booking_def e split: if_splits)
      have "u' = (i64_saturating_add a 0, i64_saturating_add b 0, i64_saturating_add c x)" by (simp add: u' Cons d u add_usage_def)
      then show ?thesis using sat_add_mono [OF i(1), of 0] sat_add_mono [OF i(2), of 0] sat_add_le [OF i(3), of x]
        by (auto simp: u i64_usage_def sat_add_i64 corrected_def e Reconcile day(1) max_def)
    next
      case (Restart x)
      with Cons show ?thesis by (simp add: booking_def e split: if_splits)
    qed
  qed
qed

text \<open>
  C17: the circuit breaker keeps the daily budget. Take any sequence of requests, corrections after downloads and restarts,
  one after the other, on any days. A request is allowed exactly when the breaker is closed and the counters of its day with it
  are within all limits; once a request was refused for the quota or the suspension, none is allowed until a restart; what is
  booked for a day is exactly its allowed requests and the corrections; so a day's reads and writes never pass their limits
  (or what was booked before), and its traffic passes its limit by no more than the corrections add, which are booked without
  a limit.
\<close>

theorem guard_keeps_budget:
  assumes "i64_usage (daily_usage (gd_cfg g) day)"
  shows "(\<forall>i < length evs. \<forall>now op. evs ! i = (now, Ask op) \<longrightarrow>
      (let gi = gd_cfg (guard_after config g (take i evs))
       in guard_answer config g evs i = Some (Inr Allowed) \<longleftrightarrow> \<not> dry_run config gi \<and> \<not> is_cloud_suspended gi \<and>
            within_limits config (add_usage (daily_usage gi (current_day_epoch now)) (operation_delta op)))) \<and>
    (\<forall>i j. i < j \<longrightarrow> j < length evs \<longrightarrow> refused (guard_answer config g evs i) \<longrightarrow>
       (\<forall>k. i < k \<longrightarrow> k < j \<longrightarrow> (\<forall>dry. snd (evs ! k) \<noteq> Restart dry)) \<longrightarrow> guard_answer config g evs j \<noteq> Some (Inr Allowed)) \<and>
    daily_usage (gd_cfg (guard_after config g evs)) day = foldl add_usage (daily_usage (gd_cfg g) day) (bookings config g day evs) \<and>
    (case (daily_usage (gd_cfg g) day, daily_usage (gd_cfg (guard_after config g evs)) day) of ((r, w, e), (r', w', e')) \<Rightarrow>
       r' \<le> max r (limit_i64 (cf_cloud_daily_read_ops_limit config)) \<and>
       w' \<le> max w (limit_i64 (cf_cloud_daily_write_ops_limit config)) \<and>
       e' \<le> max e (limit_i64 (cf_cloud_daily_egress_bytes_limit config)) + corrected day evs)"
proof (intro conjI allI impI)
  fix i now op assume "i < length evs" "evs ! i = (now, Ask op)"
  then show "let gi = gd_cfg (guard_after config g (take i evs))
      in guard_answer config g evs i = Some (Inr Allowed) \<longleftrightarrow> \<not> dry_run config gi \<and> \<not> is_cloud_suspended gi \<and>
            within_limits config (add_usage (daily_usage gi (current_day_epoch now)) (operation_delta op))"
    by (simp add: guard_answer_def ask_allowed Let_def)
next
  fix i j assume ij: "i < j" "j < length evs" and r: "refused (guard_answer config g evs i)"
    and none: "\<forall>k. i < k \<longrightarrow> k < j \<longrightarrow> (\<forall>dry. snd (evs ! k) \<noteq> Restart dry)"
  have "i + n < j \<Longrightarrow> is_cloud_suspended (gd_cfg (guard_after config g (take (Suc (i + n)) evs)))" for n
  proof (induction n)
    case 0
    then show ?case using step_suspends r ij by (simp add: take_Suc_conv_app_nth guard_after_snoc guard_answer_def)
  next
    case (Suc n)
    then have "is_cloud_suspended (gd_cfg (guard_after config g (take (Suc (i + n)) evs)))" "\<forall>dry. snd (evs ! Suc (i + n)) \<noteq> Restart dry"
      using none by simp_all
    then show ?case
      using step_suspends [of config "guard_after config g (take (Suc (i + n)) evs)" "evs ! Suc (i + n)"] Suc.prems ij(2)
      by (simp add: take_Suc_conv_app_nth [of "Suc (i + n)"] guard_after_snoc)
  qed
  from this [of "j - Suc i"] ij(1) have "is_cloud_suspended (gd_cfg (guard_after config g (take j evs)))" by simp
  then show "guard_answer config g evs j \<noteq> Some (Inr Allowed)"
    by (cases "evs ! j"; cases "snd (evs ! j)") (auto simp: guard_answer_def ask_allowed, simp_all add: guard_step_def)
next
  show "daily_usage (gd_cfg (guard_after config g evs)) day = foldl add_usage (daily_usage (gd_cfg g) day) (bookings config g day evs)"
    by (induction evs rule: rev_induct) (simp_all add: guard_after_snoc bookings_snoc step_books, simp add: guard_after_def bookings_def)
next
  have "i64_usage (daily_usage (gd_cfg (guard_after config g evs)) day) \<and>
    fst (daily_usage (gd_cfg (guard_after config g evs)) day) \<le> max (fst (daily_usage (gd_cfg g) day)) (limit_i64 (cf_cloud_daily_read_ops_limit config)) \<and>
    fst (snd (daily_usage (gd_cfg (guard_after config g evs)) day)) \<le>
      max (fst (snd (daily_usage (gd_cfg g) day))) (limit_i64 (cf_cloud_daily_write_ops_limit config)) \<and>
    snd (snd (daily_usage (gd_cfg (guard_after config g evs)) day)) \<le>
      max (snd (snd (daily_usage (gd_cfg g) day))) (limit_i64 (cf_cloud_daily_egress_bytes_limit config)) + corrected day evs"
  proof (induction evs rule: rev_induct)
    case Nil
    then show ?case using assms by (simp add: guard_after_def corrected_def)
  next
    case (snoc e evs)
    have c: "corrected day (evs @ [e]) = corrected day evs + corrected day [e]" "0 \<le> corrected day [e]" "0 \<le> corrected day evs"
      by (auto simp: corrected_def intro!: sum_list_nonneg split: guard_event.split)
    from step_bounds [OF conjunct1 [OF snoc], of config e] snoc c show ?case unfolding guard_after_snoc by linarith
  qed
  then show "case (daily_usage (gd_cfg g) day, daily_usage (gd_cfg (guard_after config g evs)) day) of ((r, w, e), (r', w', e')) \<Rightarrow>
       r' \<le> max r (limit_i64 (cf_cloud_daily_read_ops_limit config)) \<and>
       w' \<le> max w (limit_i64 (cf_cloud_daily_write_ops_limit config)) \<and>
       e' \<le> max e (limit_i64 (cf_cloud_daily_egress_bytes_limit config)) + corrected day evs"
    by (auto split: prod.split)
qed

text \<open>
  A day with a limit of two reads: the third trips the breaker, a correction is booked all the same, a write is refused, and
  after a restart it is allowed.
\<close>

definition small_config :: AppConfig where
  "small_config = \<lparr>cf_max_physical_bytes_per_provider = 0, cf_max_upload_bytes_per_sec = 0, cf_max_cache_bytes = 0,
     cf_cloud_daily_write_ops_limit = 5, cf_cloud_daily_read_ops_limit = 2, cf_cloud_daily_egress_bytes_limit = 100,
     cf_cloud_max_single_upload_bytes = 100, cf_dry_run_active = False, cf_peer_port = 0, cf_peer_discovery_port = 0,
     cf_peer_discovery_interval_ms = 0, cf_peer_stale_after_ms = 0, cf_peer_error_backoff_ms = 0,
     cf_device_name_override = None, cf_oauth_redirect_url = ''http://localhost:1''\<rparr>"

definition fresh_guard :: guard where
  "fresh_guard = \<lparr>gd_cfg = \<lparr>system_config = [], cloud_usage_daily = []\<rparr>, gd_session = \<lparr>su_read_ops = 0, su_write_ops = 0, su_egress_bytes = 0\<rparr>\<rparr>"

definition guard_day :: "(int \<times> guard_event) list" where
  "guard_day = [(5, Ask (Read 1 10)), (6, Ask (Read 1 10)), (7, Ask (Read 1 10)), (8, Reconcile 70), (9, Ask (Write 1)), (10, Restart False),
     (11, Ask (Write 1))]"

theorem guard_keeps_budget_witness:
  "map (\<lambda>i. guard_answer small_config fresh_guard guard_day i = Some (Inr Allowed)) [0..<7] = [True, True, False, False, False, False, True] \<and>
   foldl add_usage (0, 0, 0) (bookings small_config fresh_guard 0 guard_day) = (2, 1, 90) \<and>
   daily_usage (gd_cfg (guard_after small_config fresh_guard guard_day)) 0 = (2, 1, 90)"
proof -
  have i: "i64_usage (daily_usage (gd_cfg fresh_guard) 0)" by code_simp
  have z: "daily_usage (gd_cfg fresh_guard) 0 = (0, 0, 0)" by code_simp
  have a: "map (\<lambda>i. guard_answer small_config fresh_guard guard_day i = Some (Inr Allowed)) [0..<7] = [True, True, False, False, False, False, True]"
    by code_simp
  have b: "foldl add_usage (0, 0, 0) (bookings small_config fresh_guard 0 guard_day) = (2, 1, 90)" by code_simp
  from guard_keeps_budget [OF i, of guard_day small_config] have
    "daily_usage (gd_cfg (guard_after small_config fresh_guard guard_day)) 0 = foldl add_usage (0, 0, 0) (bookings small_config fresh_guard 0 guard_day)"
    unfolding z by blast
  with a b show ?thesis by simp
qed

end
