(* ===== verification/RateLimit.thy ===== *)
theory RateLimit
  imports Prelude
begin

text \<open>
  The rate limiters of the HTTP server (\<^verbatim>\<open>api/mod.rs\<close>): \<open>RecoveryRateLimiter\<close>, used for unlocking, recovery and
  shared links with different policies, and \<open>JoinRateLimiter\<close> with its growing delays. Instants are nanoseconds since
  the start of the process; \<open>duration_since\<close> saturates at zero, as subtraction of naturals does, and a comparison with
  \<open>Duration::from_secs\<close> is exact to the nanosecond while \<open>as_secs\<close> rounds down. The concurrent map of addresses is a
  map (an empty list of failures with no free attempt, which would panic, occurs for no policy of the server); the guard of
  an entry is held for the length of an operation, so operations on one address are atomic. A handler checks first, then awaits its attempt, then records the outcome:
  the check (\<open>Request\<close>), a failure and a success are events of their own, and events of other requests may come between them.
\<close>

definition secs :: "nat \<Rightarrow> nat" where
  "secs n = n * 1000000000"

definition as_secs :: "nat \<Rightarrow> nat" where
  "as_secs d = d div 1000000000"

record IpRecord =
  ip_failures :: "nat list"
  ip_last_failure_at :: "nat option"

definition default_record :: IpRecord where
  "default_record = \<lparr>ip_failures = [], ip_last_failure_at = None\<rparr>"

type_synonym 'ip limiter_map = "'ip \<rightharpoonup> IpRecord"

record RateLimitPolicy =
  rl_free_attempts :: nat
  rl_cooldown_secs :: nat
  rl_window_secs :: nat

definition entry_or_default :: "'ip limiter_map \<Rightarrow> 'ip \<Rightarrow> IpRecord" where
  "entry_or_default m ip = coalesce (m ip) default_record"

definition retain_recent :: "nat \<Rightarrow> nat \<Rightarrow> IpRecord \<Rightarrow> IpRecord" where
  "retain_recent now window_secs rec = rec\<lparr>ip_failures := filter (\<lambda>t. now - t < secs window_secs) (ip_failures rec)\<rparr>"

definition limiter_check :: "RateLimitPolicy \<Rightarrow> nat \<Rightarrow> 'ip limiter_map \<Rightarrow> 'ip \<Rightarrow> (nat + unit) \<times> 'ip limiter_map" where
  "limiter_check p now m ip =
     (let rec = retain_recent now (rl_window_secs p) (entry_or_default m ip);
          m' = m(ip \<mapsto> rec);
          window = (if rl_free_attempts p \<le> length (ip_failures rec)
             then (case ip_failures rec of
                     [] \<Rightarrow> Inl 0
                   | oldest # _ \<Rightarrow> Inl (max (rl_window_secs p - as_secs (now - oldest)) 1))
             else Inr ())
      in (case ip_last_failure_at rec of
            Some last_at \<Rightarrow>
              if now - last_at < secs (rl_cooldown_secs p) then Inl (rl_cooldown_secs p - as_secs (now - last_at)) else window
          | None \<Rightarrow> window, m'))"

definition record_failure :: "nat \<Rightarrow> 'ip limiter_map \<Rightarrow> 'ip \<Rightarrow> 'ip limiter_map" where
  "record_failure now m ip =
     (let rec = entry_or_default m ip
      in m(ip \<mapsto> rec\<lparr>ip_failures := ip_failures rec @ [now], ip_last_failure_at := Some now\<rparr>))"

definition record_success :: "'ip limiter_map \<Rightarrow> 'ip \<Rightarrow> 'ip limiter_map" where
  "record_success m ip = m(ip := None)"

text \<open>The three policies of the server.\<close>

definition recovery_policy :: RateLimitPolicy where
  "recovery_policy = \<lparr>rl_free_attempts = 3, rl_cooldown_secs = 30, rl_window_secs = 300\<rparr>"

definition unlock_policy :: RateLimitPolicy where
  "unlock_policy = \<lparr>rl_free_attempts = 5, rl_cooldown_secs = 0, rl_window_secs = 300\<rparr>"

definition share_policy :: RateLimitPolicy where
  "share_policy = \<lparr>rl_free_attempts = 5, rl_cooldown_secs = 30, rl_window_secs = 300\<rparr>"

text \<open>The limiter for joining: three failures are free, then 1, 5 and 30 seconds.\<close>

definition join_delay :: "nat \<Rightarrow> nat" where
  "join_delay fail_count = (if fail_count = 3 then 1 else if fail_count = 4 then 5 else 30)"

definition join_check_limit :: "nat \<Rightarrow> 'ip limiter_map \<Rightarrow> 'ip \<Rightarrow> (nat + unit) \<times> 'ip limiter_map" where
  "join_check_limit now m ip =
     (let rec = retain_recent now 300 (entry_or_default m ip);
          fail_count = length (ip_failures rec)
      in (if fail_count < 3 then Inr ()
          else (case ip_last_failure_at rec of
                  Some last_at \<Rightarrow>
                    if as_secs (now - last_at) < join_delay fail_count then Inl (join_delay fail_count - as_secs (now - last_at))
                    else Inr ()
                | None \<Rightarrow> Inr ()),
          m(ip \<mapsto> rec)))"

section \<open>What the limiter promises\<close>

text \<open>
  The handlers of the server check first, do their work, which takes a while (deriving a key from a passphrase), and then
  record how it ended. So the limiter sees a sequence of events of any addresses: a request, which the check lets through or
  not, and the failure or success of a request that was let through. \<open>limiter_trace\<close> lists the events, each with what the
  check answered.
\<close>

datatype 'ip limiter_event = Request 'ip | Failed 'ip | Succeeded 'ip

fun limiter_step :: "RateLimitPolicy \<Rightarrow> 'ip limiter_map \<Rightarrow> nat \<times> 'ip limiter_event \<Rightarrow> bool \<times> 'ip limiter_map" where
  "limiter_step p m (now, Request ip) = (case limiter_check p now m ip of (r, m') \<Rightarrow> (r = Inr (), m'))"
| "limiter_step p m (now, Failed ip) = (False, record_failure now m ip)"
| "limiter_step p m (now, Succeeded ip) = (False, record_success m ip)"

fun limiter_trace ::
  "RateLimitPolicy \<Rightarrow> 'ip limiter_map \<Rightarrow> (nat \<times> 'ip limiter_event) list \<Rightarrow> (bool \<times> nat \<times> 'ip limiter_event) list" where
  "limiter_trace p m [] = []"
| "limiter_trace p m (e # es) = (case limiter_step p m e of (ok, m') \<Rightarrow> (ok, e) # limiter_trace p m' es)"

text \<open>The times at which requests of an address were let through, and at which one of them was found to have failed.\<close>

definition let_through :: "'ip \<Rightarrow> (bool \<times> nat \<times> 'ip limiter_event) list \<Rightarrow> nat list" where
  "let_through ip tr = map (fst \<circ> snd) (filter (\<lambda>x. fst x \<and> snd (snd x) = Request ip) tr)"

definition failed :: "'ip \<Rightarrow> (bool \<times> nat \<times> 'ip limiter_event) list \<Rightarrow> nat list" where
  "failed ip tr = map (fst \<circ> snd) (filter (\<lambda>x. snd (snd x) = Failed ip) tr)"

text \<open>Only what was let through can fail, and at most \<open>c\<close> requests of the address are worked on at any time.\<close>

definition at_once :: "nat \<Rightarrow> 'ip \<Rightarrow> (bool \<times> nat \<times> 'ip limiter_event) list \<Rightarrow> bool" where
  "at_once c ip tr \<longleftrightarrow> list_all (\<lambda>n. length (failed ip (take n tr)) \<le> length (let_through ip (take n tr)) \<and>
     length (let_through ip (take n tr)) \<le> length (failed ip (take n tr)) + c) [0..<Suc (length tr)]"

definition recent :: "RateLimitPolicy \<Rightarrow> nat \<Rightarrow> nat \<Rightarrow> bool" where
  "recent p t x \<longleftrightarrow> t - x < secs (rl_window_secs p)"

text \<open>What the record of an address says about its failures so far.\<close>

definition tracks :: "RateLimitPolicy \<Rightarrow> IpRecord \<Rightarrow> nat list \<Rightarrow> nat \<Rightarrow> bool" where
  "tracks p r ts now \<longleftrightarrow>
     (\<forall>t \<ge> now. filter (recent p t) (ip_failures r) = filter (recent p t) ts) \<and>
     ip_last_failure_at r = (if ts = [] then None else Some (last ts)) \<and> sorted ts \<and> (\<forall>x \<in> set ts. x \<le> now)"

lemma recent_mono: "recent p t x \<Longrightarrow> t' \<le> t \<Longrightarrow> recent p t' x"
  by (auto simp: recent_def)

lemma check_other: "i \<noteq> ip \<Longrightarrow> snd (limiter_check p now m ip) i = m i" "i \<noteq> ip \<Longrightarrow> record_failure now m ip i = m i"
  by (simp_all add: limiter_check_def record_failure_def Let_def)

lemma tracks_later: "tracks p r ts now \<Longrightarrow> now \<le> now' \<Longrightarrow> tracks p r ts now'"
  unfolding tracks_def by (meson order_trans)

lemma check_entry: "entry_or_default (snd (limiter_check p now m ip)) ip = retain_recent now (rl_window_secs p) (entry_or_default m ip)"
  by (simp add: limiter_check_def entry_or_default_def Let_def)

lemma tracks_retain:
  assumes "tracks p r ts now" and "now \<le> now'"
  shows "tracks p (retain_recent now' (rl_window_secs p) r) ts now'"
proof -
  have "filter (recent p t) (filter (\<lambda>x. now' - x < secs (rl_window_secs p)) (ip_failures r)) = filter (recent p t) (ip_failures r)"
    if "now' \<le> t" for t using that by (auto simp: recent_def intro: filter_cong)
  with tracks_later [OF assms] show ?thesis by (simp add: tracks_def retain_recent_def)
qed

lemma tracks_failure:
  assumes "tracks p r ts now"
  shows "tracks p (r\<lparr>ip_failures := ip_failures r @ [now], ip_last_failure_at := Some now\<rparr>) (ts @ [now]) now"
  using assms by (auto simp: tracks_def sorted_append)

text \<open>A request is let through only with less than the free failures in the window and after the cooldown.\<close>

lemma check_passes:
  assumes tr: "tracks p (entry_or_default m ip) ts now" and le: "now \<le> now'"
    and c: "limiter_check p now' m ip = (Inr x, m')"
  shows "length (filter (recent p now') ts) < rl_free_attempts p" and "ts \<noteq> [] \<longrightarrow> last ts + secs (rl_cooldown_secs p) \<le> now'"
proof -
  let ?r = "retain_recent now' (rl_window_secs p) (entry_or_default m ip)"
  note t = tracks_retain [OF tr le]
  have f: "ip_failures ?r = filter (recent p now') ts"
    using tr le by (auto simp: retain_recent_def tracks_def recent_def [abs_def])
  have l: "ip_last_failure_at ?r = (if ts = [] then None else Some (last ts))" using t by (simp add: tracks_def)
  have "last ts \<le> now'" if "ts \<noteq> []" using t that by (simp add: tracks_def)
  with c show "length (filter (recent p now') ts) < rl_free_attempts p" "ts \<noteq> [] \<longrightarrow> last ts + secs (rl_cooldown_secs p) \<le> now'"
    by (auto simp: limiter_check_def Let_def f l split: if_splits list.splits)
qed

text \<open>One event: the record of an address without a success goes on tracking its failures.\<close>

lemma step_tracks:
  assumes "tracks p (entry_or_default m ip) fs now" and "now \<le> t" and "ev \<noteq> Succeeded ip"
    and s: "limiter_step p m (t, ev) = (ok, m')"
  shows "tracks p (entry_or_default m' ip) (fs @ failed ip [(ok, t, ev)]) t"
proof (cases ev)
  case (Request i)
  with s have m': "m' = snd (limiter_check p t m i)" by (auto split: prod.splits)
  show ?thesis
  proof (cases "i = ip")
    case True
    with tracks_retain [OF assms(1,2)] show ?thesis by (simp add: m' check_entry Request failed_def)
  next
    case False
    then have "entry_or_default m' ip = entry_or_default m ip" by (simp add: entry_or_default_def m' check_other)
    with tracks_later [OF assms(1,2)] show ?thesis by (simp add: Request failed_def)
  qed
next
  case (Failed i)
  with s have m': "m' = record_failure t m i" by simp
  show ?thesis
  proof (cases "i = ip")
    case True
    with tracks_failure [OF tracks_later [OF assms(1,2)]] show ?thesis
      by (simp add: m' record_failure_def entry_or_default_def Failed failed_def Let_def)
  next
    case False
    then have "entry_or_default m' ip = entry_or_default m ip" by (simp add: entry_or_default_def m' check_other)
    with tracks_later [OF assms(1,2)] False show ?thesis by (simp add: Failed failed_def)
  qed
next
  case (Succeeded i)
  with assms(3) s have "entry_or_default m' ip = entry_or_default m ip" by (auto simp: entry_or_default_def record_success_def)
  with tracks_later [OF assms(1,2)] show ?thesis by (simp add: Succeeded failed_def)
qed

lemma failed_append: "failed ip (xs @ ys) = failed ip xs @ failed ip ys"
  by (simp add: failed_def)

lemma let_through_append: "let_through ip (xs @ ys) = let_through ip xs @ let_through ip ys"
  by (simp add: let_through_def)

lemma failed_Cons: "failed ip (x # xs) = failed ip [x] @ failed ip xs"
  using failed_append [of ip "[x]" xs] by simp

lemma trace_passes:
  assumes "tracks p (entry_or_default m ip) fs now" and "sorted (map fst es)" and "\<forall>e \<in> set es. now \<le> fst e"
    and "\<forall>e \<in> set es. snd e \<noteq> Succeeded ip" and "i < length es" and "limiter_trace p m es ! i = (True, t, Request ip)"
  defines "before \<equiv> fs @ failed ip (take i (limiter_trace p m es))"
  shows "length (filter (recent p t) before) < rl_free_attempts p \<and> (before \<noteq> [] \<longrightarrow> last before + secs (rl_cooldown_secs p) \<le> t)"
  using assms(1-6) unfolding before_def
proof (induction es arbitrary: m fs now i)
  case (Cons e es)
  obtain u ev where e: "e = (u, ev)" by (cases e)
  obtain ok m' where s: "limiter_step p m (u, ev) = (ok, m')" by force
  have le: "now \<le> u" using Cons.prems(3) e by simp
  show ?case
  proof (cases i)
    case 0
    with Cons.prems(6) have "ok" "u = t" "ev = Request ip" by (simp_all add: e s)
    with s obtain x where "limiter_check p t m ip = (Inr x, m')" by (auto split: prod.splits)
    with check_passes [OF Cons.prems(1)] le show ?thesis using 0 \<open>u = t\<close> by (simp add: failed_def)
  next
    case (Suc j)
    have "tracks p (entry_or_default m' ip) (fs @ failed ip [(ok, u, ev)]) u"
      by (rule step_tracks [OF Cons.prems(1) le _ s]) (use Cons.prems(4) e in auto)
    from Cons.IH [OF this, of j] Cons.prems(2-6) Suc show ?thesis
      by (simp add: e s failed_Cons [of ip "(ok, u, ev)" "take j (limiter_trace p m' es)"])
  qed
qed simp

lemma trace_events: "map snd (limiter_trace p m es) = es"
  by (induction es arbitrary: m) (auto split: prod.splits)

lemma sorted_le_last: "sorted xs \<Longrightarrow> x \<in> set xs \<Longrightarrow> x \<le> last xs"
  by (induction xs) auto

lemma filter_length_mono: "(\<And>x. x \<in> set xs \<Longrightarrow> P x \<Longrightarrow> Q x) \<Longrightarrow> length (filter P xs) \<le> length (filter Q xs)"
  by (induction xs) (auto simp: le_Suc_eq)

lemma at_once_take:
  assumes "at_once c ip tr" and "n \<le> length tr"
  shows "length (failed ip (take n tr)) \<le> length (let_through ip (take n tr))"
    and "length (let_through ip (take n tr)) \<le> length (failed ip (take n tr)) + c"
proof -
  have "n \<in> set [0..<Suc (length tr)]" using assms(2) by (simp del: upt_Suc)
  with assms(1) show "length (failed ip (take n tr)) \<le> length (let_through ip (take n tr))"
    "length (let_through ip (take n tr)) \<le> length (failed ip (take n tr)) + c"
    unfolding at_once_def list_all_iff by blast+
qed

text \<open>
  The requests let through up to one at \<open>t\<close>, in a window that ends with it: those that came before the window are at least
  as many as the failures before it, so those in the window are at most the failures in it and what is worked on.
\<close>

lemma window_count:
  assumes srt: "sorted (map (fst \<circ> snd) tr)" and c: "at_once c ip tr" and i: "i < length tr" "tr ! i = (True, t, Request ip)"
    and w: "0 < secs (rl_window_secs p)"
  shows "length (filter (recent p t) (let_through ip (take (Suc i) tr))) \<le> length (filter (recent p t) (failed ip (take i tr))) + c"
proof -
  let ?old = "\<lambda>x. \<not> recent p t (fst (snd x))"
  define U where "U = takeWhile ?old (take (Suc i) tr)"
  define V where "V = dropWhile ?old (take (Suc i) tr)"
  have UV: "take (Suc i) tr = U @ V" by (simp add: U_def V_def)
  have "length (U @ V) \<le> Suc i" by (simp flip: UV)
  then have "U = take (length U) tr" using arg_cong [OF UV, of "take (length U)"] by (simp add: min_def)
  note U = this arg_cong [OF this, of length, simplified]
  have newV: "recent p t (fst (snd x))" if "x \<in> set V" for x
  proof -
    have "V \<noteq> []" using that by auto
    then have h: "recent p t (fst (snd (hd V)))" using hd_dropWhile [of ?old "take (Suc i) tr"] by (simp add: V_def)
    have "sorted (map (fst \<circ> snd) (U @ V))" using sorted_wrt_take [OF srt, of "Suc i"] by (simp add: take_map UV)
    then have "sorted (map (fst \<circ> snd) V)" by (simp add: sorted_append)
    with that \<open>V \<noteq> []\<close> have "fst (snd (hd V)) \<le> fst (snd x)" by (cases V) auto
    with h show ?thesis by (auto simp: recent_def)
  qed
  have oldU: "\<not> recent p t (fst (snd x))" if "x \<in> set U" for x using that by (auto simp: U_def dest: set_takeWhileD)
  have win: "filter (recent p t) (map (fst \<circ> snd) (filter Q (U @ V))) = map (fst \<circ> snd) (filter Q V)" for Q
  proof -
    have "filter (\<lambda>x. Q x \<and> recent p t (fst (snd x))) V = filter Q V" by (rule filter_cong) (use newV in auto)
    moreover have "filter (\<lambda>x. Q x \<and> recent p t (fst (snd x))) U = []" using oldU by (auto simp: filter_empty_conv)
    ultimately show ?thesis by (simp add: filter_map o_def conj_commute)
  qed
  have "take (Suc i) tr = take i tr @ [(True, t, Request ip)]" using i by (simp add: take_Suc_conv_app_nth)
  then have f: "failed ip (take (Suc i) tr) = failed ip (take i tr)" by (simp add: failed_append) (simp add: failed_def)
  have "length (filter (recent p t) (let_through ip (take (Suc i) tr))) + length (let_through ip U) = length (let_through ip (take (Suc i) tr))"
    unfolding UV let_through_def win by simp
  moreover have "length (filter (recent p t) (failed ip (take (Suc i) tr))) + length (failed ip U) = length (failed ip (take (Suc i) tr))"
    unfolding UV failed_def win by simp
  moreover have "length (failed ip U) \<le> length (let_through ip U)" using at_once_take(1) [OF c, of "length U"] U by simp
  moreover have "length (let_through ip (take (Suc i) tr)) \<le> length (failed ip (take (Suc i) tr)) + c"
    using at_once_take(2) [OF c] i(1) by simp
  ultimately show ?thesis by (simp add: f)
qed

text \<open>
  C19: no address guesses faster than its policy and its parallel requests allow. Let the requests of an address that are
  let through all fail, and let at most \<open>c\<close> of them be worked on at any time, between the check and the record of the
  failure. Then, whatever events of any addresses come in between and when, in every time window of the policy's length at
  most \<open>free_attempts - 1 + c\<close> of its requests are let through, and none within the cooldown after a recorded failure: with
  requests one after the other (\<open>c = 1\<close>) these are the attempts of the policy.
\<close>

theorem limiter_budget:
  assumes "sorted (map fst es)" and "m ip = None" and "\<forall>e \<in> set es. snd e \<noteq> Succeeded ip"
    and "at_once c ip (limiter_trace p m es)"
  shows "length (filter (\<lambda>x. x \<le> t \<and> t - x < secs (rl_window_secs p)) (let_through ip (limiter_trace p m es)))
      \<le> rl_free_attempts p - 1 + c \<and>
    (\<forall>i < length es. \<forall>u. limiter_trace p m es ! i = (True, u, Request ip) \<longrightarrow>
       (\<forall>x \<in> set (failed ip (take i (limiter_trace p m es))). x + secs (rl_cooldown_secs p) \<le> u))"
proof
  define tr where "tr = limiter_trace p m es"
  have len: "length tr = length es" by (metis tr_def trace_events length_map)
  have srt: "sorted (map (fst \<circ> snd) tr)" using assms(1) trace_events [of p m es] by (simp add: tr_def flip: map_map)
  have t0: "tracks p (entry_or_default m ip) [] 0" using assms(2) by (simp add: tracks_def entry_or_default_def default_record_def)
  have pass: "length (filter (recent p u) (failed ip (take i tr))) < rl_free_attempts p \<and>
      (failed ip (take i tr) \<noteq> [] \<longrightarrow> last (failed ip (take i tr)) + secs (rl_cooldown_secs p) \<le> u)"
    if "i < length es" "tr ! i = (True, u, Request ip)" for i u
    using trace_passes [OF t0 assms(1) _ assms(3) that(1), of u] that(2) by (simp add: tr_def)
  let ?in = "\<lambda>x. x \<le> t \<and> t - x < secs (rl_window_secs p)"
  have "length (filter ?in (let_through ip (take n tr))) \<le> rl_free_attempts p - 1 + c" for n
  proof (induction n)
    case 0
    then show ?case by (simp add: let_through_def)
  next
    case (Suc n)
    show ?case
    proof (cases "n < length tr \<and> (\<exists>u. tr ! n = (True, u, Request ip) \<and> ?in u)")
      case False
      have "filter ?in (let_through ip (take (Suc n) tr)) = filter ?in (let_through ip (take n tr))"
      proof (cases "n < length tr")
        case True
        then have "take (Suc n) tr = take n tr @ [tr ! n]" by (simp add: take_Suc_conv_app_nth)
        then show ?thesis using False True by (cases "tr ! n") (auto simp: let_through_append let_through_def)
      qed simp
      with Suc show ?thesis by (simp only:)
    next
      case True
      then obtain u where u: "n < length tr" "tr ! n = (True, u, Request ip)" "u \<le> t" "t - u < secs (rl_window_secs p)" by blast
      have "length (filter ?in (let_through ip (take (Suc n) tr))) \<le> length (filter (recent p u) (let_through ip (take (Suc n) tr)))"
        using u(3) by (intro filter_length_mono) (auto simp: recent_def)
      also have "\<dots> \<le> length (filter (recent p u) (failed ip (take n tr))) + c"
        by (rule window_count [OF srt assms(4) [folded tr_def] u(1,2)]) (use u(4) in simp)
      also have "\<dots> \<le> rl_free_attempts p - 1 + c" using pass [OF u(1) [unfolded len] u(2)] by linarith
      finally show ?thesis .
    qed
  qed
  from this [of "length tr"] show "length (filter ?in (let_through ip (limiter_trace p m es))) \<le> rl_free_attempts p - 1 + c"
    by (simp add: tr_def)
  show "\<forall>i < length es. \<forall>u. limiter_trace p m es ! i = (True, u, Request ip) \<longrightarrow>
      (\<forall>x \<in> set (failed ip (take i (limiter_trace p m es))). x + secs (rl_cooldown_secs p) \<le> u)"
  proof (intro allI impI ballI)
    fix i u x assume i: "i < length es" "limiter_trace p m es ! i = (True, u, Request ip)"
      and x: "x \<in> set (failed ip (take i (limiter_trace p m es)))"
    have "sorted (failed ip (take i tr))"
      using sorted_wrt_take [OF srt, of i] unfolding failed_def by (simp add: take_map sorted_filter)
    with x have "x \<le> last (failed ip (take i tr))" by (intro sorted_le_last) (simp_all add: tr_def)
    moreover have "failed ip (take i tr) \<noteq> []" using x by (auto simp: tr_def)
    ultimately show "x + secs (rl_cooldown_secs p) \<le> u" using pass [OF i(1)] i(2) by (fastforce simp: tr_def)
  qed
qed

text \<open>Unlock requests of one address, two at a time, all failing: six are let through, the seventh is refused.\<close>

definition unlock_events :: "(nat \<times> nat limiter_event) list" where
  "unlock_events = concat (map (\<lambda>t. [(t, Request 7), (t, Request 7), (t, Failed 7), (t, Failed 7)]) [1, 2, 3]) @ [(4, Request 7)]"

lemma unlock_steps:
  "limiter_step unlock_policy Map.empty (t, Request a) = (True, [a \<mapsto> default_record])"
  "limiter_step unlock_policy [a \<mapsto> \<lparr>ip_failures = fs, ip_last_failure_at = l\<rparr>] (t, Request a) =
     (let fs' = filter (\<lambda>x. t - x < 300000000000) fs in (length fs' < 5, [a \<mapsto> \<lparr>ip_failures = fs', ip_last_failure_at = l\<rparr>]))"
  "limiter_step p [a \<mapsto> \<lparr>ip_failures = fs, ip_last_failure_at = l\<rparr>] (t, Failed a) =
     (False, [a \<mapsto> \<lparr>ip_failures = fs @ [t], ip_last_failure_at = Some t\<rparr>])"
  by (simp_all add: limiter_check_def entry_or_default_def default_record_def retain_recent_def record_failure_def
      unlock_policy_def secs_def Let_def split: option.split list.split)

lemma unlock_trace: "limiter_trace unlock_policy Map.empty unlock_events =
  zip [True, True, False, False, True, True, False, False, True, True, False, False, False] unlock_events"
  by (simp add: unlock_events_def unlock_steps default_record_def Let_def del: limiter_step.simps)

theorem limiter_budget_witness:
  "length (filter (\<lambda>x. x \<le> 10 \<and> 10 - x < secs (rl_window_secs unlock_policy))
     (let_through 7 (limiter_trace unlock_policy Map.empty unlock_events))) \<le> 6 \<and>
   length (let_through 7 (limiter_trace unlock_policy Map.empty unlock_events)) = 6"
proof -
  have "sorted (map fst unlock_events)" "\<forall>e \<in> set unlock_events. snd e \<noteq> Succeeded 7" by (simp_all add: unlock_events_def)
  moreover have "at_once 2 7 (limiter_trace unlock_policy Map.empty unlock_events)"
    unfolding unlock_trace by code_simp
  ultimately have "length (filter (\<lambda>x. x \<le> 10 \<and> 10 - x < secs (rl_window_secs unlock_policy))
     (let_through 7 (limiter_trace unlock_policy Map.empty unlock_events))) \<le> rl_free_attempts unlock_policy - 1 + 2"
    using limiter_budget [of unlock_events Map.empty 7 2 unlock_policy 10] by simp
  moreover have "length (let_through 7 (limiter_trace unlock_policy Map.empty unlock_events)) = 6"
    unfolding unlock_trace by code_simp
  ultimately show ?thesis by (simp add: unlock_policy_def)
qed

text \<open>
  Nothing bounds what is worked on at once: checks with no failure recorded in between are all let through, however many.
\<close>

lemma requests_at_once_pass:
  assumes "0 < rl_free_attempts p" and "entry_or_default m ip = default_record"
  shows "let_through ip (limiter_trace p m (replicate n (now, Request ip))) = replicate n now"
  using assms(2)
proof (induction n arbitrary: m)
  case (Suc n)
  obtain r m' where c: "limiter_check p now m ip = (r, m')" by force
  have "r = Inr () \<and> entry_or_default m' ip = default_record"
    using c assms(1) Suc.prems by (auto simp: limiter_check_def entry_or_default_def retain_recent_def default_record_def Let_def)
  with Suc.IH [of m'] c show ?case by (simp add: let_through_def)
qed (simp add: let_through_def)

text \<open>The delay a refused request is told is at least a second and never more than the policy's longer time.\<close>

lemma retry_after_bounds:
  assumes "fst (limiter_check p now m ip) = Inl w" and "0 < rl_free_attempts p" and "0 < rl_window_secs p"
  shows "1 \<le> w" and "w \<le> max (rl_cooldown_secs p) (rl_window_secs p)"
proof -
  have "as_secs d < n" if "d < secs n" for d n using that by (simp add: as_secs_def secs_def div_less_iff_less_mult)
  then have "1 \<le> w \<and> w \<le> max (rl_cooldown_secs p) (rl_window_secs p)"
    using assms by (auto simp: limiter_check_def Let_def split: option.splits if_splits list.splits) (fastforce simp: Suc_le_eq)+
  then show "1 \<le> w" "w \<le> max (rl_cooldown_secs p) (rl_window_secs p)" by simp_all
qed

lemma join_wait_bounds: "fst (join_check_limit now m ip) = Inl w \<Longrightarrow> 1 \<le> w \<and> w \<le> 30"
  by (auto simp: join_check_limit_def join_delay_def Let_def split: option.splits if_splits)

end
