(* ===== verification/AutoLock.thy ===== *)
theory AutoLock
  imports CloudGuard RateLimit VaultApi
begin

text \<open>
  Locking the vault when it is idle (\<^verbatim>\<open>auto_lock.rs\<close>, \<^verbatim>\<open>api/auto_lock.rs\<close>), the common way every lock takes
  (\<^verbatim>\<open>lock_flow.rs\<close>), and the handlers that unlock, log out and change the passphrase (\<^verbatim>\<open>api/auth.rs\<close>,
  \<^verbatim>\<open>api/local_guard.rs\<close>). Seconds since the start of the daemon are naturals: \<open>saturating_sub\<close> on \<open>u64\<close> is
  subtraction of naturals. The clock of the database, tokens and random values are arguments. Mounting and unmounting
  the drive, the tray file, Windows Hello storage and the background maintenance a handler spawns happen outside these
  tables; the origin of the instants of the limiter is the start of the daemon. The maintenance itself is \<open>run_post_unlock_maintenance\<close>.
\<close>

section \<open>Locking (lock_flow.rs)\<close>

datatype LockReason = Logout | IdleTimeout | WinSessionLock | ManualUserAction

definition LockReason_audit :: "LockReason \<Rightarrow> string \<times> string option" where
  "LockReason_audit r =
     (case r of
        Logout \<Rightarrow> (''logout'', None)
      | IdleTimeout \<Rightarrow> (''auto_lock'', Some ''{\"reason\":\"idle_timeout\"}'')
      | WinSessionLock \<Rightarrow> (''auto_lock'', Some ''{\"reason\":\"win_session_lock\"}'')
      | ManualUserAction \<Rightarrow> (''vault_lock'', Some ''{\"reason\":\"manual\"}''))"

definition is_unlocked :: "vault \<Rightarrow> bool" where
  "is_unlocked st \<longleftrightarrow> (case require_key st of Inr _ \<Rightarrow> True | Inl _ \<Rightarrow> False)"

definition force_lock_and_dismount :: "int \<Rightarrow> LockReason \<Rightarrow> (string \<times> string) option \<Rightarrow> vault \<Rightarrow> bool \<times> vault" where
  "force_lock_and_dismount now reason actor st =
     (let was_unlocked = is_unlocked st;
          st1 = (if was_unlocked
                 then (case get_vault_params (va_db st) of
                         Some v \<Rightarrow>
                           st\<lparr>va_db := audit (va_db st) now (vr_vault_id v) (fst (LockReason_audit reason)) (map_option fst actor)
                               (map_option snd actor) None None (snd (LockReason_audit reason))\<rparr>
                       | None \<Rightarrow> st)
                 else st)
      in (was_unlocked, lock st1))"

section \<open>The idle monitor (auto_lock.rs)\<close>

definition DEFAULT_IDLE_MIN :: nat where "DEFAULT_IDLE_MIN = 15"
definition ALLOWED_PRESETS :: "nat list" where "ALLOWED_PRESETS = [5, 15, 30, 60]"
definition WARNING_THRESHOLD_SECS :: nat where "WARNING_THRESHOLD_SECS = 60"
definition SYSTEM_CONFIG_KEY :: string where "SYSTEM_CONFIG_KEY = ''vault.auto_lock_idle_min''"
definition TICK_INTERVAL_SECS :: nat where "TICK_INTERVAL_SECS = 10"
definition u32_max :: nat where "u32_max = 2 ^ 32 - 1"

datatype AutoLockError = InitFailed sqlx_error | InvalidPreset nat | DoubleInit

record AutoLockMonitor =
  mo_last_activity :: nat
  mo_idle_timeout_secs :: nat

text \<open>\<open>min_by_key\<close> keeps the first of equal keys.\<close>

definition clamp_to_preset :: "nat \<Rightarrow> nat" where
  "clamp_to_preset n =
     foldl (\<lambda>best q. if \<bar>int q - int n\<bar> < \<bar>int best - int n\<bar> then q else best) (hd ALLOWED_PRESETS) (tl ALLOWED_PRESETS)"

definition resolve_minutes_from_db :: "string option \<Rightarrow> nat" where
  "resolve_minutes_from_db v =
     (case Option.bind v (parse_unsigned u32_max) of
        Some n \<Rightarrow> if List.member ALLOWED_PRESETS n then n else clamp_to_preset n
      | None \<Rightarrow> DEFAULT_IDLE_MIN)"

definition env_override_min :: "bool \<Rightarrow> environment \<Rightarrow> nat option" where
  "env_override_min debug_assertions env =
     (if debug_assertions
      then Option.bind (Option.bind (env ''OMNIDRIVE_AUTO_LOCK_TEST_MIN'') (parse_unsigned u32_max)) (\<lambda>m. if 0 < m then Some m else None)
      else None)"

definition monitor_init :: "bool \<Rightarrow> environment \<Rightarrow> int \<Rightarrow> cfgdb \<Rightarrow> AutoLockMonitor \<times> cfgdb" where
  "monitor_init debug_assertions env now s =
     (let stored = get_system_config_value s SYSTEM_CONFIG_KEY;
          db_minutes = resolve_minutes_from_db stored;
          s1 = (if stored \<noteq> Some (dec_nat db_minutes) then set_system_config_value now s SYSTEM_CONFIG_KEY (dec_nat db_minutes) else s);
          minutes = coalesce (env_override_min debug_assertions env) db_minutes
      in (\<lparr>mo_last_activity = 0, mo_idle_timeout_secs = minutes * 60\<rparr>, s1))"

definition set_timeout_minutes :: "int \<Rightarrow> AutoLockMonitor \<Rightarrow> cfgdb \<Rightarrow> nat \<Rightarrow> (AutoLockError + unit) \<times> AutoLockMonitor \<times> cfgdb" where
  "set_timeout_minutes now mon s m =
     (if \<not> List.member ALLOWED_PRESETS m then (Inl (InvalidPreset m), mon, s)
      else (Inr (), mon\<lparr>mo_idle_timeout_secs := m * 60\<rparr>, set_system_config_value now s SYSTEM_CONFIG_KEY (dec_nat m)))"

definition touch :: "nat \<Rightarrow> AutoLockMonitor \<Rightarrow> AutoLockMonitor" where
  "touch now_secs mon = mon\<lparr>mo_last_activity := now_secs\<rparr>"

definition remaining_secs :: "nat \<Rightarrow> AutoLockMonitor \<Rightarrow> nat" where
  "remaining_secs now_secs mon =
     (if mo_last_activity mon = 0 then mo_idle_timeout_secs mon
      else mo_idle_timeout_secs mon - (now_secs - mo_last_activity mon))"

text \<open>The body of the tick loop, after its sleep.\<close>

definition tick :: "nat \<Rightarrow> int \<Rightarrow> AutoLockMonitor \<Rightarrow> vault \<Rightarrow> vault" where
  "tick now_secs now mon st =
     (if now_secs - mo_last_activity mon < mo_idle_timeout_secs mon then st
      else if \<not> is_unlocked st then st
      else snd (force_lock_and_dismount now IdleTimeout None st))"

section \<open>The state of the server and its handlers (api/auto_lock.rs, api/auth.rs)\<close>

record 'ip server =
  sv_vault :: vault
  sv_cfg :: cfgdb
  sv_monitor :: "AutoLockMonitor option"
  sv_unlock_limiter :: "'ip limiter_map"

definition touch_global :: "nat \<Rightarrow> 'ip server \<Rightarrow> 'ip server" where
  "touch_global now_secs sv = sv\<lparr>sv_monitor := map_option (touch now_secs) (sv_monitor sv)\<rparr>"

definition post_timeout :: "'ip server \<Rightarrow> int \<Rightarrow> string option \<Rightarrow> nat \<Rightarrow> (ApiError + unit) \<times> 'ip server" where
  "post_timeout sv now header idle_timeout_min =
     (case bindR (require_session (va_db (sv_vault sv)) now header) (\<lambda>_. ok_or Internal (sv_monitor sv)) of
        Inl e \<Rightarrow> (Inl e, sv)
      | Inr mon \<Rightarrow>
          (case set_timeout_minutes now mon (sv_cfg sv) idle_timeout_min of
             (Inr _, mon', s') \<Rightarrow> (Inr (), sv\<lparr>sv_monitor := Some mon', sv_cfg := s'\<rparr>)
           | (Inl (InvalidPreset n), _, _) \<Rightarrow> (Inl (BadRequest ''invalid_preset''), sv)
           | (Inl _, _, _) \<Rightarrow> (Inl Internal, sv)))"

record AutoLockStatusResponse =
  as_idle_timeout_min :: nat
  as_remaining_seconds :: nat
  as_state :: string

definition get_status :: "'ip server \<Rightarrow> nat \<Rightarrow> int \<Rightarrow> string option \<Rightarrow> ApiError + AutoLockStatusResponse" where
  "get_status sv now_secs now header =
     bindR (require_session_no_touch (va_db (sv_vault sv)) now header) (\<lambda>_.
     bindR (ok_or Internal (sv_monitor sv)) (\<lambda>mon.
       let rem = remaining_secs now_secs mon;
           idle_min = mo_idle_timeout_secs mon div 60
       in Inr \<lparr>as_idle_timeout_min = (if idle_min \<le> u32_max then idle_min else DEFAULT_IDLE_MIN), as_remaining_seconds = rem,
               as_state = (if \<not> is_unlocked (sv_vault sv) then ''locked'' else if rem = 0 then ''expired''
                 else if rem \<le> WARNING_THRESHOLD_SECS then ''warning'' else ''active'')\<rparr>))"

definition post_touch :: "'ip server \<Rightarrow> nat \<Rightarrow> int \<Rightarrow> string option \<Rightarrow> (ApiError + unit) \<times> 'ip server" where
  "post_touch sv now_secs now header =
     (case require_session (va_db (sv_vault sv)) now header of
        Inl e \<Rightarrow> (Inl e, sv)
      | Inr _ \<Rightarrow> (Inr (), touch_global now_secs sv))"

definition require_local_intent :: "(string \<Rightarrow> string option) \<Rightarrow> ApiError + unit" where
  "require_local_intent headers =
     (case headers ''x-omnidrive-local'' of
        Some v \<Rightarrow> if str_trim v = ''1'' then Inr () else Inl Forbidden
      | None \<Rightarrow> Inl Forbidden)"

record UnlockResponse =
  ul_initialized :: bool
  ul_session :: "(string \<times> int) option"

text \<open>The part of both unlock handlers after the keys are in memory: a session and an audit entry.\<close>

definition after_unlock :: "vault \<Rightarrow> int \<Rightarrow> string \<Rightarrow> string \<Rightarrow> (string \<times> int) option \<times> vault" where
  "after_unlock st now token details =
     (let (session, s1) = (case create_session_for_local_device (va_db st) now token of
            Inr (x, s') \<Rightarrow> (Some (ss_token x, ss_expires_at x), s')
          | Inl _ \<Rightarrow> (None, va_db st));
          s2 = (case get_vault_params s1 of
                  Some v \<Rightarrow> audit s1 now (vr_vault_id v) ''vault_unlock'' None
                    (map_option ld_device_id (get_local_device_identity s1)) None None (Some details)
                | None \<Rightarrow> s1)
      in (session, st\<lparr>va_db := s2\<rparr>))"

definition post_unlock ::
  "prims \<Rightarrow> unlock_rnd \<Rightarrow> ('ip \<Rightarrow> string) \<Rightarrow> 'ip server \<Rightarrow> nat \<Rightarrow> int \<Rightarrow> 'ip \<Rightarrow> string \<Rightarrow> bytes
     \<Rightarrow> (ApiError + UnlockResponse) \<times> 'ip server" where
  "post_unlock P rnd show_ip sv now_ns now ip token passphrase =
     (case limiter_check unlock_policy now_ns (sv_unlock_limiter sv) ip of
        (Inl retry_after, m) \<Rightarrow> (Inl (TooManyRequests retry_after), sv\<lparr>sv_unlock_limiter := m\<rparr>)
      | (Inr _, m) \<Rightarrow>
          (case unlock P rnd (sv_vault sv) passphrase of
             (Inl _, st') \<Rightarrow>
               let s1 = (case get_vault_params (va_db st') of
                     Some v \<Rightarrow> audit (va_db st') now (vr_vault_id v) ''vault_unlock_failed'' None None None None
                       (Some (''{\"ip\":\"'' @ show_ip ip @ ''\"}''))
                   | None \<Rightarrow> va_db st')
               in (Inl (BadRequest ''unlock_failed''),
                   sv\<lparr>sv_unlock_limiter := record_failure now_ns m ip, sv_vault := st'\<lparr>va_db := s1\<rparr>\<rparr>)
           | (Inr result, st') \<Rightarrow>
               (case after_unlock st' now token ''{\"result\":\"success\"}'' of
                  (session, st2) \<Rightarrow>
                    (Inr \<lparr>ul_initialized = ur_initialized result, ul_session = session\<rparr>,
                     touch_global (as_secs now_ns) (sv\<lparr>sv_unlock_limiter := record_success m ip, sv_vault := st2\<rparr>)))))"

text \<open>The stored passphrase of Windows Hello is an argument: \<open>Inl\<close> when the store fails, \<open>Inr None\<close> when there is none.\<close>

definition post_windows_hello_unlock ::
  "prims \<Rightarrow> unlock_rnd \<Rightarrow> 'ip server \<Rightarrow> nat \<Rightarrow> int \<Rightarrow> (string \<Rightarrow> string option) \<Rightarrow> (string + bytes option) \<Rightarrow> string
     \<Rightarrow> (ApiError + UnlockResponse) \<times> 'ip server" where
  "post_windows_hello_unlock P rnd sv now_ns now headers stored token =
     (case bindR (require_local_intent headers) (\<lambda>_.
           bindR (map_err (\<lambda>_. Internal) stored) (\<lambda>found. ok_or (NotFound ''windows_hello_credential'' ''vault'') found)) of
        Inl e \<Rightarrow> (Inl e, sv)
      | Inr passphrase \<Rightarrow>
          (case unlock P rnd (sv_vault sv) passphrase of
             (Inl _, st') \<Rightarrow> (Inl (BadRequest ''unlock_failed''), sv\<lparr>sv_vault := st'\<rparr>)
           | (Inr result, st') \<Rightarrow>
               (case after_unlock st' now token ''{\"result\":\"success\",\"method\":\"windows_hello\"}'' of
                  (session, st2) \<Rightarrow>
                    (Inr \<lparr>ul_initialized = ur_initialized result, ul_session = session\<rparr>,
                     touch_global (as_secs now_ns) (sv\<lparr>sv_vault := st2\<rparr>)))))"

record SessionInfo =
  si_user_id :: string
  si_device_id :: string
  si_expires_at :: int
  si_email :: "string option"
  si_display_name :: "string option"

definition get_auth_session :: "adb \<Rightarrow> int \<Rightarrow> string option \<Rightarrow> SessionInfo option" where
  "get_auth_session s now header =
     map_option (\<lambda>session.
       let user = get_user s (ss_user_id session)
       in \<lparr>si_user_id = ss_user_id session, si_device_id = ss_device_id session, si_expires_at = ss_expires_at session,
           si_email = Option.bind user us_email, si_display_name = map_option us_display_name user\<rparr>)
       (extract_session s now header)"

definition post_auth_logout :: "vault \<Rightarrow> int \<Rightarrow> string option \<Rightarrow> (ApiError + unit) \<times> vault" where
  "post_auth_logout st now header =
     (case authenticate_session (va_db st) now header of
        Inl e \<Rightarrow> (Inl e, st)
      | Inr session \<Rightarrow>
          let st1 = (if is_vault_member (va_db st) (ss_user_id session)
                     then snd (force_lock_and_dismount now Logout (Some (ss_user_id session, ss_device_id session)) st)
                     else st);
              (deleted, s2) = delete_user_session (va_db st1) (ss_token session)
          in (if deleted then Inr () else Inl (NotFound ''session'' ''current''), st1\<lparr>va_db := s2\<rparr>))"

definition post_change_password ::
  "prims \<Rightarrow> bytes \<Rightarrow> bytes \<Rightarrow> write_fault \<Rightarrow> vault \<Rightarrow> int \<Rightarrow> string option \<Rightarrow> bytes \<Rightarrow> bytes \<Rightarrow> (ApiError + RotationResult) \<times> vault" where
  "post_change_password P rnd_salt rnd_key fail_at st now header old_passphrase new_passphrase =
     (case require_session (va_db st) now header of
        Inl e \<Rightarrow> (Inl e, st)
      | Inr _ \<Rightarrow>
          (case checked_rotation P rnd_salt rnd_key fail_at st old_passphrase new_passphrase of
             (Inl e, st') \<Rightarrow> (Inl e, st')
           | (Inr result, st') \<Rightarrow>
               (Inr result,
                (case get_vault_params (va_db st') of
                   Some v \<Rightarrow>
                     st'\<lparr>va_db := audit (va_db st') now (vr_vault_id v) ''password_changed'' None
                         (map_option ld_device_id (get_local_device_identity (va_db st'))) None None
                         (Some (''{\"deks_rewrapped\":'' @ dec_nat (rr_deks_rewrapped result) @ '',\"new_generation\":'' @
                            dec_int (rr_new_generation result) @ ''}''))\<rparr>
                 | None \<Rightarrow> st'))))"

definition get_hello_available :: "cfgdb \<Rightarrow> bool \<Rightarrow> bool" where
  "get_hello_available s has_stored_credential \<longleftrightarrow>
     get_system_config_value s ''windows_hello_enabled'' = Some ''1'' \<and> has_stored_credential"

section \<open>The vault does not stay open unattended\<close>

text \<open>
  Four operations put keys in memory: an unlock, a change of the passphrase or of the vault key (\<open>rotate_vault_key\<close>), the
  rotation for a revocation, and the migration that the unlock spawns. Each of them computes the keys from the state it
  began in and writes them at the end, after awaiting many statements, so other requests can run in between, a lock among
  them: the write does not look whether the vault is still unlocked.
\<close>

inductive keys_written :: "prims \<Rightarrow> vault \<Rightarrow> UnlockedVaultKeys \<Rightarrow> bool" for P st where
  by_unlock: "unlock P rnd st pp = (Inr r, st') \<Longrightarrow> va_keys st' = Some keys \<Longrightarrow> keys_written P st keys"
| by_rotation: "rotate_vault_key P sl k fail_at st pp = (Inr r, st') \<Longrightarrow> va_keys st' = Some keys \<Longrightarrow> keys_written P st keys"
| by_revocation: "rotate_for_revocation P k st = (Inr r, st') \<Longrightarrow> va_keys st' = Some keys \<Longrightarrow> keys_written P st keys"
| by_migration: "migrate_kdf_params_if_needed P sl n1 n2 st pp = Inr (Migrated a b, st') \<Longrightarrow> va_keys st' = Some keys \<Longrightarrow>
    keys_written P st keys"

text \<open>
  The server with its clock (nanoseconds), the time of the next tick, and, for the statement only, the time the timeout was
  last changed or keys were last put in memory without a touch. Time passes up to the next tick and no further: the loop
  sleeps ten seconds between two ticks, and the time of its body is not counted. The write of keys by an operation that
  began in any earlier state is a step of its own (\<open>rekeyed\<close>); every other request, or part of one, changes tables and
  puts no keys in memory, though it may drop them or the previous envelope key (\<open>tables\<close>). A handler whose parts are
  interleaved with others is a sequence of \<open>rekeyed\<close>, \<open>touched\<close> and \<open>tables\<close>.
\<close>

record 'ip clocked =
  ck_server :: "'ip server"
  ck_now :: nat
  ck_next_tick :: nat
  ck_changed :: nat

inductive lock_step :: "'ip clocked \<Rightarrow> 'ip clocked \<Rightarrow> bool" where
  wait: "ck_now c \<le> t \<Longrightarrow> t \<le> ck_next_tick c \<Longrightarrow> lock_step c (c\<lparr>ck_now := t\<rparr>)"
| ticked: "ck_now c = ck_next_tick c \<Longrightarrow> sv_monitor (ck_server c) = Some mon \<Longrightarrow>
    lock_step c (c\<lparr>ck_server := (ck_server c)\<lparr>sv_vault := tick (as_secs (ck_now c)) epoch mon (sv_vault (ck_server c))\<rparr>,
      ck_next_tick := ck_now c + secs TICK_INTERVAL_SECS\<rparr>)"
| unlocks: "post_unlock P rnd sip (ck_server c) (ck_now c) epoch ip token pass = (ans, sv') \<Longrightarrow>
    lock_step c (c\<lparr>ck_server := sv'\<rparr>)"
| hello: "post_windows_hello_unlock P rnd (ck_server c) (ck_now c) epoch headers stored token = (ans, sv') \<Longrightarrow>
    lock_step c (c\<lparr>ck_server := sv'\<rparr>)"
| touched: "lock_step c (c\<lparr>ck_server := touch_global (as_secs (ck_now c)) (ck_server c)\<rparr>)"
| timeout: "post_timeout (ck_server c) epoch header m = (ans, sv') \<Longrightarrow>
    lock_step c (c\<lparr>ck_server := sv', ck_changed := (if ans = Inr () then ck_now c else ck_changed c)\<rparr>)"
| logout: "post_auth_logout (sv_vault (ck_server c)) epoch header = (res, v') \<Longrightarrow>
    lock_step c (c\<lparr>ck_server := (ck_server c)\<lparr>sv_vault := v'\<rparr>\<rparr>)"
| locks: "post_vault_lock (sv_vault (ck_server c)) epoch header = (res, v') \<Longrightarrow>
    lock_step c (c\<lparr>ck_server := (ck_server c)\<lparr>sv_vault := v'\<rparr>\<rparr>)"
| rekeyed: "keys_written P st0 keys \<Longrightarrow> va_keys v' = Some keys \<Longrightarrow>
    lock_step c (c\<lparr>ck_server := (ck_server c)\<lparr>sv_vault := v'\<rparr>, ck_changed := ck_now c\<rparr>)"
| tables: "(is_unlocked v' \<Longrightarrow> is_unlocked (sv_vault (ck_server c))) \<Longrightarrow>
    lock_step c (c\<lparr>ck_server := (ck_server c)\<lparr>sv_vault := v'\<rparr>\<rparr>)"

definition preset_timeout :: "AutoLockMonitor \<Rightarrow> bool" where
  "preset_timeout mon \<longleftrightarrow> (\<exists>m \<in> set ALLOWED_PRESETS. mo_idle_timeout_secs mon = m * 60)"

definition lock_inv :: "'ip clocked \<Rightarrow> bool" where
  "lock_inv c \<longleftrightarrow>
     (\<exists>mon. sv_monitor (ck_server c) = Some mon \<and> preset_timeout mon \<and>
        ck_now c \<le> ck_next_tick c \<and> ck_next_tick c \<le> ck_now c + secs TICK_INTERVAL_SECS \<and>
        (is_unlocked (sv_vault (ck_server c)) \<longrightarrow>
           as_secs (ck_next_tick c) < mo_last_activity mon + mo_idle_timeout_secs mon + TICK_INTERVAL_SECS \<or>
           ck_next_tick c \<le> ck_changed c + secs TICK_INTERVAL_SECS))"

lemma is_unlocked_simps [simp]:
  "is_unlocked (lock st) = False" "is_unlocked (st\<lparr>va_db := s\<rparr>) = is_unlocked st"
  by (simp_all add: is_unlocked_def require_key_def lock_def)

lemma is_unlocked_keys: "is_unlocked st \<longleftrightarrow> va_keys st \<noteq> None"
  by (simp add: is_unlocked_def require_key_def split: option.split)

lemma force_lock_locks: "\<not> is_unlocked (snd (force_lock_and_dismount now r a st))"
  by (simp add: force_lock_and_dismount_def Let_def)

lemma tick_locks: "is_unlocked (tick n e mon st) \<longleftrightarrow> is_unlocked st \<and> n - mo_last_activity mon < mo_idle_timeout_secs mon"
  by (simp add: tick_def force_lock_locks)

lemma as_secs_add: "as_secs (t + secs n) = as_secs t + n"
  by (simp add: as_secs_def secs_def)

lemma as_secs_mono: "a \<le> b \<Longrightarrow> as_secs a \<le> as_secs b"
  by (simp add: as_secs_def div_le_mono)

lemma unlock_failed_keys:
  "unlock P rnd st pass = (Inl e, st') \<Longrightarrow> va_keys st' = va_keys st"
  by (auto simp: unlock_def Let_def split: if_splits sum.splits prod.splits)

lemma unlock_opens: "unlock P rnd st pass = (Inr r, st') \<Longrightarrow> is_unlocked st'"
  by (auto simp: unlock_def is_unlocked_keys seal_tokens_state Let_def split: if_splits sum.splits prod.splits)

lemma after_unlock_keys: "after_unlock st now tok det = (x, st') \<Longrightarrow> is_unlocked st' = is_unlocked st"
  by (auto simp: after_unlock_def Let_def split: prod.splits sum.splits option.splits)

lemma lock_invI:
  assumes "sv_monitor sv = Some mon" and "preset_timeout mon" and "lock_inv c"
    and "is_unlocked (sv_vault sv) \<Longrightarrow>
      as_secs (ck_next_tick c) < mo_last_activity mon + mo_idle_timeout_secs mon + TICK_INTERVAL_SECS \<or>
      ck_next_tick c \<le> ck_changed c + secs TICK_INTERVAL_SECS"
  shows "lock_inv (c\<lparr>ck_server := sv\<rparr>)"
  using assms by (auto simp: lock_inv_def)

text \<open>A fresh touch is good for the whole timeout; keeping or dropping the keys keeps the invariant.\<close>

lemma lock_inv_touched:
  assumes "lock_inv c" and "sv_monitor sv = map_option (touch (as_secs (ck_now c))) (sv_monitor (ck_server c))"
  shows "lock_inv (c\<lparr>ck_server := sv\<rparr>)"
proof -
  from assms(1) obtain mon where mon: "sv_monitor (ck_server c) = Some mon" "preset_timeout mon"
    "ck_next_tick c \<le> ck_now c + secs TICK_INTERVAL_SECS" unfolding lock_inv_def by blast
  have "0 < mo_idle_timeout_secs mon" using mon(2) by (auto simp: preset_timeout_def ALLOWED_PRESETS_def)
  moreover have "as_secs (ck_next_tick c) \<le> as_secs (ck_now c) + TICK_INTERVAL_SECS"
    using as_secs_mono [OF mon(3)] by (simp add: as_secs_add)
  ultimately show ?thesis
    using mon assms by (intro lock_invI [where mon = "touch (as_secs (ck_now c)) mon"]) (auto simp: touch_def preset_timeout_def)
qed

lemma lock_inv_keys:
  assumes "lock_inv c" and "sv_monitor sv = sv_monitor (ck_server c)"
    and "is_unlocked (sv_vault sv) \<Longrightarrow> is_unlocked (sv_vault (ck_server c))"
  shows "lock_inv (c\<lparr>ck_server := sv\<rparr>)"
proof -
  from assms(1) obtain mon where mon: "sv_monitor (ck_server c) = Some mon" "preset_timeout mon"
    "is_unlocked (sv_vault (ck_server c)) \<longrightarrow>
      as_secs (ck_next_tick c) < mo_last_activity mon + mo_idle_timeout_secs mon + TICK_INTERVAL_SECS \<or>
      ck_next_tick c \<le> ck_changed c + secs TICK_INTERVAL_SECS" unfolding lock_inv_def by blast
  show ?thesis by (rule lock_invI [OF _ mon(2) assms(1)]) (use mon assms in auto)
qed

lemma post_unlock_server:
  assumes "post_unlock P rnd sip sv t epoch ip tok pass = (ans, sv')"
  shows "sv_monitor sv' = map_option (touch (as_secs t)) (sv_monitor sv) \<or>
    sv_monitor sv' = sv_monitor sv \<and> is_unlocked (sv_vault sv') = is_unlocked (sv_vault sv)"
  using assms unlock_failed_keys [of P rnd "sv_vault sv" pass]
  by (auto simp: post_unlock_def touch_global_def is_unlocked_keys Let_def split: prod.splits sum.splits option.splits)

lemma hello_unlock_server:
  assumes "post_windows_hello_unlock P rnd sv t epoch hs stored tok = (ans, sv')"
  shows "sv_monitor sv' = map_option (touch (as_secs t)) (sv_monitor sv) \<or>
    sv_monitor sv' = sv_monitor sv \<and> is_unlocked (sv_vault sv') = is_unlocked (sv_vault sv)"
  using assms unlock_failed_keys [of P rnd "sv_vault sv"]
  by (auto simp: post_windows_hello_unlock_def touch_global_def is_unlocked_keys split: prod.splits sum.splits)

lemma set_timeout_cases:
  "set_timeout_minutes now mon s m = (r, mon', s') \<Longrightarrow>
     r = Inl (InvalidPreset m) \<and> m \<notin> set ALLOWED_PRESETS \<and> mon' = mon \<and> s' = s \<or>
     r = Inr () \<and> m \<in> set ALLOWED_PRESETS \<and> mon' = mon\<lparr>mo_idle_timeout_secs := m * 60\<rparr> \<and>
       s' = set_system_config_value now s SYSTEM_CONFIG_KEY (dec_nat m)"
  by (auto simp: set_timeout_minutes_def split: if_splits)

lemma presets_positive: "m \<in> set ALLOWED_PRESETS \<Longrightarrow> 5 \<le> m \<and> m \<le> 60"
  by (auto simp: ALLOWED_PRESETS_def)


lemma clamp_is_preset: "clamp_to_preset n \<in> set ALLOWED_PRESETS"
  by (simp add: clamp_to_preset_def ALLOWED_PRESETS_def)

lemma resolve_is_preset: "resolve_minutes_from_db v \<in> set ALLOWED_PRESETS"
  by (auto simp: resolve_minutes_from_db_def clamp_is_preset DEFAULT_IDLE_MIN_def split: option.split)
    (simp add: ALLOWED_PRESETS_def)

lemma monitor_init_preset: "preset_timeout (fst (monitor_init False env now s))" "mo_last_activity (fst (monitor_init d env now s)) = 0"
  using resolve_is_preset by (auto simp: monitor_init_def env_override_min_def preset_timeout_def Let_def)

lemma lock_step_inv:
  assumes "lock_step c c'" and "lock_inv c"
  shows "lock_inv c'"
  using assms
proof (induction rule: lock_step.induct)
  case (wait c t)
  then show ?case by (auto simp: lock_inv_def)
next
  case (ticked c mon epoch)
  then show ?case
    by (auto simp: lock_inv_def tick_locks as_secs_add)
next
  case (unlocks P rnd sip c epoch ip token pass ans sv')
  from post_unlock_server [OF unlocks(1)] show ?case
    using lock_inv_touched [OF unlocks(2)] lock_inv_keys [OF unlocks(2)] by blast
next
  case (hello P rnd c epoch headers stored token ans sv')
  from hello_unlock_server [OF hello(1)] show ?case
    using lock_inv_touched [OF hello(2)] lock_inv_keys [OF hello(2)] by blast
next
  case (touched c)
  then show ?case by (rule lock_inv_touched) (simp add: touch_global_def)
next
  case (timeout c epoch header m ans sv')
  from timeout(2) obtain mon where mon: "sv_monitor (ck_server c) = Some mon" unfolding lock_inv_def by blast
  obtain r mon' s' where r: "set_timeout_minutes epoch mon (sv_cfg (ck_server c)) m = (r, mon', s')"
    by (cases "set_timeout_minutes epoch mon (sv_cfg (ck_server c)) m") auto
  from set_timeout_cases [OF r] timeout(1) mon r
  have "sv' = ck_server c \<and> ans \<noteq> Inr () \<or>
      sv_monitor sv' = Some mon' \<and> preset_timeout mon' \<and> ans = Inr ()"
    by (cases "require_session (va_db (sv_vault (ck_server c))) epoch header") (auto simp: post_timeout_def preset_timeout_def)
  with timeout(2) mon show ?case by (auto simp: lock_inv_def)
next
  case (logout c epoch header res v')
  have "is_unlocked v' \<Longrightarrow> is_unlocked (sv_vault (ck_server c))"
    using logout(1) by (auto simp: post_auth_logout_def force_lock_locks Let_def split: sum.splits if_splits prod.splits)
  then show ?case by (intro lock_inv_keys [OF logout(2)]) simp_all
next
  case (locks c epoch header res v')
  have "is_unlocked v' \<Longrightarrow> is_unlocked (sv_vault (ck_server c))"
    using locks(1) by (auto simp: post_vault_lock_def split: sum.splits)
  then show ?case by (intro lock_inv_keys [OF locks(2)]) simp_all
next
  case (rekeyed P st0 keys v' c)
  then show ?case by (auto simp: lock_inv_def)
next
  case (tables v' c)
  then show ?case by (intro lock_inv_keys) simp_all
qed

lemma lock_inv_reach: "lock_step\<^sup>*\<^sup>* c c' \<Longrightarrow> lock_inv c \<Longrightarrow> lock_inv c'"
  by (induction rule: rtranclp_induct) (auto intro: lock_step_inv)

definition started :: "environment \<Rightarrow> int \<Rightarrow> 'ip clocked \<Rightarrow> bool" where
  "started env epoch c \<longleftrightarrow>
     sv_monitor (ck_server c) = Some (fst (monitor_init False env epoch (sv_cfg (ck_server c)))) \<and>
     \<not> is_unlocked (sv_vault (ck_server c)) \<and> ck_now c = 0 \<and> ck_next_tick c = secs TICK_INTERVAL_SECS"

text \<open>
  A rotation that ends after a lock reopens the vault: its keys go into memory although nothing is left of the unlock. So
  the exception for keys that were just written is needed in the next statement.
\<close>

lemma late_rotation_reopens:
  assumes "rotate_vault_key P sl k None st0 pp = (Inr res, st1)" and "va_keys st1 = Some keys"
    and "\<not> is_unlocked (sv_vault (ck_server c))"
  shows "\<exists>c'. lock_step c c' \<and> is_unlocked (sv_vault (ck_server c')) \<and> va_db (sv_vault (ck_server c')) = va_db (sv_vault (ck_server c))"
  by (intro exI conjI, rule rekeyed [where v' = "(sv_vault (ck_server c))\<lparr>va_keys := Some keys\<rparr>", OF by_rotation [OF assms(1,2)]])
    (simp_all add: is_unlocked_keys)

text \<open>
  C18: an unattended vault is locked. From the start of the daemon, through every sequence of requests, touches, ticks and
  waiting, whenever the vault is unlocked less than the idle timeout and one tick interval has passed since the last
  activity, unless within the last tick interval the timeout was changed or keys were put in memory without a touch (by an
  unlock, a rotation, a revocation or a migration that ended, perhaps after a lock); the timeout is always one of the four
  presets. A status with no time left is honest: the next tick locks.
\<close>

theorem unattended_vault_locks:
  assumes "started env epoch c0" and "lock_step\<^sup>*\<^sup>* c0 c"
  shows "\<exists>mon. sv_monitor (ck_server c) = Some mon \<and> preset_timeout mon \<and>
    (is_unlocked (sv_vault (ck_server c)) \<longrightarrow>
       as_secs (ck_now c) < mo_last_activity mon + mo_idle_timeout_secs mon + TICK_INTERVAL_SECS \<or>
       ck_now c \<le> ck_changed c + secs TICK_INTERVAL_SECS) \<and>
    (\<forall>e. remaining_secs (as_secs (ck_now c)) mon = 0 \<longrightarrow>
       \<not> is_unlocked (tick (as_secs (ck_now c)) e mon (sv_vault (ck_server c))))"
proof -
  have "lock_inv c0" using assms(1) monitor_init_preset(1) by (auto simp: started_def lock_inv_def)
  with assms(2) have "lock_inv c" by (rule lock_inv_reach)
  then obtain mon where mon: "sv_monitor (ck_server c) = Some mon" "preset_timeout mon" "ck_now c \<le> ck_next_tick c"
    "is_unlocked (sv_vault (ck_server c)) \<longrightarrow>
       as_secs (ck_next_tick c) < mo_last_activity mon + mo_idle_timeout_secs mon + TICK_INTERVAL_SECS \<or>
       ck_next_tick c \<le> ck_changed c + secs TICK_INTERVAL_SECS" unfolding lock_inv_def by blast
  have "0 < mo_idle_timeout_secs mon" using mon(2) by (auto simp: preset_timeout_def ALLOWED_PRESETS_def)
  then have "\<forall>e. remaining_secs (as_secs (ck_now c)) mon = 0 \<longrightarrow>
      \<not> is_unlocked (tick (as_secs (ck_now c)) e mon (sv_vault (ck_server c)))"
    by (auto simp: remaining_secs_def tick_locks split: if_splits)
  with mon as_secs_mono [OF mon(3)] show ?thesis by (intro exI [of _ mon]) auto
qed

text \<open>A daemon with an empty database; the passphrase is set three seconds after the start.\<close>

definition new_server :: "string server" where
  "new_server = \<lparr>sv_vault = \<lparr>va_db = empty_adb, va_keys = None\<rparr>, sv_cfg = \<lparr>system_config = [], cloud_usage_daily = []\<rparr>,
     sv_monitor = Some \<lparr>mo_last_activity = 0, mo_idle_timeout_secs = 900\<rparr>, sv_unlock_limiter = Map.empty\<rparr>"

definition new_clocked :: "string clocked" where
  "new_clocked = \<lparr>ck_server = new_server, ck_now = 0, ck_next_tick = secs TICK_INTERVAL_SECS, ck_changed = 0\<rparr>"

lemma new_clocked_started: "started (\<lambda>_. None) 0 new_clocked"
  by (simp add: started_def new_clocked_def new_server_def monitor_init_def env_override_min_def get_system_config_value_def
      resolve_minutes_from_db_def DEFAULT_IDLE_MIN_def Let_def is_unlocked_keys)

theorem unattended_vault_locks_witness:
  "\<exists>c mon. lock_step\<^sup>*\<^sup>* new_clocked c \<and> is_unlocked (sv_vault (ck_server c)) \<and> sv_monitor (ck_server c) = Some mon \<and>
     (as_secs (ck_now c) < mo_last_activity mon + mo_idle_timeout_secs mon + TICK_INTERVAL_SECS \<or>
      ck_now c \<le> ck_changed c + secs TICK_INTERVAL_SECS)"
proof -
  let ?c1 = "new_clocked\<lparr>ck_now := secs 3\<rparr>"
  have w: "lock_step new_clocked ?c1" by (rule wait) (simp_all add: new_clocked_def TICK_INTERVAL_SECS_def secs_def)
  obtain res st1 where u: "unlock toy_prims toy_rnd \<lparr>va_db = empty_adb, va_keys = None\<rparr> [1, 2, 3] = (Inr res, st1)" "is_unlocked st1"
    using new_vault_unlocks unlock_opens by (fastforce simp: new_vault_def)
  obtain ans sv' where p: "post_unlock toy_prims toy_rnd id (ck_server ?c1) (ck_now ?c1) 0 ''a'' ''t'' [1, 2, 3] = (ans, sv')" by force
  have "limiter_check unlock_policy (secs 3) Map.empty ''a'' = (Inr (), [''a'' \<mapsto> default_record])"
    by (simp add: limiter_check_def entry_or_default_def default_record_def retain_recent_def unlock_policy_def Let_def)
  with p u have un: "is_unlocked (sv_vault sv')"
    by (auto simp: post_unlock_def new_clocked_def new_server_def touch_global_def dest: after_unlock_keys split: prod.splits)
  let ?c2 = "?c1\<lparr>ck_server := sv'\<rparr>"
  have run: "lock_step\<^sup>*\<^sup>* new_clocked ?c2" using w unlocks [OF p] by (meson converse_rtranclp_into_rtranclp rtranclp.rtrancl_refl)
  from unattended_vault_locks [OF new_clocked_started run] obtain mon where mon: "sv_monitor (ck_server ?c2) = Some mon"
    "is_unlocked (sv_vault (ck_server ?c2)) \<longrightarrow>
       as_secs (ck_now ?c2) < mo_last_activity mon + mo_idle_timeout_secs mon + TICK_INTERVAL_SECS \<or>
       ck_now ?c2 \<le> ck_changed ?c2 + secs TICK_INTERVAL_SECS" by (elim exE conjE)
  have un2: "is_unlocked (sv_vault (ck_server ?c2))" using un by simp
  show ?thesis by (intro exI conjI, rule run, rule un2, rule mon(1), rule mon(2) [rule_format, OF un2])
qed

end
