(* ===== verification/CloudWorld.thy ===== *)
theory CloudWorld
  imports CloudGuard UploadQueue Packer
begin

text \<open>
  What the background workers act on: the database, the circuit breaker with its counters, the objects the cloud
  providers hold, and the files of the spool directory, by name. How the network behaves is an argument (\<open>net\<close>): a
  request may time out or fail, and a write or a deletion whose answer is lost may still have happened. The clock
  (milliseconds) is an argument, constant during one step of a worker. Also the traffic counters of \<^verbatim>\<open>db/stats.rs\<close>
  and the error classes the workers tell apart by the text of an error.
\<close>

record TrafficBucket =
  tb_bucket_epoch :: int
  tb_upload_bytes :: int
  tb_download_bytes :: int

record world =
  wd_db :: db
  wd_guard :: guard
  wd_cloud :: "string \<Rightarrow> string \<Rightarrow> bytes option"
  wd_spool :: "string \<Rightarrow> bytes option"
  wd_traffic :: "TrafficBucket list"

section \<open>The network\<close>

datatype net_fault = FaultTimeout | FaultError string

datatype put_outcome = PutDone "string option" "string option" | PutLost net_fault | PutLanded net_fault

datatype delete_outcome = DeleteDone | DeleteLost net_fault | DeleteLanded net_fault

text \<open>A file operation is done, fails and changes nothing, or fails and leaves some bytes in the file.\<close>

datatype file_outcome = FileDone | FileKept | FileLeft bytes

record net =
  ne_get :: "string \<Rightarrow> string \<Rightarrow> net_fault option"
  ne_put :: "string \<Rightarrow> string \<Rightarrow> put_outcome"
  ne_delete :: "string \<Rightarrow> string \<Rightarrow> delete_outcome"
  ne_head :: "string \<Rightarrow> string \<Rightarrow> net_fault option"
  ne_unlink :: "string \<Rightarrow> file_outcome"
  ne_write :: "string \<Rightarrow> file_outcome"

definition get_object :: "net \<Rightarrow> world \<Rightarrow> string \<Rightarrow> string \<Rightarrow> net_fault + bytes" where
  "get_object n w provider key =
     (case ne_get n provider key of
        Some f \<Rightarrow> Inl f
      | None \<Rightarrow> (case wd_cloud w provider key of Some bs \<Rightarrow> Inr bs | None \<Rightarrow> Inl (FaultError ''NoSuchKey'')))"

definition store_object :: "world \<Rightarrow> string \<Rightarrow> string \<Rightarrow> bytes option \<Rightarrow> world" where
  "store_object w provider key obj = w\<lparr>wd_cloud := (wd_cloud w)(provider := (wd_cloud w provider)(key := obj))\<rparr>"

definition put_object :: "net \<Rightarrow> world \<Rightarrow> string \<Rightarrow> string \<Rightarrow> bytes \<Rightarrow> (net_fault + string option \<times> string option) \<times> world" where
  "put_object n w provider key bs =
     (case ne_put n provider key of
        PutDone etag version_id \<Rightarrow> (Inr (etag, version_id), store_object w provider key (Some bs))
      | PutLanded f \<Rightarrow> (Inl f, store_object w provider key (Some bs))
      | PutLost f \<Rightarrow> (Inl f, w))"

definition delete_object :: "net \<Rightarrow> world \<Rightarrow> string \<Rightarrow> string \<Rightarrow> (net_fault + unit) \<times> world" where
  "delete_object n w provider key =
     (case ne_delete n provider key of
        DeleteDone \<Rightarrow> (Inr (), store_object w provider key None)
      | DeleteLanded f \<Rightarrow> (Inl f, store_object w provider key None)
      | DeleteLost f \<Rightarrow> (Inl f, w))"

definition head_object :: "net \<Rightarrow> world \<Rightarrow> string \<Rightarrow> string \<Rightarrow> net_fault + int" where
  "head_object n w provider key =
     (case ne_head n provider key of
        Some f \<Rightarrow> Inl f
      | None \<Rightarrow> (case wd_cloud w provider key of Some bs \<Rightarrow> Inr (int (length bs)) | None \<Rightarrow> Inl (FaultError ''NotFound'')))"

text \<open>
  The file operations of the spool (\<^verbatim>\<open>secure_fs.rs\<close>): \<open>secure_delete\<close> overwrites the file before it removes it, so
  a failure may leave other bytes; removing a file that is not there succeeds.
\<close>

definition set_spool :: "string \<Rightarrow> bytes option \<Rightarrow> world \<Rightarrow> world" where
  "set_spool name c w = w\<lparr>wd_spool := (wd_spool w)(name := c)\<rparr>"

definition secure_delete :: "net \<Rightarrow> string \<Rightarrow> world \<Rightarrow> bool \<times> world" where
  "secure_delete n name w =
     (if wd_spool w name = None then (True, w)
      else case ne_unlink n name of
             FileDone \<Rightarrow> (True, set_spool name None w)
           | FileKept \<Rightarrow> (False, w)
           | FileLeft bs \<Rightarrow> (False, set_spool name (Some bs) w))"

definition write_ephemeral_bytes :: "net \<Rightarrow> string \<Rightarrow> bytes \<Rightarrow> world \<Rightarrow> bool \<times> world" where
  "write_ephemeral_bytes n name bs w =
     (case ne_write n name of
        FileDone \<Rightarrow> (True, set_spool name (Some bs) w)
      | FileKept \<Rightarrow> (False, w)
      | FileLeft x \<Rightarrow> (False, set_spool name (Some x) w))"

section \<open>Steps that change the world and may fail\<close>

definition returnW :: "'a \<Rightarrow> 'w \<Rightarrow> ('e + 'a) \<times> 'w" where
  "returnW x w = (Inr x, w)"

definition failW :: "'e \<Rightarrow> 'w \<Rightarrow> ('e + 'a) \<times> 'w" where
  "failW e w = (Inl e, w)"

definition liftW :: "'e + 'a \<Rightarrow> 'w \<Rightarrow> ('e + 'a) \<times> 'w" where
  "liftW r w = (r, w)"

definition bindW :: "('w \<Rightarrow> ('e + 'a) \<times> 'w) \<Rightarrow> ('a \<Rightarrow> 'w \<Rightarrow> ('e + 'b) \<times> 'w) \<Rightarrow> 'w \<Rightarrow> ('e + 'b) \<times> 'w" where
  "bindW m k w = (case m w of (Inl e, w') \<Rightarrow> (Inl e, w') | (Inr x, w') \<Rightarrow> k x w')"

lemma bindW_simps [simp]:
  "bindW (returnW x) k w = k x w" "bindW (failW e) k w = (Inl e, w)"
  "bindW (liftW (Inr x)) k w = k x w" "bindW (liftW (Inl e)) k w = (Inl e, w)"
  by (simp_all add: bindW_def returnW_def failW_def liftW_def)

lemma bindW_cases:
  assumes "bindW m k w = (r, w')"
  obtains (err) e where "m w = (Inl e, w')" "r = Inl e" | (ok) x w1 where "m w = (Inr x, w1)" "k x w1 = (r, w')"
  using assms by (auto simp: bindW_def split: prod.splits sum.splits)

definition modify_db :: "(db \<Rightarrow> db) \<Rightarrow> world \<Rightarrow> ('e + unit) \<times> world" where
  "modify_db f w = (Inr (), w\<lparr>wd_db := f (wd_db w)\<rparr>)"

definition query_db :: "(db \<Rightarrow> 'a) \<Rightarrow> world \<Rightarrow> ('e + 'a) \<times> world" where
  "query_db f w = (Inr (f (wd_db w)), w)"

lemma bindW_db [simp]:
  "bindW (modify_db f) k w = k () (w\<lparr>wd_db := f (wd_db w)\<rparr>)" "bindW (query_db g) k w = k (g (wd_db w)) w"
  by (simp_all add: bindW_def modify_db_def query_db_def)

section \<open>Traffic (db/stats.rs)\<close>

definition record_traffic :: "int \<Rightarrow> int \<Rightarrow> int \<Rightarrow> TrafficBucket list \<Rightarrow> TrafficBucket list" where
  "record_traffic now_secs upload_bytes download_bytes t =
     (let bucket = now_secs - now_secs mod 7200
      in if bucket \<in> set (map tb_bucket_epoch t)
         then update_where (\<lambda>b. tb_bucket_epoch b = bucket)
           (\<lambda>b. b\<lparr>tb_upload_bytes := tb_upload_bytes b + upload_bytes, tb_download_bytes := tb_download_bytes b + download_bytes\<rparr>) t
         else t @ [\<lparr>tb_bucket_epoch = bucket, tb_upload_bytes = upload_bytes, tb_download_bytes = download_bytes\<rparr>])"

section \<open>Error texts\<close>

definition has_infix :: "string \<Rightarrow> string \<Rightarrow> bool" where
  "has_infix needle hay \<longleftrightarrow> list_ex (\<lambda>k. take (length needle) (drop k hay) = needle) [0..<Suc (length hay)]"

definition is_missing_error :: "string \<Rightarrow> bool" where
  "is_missing_error details \<longleftrightarrow>
     list_ex (\<lambda>p. has_infix p (map ascii_lower details))
       [''404'', ''410'', ''notfound'', ''no such key'', ''nosuchkey'', ''resource not found'']"

definition is_transient_error :: "string \<Rightarrow> bool" where
  "is_transient_error details \<longleftrightarrow>
     list_ex (\<lambda>p. has_infix p (map ascii_lower details))
       [''timeout'', ''timed out'', ''dns'', ''tls'', ''connection reset'', ''connection refused'', ''503'', ''502'', ''500'',
        ''service unavailable'']"

definition is_not_found_details :: "string \<Rightarrow> bool" where
  "is_not_found_details details \<longleftrightarrow>
     list_ex (\<lambda>p. has_infix p (map ascii_lower details)) [''404'', ''notfound'', ''nosuchkey'']"

section \<open>Shards that are where the database says they are\<close>

text \<open>Every shard marked as stored is stored with the content its checksum names.\<close>

definition shard_backed :: "(bytes \<Rightarrow> bytes) \<Rightarrow> world \<Rightarrow> PackShardRecord \<Rightarrow> bool" where
  "shard_backed sha256 w r \<longleftrightarrow>
     (case wd_cloud w (sh_provider r) (sh_object_key r) of
        Some bs \<Rightarrow> hex_sha256 sha256 bs = sh_checksum r
      | None \<Rightarrow> False)"

definition backed :: "(bytes \<Rightarrow> bytes) \<Rightarrow> world \<Rightarrow> bool" where
  "backed sha256 w \<longleftrightarrow> (\<forall>r \<in> set (pack_shards (wd_db w)). sh_status r = ''COMPLETED'' \<longrightarrow> shard_backed sha256 w r)"

text \<open>No two shards share an object, and the spool file of a shard, where there is one, is the shard.\<close>

definition places_distinct :: "db \<Rightarrow> bool" where
  "places_distinct s \<longleftrightarrow> distinct (map (\<lambda>r. (sh_provider r, sh_object_key r)) (pack_shards s))"

definition spool_intact :: "(bytes \<Rightarrow> bytes) \<Rightarrow> world \<Rightarrow> bool" where
  "spool_intact sha256 w \<longleftrightarrow> (\<forall>r \<in> set (pack_shards (wd_db w)). \<forall>bs.
     wd_spool w (local_shard_name (sh_pack_id r) (nat (sh_shard_index r))) = Some bs \<longrightarrow> hex_sha256 sha256 bs = sh_checksum r)"

text \<open>What no worker changes of a shard: everything but its status and the records of attempts and checks.\<close>

definition same_shard :: "PackShardRecord \<Rightarrow> PackShardRecord \<Rightarrow> bool" where
  "same_shard r r' \<longleftrightarrow> sh_id r' = sh_id r \<and> sh_pack_id r' = sh_pack_id r \<and> sh_shard_index r' = sh_shard_index r \<and>
     sh_provider r' = sh_provider r \<and> sh_object_key r' = sh_object_key r \<and> sh_size r' = sh_size r \<and> sh_checksum r' = sh_checksum r"

definition same_shards :: "db \<Rightarrow> db \<Rightarrow> bool" where
  "same_shards s s' \<longleftrightarrow> list_all2 same_shard (pack_shards s) (pack_shards s')"

lemma same_shards_refl [simp]: "same_shards s s"
  by (simp add: same_shards_def same_shard_def list_all2_same)

lemma same_shards_trans: "same_shards s s1 \<Longrightarrow> same_shards s1 s2 \<Longrightarrow> same_shards s s2"
  unfolding same_shards_def by (rule list_all2_trans) (auto simp: same_shard_def)

lemma same_shards_update_shard:
  assumes "\<And>r. same_shard r (f r)"
  shows "same_shards s (update_shard s p i f)"
  unfolding same_shards_def update_shard_def update_where_def
  using assms by (simp add: list_all2_map2 list_all2_same same_shard_def)

lemma same_shards_map:
  assumes "same_shards s s'" and "\<And>r r'. same_shard r r' \<Longrightarrow> g r' = g r"
  shows "map g (pack_shards s') = map g (pack_shards s)"
proof -
  have "list_all2 same_shard xs ys \<Longrightarrow> map g ys = map g xs" for xs ys
    by (induction rule: list_all2_induct) (simp_all add: assms(2))
  with assms(1) show ?thesis by (simp add: same_shards_def)
qed

lemma same_shards_row:
  assumes "same_shards s s'" and "r' \<in> set (pack_shards s')"
  shows "\<exists>r \<in> set (pack_shards s). same_shard r r'"
  using assms by (force simp: same_shards_def list_all2_conv_all_nth in_set_conv_nth)

lemma same_shards_row':
  assumes "same_shards s s'" and "r \<in> set (pack_shards s)"
  shows "\<exists>r' \<in> set (pack_shards s'). same_shard r r'"
  using assms by (force simp: same_shards_def list_all2_conv_all_nth in_set_conv_nth)

lemma places_distinct_same: "same_shards s s' \<Longrightarrow> places_distinct s' = places_distinct s"
  unfolding places_distinct_def by (subst same_shards_map) (auto simp: same_shard_def)

lemma spool_intact_same:
  assumes "same_shards (wd_db w) (wd_db w')" and "\<And>x bs. wd_spool w' x = Some bs \<Longrightarrow> wd_spool w x = Some bs" and "spool_intact sha w"
  shows "spool_intact sha w'"
  unfolding spool_intact_def
proof (intro ballI allI impI)
  fix r' bs assume r': "r' \<in> set (pack_shards (wd_db w'))"
    and bs: "wd_spool w' (local_shard_name (sh_pack_id r') (nat (sh_shard_index r'))) = Some bs"
  from same_shards_row [OF assms(1) r'] obtain r where "r \<in> set (pack_shards (wd_db w))" "same_shard r r'" by blast
  with assms(3) assms(2) [OF bs] show "hex_sha256 sha bs = sh_checksum r'" by (auto simp: spool_intact_def same_shard_def)
qed

lemma backed_cong:
  "pack_shards (wd_db w') = pack_shards (wd_db w) \<Longrightarrow> wd_cloud w' = wd_cloud w \<Longrightarrow> backed sha w' = backed sha w"
  by (simp add: backed_def shard_backed_def)

section \<open>A world whose books are right\<close>

text \<open>
  Booking changes the shard table without declaring a shard stored that was not; declaring it is right only for an object
  that is there. \<open>intact\<close> is what the workers keep.
\<close>

definition book_shard :: "PackShardRecord \<Rightarrow> PackShardRecord \<Rightarrow> bool" where
  "book_shard r r' \<longleftrightarrow> same_shard r r' \<and> (sh_status r' = ''COMPLETED'' \<longrightarrow> sh_status r = ''COMPLETED'')"

definition books :: "db \<Rightarrow> db \<Rightarrow> bool" where
  "books s s' \<longleftrightarrow> list_all2 book_shard (pack_shards s) (pack_shards s')"

definition located :: "(bytes \<Rightarrow> bytes) \<Rightarrow> world \<Rightarrow> bool" where
  "located sha256 w \<longleftrightarrow> distinct (map shard_key (pack_shards (wd_db w))) \<and> places_distinct (wd_db w) \<and> backed sha256 w"

definition intact :: "(bytes \<Rightarrow> bytes) \<Rightarrow> world \<Rightarrow> bool" where
  "intact sha256 w \<longleftrightarrow> located sha256 w \<and> spool_intact sha256 w"

lemma intact_located: "intact sha w \<Longrightarrow> located sha w"
  by (simp add: intact_def)

lemma intact_backed: "intact sha w \<Longrightarrow> backed sha w"
  by (simp add: intact_def located_def)

lemma books_refl: "pack_shards s' = pack_shards s \<Longrightarrow> books s s'"
  by (simp add: books_def book_shard_def same_shard_def list_all2_same)

lemma books_trans: "books s s1 \<Longrightarrow> books s1 s2 \<Longrightarrow> books s s2"
  unfolding books_def by (rule list_all2_trans) (auto simp: book_shard_def same_shard_def)

lemma books_same: "books s s' \<Longrightarrow> same_shards s s'"
  unfolding books_def same_shards_def by (erule list_all2_mono) (simp add: book_shard_def)

lemma books_update_shard:
  assumes "\<And>r. book_shard r (f r)"
  shows "books s (update_shard s p i f)"
  unfolding books_def update_shard_def update_where_def
  using assms by (simp add: list_all2_map2 list_all2_same book_shard_def same_shard_def)

lemma books_row:
  assumes "books s s'" and "r' \<in> set (pack_shards s')"
  shows "\<exists>r \<in> set (pack_shards s). book_shard r r'"
  using assms by (force simp: books_def list_all2_conv_all_nth in_set_conv_nth)

lemma located_same_shards:
  assumes "located sha w" and "same_shards (wd_db w) (wd_db w')" and "backed sha w'"
  shows "located sha w'"
proof -
  have "map shard_key (pack_shards (wd_db w')) = map shard_key (pack_shards (wd_db w))"
    by (rule same_shards_map [OF assms(2)]) (simp add: same_shard_def shard_key_def)
  then show ?thesis
    using assms(1,3) places_distinct_same [OF assms(2)] by (simp add: located_def)
qed

lemma intact_same_shards:
  assumes "intact sha w" and "same_shards (wd_db w) (wd_db w')" and "wd_spool w' = wd_spool w" and "located sha w'"
  shows "intact sha w'"
proof -
  have "spool_intact sha w'"
    by (rule spool_intact_same [OF assms(2)]) (use assms(1,3) in \<open>simp_all add: intact_def\<close>)
  then show ?thesis using assms(4) by (simp add: intact_def)
qed

lemma shard_backed_same:
  "same_shard r r' \<Longrightarrow> wd_cloud w' = wd_cloud w \<Longrightarrow> shard_backed sha w' r' = shard_backed sha w r"
  by (auto simp: shard_backed_def same_shard_def split: option.splits)

lemma located_books:
  assumes "located sha w" and "books (wd_db w) (wd_db w')" and "wd_cloud w' = wd_cloud w"
  shows "located sha w'"
proof -
  have "backed sha w'"
    unfolding backed_def
  proof (intro ballI impI)
    fix r' assume r': "r' \<in> set (pack_shards (wd_db w'))" and c: "sh_status r' = ''COMPLETED''"
    from books_row [OF assms(2) r'] obtain r where "r \<in> set (pack_shards (wd_db w))" "book_shard r r'" by blast
    with c assms(1,3) show "shard_backed sha w' r'"
      using shard_backed_same [of r r' w' w] by (simp add: located_def backed_def book_shard_def)
  qed
  with assms books_same show ?thesis by (blast intro: located_same_shards)
qed

lemma located_store:
  assumes w: "located sha w" and r: "r \<in> set (pack_shards (wd_db w))" and bs: "hex_sha256 sha bs = sh_checksum r"
  shows "located sha (store_object w (sh_provider r) (sh_object_key r) (Some bs))"
proof (rule located_same_shards [OF w])
  show "backed sha (store_object w (sh_provider r) (sh_object_key r) (Some bs))"
    unfolding backed_def
  proof (intro ballI impI)
    fix x assume "x \<in> set (pack_shards (wd_db (store_object w (sh_provider r) (sh_object_key r) (Some bs))))"
      and c: "sh_status x = ''COMPLETED''"
    then have x: "x \<in> set (pack_shards (wd_db w))" by (simp add: store_object_def)
    with w c have "shard_backed sha w x" by (simp add: located_def backed_def)
    moreover have "x = r" if "sh_provider x = sh_provider r" "sh_object_key x = sh_object_key r"
      using w x r that distinct_map_key [of "\<lambda>r. (sh_provider r, sh_object_key r)" "pack_shards (wd_db w)" x r]
      by (simp add: located_def places_distinct_def)
    ultimately show "shard_backed sha (store_object w (sh_provider r) (sh_object_key r) (Some bs)) x"
      using bs by (auto simp: shard_backed_def store_object_def)
  qed
qed (simp_all add: store_object_def)

lemma located_complete:
  assumes w: "located sha w" and r: "r \<in> set (pack_shards (wd_db w))" and stored: "shard_backed sha w r"
    and w': "wd_cloud w' = wd_cloud w"
      "pack_shards (wd_db w') = pack_shards (mark_pack_shard_completed (wd_db w) (sh_pack_id r) (sh_shard_index r))"
  shows "located sha w'" and "same_shards (wd_db w) (wd_db w')"
proof -
  show same: "same_shards (wd_db w) (wd_db w')"
    using same_shards_update_shard [of "\<lambda>r. r\<lparr>sh_status := ''COMPLETED'', sh_last_error := None\<rparr>" "wd_db w"]
    by (simp add: same_shards_def w'(2) mark_pack_shard_completed_def same_shard_def)
  have "backed sha w'"
    unfolding backed_def
  proof (intro ballI impI)
    fix x' assume "x' \<in> set (pack_shards (wd_db w'))" and c: "sh_status x' = ''COMPLETED''"
    then obtain x where x: "x \<in> set (pack_shards (wd_db w))"
      and x': "x' = (if is_shard (sh_pack_id r) (sh_shard_index r) x then x\<lparr>sh_status := ''COMPLETED'', sh_last_error := None\<rparr> else x)"
      by (auto simp: w' mark_pack_shard_completed_def update_shard_def update_where_def)
    have "shard_backed sha w x"
    proof (cases "is_shard (sh_pack_id r) (sh_shard_index r) x")
      case True
      with w x r distinct_map_key [of shard_key "pack_shards (wd_db w)" x r] have "x = r"
        by (simp add: located_def shard_key_def is_shard_def)
      with stored show ?thesis by simp
    next
      case False
      with c x x' w show ?thesis by (simp add: located_def backed_def)
    qed
    moreover have "same_shard x x'" by (simp add: x' same_shard_def)
    ultimately show "shard_backed sha w' x'" using shard_backed_same [of x x' w' w] by (simp add: w')
  qed
  with w same show "located sha w'" by (rule located_same_shards)
qed

end
