(* ===== verification/Uploader.thy ===== *)
theory Uploader
  imports CloudWorld
begin

text \<open>
  The upload worker (\<^verbatim>\<open>uploader.rs\<close>): one job of the queue is one call of \<open>process_job\<close>, which uploads the shards of a
  pack that are not stored yet, books every attempt, settles the status of the pack and clears the spool once enough shards
  are stored. Durations are milliseconds; \<open>checked_mul\<close> in \<open>retry_delay\<close> cannot change the minimum it is followed by.
  The bandwidth limiter delays an upload and changes no state. Log lines and the diagnostics of the dashboard are left out.
\<close>

definition UPLOAD_RETRY_PLATEAU_AT :: int where "UPLOAD_RETRY_PLATEAU_AT = 100"
definition UPLOAD_RETRY_PLATEAU_DELAY :: nat where "UPLOAD_RETRY_PLATEAU_DELAY = 3600000"
definition UPLOAD_PERMANENT_FAILURE_AT :: int where "UPLOAD_PERMANENT_FAILURE_AT = 1000"

datatype UploaderError = UE_InvalidEnv string | UE_Db sqlx_error | UE_LocalObjectMissing string | UE_Timeout string
  | UE_Upload string string | UE_CloudGuard

datatype JobProcessOutcome = Completed | PendingRetry nat "string list" | Failed

record UploadWorker =
  uw_uploaders :: "(string \<times> string) list"
  uw_config :: AppConfig
  uw_retry_base_delay :: nat
  uw_retry_max_delay :: nat

fun is_retryable :: "UploaderError \<Rightarrow> bool" where
  "is_retryable (UE_Upload _ _) = True"
| "is_retryable (UE_Timeout _) = True"
| "is_retryable _ = False"

fun UploaderError_text :: "UploaderError \<Rightarrow> string" where
  "UploaderError_text (UE_InvalidEnv k) = ''invalid environment variable '' @ k"
| "UploaderError_text (UE_Db _) = ''sqlite error''"
| "UploaderError_text (UE_LocalObjectMissing p) = ''local upload object not found: '' @ p"
| "UploaderError_text (UE_Timeout p) = ''upload to '' @ p @ '' timed out''"
| "UploaderError_text (UE_Upload p d) = p @ '' put_object failed: '' @ d"
| "UploaderError_text UE_CloudGuard = ''cloud guard blocked operation''"

definition retry_delay :: "UploadWorker \<Rightarrow> int \<Rightarrow> nat" where
  "retry_delay W attempts =
     (if UPLOAD_RETRY_PLATEAU_AT \<le> attempts then UPLOAD_RETRY_PLATEAU_DELAY
      else min (uw_retry_base_delay W * 2 ^ nat (clamp 0 10 (i64_saturating_sub attempts 1))) (uw_retry_max_delay W))"

definition upload_file :: "net \<Rightarrow> world \<Rightarrow> string \<Rightarrow> string \<Rightarrow> string \<Rightarrow> (UploaderError + string option \<times> string option) \<times> world" where
  "upload_file n w provider name key =
     (case wd_spool w name of
        None \<Rightarrow> (Inl (UE_LocalObjectMissing name), w)
      | Some bs \<Rightarrow>
          if i64_max < int (length bs) then (Inl (UE_InvalidEnv ''file_size''), w)
          else (case put_object n w provider key bs of
                  (Inr r, w') \<Rightarrow> (Inr r, w')
                | (Inl (FaultError d), w') \<Rightarrow> (Inl (UE_Upload provider d), w')
                | (Inl FaultTimeout, w') \<Rightarrow> (Inl (UE_Timeout provider), w')))"

definition with_db :: "(db \<Rightarrow> db) \<Rightarrow> world \<Rightarrow> world" where
  "with_db f w = w\<lparr>wd_db := f (wd_db w)\<rparr>"

definition escalate_target_if_permanent :: "int \<Rightarrow> int \<Rightarrow> string \<Rightarrow> int \<Rightarrow> string \<Rightarrow> int \<Rightarrow> string \<Rightarrow> db \<Rightarrow> db" where
  "escalate_target_if_permanent now job_id pack_id shard_index provider target_attempts last_error s =
     (if target_attempts < UPLOAD_PERMANENT_FAILURE_AT then s
      else mark_pack_shard_permanently_failed (mark_upload_target_permanently_failed s now job_id provider last_error)
             pack_id shard_index last_error)"

text \<open>A shard that is to be tried again, and one that is not.\<close>

definition requeue_shard :: "int \<Rightarrow> UploadJob \<Rightarrow> PackShardRecord \<Rightarrow> string \<Rightarrow> world \<Rightarrow> (UploaderError + int) \<times> world" where
  "requeue_shard now job sh message w =
     (case requeue_pack_shard (wd_db w) (uj_pack_id job) (sh_shard_index sh) message of
        (Inl e, s1) \<Rightarrow> (Inl (UE_Db e), w\<lparr>wd_db := s1\<rparr>)
      | (Inr attempts, s1) \<Rightarrow>
          (case requeue_upload_target s1 now (uj_id job) (sh_provider sh) message of
             (Inl e, s2) \<Rightarrow> (Inl (UE_Db e), w\<lparr>wd_db := s2\<rparr>)
           | (Inr target_attempts, s2) \<Rightarrow>
               (Inr attempts, w\<lparr>wd_db := escalate_target_if_permanent now (uj_id job) (uj_pack_id job) (sh_shard_index sh)
                  (sh_provider sh) target_attempts message s2\<rparr>)))"

definition fail_shard :: "int \<Rightarrow> UploadJob \<Rightarrow> PackShardRecord \<Rightarrow> string \<Rightarrow> world \<Rightarrow> world" where
  "fail_shard now job sh message w =
     with_db (\<lambda>s. mark_upload_target_failed (mark_pack_shard_failed s (uj_pack_id job) (sh_shard_index sh) message)
       now (uj_id job) (sh_provider sh) message) w"

definition failed_line :: "PackShardRecord \<Rightarrow> string \<Rightarrow> string" where
  "failed_line sh message = sh_provider sh @ '' shard '' @ show_i64 (sh_shard_index sh) @ '': '' @ message"

datatype shard_step = Continue "string list" int | Return JobProcessOutcome

text \<open>The attempt itself: the shard is marked, uploaded from the spool, and the result is booked.\<close>

definition attempt_shard ::
  "net \<Rightarrow> int \<Rightarrow> UploadJob \<Rightarrow> string \<Rightarrow> PackShardRecord \<Rightarrow> string list \<Rightarrow> int \<Rightarrow> world \<Rightarrow> (UploaderError + shard_step) \<times> world" where
  "attempt_shard n now job bucket sh failed max_attempts w =
     (let name = local_shard_name (uj_pack_id job) (nat (sh_shard_index sh));
          w1 = with_db (\<lambda>s. mark_upload_target_in_progress (mark_pack_shard_in_progress s (uj_pack_id job) (sh_shard_index sh))
                 now (uj_id job) (sh_provider sh)) w
      in if wd_spool w1 name = None
         then (let message = ''local shard missing: '' @ name
               in (Inr (Continue (failed @ [failed_line sh message]) max_attempts), fail_shard now job sh message w1))
         else (case upload_file n w1 (sh_provider sh) name (sh_object_key sh) of
                 (Inr (etag, version_id), w2) \<Rightarrow>
                   (Inr (Continue failed max_attempts),
                    (with_db (\<lambda>s. mark_upload_target_completed (mark_pack_shard_completed s (uj_pack_id job) (sh_shard_index sh))
                       now (uj_id job) (sh_provider sh) bucket (sh_object_key sh) etag version_id) w2)
                    \<lparr>wd_traffic := record_traffic (now div 1000) (sh_size sh) 0 (wd_traffic w2)\<rparr>)
               | (Inl err, w2) \<Rightarrow>
                   if is_retryable err
                   then (case requeue_shard now job sh (UploaderError_text err) w2 of
                           (Inl e, w3) \<Rightarrow> (Inl e, w3)
                         | (Inr attempts, w3) \<Rightarrow>
                             (Inr (Continue (failed @ [failed_line sh (UploaderError_text err)]) (max max_attempts attempts)), w3))
                   else (Inr (Continue (failed @ [failed_line sh (UploaderError_text err)]) max_attempts),
                         fail_shard now job sh (UploaderError_text err) w2)))"

text \<open>The checks before an attempt, in their order: provider, size, quota of the provider, circuit breaker.\<close>

definition upload_pending_shard ::
  "UploadWorker \<Rightarrow> net \<Rightarrow> int \<Rightarrow> UploadJob \<Rightarrow> PackShardRecord \<Rightarrow> string list \<Rightarrow> int \<Rightarrow> world
     \<Rightarrow> (UploaderError + shard_step) \<times> world" where
  "upload_pending_shard W n now job sh failed max_attempts w =
     (case find (\<lambda>u. fst u = sh_provider sh) (uw_uploaders W) of
        None \<Rightarrow>
          (let message = ''provider '' @ sh_provider sh @ '' is not active in runtime configuration; waiting for hot-reload''
           in case requeue_shard now job sh message w of
                (Inl e, w1) \<Rightarrow> (Inl e, w1)
              | (Inr attempts, w1) \<Rightarrow> (Inr (Continue (failed @ [failed_line sh message]) (max max_attempts attempts)), w1))
      | Some u \<Rightarrow>
          if sh_size sh < 0 then (Inl (UE_InvalidEnv ''pack_shards.size''), w)
          else
            let current_usage = get_physical_usage_for_provider (wd_db w) (sh_provider sh);
                shard_size = nat (sh_size sh);
                projected_usage = u64_saturating_add current_usage shard_size
            in case enforce_single_upload_size_limit (uw_config W) shard_size of
                 Inl message \<Rightarrow> (Inr (Continue (failed @ [failed_line sh message]) max_attempts), fail_shard now job sh message w)
               | Inr _ \<Rightarrow>
                   if cf_max_physical_bytes_per_provider (uw_config W) < projected_usage
                   then (let message = ''quota exceeded for provider '' @ sh_provider sh @ '': projected='' @ dec_nat projected_usage @
                             '' limit='' @ dec_nat (cf_max_physical_bytes_per_provider (uw_config W))
                         in (Inr (Continue (failed @ [failed_line sh message]) max_attempts), fail_shard now job sh message w))
                   else
                     (case current_decision (uw_config W) now (wd_guard w) (Write 1) of
                        (Inl _, g) \<Rightarrow> (Inl UE_CloudGuard, w\<lparr>wd_guard := g\<rparr>)
                      | (Inr (DryRun message), g) \<Rightarrow> (Inr (Return (PendingRetry (uw_retry_max_delay W) [message])), w\<lparr>wd_guard := g\<rparr>)
                      | (Inr (Suspended reason), g) \<Rightarrow> (Inr (Return (PendingRetry (uw_retry_max_delay W) [reason])), w\<lparr>wd_guard := g\<rparr>)
                      | (Inr (QuotaExceeded reason), g) \<Rightarrow> (Inr (Return (PendingRetry (uw_retry_max_delay W) [reason])), w\<lparr>wd_guard := g\<rparr>)
                      | (Inr Allowed, g) \<Rightarrow>
                          if sh_shard_index sh < 0 then (Inl (UE_InvalidEnv ''pack_shards.shard_index''), w\<lparr>wd_guard := g\<rparr>)
                          else attempt_shard n now job (snd u) sh failed max_attempts (w\<lparr>wd_guard := g\<rparr>)))"

fun upload_pending_shards ::
  "UploadWorker \<Rightarrow> net \<Rightarrow> int \<Rightarrow> UploadJob \<Rightarrow> PackShardRecord list \<Rightarrow> string list \<Rightarrow> int \<Rightarrow> world
     \<Rightarrow> (UploaderError + shard_step) \<times> world" where
  "upload_pending_shards W n now job [] failed max_attempts w = (Inr (Continue failed max_attempts), w)"
| "upload_pending_shards W n now job (sh # shs) failed max_attempts w =
     (case upload_pending_shard W n now job sh failed max_attempts w of
        (Inr (Continue failed' max'), w1) \<Rightarrow> upload_pending_shards W n now job shs failed' max' w1
      | (r, w1) \<Rightarrow> (r, w1))"

fun unlink_all :: "net \<Rightarrow> string list \<Rightarrow> world \<Rightarrow> world" where
  "unlink_all n [] w = w"
| "unlink_all n (x # xs) w = unlink_all n xs (snd (secure_delete n x w))"

definition cleanup_remote_backed_pack_spool :: "net \<Rightarrow> string \<Rightarrow> world \<Rightarrow> world" where
  "cleanup_remote_backed_pack_spool n pack_id w =
     unlink_all n (local_pack_name pack_id # map (local_shard_name pack_id) [0..<TOTAL_SHARDS]) w"

text \<open>The status of the pack from its shards, and what it means for the job.\<close>

definition settle_status :: "StorageMode \<Rightarrow> string \<Rightarrow> world \<Rightarrow> PackStatus \<times> world" where
  "settle_status mode pack_id w =
     (let status = resolve_pack_status_for_mode mode (summarize_pack_shards (wd_db w) pack_id)
      in (status, with_db (\<lambda>s. update_pack_status s pack_id status) w))"

definition outcome_of :: "PackStatus \<Rightarrow> nat \<Rightarrow> string list \<Rightarrow> JobProcessOutcome" where
  "outcome_of status delay failed =
     (case status of Healthy \<Rightarrow> Completed | Degraded \<Rightarrow> Completed | Uploading \<Rightarrow> PendingRetry delay failed | Unreadable \<Rightarrow> Failed)"

definition process_job :: "UploadWorker \<Rightarrow> net \<Rightarrow> int \<Rightarrow> UploadJob \<Rightarrow> world \<Rightarrow> (UploaderError + JobProcessOutcome) \<times> world" where
  "process_job W n now job w =
     (if cf_dry_run_active (uw_config W)
      then (Inr (PendingRetry (uw_retry_max_delay W)
              [''[DRY-RUN] Would process cloud upload job for pack '' @ uj_pack_id job @
               '' without performing S3 PUT/POST/DELETE operations.'']), w)
      else if is_cloud_suspended (gd_cfg (wd_guard w))
      then (Inr (PendingRetry (uw_retry_max_delay W)
              [coalesce (get_system_config_value (gd_cfg (wd_guard w)) ''cloud_suspend_reason'')
                 ''cloud operations suspended by circuit breaker'']), w)
      else case get_pack (wd_db w) (uj_pack_id job) of
             None \<Rightarrow> (Inl (UE_InvalidEnv ''upload_jobs.pack_id''), w)
           | Some pack \<Rightarrow>
               let mode = StorageMode_from_str (pk_storage_mode pack) in
               case ensure_upload_targets (wd_db w) (uj_id job) (map sh_provider (get_pack_shards (wd_db w) (uj_pack_id job))) of
                 Inl e \<Rightarrow> (Inl (UE_Db e), w)
               | Inr s1 \<Rightarrow>
                   let w1 = w\<lparr>wd_db := s1\<rparr>;
                       pending = get_incomplete_pack_shards s1 (uj_pack_id job)
                   in if pending = []
                      then (case settle_status mode (uj_pack_id job) w1 of
                              (status, w2) \<Rightarrow> (Inr (outcome_of status (retry_delay W 1) [''waiting for shard retry'']), w2))
                      else (case upload_pending_shards W n now job pending [] 0 w1 of
                              (Inl e, w2) \<Rightarrow> (Inl e, w2)
                            | (Inr (Return outcome), w2) \<Rightarrow> (Inr outcome, w2)
                            | (Inr (Continue failed max_attempts), w2) \<Rightarrow>
                                (case settle_status mode (uj_pack_id job) w2 of
                                   (status, w3) \<Rightarrow>
                                     (Inr (outcome_of status (retry_delay W (max max_attempts 1)) failed),
                                      if status \<in> {Healthy, Degraded} \<and> mode \<noteq> LocalOnly
                                      then cleanup_remote_backed_pack_spool n (uj_pack_id job) w3 else w3))))"

text \<open>One turn of the worker's loop, and what it does when it starts.\<close>

definition upload_worker_start :: "int \<Rightarrow> world \<Rightarrow> world" where
  "upload_worker_start now w =
     with_db (\<lambda>s. snd (reset_in_progress_pack_shards (snd (reset_in_progress_upload_targets (snd (reset_in_progress_upload_jobs s)) now)))) w"

definition upload_worker_turn :: "UploadWorker \<Rightarrow> net \<Rightarrow> int \<Rightarrow> world \<Rightarrow> (UploaderError + bool) \<times> world" where
  "upload_worker_turn W n now w =
     (case get_next_upload_job (wd_db w) now of
        (None, s1) \<Rightarrow> (Inr False, w\<lparr>wd_db := s1\<rparr>)
      | (Some job, s1) \<Rightarrow>
          (case process_job W n now job (w\<lparr>wd_db := s1\<rparr>) of
             (Inl e, w1) \<Rightarrow> (Inl e, w1)
           | (Inr Completed, w1) \<Rightarrow> (Inr True, with_db (\<lambda>s. mark_upload_job_completed s (uj_id job)) w1)
           | (Inr (PendingRetry delay _), w1) \<Rightarrow>
               (case requeue_upload_job_after (wd_db w1) now (uj_id job) (int delay) of
                  (Inl e, s2) \<Rightarrow> (Inl (UE_Db e), w1\<lparr>wd_db := s2\<rparr>)
                | (Inr _, s2) \<Rightarrow> (Inr True, w1\<lparr>wd_db := s2\<rparr>))
           | (Inr Failed, w1) \<Rightarrow> (Inr True, with_db (\<lambda>s. mark_upload_job_failed s (uj_id job)) w1)))"

section \<open>What uploading keeps\<close>

text \<open>The booking operations, except the one that declares a shard stored, and those that do not touch the shard table.\<close>

lemma books_marks:
  "books s (mark_pack_shard_in_progress s p i)"
  "books s (mark_pack_shard_failed s p i m)"
  "books s (mark_pack_shard_permanently_failed s p i m)"
  "books s (snd (requeue_pack_shard s p i m))"
  by (simp_all add: mark_pack_shard_in_progress_def mark_pack_shard_failed_def mark_pack_shard_permanently_failed_def
      requeue_pack_shard_def Let_def books_update_shard book_shard_def same_shard_def)

lemma pack_shards_targets [simp]:
  "pack_shards (update_target s j p f) = pack_shards s"
  "pack_shards (mark_upload_target_in_progress s now j p) = pack_shards s"
  "pack_shards (mark_upload_target_failed s now j p m) = pack_shards s"
  "pack_shards (mark_upload_target_permanently_failed s now j p m) = pack_shards s"
  "pack_shards (mark_upload_target_completed s now j p b k e v) = pack_shards s"
  "pack_shards (snd (requeue_upload_target s now j p m)) = pack_shards s"
  "pack_shards (update_pack_status s q st) = pack_shards s"
  by (simp_all add: update_target_def mark_upload_target_in_progress_def mark_upload_target_failed_def
      mark_upload_target_permanently_failed_def mark_upload_target_completed_def requeue_upload_target_def Let_def
      update_pack_status_def)

lemma pack_shards_ensure_upload_targets: "ensure_upload_targets s j ps = Inr s' \<Longrightarrow> pack_shards s' = pack_shards s"
  by (induction s j ps rule: ensure_upload_targets.induct)
    (auto simp: insert_target_def bindR_def split: sum.splits if_splits)

lemma books_escalate: "books s (escalate_target_if_permanent now j p i q n m s)"
  unfolding escalate_target_if_permanent_def
  by (auto intro: books_refl books_trans [OF books_refl books_marks(3)])

text \<open>What a step of the loop leaves alone: the cloud and the spool, or the spool.\<close>

definition only_books :: "world \<Rightarrow> world \<Rightarrow> bool" where
  "only_books w w' \<longleftrightarrow> books (wd_db w) (wd_db w') \<and> wd_cloud w' = wd_cloud w \<and> wd_spool w' = wd_spool w"

lemma only_books_refl: "pack_shards (wd_db w') = pack_shards (wd_db w) \<Longrightarrow> wd_cloud w' = wd_cloud w \<Longrightarrow> wd_spool w' = wd_spool w
    \<Longrightarrow> only_books w w'"
  by (simp add: only_books_def books_refl)

lemma only_books_trans: "only_books w w1 \<Longrightarrow> only_books w1 w2 \<Longrightarrow> only_books w w2"
  by (auto simp: only_books_def intro: books_trans)

lemma only_books_intact: "only_books w w' \<Longrightarrow> intact sha w \<Longrightarrow> intact sha w'"
  unfolding only_books_def by (blast intro: intact_same_shards located_books intact_located books_same)

lemma only_books_fail_shard: "only_books w (fail_shard now job sh m w)"
  by (auto simp: only_books_def fail_shard_def with_db_def intro: books_trans [OF books_marks(2) books_refl])

lemma only_books_requeue_shard:
  assumes "requeue_shard now job sh m w = (r, w')"
  shows "only_books w w'"
proof -
  obtain a s1 where 1: "requeue_pack_shard (wd_db w) (uj_pack_id job) (sh_shard_index sh) m = (a, s1)" by force
  obtain b s2 where 2: "requeue_upload_target s1 now (uj_id job) (sh_provider sh) m = (b, s2)" by force
  have b1: "books (wd_db w) s1" using books_marks(4) [of "wd_db w" "uj_pack_id job" "sh_shard_index sh" m] by (simp add: 1)
  have b2: "books s1 s2" by (rule books_refl) (use pack_shards_targets(6) [of s1] 2 in \<open>metis snd_conv\<close>)
  note b3 = books_trans [OF b1 b2]
  note b4 = books_trans [OF b3 books_escalate]
  from assms 1 2 b1 b3 b4 show ?thesis
    by (auto simp: requeue_shard_def only_books_def split: sum.splits)
qed

lemma upload_file_stores:
  assumes "upload_file n w provider name key = (r, w')"
  shows "isl r \<and> w' = w \<or> (\<exists>bs. wd_spool w name = Some bs \<and> w' = store_object w provider key (Some bs))"
  using assms by (auto simp: upload_file_def put_object_def split: option.splits if_splits put_outcome.splits net_fault.splits sum.splits)

definition keeps :: "(bytes \<Rightarrow> bytes) \<Rightarrow> world \<Rightarrow> world \<Rightarrow> bool" where
  "keeps sha256 w w' \<longleftrightarrow> intact sha256 w' \<and> same_shards (wd_db w) (wd_db w') \<and> wd_spool w' = wd_spool w"

lemma keeps_trans: "keeps sha w w1 \<Longrightarrow> keeps sha w1 w2 \<Longrightarrow> keeps sha w w2"
  by (auto simp: keeps_def intro: same_shards_trans)

lemma keeps_intact: "keeps sha w w' \<Longrightarrow> intact sha w'"
  by (simp add: keeps_def)

lemma keeps_only_books: "only_books w w' \<Longrightarrow> intact sha w \<Longrightarrow> keeps sha w w'"
  using only_books_intact [of w w' sha] by (auto simp: keeps_def only_books_def dest: books_same)

lemma keeps_refl:
  "intact sha w \<Longrightarrow> pack_shards (wd_db w') = pack_shards (wd_db w) \<Longrightarrow> wd_cloud w' = wd_cloud w \<Longrightarrow> wd_spool w' = wd_spool w
    \<Longrightarrow> keeps sha w w'"
  by (blast intro: keeps_only_books only_books_refl)

text \<open>An upload of the spool file of a shard to the place of the shard, and the shard marked as stored.\<close>

lemma upload_shard_keeps:
  assumes w: "intact sha w" and r: "r \<in> set (pack_shards (wd_db w))"
    and u: "upload_file n w (sh_provider r) (local_shard_name (sh_pack_id r) (nat (sh_shard_index r))) (sh_object_key r) = (res, w')"
  shows "keeps sha w w'" and "\<not> isl res \<Longrightarrow> shard_backed sha w' r"
proof -
  from upload_file_stores [OF u] consider "isl res" "w' = w"
    | bs where "wd_spool w (local_shard_name (sh_pack_id r) (nat (sh_shard_index r))) = Some bs"
        "w' = store_object w (sh_provider r) (sh_object_key r) (Some bs)" by blast
  then have "keeps sha w w' \<and> (\<not> isl res \<longrightarrow> shard_backed sha w' r)"
  proof cases
    case 1
    with w show ?thesis by (simp add: keeps_refl)
  next
    case 2
    with w r have bs: "hex_sha256 sha bs = sh_checksum r" by (simp add: intact_def spool_intact_def)
    have "intact sha w'"
      by (rule intact_same_shards [OF w]) (use located_store [OF intact_located [OF w] r bs] 2 in \<open>simp_all add: store_object_def\<close>)
    with bs 2 show ?thesis by (auto simp: keeps_def store_object_def shard_backed_def)
  qed
  then show "keeps sha w w'" and "\<not> isl res \<Longrightarrow> shard_backed sha w' r" by blast+
qed

lemma complete_keeps:
  assumes w: "intact sha w" and r: "r \<in> set (pack_shards (wd_db w))" and b: "shard_backed sha w r"
    and "wd_cloud w' = wd_cloud w" "wd_spool w' = wd_spool w"
    and p: "pack_shards (wd_db w') = pack_shards (mark_pack_shard_completed (wd_db w) (sh_pack_id r) (sh_shard_index r))"
  shows "keeps sha w w'"
proof -
  note c = located_complete [OF intact_located [OF w] r b assms(4) p]
  from intact_same_shards [OF w c(2) assms(5) c(1)] c(2) assms(5) show ?thesis by (simp add: keeps_def)
qed

lemma attempt_shard_keeps:
  assumes w: "intact sha w" and r: "r \<in> set (pack_shards (wd_db w))" and same: "same_shard sh r"
    and p: "sh_pack_id sh = uj_pack_id job"
    and a: "attempt_shard n now job bucket sh failed mx w = (res, w')"
  shows "keeps sha w w'"
proof -
  let ?name = "local_shard_name (uj_pack_id job) (nat (sh_shard_index sh))"
  define w1 where "w1 = with_db (\<lambda>s. mark_upload_target_in_progress (mark_pack_shard_in_progress s (uj_pack_id job) (sh_shard_index sh))
                 now (uj_id job) (sh_provider sh)) w"
  have "only_books w w1"
    by (auto simp: only_books_def w1_def with_db_def intro: books_trans [OF books_marks(1) books_refl])
  then have k1: "keeps sha w w1" using w by (rule keeps_only_books)
  from same_shards_row' [OF _ r] k1 obtain r1 where r1: "r1 \<in> set (pack_shards (wd_db w1))" "same_shard r r1"
    by (auto simp: keeps_def)
  have eq: "sh_provider sh = sh_provider r1" "sh_object_key sh = sh_object_key r1" "uj_pack_id job = sh_pack_id r1"
      "sh_shard_index sh = sh_shard_index r1"
    using same r1(2) p by (simp_all add: same_shard_def)
  obtain res2 w2 where u: "upload_file n w1 (sh_provider sh) ?name (sh_object_key sh) = (res2, w2)" by force
  note up = upload_shard_keeps [OF keeps_intact [OF k1] r1(1) u [unfolded eq]]
  note k2 = keeps_trans [OF k1 up(1)]
  show ?thesis
  proof (cases "wd_spool w1 ?name")
    case None
    with a have "w' = fail_shard now job sh (''local shard missing: '' @ ?name) w1"
      by (simp add: attempt_shard_def Let_def flip: w1_def)
    then have "only_books w1 w'" using only_books_fail_shard by blast
    from keeps_trans [OF k1 keeps_only_books [OF this keeps_intact [OF k1]]] show ?thesis .
  next
    case (Some bs)
    show ?thesis
    proof (cases res2)
      case (Inr ok)
      from same_shards_row' [OF _ r1(1), of "wd_db w2"] up(1) obtain r2
        where r2: "r2 \<in> set (pack_shards (wd_db w2))" "same_shard r1 r2" by (auto simp: keeps_def)
      have b: "shard_backed sha w2 r2" using up(2) Inr shard_backed_same [OF r2(2) refl] by simp
      obtain etag version_id where ok: "ok = (etag, version_id)" by force
      from a Some u have w': "w' = (with_db (\<lambda>s. mark_upload_target_completed
          (mark_pack_shard_completed s (uj_pack_id job) (sh_shard_index sh)) now (uj_id job) (sh_provider sh) bucket
          (sh_object_key sh) etag version_id) w2)\<lparr>wd_traffic := record_traffic (now div 1000) (sh_size sh) 0 (wd_traffic w2)\<rparr>"
        by (simp add: attempt_shard_def Let_def Inr ok flip: w1_def)
      have "keeps sha w2 w'"
        by (rule complete_keeps [OF keeps_intact [OF k2] r2(1) b])
          (use r2(2) in \<open>simp_all add: w' with_db_def eq same_shard_def\<close>)
      with k2 show ?thesis by (rule keeps_trans)
    next
      case (Inl err)
      have "only_books w2 w'"
      proof (cases "is_retryable err")
        case True
        with a Some Inl u show ?thesis
          by (auto simp: attempt_shard_def Let_def simp flip: w1_def split: prod.splits sum.splits dest: only_books_requeue_shard)
      next
        case False
        with a Some Inl u show ?thesis
          by (auto simp: attempt_shard_def Let_def only_books_fail_shard simp flip: w1_def)
      qed
      from keeps_trans [OF k2 keeps_only_books [OF this keeps_intact [OF k2]]] show ?thesis .
    qed
  qed
qed

lemma upload_pending_shard_keeps:
  assumes w: "intact sha w" and r: "r \<in> set (pack_shards (wd_db w))" and same: "same_shard sh r"
    and p: "sh_pack_id sh = uj_pack_id job"
    and a: "upload_pending_shard W n now job sh failed mx w = (res, w')"
  shows "keeps sha w w'"
proof -
  have g: "keeps sha w (w\<lparr>wd_guard := g\<rparr>)" for g using w by (rule keeps_refl) simp_all
  have att: "keeps sha w w'" if "attempt_shard n now job b sh failed mx (w\<lparr>wd_guard := g\<rparr>) = (res, w')" for b g
    using attempt_shard_keeps [OF keeps_intact [OF g] _ same p that] r by (auto intro: keeps_trans [OF g])
  have fail: "keeps sha w (fail_shard now job sh m w)" for m by (rule keeps_only_books [OF only_books_fail_shard w])
  have req: "keeps sha w w1" if "requeue_shard now job sh m w = (x, w1)" for m x w1
    by (rule keeps_only_books [OF only_books_requeue_shard [OF that] w])
  show ?thesis
  proof (cases "find (\<lambda>u. fst u = sh_provider sh) (uw_uploaders W)")
    case None
    with a show ?thesis
      by (auto simp: upload_pending_shard_def Let_def split: prod.splits sum.splits dest: req)
  next
    case (Some u)
    show ?thesis
      using a Some keeps_refl [OF w refl refl refl]
      unfolding upload_pending_shard_def Let_def
      by (auto simp: fail g split: if_splits sum.splits prod.splits GuardDecision.splits dest: att)
  qed
qed

lemma upload_pending_shards_keeps:
  assumes "intact sha w" and "\<And>sh. sh \<in> set shs \<Longrightarrow> sh_pack_id sh = uj_pack_id job \<and> (\<exists>r \<in> set (pack_shards (wd_db w)). same_shard sh r)"
    and "upload_pending_shards W n now job shs failed mx w = (res, w')"
  shows "keeps sha w w'"
  using assms
proof (induction shs arbitrary: w failed mx)
  case Nil
  then show ?case by (auto intro: keeps_refl)
next
  case (Cons sh shs)
  obtain res1 w1 where 1: "upload_pending_shard W n now job sh failed mx w = (res1, w1)" by force
  obtain r where "r \<in> set (pack_shards (wd_db w))" "same_shard sh r" "sh_pack_id sh = uj_pack_id job"
    using Cons.prems(2) by auto
  with upload_pending_shard_keeps [OF Cons.prems(1) _ _ _ 1] have k: "keeps sha w w1" by blast
  show ?case
  proof (cases "\<exists>f m. res1 = Inr (Continue f m)")
    case True
    then obtain f m where c: "res1 = Inr (Continue f m)" by blast
    have "keeps sha w1 w'"
    proof (rule Cons.IH [OF keeps_intact [OF k]])
      show "upload_pending_shards W n now job shs f m w1 = (res, w')" using Cons.prems(3) 1 c by simp
      fix x assume "x \<in> set shs"
      with Cons.prems(2) [of x] obtain y where y: "y \<in> set (pack_shards (wd_db w))" "same_shard x y"
        and p: "sh_pack_id x = uj_pack_id job" by auto
      from same_shards_row' [OF _ y(1), of "wd_db w1"] k obtain z where "z \<in> set (pack_shards (wd_db w1))" "same_shard y z"
        by (auto simp: keeps_def)
      with y(2) p show "sh_pack_id x = uj_pack_id job \<and> (\<exists>r \<in> set (pack_shards (wd_db w1)). same_shard x r)"
        by (auto simp: same_shard_def intro!: bexI [of _ z])
    qed
    with k show ?thesis by (rule keeps_trans)
  next
    case False
    with Cons.prems(3) 1 have "w' = w1" by (auto split: sum.splits shard_step.splits)
    with k show ?thesis by simp
  qed
qed

section \<open>The spool is cleared only of what is stored\<close>

lemma unlink_all_keeps: "wd_db (unlink_all n xs w) = wd_db w" "wd_cloud (unlink_all n xs w) = wd_cloud w"
  by (induction xs arbitrary: w) (auto simp: secure_delete_def set_spool_def split: file_outcome.splits)

lemma unlink_all_spool: "wd_spool (unlink_all n xs w) x = wd_spool w x \<or> x \<in> set xs"
proof (induction xs arbitrary: w)
  case (Cons a xs)
  have "wd_spool (snd (secure_delete n a w)) x = wd_spool w x \<or> x = a"
    by (simp add: secure_delete_def set_spool_def split: file_outcome.splits)
  with Cons.IH [of "snd (secure_delete n a w)"] show ?case by auto
qed simp

definition pack_files :: "string \<Rightarrow> string list" where
  "pack_files pack_id = local_pack_name pack_id # map (local_shard_name pack_id) [0..<TOTAL_SHARDS]"

fun needed :: "StorageMode \<Rightarrow> nat" where
  "needed Ec2_1 = 2"
| "needed SingleReplica = 1"
| "needed LocalOnly = 0"

definition stored_shards :: "(bytes \<Rightarrow> bytes) \<Rightarrow> world \<Rightarrow> string \<Rightarrow> PackShardRecord list" where
  "stored_shards sha256 w pack_id = filter (shard_backed sha256 w) (shards_with_status (wd_db w) pack_id ''COMPLETED'')"

lemma stored_shards_settled:
  assumes "backed sha w" and "resolve_pack_status_for_mode mode (summarize_pack_shards (wd_db w) p) \<in> {Healthy, Degraded}"
  shows "needed mode \<le> length (stored_shards sha w p)"
proof -
  have "stored_shards sha w p = shards_with_status (wd_db w) p ''COMPLETED''"
    using assms(1) by (auto simp: stored_shards_def shards_with_status_def backed_def intro!: filter_cong)
  with assms(2) show ?thesis
    by (cases mode) (auto simp: summarize_pack_shards_counts split: if_splits)
qed

text \<open>What a job may have done when it has ended, and the three ways it ends.\<close>

definition job_safe :: "(bytes \<Rightarrow> bytes) \<Rightarrow> UploadJob \<Rightarrow> world \<Rightarrow> UploaderError + JobProcessOutcome \<Rightarrow> world \<Rightarrow> bool" where
  "job_safe sha256 job w res w' \<longleftrightarrow> backed sha256 w' \<and> same_shards (wd_db w) (wd_db w') \<and>
     (\<forall>x. wd_spool w' x \<noteq> wd_spool w x \<longrightarrow> x \<in> set (pack_files (uj_pack_id job)) \<and>
        (\<exists>pack. get_pack (wd_db w) (uj_pack_id job) = Some pack \<and> StorageMode_from_str (pk_storage_mode pack) \<noteq> LocalOnly \<and>
           needed (StorageMode_from_str (pk_storage_mode pack)) \<le> length (stored_shards sha256 w' (uj_pack_id job)))) \<and>
     (res = Inr Completed \<longrightarrow> (\<exists>pack. get_pack (wd_db w) (uj_pack_id job) = Some pack \<and>
        needed (StorageMode_from_str (pk_storage_mode pack)) \<le> length (stored_shards sha256 w' (uj_pack_id job))))"

lemma job_safe_early:
  assumes "keeps sha w w'" and "res \<noteq> Inr Completed"
  shows "job_safe sha job w res w'"
  using assms intact_backed by (auto simp: job_safe_def keeps_def)

lemma settle_status_keeps:
  assumes w: "intact sha w" and s: "settle_status mode p w = (status, w')"
  shows "keeps sha w w'" and "status \<in> {Healthy, Degraded} \<Longrightarrow> needed mode \<le> length (stored_shards sha w' p)"
proof -
  have w': "w' = with_db (\<lambda>s. update_pack_status s p status) w"
    and st: "status = resolve_pack_status_for_mode mode (summarize_pack_shards (wd_db w) p)"
    using s by (auto simp: settle_status_def Let_def)
  show k: "keeps sha w w'" using w by (rule keeps_refl) (simp_all add: w' with_db_def)
  have "summarize_pack_shards (wd_db w') p = summarize_pack_shards (wd_db w) p"
    by (simp add: summarize_pack_shards_def w' with_db_def)
  then show "status \<in> {Healthy, Degraded} \<Longrightarrow> needed mode \<le> length (stored_shards sha w' p)"
    using stored_shards_settled [OF intact_backed [OF keeps_intact [OF k]], of mode p] by (simp add: st)
qed

lemma outcome_of_Completed: "outcome_of status d f = Completed \<longleftrightarrow> status \<in> {Healthy, Degraded}"
  by (cases status) (simp_all add: outcome_of_def)

lemma job_safe_settled:
  assumes k: "keeps sha w w2" and pack: "get_pack (wd_db w) (uj_pack_id job) = Some pack"
    and s: "settle_status (StorageMode_from_str (pk_storage_mode pack)) (uj_pack_id job) w2 = (status, w3)"
    and c: "cleanup \<Longrightarrow> status \<in> {Healthy, Degraded} \<and> StorageMode_from_str (pk_storage_mode pack) \<noteq> LocalOnly"
  shows "job_safe sha job w (Inr (outcome_of status d f))
    (if cleanup then cleanup_remote_backed_pack_spool n (uj_pack_id job) w3 else w3)"
proof -
  note st = settle_status_keeps [OF keeps_intact [OF k] s]
  note k3 = keeps_trans [OF k st(1)]
  let ?w = "if cleanup then cleanup_remote_backed_pack_spool n (uj_pack_id job) w3 else w3"
  have db: "wd_db ?w = wd_db w3" "wd_cloud ?w = wd_cloud w3"
    by (simp_all add: cleanup_remote_backed_pack_spool_def unlink_all_keeps del: unlink_all.simps)
  have b: "backed sha ?w" using intact_backed [OF keeps_intact [OF k3]] backed_cong [of ?w w3 sha] db by simp
  have stored: "stored_shards sha ?w p = stored_shards sha w3 p" for p
    by (simp add: stored_shards_def db shard_backed_def cong: filter_cong)
  have spool: "cleanup \<and> x \<in> set (pack_files (uj_pack_id job))" if "wd_spool ?w x \<noteq> wd_spool w x" for x
    using unlink_all_spool [of n "pack_files (uj_pack_id job)" w3 x] k3 that
    by (auto simp: keeps_def cleanup_remote_backed_pack_spool_def pack_files_def simp del: unlink_all.simps split: if_splits)
  show ?thesis
    unfolding job_safe_def
  proof (intro conjI allI impI)
    show "same_shards (wd_db w) (wd_db ?w)" using k3 by (simp add: keeps_def db)
    fix x assume "wd_spool ?w x \<noteq> wd_spool w x"
    note x = spool [OF this]
    from x show "x \<in> set (pack_files (uj_pack_id job))" by blast
    from x c st(2) show "\<exists>pack. get_pack (wd_db w) (uj_pack_id job) = Some pack \<and>
        StorageMode_from_str (pk_storage_mode pack) \<noteq> LocalOnly \<and>
        needed (StorageMode_from_str (pk_storage_mode pack)) \<le> length (stored_shards sha ?w (uj_pack_id job))"
      unfolding stored pack by blast
  next
    assume "Inr (outcome_of status d f) = Inr Completed"
    then have "status \<in> {Healthy, Degraded}" by (simp add: outcome_of_Completed)
    with st(2) show "\<exists>pack. get_pack (wd_db w) (uj_pack_id job) = Some pack \<and>
        needed (StorageMode_from_str (pk_storage_mode pack)) \<le> length (stored_shards sha ?w (uj_pack_id job))"
      unfolding stored pack by blast
  qed (rule b)
qed

text \<open>A job is never reported as completed from inside the loop.\<close>

lemma attempt_shard_Return: "attempt_shard n now job b sh failed mx w \<noteq> (Inr (Return out), w')"
  by (auto simp: attempt_shard_def Let_def split: if_splits prod.splits sum.splits)

lemma upload_pending_shard_Return:
  assumes "upload_pending_shard W n now job sh failed mx w = (Inr (Return out), w')"
  shows "\<exists>d ms. out = PendingRetry d ms"
  using assms unfolding upload_pending_shard_def Let_def
  by (auto simp: attempt_shard_Return split: option.splits if_splits sum.splits prod.splits GuardDecision.splits)

lemma upload_pending_shards_Return:
  "upload_pending_shards W n now job shs failed mx w = (Inr (Return Completed), w') \<Longrightarrow> False"
  by (induction shs arbitrary: failed mx w)
    (auto split: prod.splits sum.splits shard_step.splits dest: upload_pending_shard_Return)

text \<open>
  C1: the uploader loses nothing. Let every shard marked as stored be stored with the content of its checksum, let no two
  shards share an object, and let the files of the spool be the shards they are named after. Whatever the network does
  while a job is processed (a request may fail, time out, or take effect although its answer is lost), and however the job
  ends: every shard marked as stored is still stored with the right content; no shard row changes its identity; a file
  of the spool is removed or overwritten only if it belongs to the pack of the job, the pack is not local-only, and enough
  of its shards to rebuild it (two of an erasure-coded pack, the one of a single replica) are stored by then; and a job
  that is reported as completed has that many shards stored.
\<close>

theorem upload_durable:
  assumes "schema_ok (wd_db w)" and "places_distinct (wd_db w)" and "spool_intact sha256 w" and "backed sha256 w"
    and "process_job W n now job w = (res, w')"
  shows "job_safe sha256 job w res w'"
proof -
  have w: "intact sha256 w" using assms(1-4) by (simp add: intact_def located_def schema_ok_def)
  note early = job_safe_early [OF keeps_refl [OF w refl refl refl]]
  note run = assms(5) [unfolded process_job_def Let_def]
  show ?thesis
  proof (cases "cf_dry_run_active (uw_config W) \<or> is_cloud_suspended (gd_cfg (wd_guard w)) \<or> get_pack (wd_db w) (uj_pack_id job) = None")
    case True
    with run early show ?thesis by (auto split: if_splits)
  next
    case False
    then obtain pack where pack: "get_pack (wd_db w) (uj_pack_id job) = Some pack"
      and off: "\<not> cf_dry_run_active (uw_config W)" "\<not> is_cloud_suspended (gd_cfg (wd_guard w))" by auto
    show ?thesis
    proof (cases "ensure_upload_targets (wd_db w) (uj_id job) (map sh_provider (get_pack_shards (wd_db w) (uj_pack_id job)))")
      case (Inl e)
      with run pack off early show ?thesis by auto
    next
      case (Inr s1)
      define w1 where "w1 = w\<lparr>wd_db := s1\<rparr>"
      let ?pending = "get_incomplete_pack_shards s1 (uj_pack_id job)"
      have rows: "pack_shards s1 = pack_shards (wd_db w)" using pack_shards_ensure_upload_targets [OF Inr] .
      have k1: "keeps sha256 w w1" using w by (rule keeps_refl) (simp_all add: w1_def rows)
      obtain up w2 where loop: "upload_pending_shards W n now job ?pending [] 0 w1 = (up, w2)" by force
      have "keeps sha256 w1 w2"
      proof (rule upload_pending_shards_keeps [OF keeps_intact [OF k1] _ loop])
        fix sh assume "sh \<in> set ?pending"
        then have "sh \<in> set (pack_shards (wd_db w1))" "sh_pack_id sh = uj_pack_id job"
          by (auto simp: get_incomplete_pack_shards_def w1_def)
        then show "sh_pack_id sh = uj_pack_id job \<and> (\<exists>r \<in> set (pack_shards (wd_db w1)). same_shard sh r)"
          by (auto simp: same_shard_def)
      qed
      note k2 = keeps_trans [OF k1 this]
      note run' = run [unfolded pack option.case Inr sum.case loop prod.case, folded w1_def]
      obtain st w3 where s: "settle_status (StorageMode_from_str (pk_storage_mode pack)) (uj_pack_id job) w1 = (st, w3)" by force
      obtain st' w4 where s': "settle_status (StorageMode_from_str (pk_storage_mode pack)) (uj_pack_id job) w2 = (st', w4)" by force
      show ?thesis
      proof (cases "?pending = []")
        case True
        with run' off s job_safe_settled [OF k1 pack s, of False] show ?thesis by auto
      next
        case False
        show ?thesis
        proof (cases up)
          case (Inl e)
          with run' loop off False job_safe_early [OF k2] show ?thesis by auto
        next
          case (Inr step)
          show ?thesis
          proof (cases step)
            case (Return outcome)
            from loop Inr Return have "outcome \<noteq> Completed" by (auto dest: upload_pending_shards_Return)
            with Inr Return run' loop off False job_safe_early [OF k2] show ?thesis by auto
          next
            case (Continue failed mx)
            with Inr run' loop off False s' job_safe_settled [OF k2 pack s',
                of "st' \<in> {Healthy, Degraded} \<and> StorageMode_from_str (pk_storage_mode pack) \<noteq> LocalOnly"]
            show ?thesis by auto
          qed
        qed
      qed
    qed
  qed
qed

text \<open>
  A pack of three one-byte shards at three providers; the second provider loses the answer of a write that took effect.
  The job is completed with two shards booked as stored, and the spool is cleared.
\<close>

definition demo_shard :: "int \<Rightarrow> string \<Rightarrow> PackShardRecord" where
  "demo_shard i provider = \<lparr>sh_id = i, sh_pack_id = ''p'', sh_shard_index = i, sh_shard_role = ''DATA'', sh_provider = provider,
     sh_object_key = ''k'', sh_size = 1, sh_checksum = hex_lower [word_of_int i], sh_status = ''PENDING'', sh_attempts = Some 0,
     sh_last_error = None, sh_last_verified_at = None, sh_last_verification_method = None, sh_last_verification_status = None,
     sh_last_verified_size = None, sh_verification_failures = 0\<rparr>"

definition demo_pack :: PackRecord where
  "demo_pack = \<lparr>pk_pack_id = ''p'', pk_chunk_id = [], pk_plaintext_hash = None, pk_storage_mode = ''EC_2_1'',
     pk_encryption_version = 2, pk_ec_scheme = ''RS_2_1'', pk_logical_size = 2, pk_cipher_size = 2, pk_shard_size = 1, pk_nonce = [],
     pk_gcm_tag = [], pk_status = ''UPLOADING'', pk_repair_attempts = None, pk_repair_next_attempt_at = None\<rparr>"

definition demo_job :: UploadJob where
  "demo_job = \<lparr>uj_id = 1, uj_pack_id = ''p'', uj_status = ''IN_PROGRESS'', uj_attempts = Some 0, uj_next_attempt_at = None\<rparr>"

definition demo_db :: db where
  "demo_db = empty_db\<lparr>packs := [demo_pack], pack_shards := [demo_shard 0 ''a'', demo_shard 1 ''b'', demo_shard 2 ''c''],
     pack_shards_seq := 2, upload_jobs := [demo_job], upload_jobs_seq := 1\<rparr>"

definition demo_spool :: "string \<Rightarrow> bytes option" where
  "demo_spool x = (if x = ''p.shard0'' then Some [0] else if x = ''p.shard1'' then Some [1] else if x = ''p.shard2'' then Some [2] else None)"

definition demo_world :: world where
  "demo_world = \<lparr>wd_db = demo_db, wd_guard = fresh_guard, wd_cloud = (\<lambda>_ _. None), wd_spool = demo_spool, wd_traffic = []\<rparr>"

definition demo_net :: net where
  "demo_net = \<lparr>ne_get = (\<lambda>_ _. None), ne_put = (\<lambda>p _. if p = ''b'' then PutLanded FaultTimeout else PutDone None None),
     ne_delete = (\<lambda>_ _. DeleteDone), ne_head = (\<lambda>_ _. None), ne_unlink = (\<lambda>_. FileDone), ne_write = (\<lambda>_. FileDone)\<rparr>"

definition demo_config :: AppConfig where
  "demo_config = \<lparr>cf_max_physical_bytes_per_provider = 100, cf_max_upload_bytes_per_sec = 0, cf_max_cache_bytes = 100,
     cf_cloud_daily_write_ops_limit = 10, cf_cloud_daily_read_ops_limit = 10, cf_cloud_daily_egress_bytes_limit = 100,
     cf_cloud_max_single_upload_bytes = 10, cf_dry_run_active = False, cf_peer_port = 1, cf_peer_discovery_port = 2,
     cf_peer_discovery_interval_ms = 5, cf_peer_stale_after_ms = 6, cf_peer_error_backoff_ms = 7, cf_device_name_override = None,
     cf_oauth_redirect_url = ''http://localhost:''\<rparr>"

definition demo_worker :: UploadWorker where
  "demo_worker = \<lparr>uw_uploaders = [(''a'', ''A''), (''b'', ''B''), (''c'', ''C'')], uw_config = demo_config,
     uw_retry_base_delay = 2, uw_retry_max_delay = 60\<rparr>"

lemma demo_world_ok:
  "schema_ok (wd_db demo_world)" "places_distinct (wd_db demo_world)" "spool_intact (\<lambda>bs. bs) demo_world" "backed (\<lambda>bs. bs) demo_world"
  subgoal by code_simp
  subgoal by code_simp
  subgoal by (simp add: spool_intact_def demo_world_def demo_db_def demo_shard_def demo_spool_def local_shard_name_def dec_nat_small digit_def hex_sha256_def)
  subgoal by code_simp
  done

theorem upload_durable_witness:
  "job_safe (\<lambda>bs. bs) demo_job demo_world (fst (process_job demo_worker demo_net 0 demo_job demo_world))
     (snd (process_job demo_worker demo_net 0 demo_job demo_world)) \<and>
   fst (process_job demo_worker demo_net 0 demo_job demo_world) = Inr Completed \<and>
   wd_spool (snd (process_job demo_worker demo_net 0 demo_job demo_world)) ''p.shard1'' = None"
proof (intro conjI)
  show "job_safe (\<lambda>bs. bs) demo_job demo_world (fst (process_job demo_worker demo_net 0 demo_job demo_world))
     (snd (process_job demo_worker demo_net 0 demo_job demo_world))"
    by (rule upload_durable [OF demo_world_ok prod.collapse [symmetric]])
  show "fst (process_job demo_worker demo_net 0 demo_job demo_world) = Inr Completed" by code_simp
  show "wd_spool (snd (process_job demo_worker demo_net 0 demo_job demo_world)) ''p.shard1'' = None" by code_simp
qed

end
