(* ===== verification/Downloader.thy ===== *)
theory Downloader
  imports Packer
begin

text \<open>
  \<^verbatim>\<open>downloader/\<close>: fetching the shards of a pack, reconstructing its ciphertext, rebuilding its
  manifest, decrypting one chunk record, and assembling a byte range of a file from its chunks.
  The network is an argument: \<open>latency\<close> is the answer of a probe and \<open>fetch\<close> that of a shard
  download, both per shard row; the files below the two spool directories are maps from file names.
\<close>

section \<open>Errors and conversions\<close>

datatype DownloaderError = DE_Crypto CryptoError | DE_ErasureCoding | DE_NumericOverflow string
  | DE_NoChunksForInode int | DE_PackMissing string | DE_NoPackShards string
  | DE_ShardDownloadFailed string "string list" | DE_InvalidPackRecord string
  | DE_Panic string | DE_Io

definition to_usize :: "int \<Rightarrow> string \<Rightarrow> DownloaderError + nat" where
  "to_usize v ctx = (if v < 0 then Inl (DE_NumericOverflow ctx) else Inr (nat v))"

definition slice :: "bytes \<Rightarrow> nat \<Rightarrow> nat \<Rightarrow> bytes" where
  "slice bs a b = take (b - a) (drop a bs)"

section \<open>Reconstructing the ciphertext\<close>

definition reconstruct_ciphertext ::
  "rs_prims \<Rightarrow> PackRecord \<Rightarrow> bytes option list \<Rightarrow> DownloaderError + bytes" where
  "reconstruct_ciphertext R pack shards =
     (if length shards \<noteq> TOTAL_SHARDS then Inl (DE_InvalidPackRecord ''shard count mismatch'')
      else bindR (to_usize (pk_shard_size pack) ''shard size'') (\<lambda>shard_len.
        if list_ex (\<lambda>x. case x of None \<Rightarrow> False | Some bs \<Rightarrow> length bs \<noteq> shard_len) shards
        then Inl (DE_InvalidPackRecord ''shard size mismatch'')
        else bindR (ok_or DE_ErasureCoding (rs_reconstruct R shards)) (\<lambda>full.
          bindR (to_usize (pk_cipher_size pack) ''cipher size'') (\<lambda>cipher_size.
            if list_ex (\<lambda>x. x = None) (take DATA_SHARDS full)
            then Inl (DE_InvalidPackRecord ''missing data shard after reconstruct'')
            else let ciphertext = concat (map the (take DATA_SHARDS full))
                 in if length ciphertext < cipher_size
                    then Inl (DE_InvalidPackRecord ''reconstructed ciphertext shorter than expected'')
                    else Inr (take cipher_size ciphertext)))))"

definition dl_build_manifest_bytes :: "PackRecord \<Rightarrow> bytes \<Rightarrow> DownloaderError + bytes" where
  "dl_build_manifest_bytes pack ciphertext =
     (if length (pk_chunk_id pack) \<noteq> 32 then Inl (DE_InvalidPackRecord ''chunk id length'')
      else if length (pk_nonce pack) \<noteq> 12 then Inl (DE_InvalidPackRecord ''nonce length'')
      else if length (pk_gcm_tag pack) \<noteq> 16 then Inl (DE_InvalidPackRecord ''gcm tag length'')
      else if pk_logical_size pack < 0 then Inl (DE_NumericOverflow ''logical size'')
      else if pk_encryption_version pack < 0 \<or> 255 < pk_encryption_version pack
      then Inl (DE_NumericOverflow ''encryption version'')
      else Inr (ChunkRecordPrefix_as_bytes \<lparr>cr_record_magic = CHUNK_RECORD_MAGIC,
         cr_record_version = of_int (pk_encryption_version pack), cr_flags = 0,
         cr_compression_algo = COMPRESSION_ALGO_NONE, cr_key_wrapping_algo = 0,
         cr_chunk_id = pk_chunk_id pack, cr_plain_len = of_int (pk_logical_size pack),
         cr_cipher_len = of_nat (length ciphertext), cr_nonce = pk_nonce pack,
         cr_dek_id_hint = replicate 4 0, cr_reserved_1 = replicate 8 0\<rparr>
        @ ciphertext @ pk_gcm_tag pack))"

section \<open>Decrypting a chunk record\<close>

definition decrypt_chunk_record ::
  "crypto_prims \<Rightarrow> bytes \<Rightarrow> FileChunkLocation \<Rightarrow> bytes \<Rightarrow> bytes option \<Rightarrow> DownloaderError + bytes" where
  "decrypt_chunk_record P pack_bytes chunk vk dek =
     bindR (to_usize (fcl_pack_offset chunk) ''pack offset'') (\<lambda>pack_offset.
     bindR (to_usize (fcl_encrypted_size chunk) ''encrypted size'') (\<lambda>encrypted_size.
     bindR (ok_or (DE_NumericOverflow ''record end'') (usize_checked_add pack_offset encrypted_size)) (\<lambda>record_end.
     if length pack_bytes < record_end \<or> encrypted_size < ChunkRecordPrefix_SIZE
     then Inl (DE_InvalidPackRecord ''record bounds'')
     else let r = slice pack_bytes pack_offset record_end in
     if take 4 r \<noteq> CHUNK_RECORD_MAGIC then Inl (DE_InvalidPackRecord ''chunk magic'')
     else if length (fcl_chunk_id chunk) \<noteq> 32 then Inl (DE_InvalidPackRecord ''chunk id length'')
     else if slice r 8 40 \<noteq> fcl_chunk_id chunk then Inl (DE_InvalidPackRecord ''chunk_id mismatch'')
     else let plain_len = be_decode (slice r 40 48); cipher_len = be_decode (slice r 48 56) in
     bindR (ok_or (DE_NumericOverflow ''record size'')
       (Option.bind (usize_checked_add ChunkRecordPrefix_SIZE cipher_len)
          (\<lambda>v. usize_checked_add v GCM_TAG_SIZE))) (\<lambda>expected_record_size.
     if expected_record_size \<noteq> encrypted_size then Inl (DE_InvalidPackRecord ''encrypted size mismatch'')
     else let nonce = slice r 56 68;
              ciphertext = slice r ChunkRecordPrefix_SIZE (ChunkRecordPrefix_SIZE + cipher_len);
              gcm_tag = slice r (ChunkRecordPrefix_SIZE + cipher_len)
                          (ChunkRecordPrefix_SIZE + cipher_len + GCM_TAG_SIZE) in
     bindR (if r ! 4 = 2
            then (case dek of
                    None \<Rightarrow> Inl (DE_InvalidPackRecord ''V2 chunk but no DEK available for this inode'')
                  | Some k \<Rightarrow> map_err DE_Crypto
                      (decrypt_chunk_v2_verified P k (fcl_chunk_id chunk) nonce [] ciphertext gcm_tag))
            else map_err DE_Crypto (decrypt_chunk P vk (fcl_chunk_id chunk) [] ciphertext gcm_tag)) (\<lambda>plaintext.
     if int (length plaintext) \<noteq> fcl_size chunk \<or> length plaintext \<noteq> plain_len
     then Inl (DE_InvalidPackRecord ''plain size mismatch'')
     else Inr plaintext)))))"

record EncryptedChunkBytes =
  eb_nonce :: bytes
  eb_ciphertext :: bytes
  eb_gcm_tag :: bytes

definition EncryptedChunkBytes_to_bytes :: "EncryptedChunkBytes \<Rightarrow> bytes" where
  "EncryptedChunkBytes_to_bytes e = eb_nonce e @ eb_ciphertext e @ eb_gcm_tag e"

text \<open>
  The part of \<open>get_encrypted_chunk_bytes\<close> after the pack has been fetched. Its two unchecked
  additions panic on overflow where overflow checks are compiled in; that is the result \<open>DE_Panic\<close>.
\<close>

definition encrypted_chunk_of_record ::
  "bytes \<Rightarrow> FileChunkLocation \<Rightarrow> DownloaderError + EncryptedChunkBytes" where
  "encrypted_chunk_of_record pack_bytes chunk =
     bindR (to_usize (fcl_pack_offset chunk) ''pack offset'') (\<lambda>pack_offset.
     bindR (to_usize (fcl_encrypted_size chunk) ''encrypted size'') (\<lambda>encrypted_size.
     bindR (ok_or (DE_NumericOverflow ''record end'') (usize_checked_add pack_offset encrypted_size)) (\<lambda>record_end.
     if length pack_bytes < record_end \<or> encrypted_size < ChunkRecordPrefix_SIZE
     then Inl (DE_InvalidPackRecord ''record bounds'')
     else let r = slice pack_bytes pack_offset record_end in
     if take 4 r \<noteq> CHUNK_RECORD_MAGIC then Inl (DE_InvalidPackRecord ''chunk magic'')
     else let cipher_len = be_decode (slice r 48 56);
              ciphertext_end = ChunkRecordPrefix_SIZE + cipher_len;
              tag_end = ciphertext_end + GCM_TAG_SIZE in
     if usize_max < tag_end then Inl (DE_Panic ''attempt to add with overflow'')
     else if length r < tag_end then Inl (DE_InvalidPackRecord ''record too short'')
     else Inr \<lparr>eb_nonce = slice r 56 68,
               eb_ciphertext = slice r ChunkRecordPrefix_SIZE ciphertext_end,
               eb_gcm_tag = slice r ciphertext_end tag_end\<rparr>)))"

section \<open>A record is decrypted as it was written\<close>

lemma prefix_bytes: "ChunkRecordPrefix_as_bytes p = cr_record_magic p @ [cr_record_version p] @ [cr_flags p] @
    [cr_compression_algo p] @ [cr_key_wrapping_algo p] @ cr_chunk_id p @ u64_be (cr_plain_len p) @
    u64_be (cr_cipher_len p) @ cr_nonce p @ cr_dek_id_hint p @ cr_reserved_1 p"
  by (simp add: ChunkRecordPrefix_as_bytes_def packed_bytes_def ChunkRecordPrefix_fields_def)

definition prefix_lengths :: "ChunkRecordPrefix \<Rightarrow> bool" where
  "prefix_lengths p \<longleftrightarrow> length (cr_record_magic p) = 4 \<and> length (cr_chunk_id p) = 32 \<and>
     length (cr_nonce p) = 12 \<and> length (cr_dek_id_hint p) = 4 \<and> length (cr_reserved_1 p) = 8"

lemma prefix_length: "prefix_lengths p \<Longrightarrow> length (ChunkRecordPrefix_as_bytes p) = 80"
  by (simp add: prefix_lengths_def prefix_bytes)

lemma record_fields:
  fixes rest :: bytes
  assumes "prefix_lengths p"
  defines "r \<equiv> ChunkRecordPrefix_as_bytes p @ rest"
  shows "take 4 r = cr_record_magic p" and "r ! 4 = cr_record_version p"
    and "slice r 8 40 = cr_chunk_id p" and "slice r 40 48 = u64_be (cr_plain_len p)"
    and "slice r 48 56 = u64_be (cr_cipher_len p)" and "slice r 56 68 = cr_nonce p"
    and "drop 80 r = rest"
proof -
  note len = assms(1) [unfolded prefix_lengths_def]
  show "take 4 r = cr_record_magic p" using len by (simp add: r_def prefix_bytes)
  show "r ! 4 = cr_record_version p" using len by (simp add: r_def prefix_bytes nth_append)
  show "slice r 8 40 = cr_chunk_id p" using len by (simp add: r_def prefix_bytes slice_def)
  show "slice r 40 48 = u64_be (cr_plain_len p)" using len by (simp add: r_def prefix_bytes slice_def)
  show "slice r 48 56 = u64_be (cr_cipher_len p)" using len by (simp add: r_def prefix_bytes slice_def)
  show "slice r 56 68 = cr_nonce p" using len by (simp add: r_def prefix_bytes slice_def)
  show "drop 80 r = rest" using prefix_length [OF assms(1)] by (simp add: r_def)
qed

lemma be_decode_u64_be: "be_decode (u64_be w) = unat w"
proof -
  have "unat w < 256 ^ 8" using unsigned_less [of w] by simp
  then show ?thesis by (simp add: u64_be_def be_decode_encode)
qed

text \<open>A record at the start of a pack, with all its lengths right, is decrypted by its version.\<close>

lemma decrypt_chunk_record_eq:
  assumes p: "prefix_lengths p" "cr_record_magic p = CHUNK_RECORD_MAGIC" "cr_chunk_id p = fcl_chunk_id chunk"
    and n: "unat (cr_cipher_len p) = length ct" "length tag = 16" "length ct + 96 \<le> usize_max"
    and loc: "fcl_pack_offset chunk = 0" "fcl_encrypted_size chunk = int (96 + length ct)"
    and m: "m = ChunkRecordPrefix_as_bytes p @ ct @ tag"
  shows "decrypt_chunk_record P m chunk vk dek =
    bindR (if cr_record_version p = 2
           then (case dek of
                   None \<Rightarrow> Inl (DE_InvalidPackRecord ''V2 chunk but no DEK available for this inode'')
                 | Some k \<Rightarrow> map_err DE_Crypto
                     (decrypt_chunk_v2_verified P k (fcl_chunk_id chunk) (cr_nonce p) [] ct tag))
           else map_err DE_Crypto (decrypt_chunk P vk (fcl_chunk_id chunk) [] ct tag)) (\<lambda>pt.
    if int (length pt) \<noteq> fcl_size chunk \<or> length pt \<noteq> unat (cr_plain_len p)
    then Inl (DE_InvalidPackRecord ''plain size mismatch'') else Inr pt)"
proof -
  note f = record_fields [OF p(1), of "ct @ tag", folded m]
  have len: "length m = 96 + length ct" using prefix_length [OF p(1)] n(2) by (simp add: m)
  have "drop (80 + length ct) m = tag" using prefix_length [OF p(1)] by (simp add: m)
  then have "slice m 80 (80 + length ct) = ct" "slice m (80 + length ct) (80 + length ct + 16) = tag"
    using f(7) n(2) by (simp_all add: slice_def)
  moreover have "slice m 0 (96 + length ct) = m" using len by (simp add: slice_def)
  moreover have "length (fcl_chunk_id chunk) = 32" using p(1,3) by (simp add: prefix_lengths_def)
  ultimately show ?thesis
    using f(1-6) len p n loc
    by (simp add: decrypt_chunk_record_def to_usize_def usize_checked_add_def ChunkRecordPrefix_SIZE_def
        GCM_TAG_SIZE_def be_decode_u64_be nat_add_distrib nat_int_add Let_def)
qed

lemma encrypt_chunk_v2_facts:
  assumes P: "prims_ok P" and dek: "length dek = 32" and n: "length nonce = 12"
    and e: "encrypt_chunk_v2 P nonce dek pt aad = Inr e"
  shows "length (ec_chunk_id e) = 32" and "ec_nonce e = nonce" and "length (ec_ciphertext e) = length pt"
    and "length (ec_gcm_tag e) = 16"
    and "decrypt_chunk_v2_verified P dek (ec_chunk_id e) nonce aad (ec_ciphertext e) (ec_gcm_tag e) = Inr pt"
proof -
  obtain cid where cid: "chunk_id P dek pt = Inr cid" "length cid = 32" using prims_chunk_id [OF P] by blast
  obtain c t where ct: "gcm_seal P dek nonce aad pt = Inr (c, t)" "length c = length pt" "length t = 16"
    "gcm_open P dek nonce aad c t = Inr pt"
    using prims_seal [OF P dek n] by blast
  from e cid ct(1) have e': "e = \<lparr>ec_chunk_id = cid, ec_nonce = nonce, ec_ciphertext = c, ec_gcm_tag = t\<rparr>"
    by (simp add: encrypt_chunk_v2_def)
  show "length (ec_chunk_id e) = 32" "ec_nonce e = nonce" "length (ec_ciphertext e) = length pt"
    "length (ec_gcm_tag e) = 16"
    using cid(2) ct(2,3) by (simp_all add: e')
  show "decrypt_chunk_v2_verified P dek (ec_chunk_id e) nonce aad (ec_ciphertext e) (ec_gcm_tag e) = Inr pt"
    using cid(1) ct(4) by (simp add: e' decrypt_chunk_v2_verified_def decrypt_chunk_v2_def)
qed

definition fits_i64 :: "bytes \<Rightarrow> bool" where
  "fits_i64 pt \<longleftrightarrow> int (length pt) + 96 \<le> i64_max"

lemma unat_of_nat_u64: "n \<le> usize_max \<Longrightarrow> unat (of_nat n :: u64) = n"
  by (simp add: usize_max_def unat_of_nat_less)

lemma fits_i64_usize: "fits_i64 pt \<Longrightarrow> length pt + 96 \<le> usize_max"
  by (simp add: fits_i64_def i64_max_def usize_max_def)

text \<open>Where a chunk that alone makes up a pack lies.\<close>

definition whole_pack_location :: "EncryptedChunk \<Rightarrow> int \<Rightarrow> string \<Rightarrow> FileChunkLocation \<Rightarrow> bool" where
  "whole_pack_location e plain_size pack_id loc \<longleftrightarrow> fcl_chunk_id loc = ec_chunk_id e \<and>
     fcl_pack_id loc = pack_id \<and> fcl_pack_offset loc = 0 \<and> fcl_size loc = plain_size \<and>
     fcl_encrypted_size loc = int (96 + length (ec_ciphertext e))"

lemma v2_record_decrypts:
  assumes P: "prims_ok P" and dek: "length dek = 32" and n: "length nonce = 12"
    and e: "encrypt_chunk_v2 P nonce dek pt [] = Inr e" and fits: "fits_i64 pt"
    and loc: "whole_pack_location e (int (length pt)) pack_id chunk"
    and p: "prefix_lengths p" "cr_record_magic p = CHUNK_RECORD_MAGIC" "cr_chunk_id p = ec_chunk_id e"
      "cr_record_version p = 2" "cr_nonce p = nonce" "cr_plain_len p = of_nat (length pt)"
      "cr_cipher_len p = of_nat (length pt)"
  shows "decrypt_chunk_record P (ChunkRecordPrefix_as_bytes p @ ec_ciphertext e @ ec_gcm_tag e)
    chunk vk (Some dek) = Inr pt"
proof -
  note f = encrypt_chunk_v2_facts [OF P dek n e]
  have u: "unat (of_nat (length pt) :: u64) = length pt"
    using fits_i64_usize [OF fits] by (intro unat_of_nat_u64) simp
  have id: "cr_chunk_id p = fcl_chunk_id chunk" using loc p(3) by (simp add: whole_pack_location_def)
  have "decrypt_chunk_record P (ChunkRecordPrefix_as_bytes p @ ec_ciphertext e @ ec_gcm_tag e)
      chunk vk (Some dek) =
    bindR (map_err DE_Crypto (decrypt_chunk_v2_verified P dek (fcl_chunk_id chunk) (cr_nonce p) []
        (ec_ciphertext e) (ec_gcm_tag e))) (\<lambda>pt.
      if int (length pt) \<noteq> fcl_size chunk \<or> length pt \<noteq> unat (cr_plain_len p)
      then Inl (DE_InvalidPackRecord ''plain size mismatch'') else Inr pt)"
    using decrypt_chunk_record_eq [OF p(1,2) id _ f(4) _ _ _ refl] p(4,7) f(3) u fits_i64_usize [OF fits] loc
    by (simp add: whole_pack_location_def)
  also have "\<dots> = Inr pt"
    using f(5) p(3,5,6) id u loc by (simp add: whole_pack_location_def)
  finally show ?thesis .
qed

text \<open>
  A packed chunk reads back. The manifest the packer writes for an encrypted chunk is decrypted
  by the downloader to the plaintext that was packed, for every chunk and every key id.
\<close>

theorem manifest_v2_roundtrip:
  assumes P: "prims_ok P" and dek: "length dek = 32" and n: "length nonce = 12" and fits: "fits_i64 pt"
    and e: "encrypt_chunk_v2 P nonce dek pt [] = Inr e"
    and loc: "whole_pack_location e (int (length pt)) pack_id chunk"
  shows "decrypt_chunk_record P (build_manifest_bytes_v2 (ec_chunk_id e) (ec_nonce e) (ec_ciphertext e)
    (ec_gcm_tag e) (length pt) dek_id) chunk vk (Some dek) = Inr pt"
  unfolding build_manifest_bytes_v2_def
  by (rule v2_record_decrypts [OF P dek n e fits loc])
    (simp_all add: encrypt_chunk_v2_facts [OF P dek n e] prefix_lengths_def CHUNK_RECORD_MAGIC_def n u32_be_def)

definition sample_enc :: EncryptedChunk where
  "sample_enc = \<lparr>ec_chunk_id = take 32 (replicate 32 5 @ [1, 2, 3] @ replicate 32 0), ec_nonce = replicate 12 1,
     ec_ciphertext = [4, 7, 6], ec_gcm_tag = take 16 (replicate 12 1 @ replicate 16 0)\<rparr>"

definition sample_loc :: FileChunkLocation where
  "sample_loc = \<lparr>fcl_chunk_id = ec_chunk_id sample_enc, fcl_chunk_index = 0, fcl_file_offset = 0, fcl_size = 3,
     fcl_pack_id = ''p1'', fcl_pack_offset = 0, fcl_encrypted_size = 99\<rparr>"

lemma sample_enc_eq: "encrypt_chunk_v2 xor_prims (replicate 12 1) (replicate 32 5) [1, 2, 3] [] = Inr sample_enc"
  by (simp add: encrypt_chunk_v2_def chunk_id_def gcm_seal_def xor_prims_def sample_enc_def)

lemma sample_loc_ok: "whole_pack_location sample_enc 3 ''p1'' sample_loc"
  by (simp add: whole_pack_location_def sample_loc_def sample_enc_def)

theorem manifest_v2_roundtrip_witness:
  "decrypt_chunk_record xor_prims (build_manifest_bytes_v2 (ec_chunk_id sample_enc) (ec_nonce sample_enc)
     (ec_ciphertext sample_enc) (ec_gcm_tag sample_enc) 3 42) sample_loc [] (Some (replicate 32 5)) = Inr [1, 2, 3]"
  using manifest_v2_roundtrip [OF xor_prims_ok _ _ _ sample_enc_eq, of "''p1''" sample_loc 42 "[]"] sample_loc_ok
  by (simp add: fits_i64_def i64_max_def numeral_3_eq_3)

section \<open>Downloading a pack\<close>

record RestoredPackSource =
  src_pack_id :: string
  src_providers :: "string list"
  src_local_name :: string

definition required_shards :: "StorageMode \<Rightarrow> nat" where
  "required_shards mode = (case mode of Ec2_1 \<Rightarrow> DATA_SHARDS | SingleReplica \<Rightarrow> 1 | LocalOnly \<Rightarrow> 0)"

definition shard_slots :: "StorageMode \<Rightarrow> nat" where
  "shard_slots mode = (if mode = SingleReplica then 1 else TOTAL_SHARDS)"

text \<open>Candidates are tried in the order of their latency, a probe that failed last, and stored ones first.\<close>

definition candidate_key :: "(PackShardRecord \<Rightarrow> nat option) \<Rightarrow> PackShardRecord \<Rightarrow> nat \<times> nat \<times> nat" where
  "candidate_key latency sh =
     (case latency sh of None \<Rightarrow> (1, 0, if sh_status sh = ''COMPLETED'' then 0 else 1)
      | Some l \<Rightarrow> (0, l, if sh_status sh = ''COMPLETED'' then 0 else 1))"

fun fill_slots ::
  "(PackShardRecord \<Rightarrow> string + bytes) \<Rightarrow> nat \<Rightarrow> PackShardRecord list \<Rightarrow> bytes option list \<Rightarrow> string list
     \<Rightarrow> string list \<Rightarrow> DownloaderError + bytes option list \<times> string list \<times> string list" where
  "fill_slots fetch required [] slots from_providers errors = Inr (slots, from_providers, errors)"
| "fill_slots fetch required (sh # shs) slots from_providers errors =
     (if sh_shard_index sh < 0 then Inl (DE_NumericOverflow ''shard index'')
      else if length slots \<le> nat (sh_shard_index sh) \<or> slots ! nat (sh_shard_index sh) \<noteq> None
      then fill_slots fetch required shs slots from_providers errors
      else (case fetch sh of
              Inr bs \<Rightarrow>
                (let slots' = slots[nat (sh_shard_index sh) := Some bs];
                     from' = from_providers @ [sh_provider sh]
                 in if required \<le> present slots' then Inr (slots', from', errors)
                    else fill_slots fetch required shs slots' from' errors)
            | Inl err \<Rightarrow> fill_slots fetch required shs slots from_providers (errors @ [err])))"

definition fetch_manifest ::
  "rs_prims \<Rightarrow> db \<Rightarrow> string list \<Rightarrow> (PackShardRecord \<Rightarrow> nat option) \<Rightarrow> (PackShardRecord \<Rightarrow> string + bytes)
     \<Rightarrow> PackRecord \<Rightarrow> DownloaderError + bytes \<times> string list" where
  "fetch_manifest R s providers latency fetch pack =
     (let pack_id = pk_pack_id pack; mode = StorageMode_from_str (pk_storage_mode pack);
          shards = get_pack_shards s pack_id;
          candidates = filter (\<lambda>sh. sh_provider sh \<in> set providers) shards
      in if shards = [] then Inl (DE_NoPackShards pack_id)
         else if candidates = [] then Inl (DE_ShardDownloadFailed pack_id [''no configured providers available''])
         else
           bindR (fill_slots fetch (required_shards mode) (sort_key (candidate_key latency) candidates)
                    (replicate (shard_slots mode) None) [] []) (\<lambda>(slots, from_providers, errors).
           if present slots < required_shards mode then Inl (DE_ShardDownloadFailed pack_id errors)
           else
             bindR (if mode = Ec2_1 then reconstruct_ciphertext R pack slots
                    else ok_or (DE_InvalidPackRecord ''single replica missing shard'')
                           (case slots of [] \<Rightarrow> None | x # _ \<Rightarrow> x)) (\<lambda>ciphertext.
             bindR (dl_build_manifest_bytes pack ciphertext) (\<lambda>manifest.
               Inr (manifest, from_providers)))))"

definition download_pack ::
  "rs_prims \<Rightarrow> db \<Rightarrow> string list \<Rightarrow> (PackShardRecord \<Rightarrow> nat option) \<Rightarrow> (PackShardRecord \<Rightarrow> string + bytes)
     \<Rightarrow> (string \<Rightarrow> bytes option) \<Rightarrow> (string \<Rightarrow> bytes option) \<Rightarrow> string
     \<Rightarrow> (DownloaderError + RestoredPackSource) \<times> (string \<Rightarrow> bytes option)" where
  "download_pack R s providers latency fetch local_spool spool pack_id =
     (case get_pack s pack_id of
        None \<Rightarrow> (Inl (DE_PackMissing pack_id), spool)
      | Some pack \<Rightarrow>
          let name = local_pack_name pack_id in
          if StorageMode_from_str (pk_storage_mode pack) = LocalOnly then
            (if local_spool name = None then Inl (DE_InvalidPackRecord ''local-only pack manifest missing'')
             else Inr \<lparr>src_pack_id = pack_id, src_providers = [''local-only''], src_local_name = name\<rparr>, spool)
          else if spool name \<noteq> None then
            (Inr \<lparr>src_pack_id = pack_id, src_providers = [''spool-cache''], src_local_name = name\<rparr>, spool)
          else (case fetch_manifest R s providers latency fetch pack of
                  Inl e \<Rightarrow> (Inl e, spool)
                | Inr (manifest, from_providers) \<Rightarrow>
                    (Inr \<lparr>src_pack_id = pack_id, src_providers = from_providers, src_local_name = name\<rparr>,
                     spool(name \<mapsto> manifest))))"

lemma present_update:
  "i < length slots \<Longrightarrow> slots ! i = None \<Longrightarrow> present (slots[i := Some b]) = Suc (present slots)"
proof (induction slots arbitrary: i)
  case (Cons x slots)
  then show ?case by (cases i; cases x) (simp_all add: present_def)
qed simp

lemma agrees_with_update:
  assumes "agrees_with enc slots" and "i < length slots"
  shows "agrees_with enc (slots[i := Some (enc ! i)])"
  using assms unfolding agrees_with_def list_all2_conv_all_nth by (auto simp: nth_list_update)

text \<open>
  Shards that are fetched are the encoded ones; then the slots agree with the code word, and either enough
  of them are filled or everything that could be fetched has been.
\<close>

definition honest :: "(PackShardRecord \<Rightarrow> string + bytes) \<Rightarrow> bytes list \<Rightarrow> PackShardRecord \<Rightarrow> bool" where
  "honest fetch enc sh \<longleftrightarrow> 0 \<le> sh_shard_index sh \<and> nat (sh_shard_index sh) < length enc \<and>
     (\<forall>bs. fetch sh = Inr bs \<longrightarrow> bs = enc ! nat (sh_shard_index sh))"

lemma fill_slots_ok:
  assumes "\<forall>sh \<in> set shs. honest fetch enc sh" and "agrees_with enc slots"
  shows "\<exists>slots' fp er. fill_slots fetch required shs slots fp0 er0 = Inr (slots', fp, er) \<and>
    agrees_with enc slots' \<and> (\<forall>i < length slots. slots ! i \<noteq> None \<longrightarrow> slots' ! i \<noteq> None) \<and>
    (required \<le> present slots' \<or>
      (\<forall>sh \<in> set shs. (\<exists>bs. fetch sh = Inr bs) \<longrightarrow> slots' ! nat (sh_shard_index sh) \<noteq> None))"
  using assms
proof (induction fetch required shs slots fp0 er0 rule: fill_slots.induct)
  case (2 fetch required sh shs slots fp er)
  let ?i = "nat (sh_shard_index sh)"
  have h: "honest fetch enc sh" and hs: "\<forall>sh \<in> set shs. honest fetch enc sh" using "2.prems"(1) by auto
  then have i: "\<not> sh_shard_index sh < 0" "?i < length enc" by (auto simp: honest_def)
  have len: "length slots = length enc" using "2.prems"(2) by (simp add: agrees_with_def)
  show ?case
  proof (cases "slots ! ?i = None")
    case False
    then have "length slots \<le> ?i \<or> slots ! ?i \<noteq> None" by simp
    from "2.IH"(1) [OF i(1) this hs "2.prems"(2)] False i len show ?thesis by fastforce
  next
    case True
    with i len have no: "\<not> (length slots \<le> ?i \<or> slots ! ?i \<noteq> None)" by simp
    show ?thesis
    proof (cases "fetch sh")
      case (Inl err)
      from "2.IH"(2) [OF i(1) no Inl hs "2.prems"(2)] Inl no i show ?thesis by simp
    next
      case (Inr bs)
      with h have bs: "bs = enc ! ?i" by (simp add: honest_def)
      let ?slots = "slots[?i := Some bs]"
      have a: "agrees_with enc ?slots"
        using agrees_with_update [OF "2.prems"(2)] i len bs by simp
      have keep: "slots ! k \<noteq> None \<longrightarrow> ?slots ! k \<noteq> None" if "k < length slots" for k
        using that by (cases "k = ?i") simp_all
      show ?thesis
      proof (cases "required \<le> present ?slots")
        case True
        with Inr no i a keep show ?thesis by (simp add: Let_def)
      next
        case False
        from "2.IH"(3) [OF i(1) no Inr refl refl False hs a] obtain slots' fp' er' where
          r: "fill_slots fetch required shs ?slots (fp @ [sh_provider sh]) er = Inr (slots', fp', er')"
          "agrees_with enc slots'" "\<forall>k < length slots. ?slots ! k \<noteq> None \<longrightarrow> slots' ! k \<noteq> None"
          "required \<le> present slots' \<or> (\<forall>sh \<in> set shs. (\<exists>bs. fetch sh = Inr bs) \<longrightarrow>
             slots' ! nat (sh_shard_index sh) \<noteq> None)"
          by auto
        have "?slots ! ?i \<noteq> None" using i len by simp
        then have "slots' ! ?i \<noteq> None" using r(3) i len by simp
        moreover have "fill_slots fetch required (sh # shs) slots fp er = Inr (slots', fp', er')"
          using r(1) Inr no i False by (simp add: Let_def)
        ultimately show ?thesis using r keep by auto
      qed
    qed
  qed
qed auto

lemma present_two:
  assumes "i < length slots" and "j < length slots" and "i \<noteq> j" and "slots ! i \<noteq> None" and "slots ! j \<noteq> None"
  shows "2 \<le> present slots"
proof -
  have "{i, j} \<subseteq> {k. k < length slots \<and> slots ! k \<noteq> None}" using assms by auto
  then have "card {i, j} \<le> card {k. k < length slots \<and> slots ! k \<noteq> None}" by (intro card_mono) auto
  then show ?thesis using assms(3) by (simp add: present_def length_filter_conv_card)
qed

text \<open>The row of a pack as \<open>pack_file\<close> writes it for an erasure-coded chunk.\<close>

definition ec_pack_row :: "EncryptedChunk \<Rightarrow> bytes \<Rightarrow> PackRecord \<Rightarrow> bool" where
  "ec_pack_row e pt pack \<longleftrightarrow> pk_storage_mode pack = StorageMode_as_str Ec2_1 \<and>
     pk_chunk_id pack = ec_chunk_id e \<and> pk_nonce pack = ec_nonce e \<and> pk_gcm_tag pack = ec_gcm_tag e \<and>
     pk_encryption_version pack = 2 \<and> pk_logical_size pack = int (length pt) \<and>
     pk_cipher_size pack = int (length (ec_ciphertext e)) \<and>
     pk_shard_size pack = int (shard_len_of (ec_ciphertext e))"

lemma reconstruct_ciphertext_ok:
  assumes R: "rs_ok R" and enc: "split_ciphertext_into_shards R c = Inr enc"
    and slots: "agrees_with enc slots" "2 \<le> present slots"
    and pack: "pk_shard_size pack = int (shard_len_of c)" "pk_cipher_size pack = int (length c)"
  shows "reconstruct_ciphertext R pack slots = Inr c"
proof -
  from split_ciphertext_ok [OF R, of c] enc obtain a b p where abp: "enc = [a, b, p]"
    and l: "length a = shard_len_of c" "length b = shard_len_of c" "length p = shard_len_of c"
    and c: "take (length c) (a @ b) = c"
    and rec: "agrees_with [a, b, p] slots \<Longrightarrow> 2 \<le> present slots \<Longrightarrow>
      rs_reconstruct R slots = Some [Some a, Some b, Some p]" by auto
  have three: "length slots = TOTAL_SHARDS"
    using slots(1) abp by (simp add: agrees_with_def TOTAL_SHARDS_def DATA_SHARDS_def PARITY_SHARDS_def)
  have "opt \<in> set slots \<Longrightarrow> opt = None \<or> opt = Some a \<or> opt = Some b \<or> opt = Some p" for opt
    using two_present [of a b p slots] slots abp by auto
  then have sizes: "\<not> list_ex (\<lambda>x. case x of None \<Rightarrow> False | Some bs \<Rightarrow> length bs \<noteq> shard_len_of c) slots"
    using l by (fastforce simp: list_ex_iff split: option.splits)
  have "length c \<le> length a + length b" using shard_len_bounds(2) [of c] l by simp
  then show ?thesis
    using three sizes rec slots abp pack c
    by (simp add: reconstruct_ciphertext_def to_usize_def DATA_SHARDS_def numeral_2_eq_2 Let_def)
qed

lemma dl_manifest_ok:
  assumes P: "prims_ok P" and dek: "length dek = 32" and n: "length nonce = 12" and fits: "fits_i64 pt"
    and e: "encrypt_chunk_v2 P nonce dek pt [] = Inr e" and pack: "ec_pack_row e pt pack"
    and loc: "whole_pack_location e (int (length pt)) pack_id chunk"
  shows "\<exists>m. dl_build_manifest_bytes pack (ec_ciphertext e) = Inr m \<and>
    decrypt_chunk_record P m chunk vk (Some dek) = Inr pt"
proof -
  note f = encrypt_chunk_v2_facts [OF P dek n e]
  let ?p = "\<lparr>cr_record_magic = CHUNK_RECORD_MAGIC, cr_record_version = of_int (pk_encryption_version pack),
      cr_flags = 0, cr_compression_algo = COMPRESSION_ALGO_NONE, cr_key_wrapping_algo = 0,
      cr_chunk_id = pk_chunk_id pack, cr_plain_len = of_int (pk_logical_size pack),
      cr_cipher_len = of_nat (length (ec_ciphertext e)), cr_nonce = pk_nonce pack,
      cr_dek_id_hint = replicate 4 0, cr_reserved_1 = replicate 8 0\<rparr> :: ChunkRecordPrefix"
  have "decrypt_chunk_record P (ChunkRecordPrefix_as_bytes ?p @ ec_ciphertext e @ ec_gcm_tag e)
      chunk vk (Some dek) = Inr pt"
    by (rule v2_record_decrypts [OF P dek n e fits loc])
      (use pack f n in \<open>simp_all add: ec_pack_row_def prefix_lengths_def CHUNK_RECORD_MAGIC_def\<close>)
  moreover have "dl_build_manifest_bytes pack (ec_ciphertext e) =
      Inr (ChunkRecordPrefix_as_bytes ?p @ ec_ciphertext e @ ec_gcm_tag e)"
    using pack f n by (simp add: dl_build_manifest_bytes_def ec_pack_row_def)
  ultimately show ?thesis by blast
qed

lemma fetch_any_two:
  assumes P: "prims_ok P" and R: "rs_ok R" and dek: "length dek = 32" and n: "length nonce = 12"
    and fits: "fits_i64 pt" and e: "encrypt_chunk_v2 P nonce dek pt [] = Inr e"
    and enc: "split_ciphertext_into_shards R (ec_ciphertext e) = Inr enc"
    and pack: "get_pack s pid = Some pack" "ec_pack_row e pt pack"
    and hon: "\<forall>sh \<in> set (get_pack_shards s pid). sh_provider sh \<in> set providers \<longrightarrow> honest fetch enc sh"
    and two: "shA \<in> set (get_pack_shards s pid)" "sh_provider shA \<in> set providers" "\<exists>b. fetch shA = Inr b"
      "shB \<in> set (get_pack_shards s pid)" "sh_provider shB \<in> set providers" "\<exists>b. fetch shB = Inr b"
      "sh_shard_index shA \<noteq> sh_shard_index shB"
    and loc: "whole_pack_location e (int (length pt)) pid chunk"
  shows "\<exists>m fp. fetch_manifest R s providers latency fetch pack = Inr (m, fp) \<and>
    decrypt_chunk_record P m chunk vk (Some dek) = Inr pt"
proof -
  let ?cands = "filter (\<lambda>sh. sh_provider sh \<in> set providers) (get_pack_shards s pid)"
  let ?tried = "sort_key (candidate_key latency) ?cands"
  have mode: "StorageMode_from_str (pk_storage_mode pack) = Ec2_1"
    using pack(2) by (simp add: ec_pack_row_def StorageMode_from_str_def)
  from split_ciphertext_ok [OF R, of "ec_ciphertext e"] enc have len3: "length enc = 3" by auto
  have none: "agrees_with enc (replicate 3 None)"
    using len3 by (simp add: agrees_with_def list_all2_conv_all_nth)
  have slots3: "shard_slots Ec2_1 = 3" "required_shards Ec2_1 = 2"
    by (simp_all add: shard_slots_def required_shards_def TOTAL_SHARDS_def DATA_SHARDS_def PARITY_SHARDS_def)
  have h: "\<forall>sh \<in> set ?tried. honest fetch enc sh" using hon by simp
  from fill_slots_ok [OF h none, of 2 "[]" "[]"] obtain slots fp er where
    fill: "fill_slots fetch 2 ?tried (replicate 3 None) [] [] = Inr (slots, fp, er)"
    and ag: "agrees_with enc slots" and full: "2 \<le> present slots \<or>
      (\<forall>sh \<in> set ?tried. (\<exists>bs. fetch sh = Inr bs) \<longrightarrow> slots ! nat (sh_shard_index sh) \<noteq> None)"
    by blast
  have in_tried: "shA \<in> set ?tried" "shB \<in> set ?tried" using two by simp_all
  have len: "length slots = 3" using ag len3 by (simp add: agrees_with_def)
  have idx: "nat (sh_shard_index shA) < 3" "nat (sh_shard_index shB) < 3"
    "nat (sh_shard_index shA) \<noteq> nat (sh_shard_index shB)"
  proof -
    have "honest fetch enc shA" "honest fetch enc shB" using h in_tried by blast+
    then show "nat (sh_shard_index shA) < 3" "nat (sh_shard_index shB) < 3"
      "nat (sh_shard_index shA) \<noteq> nat (sh_shard_index shB)"
      using len3 two(7) by (simp_all add: honest_def eq_nat_nat_iff)
  qed
  have enough: "2 \<le> present slots"
    using full present_two [of "nat (sh_shard_index shA)" slots "nat (sh_shard_index shB)"]
      in_tried two(3,6) idx len by auto
  have rec: "reconstruct_ciphertext R pack slots = Inr (ec_ciphertext e)"
    by (rule reconstruct_ciphertext_ok [OF R enc ag enough]) (use pack(2) in \<open>simp_all add: ec_pack_row_def\<close>)
  from dl_manifest_ok [OF P dek n fits e pack(2) loc, of vk] obtain m where
    m: "dl_build_manifest_bytes pack (ec_ciphertext e) = Inr m"
    "decrypt_chunk_record P m chunk vk (Some dek) = Inr pt" by blast
  have pid: "pk_pack_id pack = pid" using get_pack_Some [OF pack(1)] by simp
  have ne: "get_pack_shards s pid \<noteq> []" "?cands \<noteq> []" using two by (auto simp: filter_empty_conv)
  have "fetch_manifest R s providers latency fetch pack = Inr (m, fp)"
    using ne fill enough rec m(1) mode pid slots3 unfolding fetch_manifest_def Let_def by simp
  then show ?thesis using m(2) by blast
qed

text \<open>
  C4: one lost provider loses no data. A chunk is encrypted, cut into three shards and its pack row is
  written; later at least two different shards can be fetched, in whatever order the latencies put
  them, and what is fetched is what was stored. Then the download succeeds and the spooled manifest decrypts to the
  original chunk.
\<close>

theorem any_two_shards_restore:
  assumes P: "prims_ok P" and R: "rs_ok R" and dek: "length dek = 32" and n: "length nonce = 12"
    and fits: "fits_i64 pt" and e: "encrypt_chunk_v2 P nonce dek pt [] = Inr e"
    and enc: "split_ciphertext_into_shards R (ec_ciphertext e) = Inr enc"
    and pack: "get_pack s pid = Some pack" "ec_pack_row e pt pack" and spool: "spool (local_pack_name pid) = None"
    and hon: "\<forall>sh \<in> set (get_pack_shards s pid). sh_provider sh \<in> set providers \<longrightarrow> honest fetch enc sh"
    and two: "shA \<in> set (get_pack_shards s pid)" "sh_provider shA \<in> set providers" "\<exists>b. fetch shA = Inr b"
      "shB \<in> set (get_pack_shards s pid)" "sh_provider shB \<in> set providers" "\<exists>b. fetch shB = Inr b"
      "sh_shard_index shA \<noteq> sh_shard_index shB"
    and loc: "whole_pack_location e (int (length pt)) pid chunk"
  shows "\<exists>src spool' m. download_pack R s providers latency fetch local_spool spool pid = (Inr src, spool') \<and>
    spool' (src_local_name src) = Some m \<and> decrypt_chunk_record P m chunk vk (Some dek) = Inr pt"
proof -
  have mode: "StorageMode_from_str (pk_storage_mode pack) = Ec2_1"
    using pack(2) by (simp add: ec_pack_row_def StorageMode_from_str_def)
  from fetch_any_two [OF P R dek n fits e enc pack hon two loc, of latency vk] obtain m fp where
    "fetch_manifest R s providers latency fetch pack = Inr (m, fp)" "decrypt_chunk_record P m chunk vk (Some dek) = Inr pt"
    by blast
  with pack(1) mode spool show ?thesis by (simp add: download_pack_def Let_def)
qed

definition shard_row :: "int \<Rightarrow> string \<Rightarrow> PackShardRecord" where
  "shard_row i prov = \<lparr>sh_id = i + 1, sh_pack_id = ''p1'', sh_shard_index = i, sh_shard_role = ''DATA'',
     sh_provider = prov, sh_object_key = ''k'', sh_size = 2, sh_checksum = ''c'', sh_status = ''COMPLETED'',
     sh_attempts = Some 0, sh_last_error = None, sh_last_verified_at = None, sh_last_verification_method = None,
     sh_last_verification_status = None, sh_last_verified_size = None, sh_verification_failures = 0\<rparr>"

definition stored_pack :: PackRecord where
  "stored_pack = sample_pack\<lparr>pk_chunk_id := ec_chunk_id sample_enc, pk_nonce := ec_nonce sample_enc,
     pk_gcm_tag := ec_gcm_tag sample_enc, pk_logical_size := 3, pk_cipher_size := 3, pk_shard_size := 2\<rparr>"

definition stored_db :: db where
  "stored_db = empty_db\<lparr>packs := [stored_pack],
     pack_shards := [shard_row 0 ''cloudflare-r2'', shard_row 1 ''backblaze-b2'', shard_row 2 ''scaleway'']\<rparr>"

text \<open>The provider of shard 1 is down.\<close>

definition one_down :: "PackShardRecord \<Rightarrow> string + bytes" where
  "one_down sh = (if sh_shard_index sh = 1 then Inl ''timed out''
     else Inr ([[4, 7], [6, 0], [2, 7]] ! nat (sh_shard_index sh)))"

lemma stored_split: "split_ciphertext_into_shards xor_code (ec_ciphertext sample_enc) = Inr [[4, 7], [6, 0], [2, 7]]"
  by code_simp

lemma stored_shards: "get_pack_shards stored_db ''p1'' =
  [shard_row 0 ''cloudflare-r2'', shard_row 1 ''backblaze-b2'', shard_row 2 ''scaleway'']"
  by (simp add: get_pack_shards_def stored_db_def shard_row_def)

theorem any_two_shards_restore_witness:
  "\<exists>src spool' m. download_pack xor_code stored_db SHARD_PROVIDERS (\<lambda>_. None) one_down (\<lambda>_. None) (\<lambda>_. None) ''p1'' =
      (Inr src, spool') \<and> spool' (src_local_name src) = Some m \<and>
    decrypt_chunk_record xor_prims m sample_loc [] (Some (replicate 32 5)) = Inr [1, 2, 3]"
proof (rule any_two_shards_restore [OF xor_prims_ok xor_code_ok _ _ _ sample_enc_eq stored_split,
      where shA = "shard_row 0 ''cloudflare-r2''" and shB = "shard_row 2 ''scaleway''" and pack = stored_pack])
  show "get_pack stored_db ''p1'' = Some stored_pack"
    by (simp add: get_pack_def stored_db_def stored_pack_def sample_pack_def)
  show "ec_pack_row sample_enc [1, 2, 3] stored_pack"
    by (simp add: ec_pack_row_def stored_pack_def sample_pack_def sample_enc_def shard_len_of_def DATA_SHARDS_def)
qed (simp_all add: fits_i64_def i64_max_def stored_shards shard_row_def SHARD_PROVIDERS_def honest_def one_down_def
    numeral_2_eq_2 sample_loc_ok [simplified])

section \<open>Reading a byte range\<close>

text \<open>
  \<open>load\<close> is \<open>load_plaintext_chunk\<close>: it gives the plaintext of a chunk, from the cache, a peer or a pack.
  \<open>usize\<close> and \<open>u64\<close> have 64 bits.
\<close>

definition piece_of :: "nat \<Rightarrow> nat \<Rightarrow> nat \<Rightarrow> bytes \<Rightarrow> bytes" where
  "piece_of start stop chunk_start plaintext =
     slice plaintext (max start chunk_start - chunk_start) (min stop (chunk_start + length plaintext) - chunk_start)"

fun read_chunks ::
  "(FileChunkLocation \<Rightarrow> DownloaderError + bytes) \<Rightarrow> nat \<Rightarrow> nat \<Rightarrow> nat \<Rightarrow> FileChunkLocation list \<Rightarrow> bytes
     \<Rightarrow> DownloaderError + bytes" where
  "read_chunks load offset end_offset len [] acc = Inr acc"
| "read_chunks load offset end_offset len (chunk # chunks) acc =
     bindR (load chunk) (\<lambda>plaintext.
     bindR (to_usize (fcl_file_offset chunk) ''file offset'') (\<lambda>chunk_start.
     bindR (ok_or (DE_NumericOverflow ''chunk end'') (usize_checked_add chunk_start (length plaintext))) (\<lambda>chunk_end.
       if min end_offset chunk_end \<le> max offset chunk_start
       then read_chunks load offset end_offset len chunks acc
       else let acc' = acc @ piece_of offset end_offset chunk_start plaintext
            in if len \<le> length acc' then Inr acc'
               else read_chunks load offset end_offset len chunks acc')))"

definition read_range ::
  "db \<Rightarrow> (FileChunkLocation \<Rightarrow> DownloaderError + bytes) \<Rightarrow> int \<Rightarrow> int \<Rightarrow> nat \<Rightarrow> nat \<Rightarrow> DownloaderError + bytes" where
  "read_range s load inode_id revision_id offset len =
     (case get_file_revision s inode_id revision_id of
        None \<Rightarrow> Inl (DE_NoChunksForInode inode_id)
      | Some revision \<Rightarrow>
          if len = 0 then Inr []
          else bindR (ok_or (DE_NumericOverflow ''range end'') (usize_checked_add offset len)) (\<lambda>end_offset.
            if i64_max < int offset then Inl (DE_NumericOverflow ''range start'')
            else if i64_max < int end_offset then Inl (DE_NumericOverflow ''range end'')
            else let chunks = get_revision_chunk_locations_in_range s inode_id revision_id (int offset) (int end_offset)
                 in if chunks = [] then Inl (DE_NoChunksForInode inode_id)
                    else bindR (read_chunks load offset end_offset len chunks []) (\<lambda>result. Inr (take len result))))"

text \<open>
  The streaming variant gives each piece to the callback \<open>on_chunk\<close> with its absolute offset; here
  the calls are collected in order.
\<close>

fun stream_chunks ::
  "(FileChunkLocation \<Rightarrow> DownloaderError + bytes) \<Rightarrow> nat \<Rightarrow> nat \<Rightarrow> nat \<Rightarrow> FileChunkLocation list \<Rightarrow> nat
     \<Rightarrow> DownloaderError + (nat \<times> bytes) list" where
  "stream_chunks load offset end_offset len [] emitted = Inr []"
| "stream_chunks load offset end_offset len (chunk # chunks) emitted =
     bindR (load chunk) (\<lambda>plaintext.
     bindR (to_usize (fcl_file_offset chunk) ''file offset'') (\<lambda>chunk_start.
     bindR (ok_or (DE_NumericOverflow ''chunk end'') (usize_checked_add chunk_start (length plaintext))) (\<lambda>chunk_end.
       if min end_offset chunk_end \<le> max offset chunk_start
       then stream_chunks load offset end_offset len chunks emitted
       else let piece = piece_of offset end_offset chunk_start plaintext;
                call = (max offset chunk_start, piece)
            in if len \<le> emitted + length piece then Inr [call]
               else bindR (stream_chunks load offset end_offset len chunks (emitted + length piece))
                      (\<lambda>calls. Inr (call # calls)))))"

definition read_range_streamed ::
  "db \<Rightarrow> (FileChunkLocation \<Rightarrow> DownloaderError + bytes) \<Rightarrow> int \<Rightarrow> int \<Rightarrow> nat \<Rightarrow> nat
     \<Rightarrow> DownloaderError + (nat \<times> bytes) list" where
  "read_range_streamed s load inode_id revision_id offset len =
     (case get_file_revision s inode_id revision_id of
        None \<Rightarrow> Inl (DE_NoChunksForInode inode_id)
      | Some revision \<Rightarrow>
          if len = 0 then Inr []
          else bindR (ok_or (DE_NumericOverflow ''range end'') (usize_checked_add offset len)) (\<lambda>end_offset.
            if i64_max < int offset then Inl (DE_NumericOverflow ''range start'')
            else if i64_max < int end_offset then Inl (DE_NumericOverflow ''range end'')
            else let chunks = get_revision_chunk_locations_in_range s inode_id revision_id (int offset) (int end_offset)
                 in if chunks = [] then Inl (DE_NoChunksForInode inode_id)
                    else stream_chunks load offset end_offset len chunks 0))"

definition prefetch_targets :: "int option \<Rightarrow> int \<Rightarrow> int \<Rightarrow> int \<Rightarrow> int list" where
  "prefetch_targets previous revision_size first_chunk last_chunk =
     (let sequential = (case previous of None \<Rightarrow> [] | Some p \<Rightarrow>
            if p + 1 = first_chunk then [last_chunk + 1, last_chunk + 2] else []);
          small = (if 0 < revision_size \<and> revision_size \<le> 8 * 1024 * 1024 \<and> first_chunk = 0
            then [last_chunk + 1 .. (revision_size - 1) div int DEFAULT_CHUNK_SIZE] else [])
      in sort (remdups (sequential @ small)))"

section \<open>A range is read exactly\<close>

text \<open>The chunks of a revision tile its content: each starts where the one before ends.\<close>

fun tiled :: "(FileChunkLocation \<Rightarrow> DownloaderError + bytes) \<Rightarrow> nat \<Rightarrow> FileChunkLocation list \<Rightarrow> bytes \<Rightarrow> bool" where
  "tiled load k [] content \<longleftrightarrow> content = []"
| "tiled load k (l # ls) content \<longleftrightarrow> fcl_file_offset l = int k \<and> 0 < fcl_size l \<and>
     nat (fcl_size l) \<le> length content \<and> load l = Inr (take (nat (fcl_size l)) content) \<and>
     tiled load (k + nat (fcl_size l)) ls (drop (nat (fcl_size l)) content)"

definition in_range :: "nat \<Rightarrow> nat \<Rightarrow> FileChunkLocation \<Rightarrow> bool" where
  "in_range a b l \<longleftrightarrow> int a < fcl_file_offset l + fcl_size l \<and> fcl_file_offset l < int b"

lemma length_piece_of:
  assumes "offset < k + length pt" and "k < stop" and "offset < stop"
  shows "length (piece_of offset stop k pt) = min stop (k + length pt) - max offset k"
  using assms by (auto simp: piece_of_def slice_def)

lemma piece_of_take:
  assumes "n \<le> length c"
  shows "piece_of offset stop k (take n c) = take (min stop (k + n) - max offset k) (drop (offset - k) c)"
proof -
  have "max offset k - k = offset - k" by simp
  moreover have "min stop (k + n) - k - (offset - k) = min stop (k + n) - max offset k" by auto
  moreover have "take (min stop (k + n) - max offset k) (drop (offset - k) (take n c)) =
      take (min stop (k + n) - max offset k) (drop (offset - k) c)"
    by (simp add: drop_take min_def) (auto intro!: arg_cong [of _ _ "\<lambda>x. take x (drop (offset - k) c)"])
  ultimately show ?thesis using assms by (simp add: piece_of_def slice_def)
qed

lemma range_split:
  assumes "n \<le> length c"
  shows "take (E - max k a) (drop (a - k) c) =
    take (min E (k + n) - max a k) (drop (a - k) c) @ take (E - max (k + n) a) (drop (a - (k + n)) (drop n c))"
proof (cases "k + n \<le> a")
  case True
  then have "min E (k + n) - max a k = 0" and "a - (k + n) + n = a - k" by auto
  with True show ?thesis by (simp add: max_def)
next
  case False
  then have "max (k + n) a = k + n" "a - (k + n) = 0" by simp_all
  moreover have "take (E - max k a) (drop (a - k) c) =
      take (min E (k + n) - max a k) (drop (a - k) c) @ take (E - (k + n)) (drop n c)"
  proof (cases "E \<le> k + n")
    case True
    then show ?thesis by (simp add: max.commute)
  next
    case E: False
    have eq: "E - max k a = (k + n - max a k) + (E - (k + n))" using E False by auto
    have "k + n - max a k + (a - k) = n" using False by (auto simp: max_def)
    then have d: "drop (k + n - max a k) (drop (a - k) c) = drop n c" by simp
    have "min E (k + n) = k + n" using E by simp
    then show ?thesis unfolding eq take_add d by simp
  qed
  ultimately show ?thesis by simp
qed

lemma read_chunks_tiled:
  assumes E: "E = offset + len" and len: "0 < len"
  shows "tiled load k ls c \<Longrightarrow> k + length c \<le> usize_max \<Longrightarrow> length acc = min k E - offset \<Longrightarrow>
    read_chunks load offset E len (filter (in_range offset E) ls) acc =
      Inr (acc @ take (E - max k offset) (drop (offset - k) c))"
proof (induction ls arbitrary: k c acc)
  case (Cons l ls)
  define n where "n = nat (fcl_size l)"
  have t: "fcl_file_offset l = int k" "fcl_size l = int n" "0 < n" "n \<le> length c" "load l = Inr (take n c)"
    "tiled load (k + n) ls (drop n c)"
    using Cons.prems(1) by (auto simp: n_def)
  have bound: "k + n + length (drop n c) \<le> usize_max" using Cons.prems(2) t(4) by simp
  have range: "in_range offset E l \<longleftrightarrow> offset < k + n \<and> k < E" by (auto simp: in_range_def t(1,2))
  note split = range_split [OF t(4), of E k offset]
  show ?case
  proof (cases "in_range offset E l")
    case False
    then have z: "min E (k + n) - max offset k = 0" "length acc = min (k + n) E - offset"
      using Cons.prems(3) by (auto simp: range)
    from Cons.IH [OF t(6) bound z(2)] False split z(1) show ?thesis by (simp add: max.commute)
  next
    case True
    let ?piece = "piece_of offset E k (take n c)"
    have piece: "?piece = take (min E (k + n) - max offset k) (drop (offset - k) c)"
      by (rule piece_of_take [OF t(4)])
    have r: "offset < k + n" "k < E" "offset < E" using True range E len by simp_all
    have "length ?piece = min E (k + n) - max offset k"
      using length_piece_of [of offset k "take n c" E] r t(4) by simp
    then have acc: "length (acc @ ?piece) = min (k + n) E - offset"
      using Cons.prems(3) r t(3) by (auto simp: min_def max_def)
    have overlap: "\<not> min E (k + n) \<le> max offset k" using r t(3) by auto
    have enter: "read_chunks load offset E len (filter (in_range offset E) (l # ls)) acc =
        (if len \<le> length (acc @ ?piece) then Inr (acc @ ?piece)
         else read_chunks load offset E len (filter (in_range offset E) ls) (acc @ ?piece))"
      using True overlap t(1-5) bound Cons.prems(2)
      by (simp add: to_usize_def usize_checked_add_def range Let_def)
    show ?thesis
    proof (cases "len \<le> length (acc @ ?piece)")
      case stop: True
      then have "E \<le> k + n" using acc E len by auto
      then have "E - max (k + n) offset = 0" by simp
      with stop enter piece split show ?thesis by (simp add: max.commute)
    next
      case False
      with enter Cons.IH [OF t(6) bound acc] piece split show ?thesis by (simp add: max.commute)
    qed
  qed
qed simp

text \<open>The pieces of the streaming variant are the bytes of the plain one.\<close>

lemma read_chunks_stream:
  "read_chunks load offset E len ls acc =
     bindR (stream_chunks load offset E len ls (length acc)) (\<lambda>calls. Inr (acc @ concat (map snd calls)))"
proof (induction ls arbitrary: acc)
  case (Cons l ls)
  show ?case
  proof (cases "load l")
    case (Inr pt)
    let ?k = "to_usize (fcl_file_offset l) ''file offset''"
    show ?thesis
    proof (cases ?k)
      case k: (Inr k)
      let ?piece = "piece_of offset E k pt"
      show ?thesis
      proof (cases "usize_checked_add k (length pt)")
        case (Some e)
        consider "min E e \<le> max offset k" | "\<not> min E e \<le> max offset k" "len \<le> length (acc @ ?piece)"
          | "\<not> min E e \<le> max offset k" "\<not> len \<le> length (acc @ ?piece)" by blast
        then show ?thesis
        proof cases
          case 3
          show ?thesis
            using Cons.IH [of "acc @ ?piece"] 3 Inr k Some
            by (cases "stream_chunks load offset E len ls (length (acc @ ?piece))") (simp_all add: Let_def)
        qed (use Cons.IH [of acc] Inr k Some in \<open>simp_all add: Let_def\<close>)
      qed (simp add: Inr k)
    qed (simp add: Inr)
  qed simp
qed simp

lemma range_chunks_filter:
  "get_revision_chunk_locations_in_range s i rv (int a) (int b) =
     filter (in_range a b) (chunk_locations s
       (refs_of_revisions s (\<lambda>r. fr_inode_id r = i \<and> fr_revision_id r = rv)))"
  by (simp add: get_revision_chunk_locations_in_range_def in_range_def [abs_def])

lemma tiled_in_range:
  "tiled load k ls c \<Longrightarrow> a < b \<Longrightarrow>
     filter (in_range a b) ls = [] \<longleftrightarrow> k + length c \<le> a \<or> b \<le> k \<or> c = []"
proof (induction ls arbitrary: k c)
  case (Cons l ls)
  define n where "n = nat (fcl_size l)"
  have t: "fcl_file_offset l = int k" "fcl_size l = int n" "0 < n" "n \<le> length c"
    "tiled load (k + n) ls (drop n c)"
    using Cons.prems(1) by (auto simp: n_def)
  have "in_range a b l \<longleftrightarrow> a < k + n \<and> k < b" by (auto simp: in_range_def t(1,2))
  with Cons.IH [OF t(5) Cons.prems(2)] t(3,4) Cons.prems(2) show ?case by auto
qed simp

lemma read_range_tiled:
  assumes rv: "get_file_revision s i rv \<noteq> None"
    and tl: "tiled load 0 (chunk_locations s
      (refs_of_revisions s (\<lambda>r. fr_inode_id r = i \<and> fr_revision_id r = rv))) content"
    and len: "0 < len" and fit: "int (offset + len) \<le> i64_max" "int (length content) \<le> i64_max"
  shows "read_range s load i rv offset len =
      (if offset < length content then Inr (take len (drop offset content)) else Inl (DE_NoChunksForInode i))"
proof -
  let ?in = "filter (in_range offset (offset + len)) (chunk_locations s
      (refs_of_revisions s (\<lambda>r. fr_inode_id r = i \<and> fr_revision_id r = rv)))"
  have add: "usize_checked_add offset len = Some (offset + len)"
    using fit(1) by (simp add: usize_checked_add_def usize_max_def i64_max_def)
  have bnd: "int offset \<le> i64_max" using fit(1) by simp
  have "read_chunks load offset (offset + len) len ?in [] = Inr (take len (drop offset content))"
    using read_chunks_tiled [OF refl len tl, of "[]" offset] fit(2)
    by (simp add: usize_max_def i64_max_def)
  moreover have "?in = [] \<longleftrightarrow> length content \<le> offset"
    using tiled_in_range [OF tl, of offset "offset + len"] len by auto
  ultimately show ?thesis
    using rv add bnd fit(1) len
    by (auto simp: read_range_def range_chunks_filter not_less Let_def simp del: of_nat_add split: option.splits)
qed

text \<open>
  C6: a byte range is read exactly. If the chunks of a revision tile its content, reading \<open>len\<close> bytes
  at an offset inside the file gives exactly these bytes (fewer at the end of the file), and so do the
  pieces of the streaming variant joined in order; a range that starts past the end is refused.
\<close>

theorem read_range_exact:
  assumes rv: "get_file_revision s i rv \<noteq> None"
    and tl: "tiled load 0 (chunk_locations s
      (refs_of_revisions s (\<lambda>r. fr_inode_id r = i \<and> fr_revision_id r = rv))) content"
    and len: "0 < len" and fit: "int (offset + len) \<le> i64_max" "int (length content) \<le> i64_max"
  shows "(offset < length content \<longrightarrow>
      read_range s load i rv offset len = Inr (take len (drop offset content)) \<and>
      (\<exists>calls. read_range_streamed s load i rv offset len = Inr calls \<and>
         concat (map snd calls) = take len (drop offset content))) \<and>
    (length content \<le> offset \<longrightarrow> read_range s load i rv offset len = Inl (DE_NoChunksForInode i))"
proof -
  let ?in = "filter (in_range offset (offset + len)) (chunk_locations s
      (refs_of_revisions s (\<lambda>r. fr_inode_id r = i \<and> fr_revision_id r = rv)))"
  have "read_chunks load offset (offset + len) len ?in [] = Inr (take len (drop offset content))"
    using read_chunks_tiled [OF refl len tl, of "[]" offset] fit(2) by (simp add: usize_max_def i64_max_def)
  then obtain calls where "stream_chunks load offset (offset + len) len ?in 0 = Inr calls"
    "concat (map snd calls) = take len (drop offset content)"
    using read_chunks_stream [of load offset "offset + len" len ?in "[]"] by (auto simp: bindR_eq_Inr dest: sym)
  moreover have "?in = [] \<longleftrightarrow> length content \<le> offset"
    using tiled_in_range [OF tl, of offset "offset + len"] len by auto
  ultimately show ?thesis
    using rv fit(1) len read_range_tiled [OF rv tl len fit]
    by (auto simp: read_range_streamed_def range_chunks_filter not_less Let_def usize_checked_add_def usize_max_def i64_max_def
        simp del: of_nat_add split: option.splits)
qed

definition two_chunks_load :: "FileChunkLocation \<Rightarrow> DownloaderError + bytes" where
  "two_chunks_load l = Inr (if fcl_file_offset l = 0 then [0, 1, 2, 3, 4, 5, 6, 7, 8, 9]
     else [10, 11, 12, 13, 14, 15, 16, 17, 18, 19])"

lemma two_chunks_locations: "map (\<lambda>l. (fcl_file_offset l, fcl_size l)) (chunk_locations two_chunks_db
    (refs_of_revisions two_chunks_db (\<lambda>r. fr_inode_id r = 1 \<and> fr_revision_id r = 3))) = [(0, 10), (10, 10)]"
  by (simp add: refs_of_revisions_def chunk_locations_def ordered_chunks_def join_location_def two_chunks_db_def
      revision_db_def sample_revision_def)

theorem read_range_exact_witness:
  "read_range two_chunks_db two_chunks_load 1 3 8 4 = Inr [8, 9, 10, 11]"
proof -
  let ?c = "[0, 1, 2, 3, 4, 5, 6, 7, 8, 9, 10, 11, 12, 13, 14, 15, 16, 17, 18, 19] :: bytes"
  let ?ls = "chunk_locations two_chunks_db
      (refs_of_revisions two_chunks_db (\<lambda>r. fr_inode_id r = 1 \<and> fr_revision_id r = 3))"
  obtain l1 l2 where "?ls = [l1, l2]" "fcl_file_offset l1 = 0" "fcl_size l1 = 10"
    "fcl_file_offset l2 = 10" "fcl_size l2 = 10"
    using two_chunks_locations by (auto simp: map_eq_Cons_conv)
  then have "tiled two_chunks_load 0 ?ls ?c" by (simp add: two_chunks_load_def)
  moreover have "get_file_revision two_chunks_db 1 3 \<noteq> None"
    by (simp add: get_file_revision_def two_chunks_db_def revision_db_def sample_revision_def)
  ultimately show ?thesis
    using read_range_exact [of two_chunks_db 1 3 two_chunks_load ?c 4 8] by (simp add: i64_max_def)
qed

end
