(* ===== verification/Repair.thy ===== *)
theory Repair
  imports Uploader Downloader Inodes
begin

text \<open>
  The repair worker (\<^verbatim>\<open>repair.rs\<close>): it rebuilds the missing shard of a degraded pack from the two that are stored, and
  moves a pack whose storage mode is not the one its files ask for into a new pack. \<open>RE_Panic\<close> is an index out of range;
  \<open>RE_NoReturn\<close> stands for a call that does not return, which needs a cycle of directories. The circuit breaker, the
  network and the file system are those of \<open>CloudWorld\<close>. Log lines and worker diagnostics are left out.
\<close>

definition REPAIR_MAX_RETRY_DELAY :: int where "REPAIR_MAX_RETRY_DELAY = 3600000"

datatype RepairError = RE_MissingProviderConfig | RE_InvalidEnv string | RE_Io | RE_Db sqlx_error | RE_ErasureCoding
  | RE_Timeout string | RE_Provider string string string | RE_MissingShardRecord string | RE_InvalidShardLayout string
  | RE_ShardChecksumMismatch string int | RE_NumericOverflow string | RE_Packer string | RE_Panic string | RE_NoReturn

fun RepairError_text :: "RepairError \<Rightarrow> string" where
  "RepairError_text RE_MissingProviderConfig = ''no repair providers configured''"
| "RepairError_text (RE_InvalidEnv key) = ''invalid environment variable '' @ key"
| "RepairError_text RE_Io = ''i/o error''"
| "RepairError_text (RE_Db _) = ''sqlite error''"
| "RepairError_text RE_ErasureCoding = ''erasure coding error''"
| "RepairError_text (RE_Timeout provider) = ''repair operation to '' @ provider @ '' timed out''"
| "RepairError_text (RE_Provider provider operation details) = provider @ '' '' @ operation @ '' failed: '' @ details"
| "RepairError_text (RE_MissingShardRecord reason) = ''missing shard record: '' @ reason"
| "RepairError_text (RE_InvalidShardLayout pack_id) = ''invalid shard layout for pack '' @ pack_id"
| "RepairError_text (RE_ShardChecksumMismatch pack_id i) =
     ''checksum mismatch for pack '' @ pack_id @ '' shard '' @ show_i64 i @ ''; refusing to rebuild from unverified data''"
| "RepairError_text (RE_NumericOverflow ctx) = ''numeric overflow while handling '' @ ctx"
| "RepairError_text (RE_Packer message) = ''packer error: '' @ message"
| "RepairError_text (RE_Panic message) = message"
| "RepairError_text RE_NoReturn = ''''"

text \<open>The worker, with what it calls outside the repository and the moment it runs.\<close>

record RepairWorker =
  rw_sha256 :: "bytes \<Rightarrow> bytes"
  rw_rs :: rs_prims
  rw_config :: AppConfig
  rw_net :: net
  rw_providers :: "string \<Rightarrow> string option"
  rw_retry_delay :: nat
  rw_now :: int

type_synonym 'a repair = "world \<Rightarrow> (RepairError + 'a) \<times> world"

definition rep_usize :: "int \<Rightarrow> string \<Rightarrow> nat repair" where
  "rep_usize v ctx = liftW (if v < 0 then Inl (RE_NumericOverflow ctx) else Inr (nat v))"

definition rep_provider :: "RepairWorker \<Rightarrow> string \<Rightarrow> string \<Rightarrow> string repair" where
  "rep_provider W provider message = liftW (ok_or (RE_InvalidEnv message) (rw_providers W provider))"

definition rep_write :: "RepairWorker \<Rightarrow> string \<Rightarrow> bytes \<Rightarrow> RepairError \<Rightarrow> unit repair" where
  "rep_write W name bs err w =
     (case write_ephemeral_bytes (rw_net W) name bs w of (done, w') \<Rightarrow> (if done then Inr () else Inl err, w'))"

definition ensure_shard_checksum :: "(bytes \<Rightarrow> bytes) \<Rightarrow> string \<Rightarrow> int \<Rightarrow> bytes \<Rightarrow> string \<Rightarrow> RepairError + unit" where
  "ensure_shard_checksum sha256 pack_id shard_index bs expected_checksum =
     (if hex_sha256 sha256 bs = expected_checksum then Inr () else Inl (RE_ShardChecksumMismatch pack_id shard_index))"

definition rep_get_object :: "RepairWorker \<Rightarrow> string \<Rightarrow> string \<Rightarrow> bytes repair" where
  "rep_get_object W provider key w =
     (case get_object (rw_net W) w provider key of
        Inr bs \<Rightarrow> (Inr bs, w)
      | Inl FaultTimeout \<Rightarrow> (Inl (RE_Timeout provider), w)
      | Inl (FaultError details) \<Rightarrow> (Inl (RE_Provider provider ''get_object'' details), w))"

definition rep_authorize_read :: "RepairWorker \<Rightarrow> string \<Rightarrow> int \<Rightarrow> unit repair" where
  "rep_authorize_read W provider estimated_size w =
     (case try_authorize_read (rw_config W) (rw_now W) (wd_guard w) (max estimated_size 0) of
        (Inr _, g) \<Rightarrow> (Inr (), w\<lparr>wd_guard := g\<rparr>)
      | (Inl reason, g) \<Rightarrow>
          (Inl (RE_Provider provider ''get_object'' (''cloud guard blocked read: '' @ reason)), w\<lparr>wd_guard := g\<rparr>))"

text \<open>A correction of the counters that fails is only logged.\<close>

definition rep_reconcile_bytes :: "RepairWorker \<Rightarrow> int \<Rightarrow> nat \<Rightarrow> unit repair" where
  "rep_reconcile_bytes W estimated_size actual w =
     (let delta = i64_saturating_sub (min (int actual) i64_max) (max estimated_size 0)
      in (Inr (), if delta \<noteq> 0 then w\<lparr>wd_guard := snd (reconcile_read_bytes (rw_now W) (wd_guard w) delta)\<rparr> else w))"

definition rep_download_shard :: "RepairWorker \<Rightarrow> string \<Rightarrow> string \<Rightarrow> string \<Rightarrow> int \<Rightarrow> int \<Rightarrow> string \<Rightarrow> bytes repair" where
  "rep_download_shard W provider object_key pack_id shard_index estimated_size expected_checksum =
     bindW (rep_authorize_read W provider estimated_size) (\<lambda>_.
     bindW (rep_get_object W provider object_key) (\<lambda>bs.
     bindW (rep_reconcile_bytes W estimated_size (length bs)) (\<lambda>_.
     bindW (liftW (ensure_shard_checksum (rw_sha256 W) pack_id shard_index bs expected_checksum)) (\<lambda>_.
     bindW (rep_usize shard_index ''repair shard index'') (\<lambda>i.
     bindW (rep_write W (local_shard_name pack_id i) bs RE_Io) (\<lambda>_.
     returnW bs))))))"

definition rep_upload_shard :: "RepairWorker \<Rightarrow> string \<Rightarrow> string \<Rightarrow> bytes \<Rightarrow> string \<Rightarrow> nat \<Rightarrow> (string option \<times> string option) repair" where
  "rep_upload_shard W provider object_key bs pack_id shard_index =
     bindW (rep_write W (local_shard_name pack_id shard_index) bs RE_Io) (\<lambda>_ w.
       case put_object (rw_net W) w provider object_key bs of
         (Inr r, w') \<Rightarrow> (Inr r, w')
       | (Inl FaultTimeout, w') \<Rightarrow> (Inl (RE_Timeout provider), w')
       | (Inl (FaultError details), w') \<Rightarrow> (Inl (RE_Provider provider ''put_object'' details), w'))"

text \<open>The shards marked as stored, fetched one after the other; every one of them has to arrive.\<close>

fun download_completed :: "RepairWorker \<Rightarrow> PackRecord \<Rightarrow> nat \<Rightarrow> PackShardRecord list \<Rightarrow> bytes option list \<Rightarrow> bytes option list repair" where
  "download_completed W pack shard_len [] slots = returnW slots"
| "download_completed W pack shard_len (sh # shs) slots =
     bindW (rep_provider W (sh_provider sh) ''repair provider not configured'') (\<lambda>_.
     bindW (rep_download_shard W (sh_provider sh) (sh_object_key sh) (pk_pack_id pack) (sh_shard_index sh)
              (pk_shard_size pack) (sh_checksum sh)) (\<lambda>bs.
     if length bs \<noteq> shard_len then failW (RE_InvalidShardLayout (pk_pack_id pack))
     else bindW (rep_usize (sh_shard_index sh) ''completed shard index'') (\<lambda>i.
       if length slots \<le> i then failW (RE_Panic ''index out of bounds'')
       else download_completed W pack shard_len shs (slots[i := Some bs]))))"

definition rep_reconstruct :: "RepairWorker \<Rightarrow> bytes option list \<Rightarrow> bytes option list repair" where
  "rep_reconstruct W slots = liftW (ok_or RE_ErasureCoding (rs_reconstruct (rw_rs W) slots))"

section \<open>Rebuilding the missing shard\<close>

definition rep_on_job :: "string \<Rightarrow> (UploadJob \<Rightarrow> db \<Rightarrow> db) \<Rightarrow> db \<Rightarrow> db" where
  "rep_on_job pack_id f s = (case get_upload_job_by_pack_id s pack_id of Some job \<Rightarrow> f job s | None \<Rightarrow> s)"

text \<open>An upload that failed: the shard and its target go back to the queue, and the error is the result.\<close>

definition requeue_repair :: "RepairWorker \<Rightarrow> string \<Rightarrow> PackShardRecord \<Rightarrow> RepairError \<Rightarrow> unit repair" where
  "requeue_repair W pack_id missing err w =
     (case requeue_pack_shard (wd_db w) pack_id (sh_shard_index missing) (RepairError_text err) of
        (Inl e, s1) \<Rightarrow> (Inl (RE_Db e), w\<lparr>wd_db := s1\<rparr>)
      | (Inr _, s1) \<Rightarrow>
          (case get_upload_job_by_pack_id s1 pack_id of
             None \<Rightarrow> (Inl err, w\<lparr>wd_db := s1\<rparr>)
           | Some job \<Rightarrow>
               (case requeue_upload_target s1 (rw_now W) (uj_id job) (sh_provider missing) (RepairError_text err) of
                  (Inl e, s2) \<Rightarrow> (Inl (RE_Db e), w\<lparr>wd_db := s2\<rparr>)
                | (Inr _, s2) \<Rightarrow> (Inl err, w\<lparr>wd_db := s2\<rparr>))))"

definition finish_repair :: "RepairWorker \<Rightarrow> string \<Rightarrow> string \<Rightarrow> PackShardRecord \<Rightarrow> string option \<times> string option \<Rightarrow> db \<Rightarrow> db" where
  "finish_repair W pack_id bucket missing uploaded s =
     rep_on_job pack_id (\<lambda>job s'. mark_upload_job_completed
         (mark_upload_target_completed s' (rw_now W) (uj_id job) (sh_provider missing) bucket (sh_object_key missing)
            (fst uploaded) (snd uploaded)) (uj_id job))
       (update_pack_status (mark_pack_shard_completed s pack_id (sh_shard_index missing)) pack_id Healthy)"

definition upload_rebuilt :: "RepairWorker \<Rightarrow> string \<Rightarrow> string \<Rightarrow> PackShardRecord \<Rightarrow> nat \<Rightarrow> bytes \<Rightarrow> unit repair" where
  "upload_rebuilt W pack_id bucket missing missing_index rebuilt =
     bindW (modify_db (\<lambda>s. rep_on_job pack_id (\<lambda>job s'. mark_upload_target_in_progress s' (rw_now W) (uj_id job) (sh_provider missing))
              (mark_pack_shard_in_progress s pack_id (sh_shard_index missing)))) (\<lambda>_ w.
       case rep_upload_shard W (sh_provider missing) (sh_object_key missing) rebuilt pack_id missing_index w of
         (Inr uploaded, w1) \<Rightarrow> modify_db (finish_repair W pack_id bucket missing uploaded) w1
       | (Inl err, w1) \<Rightarrow> requeue_repair W pack_id missing err w1)"

definition rebuild_missing :: "RepairWorker \<Rightarrow> PackRecord \<Rightarrow> PackShardRecord list \<Rightarrow> PackShardRecord \<Rightarrow> unit repair" where
  "rebuild_missing W pack completed missing =
     bindW (rep_usize (sh_shard_index missing) ''missing shard index'') (\<lambda>missing_index.
     bindW (rep_usize (pk_shard_size pack) ''pack shard size'') (\<lambda>shard_len.
     bindW (download_completed W pack shard_len completed (replicate TOTAL_SHARDS None)) (\<lambda>slots.
     bindW (rep_reconstruct W slots) (\<lambda>full.
     if length full \<le> missing_index then failW (RE_Panic ''index out of bounds'')
     else bindW (liftW (ok_or (RE_MissingShardRecord ''reconstructed shard missing'') (full ! missing_index))) (\<lambda>rebuilt.
     bindW (rep_provider W (sh_provider missing) ''missing shard provider not configured'') (\<lambda>bucket.
     upload_rebuilt W (pk_pack_id pack) bucket missing missing_index rebuilt))))))"

definition repair_pack :: "RepairWorker \<Rightarrow> PackRecord \<Rightarrow> unit repair" where
  "repair_pack W pack w =
     (if StorageMode_from_str (pk_storage_mode pack) \<noteq> Ec2_1 then (Inr (), w)
      else
        let shards = get_pack_shards (wd_db w) (pk_pack_id pack);
            status = resolve_pack_status_for_mode Ec2_1 (summarize_pack_shards (wd_db w) (pk_pack_id pack));
            completed = filter (\<lambda>sh. sh_status sh = ''COMPLETED'') shards
        in if length shards \<noteq> TOTAL_SHARDS then (Inl (RE_InvalidShardLayout (pk_pack_id pack)), w)
           else if status = Healthy then (Inr (), w)
           else if status = Unreadable \<or> length completed < DATA_SHARDS
           then modify_db (\<lambda>s. update_pack_status s (pk_pack_id pack) Unreadable) w
           else bindW (liftW (ok_or (RE_MissingShardRecord ''no missing shard'')
                         (find (\<lambda>sh. sh_status sh \<noteq> ''COMPLETED'') shards)))
                  (rebuild_missing W pack completed) w)"

section \<open>Moving a pack to another storage mode\<close>

definition load_ec_ciphertext :: "RepairWorker \<Rightarrow> PackRecord \<Rightarrow> bytes repair" where
  "load_ec_ciphertext W pack =
     bindW (query_db (\<lambda>s. filter (\<lambda>sh. sh_status sh = ''COMPLETED'') (get_pack_shards s (pk_pack_id pack)))) (\<lambda>completed.
     bindW (rep_usize (pk_shard_size pack) ''pack shard size'') (\<lambda>shard_len.
     bindW (download_completed W pack shard_len completed (replicate TOTAL_SHARDS None)) (\<lambda>slots.
     if length completed < DATA_SHARDS then failW (RE_InvalidShardLayout (pk_pack_id pack))
     else bindW (rep_reconstruct W slots) (\<lambda>full.
     bindW (rep_usize (pk_cipher_size pack) ''cipher size'') (\<lambda>cipher_size.
     if list_ex (\<lambda>x. x = None) (take DATA_SHARDS full) then failW (RE_MissingShardRecord ''reconstructed data shard missing'')
     else returnW (take cipher_size (concat (map the (take DATA_SHARDS full)))))))))"

definition load_single_replica_ciphertext :: "RepairWorker \<Rightarrow> PackRecord \<Rightarrow> bytes repair" where
  "load_single_replica_ciphertext W pack =
     bindW (query_db (\<lambda>s. find (\<lambda>sh. sh_status sh = ''COMPLETED'') (get_pack_shards s (pk_pack_id pack)))) (\<lambda>found.
     bindW (liftW (ok_or (RE_MissingShardRecord ''single replica shard missing'') found)) (\<lambda>sh.
     bindW (rep_provider W (sh_provider sh) ''single replica provider not configured'') (\<lambda>_.
     rep_download_shard W (sh_provider sh) (sh_object_key sh) (pk_pack_id pack) (sh_shard_index sh) (pk_shard_size pack) (sh_checksum sh))))"

definition rep_read :: "string \<Rightarrow> bytes repair" where
  "rep_read name w = (ok_or RE_Io (wd_spool w name), w)"

definition load_local_only_ciphertext :: "RepairWorker \<Rightarrow> PackRecord \<Rightarrow> bytes repair" where
  "load_local_only_ciphertext W pack =
     bindW (rep_read (local_pack_name (pk_pack_id pack))) (\<lambda>bs.
     bindW (rep_usize (pk_cipher_size pack) ''cipher size'') (\<lambda>cipher_size.
     bindW (liftW (ok_or (RE_NumericOverflow ''cipher range'') (usize_checked_add ChunkRecordPrefix_SIZE cipher_size))) (\<lambda>e.
     if length bs < e then failW (RE_InvalidShardLayout (pk_pack_id pack)) else returnW (slice bs ChunkRecordPrefix_SIZE e))))"

definition load_ciphertext_for_pack :: "RepairWorker \<Rightarrow> PackRecord \<Rightarrow> bytes repair" where
  "load_ciphertext_for_pack W pack =
     (case StorageMode_from_str (pk_storage_mode pack) of
        Ec2_1 \<Rightarrow> load_ec_ciphertext W pack
      | SingleReplica \<Rightarrow> load_single_replica_ciphertext W pack
      | LocalOnly \<Rightarrow> load_local_only_ciphertext W pack)"

definition rep_fixed :: "nat \<Rightarrow> bytes \<Rightarrow> string \<Rightarrow> bytes repair" where
  "rep_fixed n bs field =
     liftW (if length bs = n then Inr bs else Inl (RE_Packer (''invalid stored '' @ field @ '' length'')))"

fun rep_write_all :: "RepairWorker \<Rightarrow> (string \<times> bytes) list \<Rightarrow> unit repair" where
  "rep_write_all W [] = returnW ()"
| "rep_write_all W ((name, bs) # fs) = bindW (rep_write W name bs (RE_Packer ''i/o'')) (\<lambda>_. rep_write_all W fs)"

definition rep_build_shards :: "RepairWorker \<Rightarrow> string \<Rightarrow> bytes \<Rightarrow> StorageMode \<Rightarrow> PreparedShard list repair" where
  "rep_build_shards W pack_id ciphertext mode =
     bindW (liftW (map_err (\<lambda>_. RE_Packer ''shards'') (build_shards (rw_rs W) (rw_sha256 W) pack_id ciphertext mode))) (\<lambda>(ps, files).
     bindW (rep_write_all W files) (\<lambda>_. returnW ps))"

fun register_prepared :: "string \<Rightarrow> PreparedShard list \<Rightarrow> unit repair" where
  "register_prepared pack_id [] = returnW ()"
| "register_prepared pack_id (p # ps) = (\<lambda>w.
     case register_pack_shard (wd_db w) pack_id (ps_shard_index p) (ps_shard_role p) (ps_provider p) (ps_object_key p)
            (ps_size p) (ps_checksum p) ''PENDING'' of
       Inl e \<Rightarrow> (Inl (RE_Db e), w)
     | Inr s \<Rightarrow> register_prepared pack_id ps (w\<lparr>wd_db := s\<rparr>))"

definition upload_new_shard :: "RepairWorker \<Rightarrow> StorageMode \<Rightarrow> string \<Rightarrow> PackShardRecord \<Rightarrow> unit repair" where
  "upload_new_shard W mode pack_id sh =
     bindW (rep_provider W (sh_provider sh) ''reconcile provider not configured'') (\<lambda>_.
     bindW (rep_usize (sh_shard_index sh) ''reconcile shard index'') (\<lambda>i.
     bindW (rep_read (local_shard_name pack_id i)) (\<lambda>bs.
     bindW (modify_db (\<lambda>s. mark_pack_shard_in_progress s pack_id (sh_shard_index sh))) (\<lambda>_ w.
       case rep_upload_shard W (sh_provider sh) (sh_object_key sh) bs pack_id i w of
         (Inr _, w1) \<Rightarrow> modify_db (\<lambda>s. mark_pack_shard_completed s pack_id (sh_shard_index sh)) w1
       | (Inl err, w1) \<Rightarrow>
           (case requeue_pack_shard (wd_db w1) pack_id (sh_shard_index sh) (RepairError_text err) of
              (Inl e, s) \<Rightarrow> (Inl (RE_Db e), w1\<lparr>wd_db := s\<rparr>)
            | (Inr _, s) \<Rightarrow> (Inl err, snd (settle_status mode pack_id (w1\<lparr>wd_db := s\<rparr>))))))))"

fun upload_new_shards :: "RepairWorker \<Rightarrow> StorageMode \<Rightarrow> string \<Rightarrow> PackShardRecord list \<Rightarrow> unit repair" where
  "upload_new_shards W mode pack_id [] = returnW ()"
| "upload_new_shards W mode pack_id (sh # shs) = bindW (upload_new_shard W mode pack_id sh) (\<lambda>_. upload_new_shards W mode pack_id shs)"

text \<open>The new pack: its manifest and shards in the spool, its row, and the rows of its shards if it has none yet.\<close>

definition prepare_new_pack :: "RepairWorker \<Rightarrow> PackRecord \<Rightarrow> StorageMode \<Rightarrow> (string \<times> int) repair" where
  "prepare_new_pack W pack desired =
     bindW (load_ciphertext_for_pack W pack) (\<lambda>ciphertext.
     bindW (rep_fixed 32 (pk_chunk_id pack) ''chunk_id'') (\<lambda>cid.
     bindW (rep_fixed 12 (pk_nonce pack) ''nonce'') (\<lambda>nonce.
     bindW (rep_fixed 16 (pk_gcm_tag pack) ''gcm_tag'') (\<lambda>gcm_tag.
     bindW (rep_usize (pk_logical_size pack) ''logical size'') (\<lambda>logical_size.
     let manifest = build_manifest_bytes cid nonce ciphertext gcm_tag logical_size;
         new_pack_id = compute_pack_id (rw_sha256 W) desired manifest in
     bindW (rep_write W (local_pack_name new_pack_id) manifest RE_Io) (\<lambda>_.
     bindW (rep_build_shards W new_pack_id ciphertext desired) (\<lambda>prepared.
     bindW (liftW (map_err (\<lambda>_. RE_NumericOverflow ''manifest size'') (to_i64 (length manifest) ''manifest size''))) (\<lambda>manifest_size.
     bindW (modify_db (\<lambda>s. create_pack s new_pack_id (pk_chunk_id pack) (coalesce (pk_plaintext_hash pack) []) desired 1
              (storage_mode_scheme desired) (pk_logical_size pack) (pk_cipher_size pack)
              (case prepared of [] \<Rightarrow> 0 | p # _ \<Rightarrow> ps_size p) (pk_nonce pack) (pk_gcm_tag pack)
              (if desired = LocalOnly then Healthy else Uploading))) (\<lambda>_.
     bindW (\<lambda>w. if desired \<noteq> LocalOnly \<and> get_pack_shards (wd_db w) new_pack_id = []
                then register_prepared new_pack_id prepared w else (Inr (), w)) (\<lambda>_.
     returnW (new_pack_id, manifest_size)))))))))))"

definition reconcile_to :: "RepairWorker \<Rightarrow> PackRecord \<Rightarrow> StorageMode \<Rightarrow> unit repair" where
  "reconcile_to W pack desired =
     bindW (prepare_new_pack W pack desired) (\<lambda>(new_pack_id, manifest_size).
     let swap = (\<lambda>s. link_chunk_to_pack s (pk_chunk_id pack) new_pack_id 0 manifest_size) in
     if desired = LocalOnly then modify_db (\<lambda>s. swap (update_pack_status s new_pack_id Healthy))
     else bindW (query_db (\<lambda>s. get_incomplete_pack_shards s new_pack_id)) (\<lambda>pending.
          bindW (upload_new_shards W desired new_pack_id pending) (\<lambda>_ w.
            case settle_status desired new_pack_id w of
              (status, w') \<Rightarrow> (if status = Healthy then modify_db swap w' else (Inr (), w')))))"

definition reconcile_pack_mode :: "RepairWorker \<Rightarrow> PackRecord \<Rightarrow> unit repair" where
  "reconcile_pack_mode W pack =
     bindW (query_db (\<lambda>s. get_desired_storage_mode_for_pack s (pk_pack_id pack))) (\<lambda>found.
     bindW (liftW (ok_or RE_NoReturn found)) (\<lambda>desired.
     if StorageMode_from_str (pk_storage_mode pack) = desired then returnW () else reconcile_to W pack desired))"

section \<open>The worker's loop and the batches\<close>

definition defer_pack :: "RepairWorker \<Rightarrow> string \<Rightarrow> int repair" where
  "defer_pack W pack_id w =
     (case defer_pack_repair (wd_db w) (rw_now W) pack_id (min (int (rw_retry_delay W)) i64_max) REPAIR_MAX_RETRY_DELAY of
        (attempts, s) \<Rightarrow> (Inr attempts, w\<lparr>wd_db := s\<rparr>))"

text \<open>A failed repair is deferred; a successful one clears the backoff. The second component says whether there was work.\<close>

definition after_repair :: "RepairWorker \<Rightarrow> string \<Rightarrow> (RepairError + unit) \<times> world \<Rightarrow> world" where
  "after_repair W pack_id r =
     (case r of
        (Inr _, w) \<Rightarrow> with_db (\<lambda>s. clear_pack_repair_backoff s pack_id) w
      | (Inl _, w) \<Rightarrow> snd (defer_pack W pack_id w))"

definition repair_worker_turn :: "RepairWorker \<Rightarrow> bool repair" where
  "repair_worker_turn W w =
     (case get_next_pack_requiring_reconciliation (wd_db w) (rw_now W) of
        None \<Rightarrow> (Inl RE_NoReturn, w)
      | Some (Some pack) \<Rightarrow> (Inr True, after_repair W (pk_pack_id pack) (reconcile_pack_mode W pack w))
      | Some None \<Rightarrow>
          (case get_next_degraded_pack (wd_db w) (rw_now W) of
             None \<Rightarrow> (Inr False, w)
           | Some pack \<Rightarrow>
               (case pack_requires_healthy (wd_db w) (pk_pack_id pack) of
                  None \<Rightarrow> (Inl RE_NoReturn, w)
                | Some False \<Rightarrow> (Inr False, snd (defer_pack W (pk_pack_id pack) w))
                | Some True \<Rightarrow> (Inr True, after_repair W (pk_pack_id pack) (repair_pack W pack w)))))"

datatype RepairBatchMode = RepairOnly | ReconcileOnly

record RepairBatchReport =
  rb_processed_packs :: nat
  rb_repaired_packs :: nat
  rb_reconciled_packs :: nat

datatype batch_step = Stop | Next "string list" RepairBatchReport

definition repair_batch_step :: "RepairWorker \<Rightarrow> RepairBatchMode \<Rightarrow> string list \<Rightarrow> RepairBatchReport \<Rightarrow> batch_step repair" where
  "repair_batch_step W mode visited report w =
     (case mode of
        ReconcileOnly \<Rightarrow>
          (case get_next_pack_requiring_reconciliation (wd_db w) (rw_now W) of
             None \<Rightarrow> (Inl RE_NoReturn, w)
           | Some None \<Rightarrow> (Inr Stop, w)
           | Some (Some pack) \<Rightarrow>
               if pk_pack_id pack \<in> set visited then (Inr Stop, w)
               else bindW (reconcile_pack_mode W pack) (\<lambda>_. returnW (Next (pk_pack_id pack # visited)
                 (report\<lparr>rb_processed_packs := rb_processed_packs report + 1,
                         rb_reconciled_packs := rb_reconciled_packs report + 1\<rparr>))) w)
      | RepairOnly \<Rightarrow>
          (case get_next_degraded_pack (wd_db w) (rw_now W) of
             None \<Rightarrow> (Inr Stop, w)
           | Some pack \<Rightarrow>
               if pk_pack_id pack \<in> set visited then (Inr Stop, w)
               else (case pack_requires_healthy (wd_db w) (pk_pack_id pack) of
                       None \<Rightarrow> (Inl RE_NoReturn, w)
                     | Some False \<Rightarrow> (Inr (Next (pk_pack_id pack # visited) report), w)
                     | Some True \<Rightarrow>
                         bindW (repair_pack W pack) (\<lambda>_. returnW (Next (pk_pack_id pack # visited)
                           (report\<lparr>rb_processed_packs := rb_processed_packs report + 1,
                                   rb_repaired_packs := rb_repaired_packs report + 1\<rparr>))) w)))"

text \<open>The loop of a batch; a batch that does not end has no result.\<close>

partial_function (option) repair_batch ::
  "RepairWorker \<Rightarrow> RepairBatchMode \<Rightarrow> string list \<Rightarrow> RepairBatchReport \<Rightarrow> world \<Rightarrow> ((RepairError + RepairBatchReport) \<times> world) option" where
  "repair_batch W mode visited report w =
     (case repair_batch_step W mode visited report w of
        (Inl e, w') \<Rightarrow> Some (Inl e, w')
      | (Inr Stop, w') \<Rightarrow> Some (Inr report, w')
      | (Inr (Next visited' report'), w') \<Rightarrow> repair_batch W mode visited' report' w')"

definition run_batch_now :: "RepairWorker \<Rightarrow> RepairBatchMode \<Rightarrow> world \<Rightarrow> ((RepairError + RepairBatchReport) \<times> world) option" where
  "run_batch_now W mode w =
     repair_batch W mode [] \<lparr>rb_processed_packs = 0, rb_repaired_packs = 0, rb_reconciled_packs = 0\<rparr> w"

section \<open>Only verified shards are used, only the missing shard is written\<close>

text \<open>What a download changes: the counters of the circuit breaker and the spool.\<close>

definition quiet :: "world \<Rightarrow> world \<Rightarrow> bool" where
  "quiet w w' \<longleftrightarrow> wd_db w' = wd_db w \<and> wd_cloud w' = wd_cloud w"

lemma quiet_refl [simp]: "quiet w w"
  by (simp add: quiet_def)

lemma quiet_trans: "quiet w w1 \<Longrightarrow> quiet w1 w2 \<Longrightarrow> quiet w w2"
  by (simp add: quiet_def)

lemma rep_write_quiet: "rep_write W name bs err w = (r, w') \<Longrightarrow> quiet w w'"
  by (auto simp: rep_write_def write_ephemeral_bytes_def set_spool_def quiet_def split: file_outcome.splits)

lemma rep_download_shard_ok:
  assumes "rep_download_shard W provider key pid i est checksum w = (r, w')"
  shows "quiet w w' \<and> (\<forall>bs. r = Inr bs \<longrightarrow> wd_cloud w provider key = Some bs \<and> hex_sha256 (rw_sha256 W) bs = checksum)"
proof -
  have authorize: "rep_authorize_read W provider est w = (x, w1) \<Longrightarrow> quiet w w1" for x w1
    by (auto simp: rep_authorize_read_def quiet_def split: prod.splits sum.splits)
  have get: "rep_get_object W provider key w1 = (x, w2) \<Longrightarrow> w2 = w1 \<and> (\<forall>bs. x = Inr bs \<longrightarrow> wd_cloud w1 provider key = Some bs)"
    for x w1 w2
    by (auto simp: rep_get_object_def get_object_def split: sum.splits net_fault.splits option.splits)
  have count: "rep_reconcile_bytes W est k w1 = (x, w2) \<Longrightarrow> quiet w1 w2" for k x w1 w2
    by (auto simp: rep_reconcile_bytes_def quiet_def Let_def split: if_splits)
  show ?thesis
    using assms unfolding rep_download_shard_def rep_usize_def ensure_shard_checksum_def
    by (elim bindW_cases; auto simp: liftW_def returnW_def quiet_def split: if_splits
        dest!: authorize get count rep_write_quiet)
qed

definition no_collision :: "(bytes \<Rightarrow> bytes) \<Rightarrow> bytes list \<Rightarrow> world \<Rightarrow> bool" where
  "no_collision sha256 enc w \<longleftrightarrow> (\<forall>provider key bs x. wd_cloud w provider key = Some bs \<and> x \<in> set enc \<and>
     hex_sha256 sha256 bs = hex_sha256 sha256 x \<longrightarrow> bs = x)"

definition codes :: "(bytes \<Rightarrow> bytes) \<Rightarrow> bytes list \<Rightarrow> PackShardRecord \<Rightarrow> bool" where
  "codes sha256 enc r \<longleftrightarrow> 0 \<le> sh_shard_index r \<and> nat (sh_shard_index r) < length enc \<and>
     sh_checksum r = hex_sha256 sha256 (enc ! nat (sh_shard_index r))"

lemma download_completed_ok:
  assumes "download_completed W pack L shs slots w = (r, w')" and "list_all (codes (rw_sha256 W) enc) shs"
    and "no_collision (rw_sha256 W) enc w" and "agrees_with enc slots"
    and "distinct (map sh_shard_index shs)" and "\<And>sh. sh \<in> set shs \<Longrightarrow> slots ! nat (sh_shard_index sh) = None"
  shows "quiet w w' \<and> (\<forall>slots'. r = Inr slots' \<longrightarrow> agrees_with enc slots' \<and> present slots' = present slots + length shs)"
  using assms
proof (induction shs arbitrary: slots w)
  case Nil
  then show ?case by (auto simp: returnW_def)
next
  case (Cons sh shs)
  let ?i = "nat (sh_shard_index sh)"
  from Cons.prems(2) have c: "codes (rw_sha256 W) enc sh" "list_all (codes (rw_sha256 W) enc) shs" by simp_all
  from Cons.prems(1) show ?case unfolding download_completed.simps
  proof (elim bindW_cases)
    fix x w1 bs w2
    assume "rep_provider W (sh_provider sh) ''repair provider not configured'' w = (Inr x, w1)"
    then have w1: "w1 = w" by (simp add: rep_provider_def liftW_def)
    assume d: "rep_download_shard W (sh_provider sh) (sh_object_key sh) (pk_pack_id pack) (sh_shard_index sh)
        (pk_shard_size pack) (sh_checksum sh) w1 = (Inr bs, w2)"
    assume k: "(if length bs \<noteq> L then failW (RE_InvalidShardLayout (pk_pack_id pack))
        else bindW (rep_usize (sh_shard_index sh) ''completed shard index'') (\<lambda>i.
          if length slots \<le> i then failW (RE_Panic ''index out of bounds'')
          else download_completed W pack L shs (slots[i := Some bs]))) w2 = (r, w')"
    from rep_download_shard_ok [OF d] have q: "quiet w w2"
      and bs: "wd_cloud w (sh_provider sh) (sh_object_key sh) = Some bs" "hex_sha256 (rw_sha256 W) bs = sh_checksum sh"
      by (simp_all add: w1)
    have len: "length slots = length enc" using Cons.prems(4) by (simp add: agrees_with_def)
    have "bs = enc ! ?i"
      using Cons.prems(3) bs c(1) by (auto simp: no_collision_def codes_def)
    then have ag: "agrees_with enc (slots[?i := Some bs])"
      using agrees_with_update [OF Cons.prems(4), of ?i] c(1) len by (simp add: codes_def)
    have pr: "present (slots[?i := Some bs]) = Suc (present slots)"
      using Cons.prems(6) c(1) len by (intro present_update) (simp_all add: codes_def)
    have free: "slots[?i := Some bs] ! nat (sh_shard_index x) = None" if x: "x \<in> set shs" for x
    proof -
      from c(2) x have "0 \<le> sh_shard_index x" by (simp add: list_all_iff codes_def)
      moreover from Cons.prems(5) x have "sh_shard_index x \<noteq> sh_shard_index sh" by (auto simp: image_iff)
      ultimately have "nat (sh_shard_index x) \<noteq> ?i" using c(1) by (simp add: codes_def eq_nat_nat_iff)
      with Cons.prems(6) x show ?thesis by simp
    qed
    show ?thesis
    proof (cases "length bs \<noteq> L")
      case True
      with k q show ?thesis by (auto simp: failW_def)
    next
      case False
      with k c(1) len have "download_completed W pack L shs (slots[?i := Some bs]) w2 = (r, w')"
        by (simp add: rep_usize_def codes_def split: if_splits)
      from Cons.IH [OF this c(2) _ ag _ free] Cons.prems(3,5) q pr show ?thesis
        by (auto simp: quiet_def no_collision_def)
    qed
  qed (auto simp: rep_provider_def liftW_def dest!: rep_download_shard_ok)
qed

lemma located_cong:
  "pack_shards (wd_db w') = pack_shards (wd_db w) \<Longrightarrow> wd_cloud w' = wd_cloud w \<Longrightarrow> located sha w' = located sha w"
  using backed_cong [of w' w sha] by (simp add: located_def places_distinct_def)

lemma rep_upload_shard_stores:
  assumes "rep_upload_shard W provider key bs pid i w = (r, w')"
  shows "wd_db w' = wd_db w \<and>
    (isl r \<and> wd_cloud w' = wd_cloud w \<or> wd_cloud w' = wd_cloud (store_object w provider key (Some bs)))"
  using assms unfolding rep_upload_shard_def
  by (elim bindW_cases)
    (auto simp: put_object_def store_object_def quiet_def split: put_outcome.splits net_fault.splits sum.splits dest!: rep_write_quiet)

lemma pack_shards_rep_on_job: "(\<And>job s. pack_shards (f job s) = pack_shards s) \<Longrightarrow> pack_shards (rep_on_job pid f s) = pack_shards s"
  by (simp add: rep_on_job_def split: option.splits)

lemma pack_shards_mark_job [simp]: "pack_shards (mark_upload_job_completed s j) = pack_shards s"
  by (simp add: mark_upload_job_completed_def set_job_status_def)

lemma requeue_repair_books:
  assumes "requeue_repair W pid missing err w = (r, w')"
  shows "isl r \<and> wd_cloud w' = wd_cloud w \<and> books (wd_db w) (wd_db w')"
proof -
  obtain a s1 where 1: "requeue_pack_shard (wd_db w) pid (sh_shard_index missing) (RepairError_text err) = (a, s1)" by force
  have b1: "books (wd_db w) s1" using books_marks(4) [of "wd_db w" pid "sh_shard_index missing"] 1 by (metis snd_conv)
  have b2: "books (wd_db w) s2" if "requeue_upload_target s1 now j q m = (b, s2)" for now j q m b s2
    using pack_shards_targets(6) [of s1 now j q m] that by (intro books_trans [OF b1] books_refl) simp
  show ?thesis
    using assms 1 b1 by (auto simp: requeue_repair_def split: sum.splits option.splits prod.splits dest: b2)
qed

text \<open>The upload of the rebuilt shard: what it may write, and that a success is booked.\<close>

lemma upload_rebuilt_ok:
  assumes u: "upload_rebuilt W (sh_pack_id m) bucket m i bs w = (res, w')"
    and m: "m \<in> set (pack_shards (wd_db w))" and bs: "hex_sha256 sha bs = sh_checksum m"
  shows "same_shards (wd_db w) (wd_db w')" and "located sha w \<Longrightarrow> located sha w'"
    and "wd_cloud w' provider key = wd_cloud w provider key \<or>
      (provider = sh_provider m \<and> key = sh_object_key m \<and> wd_cloud w' provider key = Some bs)"
    and "res = Inr () \<Longrightarrow> pack_shards (wd_db w') = pack_shards (mark_pack_shard_completed
        (mark_pack_shard_in_progress (wd_db w) (sh_pack_id m) (sh_shard_index m)) (sh_pack_id m) (sh_shard_index m)) \<and>
      (\<forall>p \<in> set (packs (wd_db w')). pk_pack_id p = sh_pack_id m \<longrightarrow> pk_status p = ''COMPLETED_HEALTHY'')"
proof -
  define s1 where "s1 = rep_on_job (sh_pack_id m) (\<lambda>job s'. mark_upload_target_in_progress s' (rw_now W) (uj_id job) (sh_provider m))
      (mark_pack_shard_in_progress (wd_db w) (sh_pack_id m) (sh_shard_index m))"
  define w1 where "w1 = w\<lparr>wd_db := s1\<rparr>"
  have s1: "pack_shards s1 = pack_shards (mark_pack_shard_in_progress (wd_db w) (sh_pack_id m) (sh_shard_index m))"
    by (simp add: s1_def pack_shards_rep_on_job)
  have b1: "books (wd_db w) s1" by (rule books_trans [OF books_marks(1) books_refl [OF s1]])
  obtain r w2 where up: "rep_upload_shard W (sh_provider m) (sh_object_key m) bs (sh_pack_id m) i w1 = (r, w2)" by force
  note st = rep_upload_shard_stores [OF up]
  have loc1: "located sha w1" if "located sha w" by (rule located_books [OF that]) (simp_all add: w1_def b1)
  from same_shards_row' [OF books_same [OF b1] m] obtain m1 where m1: "m1 \<in> set (pack_shards s1)" "same_shard m m1" by blast
  have eq: "sh_provider m1 = sh_provider m" "sh_object_key m1 = sh_object_key m" "sh_pack_id m1 = sh_pack_id m"
    "sh_shard_index m1 = sh_shard_index m" "sh_checksum m1 = sh_checksum m"
    using m1(2) by (simp_all add: same_shard_def)
  have loc2: "located sha w2" if "located sha w"
  proof -
    have "located sha (store_object w1 (sh_provider m) (sh_object_key m) (Some bs))"
      using located_store [OF loc1 [OF that], of m1 bs] m1(1) bs by (simp add: eq w1_def)
    with st loc1 [OF that] show ?thesis
      using located_cong [of w2 w1 sha] located_cong [of w2 "store_object w1 (sh_provider m) (sh_object_key m) (Some bs)" sha]
      by (auto simp: store_object_def)
  qed
  have same1: "same_shards (wd_db w) (wd_db w2)" using books_same [OF b1] st by (simp add: w1_def)
  have cl: "wd_cloud w2 provider key = wd_cloud w provider key \<or>
      (provider = sh_provider m \<and> key = sh_object_key m \<and> wd_cloud w2 provider key = Some bs)"
    using st by (auto simp: w1_def store_object_def split: if_splits)
  have run: "(case r of Inr uploaded \<Rightarrow> modify_db (finish_repair W (sh_pack_id m) bucket m uploaded) w2
      | Inl err \<Rightarrow> requeue_repair W (sh_pack_id m) m err w2) = (res, w')"
    using u up by (simp add: upload_rebuilt_def w1_def s1_def)
  have "same_shards (wd_db w) (wd_db w') \<and> (located sha w \<longrightarrow> located sha w') \<and> wd_cloud w' = wd_cloud w2 \<and>
    (res = Inr () \<longrightarrow> pack_shards (wd_db w') = pack_shards (mark_pack_shard_completed
        (mark_pack_shard_in_progress (wd_db w) (sh_pack_id m) (sh_shard_index m)) (sh_pack_id m) (sh_shard_index m)) \<and>
      (\<forall>p \<in> set (packs (wd_db w')). pk_pack_id p = sh_pack_id m \<longrightarrow> pk_status p = ''COMPLETED_HEALTHY''))"
  proof (cases r)
    case (Inl err)
    with run have q: "requeue_repair W (sh_pack_id m) m err w2 = (res, w')" by simp
    from requeue_repair_books [OF this] have b: "isl res" "wd_cloud w' = wd_cloud w2" "books (wd_db w2) (wd_db w')" by auto
    with same_shards_trans [OF same1 books_same [OF b(3)]] loc2 located_books [OF _ b(3,2)] show ?thesis by auto
  next
    case (Inr uploaded)
    with run have w': "w' = w2\<lparr>wd_db := finish_repair W (sh_pack_id m) bucket m uploaded (wd_db w2)\<rparr>" "res = Inr ()"
      by (simp_all add: modify_db_def)
    have ps: "pack_shards (wd_db w') = pack_shards (mark_pack_shard_completed (wd_db w2) (sh_pack_id m1) (sh_shard_index m1))"
      by (simp add: w' finish_repair_def pack_shards_rep_on_job eq)
    have in2: "m1 \<in> set (pack_shards (wd_db w2))" using m1(1) st by (simp add: w1_def)
    have "wd_cloud w2 (sh_provider m) (sh_object_key m) = Some bs" using st Inr by (auto simp: store_object_def)
    then have stored: "shard_backed sha w2 m1" using bs by (simp add: shard_backed_def eq)
    have "same_shards (wd_db w2) (wd_db w')"
      unfolding same_shards_def ps using same_shards_update_shard [of "\<lambda>r. r\<lparr>sh_status := ''COMPLETED'', sh_last_error := None\<rparr>" "wd_db w2"]
      by (simp add: mark_pack_shard_completed_def same_shards_def same_shard_def)
    moreover have "located sha w'" if "located sha w"
      by (rule located_complete(1) [OF loc2 [OF that] in2 stored _ ps]) (simp add: w')
    moreover have "pack_shards (wd_db w') = pack_shards (mark_pack_shard_completed
        (mark_pack_shard_in_progress (wd_db w) (sh_pack_id m) (sh_shard_index m)) (sh_pack_id m) (sh_shard_index m))"
      using ps st s1 by (simp add: eq mark_pack_shard_completed_def update_shard_def w1_def)
    moreover have "\<forall>p \<in> set (packs (wd_db w')). pk_pack_id p = sh_pack_id m \<longrightarrow> pk_status p = ''COMPLETED_HEALTHY''"
      by (auto simp: w' finish_repair_def rep_on_job_def mark_upload_job_completed_def set_job_status_def
          mark_upload_target_completed_def update_target_def update_pack_status_def update_where_def split: option.splits)
    ultimately show ?thesis using same1 by (auto simp: w' intro: same_shards_trans)
  qed
  then show "same_shards (wd_db w) (wd_db w')" "located sha w \<Longrightarrow> located sha w'"
    "wd_cloud w' provider key = wd_cloud w provider key \<or>
      (provider = sh_provider m \<and> key = sh_object_key m \<and> wd_cloud w' provider key = Some bs)"
    "res = Inr () \<Longrightarrow> pack_shards (wd_db w') = pack_shards (mark_pack_shard_completed
        (mark_pack_shard_in_progress (wd_db w) (sh_pack_id m) (sh_shard_index m)) (sh_pack_id m) (sh_shard_index m)) \<and>
      (\<forall>p \<in> set (packs (wd_db w')). pk_pack_id p = sh_pack_id m \<longrightarrow> pk_status p = ''COMPLETED_HEALTHY'')"
    using cl by simp_all
qed

lemma reconstruct_code_word:
  assumes R: "rs_ok R" and enc: "split_ciphertext_into_shards R c = Inr enc"
    and slots: "agrees_with enc slots" "2 \<le> present slots"
  shows "rs_reconstruct R slots = Some (map Some enc)" and "length enc = 3"
proof -
  from split_ciphertext_ok [OF R, of c] obtain a b p where abp: "split_ciphertext_into_shards R c = Inr [a, b, p]"
    and rec: "\<forall>opt. agrees_with [a, b, p] opt \<longrightarrow> 2 \<le> present opt \<longrightarrow> rs_reconstruct R opt = Some [Some a, Some b, Some p]"
    by (elim exE conjE)
  from abp enc have "enc = [a, b, p]" by simp
  with rec slots show "rs_reconstruct R slots = Some (map Some enc)" and "length enc = 3" by simp_all
qed

lemma split_ciphertext_three: "rs_ok R \<Longrightarrow> split_ciphertext_into_shards R c = Inr enc \<Longrightarrow> length enc = 3"
  using split_ciphertext_ok [of R c] by auto

definition repairs :: "(bytes \<Rightarrow> bytes) \<Rightarrow> bytes list \<Rightarrow> PackShardRecord list \<Rightarrow> world \<Rightarrow> world \<Rightarrow> bool" where
  "repairs sha256 enc rows w w' \<longleftrightarrow> (located sha256 w \<longrightarrow> located sha256 w') \<and> same_shards (wd_db w) (wd_db w') \<and>
     (\<forall>provider key. wd_cloud w' provider key = wd_cloud w provider key \<or>
        (\<exists>r \<in> set rows. sh_status r \<noteq> ''COMPLETED'' \<and> provider = sh_provider r \<and> key = sh_object_key r \<and>
           wd_cloud w' provider key = Some (enc ! nat (sh_shard_index r))))"

lemma repairs_quiet: "pack_shards (wd_db w') = pack_shards (wd_db w) \<Longrightarrow> wd_cloud w' = wd_cloud w \<Longrightarrow> repairs sha enc rows w w'"
  using located_cong [of w' w sha] by (simp add: repairs_def same_shards_def same_shard_def list_all2_same)

lemma rebuild_missing_ok:
  assumes R: "rs_ok (rw_rs W)" and enc: "split_ciphertext_into_shards (rw_rs W) c = Inr enc"
    and run: "rebuild_missing W pack completed m w = (res, w')"
    and m: "m \<in> set (pack_shards (wd_db w))" "sh_pack_id m = pk_pack_id pack" "codes (rw_sha256 W) enc m" "sh_status m \<noteq> ''COMPLETED''" "m \<in> set rows"
    and completed: "list_all (codes (rw_sha256 W) enc) completed" "distinct (map sh_shard_index completed)" "2 \<le> length completed"
    and coll: "no_collision (rw_sha256 W) enc w"
  shows "repairs (rw_sha256 W) enc rows w w' \<and> (res = Inr () \<longrightarrow>
    pack_shards (wd_db w') = pack_shards (mark_pack_shard_completed
        (mark_pack_shard_in_progress (wd_db w) (sh_pack_id m) (sh_shard_index m)) (sh_pack_id m) (sh_shard_index m)) \<and>
      (\<forall>p \<in> set (packs (wd_db w')). pk_pack_id p = sh_pack_id m \<longrightarrow> pk_status p = ''COMPLETED_HEALTHY''))"
proof -
  let ?i = "nat (sh_shard_index m)"
  have len: "length enc = 3" by (rule split_ciphertext_three [OF R enc])
  have start: "agrees_with enc (replicate TOTAL_SHARDS None)"
    using len by (simp add: agrees_with_def TOTAL_SHARDS_def DATA_SHARDS_def PARITY_SHARDS_def list_all2_conv_all_nth)
  have none: "replicate TOTAL_SHARDS None ! nat (sh_shard_index sh) = None" if "sh \<in> set completed" for sh
    using completed(1) that len by (simp add: list_all_iff codes_def TOTAL_SHARDS_def DATA_SHARDS_def PARITY_SHARDS_def)
  have unch: "repairs (rw_sha256 W) enc rows w x" if "quiet w x" for x
    using that by (intro repairs_quiet) (simp_all add: quiet_def)
  show ?thesis
  proof (cases "pk_shard_size pack < 0")
    case True
    with run m(3) have "w' = w \<and> isl res" by (auto simp: rebuild_missing_def rep_usize_def codes_def)
    then show ?thesis using unch by auto
  next
    case False
    define L where "L = nat (pk_shard_size pack)"
    obtain r1 w1 where d: "download_completed W pack L completed (replicate TOTAL_SHARDS None) w = (r1, w1)" by force
    note dl = download_completed_ok [OF d completed(1) coll start completed(2) none]
    then have q: "quiet w w1" by blast
    show ?thesis
    proof (cases r1)
      case (Inl e)
      with run False m(3) d have "w' = w1 \<and> isl res"
        by (auto simp: rebuild_missing_def rep_usize_def codes_def bindW_def liftW_def L_def)
      then show ?thesis using unch [OF q] by auto
    next
      case (Inr slots)
      with dl have "agrees_with enc slots" "2 \<le> present slots" using completed(3) by auto
      from reconstruct_code_word(1) [OF R enc this]
      have rec: "rs_reconstruct (rw_rs W) slots = Some (map Some enc)" .
      show ?thesis
      proof (cases "rw_providers W (sh_provider m)")
        case None
        with run False m(3) d Inr rec len have "w' = w1 \<and> isl res"
          by (auto simp: rebuild_missing_def rep_usize_def codes_def bindW_def liftW_def L_def rep_reconstruct_def rep_provider_def)
        then show ?thesis using unch [OF q] by auto
      next
        case (Some bucket)
        with run False m(3) d Inr rec len
        have up: "upload_rebuilt W (sh_pack_id m) bucket m ?i (enc ! ?i) w1 = (res, w')"
          by (auto simp: rebuild_missing_def rep_usize_def codes_def bindW_def liftW_def L_def rep_reconstruct_def rep_provider_def m(2))
        have in1: "m \<in> set (pack_shards (wd_db w1))" using m(1) q by (simp add: quiet_def)
        have sum: "hex_sha256 (rw_sha256 W) (enc ! ?i) = sh_checksum m" using m(3) by (simp add: codes_def)
        note u = upload_rebuilt_ok [OF up in1 sum]
        have "located (rw_sha256 W) w1" if "located (rw_sha256 W) w"
          using located_cong [of w1 w] that q by (simp add: quiet_def)
        then have "repairs (rw_sha256 W) enc rows w w'"
          using u(1,2) u(3) q m(4,5) unfolding repairs_def by (auto simp: quiet_def)
        then show ?thesis using u(4) q by (auto simp: quiet_def mark_pack_shard_completed_def mark_pack_shard_in_progress_def update_shard_def)
      qed
    qed
  qed
qed

text \<open>When the one shard that is not stored is marked, all are.\<close>

lemma last_shard_completed:
  fixes s :: db and pid :: string
  defines "rows \<equiv> get_pack_shards s pid"
  assumes "length rows = 3" and "length (filter (\<lambda>sh. sh_status sh = ''COMPLETED'') rows) = 2"
    and m: "m \<in> set rows" "sh_status m \<noteq> ''COMPLETED''"
    and x: "x \<in> set (pack_shards (mark_pack_shard_completed (mark_pack_shard_in_progress s pid (sh_shard_index m)) pid (sh_shard_index m)))"
      "sh_pack_id x = pid"
  shows "sh_status x = ''COMPLETED''"
proof -
  have set_rows: "r \<in> set rows \<longleftrightarrow> r \<in> set (pack_shards s) \<and> sh_pack_id r = pid" for r
    by (auto simp: rows_def get_pack_shards_def)
  let ?f = "\<lambda>r. if is_shard pid (sh_shard_index m) r then r\<lparr>sh_status := ''COMPLETED'', sh_last_error := None\<rparr> else r"
  have "pack_shards (mark_pack_shard_completed (mark_pack_shard_in_progress s pid (sh_shard_index m)) pid (sh_shard_index m)) =
      map ?f (pack_shards s)"
    by (simp add: mark_pack_shard_completed_def mark_pack_shard_in_progress_def update_shard_def update_where_def is_shard_def)
  with x(1) obtain y where y1: "y \<in> set (pack_shards s)" and x': "x = ?f y" by auto
  from x' x(2) have "sh_pack_id y = pid" by (simp split: if_splits)
  with y1 have y: "y \<in> set rows" by (simp add: set_rows)
  from x' have xy: "is_shard pid (sh_shard_index m) y \<Longrightarrow> sh_status x = ''COMPLETED''"
      "\<not> is_shard pid (sh_shard_index m) y \<Longrightarrow> x = y" by simp_all
  have "length (filter (\<lambda>sh. \<not> sh_status sh = ''COMPLETED'') rows) = 1"
    using sum_length_filter_compl [of "\<lambda>sh. sh_status sh = ''COMPLETED''" rows] assms(2,3) by simp
  then obtain z where z: "filter (\<lambda>sh. \<not> sh_status sh = ''COMPLETED'') rows = [z]" by (auto simp: length_Suc_conv)
  have only: "u = z" if "u \<in> set rows" "sh_status u \<noteq> ''COMPLETED''" for u
  proof -
    have "u \<in> set (filter (\<lambda>sh. \<not> sh_status sh = ''COMPLETED'') rows)" using that by simp
    then show ?thesis unfolding z by simp
  qed
  show ?thesis
  proof (cases "sh_status y = ''COMPLETED''")
    case True
    with xy show ?thesis by blast
  next
    case False
    with only [of y] only [OF m] y have "y = m" by simp
    with m(1) set_rows have "is_shard pid (sh_shard_index m) y" by (simp add: is_shard_def)
    then show ?thesis by (rule xy)
  qed
qed

text \<open>
  C3: repair restores a degraded pack from verified data only. Let the shards of an erasure-coded pack be registered with
  the checksums of the three shards its ciphertext was split into, let no two shards share an object, and let no object in
  the cloud collide with one of the three under SHA-256. However the repair of the pack ends, and whatever the providers
  return (a wrong object, an error, a lost answer): if every shard marked as stored was stored, it still is; an object is
  written only at the place of a shard of this pack that is not marked as stored, with exactly the content of that shard;
  and a repair of a pack with two stored shards that succeeds leaves all its shards marked as stored and its status healthy.
\<close>

theorem repair_rebuilds:
  assumes "rs_ok (rw_rs W)" and "split_ciphertext_into_shards (rw_rs W) c = Inr enc"
    and "list_all (codes (rw_sha256 W) enc) (get_pack_shards (wd_db w) (pk_pack_id pack))"
    and "schema_ok (wd_db w)" and "places_distinct (wd_db w)" and "no_collision (rw_sha256 W) enc w"
    and "repair_pack W pack w = (res, w')"
  shows "(backed (rw_sha256 W) w \<longrightarrow> backed (rw_sha256 W) w') \<and>
    repairs (rw_sha256 W) enc (get_pack_shards (wd_db w) (pk_pack_id pack)) w w' \<and>
    (res = Inr () \<and> StorageMode_from_str (pk_storage_mode pack) = Ec2_1 \<and>
       length (shards_with_status (wd_db w) (pk_pack_id pack) ''COMPLETED'') = 2 \<longrightarrow>
     (\<forall>r \<in> set (pack_shards (wd_db w')). sh_pack_id r = pk_pack_id pack \<longrightarrow> sh_status r = ''COMPLETED'') \<and>
     (\<forall>p \<in> set (packs (wd_db w')). pk_pack_id p = pk_pack_id pack \<longrightarrow> pk_status p = ''COMPLETED_HEALTHY''))"
proof -
  let ?pid = "pk_pack_id pack" and ?sha = "rw_sha256 W"
  let ?rows = "get_pack_shards (wd_db w) ?pid"
  let ?status = "resolve_pack_status_for_mode Ec2_1 (summarize_pack_shards (wd_db w) ?pid)"
  define completed where "completed = filter (\<lambda>sh. sh_status sh = ''COMPLETED'') ?rows"
  have set_rows: "r \<in> set ?rows \<longleftrightarrow> r \<in> set (pack_shards (wd_db w)) \<and> sh_pack_id r = ?pid" for r
    by (auto simp: get_pack_shards_def)
  have n: "length completed = length (shards_with_status (wd_db w) ?pid ''COMPLETED'')"
    by (simp add: completed_def get_pack_shards_def filter_sort shards_with_status_def conj_commute)
  have loc: "located ?sha w \<longleftrightarrow> backed ?sha w" using assms(4,5) by (simp add: located_def schema_ok_def)
  have bk: "backed ?sha w \<longrightarrow> backed ?sha w'" if "repairs ?sha enc ?rows w w'"
    using that loc by (auto simp: repairs_def located_def)
  show ?thesis
  proof (cases "StorageMode_from_str (pk_storage_mode pack) = Ec2_1 \<and> length ?rows = TOTAL_SHARDS \<and> ?status \<noteq> Healthy \<and>
      ?status \<noteq> Unreadable \<and> \<not> length completed < DATA_SHARDS")
    case False
    have "repairs ?sha enc ?rows w w'" and "res = Inr () \<Longrightarrow> StorageMode_from_str (pk_storage_mode pack) = Ec2_1 \<Longrightarrow>
        length (shards_with_status (wd_db w) ?pid ''COMPLETED'') \<noteq> 2"
      using assms(7) False n
      by (auto simp: repair_pack_def Let_def modify_db_def summarize_pack_shards_counts DATA_SHARDS_def
          simp flip: completed_def intro: repairs_quiet split: if_splits)
    then show ?thesis using bk by auto
  next
    case True
    then have rows3: "length ?rows = 3" and two: "2 \<le> length completed"
      by (simp_all add: TOTAL_SHARDS_def DATA_SHARDS_def PARITY_SHARDS_def)
    from True assms(7) have run: "bindW (liftW (ok_or (RE_MissingShardRecord ''no missing shard'')
        (find (\<lambda>sh. sh_status sh \<noteq> ''COMPLETED'') ?rows))) (rebuild_missing W pack completed) w = (res, w')"
      by (simp add: repair_pack_def Let_def flip: completed_def)
    show ?thesis
    proof (cases "find (\<lambda>sh. sh_status sh \<noteq> ''COMPLETED'') ?rows")
      case None
      with run have "w' = w" "isl res" by auto
      then show ?thesis by (auto intro: repairs_quiet)
    next
      case (Some m)
      then have m: "m \<in> set ?rows" "sh_status m \<noteq> ''COMPLETED''" by (auto simp: find_Some_iff)
      have key: "distinct (map shard_key (pack_shards (wd_db w)))" using assms(4) by (simp add: schema_ok_def)
      have idx: "distinct (map sh_shard_index ?rows)"
        using key by (auto simp: get_pack_shards_def distinct_map inj_on_def shard_key_def)
      have "distinct (map sh_shard_index completed)" using idx by (simp add: completed_def distinct_map_filter)
      note r = rebuild_missing_ok [OF assms(1,2) _ _ _ _ m(2,1) _ this two assms(6), of pack res w']
      have step: "rebuild_missing W pack completed m w = (res, w')" using run Some by simp
      have rep: "repairs ?sha enc ?rows w w'" and fin: "res = Inr () \<Longrightarrow> pack_shards (wd_db w') = pack_shards (mark_pack_shard_completed
          (mark_pack_shard_in_progress (wd_db w) ?pid (sh_shard_index m)) ?pid (sh_shard_index m)) \<and>
          (\<forall>p \<in> set (packs (wd_db w')). pk_pack_id p = ?pid \<longrightarrow> pk_status p = ''COMPLETED_HEALTHY'')"
        using r step m set_rows assms(3) by (auto simp: completed_def list_all_iff)
      have "\<forall>x \<in> set (pack_shards (wd_db w')). sh_pack_id x = ?pid \<longrightarrow> sh_status x = ''COMPLETED''"
        if ok: "res = Inr ()" and exact: "length completed = 2"
        using last_shard_completed [OF rows3 exact [unfolded completed_def] m] fin [OF ok] by simp
      with rep bk fin n show ?thesis by auto
    qed
  qed
qed

text \<open>
  The shards \<open>[1]\<close>, \<open>[2]\<close> and their parity \<open>[3]\<close>; the third one is lost. The repair succeeds.
\<close>

definition lost_db :: db where
  "lost_db = empty_db\<lparr>packs := [demo_pack\<lparr>pk_status := ''COMPLETED_DEGRADED''\<rparr>], pack_shards :=
     [(demo_shard 0 ''a'')\<lparr>sh_checksum := hex_lower [1], sh_status := ''COMPLETED''\<rparr>,
      (demo_shard 1 ''b'')\<lparr>sh_checksum := hex_lower [2], sh_status := ''COMPLETED''\<rparr>,
      (demo_shard 2 ''c'')\<lparr>sh_checksum := hex_lower [3], sh_status := ''FAILED''\<rparr>], pack_shards_seq := 2\<rparr>"

definition lost_world :: world where
  "lost_world = \<lparr>wd_db = lost_db, wd_guard = fresh_guard,
     wd_cloud = (\<lambda>p k. if k \<noteq> ''k'' then None else if p = ''a'' then Some [1] else if p = ''b'' then Some [2] else None),
     wd_spool = (\<lambda>_. None), wd_traffic = []\<rparr>"

definition demo_repair :: RepairWorker where
  "demo_repair = \<lparr>rw_sha256 = (\<lambda>bs. bs), rw_rs = xor_code, rw_config = demo_config,
     rw_net = demo_net\<lparr>ne_put := \<lambda>_ _. PutDone None None\<rparr>, rw_providers = (\<lambda>p. Some p), rw_retry_delay = 10, rw_now = 0\<rparr>"

lemma lost_world_ok:
  "split_ciphertext_into_shards (rw_rs demo_repair) [1, 2] = Inr [[1], [2], [3]]"
  "list_all (codes (rw_sha256 demo_repair) [[1], [2], [3]]) (get_pack_shards (wd_db lost_world) (pk_pack_id demo_pack))"
  "schema_ok (wd_db lost_world)" "places_distinct (wd_db lost_world)"
  subgoal by code_simp
  subgoal by code_simp
  subgoal by code_simp
  subgoal by code_simp
  done

lemma lost_world_no_collision: "no_collision (rw_sha256 demo_repair) [[1], [2], [3]] lost_world"
  by (auto simp: no_collision_def lost_world_def demo_repair_def hex_sha256_def hex_lower_def hex_digit_def split: if_splits)

lemma lost_world_stored: "length (shards_with_status (wd_db lost_world) (pk_pack_id demo_pack) ''COMPLETED'') = 2"
  by code_simp

theorem repair_rebuilds_witness:
  "fst (repair_pack demo_repair demo_pack lost_world) = Inr () \<and>
   list_all (\<lambda>r. sh_status r = ''COMPLETED'') (pack_shards (wd_db (snd (repair_pack demo_repair demo_pack lost_world)))) \<and>
   backed (\<lambda>bs. bs) (snd (repair_pack demo_repair demo_pack lost_world))"
proof -
  let ?r = "repair_pack demo_repair demo_pack lost_world"
  have ok: "fst ?r = Inr ()" by code_simp
  have R: "rs_ok (rw_rs demo_repair)" using xor_code_ok by (simp add: demo_repair_def)
  have before: "backed (rw_sha256 demo_repair) lost_world" by code_simp
  have mode: "StorageMode_from_str (pk_storage_mode demo_pack) = Ec2_1" by code_simp
  have sha: "rw_sha256 demo_repair = (\<lambda>bs. bs)" by (simp add: demo_repair_def)
  have all: "\<forall>r \<in> set (pack_shards (wd_db (snd ?r))). sh_pack_id r = pk_pack_id demo_pack" by code_simp
  from repair_rebuilds [OF R lost_world_ok lost_world_no_collision prod.collapse [symmetric]] ok before mode lost_world_stored all
  show ?thesis by (simp add: sha list_all_iff)
qed

section \<open>A pack that is moved is written as a version 1 pack\<close>

lemma rep_write_stores: "rep_write W name bs err w = (Inr x, w') \<Longrightarrow> w' = set_spool name (Some bs) w"
  by (auto simp: rep_write_def write_ephemeral_bytes_def split: file_outcome.splits)

lemma create_pack_version:
  "\<forall>p \<in> set (packs (create_pack s pid cid h mode v sch ls cs ss nonce tag st)). pk_pack_id p = pid \<longrightarrow> pk_encryption_version p = v"
  by (auto simp: create_pack_def update_where_def)

definition moved_manifest :: "PackRecord \<Rightarrow> bytes \<Rightarrow> bytes" where
  "moved_manifest pack ct = build_manifest_bytes (pk_chunk_id pack) (pk_nonce pack) ct (pk_gcm_tag pack) (nat (pk_logical_size pack))"

lemma prepare_local_only:
  assumes "prepare_new_pack W pack LocalOnly w = (Inr r, w')"
  shows "\<exists>ct. r = (compute_pack_id (rw_sha256 W) LocalOnly (moved_manifest pack ct), int (length (moved_manifest pack ct))) \<and>
    wd_spool w' (local_pack_name (fst r)) = Some (moved_manifest pack ct) \<and>
    length (pk_chunk_id pack) = 32 \<and> length (pk_nonce pack) = 12 \<and> length (pk_gcm_tag pack) = 16 \<and>
    int (length (moved_manifest pack ct)) \<le> i64_max \<and>
    (\<forall>p \<in> set (packs (wd_db w')). pk_pack_id p = fst r \<longrightarrow> pk_encryption_version p = 1)"
proof -
  from assms obtain ct w1 where l: "load_ciphertext_for_pack W pack w = (Inr ct, w1)"
    unfolding prepare_new_pack_def by (auto elim: bindW_cases)
  have shards: "build_shards R h p c LocalOnly = Inr ([], [])" for R h p c
    by (simp add: build_shards_def shard_bytes_for_def)
  define mb where "mb = moved_manifest pack ct"
  define pid where "pid = compute_pack_id (rw_sha256 W) LocalOnly mb"
  have fixed: "length (pk_chunk_id pack) = 32" "length (pk_nonce pack) = 12" "length (pk_gcm_tag pack) = 16" "0 \<le> pk_logical_size pack"
    using assms by (auto simp: prepare_new_pack_def bindW_def l rep_fixed_def liftW_def rep_usize_def split: if_splits)
  obtain x w2 where wr: "rep_write W (local_pack_name pid) mb RE_Io w1 = (x, w2)" by force
  from assms have rest: "(case x of Inl e \<Rightarrow> (Inl e, w2) | Inr _ \<Rightarrow>
      (case map_err (\<lambda>_. RE_NumericOverflow ''manifest size'') (to_i64 (length mb) ''manifest size'') of
         Inl e \<Rightarrow> (Inl e, w2)
       | Inr n \<Rightarrow> (Inr (pid, n), w2\<lparr>wd_db := create_pack (wd_db w2) pid (pk_chunk_id pack) (coalesce (pk_plaintext_hash pack) []) LocalOnly 1
           (storage_mode_scheme LocalOnly) (pk_logical_size pack) (pk_cipher_size pack) 0 (pk_nonce pack) (pk_gcm_tag pack) Healthy\<rparr>))) = (Inr r, w')"
    using fixed wr
    by (auto simp: prepare_new_pack_def bindW_def l rep_fixed_def liftW_def rep_usize_def rep_build_shards_def shards returnW_def Let_def
        modify_db_def mb_def pid_def moved_manifest_def split: sum.splits if_splits)
  then obtain y n where x: "x = Inr y" and n: "to_i64 (length mb) ''manifest size'' = Inr n" and r: "r = (pid, n)"
    and w': "w' = w2\<lparr>wd_db := create_pack (wd_db w2) pid (pk_chunk_id pack) (coalesce (pk_plaintext_hash pack) []) LocalOnly 1
           (storage_mode_scheme LocalOnly) (pk_logical_size pack) (pk_cipher_size pack) 0 (pk_nonce pack) (pk_gcm_tag pack) Healthy\<rparr>"
    by (cases x; cases "to_i64 (length mb) ''manifest size''") auto
  have "w2 = set_spool (local_pack_name pid) (Some mb) w1" by (rule rep_write_stores) (use wr x in simp)
  then have "wd_spool w' (local_pack_name pid) = Some mb" by (simp add: w' set_spool_def)
  moreover have "\<forall>p \<in> set (packs (wd_db w')). pk_pack_id p = pid \<longrightarrow> pk_encryption_version p = 1"
    using create_pack_version by (simp add: w')
  moreover from n have "n = int (length mb)" "int (length mb) \<le> i64_max" by (auto simp: to_i64_def split: if_splits)
  ultimately show ?thesis using fixed r by (intro exI [of _ ct]) (simp add: pid_def flip: mb_def)
qed

text \<open>
  Moving a pack to local storage drops the encryption version. The worker that moves a pack to the storage mode its files
  ask for writes the new pack, whatever the encryption version of the old one, as a version 1 pack: after a move to local
  storage that succeeds, the chunk is located in the new pack, the new pack is recorded with version 1, and what its record
  decrypts to does not depend on a data-encryption key.
\<close>

lemma reconcile_drops_dek:
  assumes "reconcile_to W pack LocalOnly w = (Inr (), w')"
  shows "\<exists>pid record.
    wd_spool w' (local_pack_name pid) = Some record \<and>
    (\<forall>l \<in> set (pack_locations (wd_db w')). pl_chunk_id l = pk_chunk_id pack \<longrightarrow> pl_pack_id l = pid) \<and>
    pk_chunk_id pack \<in> set (map pl_chunk_id (pack_locations (wd_db w'))) \<and>
    (\<forall>p \<in> set (packs (wd_db w')). pk_pack_id p = pid \<longrightarrow> pk_encryption_version p = 1) \<and>
    (\<forall>P chunk vk dek. fcl_chunk_id chunk = pk_chunk_id pack \<and> fcl_pack_offset chunk = 0 \<and> fcl_encrypted_size chunk = int (length record) \<longrightarrow>
       decrypt_chunk_record P record chunk vk dek = decrypt_chunk_record P record chunk vk None)"
proof -
  from assms obtain r w1 where p: "prepare_new_pack W pack LocalOnly w = (Inr r, w1)"
    unfolding reconcile_to_def by (auto elim: bindW_cases)
  from prepare_local_only [OF p] obtain ct where ct:
      "r = (compute_pack_id (rw_sha256 W) LocalOnly (moved_manifest pack ct), int (length (moved_manifest pack ct)))"
      "wd_spool w1 (local_pack_name (fst r)) = Some (moved_manifest pack ct)"
      "length (pk_chunk_id pack) = 32" "length (pk_nonce pack) = 12" "length (pk_gcm_tag pack) = 16"
      "int (length (moved_manifest pack ct)) \<le> i64_max"
      "\<forall>p \<in> set (packs (wd_db w1)). pk_pack_id p = fst r \<longrightarrow> pk_encryption_version p = 1"
    by (elim exE conjE)
  let ?m = "moved_manifest pack ct" and ?id = "fst r"
  from assms p have w': "w' = w1\<lparr>wd_db := link_chunk_to_pack (update_pack_status (wd_db w1) ?id Healthy) (pk_chunk_id pack) ?id 0 (snd r)\<rparr>"
    by (cases r) (simp add: reconcile_to_def bindW_def Let_def modify_db_def)
  have loc: "\<forall>l \<in> set (pack_locations (wd_db w')). pl_chunk_id l = pk_chunk_id pack \<longrightarrow> pl_pack_id l = ?id"
    by (auto simp: w' link_chunk_to_pack_def update_where_def update_pack_status_def image_iff)
  have here: "pk_chunk_id pack \<in> set (map pl_chunk_id (pack_locations (wd_db w')))"
    by (simp add: w' link_chunk_to_pack_def update_pack_status_def update_where_key del: set_map)
  have ver: "\<forall>p \<in> set (packs (wd_db w')). pk_pack_id p = ?id \<longrightarrow> pk_encryption_version p = 1"
    using ct(7) by (auto simp: w' link_chunk_to_pack_def update_pack_status_def update_where_def split: if_splits)
  define pre where "pre = \<lparr>cr_record_magic = CHUNK_RECORD_MAGIC, cr_record_version = 1,
       cr_flags = 0, cr_compression_algo = COMPRESSION_ALGO_NONE, cr_key_wrapping_algo = 0,
       cr_chunk_id = pk_chunk_id pack, cr_plain_len = of_nat (nat (pk_logical_size pack)),
       cr_cipher_len = of_nat (length ct), cr_nonce = pk_nonce pack, cr_dek_id_hint = replicate 4 0,
       cr_reserved_1 = replicate 8 0\<rparr>"
  have m: "?m = ChunkRecordPrefix_as_bytes pre @ ct @ pk_gcm_tag pack" by (simp add: moved_manifest_def build_manifest_bytes_def pre_def)
  have pl: "prefix_lengths pre" using ct(3,4) by (simp add: prefix_lengths_def pre_def CHUNK_RECORD_MAGIC_def)
  have len: "length ?m = 96 + length ct" using prefix_length [OF pl] ct(5) by (simp add: m)
  have big: "length ct + 96 \<le> usize_max" using ct(6) len by (simp add: i64_max_def usize_max_def)
  then have cl: "unat (cr_cipher_len pre) = length ct" by (simp add: pre_def unat_of_nat_u64)
  have dec: "decrypt_chunk_record P ?m chunk vk dek = decrypt_chunk_record P ?m chunk vk None"
    if c: "fcl_chunk_id chunk = pk_chunk_id pack \<and> fcl_pack_offset chunk = 0 \<and> fcl_encrypted_size chunk = int (length ?m)" for P chunk vk dek
  proof -
    have "cr_record_magic pre = CHUNK_RECORD_MAGIC" "cr_chunk_id pre = fcl_chunk_id chunk" "fcl_pack_offset chunk = 0"
      "fcl_encrypted_size chunk = int (96 + length ct)" using c len by (simp_all add: pre_def)
    note eq = decrypt_chunk_record_eq [OF pl this(1,2) cl ct(5) big this(3,4) m]
    have "cr_record_version pre \<noteq> 2" by (simp add: pre_def)
    with eq [of P vk dek] eq [of P vk None] show ?thesis by simp
  qed
  show ?thesis
  proof (intro exI conjI)
    show "wd_spool w' (local_pack_name ?id) = Some ?m" using ct(2) by (simp add: w')
    show "\<forall>P chunk vk dek. fcl_chunk_id chunk = pk_chunk_id pack \<and> fcl_pack_offset chunk = 0 \<and> fcl_encrypted_size chunk = int (length ?m) \<longrightarrow>
        decrypt_chunk_record P ?m chunk vk dek = decrypt_chunk_record P ?m chunk vk None"
      using dec by blast
  qed (rule loc here ver)+
qed

text \<open>The move does succeed when the ciphertext can be read and the spool can be written.\<close>

lemma reconcile_local_succeeds:
  assumes l: "load_ciphertext_for_pack W pack w = (Inr ct, w1)"
    and len: "length (pk_chunk_id pack) = 32" "length (pk_nonce pack) = 12" "length (pk_gcm_tag pack) = 16" "0 \<le> pk_logical_size pack"
      "int (length ct) + 96 \<le> i64_max"
    and disk: "\<And>x. ne_write (rw_net W) x = FileDone"
  shows "fst (reconcile_to W pack LocalOnly w) = Inr ()"
proof -
  have "length (build_manifest_bytes (pk_chunk_id pack) (pk_nonce pack) ct (pk_gcm_tag pack) n) = 96 + length ct" for n
    using len(1-3) by (simp add: build_manifest_bytes_def prefix_bytes CHUNK_RECORD_MAGIC_def)
  then show ?thesis
    using len by (simp add: reconcile_to_def prepare_new_pack_def bindW_def l rep_fixed_def liftW_def rep_usize_def rep_write_def
        write_ephemeral_bytes_def disk rep_build_shards_def build_shards_def shard_bytes_for_def returnW_def modify_db_def to_i64_def Let_def)
qed

text \<open>A version 2 chunk in a single replica that is moved to local storage.\<close>

definition replica_pack :: PackRecord where
  "replica_pack = demo_pack\<lparr>pk_chunk_id := ec_chunk_id sample_enc, pk_nonce := ec_nonce sample_enc, pk_gcm_tag := ec_gcm_tag sample_enc,
     pk_storage_mode := ''SINGLE_REPLICA'', pk_logical_size := 3, pk_cipher_size := 3, pk_shard_size := 3\<rparr>"

definition replica_world :: world where
  "replica_world = lost_world\<lparr>wd_db := empty_db\<lparr>packs := [replica_pack], pack_shards :=
       [(demo_shard 0 ''b'')\<lparr>sh_checksum := hex_lower (ec_ciphertext sample_enc), sh_status := ''COMPLETED''\<rparr>]\<rparr>,
     wd_cloud := \<lambda>_ _. Some (ec_ciphertext sample_enc)\<rparr>"

definition replica_loc :: "bytes \<Rightarrow> FileChunkLocation" where
  "replica_loc record = sample_loc\<lparr>fcl_chunk_id := pk_chunk_id replica_pack, fcl_pack_offset := 0,
     fcl_encrypted_size := int (length record)\<rparr>"

lemma reconcile_drops_dek_witness:
  "pk_encryption_version replica_pack = 2 \<and> (\<exists>pid record.
     wd_spool (snd (reconcile_to demo_repair replica_pack LocalOnly replica_world)) (local_pack_name pid) = Some record \<and>
     decrypt_chunk_record xor_prims record (replica_loc record) [] (Some (replicate 32 5)) =
       decrypt_chunk_record xor_prims record (replica_loc record) [] None)"
proof -
  let ?r = "reconcile_to demo_repair replica_pack LocalOnly replica_world"
  have "fst (load_ciphertext_for_pack demo_repair replica_pack replica_world) = Inr (ec_ciphertext sample_enc)" by code_simp
  then have l: "load_ciphertext_for_pack demo_repair replica_pack replica_world =
      (Inr (ec_ciphertext sample_enc), snd (load_ciphertext_for_pack demo_repair replica_pack replica_world))"
    by (simp add: prod_eq_iff)
  have "fst ?r = Inr ()"
    by (rule reconcile_local_succeeds [OF l])
      (simp_all add: replica_pack_def sample_enc_def i64_max_def demo_repair_def demo_net_def)
  then have "?r = (Inr (), snd ?r)" by (simp add: prod_eq_iff)
  from reconcile_drops_dek [OF this] obtain pid rec where
    "wd_spool (snd ?r) (local_pack_name pid) = Some rec"
    "\<forall>P chunk vk dek. fcl_chunk_id chunk = pk_chunk_id replica_pack \<and> fcl_pack_offset chunk = 0 \<and>
       fcl_encrypted_size chunk = int (length rec) \<longrightarrow>
       decrypt_chunk_record P rec chunk vk dek = decrypt_chunk_record P rec chunk vk None"
    by (elim exE conjE)
  moreover have "fcl_chunk_id (replica_loc rec) = pk_chunk_id replica_pack \<and> fcl_pack_offset (replica_loc rec) = 0 \<and>
      fcl_encrypted_size (replica_loc rec) = int (length rec)" by (simp add: replica_loc_def)
  moreover have "pk_encryption_version replica_pack = 2" by code_simp
  ultimately show ?thesis by blast
qed

end
