(* ===== verification/Scrubber.thy ===== *)
theory Scrubber
  imports Uploader
begin

text \<open>
  The scrubber (\<^verbatim>\<open>scrubber.rs\<close>): it asks the providers for the stored shards, in the order they were last checked. A light
  check compares the size of the object with the recorded size, a deep check fetches the object and compares its checksum.
  The outcome decides the status of the shard and of its pack. The remaining log lines are left out; a read that fails while
  the body arrives is a failed request here.
\<close>

definition SMALL_VAULT_PACK_THRESHOLD :: int where "SMALL_VAULT_PACK_THRESHOLD = 100"
definition SMALL_VAULT_POLL_INTERVAL :: nat where "SMALL_VAULT_POLL_INTERVAL = 3600000"
definition SMALL_VAULT_DEEP_MODULUS :: nat where "SMALL_VAULT_DEEP_MODULUS = 100"

datatype ScrubberError = SC_MissingProviderConfig | SC_InvalidEnv string | SC_Db sqlx_error | SC_Timeout string

record ScrubberWorker =
  sc_sha256 :: "bytes \<Rightarrow> bytes"
  sc_config :: AppConfig
  sc_net :: net
  sc_providers :: "string \<Rightarrow> string option"
  sc_poll_interval :: nat
  sc_batch_size :: int
  sc_deep_verify_modulus :: nat
  sc_now :: int

definition effective_poll_interval :: "ScrubberWorker \<Rightarrow> int \<Rightarrow> nat" where
  "effective_poll_interval W pack_count =
     (if pack_count < SMALL_VAULT_PACK_THRESHOLD then max (sc_poll_interval W) SMALL_VAULT_POLL_INTERVAL else sc_poll_interval W)"

definition effective_deep_verify_modulus :: "ScrubberWorker \<Rightarrow> int \<Rightarrow> nat" where
  "effective_deep_verify_modulus W pack_count =
     (if pack_count < SMALL_VAULT_PACK_THRESHOLD then max (sc_deep_verify_modulus W) SMALL_VAULT_DEEP_MODULUS
      else sc_deep_verify_modulus W)"

definition should_deep_verify_with :: "PackShardRecord \<Rightarrow> nat \<Rightarrow> nat \<Rightarrow> bool" where
  "should_deep_verify_with sh batch_index modulus \<longleftrightarrow>
     modulus \<noteq> 0 \<and> (batch_index mod modulus = 0 \<or> (0 \<le> sh_id sh \<and> nat (sh_id sh) mod modulus = 0))"

definition book_check ::
  "ScrubberWorker \<Rightarrow> PackShardRecord \<Rightarrow> string \<Rightarrow> string \<Rightarrow> int option \<Rightarrow> string option \<Rightarrow> world \<Rightarrow> world" where
  "book_check W sh verification_method verdict vsize error =
     with_db (\<lambda>s. update_shard_verification_status s (sc_now W) (sh_pack_id sh) (sh_shard_index sh) verification_method verdict vsize
       (verdict \<noteq> ''HEALTHY'') error)"

definition verify_shard_integrity_deep :: "ScrubberWorker \<Rightarrow> PackShardRecord \<Rightarrow> world \<Rightarrow> world" where
  "verify_shard_integrity_deep W sh w =
     (case try_authorize_read (sc_config W) (sc_now W) (wd_guard w) (max (sh_size sh) 0) of
        (Inl _, g) \<Rightarrow> w\<lparr>wd_guard := g\<rparr>
      | (Inr _, g) \<Rightarrow>
          let w1 = w\<lparr>wd_guard := g\<rparr> in
          (case get_object (sc_net W) w1 (sh_provider sh) (sh_object_key sh) of
             Inr bs \<Rightarrow>
               let verified_size = min (int (length bs)) i64_max;
                   delta = i64_saturating_sub verified_size (sh_size sh);
                   w2 = (if delta \<noteq> 0 then w1\<lparr>wd_guard := snd (reconcile_read_bytes (sc_now W) (wd_guard w1) delta)\<rparr> else w1)
               in if hex_sha256 (sc_sha256 W) bs = sh_checksum sh
                  then book_check W sh ''DEEP'' ''HEALTHY'' (Some verified_size) None w2
                  else book_check W sh ''DEEP'' ''CORRUPTED'' (Some verified_size) (Some ''deep checksum mismatch'') w2
           | Inl FaultTimeout \<Rightarrow> w1
           | Inl (FaultError details) \<Rightarrow>
               if is_missing_error details then book_check W sh ''DEEP'' ''MISSING'' None (Some details) w1 else w1))"

text \<open>The status of the pack from its shards; a pack without a row counts as erasure-coded.\<close>

definition settle_pack :: "string \<Rightarrow> world \<Rightarrow> world" where
  "settle_pack pack_id w =
     snd (settle_status (case get_pack (wd_db w) pack_id of Some p \<Rightarrow> StorageMode_from_str (pk_storage_mode p) | None \<Rightarrow> Ec2_1) pack_id w)"

definition verify_shard :: "ScrubberWorker \<Rightarrow> PackShardRecord \<Rightarrow> bool \<Rightarrow> world \<Rightarrow> (ScrubberError + unit) \<times> world" where
  "verify_shard W sh use_deep w =
     (if sc_providers W (sh_provider sh) = None then (Inl (SC_InvalidEnv ''scrub provider not configured''), w)
      else case try_authorize_read (sc_config W) (sc_now W) (wd_guard w) 0 of
        (Inl _, g) \<Rightarrow> (Inr (), w\<lparr>wd_guard := g\<rparr>)
      | (Inr _, g) \<Rightarrow>
          let w1 = w\<lparr>wd_guard := g\<rparr> in
          (case head_object (sc_net W) w1 (sh_provider sh) (sh_object_key sh) of
             Inr content_length \<Rightarrow>
               (Inr (), settle_pack (sh_pack_id sh)
                 (if content_length \<noteq> sh_size sh
                  then book_check W sh ''LIGHT'' ''SIZE_MISMATCH'' (Some content_length)
                         (Some ''provider content-length does not match recorded shard size'') w1
                  else if use_deep then verify_shard_integrity_deep W sh w1
                  else book_check W sh ''LIGHT'' ''HEALTHY'' (Some content_length) None w1))
           | Inl FaultTimeout \<Rightarrow> (Inr (), w1)
           | Inl (FaultError details) \<Rightarrow>
               if is_missing_error details
               then (Inr (), settle_pack (sh_pack_id sh) (book_check W sh ''LIGHT'' ''MISSING'' None (Some details) w1))
               else (Inr (), w1)))"

text \<open>A batch goes on after a shard that could not be checked.\<close>

fun verify_batch :: "ScrubberWorker \<Rightarrow> nat \<Rightarrow> nat \<Rightarrow> PackShardRecord list \<Rightarrow> world \<Rightarrow> nat \<times> world" where
  "verify_batch W modulus idx [] w = (0, w)"
| "verify_batch W modulus idx (sh # shs) w =
     (case verify_batch W modulus (Suc idx) shs (snd (verify_shard W sh (should_deep_verify_with sh idx modulus) w)) of
        (n, w') \<Rightarrow> (Suc n, w'))"

definition run_one_batch :: "ScrubberWorker \<Rightarrow> world \<Rightarrow> nat \<times> world" where
  "run_one_batch W w =
     verify_batch W (effective_deep_verify_modulus W (count_all_packs (wd_db w))) 0
       (get_next_shards_for_scrub (wd_db w) (sc_batch_size W)) w"

section \<open>What a check leaves alone, and what a deep check says\<close>

lemma same_shard_book: "same_shards (wd_db w) (wd_db (book_check W sh m v sz e w))"
  by (simp add: book_check_def with_db_def update_shard_verification_status_def Let_def same_shards_update_shard same_shard_def)

lemma book_check_simps [simp]:
  "wd_cloud (book_check W sh m v sz e w) = wd_cloud w" "wd_spool (book_check W sh m v sz e w) = wd_spool w"
  by (simp_all add: book_check_def with_db_def)

lemma settle_pack_simps [simp]:
  "pack_shards (wd_db (settle_pack p w)) = pack_shards (wd_db w)"
  "wd_cloud (settle_pack p w) = wd_cloud w" "wd_spool (settle_pack p w) = wd_spool w"
  by (simp_all add: settle_pack_def settle_status_def Let_def with_db_def)


lemma book_check_rows:
  "pack_shards (wd_db (book_check W sh m v sz e w)) =
     update_where (is_shard (sh_pack_id sh) (sh_shard_index sh))
       (\<lambda>r. r\<lparr>sh_status := (if v = ''HEALTHY'' then ''COMPLETED'' else ''FAILED''), sh_last_verified_at := Some (sc_now W),
          sh_last_verification_method := Some m, sh_last_verification_status := Some v, sh_last_verified_size := sz,
          sh_verification_failures := sh_verification_failures r + (if v \<noteq> ''HEALTHY'' then 1 else 0), sh_last_error := e\<rparr>)
       (pack_shards (wd_db w))"
  by (simp add: book_check_def with_db_def update_shard_verification_status_def Let_def update_shard_def)

text \<open>Checks never write to the cloud or the spool and never change which shard is where.\<close>

definition read_only :: "world \<Rightarrow> world \<Rightarrow> bool" where
  "read_only w w' \<longleftrightarrow> wd_cloud w' = wd_cloud w \<and> wd_spool w' = wd_spool w \<and> same_shards (wd_db w) (wd_db w')"

lemma read_only_refl: "pack_shards (wd_db w') = pack_shards (wd_db w) \<Longrightarrow> wd_cloud w' = wd_cloud w \<Longrightarrow> wd_spool w' = wd_spool w \<Longrightarrow> read_only w w'"
  by (simp add: read_only_def same_shards_def same_shard_def list_all2_same)

lemma read_only_trans: "read_only w w1 \<Longrightarrow> read_only w1 w2 \<Longrightarrow> read_only w w2"
  by (auto simp: read_only_def intro: same_shards_trans)

lemma read_only_book: "read_only w (book_check W sh m v sz e w)"
  by (simp add: read_only_def same_shard_book)

lemma read_only_settle: "read_only w (settle_pack p w)"
  by (simp add: read_only_refl)

text \<open>What a deep check books, when it books anything.\<close>

definition same_but_guard :: "world \<Rightarrow> world \<Rightarrow> bool" where
  "same_but_guard w w' \<longleftrightarrow> wd_db w' = wd_db w \<and> wd_cloud w' = wd_cloud w \<and> wd_spool w' = wd_spool w"

lemma deep_check_cases:
  obtains (unbooked) "same_but_guard w (verify_shard_integrity_deep W sh w)"
    | (healthy) w1 sz where "same_but_guard w w1" "verify_shard_integrity_deep W sh w = book_check W sh ''DEEP'' ''HEALTHY'' sz None w1"
        "shard_backed (sc_sha256 W) w sh"
    | (bad) w1 v sz e where "same_but_guard w w1" "verify_shard_integrity_deep W sh w = book_check W sh ''DEEP'' v sz e w1"
        "v \<noteq> ''HEALTHY''"
proof -
  obtain a g where a: "try_authorize_read (sc_config W) (sc_now W) (wd_guard w) (max (sh_size sh) 0) = (a, g)" by force
  let ?w1 = "w\<lparr>wd_guard := g\<rparr>"
  show ?thesis
  proof (cases a)
    case (Inl e)
    with a unbooked show ?thesis by (simp add: verify_shard_integrity_deep_def same_but_guard_def)
  next
    case (Inr u)
    show ?thesis
    proof (cases "get_object (sc_net W) ?w1 (sh_provider sh) (sh_object_key sh)")
      case (Inl f)
      show ?thesis
      proof (cases f)
        case FaultTimeout
        with a Inr Inl unbooked show ?thesis by (simp add: verify_shard_integrity_deep_def Let_def same_but_guard_def)
      next
        case (FaultError d)
        show ?thesis
        proof (cases "is_missing_error d")
          case True
          show ?thesis
            by (rule bad [of ?w1 "''MISSING''" None "Some d"])
              (use a Inr Inl FaultError True in \<open>simp_all add: verify_shard_integrity_deep_def Let_def same_but_guard_def\<close>)
        next
          case False
          with a Inr Inl FaultError unbooked show ?thesis
            by (simp add: verify_shard_integrity_deep_def Let_def same_but_guard_def)
        qed
      qed
    next
      case (Inr bs)
      then have obj: "wd_cloud w (sh_provider sh) (sh_object_key sh) = Some bs"
        by (auto simp: get_object_def split: option.splits)
      define sz where "sz = min (int (length bs)) i64_max"
      define w2 where "w2 = (if i64_saturating_sub sz (sh_size sh) \<noteq> 0
        then ?w1\<lparr>wd_guard := snd (reconcile_read_bytes (sc_now W) (wd_guard ?w1) (i64_saturating_sub sz (sh_size sh)))\<rparr> else ?w1)"
      have w2: "same_but_guard w w2" by (simp add: w2_def same_but_guard_def)
      have run: "verify_shard_integrity_deep W sh w =
          (if hex_sha256 (sc_sha256 W) bs = sh_checksum sh then book_check W sh ''DEEP'' ''HEALTHY'' (Some sz) None w2
           else book_check W sh ''DEEP'' ''CORRUPTED'' (Some sz) (Some ''deep checksum mismatch'') w2)"
        using a \<open>a = Inr u\<close> Inr by (simp add: verify_shard_integrity_deep_def Let_def sz_def w2_def)
      show ?thesis
      proof (cases "hex_sha256 (sc_sha256 W) bs = sh_checksum sh")
        case True
        then show ?thesis by (intro healthy [OF w2]) (simp_all add: run obj shard_backed_def)
      next
        case False
        then show ?thesis
          by (intro bad [OF w2, of "''CORRUPTED''" "Some sz" "Some ''deep checksum mismatch''"]) (simp_all add: run)
      qed
    qed
  qed
qed

text \<open>A check that is booked as bad marks no shard as stored.\<close>

definition marks_none :: "world \<Rightarrow> world \<Rightarrow> bool" where
  "marks_none w w' \<longleftrightarrow> (\<forall>r' \<in> set (pack_shards (wd_db w')). sh_status r' = ''COMPLETED'' \<longrightarrow> r' \<in> set (pack_shards (wd_db w)))"

lemma marks_none_bad: "v \<noteq> ''HEALTHY'' \<Longrightarrow> marks_none w (book_check W sh m v sz e w)"
  by (auto simp: marks_none_def book_check_rows update_where_def)

lemma read_only_guard: "same_but_guard w w1 \<Longrightarrow> read_only w1 w' \<Longrightarrow> read_only w w'"
  by (simp add: same_but_guard_def read_only_def)

lemma marks_none_guard: "same_but_guard w w1 \<Longrightarrow> marks_none w1 w' \<Longrightarrow> marks_none w w'"
  by (simp add: same_but_guard_def marks_none_def)

text \<open>What a step of a check that reached the provider leaves: shards newly marked as stored are the checked one, verified.\<close>

definition checked :: "(bytes \<Rightarrow> bytes) \<Rightarrow> PackShardRecord \<Rightarrow> world \<Rightarrow> world \<Rightarrow> bool" where
  "checked sha256 sh w w' \<longleftrightarrow> read_only w w' \<and> (\<forall>r' \<in> set (pack_shards (wd_db w')). sh_status r' = ''COMPLETED'' \<longrightarrow>
     r' \<in> set (pack_shards (wd_db w)) \<or>
     (is_shard (sh_pack_id sh) (sh_shard_index sh) r' \<and> shard_backed sha256 w sh))"

lemma checked_marks_none: "read_only w w' \<Longrightarrow> marks_none w w' \<Longrightarrow> checked sha sh w w'"
  by (auto simp: checked_def marks_none_def)

lemma checked_refl: "pack_shards (wd_db w') = pack_shards (wd_db w) \<Longrightarrow> wd_cloud w' = wd_cloud w \<Longrightarrow> wd_spool w' = wd_spool w \<Longrightarrow> checked sha sh w w'"
  by (simp add: checked_def read_only_refl)

lemma checked_settle: "checked sha sh w w' \<Longrightarrow> checked sha sh w (settle_pack p w')"
  using read_only_trans [OF _ read_only_settle [of w' p], of w] by (simp add: checked_def)

lemma checked_deep: "checked (sc_sha256 W) sh w (verify_shard_integrity_deep W sh w)"
proof (cases rule: deep_check_cases [of w W sh])
  case unbooked
  then show ?thesis by (intro checked_refl) (simp_all add: same_but_guard_def)
next
  case (healthy w1 sz)
  then show ?thesis
    using read_only_guard [OF healthy(1) read_only_book]
    by (auto simp: checked_def book_check_rows update_where_def same_but_guard_def is_shard_def)
next
  case (bad w1 v sz e)
  then show ?thesis
    using read_only_guard [OF bad(1) read_only_book] marks_none_guard [OF bad(1) marks_none_bad [OF bad(3)]]
    by (simp add: checked_marks_none)
qed

lemma checked_bad: "v \<noteq> ''HEALTHY'' \<Longrightarrow> same_but_guard w w1 \<Longrightarrow> checked sha sh w (book_check W sh m v sz e w1)"
  by (intro checked_marks_none) (auto intro: read_only_guard read_only_book marks_none_guard marks_none_bad)

text \<open>
  C16: a deep check certifies only what it has read. However the check of a shard with the content compared ends (blocked by
  the circuit breaker, an error, a timeout, a mismatch): no object and no spool file changes and no shard is moved, and a
  shard that is marked as stored afterwards either was marked so before, in the same row, or is the checked shard and the
  object at its place has the recorded checksum. So if every shard marked as stored was stored, that is still the case.
\<close>

theorem deep_check_sound:
  assumes "schema_ok (wd_db w)" and "sh \<in> set (pack_shards (wd_db w))" and "verify_shard W sh True w = (res, w')"
  shows "checked (sc_sha256 W) sh w w' \<and> (backed (sc_sha256 W) w \<longrightarrow> backed (sc_sha256 W) w')"
proof -
  obtain a g where a: "try_authorize_read (sc_config W) (sc_now W) (wd_guard w) 0 = (a, g)" by force
  let ?w1 = "w\<lparr>wd_guard := g\<rparr>"
  have g: "same_but_guard w ?w1" by (simp add: same_but_guard_def)
  have same: "checked (sc_sha256 W) sh w ?w1" "checked (sc_sha256 W) sh w w" by (simp_all add: checked_refl)
  have deep: "checked (sc_sha256 W) sh w (verify_shard_integrity_deep W sh ?w1)"
    using checked_deep [of W sh ?w1] by (auto simp: checked_def read_only_def shard_backed_def split: option.splits)
  note bad = checked_settle [OF checked_bad [OF _ g]]
  have c: "checked (sc_sha256 W) sh w w'"
    using assms(3) a same bad checked_settle [OF deep]
    by (auto simp: verify_shard_def Let_def split: if_splits sum.splits net_fault.splits)
  have "backed (sc_sha256 W) w'" if b: "backed (sc_sha256 W) w"
    unfolding backed_def
  proof (intro ballI impI)
    fix r' assume r': "r' \<in> set (pack_shards (wd_db w'))" "sh_status r' = ''COMPLETED''"
    from c have cloud: "wd_cloud w' = wd_cloud w" and ss: "same_shards (wd_db w) (wd_db w')"
      by (simp_all add: checked_def read_only_def)
    from c r' consider "r' \<in> set (pack_shards (wd_db w))"
      | "is_shard (sh_pack_id sh) (sh_shard_index sh) r'" "shard_backed (sc_sha256 W) w sh" by (auto simp: checked_def)
    then show "shard_backed (sc_sha256 W) w' r'"
    proof cases
      case 1
      with b r' cloud show ?thesis by (simp add: backed_def shard_backed_def)
    next
      case 2
      from same_shards_row [OF ss r'(1)] obtain r where r: "r \<in> set (pack_shards (wd_db w))" "same_shard r r'" by blast
      with 2(1) assms(1,2) distinct_map_key [of shard_key "pack_shards (wd_db w)" r sh] have "r = sh"
        by (simp add: schema_ok_def is_shard_def shard_key_def same_shard_def)
      with 2(2) shard_backed_same [OF r(2) cloud] show ?thesis by simp
    qed
  qed
  with c show ?thesis by blast
qed

text \<open>
  C39: a light check overrules a deep one. Whatever the books say of a shard, in particular that a deep check found it
  corrupted, a light check that finds an object of the recorded size at its place marks the shard as stored and healthy
  again although the content of the object is wrong.
\<close>

theorem light_check_overrules_deep:
  assumes "sh \<in> set (pack_shards (wd_db w))" and "sc_providers W (sh_provider sh) \<noteq> None"
    and "try_authorize_read (sc_config W) (sc_now W) (wd_guard w) 0 = (Inr (), g)"
    and "ne_head (sc_net W) (sh_provider sh) (sh_object_key sh) = None"
    and "wd_cloud w (sh_provider sh) (sh_object_key sh) = Some bs" and "int (length bs) = sh_size sh"
    and "hex_sha256 (sc_sha256 W) bs \<noteq> sh_checksum sh"
  shows "fst (verify_shard W sh False w) = Inr () \<and>
    (\<exists>r \<in> set (pack_shards (wd_db (snd (verify_shard W sh False w)))). sh_id r = sh_id sh \<and> sh_status r = ''COMPLETED'' \<and>
       sh_last_verification_status r = Some ''HEALTHY'' \<and> \<not> shard_backed (sc_sha256 W) (snd (verify_shard W sh False w)) r)"
proof -
  let ?w1 = "w\<lparr>wd_guard := g\<rparr>"
  have run: "verify_shard W sh False w =
      (Inr (), settle_pack (sh_pack_id sh) (book_check W sh ''LIGHT'' ''HEALTHY'' (Some (sh_size sh)) None ?w1))"
    using assms(2-6) by (simp add: verify_shard_def Let_def head_object_def)
  let ?r = "sh\<lparr>sh_status := ''COMPLETED'', sh_last_verified_at := Some (sc_now W), sh_last_verification_method := Some ''LIGHT'',
    sh_last_verification_status := Some ''HEALTHY'', sh_last_verified_size := Some (sh_size sh), sh_last_error := None\<rparr>"
  have "?r \<in> set (pack_shards (wd_db (snd (verify_shard W sh False w))))"
    using assms(1) by (auto simp: run book_check_rows update_where_def is_shard_def intro!: image_eqI [of _ _ sh])
  moreover have "\<not> shard_backed (sc_sha256 W) (snd (verify_shard W sh False w)) ?r"
    using assms(5,7) by (simp add: run shard_backed_def)
  ultimately show ?thesis by (intro conjI bexI [of _ ?r]) (simp_all add: run)
qed

text \<open>Three shards of which the first has been replaced by another byte.\<close>

definition rotten_world :: world where
  "rotten_world = demo_world\<lparr>wd_db := demo_db\<lparr>pack_shards := [(demo_shard 0 ''a'')\<lparr>sh_status := ''PENDING''\<rparr>,
       (demo_shard 1 ''b'')\<lparr>sh_status := ''COMPLETED''\<rparr>, (demo_shard 2 ''c'')\<lparr>sh_status := ''COMPLETED''\<rparr>]\<rparr>,
     wd_cloud := (\<lambda>p k. if k \<noteq> ''k'' then None else if p = ''a'' then Some [9] else if p = ''b'' then Some [1]
        else if p = ''c'' then Some [2] else None)\<rparr>"

definition demo_scrubber :: ScrubberWorker where
  "demo_scrubber = \<lparr>sc_sha256 = (\<lambda>bs. bs), sc_config = demo_config, sc_net = demo_net, sc_providers = (\<lambda>p. Some p),
     sc_poll_interval = 1, sc_batch_size = 16, sc_deep_verify_modulus = 20, sc_now = 5\<rparr>"

definition deep_checked :: world where
  "deep_checked = snd (verify_shard demo_scrubber (hd (pack_shards (wd_db rotten_world))) True rotten_world)"

theorem deep_check_sound_witness:
  "checked (\<lambda>bs. bs) (hd (pack_shards (wd_db rotten_world))) rotten_world deep_checked \<and> backed (\<lambda>bs. bs) deep_checked \<and>
   map sh_last_verification_status (pack_shards (wd_db deep_checked)) = [Some ''CORRUPTED'', None, None]"
proof -
  let ?sh = "hd (pack_shards (wd_db rotten_world))"
  have ok: "schema_ok (wd_db rotten_world)" by code_simp
  have sh: "?sh \<in> set (pack_shards (wd_db rotten_world))" by (simp add: rotten_world_def)
  have before: "backed (sc_sha256 demo_scrubber) rotten_world" by code_simp
  have after: "map sh_last_verification_status (pack_shards (wd_db deep_checked)) = [Some ''CORRUPTED'', None, None]" by code_simp
  have sha: "sc_sha256 demo_scrubber = (\<lambda>bs. bs)" by (simp add: demo_scrubber_def)
  from deep_check_sound [OF ok sh, of demo_scrubber "fst (verify_shard demo_scrubber ?sh True rotten_world)" deep_checked] before after
  show ?thesis by (simp add: sha deep_checked_def)
qed

theorem light_check_overrules_deep_witness:
  "map sh_status (pack_shards (wd_db deep_checked)) = [''FAILED'', ''COMPLETED'', ''COMPLETED''] \<and>
   (\<exists>r \<in> set (pack_shards (wd_db (snd (verify_shard demo_scrubber (hd (pack_shards (wd_db deep_checked))) False deep_checked)))).
      sh_id r = 0 \<and> sh_status r = ''COMPLETED'' \<and> \<not> shard_backed (\<lambda>bs. bs)
        (snd (verify_shard demo_scrubber (hd (pack_shards (wd_db deep_checked))) False deep_checked)) r)"
proof -
  let ?sh = "hd (pack_shards (wd_db deep_checked))"
  have st: "map sh_status (pack_shards (wd_db deep_checked)) = [''FAILED'', ''COMPLETED'', ''COMPLETED'']" by code_simp
  then have ne: "pack_shards (wd_db deep_checked) \<noteq> []" by auto
  then have sh: "?sh \<in> set (pack_shards (wd_db deep_checked))" by (rule hd_in_set)
  have p: "sc_providers demo_scrubber (sh_provider ?sh) \<noteq> None" by (simp add: demo_scrubber_def)
  have g: "fst (try_authorize_read (sc_config demo_scrubber) (sc_now demo_scrubber) (wd_guard deep_checked) 0) = Inr ()" by code_simp
  have g': "try_authorize_read (sc_config demo_scrubber) (sc_now demo_scrubber) (wd_guard deep_checked) 0 =
      (Inr (), snd (try_authorize_read (sc_config demo_scrubber) (sc_now demo_scrubber) (wd_guard deep_checked) 0))"
    using g by (simp add: prod_eq_iff)
  have h: "ne_head (sc_net demo_scrubber) (sh_provider ?sh) (sh_object_key ?sh) = None"
    by (simp add: demo_scrubber_def demo_net_def)
  have o: "wd_cloud deep_checked (sh_provider ?sh) (sh_object_key ?sh) = Some [9]" by code_simp
  have l: "int (length [9 :: byte]) = sh_size ?sh" by code_simp
  have x: "hex_sha256 (sc_sha256 demo_scrubber) [9] \<noteq> sh_checksum ?sh" by code_simp
  have i: "sh_id ?sh = 0" by code_simp
  have sha: "sc_sha256 demo_scrubber = (\<lambda>bs. bs)" by (simp add: demo_scrubber_def)
  from light_check_overrules_deep [OF sh p g' h o l x] st show ?thesis by (auto simp: sha i)
qed

end
