(* ===== verification/GcWorker.thy ===== *)
theory GcWorker
  imports Uploader
begin

text \<open>
  The garbage collector (\<^verbatim>\<open>gc.rs\<close>): a pack no chunk is located in is removed from the providers, then from the database,
  then from the spool. A deletion of an object that is not there counts as done.
\<close>

datatype GcError = GE_MissingProviderConfig | GE_InvalidEnv string | GE_Io | GE_Db sqlx_error | GE_Timeout string
  | GE_Provider string string string

record GcWorker =
  gc_net :: net
  gc_providers :: "string \<Rightarrow> string option"
  gc_batch_size :: int

definition delete_shard_object :: "GcWorker \<Rightarrow> PackShardRecord \<Rightarrow> world \<Rightarrow> (GcError + unit) \<times> world" where
  "delete_shard_object W sh w =
     (if gc_providers W (sh_provider sh) = None then (Inl (GE_InvalidEnv ''gc provider not configured''), w)
      else (case delete_object (gc_net W) w (sh_provider sh) (sh_object_key sh) of
              (Inr _, w') \<Rightarrow> (Inr (), w')
            | (Inl FaultTimeout, w') \<Rightarrow> (Inl (GE_Timeout (sh_provider sh)), w')
            | (Inl (FaultError details), w') \<Rightarrow>
                (if is_not_found_details details then Inr () else Inl (GE_Provider (sh_provider sh) ''delete_object'' details), w')))"

fun delete_shard_objects :: "GcWorker \<Rightarrow> PackShardRecord list \<Rightarrow> world \<Rightarrow> (GcError + unit) \<times> world" where
  "delete_shard_objects W [] w = (Inr (), w)"
| "delete_shard_objects W (sh # shs) w = bindW (delete_shard_object W sh) (\<lambda>_. delete_shard_objects W shs) w"

definition remove_file_if_exists :: "GcWorker \<Rightarrow> string \<Rightarrow> world \<Rightarrow> (GcError + unit) \<times> world" where
  "remove_file_if_exists W name w =
     (if wd_spool w name = None then (Inr (), w)
      else if ne_unlink (gc_net W) name = FileDone then (Inr (), set_spool name None w)
      else (Inl GE_Io, w))"

fun remove_files :: "GcWorker \<Rightarrow> string list \<Rightarrow> world \<Rightarrow> (GcError + unit) \<times> world" where
  "remove_files W [] w = (Inr (), w)"
| "remove_files W (x # xs) w = bindW (remove_file_if_exists W x) (\<lambda>_. remove_files W xs) w"

definition cleanup_local_files :: "GcWorker \<Rightarrow> string \<Rightarrow> world \<Rightarrow> (GcError + unit) \<times> world" where
  "cleanup_local_files W pack_id =
     remove_files W (local_pack_name pack_id # map (local_shard_name pack_id) [0..<TOTAL_SHARDS])"

definition collect_pack :: "GcWorker \<Rightarrow> string \<Rightarrow> world \<Rightarrow> (GcError + unit) \<times> world" where
  "collect_pack W pack_id w =
     bindW (delete_shard_objects W (get_pack_shards (wd_db w) pack_id)) (\<lambda>_.
     bindW (modify_db (\<lambda>s. delete_pack_metadata s pack_id)) (\<lambda>_.
     cleanup_local_files W pack_id)) w"

fun collect_packs :: "GcWorker \<Rightarrow> string list \<Rightarrow> world \<Rightarrow> world" where
  "collect_packs W [] w = w"
| "collect_packs W (p # ps) w = collect_packs W ps (snd (collect_pack W p w))"

definition gc_worker_turn :: "GcWorker \<Rightarrow> world \<Rightarrow> bool \<times> world" where
  "gc_worker_turn W w =
     (let orphaned = get_orphaned_pack_ids (wd_db w) (gc_batch_size W)
      in (orphaned \<noteq> [], collect_packs W orphaned w))"

section \<open>Only orphans are removed\<close>

definition only_at :: "PackShardRecord set \<Rightarrow> world \<Rightarrow> world \<Rightarrow> bool" where
  "only_at rows w w' \<longleftrightarrow> (\<forall>provider key. wd_cloud w' provider key = wd_cloud w provider key \<or>
     (\<exists>r \<in> rows. provider = sh_provider r \<and> key = sh_object_key r))"

lemma only_at_refl [simp]: "only_at rows w w"
  by (simp add: only_at_def)

lemma only_at_trans: "only_at A w w1 \<Longrightarrow> only_at B w1 w2 \<Longrightarrow> A \<union> B \<subseteq> C \<Longrightarrow> only_at C w w2"
  unfolding only_at_def by (metis (no_types, lifting) Un_iff subset_iff)

lemma delete_shard_object_only:
  assumes "delete_shard_object W sh w = (r, w')"
  shows "wd_db w' = wd_db w \<and> wd_spool w' = wd_spool w \<and> only_at {sh} w w'"
  using assms
  by (auto simp: delete_shard_object_def delete_object_def store_object_def only_at_def
      split: if_splits delete_outcome.splits net_fault.splits sum.splits)

lemma delete_shard_objects_only:
  "delete_shard_objects W shs w = (r, w') \<Longrightarrow> wd_db w' = wd_db w \<and> wd_spool w' = wd_spool w \<and> only_at (set shs) w w'"
proof (induction shs arbitrary: w)
  case (Cons sh shs)
  from Cons.prems show ?case unfolding delete_shard_objects.simps
  proof (cases rule: bindW_cases)
    case (err e)
    from delete_shard_object_only [OF err(1)] show ?thesis by (auto intro: only_at_trans [OF _ only_at_refl])
  next
    case (ok x w1)
    from delete_shard_object_only [OF ok(1)] Cons.IH [OF ok(2)] show ?thesis by (auto intro: only_at_trans)
  qed
qed simp

lemma remove_files_only:
  "remove_files W xs w = (r, w') \<Longrightarrow> wd_db w' = wd_db w \<and> wd_cloud w' = wd_cloud w \<and>
     (\<forall>x. wd_spool w' x = wd_spool w x \<or> x \<in> set xs)"
proof (induction xs arbitrary: w)
  case (Cons a xs)
  have step: "remove_file_if_exists W a w = (q, v) \<Longrightarrow> wd_db v = wd_db w \<and> wd_cloud v = wd_cloud w \<and>
      (\<forall>x. wd_spool v x = wd_spool w x \<or> x = a)" for q v
    by (auto simp: remove_file_if_exists_def set_spool_def split: if_splits)
  from Cons.prems show ?case unfolding remove_files.simps
  proof (cases rule: bindW_cases)
    case (err e)
    with step show ?thesis by auto
  next
    case (ok x w1)
    from step [OF ok(1)] Cons.IH [OF ok(2)] show ?thesis by (metis list.set_intros)
  qed
qed simp

text \<open>Collecting one pack: its objects, then its rows, then its files; a failed deletion leaves the rows.\<close>

lemma collect_pack_result:
  assumes "collect_pack W p w = (r, w')"
  shows "only_at (set (get_pack_shards (wd_db w) p)) w w'"
    and "wd_db w' = wd_db w \<and> isl r \<and> wd_spool w' = wd_spool w \<or> wd_db w' = delete_pack_metadata (wd_db w) p"
    and "wd_spool w' x = wd_spool w x \<or> x \<in> set (pack_files p)"
proof -
  have "only_at (set (get_pack_shards (wd_db w) p)) w w' \<and>
    (wd_db w' = wd_db w \<and> isl r \<and> wd_spool w' = wd_spool w \<or> wd_db w' = delete_pack_metadata (wd_db w) p) \<and>
    (wd_spool w' x = wd_spool w x \<or> x \<in> set (pack_files p))"
    using assms unfolding collect_pack_def
  proof (cases rule: bindW_cases)
    case (err e)
    with delete_shard_objects_only [OF err(1)] show ?thesis by auto
  next
    case (ok u w1)
    note d = delete_shard_objects_only [OF ok(1)]
    from ok(2) have "cleanup_local_files W p (w1\<lparr>wd_db := delete_pack_metadata (wd_db w1) p\<rparr>) = (r, w')" by simp
    from remove_files_only [OF this [unfolded cleanup_local_files_def]] d show ?thesis
      by (auto simp: only_at_def pack_files_def)
  qed
  then show "only_at (set (get_pack_shards (wd_db w) p)) w w'"
    and "wd_db w' = wd_db w \<and> isl r \<and> wd_spool w' = wd_spool w \<or> wd_db w' = delete_pack_metadata (wd_db w) p"
    and "wd_spool w' x = wd_spool w x \<or> x \<in> set (pack_files p)"
    by blast+
qed

text \<open>What a series of collections leaves of the packs that are not collected.\<close>

definition spares :: "string set \<Rightarrow> world \<Rightarrow> world \<Rightarrow> bool" where
  "spares P w w' \<longleftrightarrow>
     filter (\<lambda>r. pk_pack_id r \<notin> P) (packs (wd_db w')) = filter (\<lambda>r. pk_pack_id r \<notin> P) (packs (wd_db w)) \<and>
     filter (\<lambda>r. sh_pack_id r \<notin> P) (pack_shards (wd_db w')) = filter (\<lambda>r. sh_pack_id r \<notin> P) (pack_shards (wd_db w)) \<and>
     filter (\<lambda>r. pl_pack_id r \<notin> P) (pack_locations (wd_db w')) = filter (\<lambda>r. pl_pack_id r \<notin> P) (pack_locations (wd_db w)) \<and>
     filter (\<lambda>r. uj_pack_id r \<notin> P) (upload_jobs (wd_db w')) = filter (\<lambda>r. uj_pack_id r \<notin> P) (upload_jobs (wd_db w)) \<and>
     chunk_refs (wd_db w') = chunk_refs (wd_db w) \<and> file_revisions (wd_db w') = file_revisions (wd_db w) \<and>
     set (pack_shards (wd_db w')) \<subseteq> set (pack_shards (wd_db w)) \<and>
     only_at {r \<in> set (pack_shards (wd_db w)). sh_pack_id r \<in> P} w w' \<and>
     (\<forall>x. wd_spool w' x = wd_spool w x \<or> (\<exists>p \<in> P. x \<in> set (pack_files p)))"

lemma spares_refl: "spares P w w"
  by (simp add: spares_def)

lemma spares_trans:
  assumes "spares P w w1" and "spares P w1 w2"
  shows "spares P w w2"
proof -
  have at: "only_at {r \<in> set (pack_shards (wd_db w)). sh_pack_id r \<in> P} w w1"
      "only_at {r \<in> set (pack_shards (wd_db w1)). sh_pack_id r \<in> P} w1 w2"
    and sub: "set (pack_shards (wd_db w1)) \<subseteq> set (pack_shards (wd_db w))" using assms by (simp_all add: spares_def)
  have "only_at {r \<in> set (pack_shards (wd_db w)). sh_pack_id r \<in> P} w w2"
    by (rule only_at_trans [OF at]) (use sub in auto)
  moreover have "wd_spool w2 x = wd_spool w x \<or> (\<exists>p \<in> P. x \<in> set (pack_files p))" for x
    using assms unfolding spares_def by metis
  moreover have "set (pack_shards (wd_db w2)) \<subseteq> set (pack_shards (wd_db w))" using assms by (auto simp: spares_def)
  ultimately show ?thesis using assms by (simp add: spares_def)
qed

lemma collect_pack_spares:
  assumes s: "schema_ok (wd_db w)" and p: "p \<in> P" and run: "collect_pack W p w = (r, w')"
  shows "schema_ok (wd_db w') \<and> spares P w w'"
proof -
  note c = collect_pack_result [OF run]
  have rows: "set (get_pack_shards (wd_db w) p) \<subseteq> {r \<in> set (pack_shards (wd_db w)). sh_pack_id r \<in> P}"
    using p by (auto simp: get_pack_shards_def)
  have at: "only_at {r \<in> set (pack_shards (wd_db w)). sh_pack_id r \<in> P} w w'"
    using only_at_trans [OF c(1) only_at_refl [of "{}" w']] rows by simp
  have spool: "\<forall>x. wd_spool w' x = wd_spool w x \<or> (\<exists>p \<in> P. x \<in> set (pack_files p))" using c(3) p by blast
  have keep: "filter (\<lambda>r. f r \<noteq> p \<and> f r \<notin> P) xs = filter (\<lambda>r. f r \<notin> P) xs" for f :: "'x \<Rightarrow> string" and xs
    using p by (auto intro!: filter_cong)
  from c(2) show ?thesis
  proof
    assume "wd_db w' = wd_db w \<and> isl r \<and> wd_spool w' = wd_spool w"
    with s at spool show ?thesis by (simp add: spares_def)
  next
    assume d: "wd_db w' = delete_pack_metadata (wd_db w) p"
    then show ?thesis
      using at spool schema_ok_delete_pack_metadata [OF s]
      by (simp add: spares_def delete_pack_metadata_tables delete_pack_metadata_shards [OF s] keep)
  qed
qed

lemma collect_packs_spares: "schema_ok (wd_db w) \<Longrightarrow> set ps \<subseteq> P \<Longrightarrow> spares P w (collect_packs W ps w)"
proof (induction ps arbitrary: w)
  case (Cons p ps)
  obtain r w1 where 1: "collect_pack W p w = (r, w1)" by force
  from collect_pack_spares [OF Cons.prems(1) _ 1, of P] Cons.prems(2) have "schema_ok (wd_db w1)" "spares P w w1" by simp_all
  with Cons.IH [of w1] Cons.prems(2) 1 show ?case by (auto intro: spares_trans)
qed (simp add: spares_refl)

text \<open>The packs the collector may remove: no chunk is located in them and they are not being uploaded.\<close>

definition orphans :: "db \<Rightarrow> string set" where
  "orphans s = {p. \<not> has_location s p \<and> (\<forall>r \<in> set (packs s). pk_pack_id r = p \<longrightarrow> pk_status r \<noteq> ''UPLOADING'')}"

text \<open>
  C7: the garbage collector removes orphans only. Whatever the providers and the disk do during a turn of the collector,
  a pack that some chunk is located in, or that is being uploaded, keeps its rows, its objects and its files: the tables
  are unchanged but for rows of orphans, no location of a chunk is touched, an object disappears only at the place of a
  shard of an orphan, and so every such pack whose shards were stored still has them stored.
\<close>

theorem gc_spares_located_packs:
  assumes "schema_ok (wd_db w)" and "places_distinct (wd_db w)" and "gc_worker_turn W w = (busy, w')"
  shows "spares (orphans (wd_db w)) w w' \<and>
    (\<forall>r \<in> set (pack_shards (wd_db w)). has_location (wd_db w) (sh_pack_id r) \<longrightarrow>
       r \<in> set (pack_shards (wd_db w')) \<and> wd_cloud w' (sh_provider r) (sh_object_key r) = wd_cloud w (sh_provider r) (sh_object_key r))"
proof -
  let ?P = "orphans (wd_db w)"
  have loc: "\<not> has_location (wd_db w) p" if "p \<in> ?P" for p using that by (simp add: orphans_def)
  have unique: "x = y" if "x \<in> set (packs (wd_db w))" "y \<in> set (packs (wd_db w))" "pk_pack_id x = pk_pack_id y" for x y
    using assms(1) that distinct_map_key [of pk_pack_id "packs (wd_db w)" x y] by (simp add: schema_ok_def)
  have "set (get_orphaned_pack_ids (wd_db w) (gc_batch_size W)) \<subseteq> ?P"
  proof
    fix p assume "p \<in> set (get_orphaned_pack_ids (wd_db w) (gc_batch_size W))"
    then have "p \<in> pk_pack_id ` {x \<in> set (packs (wd_db w)). \<not> has_location (wd_db w) (pk_pack_id x) \<and> pk_status x \<noteq> ''UPLOADING''}"
      by (auto simp: get_orphaned_pack_ids_def dest!: set_sql_limit [THEN subsetD])
    then obtain x where x: "x \<in> set (packs (wd_db w))" "p = pk_pack_id x" "\<not> has_location (wd_db w) p" "pk_status x \<noteq> ''UPLOADING''"
      by blast
    have "\<forall>r \<in> set (packs (wd_db w)). pk_pack_id r = p \<longrightarrow> pk_status r \<noteq> ''UPLOADING''"
    proof (intro ballI impI)
      fix r assume "r \<in> set (packs (wd_db w))" "pk_pack_id r = p"
      with unique [of r x] x show "pk_status r \<noteq> ''UPLOADING''" by simp
    qed
    with x show "p \<in> ?P" by (simp add: orphans_def)
  qed
  from collect_packs_spares [OF assms(1) this, of W] assms(3) have sp: "spares ?P w w'"
    by (simp add: gc_worker_turn_def Let_def)
  have kept: "r \<in> set (pack_shards (wd_db w')) \<and> wd_cloud w' (sh_provider r) (sh_object_key r) = wd_cloud w (sh_provider r) (sh_object_key r)"
    if r: "r \<in> set (pack_shards (wd_db w))" "has_location (wd_db w) (sh_pack_id r)" for r
  proof
    from r loc have "r \<in> set (filter (\<lambda>r. sh_pack_id r \<notin> ?P) (pack_shards (wd_db w)))" by auto
    then have "r \<in> set (filter (\<lambda>r. sh_pack_id r \<notin> ?P) (pack_shards (wd_db w')))" using sp by (simp add: spares_def)
    then show "r \<in> set (pack_shards (wd_db w'))" by simp
    have "q = r" if "q \<in> set (pack_shards (wd_db w))" "sh_provider q = sh_provider r" "sh_object_key q = sh_object_key r" for q
      using assms(2) r(1) that distinct_map_key [of "\<lambda>r. (sh_provider r, sh_object_key r)" "pack_shards (wd_db w)" q r]
      by (simp add: places_distinct_def)
    then have "\<not> (\<exists>q \<in> {q \<in> set (pack_shards (wd_db w)). sh_pack_id q \<in> ?P}. sh_provider r = sh_provider q \<and> sh_object_key r = sh_object_key q)"
      using r(2) loc by (metis (mono_tags, lifting) mem_Collect_eq)
    moreover have "only_at {q \<in> set (pack_shards (wd_db w)). sh_pack_id q \<in> ?P} w w'" using sp by (simp add: spares_def)
    ultimately show "wd_cloud w' (sh_provider r) (sh_object_key r) = wd_cloud w (sh_provider r) (sh_object_key r)"
      unfolding only_at_def by blast
  qed
  with sp show ?thesis by simp
qed

section \<open>A collection that fails half way\<close>

text \<open>A provider that answers a deletion with \<open>not found\<close> has no object there.\<close>

definition not_found_holds :: "GcWorker \<Rightarrow> world \<Rightarrow> bool" where
  "not_found_holds W w \<longleftrightarrow> (\<forall>p k d. ne_delete (gc_net W) p k = DeleteLost (FaultError d) \<longrightarrow> is_not_found_details d \<longrightarrow> wd_cloud w p k = None)"

definition object_gone :: "world \<Rightarrow> PackShardRecord \<Rightarrow> bool" where
  "object_gone w sh \<longleftrightarrow> wd_cloud w (sh_provider sh) (sh_object_key sh) = None"

lemma delete_shard_object_effect:
  assumes "delete_shard_object W sh w = (r, w')" and "not_found_holds W w"
  shows "not_found_holds W w'" and "object_gone w d \<Longrightarrow> object_gone w' d" and "isl r \<or> object_gone w' sh"
    and "ne_delete (gc_net W) (sh_provider sh) (sh_object_key sh) = DeleteLanded f \<Longrightarrow> gc_providers W (sh_provider sh) \<noteq> None \<Longrightarrow> object_gone w' sh"
    and "r \<noteq> Inl GE_Io"
  using assms
  by (auto simp: delete_shard_object_def delete_object_def store_object_def not_found_holds_def object_gone_def
      split: if_splits delete_outcome.splits net_fault.splits sum.splits)

text \<open>
  The objects go one after the other, and the first deletion that fails ends it: the objects of the shards before it are
  gone, those of the shards after it are not touched, and its own is gone when the deletion happened all the same.
\<close>

definition half_deleted :: "GcWorker \<Rightarrow> PackShardRecord list \<Rightarrow> world \<Rightarrow> world \<Rightarrow> bool" where
  "half_deleted W shs w w' \<longleftrightarrow> (\<exists>gone sh rest. shs = gone @ sh # rest \<and> (\<forall>d \<in> set gone. object_gone w' d) \<and>
     only_at (set (gone @ [sh])) w w' \<and>
     (gc_providers W (sh_provider sh) \<noteq> None \<longrightarrow>
        (\<forall>f. ne_delete (gc_net W) (sh_provider sh) (sh_object_key sh) = DeleteLanded f \<longrightarrow> object_gone w' sh)))"

lemma half_deletedI:
  "shs = gone @ sh # rest \<Longrightarrow> (\<And>d. d \<in> set gone \<Longrightarrow> object_gone w' d) \<Longrightarrow> only_at (set (gone @ [sh])) w w' \<Longrightarrow>
   (\<And>f. gc_providers W (sh_provider sh) \<noteq> None \<Longrightarrow>
      ne_delete (gc_net W) (sh_provider sh) (sh_object_key sh) = DeleteLanded f \<Longrightarrow> object_gone w' sh) \<Longrightarrow>
   half_deleted W shs w w'"
  unfolding half_deleted_def by blast

lemma delete_shard_objects_effect:
  assumes "delete_shard_objects W shs w = (r, w')" and "not_found_holds W w"
  shows "(\<forall>d. object_gone w d \<longrightarrow> object_gone w' d) \<and>
    (case r of Inr _ \<Rightarrow> \<forall>d \<in> set shs. object_gone w' d | Inl e \<Rightarrow> e \<noteq> GE_Io \<and> half_deleted W shs w w')"
  using assms
proof (induction shs arbitrary: w)
  case (Cons sh shs)
  from Cons.prems(1) show ?case unfolding delete_shard_objects.simps
  proof (cases rule: bindW_cases)
    case (err e)
    note eff = delete_shard_object_effect [OF err(1) Cons.prems(2)]
    have "half_deleted W (sh # shs) w w'"
      by (rule half_deletedI [where gone = "[]" and sh = sh and rest = shs])
        (use delete_shard_object_only [OF err(1)] eff(4) in auto)
    with err(2) eff(2,5) show ?thesis by simp
  next
    case (ok x w1)
    note eff = delete_shard_object_effect [OF ok(1) Cons.prems(2)]
    note ih = Cons.IH [OF ok(2) eff(1)]
    have first: "object_gone w' sh" using eff(3) ih by simp
    show ?thesis
    proof (cases r)
      case (Inr u)
      with ih first eff(2) show ?thesis by simp
    next
      case (Inl e)
      with ih obtain gone sh' rest where g: "shs = gone @ sh' # rest" "\<forall>d \<in> set gone. object_gone w' d"
        "only_at (set (gone @ [sh'])) w1 w'" "gc_providers W (sh_provider sh') \<noteq> None \<longrightarrow>
          (\<forall>f. ne_delete (gc_net W) (sh_provider sh') (sh_object_key sh') = DeleteLanded f \<longrightarrow> object_gone w' sh')"
        unfolding half_deleted_def by auto
      have one: "only_at {sh} w w1" using delete_shard_object_only [OF ok(1)] by blast
      have "only_at (set ((sh # gone) @ [sh'])) w w'" by (rule only_at_trans [OF one g(3)]) auto
      with g first have "half_deleted W (sh # shs) w w'"
        by (intro half_deletedI [where gone = "sh # gone" and sh = sh' and rest = rest]) auto
      with Inl ih eff(2) show ?thesis by simp
    qed
  qed
qed auto

text \<open>
  C40: a collection that fails while it deletes the objects leaves a husk. The objects go first, in the order of the shards,
  and the rows after them. When the deletion of one object fails, with or without effect, the objects of the shards before it
  are gone, no object of a later shard has been touched, and all rows and files stay as they were: the pack keeps its status,
  and the search for a pack with the same content still finds it for a new file. Only a failure of the last part, the removal
  of the local files, comes after the rows are gone. (A provider that reports an object as not found is taken to have none.)
\<close>

theorem gc_interrupted_leaves_husk:
  assumes run: "collect_pack W p w = (Inl e, w')" and nf: "not_found_holds W w"
  shows "(e \<noteq> GE_Io \<longrightarrow> wd_db w' = wd_db w \<and> wd_spool w' = wd_spool w \<and>
      find_pack_by_plaintext_hash (wd_db w') h mode = find_pack_by_plaintext_hash (wd_db w) h mode \<and>
      half_deleted W (get_pack_shards (wd_db w') p) w w') \<and>
    (e = GE_Io \<longrightarrow> wd_db w' = delete_pack_metadata (wd_db w) p \<and> (\<forall>d \<in> set (get_pack_shards (wd_db w) p). object_gone w' d))"
  using run unfolding collect_pack_def
proof (cases rule: bindW_cases)
  case (err e')
  from delete_shard_objects_only [OF err(1)] delete_shard_objects_effect [OF err(1) nf] err(2) show ?thesis by simp
next
  case (ok u w1)
  from delete_shard_objects_effect [OF ok(1) nf] have gone: "\<forall>d \<in> set (get_pack_shards (wd_db w) p). object_gone w1 d" by simp
  from delete_shard_objects_only [OF ok(1)] have db: "wd_db w1 = wd_db w" by simp
  from ok(2) have rm: "remove_files W (local_pack_name p # map (local_shard_name p) [0..<TOTAL_SHARDS])
      (w1\<lparr>wd_db := delete_pack_metadata (wd_db w1) p\<rparr>) = (Inl e, w')" by (simp add: cleanup_local_files_def)
  have io: "remove_files W xs v = (Inl e, v') \<Longrightarrow> e = GE_Io" for xs v v'
  proof (induction xs arbitrary: v)
    case (Cons x xs)
    from Cons.prems show ?case unfolding remove_files.simps
      by (cases rule: bindW_cases) (auto simp: remove_file_if_exists_def split: if_splits dest: Cons.IH)
  qed simp
  from remove_files_only [OF rm] have "wd_cloud w' = wd_cloud w1" "wd_db w' = delete_pack_metadata (wd_db w) p"
    by (simp_all add: db)
  with io [OF rm] gone show ?thesis by (simp add: object_gone_def)
qed

text \<open>A healthy pack no chunk is located in, and providers of which the second refuses the deletion.\<close>

definition orphan_world :: world where
  "orphan_world = demo_world\<lparr>wd_db := demo_db\<lparr>packs := [demo_pack\<lparr>pk_status := ''COMPLETED_HEALTHY'', pk_plaintext_hash := Some ''h''\<rparr>],
       pack_shards := [(demo_shard 0 ''a'')\<lparr>sh_status := ''COMPLETED''\<rparr>, (demo_shard 1 ''b'')\<lparr>sh_status := ''COMPLETED''\<rparr>,
         (demo_shard 2 ''c'')\<lparr>sh_status := ''COMPLETED''\<rparr>]\<rparr>,
     wd_cloud := (\<lambda>p k. if p = ''a'' then Some [0] else if p = ''b'' then Some [1] else Some [2])\<rparr>"

definition demo_gc :: GcWorker where
  "demo_gc = \<lparr>gc_net = demo_net, gc_providers = (\<lambda>p. Some p), gc_batch_size = 25\<rparr>"

definition lossy_gc :: GcWorker where
  "lossy_gc = demo_gc\<lparr>gc_net := demo_net\<lparr>ne_delete := \<lambda>p _. if p = ''b'' then DeleteLost (FaultError ''503'') else DeleteDone\<rparr>\<rparr>"

theorem gc_spares_located_packs_witness:
  "spares (orphans (wd_db orphan_world)) orphan_world (snd (gc_worker_turn demo_gc orphan_world)) \<and>
   packs (wd_db (snd (gc_worker_turn demo_gc orphan_world))) = [] \<and> fst (gc_worker_turn demo_gc orphan_world)"
proof -
  have ok: "schema_ok (wd_db orphan_world)" by code_simp
  have pl: "places_distinct (wd_db orphan_world)" by code_simp
  have run: "packs (wd_db (snd (gc_worker_turn demo_gc orphan_world))) = []" by code_simp
  have busy: "fst (gc_worker_turn demo_gc orphan_world)" by code_simp
  from gc_spares_located_packs [OF ok pl prod.collapse [symmetric], of demo_gc] run busy show ?thesis by blast
qed

definition husk_world :: world where
  "husk_world = snd (collect_pack lossy_gc ''p'' orphan_world)"

theorem gc_interrupted_leaves_husk_witness:
  "collect_pack lossy_gc ''p'' orphan_world = (Inl (GE_Provider ''b'' ''delete_object'' ''503''), husk_world) \<and>
   half_deleted lossy_gc (get_pack_shards (wd_db husk_world) ''p'') orphan_world husk_world \<and>
   map (object_gone husk_world) (get_pack_shards (wd_db husk_world) ''p'') = [True, False, False] \<and>
   map_option pk_status (find_pack_by_plaintext_hash (wd_db husk_world) ''h'' Ec2_1) = Some ''COMPLETED_HEALTHY''"
proof -
  have "fst (collect_pack lossy_gc ''p'' orphan_world) = Inl (GE_Provider ''b'' ''delete_object'' ''503'')" by code_simp
  then have run: "collect_pack lossy_gc ''p'' orphan_world = (Inl (GE_Provider ''b'' ''delete_object'' ''503''), husk_world)"
    by (simp add: husk_world_def prod_eq_iff)
  have nf: "not_found_holds lossy_gc orphan_world"
  proof -
    have "\<not> is_not_found_details ''503''" by code_simp
    then show ?thesis by (auto simp: not_found_holds_def lossy_gc_def demo_gc_def split: if_splits)
  qed
  have f: "map_option pk_status (find_pack_by_plaintext_hash (wd_db orphan_world) ''h'' Ec2_1) = Some ''COMPLETED_HEALTHY''" by code_simp
  have g: "map (object_gone husk_world) (get_pack_shards (wd_db husk_world) ''p'') = [True, False, False]" by code_simp
  have ne: "GE_Provider ''b'' ''delete_object'' ''503'' \<noteq> GE_Io" by simp
  note husk = gc_interrupted_leaves_husk [OF run nf, of "''h''" Ec2_1, THEN conjunct1, rule_format, OF ne]
  show ?thesis
    by (intro conjI, rule run, rule husk [THEN conjunct2, THEN conjunct2, THEN conjunct2], rule g)
      (simp only: husk [THEN conjunct2, THEN conjunct2, THEN conjunct1] f)
qed

end
