(* ===== verification/Conflicts.thy ===== *)
theory Conflicts
  imports Inodes
begin

text \<open>
  Conflict copies (\<^verbatim>\<open>db/conflicts.rs\<close>): when a local edit and the current revision of a file do not descend from one
  another, the current revision is kept as a file of its own, next to the first, and the event is recorded. The table of
  the events comes with the tables of the engine (\<open>cdb\<close>). A statement that fails leaves what the statements before it
  wrote, so an operation returns its result and the database it leaves.
\<close>

record ConflictEventRecord =
  ce_conflict_id :: int
  ce_inode_id :: int
  ce_winning_revision_id :: int
  ce_losing_revision_id :: int
  ce_reason :: string
  ce_materialized_inode_id :: "int option"
  ce_materialized_revision_id :: "int option"
  ce_created_at :: int

record cdb =
  cb_core :: db
  conflict_events :: "ConflictEventRecord list"
  conflict_events_seq :: int

section \<open>Events\<close>

definition create_conflict_event :: "cdb \<Rightarrow> int \<Rightarrow> int \<Rightarrow> int \<Rightarrow> int \<Rightarrow> string \<Rightarrow> sqlx_error + int \<times> cdb" where
  "create_conflict_event s now inode_id winning_revision_id losing_revision_id reason =
     (if inode_id \<notin> set (inode_ids (cb_core s)) \<or> winning_revision_id \<notin> set (revision_ids (cb_core s)) \<or>
         losing_revision_id \<notin> set (revision_ids (cb_core s)) then Inl ForeignKeyViolation
      else let new_id = conflict_events_seq s + 1
           in Inr (new_id, s\<lparr>conflict_events := conflict_events s @ [\<lparr>ce_conflict_id = new_id, ce_inode_id = inode_id,
                ce_winning_revision_id = winning_revision_id, ce_losing_revision_id = losing_revision_id,
                ce_reason = reason, ce_materialized_inode_id = None, ce_materialized_revision_id = None,
                ce_created_at = now\<rparr>], conflict_events_seq := new_id\<rparr>))"

definition attach_conflict_materialization :: "cdb \<Rightarrow> int \<Rightarrow> int \<Rightarrow> int \<Rightarrow> sqlx_error + cdb" where
  "attach_conflict_materialization s conflict_id materialized_inode_id materialized_revision_id =
     (if conflict_id \<in> set (map ce_conflict_id (conflict_events s)) \<and>
         (materialized_inode_id \<notin> set (inode_ids (cb_core s)) \<or>
          materialized_revision_id \<notin> set (revision_ids (cb_core s))) then Inl ForeignKeyViolation
      else Inr (s\<lparr>conflict_events := update_where (\<lambda>e. ce_conflict_id e = conflict_id)
        (\<lambda>e. e\<lparr>ce_materialized_inode_id := Some materialized_inode_id,
               ce_materialized_revision_id := Some materialized_revision_id\<rparr>) (conflict_events s)\<rparr>))"

definition list_recent_conflicts :: "cdb \<Rightarrow> int \<Rightarrow> ConflictEventRecord list" where
  "list_recent_conflicts s lim =
     sql_limit lim (sort_key (\<lambda>e. (- ce_created_at e, - ce_conflict_id e)) (conflict_events s))"

section \<open>Names of copies\<close>

text \<open>Characters are bytes here; of the control characters these are the ASCII ones.\<close>

definition split_file_name :: "string \<Rightarrow> string \<times> string" where
  "split_file_name name =
     (case rsplit_once (CHR ''.'') name of
        Some (stem, ext) \<Rightarrow> if stem \<noteq> [] \<and> ext \<noteq> [] then (stem, drop (length stem) name) else (name, [])
      | None \<Rightarrow> (name, []))"

definition is_control :: "char \<Rightarrow> bool" where
  "is_control c \<longleftrightarrow> of_char c < (32 :: nat) \<or> of_char c = (127 :: nat)"

definition sanitize_conflict_component :: "string \<Rightarrow> string" where
  "sanitize_conflict_component v =
     map (\<lambda>c. if c \<in> set ''<>:/|?*'' \<or> c = CHR 0x22 \<or> c = CHR 0x5C \<or> is_control c then CHR ''_'' else c) v"

definition build_conflict_copy_name :: "string \<Rightarrow> string \<Rightarrow> int \<Rightarrow> string" where
  "build_conflict_copy_name original_name device_name timestamp_ms =
     (let (stem, extension) = split_file_name original_name
      in stem @ '' (conflict - '' @ sanitize_conflict_component device_name @ '' - '' @ show_int timestamp_ms @ '')'' @ extension)"

definition disambiguate_conflict_copy_name :: "string \<Rightarrow> nat \<Rightarrow> string" where
  "disambiguate_conflict_copy_name base_name attempt =
     (let (stem, extension) = split_file_name base_name in stem @ '' ['' @ dec_nat attempt @ '']'' @ extension)"

definition copy_name_candidate :: "string \<Rightarrow> nat \<Rightarrow> string" where
  "copy_name_candidate base_name attempt =
     (if attempt = 0 then base_name else disambiguate_conflict_copy_name base_name attempt)"

section \<open>Making a copy\<close>

text \<open>The attempts left, each with the next name; only a name that is taken is tried again.\<close>

fun create_conflict_inode ::
  "db \<Rightarrow> int option \<Rightarrow> string \<Rightarrow> string \<Rightarrow> int \<Rightarrow> nat list \<Rightarrow> sqlx_error + (int \<times> string) \<times> db" where
  "create_conflict_inode s parent_id base_name kind fsize [] = Inl RowNotFound"
| "create_conflict_inode s parent_id base_name kind fsize (attempt # attempts) =
     (case create_inode s parent_id (copy_name_candidate base_name attempt) kind fsize of
        Inr (inode_id, s') \<Rightarrow> Inr ((inode_id, copy_name_candidate base_name attempt), s')
      | Inl UniqueViolation \<Rightarrow> create_conflict_inode s parent_id base_name kind fsize attempts
      | Inl e \<Rightarrow> Inl e)"

definition materialize_conflict_copy_from_revision ::
  "cdb \<Rightarrow> int \<Rightarrow> int \<Rightarrow> string option \<Rightarrow> string \<Rightarrow> string \<Rightarrow> (sqlx_error + int \<times> int \<times> string \<times> int) \<times> cdb" where
  "materialize_conflict_copy_from_revision s now source_revision_id device_id device_name reason =
     (case revision_row (cb_core s) source_revision_id of
        None \<Rightarrow> (Inl RowNotFound, s)
      | Some source \<Rightarrow>
     (case get_inode_by_id (cb_core s) (fr_inode_id source) of
        None \<Rightarrow> (Inl RowNotFound, s)
      | Some source_inode \<Rightarrow>
     (case create_conflict_inode (cb_core s) (in_parent_id source_inode)
             (build_conflict_copy_name (in_name source_inode) device_name (fr_created_at source))
             (in_kind source_inode) (fr_size source) [0..<16] of
        Inl e \<Rightarrow> (Inl e, s)
      | Inr ((inode_id, final_name), s1) \<Rightarrow>
     (case create_file_revision s1 now inode_id (fr_size source) (fr_immutable_until source) device_id
             (Some (fr_revision_id source)) ''conflict_copy'' (Some reason) of
        Inl e \<Rightarrow> (Inl e, s\<lparr>cb_core := s1\<rparr>)
      | Inr (revision_id, s2) \<Rightarrow>
     (case copy_chunk_refs s2 (fr_revision_id source) revision_id of
        Inl e \<Rightarrow> (Inl e, s\<lparr>cb_core := s2\<rparr>)
      | Inr s3 \<Rightarrow>
     (case create_conflict_event (s\<lparr>cb_core := s3\<rparr>) now (fr_inode_id source) (fr_revision_id source) revision_id reason of
        Inl e \<Rightarrow> (Inl e, s\<lparr>cb_core := s3\<rparr>)
      | Inr (conflict_id, s4) \<Rightarrow>
     (case attach_conflict_materialization s4 conflict_id inode_id revision_id of
        Inl e \<Rightarrow> (Inl e, s4)
      | Inr s5 \<Rightarrow> (Inr (inode_id, revision_id, final_name, conflict_id), s5))))))))"

section \<open>The copy holds the content\<close>

text \<open>The references of a copy are those of its source, in order, under new ids.\<close>

definition copies_ref :: "int \<Rightarrow> ChunkRefRecord \<Rightarrow> ChunkRefRecord \<Rightarrow> bool" where
  "copies_ref rv c c' \<longleftrightarrow> cref_revision_id c' = rv \<and> cref_chunk_id c' = cref_chunk_id c \<and>
     cref_file_offset c' = cref_file_offset c \<and> cref_size c' = cref_size c"

lemma insert_chunk_refs_rows:
  "\<exists>rows'. chunk_refs (insert_chunk_refs rv cs s) = chunk_refs s @ rows' \<and> list_all2 (copies_ref rv) cs rows'"
proof (induction cs arbitrary: s)
  case (Cons c cs)
  let ?c = "c\<lparr>cref_id := chunk_refs_seq s + 1, cref_revision_id := rv\<rparr>"
  from Cons.IH [of "s\<lparr>chunk_refs := chunk_refs s @ [?c], chunk_refs_seq := chunk_refs_seq s + 1\<rparr>"] obtain rows' where
    "chunk_refs (insert_chunk_refs rv (c # cs) s) = (chunk_refs s @ [?c]) @ rows'" "list_all2 (copies_ref rv) cs rows'"
    by auto
  moreover have "copies_ref rv c ?c" by (simp add: copies_ref_def)
  ultimately have "chunk_refs (insert_chunk_refs rv (c # cs) s) = chunk_refs s @ ?c # rows' \<and>
      list_all2 (copies_ref rv) (c # cs) (?c # rows')" by simp
  then show ?case by blast
qed simp

lemma insert_chunk_refs_other [simp]:
  "pack_locations (insert_chunk_refs rv cs s) = pack_locations s" "file_revisions (insert_chunk_refs rv cs s) = file_revisions s"
  "inodes (insert_chunk_refs rv cs s) = inodes s" "packs (insert_chunk_refs rv cs s) = packs s"
  by (induction cs arbitrary: s) simp_all

lemma locations_of_copies:
  assumes "list_all2 (copies_ref rv) rows rows'" and "sorted (map cref_file_offset rows)" and "pack_locations s' = pack_locations s"
  shows "chunk_locations s' rows' = chunk_locations s rows"
proof -
  have off: "map cref_file_offset rows' = map cref_file_offset rows"
    using assms(1) by (induction rule: list_all2_induct) (auto simp: copies_ref_def)
  then have sorted: "sort_key cref_file_offset rows' = rows'" "sort_key cref_file_offset rows = rows"
    using assms(2) by (simp_all add: sort_key_id_if_sorted)
  have "map (join_location s') (List.enumerate n rows') = map (join_location s) (List.enumerate n rows)" for n
    using assms(1)
    by (induction arbitrary: n rule: list_all2_induct) (auto simp: copies_ref_def join_location_def assms(3))
  then show ?thesis by (simp add: chunk_locations_def ordered_chunks_def sorted)
qed

lemma get_chunk_refs_sorted: "sorted (map cref_file_offset (get_chunk_refs_for_revision s rv))"
  by (simp add: get_chunk_refs_for_revision_def)

lemma locations_by_refs:
  "get_chunk_locations_for_revision s rv = chunk_locations s (get_chunk_refs_for_revision s rv)"
  by (simp add: get_chunk_locations_for_revision_def get_chunk_refs_for_revision_def chunk_locations_def ordered_chunks_def
      sort_key_id_if_sorted)

text \<open>Which inode is made: the first free name of the candidates.\<close>

lemma create_conflict_inode_taken:
  assumes "kind \<in> {''FILE'', ''DIR''}" and "\<forall>a \<in> set as. inode_name_taken s par (copy_name_candidate base a)"
  shows "create_conflict_inode s par base kind n as = Inl RowNotFound"
  using assms(2)
  by (induction as) (use assms(1) in \<open>auto simp: create_inode_def validate_inode_kind_def insert_inode_def\<close>)

lemma create_conflict_inode_free:
  assumes "kind \<in> {''FILE'', ''DIR''}" and "refers_to (inode_ids s) par"
    and "\<exists>a \<in> set as. \<not> inode_name_taken s par (copy_name_candidate base a)"
  shows "\<exists>a \<in> set as. \<not> inode_name_taken s par (copy_name_candidate base a) \<and>
    (\<exists>s'. create_conflict_inode s par base kind n as = Inr ((inodes_seq s + 1, copy_name_candidate base a), s') \<and>
       create_inode s par (copy_name_candidate base a) kind n = Inr (inodes_seq s + 1, s'))"
  using assms(3)
proof (induction as)
  case (Cons a as)
  have fk: "refers_to ((inodes_seq s + 1) # inode_ids s) par" by (rule refers_to_mono [OF assms(2)]) auto
  show ?case
  proof (cases "inode_name_taken s par (copy_name_candidate base a)")
    case True
    then have "create_inode s par (copy_name_candidate base a) kind n = Inl UniqueViolation"
      using assms(1) by (auto simp: create_inode_def validate_inode_kind_def insert_inode_def)
    with Cons True show ?thesis by auto
  next
    case False
    then obtain s' where "create_inode s par (copy_name_candidate base a) kind n = Inr (inodes_seq s + 1, s')"
      using assms(1) fk by (auto simp: create_inode_def validate_inode_kind_def insert_inode_def Let_def)
    with False show ?thesis by (intro bexI [of _ a]) auto
  qed
qed simp


definition events_ok :: "cdb \<Rightarrow> bool" where
  "events_ok s \<longleftrightarrow> list_all (\<lambda>e. ce_conflict_id e \<le> conflict_events_seq s) (conflict_events s)"

text \<open>The row of a copy, the database with it, and its event.\<close>

definition copy_row :: "db \<Rightarrow> int \<Rightarrow> int \<Rightarrow> FileRevisionRecord \<Rightarrow> string option \<Rightarrow> string \<Rightarrow> FileRevisionRecord" where
  "copy_row s now i src device_id reason = \<lparr>fr_revision_id = file_revisions_seq s + 1, fr_inode_id = i, fr_created_at = now,
     fr_size = fr_size src, fr_is_current = 1, fr_immutable_until = fr_immutable_until src, fr_device_id = device_id,
     fr_parent_revision_id = Some (fr_revision_id src), fr_origin = ''conflict_copy'', fr_conflict_reason = Some reason\<rparr>"

definition copy_event :: "cdb \<Rightarrow> int \<Rightarrow> FileRevisionRecord \<Rightarrow> string \<Rightarrow> int \<Rightarrow> int \<Rightarrow> ConflictEventRecord" where
  "copy_event s now src reason i r = \<lparr>ce_conflict_id = conflict_events_seq s + 1, ce_inode_id = fr_inode_id src,
     ce_winning_revision_id = fr_revision_id src, ce_losing_revision_id = r, ce_reason = reason,
     ce_materialized_inode_id = Some i, ce_materialized_revision_id = Some r, ce_created_at = now\<rparr>"

lemma create_inode_facts:
  assumes "schema_ok s" and "create_inode s par nm kind n = Inr (i, s1)"
  shows "schema_ok s1" and "i \<notin> set (inode_ids s)" and "i \<in> set (inode_ids s1)" and "set (inode_ids s) \<subseteq> set (inode_ids s1)"
    and "file_revisions s1 = file_revisions s" and "file_revisions_seq s1 = file_revisions_seq s"
    and "chunk_refs s1 = chunk_refs s" and "pack_locations s1 = pack_locations s"
    and "inodes s1 = inodes s @ [\<lparr>in_id = i, in_parent_id = par, in_name = nm, in_kind = kind, in_size = n, in_mode = None,
           in_mtime = None, in_deleted_at = None\<rparr>]"
    and "\<not> inode_name_taken s par nm"
proof -
  have "list_all (\<lambda>r. 0 < in_id r \<and> in_id r \<le> inodes_seq s) (inodes s)"
    using assms(1) by (simp add: schema_ok_def inodes_ok_def)
  then have "inodes_seq s + 1 \<notin> set (inode_ids s)" by (auto simp: inode_ids_def list_all_iff)
  with assms(2) show "i \<notin> set (inode_ids s)" "i \<in> set (inode_ids s1)" "set (inode_ids s) \<subseteq> set (inode_ids s1)"
    "file_revisions s1 = file_revisions s" "file_revisions_seq s1 = file_revisions_seq s"
    "chunk_refs s1 = chunk_refs s" "pack_locations s1 = pack_locations s"
    "inodes s1 = inodes s @ [\<lparr>in_id = i, in_parent_id = par, in_name = nm, in_kind = kind, in_size = n, in_mode = None,
           in_mtime = None, in_deleted_at = None\<rparr>]" "\<not> inode_name_taken s par nm"
    by (auto simp: create_inode_def insert_inode_def Let_def inode_ids_def result_elims split: if_splits)
qed (rule schema_ok_create_inode [OF assms])

lemma materialize_result:
  fixes s :: cdb
  defines "core \<equiv> cb_core s" and "new \<equiv> file_revisions_seq (cb_core s) + 1"
  assumes s: "schema_ok core" and ev: "events_ok s"
    and src: "revision_row core rv = Some src" and node: "get_inode_by_id core (fr_inode_id src) = Some node"
    and ci: "create_conflict_inode core (in_parent_id node)
        (build_conflict_copy_name (in_name node) device_name (fr_created_at src)) (in_kind node) (fr_size src) [0..<16] = Inr ((i, nm), s1)"
    and i: "create_inode core (in_parent_id node) nm (in_kind node) (fr_size src) = Inr (i, s1)"
  shows "\<exists>s'. materialize_conflict_copy_from_revision s now rv device_id device_name reason =
      (Inr (i, new, nm, conflict_events_seq s + 1), s') \<and>
    schema_ok (cb_core s') \<and> conflict_events s' = conflict_events s @ [copy_event s now src reason i new] \<and>
    inodes (cb_core s') = inodes s1 \<and> pack_locations (cb_core s') = pack_locations core \<and>
    file_revisions (cb_core s') = file_revisions core @ [copy_row core now i src device_id reason] \<and>
    (\<exists>rows'. chunk_refs (cb_core s') = chunk_refs core @ rows' \<and>
       list_all2 (copies_ref new) (get_chunk_refs_for_revision core rv) rows')"
proof -
  note f = create_inode_facts [OF s i]
  have rid: "fr_revision_id src = rv" and srcin: "src \<in> set (file_revisions core)"
    using fetch_optional_in [OF src [unfolded revision_row_def]] by auto
  have idin: "fr_inode_id src \<in> set (inode_ids core)"
    using s srcin by (auto simp: schema_ok_def inodes_ok_def list_all_iff inode_ids_def)
  have "list_all (\<lambda>r. fr_inode_id r \<in> set (inode_ids core)) (file_revisions core)"
    using s by (simp add: schema_ok_def inodes_ok_def inode_ids_def)
  then have cleared: "update_where (\<lambda>r. fr_inode_id r = i) (\<lambda>r. r\<lparr>fr_is_current := 0\<rparr>) (file_revisions core) = file_revisions core"
    using f(2) by (intro update_where_none) (auto simp: list_all_iff)
  have rvin: "rv \<in> set (revision_ids core)" using rid srcin by (auto simp: revision_ids_def)
  define s2 where "s2 = s1\<lparr>file_revisions := file_revisions core @ [copy_row core now i src device_id reason],
    file_revisions_seq := new\<rparr>"
  have par: "refers_to (new # revision_ids s1) (Some rv)" using rvin f(5) by (simp add: refers_to_def revision_ids_def)
  have i1: "i \<in> in_id ` set (inodes s1)" using f(3) by (simp add: inode_ids_def)
  have cr: "create_file_revision s1 now i (fr_size src) (fr_immutable_until src) device_id (Some rv) ''conflict_copy'' (Some reason) =
      Inr (new, s2)"
    using i1 par cleared f(5,6)
    by (simp add: create_file_revision_def s2_def new_def core_def copy_row_def rid Let_def)
  have ok2: "schema_ok s2" by (rule schema_ok_create_file_revision [OF f(1) cr])
  have revs2: "set (revision_ids s2) = insert new (set (revision_ids core))"
    by (simp add: revision_ids_def s2_def copy_row_def new_def core_def)
  have refs2: "get_chunk_refs_for_revision s2 rv = get_chunk_refs_for_revision core rv"
    by (simp add: get_chunk_refs_for_revision_def s2_def f(7))
  define s3 where "s3 = insert_chunk_refs new (get_chunk_refs_for_revision core rv) s2"
  have cp: "copy_chunk_refs s2 rv new = Inr s3" using revs2 by (simp add: copy_chunk_refs_def refs2 s3_def)
  have ok3: "schema_ok s3" by (rule schema_ok_copy_chunk_refs [OF ok2 cp])
  have same3: "inodes s3 = inodes s1" "file_revisions s3 = file_revisions s2" "pack_locations s3 = pack_locations core"
    by (simp_all add: s3_def s2_def f(8))
  have ids3: "inode_ids s3 = inode_ids s1" "revision_ids s3 = revision_ids s2"
    by (simp_all add: inode_ids_def revision_ids_def same3)
  have chk: "fr_inode_id src \<in> set (inode_ids s3)" "rv \<in> set (revision_ids s3)" "new \<in> set (revision_ids s3)"
    "i \<in> set (inode_ids s3)"
    using idin f(3,4) rvin revs2 by (auto simp: ids3)
  define raw where "raw = (copy_event s now src reason i new)\<lparr>ce_materialized_inode_id := None, ce_materialized_revision_id := None\<rparr>"
  define s4 where "s4 = s\<lparr>cb_core := s3, conflict_events := conflict_events s @ [raw], conflict_events_seq := conflict_events_seq s + 1\<rparr>"
  have ce: "create_conflict_event (s\<lparr>cb_core := s3\<rparr>) now (fr_inode_id src) rv new reason = Inr (conflict_events_seq s + 1, s4)"
    using chk by (simp add: create_conflict_event_def Let_def s4_def raw_def copy_event_def rid)
  have old: "update_where (\<lambda>e. ce_conflict_id e = conflict_events_seq s + 1) g (conflict_events s) = conflict_events s" for g
    using ev by (intro update_where_none) (auto simp: events_ok_def list_all_iff)
  define s5 where "s5 = s4\<lparr>conflict_events := conflict_events s @ [copy_event s now src reason i new]\<rparr>"
  have att: "attach_conflict_materialization s4 (conflict_events_seq s + 1) i new = Inr s5"
  proof -
    have "update_where (\<lambda>e. ce_conflict_id e = conflict_events_seq s + 1)
        (\<lambda>e. e\<lparr>ce_materialized_inode_id := Some i, ce_materialized_revision_id := Some new\<rparr>) (conflict_events s @ [raw]) =
      conflict_events s @ [copy_event s now src reason i new]"
      using old [unfolded update_where_def] by (simp add: update_where_def raw_def copy_event_def)
    then show ?thesis using chk by (simp add: attach_conflict_materialization_def s4_def s5_def)
  qed
  have run: "materialize_conflict_copy_from_revision s now rv device_id device_name reason =
      (Inr (i, new, nm, conflict_events_seq s + 1), s5)"
    using src node ci cr cp ce att by (simp add: materialize_conflict_copy_from_revision_def core_def rid)
  from insert_chunk_refs_rows [of new "get_chunk_refs_for_revision core rv" s2] obtain rows' where
    "chunk_refs s3 = chunk_refs core @ rows'" "list_all2 (copies_ref new) (get_chunk_refs_for_revision core rv) rows'"
    by (auto simp: s3_def s2_def f(7))
  with run ok3 same3 show ?thesis by (auto simp: s5_def s4_def s2_def)
qed

text \<open>What a copy is: a live file of its own, in the directory of the first, whose current revision has the same chunks.\<close>

definition name_left :: "db \<Rightarrow> InodeRecord \<Rightarrow> string \<Rightarrow> bool" where
  "name_left s node base \<longleftrightarrow> list_ex (\<lambda>a. \<not> inode_name_taken s (in_parent_id node) (copy_name_candidate base a)) [0..<16]"

definition is_copy :: "db \<Rightarrow> db \<Rightarrow> InodeRecord \<Rightarrow> FileRevisionRecord \<Rightarrow> int \<Rightarrow> int \<Rightarrow> string \<Rightarrow> bool" where
  "is_copy s s' node src i r nm \<longleftrightarrow> i \<notin> set (inode_ids s) \<and> r \<notin> set (revision_ids s) \<and>
     map_option in_id (get_inode_by_path s' (in_parent_id node) nm) = Some i \<and>
     map_option fr_revision_id (get_current_file_revision s' i) = Some r \<and>
     get_chunk_locations_for_revision s' r = get_chunk_locations_for_revision s (fr_revision_id src)"

definition keeps_others :: "db \<Rightarrow> db \<Rightarrow> bool" where
  "keeps_others s s' \<longleftrightarrow> take (length (file_revisions s)) (file_revisions s') = file_revisions s \<and>
     take (length (inodes s)) (inodes s') = inodes s \<and>
     list_all (\<lambda>rv. get_chunk_locations_for_revision s' rv = get_chunk_locations_for_revision s rv) (revision_ids s)"

text \<open>
  C21: a conflict copy keeps the content. As long as one of the sixteen candidate names is free, the copy of a revision
  succeeds: it is a new live file in the directory of the first, its current revision reads from exactly the chunks of
  the copied one, every other revision and inode stays as it is, the schema holds and the event is recorded. When all
  names are taken nothing is written.
\<close>

theorem conflict_copy_keeps_content:
  assumes "schema_ok (cb_core s)" and "events_ok s"
    and "revision_row (cb_core s) rv = Some src" and "get_inode_by_id (cb_core s) (fr_inode_id src) = Some node"
    and "in_kind node \<in> {''FILE'', ''DIR''}"
    and "base = build_conflict_copy_name (in_name node) device_name (fr_created_at src)"
  shows "if name_left (cb_core s) node base
    then \<exists>i r nm c s'. materialize_conflict_copy_from_revision s now rv device_id device_name reason = (Inr (i, r, nm, c), s') \<and>
       schema_ok (cb_core s') \<and> is_copy (cb_core s) (cb_core s') node src i r nm \<and> keeps_others (cb_core s) (cb_core s') \<and>
       conflict_events s' = conflict_events s @ [copy_event s now src reason i r]
    else materialize_conflict_copy_from_revision s now rv device_id device_name reason = (Inl RowNotFound, s)"
proof (cases "name_left (cb_core s) node base")
  case False
  then have "create_conflict_inode (cb_core s) (in_parent_id node) base (in_kind node) (fr_size src) [0..<16] = Inl RowNotFound"
    by (intro create_conflict_inode_taken [OF assms(5)]) (auto simp: name_left_def list_ex_iff)
  with assms(3,4,6) False show ?thesis by (simp add: materialize_conflict_copy_from_revision_def)
next
  case True
  let ?core = "cb_core s"
  have nodein: "node \<in> set (inodes ?core)" using fetch_optional_in [OF assms(4) [unfolded get_inode_by_id_def]] by simp
  then have par: "refers_to (inode_ids ?core) (in_parent_id node)"
    using assms(1) by (auto simp: schema_ok_def inodes_ok_def list_all_iff inode_ids_def)
  from create_conflict_inode_free [OF assms(5) par, of "[0..<16]" base "fr_size src"] True obtain a s1 where
    ci: "create_conflict_inode ?core (in_parent_id node) base (in_kind node) (fr_size src) [0..<16] =
      Inr ((inodes_seq ?core + 1, copy_name_candidate base a), s1)"
    and i: "create_inode ?core (in_parent_id node) (copy_name_candidate base a) (in_kind node) (fr_size src) =
      Inr (inodes_seq ?core + 1, s1)" by (auto simp: name_left_def list_ex_iff)
  let ?i = "inodes_seq ?core + 1" and ?r = "file_revisions_seq ?core + 1" and ?nm = "copy_name_candidate base a"
  note f = create_inode_facts [OF assms(1) i]
  from materialize_result [OF assms(1-4) ci [unfolded assms(6)] i [unfolded assms(6)], of now device_id reason] obtain s' rows' where
    run: "materialize_conflict_copy_from_revision s now rv device_id device_name reason =
      (Inr (?i, ?r, ?nm, conflict_events_seq s + 1), s')"
    and ok: "schema_ok (cb_core s')" and ev: "conflict_events s' = conflict_events s @ [copy_event s now src reason ?i ?r]"
    and tabs: "inodes (cb_core s') = inodes s1" "pack_locations (cb_core s') = pack_locations ?core"
      "file_revisions (cb_core s') = file_revisions ?core @ [copy_row ?core now ?i src device_id reason]"
    and rows: "chunk_refs (cb_core s') = chunk_refs ?core @ rows'"
      "list_all2 (copies_ref ?r) (get_chunk_refs_for_revision ?core rv) rows'"
    by (auto simp: assms(6))
  have rid: "fr_revision_id src = rv" using fetch_optional_in [OF assms(3) [unfolded revision_row_def]] by simp
  have fresh: "?r \<notin> set (revision_ids ?core)"
    using assms(1) by (auto simp: schema_ok_def revision_ids_def list_all_iff)
  have news: "cref_revision_id c = ?r" if "c \<in> set rows'" for c
    using that rows(2) by (auto simp: list_all2_conv_all_nth copies_ref_def in_set_conv_nth)
  have olds: "cref_revision_id c \<noteq> ?r" if "c \<in> set (chunk_refs ?core)" for c
  proof -
    have "list_all (\<lambda>r. cref_revision_id r \<in> set (revision_ids ?core)) (chunk_refs ?core)"
      using assms(1) by (simp add: schema_ok_def revision_ids_def)
    with that fresh show ?thesis by (auto simp: list_all_iff)
  qed
  have "filter (\<lambda>c. cref_revision_id c = ?r) (chunk_refs (cb_core s')) = rows'"
    using news olds by (auto simp: rows(1) filter_empty_conv intro!: filter_True)
  then have "get_chunk_locations_for_revision (cb_core s') ?r = chunk_locations (cb_core s') rows'"
    by (simp add: get_chunk_locations_for_revision_def)
  also have "\<dots> = get_chunk_locations_for_revision ?core rv"
    unfolding locations_by_refs by (rule locations_of_copies [OF rows(2) get_chunk_refs_sorted tabs(2)])
  finally have same: "get_chunk_locations_for_revision (cb_core s') ?r = get_chunk_locations_for_revision ?core rv" .
  have others: "get_chunk_locations_for_revision (cb_core s') q = get_chunk_locations_for_revision ?core q"
    if "q \<in> set (revision_ids ?core)" for q
  proof -
    have "filter (\<lambda>c. cref_revision_id c = q) rows' = []" using news fresh that by (auto simp: filter_empty_conv)
    moreover have "join_location (cb_core s') = join_location ?core" by (intro ext) (simp add: join_location_def tabs(2) split: prod.split)
    ultimately show ?thesis by (simp add: get_chunk_locations_for_revision_def chunk_locations_def rows(1))
  qed
  have "\<not> inode_name_taken ?core (in_parent_id node) ?nm" by (rule f(10))
  then have "filter (\<lambda>r. in_parent_id r = in_parent_id node \<and> in_name r = ?nm \<and> live_inode r) (inodes ?core) = []"
    by (auto simp: inode_name_taken_def list_ex_iff filter_empty_conv)
  then have path: "map_option in_id (get_inode_by_path (cb_core s') (in_parent_id node) ?nm) = Some ?i"
    by (simp add: get_inode_by_path_def tabs(1) f(9) live_inode_def)
  have "list_all (\<lambda>r. fr_inode_id r \<in> set (inode_ids ?core)) (file_revisions ?core)"
    using assms(1) by (simp add: schema_ok_def inodes_ok_def inode_ids_def)
  then have "filter (\<lambda>r. fr_inode_id r = ?i \<and> fr_is_current r = 1) (file_revisions ?core) = []"
    using f(2) by (auto simp: list_all_iff filter_empty_conv)
  then have cur: "map_option fr_revision_id (get_current_file_revision (cb_core s') ?i) = Some ?r"
    by (simp add: get_current_file_revision_def tabs(3) copy_row_def)
  have "is_copy ?core (cb_core s') node src ?i ?r ?nm"
    using f(2) fresh path cur same by (simp add: is_copy_def rid)
  moreover have "keeps_others ?core (cb_core s')"
    using others by (simp add: keeps_others_def tabs(1,3) f(9) list_all_iff)
  ultimately show ?thesis using run ok ev True by auto
qed


definition conflict_db :: cdb where
  "conflict_db = \<lparr>cb_core = two_chunks_db, conflict_events = [], conflict_events_seq = 0\<rparr>"

theorem conflict_copy_keeps_content_witness:
  "\<exists>i r nm c s'. materialize_conflict_copy_from_revision conflict_db 9 3 (Some ''d1'') ''PC'' ''parallel_local_edit'' =
      (Inr (i, r, nm, c), s') \<and> schema_ok (cb_core s') \<and>
    is_copy two_chunks_db (cb_core s') sample_inode (sample_revision 3 (Some 1)) i r nm \<and> keeps_others two_chunks_db (cb_core s') \<and>
    conflict_events s' = [copy_event conflict_db 9 (sample_revision 3 (Some 1)) ''parallel_local_edit'' i r]"
proof -
  let ?src = "sample_revision 3 (Some 1)"
  let ?base = "build_conflict_copy_name (in_name sample_inode) ''PC'' (fr_created_at ?src)"
  have ok: "schema_ok (cb_core conflict_db)" by code_simp
  have ev: "events_ok conflict_db" by (simp add: events_ok_def conflict_db_def)
  have src: "revision_row (cb_core conflict_db) 3 = Some ?src"
    by (simp add: conflict_db_def two_chunks_db_def revision_db_def revision_row_def sample_revision_def)
  have node: "get_inode_by_id (cb_core conflict_db) (fr_inode_id ?src) = Some sample_inode"
    by (simp add: conflict_db_def two_chunks_db_def revision_db_def get_inode_by_id_def sample_revision_def sample_inode_def)
  have kind: "in_kind sample_inode \<in> {''FILE'', ''DIR''}" by (simp add: sample_inode_def)
  have left: "name_left (cb_core conflict_db) sample_inode ?base" by code_simp
  show ?thesis
    using conflict_copy_keeps_content [OF ok ev src node kind refl, where device_name = "''PC''" and now = 9 and device_id = "Some ''d1''" and
        reason = "''parallel_local_edit''"] left
    unfolding if_P [OF left] by (simp add: conflict_db_def)
qed

end
