(* ===== verification/PackFile.thy ===== *)
theory PackFile
  imports Conflicts CloudWorld VaultProofs Downloader
begin

text \<open>
  \<open>pack_file\<close> of \<^verbatim>\<open>packer.rs\<close>: the path of a local file into the engine. The file is read in chunks; a chunk
  whose plaintext is already packed in the wanted storage mode is shared, any other is encrypted under a key of its own
  and its manifest and shards are written to the spool. Then a revision is created, whose parent is decided from the
  lineage (an edit of a stale base keeps the current revision as a conflict copy), and the chunks, packs, shards and
  upload jobs are recorded. The state is the vault with its database, the conflict events and the spool; an operation
  returns its result and the state it leaves. What the operating system answers (the lengths of reads, failing reads and
  writes), the clock, and the random keys and nonces of each new chunk are arguments.
\<close>

section \<open>State\<close>

record pack_world =
  pw_vault :: vault
  pw_events :: "ConflictEventRecord list"
  pw_events_seq :: int
  pw_spool :: "string \<Rightarrow> bytes option"

record packer =
  pe_prims :: prims
  pe_rs :: rs_prims
  pe_sha256 :: "bytes \<Rightarrow> bytes"
  pe_chunk_size :: nat
  pe_now :: int
  pe_reads :: "nat \<Rightarrow> nat list"
  pe_read_fails :: "nat \<Rightarrow> bool"
  pe_write :: "string \<Rightarrow> file_outcome"
  pe_key :: "nat \<Rightarrow> bytes"
  pe_nonce :: "nat \<Rightarrow> bytes"

definition Packer_new :: "packer \<Rightarrow> PackerError + packer" where
  "Packer_new E = (if pe_chunk_size E = 0 then Inl (PE_InvalidChunkSize 0) else Inr E)"

datatype PackFileError = PF_Packer PackerError | PF_Vault VaultError

abbreviation pf_core :: "pack_world \<Rightarrow> db" where
  "pf_core w \<equiv> ad_core (va_db (pw_vault w))"

definition with_adb :: "(adb \<Rightarrow> adb) \<Rightarrow> pack_world \<Rightarrow> pack_world" where
  "with_adb f w = w\<lparr>pw_vault := (pw_vault w)\<lparr>va_db := f (va_db (pw_vault w))\<rparr>\<rparr>"

definition set_core :: "db \<Rightarrow> pack_world \<Rightarrow> pack_world" where
  "set_core s = with_adb (\<lambda>a. a\<lparr>ad_core := s\<rparr>)"

record PackResult =
  pr_revision_id :: "int option"
  pr_pack_id :: "string option"
  pr_pack_ids :: "string list"
  pr_pack_path :: "string option"
  pr_pack_paths :: "string list"
  pr_chunk_count :: nat
  pr_logical_size :: nat
  pr_encrypted_size :: nat
  pr_created_at_ms :: int
  pr_conflict_copy_name :: "string option"

record PreparedPack =
  pp_pack_id :: string
  pp_chunk_id :: bytes
  pp_plaintext_hash :: string
  pp_storage_mode :: StorageMode
  pp_file_offset :: int
  pp_plain_size :: int
  pp_cipher_size :: int
  pp_shard_size :: int
  pp_manifest_name :: string
  pp_manifest_size :: int
  pp_nonce :: bytes
  pp_gcm_tag :: bytes
  pp_shards :: "PreparedShard list"
  pp_is_deduplicated :: bool
  pp_dek_id :: "int option"

section \<open>Preparing the packs\<close>

definition spool_write :: "packer \<Rightarrow> string \<Rightarrow> bytes \<Rightarrow> pack_world \<Rightarrow> (PackFileError + unit) \<times> pack_world" where
  "spool_write E name bs w =
     (case pe_write E name of
        FileDone \<Rightarrow> (Inr (), w\<lparr>pw_spool := (pw_spool w)(name := Some bs)\<rparr>)
      | FileKept \<Rightarrow> (Inl (PF_Packer PE_Io), w)
      | FileLeft x \<Rightarrow> (Inl (PF_Packer PE_Io), w\<lparr>pw_spool := (pw_spool w)(name := Some x)\<rparr>))"

definition vec_to_array :: "nat \<Rightarrow> bytes \<Rightarrow> string \<Rightarrow> PackerError + bytes" where
  "vec_to_array n bs field = (if length bs = n then Inr bs else Inl (PE_InvalidStoredPack field))"

definition reuse_pack :: "packer \<Rightarrow> StorageMode \<Rightarrow> string \<Rightarrow> int \<Rightarrow> int \<Rightarrow> PackRecord \<Rightarrow> PackerError + PreparedPack" where
  "reuse_pack E mode plaintext_hash file_offset plain_size existing =
     bindR (manifest_size_from_pack existing) (\<lambda>manifest_size.
     bindR (vec_to_array 32 (pk_chunk_id existing) ''chunk_id'') (\<lambda>cid.
     bindR (vec_to_array 12 (pk_nonce existing) ''nonce'') (\<lambda>nonce.
     bindR (vec_to_array 16 (pk_gcm_tag existing) ''gcm_tag'') (\<lambda>tag.
       Inr \<lparr>pp_pack_id = pk_pack_id existing, pp_chunk_id = cid, pp_plaintext_hash = plaintext_hash,
         pp_storage_mode = mode, pp_file_offset = file_offset, pp_plain_size = plain_size,
         pp_cipher_size = pk_cipher_size existing, pp_shard_size = pk_shard_size existing,
         pp_manifest_name = local_pack_name (pk_pack_id existing), pp_manifest_size = manifest_size,
         pp_nonce = nonce, pp_gcm_tag = tag, pp_shards = [], pp_is_deduplicated = True, pp_dek_id = None\<rparr>))))"

text \<open>The shards of a pack are written one after the other.\<close>

fun spool_shards ::
  "packer \<Rightarrow> string \<Rightarrow> StorageMode \<Rightarrow> (nat \<times> bytes) list \<Rightarrow> pack_world
     \<Rightarrow> (PackFileError + PreparedShard list) \<times> pack_world" where
  "spool_shards E pack_id mode [] w = (Inr [], w)"
| "spool_shards E pack_id mode ((i, bs) # ibs) w =
     bindW (spool_write E (local_shard_name pack_id i) bs) (\<lambda>_.
     bindW (liftW (map_err PF_Packer (prepare_shard (pe_sha256 E) pack_id mode (i, bs)))) (\<lambda>p.
     bindW (spool_shards E pack_id mode ibs) (\<lambda>ps. returnW (p # ps)))) w"

definition vault_step :: "(vault \<Rightarrow> VaultError + 'a \<times> vault) \<Rightarrow> pack_world \<Rightarrow> (PackFileError + 'a) \<times> pack_world" where
  "vault_step f w =
     (case f (pw_vault w) of Inl e \<Rightarrow> (Inl (PF_Vault e), w) | Inr (x, st) \<Rightarrow> (Inr x, w\<lparr>pw_vault := st\<rparr>))"

definition shard_size_of :: "StorageMode \<Rightarrow> PreparedShard list \<Rightarrow> PackerError + int" where
  "shard_size_of mode shards =
     (if mode = LocalOnly then Inr 0
      else case shards of [] \<Rightarrow> Inl (PE_NumericOverflow ''missing shard size'') | s # _ \<Rightarrow> Inr (ps_size s))"

definition new_pack ::
  "packer \<Rightarrow> int \<Rightarrow> StorageMode \<Rightarrow> nat \<Rightarrow> string \<Rightarrow> int \<Rightarrow> int \<Rightarrow> bytes \<Rightarrow> pack_world
     \<Rightarrow> (PackFileError + PreparedPack) \<times> pack_world" where
  "new_pack E inode_id mode k plaintext_hash file_offset plain_size plaintext =
     bindW (vault_step (\<lambda>st. create_pack_dek (pe_prims E) (pe_key E k) (pe_now E) st inode_id)) (\<lambda>(dek_id, dek).
     bindW (liftW (map_err (PF_Packer \<circ> PE_Crypto)
              (encrypt_chunk_v2 (pr_crypto (pe_prims E)) (pe_nonce E k) dek plaintext []))) (\<lambda>enc.
       let manifest = build_manifest_bytes_v2 (ec_chunk_id enc) (ec_nonce enc) (ec_ciphertext enc) (ec_gcm_tag enc)
             (length plaintext) dek_id;
           pack_id = compute_pack_id (pe_sha256 E) mode manifest
       in bindW (spool_write E (local_pack_name pack_id) manifest) (\<lambda>_.
          bindW (liftW (map_err PF_Packer (shard_bytes_for (pe_rs E) mode (ec_ciphertext enc)))) (\<lambda>bss.
          bindW (spool_shards E pack_id mode (List.enumerate 0 bss)) (\<lambda>shards.
          bindW (liftW (map_err PF_Packer (to_i64 (length (ec_ciphertext enc)) ''cipher size''))) (\<lambda>cipher_size.
          bindW (liftW (map_err PF_Packer (shard_size_of mode shards))) (\<lambda>shard_size.
          bindW (liftW (map_err PF_Packer (to_i64 (length manifest) ''manifest size''))) (\<lambda>manifest_size.
            returnW \<lparr>pp_pack_id = pack_id, pp_chunk_id = ec_chunk_id enc, pp_plaintext_hash = plaintext_hash,
              pp_storage_mode = mode, pp_file_offset = file_offset, pp_plain_size = plain_size,
              pp_cipher_size = cipher_size, pp_shard_size = shard_size, pp_manifest_name = local_pack_name pack_id,
              pp_manifest_size = manifest_size, pp_nonce = ec_nonce enc, pp_gcm_tag = ec_gcm_tag enc,
              pp_shards = shards, pp_is_deduplicated = False, pp_dek_id = Some dek_id\<rparr>))))))))"

definition prepare_pack ::
  "packer \<Rightarrow> int \<Rightarrow> StorageMode \<Rightarrow> nat \<Rightarrow> int \<Rightarrow> bytes \<Rightarrow> pack_world \<Rightarrow> (PackFileError + PreparedPack) \<times> pack_world" where
  "prepare_pack E inode_id mode k file_offset plaintext w =
     (let plaintext_hash = hex_sha256 (pe_sha256 E) plaintext
      in bindW (liftW (map_err PF_Packer (to_i64 (length plaintext) ''chunk size''))) (\<lambda>plain_size w.
           case find_pack_by_plaintext_hash (pf_core w) plaintext_hash mode of
             Some existing \<Rightarrow> liftW (map_err PF_Packer (reuse_pack E mode plaintext_hash file_offset plain_size existing)) w
           | None \<Rightarrow> new_pack E inode_id mode k plaintext_hash file_offset plain_size plaintext w) w)"

text \<open>\<open>k\<close> counts the chunks. The loop ends because a chunk that is not empty shortens what is left to read.\<close>

function prepare_packs ::
  "packer \<Rightarrow> int \<Rightarrow> StorageMode \<Rightarrow> nat \<Rightarrow> int \<Rightarrow> bytes \<Rightarrow> pack_world \<Rightarrow> (PackFileError + PreparedPack list) \<times> pack_world" where
  "prepare_packs E inode_id mode k file_offset content w =
     (if pe_read_fails E k then (Inl (PF_Packer PE_Io), w)
      else let chunk = fst (read_next_chunk (pe_reads E k) (pe_chunk_size E) content);
               rest = snd (read_next_chunk (pe_reads E k) (pe_chunk_size E) content)
      in if chunk = [] then (Inr [], w)
         else (case prepare_pack E inode_id mode k file_offset chunk w of
                 (Inl e, w1) \<Rightarrow> (Inl e, w1)
               | (Inr p, w1) \<Rightarrow>
                   (case checked_add_i64 file_offset (pp_plain_size p) ''file offset'' of
                      Inl e \<Rightarrow> (Inl (PF_Packer e), w1)
                    | Inr next_offset \<Rightarrow>
                        (case prepare_packs E inode_id mode (Suc k) next_offset rest w1 of
                           (Inl e, w2) \<Rightarrow> (Inl e, w2)
                         | (Inr ps, w2) \<Rightarrow> (Inr (p # ps), w2)))))"
  by pat_completeness auto
termination
  by (relation "measure (\<lambda>(E, inode_id, mode, k, file_offset, content, w). length content)")
    (auto simp: read_next_chunk_eq)

declare prepare_packs.simps [simp del]

section \<open>The parent of the new revision\<close>

definition materialize_copy ::
  "packer \<Rightarrow> int \<Rightarrow> string \<Rightarrow> pack_world \<Rightarrow> (PackFileError + string) \<times> pack_world" where
  "materialize_copy E revision_id reason w =
     (let device = get_local_device_identity (va_db (pw_vault w));
          s = \<lparr>cb_core = pf_core w, conflict_events = pw_events w, conflict_events_seq = pw_events_seq w\<rparr>;
          (res, s') = materialize_conflict_copy_from_revision s (pe_now E) revision_id (map_option ld_device_id device)
            (case device of None \<Rightarrow> ''Unknown Device'' | Some d \<Rightarrow> ld_device_name d) reason;
          w' = set_core (cb_core s') w\<lparr>pw_events := conflict_events s', pw_events_seq := conflict_events_seq s'\<rparr>
      in (case res of Inl e \<Rightarrow> (Inl (PF_Packer (PE_Db e)), w') | Inr (_, _, name, _) \<Rightarrow> (Inr name, w')))"

text \<open>\<open>None\<close> is a lineage query that does not end.\<close>

definition choose_parent ::
  "packer \<Rightarrow> int \<Rightarrow> int option \<Rightarrow> pack_world \<Rightarrow> ((PackFileError + int option \<times> string option) \<times> pack_world) option" where
  "choose_parent E inode_id expected_parent_revision_id w =
     (let current_revision = get_current_file_revision (pf_core w) inode_id
      in case expected_parent_revision_id of
           None \<Rightarrow> Some (Inr (map_option fr_revision_id current_revision, None), w)
         | Some expected \<Rightarrow>
             (case current_revision of
                None \<Rightarrow> Some (Inr (Some expected, None), w)
              | Some current \<Rightarrow>
                  (case classify_revision_lineage (pf_core w) expected (fr_revision_id current) of
                     None \<Rightarrow> None
                   | Some Same \<Rightarrow> Some (Inr (Some expected, None), w)
                   | Some CandidateDescendsFromCurrent \<Rightarrow> Some (Inr (Some expected, None), w)
                   | Some CurrentDescendsFromCandidate \<Rightarrow>
                       Some (bindW (materialize_copy E (fr_revision_id current) ''stale_local_base'')
                         (\<lambda>name. returnW (Some expected, Some name)) w)
                   | Some Parallel \<Rightarrow>
                       Some (bindW (materialize_copy E (fr_revision_id current) ''parallel_local_edit'')
                         (\<lambda>name. returnW (Some expected, Some name)) w))))"

section \<open>Recording the packs\<close>

definition core_step :: "(db \<Rightarrow> sqlx_error + 'a \<times> db) \<Rightarrow> pack_world \<Rightarrow> (PackFileError + 'a) \<times> pack_world" where
  "core_step f w =
     (case f (pf_core w) of Inl e \<Rightarrow> (Inl (PF_Packer (PE_Db e)), w) | Inr (x, s) \<Rightarrow> (Inr x, set_core s w))"

definition core_modify :: "(db \<Rightarrow> db) \<Rightarrow> pack_world \<Rightarrow> (PackFileError + unit) \<times> pack_world" where
  "core_modify f w = (Inr (), set_core (f (pf_core w)) w)"

fun record_shards :: "string \<Rightarrow> PreparedShard list \<Rightarrow> pack_world \<Rightarrow> (PackFileError + unit) \<times> pack_world" where
  "record_shards pack_id [] w = (Inr (), w)"
| "record_shards pack_id (sh # shs) w =
     bindW (core_step (\<lambda>s. bindR (register_pack_shard s pack_id (ps_shard_index sh) (ps_shard_role sh) (ps_provider sh)
              (ps_object_key sh) (ps_size sh) (ps_checksum sh) ''PENDING'') (\<lambda>s'. Inr ((), s'))))
       (\<lambda>_. record_shards pack_id shs) w"

definition record_pack :: "int \<Rightarrow> PreparedPack \<Rightarrow> pack_world \<Rightarrow> (PackFileError + unit) \<times> pack_world" where
  "record_pack revision_id p =
     bindW (core_step (\<lambda>s. register_chunk s revision_id (pp_chunk_id p) (pp_file_offset p) (pp_plain_size p))) (\<lambda>_.
     bindW (core_modify (\<lambda>s. link_chunk_to_pack s (pp_chunk_id p) (pp_pack_id p) 0 (pp_manifest_size p))) (\<lambda>_.
       if pp_is_deduplicated p then returnW ()
       else
         bindW (core_modify (\<lambda>s. create_pack s (pp_pack_id p) (pp_chunk_id p) (pp_plaintext_hash p) (pp_storage_mode p) 2
           (storage_mode_scheme (pp_storage_mode p)) (pp_plain_size p) (pp_cipher_size p) (pp_shard_size p)
           (pp_nonce p) (pp_gcm_tag p) (if pp_storage_mode p = LocalOnly then Healthy else Uploading))) (\<lambda>_.
         bindW (\<lambda>w. (Inr (), case pp_dek_id p of None \<Rightarrow> w | Some d \<Rightarrow> with_adb (\<lambda>a. set_pack_dek a (pp_pack_id p) d) w)) (\<lambda>_.
         bindW (record_shards (pp_pack_id p) (pp_shards p)) (\<lambda>_.
           if pp_storage_mode p = LocalOnly then returnW ()
           else core_modify (\<lambda>s. queue_pack_for_upload s (pp_pack_id p)))))))"

fun record_packs :: "int \<Rightarrow> PreparedPack list \<Rightarrow> pack_world \<Rightarrow> (PackFileError + unit) \<times> pack_world" where
  "record_packs revision_id [] w = (Inr (), w)"
| "record_packs revision_id (p # ps) w = bindW (record_pack revision_id p) (\<lambda>_. record_packs revision_id ps) w"

section \<open>Packing a file\<close>

text \<open>
  The running totals of the code are sums over the prepared packs: the sizes read, and the manifest sizes as a 64-bit
  counter.
\<close>

definition logical_total :: "PreparedPack list \<Rightarrow> nat" where
  "logical_total ps = nat (sum_list (map pp_plain_size ps))"

definition encrypted_total :: "PreparedPack list \<Rightarrow> nat" where
  "encrypted_total ps = nat (sum_list (map pp_manifest_size ps)) mod 2 ^ 64"

definition commit_revision ::
  "packer \<Rightarrow> int \<Rightarrow> PreparedPack list \<Rightarrow> int option \<times> string option \<Rightarrow> pack_world \<Rightarrow> (PackFileError + PackResult) \<times> pack_world" where
  "commit_revision E inode_id ps parent =
     bindW (liftW (map_err PF_Packer (to_i64 (logical_total ps) ''logical size''))) (\<lambda>logical_size w.
     bindW (core_step (\<lambda>s. create_file_revision s (pe_now E) inode_id logical_size None
              (map_option ld_device_id (get_local_device_identity (va_db (pw_vault w)))) (fst parent) ''local_write'' None)) (\<lambda>revision_id.
     bindW (record_packs revision_id ps) (\<lambda>_.
       returnW \<lparr>pr_revision_id = Some revision_id, pr_pack_id = fetch_optional (map pp_pack_id ps),
         pr_pack_ids = map pp_pack_id ps, pr_pack_path = fetch_optional (map pp_manifest_name ps),
         pr_pack_paths = map pp_manifest_name ps, pr_chunk_count = length ps, pr_logical_size = logical_total ps,
         pr_encrypted_size = encrypted_total ps, pr_created_at_ms = pe_now E, pr_conflict_copy_name = snd parent\<rparr>)) w)"

definition pack_file_with_expected_parent ::
  "packer \<Rightarrow> int \<Rightarrow> bytes option \<Rightarrow> int option \<Rightarrow> pack_world \<Rightarrow> ((PackFileError + PackResult) \<times> pack_world) option" where
  "pack_file_with_expected_parent E inode_id source expected_parent_revision_id w =
     (case get_storage_mode_for_inode (pf_core w) inode_id of
        None \<Rightarrow> None
      | Some mode \<Rightarrow>
     (case source of
        None \<Rightarrow> Some (Inl (PF_Packer PE_Io), w)
      | Some content \<Rightarrow>
     (case prepare_packs E inode_id mode 0 0 content w of
        (Inl e, w1) \<Rightarrow> Some (Inl e, w1)
      | (Inr ps, w1) \<Rightarrow>
     (case choose_parent E inode_id expected_parent_revision_id w1 of
        None \<Rightarrow> None
      | Some (Inl e, w2) \<Rightarrow> Some (Inl e, w2)
      | Some (Inr parent, w2) \<Rightarrow> Some (commit_revision E inode_id ps parent w2)))))"

definition pack_file :: "packer \<Rightarrow> int \<Rightarrow> bytes option \<Rightarrow> pack_world \<Rightarrow> ((PackFileError + PackResult) \<times> pack_world) option" where
  "pack_file E inode_id source w = pack_file_with_expected_parent E inode_id source None w"

section \<open>The tables stay well formed\<close>

text \<open>An operation keeps a property when it does so whatever it answers.\<close>

definition keeps :: "('w \<Rightarrow> bool) \<Rightarrow> ('w \<Rightarrow> 'r \<times> 'w) \<Rightarrow> bool" where
  "keeps I m \<longleftrightarrow> (\<forall>w. I w \<longrightarrow> I (snd (m w)))"

lemma keeps_bindW: "keeps I m \<Longrightarrow> (\<And>x. keeps I (k x)) \<Longrightarrow> keeps I (bindW m k)"
  unfolding keeps_def
proof (intro allI impI)
  fix w assume m: "\<forall>w. I w \<longrightarrow> I (snd (m w))" and k: "\<And>x. \<forall>w. I w \<longrightarrow> I (snd (k x w))" and w: "I w"
  obtain r w1 where r: "m w = (r, w1)" by force
  with m w have "I w1" by (metis snd_conv)
  with r k show "I (snd (bindW m k w))" by (cases r) (simp_all add: bindW_def)
qed

lemma keeps_plain [simp]: "keeps I (returnW x)" "keeps I (liftW r)" "keeps I (failW e)"
  by (simp_all add: keeps_def returnW_def liftW_def failW_def)

lemma keepsD: "keeps I m \<Longrightarrow> m w = (r, w') \<Longrightarrow> I w \<Longrightarrow> I w'"
  unfolding keeps_def by (metis snd_conv)

definition pack_world_ok :: "pack_world \<Rightarrow> bool" where
  "pack_world_ok w \<longleftrightarrow> schema_ok (pf_core w) \<and> keys_ok (va_db (pw_vault w)) \<and>
     list_all (\<lambda>e. ce_conflict_id e \<le> pw_events_seq w) (pw_events w)"

lemma keys_ok_core [simp]: "keys_ok (a\<lparr>ad_core := s\<rparr>) = keys_ok a"
  by (simp add: keys_ok_def)

lemma set_core_simps [simp]:
  "pf_core (set_core s w) = s" "pw_events (set_core s w) = pw_events w" "pw_events_seq (set_core s w) = pw_events_seq w"
  "pw_spool (set_core s w) = pw_spool w" "va_keys (pw_vault (set_core s w)) = va_keys (pw_vault w)"
  "data_encryption_keys (va_db (pw_vault (set_core s w))) = data_encryption_keys (va_db (pw_vault w))"
  "pack_deks (va_db (pw_vault (set_core s w))) = pack_deks (va_db (pw_vault w))"
  "keys_ok (va_db (pw_vault (set_core s w))) = keys_ok (va_db (pw_vault w))"
  by (simp_all add: set_core_def with_adb_def)

lemma keeps_spool_write: "keeps pack_world_ok (spool_write E name bs)"
  by (simp add: keeps_def spool_write_def pack_world_ok_def split: file_outcome.split)

lemma create_pack_dek_core: "create_pack_dek P key now st i = Inr (r, st') \<Longrightarrow> ad_core (va_db st') = ad_core (va_db st)"
  by (auto simp: create_pack_dek_def insert_wrapped_dek_def Let_def result_elims split: if_splits)

lemma keeps_create_dek: "keeps pack_world_ok (vault_step (\<lambda>st. create_pack_dek P key now st i))"
  unfolding keeps_def
proof (intro allI impI)
  fix w assume w: "pack_world_ok w"
  show "pack_world_ok (snd (vault_step (\<lambda>st. create_pack_dek P key now st i) w))"
  proof (cases "create_pack_dek P key now (pw_vault w) i")
    case (Inr x)
    then obtain r st where x: "create_pack_dek P key now (pw_vault w) i = Inr (r, st)" by (cases x) auto
    have "keys_ok (va_db st)"
      using x w keys_ok_insert by (fastforce simp: create_pack_dek_def result_elims pack_world_ok_def)
    with x w create_pack_dek_core [OF x] show ?thesis by (simp add: vault_step_def pack_world_ok_def)
  qed (use w in \<open>simp add: vault_step_def\<close>)
qed

lemma keeps_spool_shards: "keeps pack_world_ok (spool_shards E pid mode ibs)"
proof (induction ibs)
  case (Cons ib ibs)
  obtain i bs where ib: "ib = (i, bs)" by (cases ib)
  have "keeps pack_world_ok (bindW (spool_write E (local_shard_name pid i) bs) (\<lambda>_.
     bindW (liftW (map_err PF_Packer (prepare_shard (pe_sha256 E) pid mode (i, bs)))) (\<lambda>p.
     bindW (spool_shards E pid mode ibs) (\<lambda>ps. returnW (p # ps)))))"
    by (intro keeps_bindW keeps_spool_write Cons.IH keeps_plain)
  then show ?case by (simp add: keeps_def ib)
qed (simp add: keeps_def)

lemma keeps_new_pack: "keeps pack_world_ok (new_pack E i mode k h off n pt)"
  unfolding new_pack_def Let_def
proof (rule keeps_bindW [OF keeps_create_dek], goal_cases)
  case (1 x)
  show ?case
    by (cases x) (simp only: prod.case, intro keeps_bindW keeps_spool_write keeps_spool_shards keeps_plain)
qed

lemma keeps_prepare_pack: "keeps pack_world_ok (prepare_pack E i mode k off pt)"
proof -
  have "keeps pack_world_ok (\<lambda>w. case find_pack_by_plaintext_hash (pf_core w) h mode of
      Some existing \<Rightarrow> liftW (f existing) w | None \<Rightarrow> new_pack E i mode k h off n pt w)" for h f n
    using keeps_new_pack [of E i mode k h off n pt] by (simp add: keeps_def liftW_def split: option.split)
  then show ?thesis unfolding prepare_pack_def Let_def by (intro keeps_bindW keeps_plain)
qed

lemma keeps_prepare_packs: "pack_world_ok w \<Longrightarrow> pack_world_ok (snd (prepare_packs E i mode k off content w))"
proof (induction E i mode k off content w rule: prepare_packs.induct)
  case (1 E i mode k off content w)
  let ?chunk = "fst (read_next_chunk (pe_reads E k) (pe_chunk_size E) content)"
  show ?case
  proof (cases "pe_read_fails E k \<or> ?chunk = []")
    case True
    with "1.prems" show ?thesis by (subst prepare_packs.simps) (auto simp: Let_def)
  next
    case False
    obtain r w1 where r: "prepare_pack E i mode k off ?chunk w = (r, w1)" by force
    have ok: "pack_world_ok w1" by (rule keepsD [OF keeps_prepare_pack r "1.prems"])
    show ?thesis
    proof (cases r)
      case (Inl e)
      with r False ok show ?thesis by (subst prepare_packs.simps) (simp add: Let_def)
    next
      case (Inr p)
      show ?thesis
      proof (cases "checked_add_i64 off (pp_plain_size p) ''file offset''")
        case (Inl e)
        with r \<open>r = Inr p\<close> False ok show ?thesis by (subst prepare_packs.simps) (simp add: Let_def)
      next
        case (Inr o')
        have "pack_world_ok (snd (prepare_packs E i mode (Suc k) o'
            (snd (read_next_chunk (pe_reads E k) (pe_chunk_size E) content)) w1))"
          using "1.IH" False r \<open>r = Inr p\<close> Inr ok by auto
        with r \<open>r = Inr p\<close> Inr False show ?thesis
          by (subst prepare_packs.simps) (auto simp: Let_def split: prod.split sum.split)
      qed
    qed
  qed
qed

lemma keeps_core_step: "(\<And>s x s'. schema_ok s \<Longrightarrow> f s = Inr (x, s') \<Longrightarrow> schema_ok s') \<Longrightarrow> keeps pack_world_ok (core_step f)"
  by (auto simp: keeps_def core_step_def pack_world_ok_def split: sum.split)

lemma keeps_core_modify: "(\<And>s. schema_ok s \<Longrightarrow> schema_ok (f s)) \<Longrightarrow> keeps pack_world_ok (core_modify f)"
  by (simp add: keeps_def core_modify_def pack_world_ok_def)

lemma keeps_record_shards: "keeps pack_world_ok (record_shards pid shs)"
proof (induction shs)
  case (Cons sh shs)
  let ?f = "\<lambda>s. bindR (register_pack_shard s pid (ps_shard_index sh) (ps_shard_role sh) (ps_provider sh)
     (ps_object_key sh) (ps_size sh) (ps_checksum sh) ''PENDING'') (\<lambda>s'. Inr ((), s'))"
  have "keeps pack_world_ok (core_step ?f)"
    by (rule keeps_core_step) (auto simp: result_elims intro: schema_ok_register_pack_shard)
  then have "keeps pack_world_ok (bindW (core_step ?f) (\<lambda>_. record_shards pid shs))"
    by (intro keeps_bindW Cons.IH)
  then show ?case by (simp add: keeps_def)
qed (simp add: keeps_def)

lemma ad_core_set_pack_dek [simp]: "ad_core (set_pack_dek a p d) = ad_core a"
  by (simp add: set_pack_dek_def)

lemma keeps_set_dek: "keeps pack_world_ok (\<lambda>w. (Inr (), case d of None \<Rightarrow> w | Some d \<Rightarrow> with_adb (\<lambda>a. set_pack_dek a pid d) w))"
  by (auto simp: keeps_def pack_world_ok_def with_adb_def keys_ok_set_pack_dek split: option.split)

lemma keeps_record_pack: "keeps pack_world_ok (record_pack rv p)"
proof -
  have reg: "keeps pack_world_ok (core_step (\<lambda>s. register_chunk s rv (pp_chunk_id p) (pp_file_offset p) (pp_plain_size p)))"
    by (rule keeps_core_step) (rule schema_ok_register_chunk)
  have queue: "keeps pack_world_ok (if b then returnW () else core_modify (\<lambda>s. queue_pack_for_upload s (pp_pack_id p)))" for b
    by (simp add: keeps_core_modify schema_ok_queue_pack_for_upload)
  have link: "keeps pack_world_ok (core_modify (\<lambda>s. link_chunk_to_pack s a b c d))" for a b c d
    by (rule keeps_core_modify) (rule schema_ok_link_chunk_to_pack)
  have create: "keeps pack_world_ok (core_modify (\<lambda>s. create_pack s a b c m v ec l ci sz n tg st))"
    for a b c m v ec l ci sz n tg st
    by (rule keeps_core_modify) (rule schema_ok_create_pack)
  show ?thesis
  proof (cases "pp_is_deduplicated p")
    case True
    show ?thesis unfolding record_pack_def if_P [OF True] by (intro keeps_bindW reg link keeps_plain)
  next
    case False
    show ?thesis unfolding record_pack_def if_not_P [OF False]
      by (intro keeps_bindW reg link create keeps_set_dek keeps_record_shards queue)
  qed
qed

lemma keeps_record_packs: "keeps pack_world_ok (record_packs rv ps)"
proof (induction ps)
  case (Cons p ps)
  then have "keeps pack_world_ok (bindW (record_pack rv p) (\<lambda>_. record_packs rv ps))"
    by (intro keeps_bindW keeps_record_pack)
  then show ?case by (simp add: keeps_def)
qed (simp add: keeps_def)


lemma schema_ok_create_conflict_inode:
  "schema_ok s \<Longrightarrow> create_conflict_inode s par base kind n as = Inr (x, s') \<Longrightarrow> schema_ok s'"
  by (induction as) (auto split: sum.splits sqlx_error.splits dest: schema_ok_create_inode)

lemma events_ok_core [simp]: "events_ok (s\<lparr>cb_core := x\<rparr>) = events_ok s"
  by (simp add: events_ok_def)

lemma materialize_keeps:
  assumes "schema_ok (cb_core s)" and "events_ok s"
    and "materialize_conflict_copy_from_revision s now rv dev name reason = (r, s')"
  shows "schema_ok (cb_core s') \<and> events_ok s'"
proof -
  have event: "events_ok s2 \<and> cb_core s2 = cb_core s1" if "create_conflict_event s1 now i a b reason = Inr (c, s2)" "events_ok s1"
    for s1 s2 i a b c
    using that by (fastforce simp: create_conflict_event_def events_ok_def Let_def list_all_iff split: if_splits)
  have attach: "events_ok s2 \<and> cb_core s2 = cb_core s1" if "attach_conflict_materialization s1 c i q = Inr s2" "events_ok s1"
    for s1 s2 c i q
    using that by (auto simp: attach_conflict_materialization_def events_ok_def list_all_update_where split: if_splits)
  show ?thesis
    using assms
    by (auto simp: materialize_conflict_copy_from_revision_def
        dest!: schema_ok_create_conflict_inode [rotated] schema_ok_create_file_revision [rotated]
          schema_ok_copy_chunk_refs [rotated] event attach
        split: option.splits sum.splits)
qed

lemma keeps_materialize_copy: "keeps pack_world_ok (materialize_copy E rv reason)"
  unfolding keeps_def
proof (intro allI impI)
  fix w assume w: "pack_world_ok w"
  let ?s = "\<lparr>cb_core = pf_core w, conflict_events = pw_events w, conflict_events_seq = pw_events_seq w\<rparr>"
  let ?dev = "get_local_device_identity (va_db (pw_vault w))"
  let ?name = "case ?dev of None \<Rightarrow> ''Unknown Device'' | Some d \<Rightarrow> ld_device_name d"
  obtain r s' where m: "materialize_conflict_copy_from_revision ?s (pe_now E) rv (map_option ld_device_id ?dev) ?name reason = (r, s')"
    by force
  have "schema_ok (cb_core s') \<and> events_ok s'"
    by (rule materialize_keeps [OF _ _ m]) (use w in \<open>simp_all add: pack_world_ok_def events_ok_def\<close>)
  with w m show "pack_world_ok (snd (materialize_copy E rv reason w))"
    by (cases r) (auto simp: materialize_copy_def Let_def pack_world_ok_def events_ok_def)
qed

lemma keeps_choose_parent:
  assumes "pack_world_ok w" and "choose_parent E i expected w = Some (r, w')"
  shows "pack_world_ok w'"
proof -
  have "keeps pack_world_ok (bindW (materialize_copy E rv reason) (\<lambda>name. returnW (Some x, Some name)))" for rv reason and x :: int
    by (intro keeps_bindW keeps_materialize_copy keeps_plain)
  from keepsD [OF this _ assms(1)] have copy:
    "bindW (materialize_copy E rv reason) (\<lambda>name. returnW (Some x, Some name)) w = (r, w') \<Longrightarrow> pack_world_ok w'" for rv reason x
    by blast
  from assms copy show ?thesis
    by (auto simp: choose_parent_def Let_def split: option.splits RevisionLineageRelation.splits)
qed

lemma keeps_commit: "keeps pack_world_ok (commit_revision E i ps parent)"
proof -
  have create: "keeps pack_world_ok (core_step (\<lambda>s. create_file_revision s now i n im dev par org c))" for now n im dev par org c
    by (rule keeps_core_step) (rule schema_ok_create_file_revision)
  have "keeps pack_world_ok (\<lambda>w. bindW (core_step (\<lambda>s. create_file_revision s (pe_now E) i n None
      (map_option ld_device_id (get_local_device_identity (va_db (pw_vault w)))) (fst parent) ''local_write'' None))
      (\<lambda>rv. bindW (record_packs rv ps) (\<lambda>_. returnW (res rv))) w)" for n res
  proof -
    have "keeps pack_world_ok (bindW (core_step (\<lambda>s. create_file_revision s (pe_now E) i n None dev (fst parent) ''local_write'' None))
      (\<lambda>rv. bindW (record_packs rv ps) (\<lambda>_. returnW (res rv))))" for dev
      by (intro keeps_bindW create keeps_record_packs keeps_plain)
    then show ?thesis by (simp add: keeps_def)
  qed
  then show ?thesis unfolding commit_revision_def by (intro keeps_bindW keeps_plain)
qed

text \<open>
  C20: packing keeps the tables well formed. However a file is packed (a new chunk or a shared one, any storage mode, a
  stale base that makes a conflict copy) and however it ends (a read or write that fails, a locked vault, a number that
  does not fit, a refused statement), the database it leaves satisfies every key, unique constraint and reference of the
  schema, the keys of the key tables are unique, and no event has an id the table has not handed out.
\<close>

theorem pack_file_keeps_tables:
  assumes "pack_world_ok w" and "pack_file_with_expected_parent E inode_id source expected w = Some (res, w')"
  shows "pack_world_ok w'"
proof -
  have prep: "pack_world_ok w1" if "prepare_packs E inode_id mode 0 0 content w = (r, w1)" for mode content r w1
    using keeps_prepare_packs [OF assms(1), of E inode_id mode 0 0 content] that by simp
  from assms(2) obtain mode where mode: "get_storage_mode_for_inode (pf_core w) inode_id = Some mode"
    by (auto simp: pack_file_with_expected_parent_def split: option.splits)
  show ?thesis
  proof (cases source)
    case None
    with assms mode show ?thesis by (simp add: pack_file_with_expected_parent_def)
  next
    case (Some content)
    obtain r w1 where r: "prepare_packs E inode_id mode 0 0 content w = (r, w1)" by force
    note w1 = prep [OF r]
    show ?thesis
    proof (cases r)
      case (Inl e)
      with assms mode Some r w1 show ?thesis by (simp add: pack_file_with_expected_parent_def)
    next
      case (Inr ps)
      with assms(2) mode Some r obtain q w2 where q: "choose_parent E inode_id expected w1 = Some (q, w2)"
        by (auto simp: pack_file_with_expected_parent_def split: option.splits)
      note w2 = keeps_choose_parent [OF w1 q]
      show ?thesis
      proof (cases q)
        case (Inl e)
        with assms(2) mode Some r Inr q w2 show ?thesis by (simp add: pack_file_with_expected_parent_def)
      next
        case parent: (Inr parent)
        with assms(2) mode Some r Inr q have "commit_revision E inode_id ps parent w2 = (res, w')"
          by (simp add: pack_file_with_expected_parent_def)
        then show ?thesis by (rule keepsD [OF keeps_commit _ w2])
      qed
    qed
  qed
qed

end
