(* ===== verification/PackRestore.thy ===== *)
theory PackRestore
  imports PackFile
begin

text \<open>
  From a packed file back to its bytes: the part of \<open>load_plaintext_chunk\<close> of \<^verbatim>\<open>downloader/read.rs\<close> that goes to
  the packs, and the proof that what \<open>pack_file\<close> records is what \<open>read_range\<close> reads. The proof follows the stages of
  \<open>pack_file\<close>: the keys it creates, the packs it prepares, the rows it writes.
\<close>

section \<open>Reading a chunk from its pack\<close>

text \<open>
  What a reader has: the configured providers, the answers of probes and downloads per shard row, the files of the two
  spool directories, and the key of version 1. A manifest a download leaves in the spool only saves later downloads, so
  each chunk is read here from the same spool.
\<close>

record reader =
  rd_providers :: "string list"
  rd_latency :: "PackShardRecord \<Rightarrow> nat option"
  rd_fetch :: "PackShardRecord \<Rightarrow> string + bytes"
  rd_local_spool :: "string \<Rightarrow> bytes option"
  rd_spool :: "string \<Rightarrow> bytes option"
  rd_vault_key :: bytes

definition pack_dek :: "prims \<Rightarrow> vault \<Rightarrow> string \<Rightarrow> bytes option" where
  "pack_dek P st pack_id = (case dek_for_pack P st pack_id of Inr (dek, _) \<Rightarrow> Some dek | Inl _ \<Rightarrow> None)"

text \<open>The record of a local-only pack stays in the spool of the packer.\<close>

definition spool_of_pack :: "reader \<Rightarrow> db \<Rightarrow> string \<Rightarrow> (string \<Rightarrow> bytes option) \<Rightarrow> string \<Rightarrow> bytes option" where
  "spool_of_pack D s pack_id spool =
     (if map_option (\<lambda>p. StorageMode_from_str (pk_storage_mode p)) (get_pack s pack_id) = Some LocalOnly
      then rd_local_spool D else spool)"

definition load_from_pack :: "prims \<Rightarrow> rs_prims \<Rightarrow> reader \<Rightarrow> vault \<Rightarrow> FileChunkLocation \<Rightarrow> DownloaderError + bytes" where
  "load_from_pack P R D st chunk =
     (case download_pack R (ad_core (va_db st)) (rd_providers D) (rd_latency D) (rd_fetch D) (rd_local_spool D)
             (rd_spool D) (fcl_pack_id chunk) of
        (res, spool') \<Rightarrow>
          bindR res (\<lambda>source.
          bindR (ok_or DE_Io (spool_of_pack D (ad_core (va_db st)) (fcl_pack_id chunk) spool' (src_local_name source))) (\<lambda>pack_bytes.
            decrypt_chunk_record (pr_crypto P) pack_bytes chunk (rd_vault_key D) (pack_dek P st (fcl_pack_id chunk)))))"

text \<open>
  \<open>restore_file\<close> writes the chunks of the current revision one after the other into a new file, each at its offset. The
  file is left with what was written so far when a chunk cannot be loaded; that its writes succeed is taken for granted.
\<close>

definition to_u64 :: "int \<Rightarrow> string \<Rightarrow> DownloaderError + nat" where
  "to_u64 v ctx = (if v < 0 then Inl (DE_NumericOverflow ctx) else Inr (nat v))"

definition write_at :: "nat \<Rightarrow> bytes \<Rightarrow> bytes \<Rightarrow> bytes" where
  "write_at offset bs out =
     take offset (out @ replicate (offset - length out) 0) @ bs @ drop (offset + length bs) out"

fun restore_chunks ::
  "(FileChunkLocation \<Rightarrow> DownloaderError + bytes) \<Rightarrow> FileChunkLocation list \<Rightarrow> nat \<Rightarrow> bytes \<Rightarrow> (DownloaderError + nat) \<times> bytes" where
  "restore_chunks load [] current_offset output = (Inr current_offset, output)"
| "restore_chunks load (chunk # chunks) current_offset output =
     (case load chunk of
        Inl e \<Rightarrow> (Inl e, output)
      | Inr plaintext \<Rightarrow>
     (case to_u64 (fcl_file_offset chunk) ''file offset'' of
        Inl e \<Rightarrow> (Inl e, output)
      | Inr desired_offset \<Rightarrow>
          let output' = write_at desired_offset plaintext output
          in (case usize_checked_add desired_offset (length plaintext) of
                None \<Rightarrow> (Inl (DE_NumericOverflow ''bytes written''), output')
              | Some next_offset \<Rightarrow> restore_chunks load chunks next_offset output')))"

definition restore_file ::
  "db \<Rightarrow> (FileChunkLocation \<Rightarrow> DownloaderError + bytes) \<Rightarrow> int \<Rightarrow> (DownloaderError + nat) \<times> bytes option" where
  "restore_file s load inode_id =
     (let chunks = get_file_chunk_locations s inode_id
      in if chunks = [] then (Inl (DE_NoChunksForInode inode_id), None)
         else map_prod id Some (restore_chunks load chunks 0 []))"

lemma restore_chunks_tiled:
  assumes "tiled load k ls content" and "int (k + length content) \<le> i64_max" and "length out = k"
  shows "restore_chunks load ls k out = (Inr (k + length content), out @ content)"
  using assms
proof (induction ls arbitrary: k content out)
  case (Cons l ls)
  define n where "n = nat (fcl_size l)"
  have t: "fcl_file_offset l = int k" "0 < n" "n \<le> length content" "load l = Inr (take n content)"
    "tiled load (k + n) ls (drop n content)" using Cons.prems(1) by (auto simp: n_def)
  have len: "length (take n content) = n" using t(3) by simp
  have "restore_chunks load ls (k + n) (out @ take n content) =
      (Inr (k + n + length (drop n content)), (out @ take n content) @ drop n content)"
    by (rule Cons.IH [OF t(5)]) (use Cons.prems(2,3) t(3) in simp_all)
  moreover have "usize_checked_add k n = Some (k + n)"
    using Cons.prems(2) t(3) by (simp add: usize_checked_add_def usize_max_def i64_max_def)
  moreover have "write_at k (take n content) out = out @ take n content" using Cons.prems(3) by (simp add: write_at_def)
  ultimately show ?case using t(1,3,4) by (simp add: to_u64_def Let_def len)
qed simp

section \<open>What a pack holds\<close>

definition dek_bound :: "prims \<Rightarrow> vault \<Rightarrow> int \<Rightarrow> bytes \<Rightarrow> bool" where
  "dek_bound P st d dek \<longleftrightarrow>
     (\<exists>k. get_wrapped_dek_by_id (va_db st) d = Some k \<and> unwrap_dek_bytes P st (dk_wrapped_dek k) = Inr dek)"

text \<open>
  The row of an erasure-coded pack, its key and the checksums of its shards belong to one plaintext. The plaintext and
  its shards are among the contents \<open>X\<close> that are hashed.
\<close>

definition holds_with :: "packer \<Rightarrow> bytes set \<Rightarrow> vault \<Rightarrow> PackRecord \<Rightarrow> bytes \<Rightarrow> bytes \<Rightarrow> EncryptedChunk \<Rightarrow> bytes list \<Rightarrow> bool" where
  "holds_with E X st p pt dek e enc \<longleftrightarrow>
     pt \<in> X \<and> set enc \<subseteq> X \<and> length dek = 32 \<and> length (ec_nonce e) = 12 \<and> fits_i64 pt \<and>
     encrypt_chunk_v2 (pr_crypto (pe_prims E)) (ec_nonce e) dek pt [] = Inr e \<and> ec_pack_row e pt p \<and>
     pk_plaintext_hash p = Some (hex_sha256 (pe_sha256 E) pt) \<and>
     (\<exists>d. get_pack_dek_id (va_db st) (pk_pack_id p) = Some d \<and> dek_bound (pe_prims E) st d dek) \<and>
     split_ciphertext_into_shards (pe_rs E) (ec_ciphertext e) = Inr enc \<and>
     (\<forall>sh \<in> set (pack_shards (ad_core (va_db st))). sh_pack_id sh = pk_pack_id p \<longrightarrow>
        0 \<le> sh_shard_index sh \<and> nat (sh_shard_index sh) < 3 \<and>
        sh_checksum sh = hex_sha256 (pe_sha256 E) (enc ! nat (sh_shard_index sh)))"

definition pack_holds :: "packer \<Rightarrow> bytes set \<Rightarrow> vault \<Rightarrow> PackRecord \<Rightarrow> bytes \<Rightarrow> bool" where
  "pack_holds E X st p pt \<longleftrightarrow> (\<exists>dek e enc. holds_with E X st p pt dek e enc)"

text \<open>Of the contents that are hashed, different ones have different checksums.\<close>

definition collision_free :: "(bytes \<Rightarrow> bytes) \<Rightarrow> bytes set \<Rightarrow> bool" where
  "collision_free sha256 X \<longleftrightarrow> inj_on (hex_sha256 sha256) X"

text \<open>The cloud answers with what was stored, and at least two shards of a pack can be fetched.\<close>

definition genuine :: "(bytes \<Rightarrow> bytes) \<Rightarrow> bytes set \<Rightarrow> reader \<Rightarrow> db \<Rightarrow> bool" where
  "genuine sha256 X D s \<longleftrightarrow>
     (\<forall>sh \<in> set (pack_shards s). \<forall>bs. rd_fetch D sh = Inr bs \<longrightarrow> bs \<in> X \<and> hex_sha256 sha256 bs = sh_checksum sh)"

definition fetchable :: "reader \<Rightarrow> PackShardRecord \<Rightarrow> bool" where
  "fetchable D sh \<longleftrightarrow> sh_provider sh \<in> set (rd_providers D) \<and> (\<exists>bs. rd_fetch D sh = Inr bs)"

definition reachable :: "reader \<Rightarrow> db \<Rightarrow> string \<Rightarrow> bool" where
  "reachable D s pack_id \<longleftrightarrow> rd_spool D (local_pack_name pack_id) = None \<and>
     (\<exists>a \<in> set (get_pack_shards s pack_id). \<exists>b \<in> set (get_pack_shards s pack_id).
        sh_shard_index a \<noteq> sh_shard_index b \<and> fetchable D a \<and> fetchable D b)"

lemma set_get_pack_shards: "sh \<in> set (get_pack_shards s pid) \<longleftrightarrow> sh \<in> set (pack_shards s) \<and> sh_pack_id sh = pid"
  by (auto simp: get_pack_shards_def)

lemma get_pack_row: "schema_ok s \<Longrightarrow> p \<in> set (packs s) \<Longrightarrow> get_pack s (pk_pack_id p) = Some p"
  using filter_key_singleton [of pk_pack_id "packs s" p] by (simp add: get_pack_def schema_ok_def)

lemma load_held_pack:
  assumes P: "prims_ok (pr_crypto (pe_prims E))" and R: "rs_ok (pe_rs E)" and cf: "collision_free (pe_sha256 E) X"
    and s: "schema_ok (ad_core (va_db st))" and p: "p \<in> set (packs (ad_core (va_db st)))" and h: "pack_holds E X st p pt"
    and g: "genuine (pe_sha256 E) X D (ad_core (va_db st))" and r: "reachable D (ad_core (va_db st)) (pk_pack_id p)"
    and loc: "fcl_chunk_id chunk = pk_chunk_id p" "fcl_pack_id chunk = pk_pack_id p" "fcl_pack_offset chunk = 0"
      "fcl_size chunk = int (length pt)" "fcl_encrypted_size chunk = int (96 + length pt)"
  shows "load_from_pack (pe_prims E) (pe_rs E) D st chunk = Inr pt"
proof -
  let ?core = "ad_core (va_db st)"
  from h obtain dek e enc d where
    X: "set enc \<subseteq> X" and
    len: "length dek = 32" "length (ec_nonce e) = 12" and fits: "fits_i64 pt"
    and e: "encrypt_chunk_v2 (pr_crypto (pe_prims E)) (ec_nonce e) dek pt [] = Inr e" and row: "ec_pack_row e pt p"
    and d: "get_pack_dek_id (va_db st) (pk_pack_id p) = Some d" "dek_bound (pe_prims E) st d dek"
    and enc: "split_ciphertext_into_shards (pe_rs E) (ec_ciphertext e) = Inr enc"
    and shards: "\<And>sh. sh \<in> set (pack_shards ?core) \<Longrightarrow> sh_pack_id sh = pk_pack_id p \<Longrightarrow>
        0 \<le> sh_shard_index sh \<and> nat (sh_shard_index sh) < 3 \<and>
        sh_checksum sh = hex_sha256 (pe_sha256 E) (enc ! nat (sh_shard_index sh))"
    by (auto simp: pack_holds_def holds_with_def)
  from split_ciphertext_ok [OF R, of "ec_ciphertext e"] enc have len3: "length enc = 3" by auto
  have hon: "\<forall>sh \<in> set (get_pack_shards ?core (pk_pack_id p)). sh_provider sh \<in> set (rd_providers D) \<longrightarrow> honest (rd_fetch D) enc sh"
  proof (intro ballI impI)
    fix sh assume "sh \<in> set (get_pack_shards ?core (pk_pack_id p))"
    then have sh: "sh \<in> set (pack_shards ?core)" "sh_pack_id sh = pk_pack_id p" by (simp_all add: set_get_pack_shards)
    have "bs = enc ! nat (sh_shard_index sh)" if "rd_fetch D sh = Inr bs" for bs
    proof -
      have "hex_sha256 (pe_sha256 E) bs = hex_sha256 (pe_sha256 E) (enc ! nat (sh_shard_index sh))"
        using g sh that shards [OF sh] by (simp add: genuine_def)
      moreover have "bs \<in> X" "enc ! nat (sh_shard_index sh) \<in> X"
        using g sh that X shards [OF sh] len3 nth_mem [of "nat (sh_shard_index sh)" enc] by (auto simp: genuine_def)
      ultimately show ?thesis using cf unfolding collision_free_def by (rule_tac inj_onD)
    qed
    with shards [OF sh] len3 show "honest (rd_fetch D) enc sh" by (simp add: honest_def)
  qed
  from r obtain a b where ab: "a \<in> set (get_pack_shards ?core (pk_pack_id p))" "sh_provider a \<in> set (rd_providers D)"
    "\<exists>x. rd_fetch D a = Inr x" "b \<in> set (get_pack_shards ?core (pk_pack_id p))" "sh_provider b \<in> set (rd_providers D)"
    "\<exists>x. rd_fetch D b = Inr x" "sh_shard_index a \<noteq> sh_shard_index b"
    by (auto simp: reachable_def fetchable_def)
  have ct: "length (ec_ciphertext e) = length pt" by (rule encrypt_chunk_v2_facts(3) [OF P len e])
  have whole: "whole_pack_location e (int (length pt)) (pk_pack_id p) chunk"
    using loc row ct by (simp add: whole_pack_location_def ec_pack_row_def)
  note gp = get_pack_row [OF s p]
  from fetch_any_two [OF P R len fits e enc gp row hon ab whole, of "rd_latency D" "rd_vault_key D"] obtain m fp where
    m: "fetch_manifest (pe_rs E) ?core (rd_providers D) (rd_latency D) (rd_fetch D) p = Inr (m, fp)"
    "decrypt_chunk_record (pr_crypto (pe_prims E)) m chunk (rd_vault_key D) (Some dek) = Inr pt" by blast
  have mode: "StorageMode_from_str (pk_storage_mode p) = Ec2_1"
    using row by (simp add: ec_pack_row_def StorageMode_from_str_def)
  have key: "pack_dek (pe_prims E) st (pk_pack_id p) = Some dek"
    using d by (auto simp: pack_dek_def dek_for_pack_def dek_bound_def)
  show ?thesis
    using m gp mode r key
    by (simp add: load_from_pack_def download_pack_def spool_of_pack_def loc(2) reachable_def Let_def)
qed

section \<open>Preparing packs\<close>

lemma bindW_Inr: "bindW m k w = (Inr y, w') \<longleftrightarrow> (\<exists>x w1. m w = (Inr x, w1) \<and> k x w1 = (Inr y, w'))"
  by (cases "m w"; cases "fst (m w)") (auto simp: bindW_def split: sum.splits)

lemma liftW_Inr: "liftW r w = (Inr y, w') \<longleftrightarrow> r = Inr y \<and> w' = w"
  by (auto simp: liftW_def)

lemma returnW_Inr: "returnW x w = (Inr y, w') \<longleftrightarrow> x = y \<and> w' = w"
  by (auto simp: returnW_def)

lemmas stepW = bindW_Inr liftW_Inr returnW_Inr map_err_eq_Inr

lemma unwrap_dek_bytes_keys: "va_keys st' = va_keys st \<Longrightarrow> unwrap_dek_bytes P st' = unwrap_dek_bytes P st"
proof -
  assume a: "va_keys st' = va_keys st"
  have k: "require_envelope_key st' = require_envelope_key st" by (simp add: require_envelope_key_def a)
  have p: "previous_envelope_key st' = previous_envelope_key st" by (simp add: previous_envelope_key_def a)
  show ?thesis unfolding unwrap_dek_bytes_def [abs_def] k p ..
qed

lemma dek_bound_keys:
  assumes "va_keys st' = va_keys st" and "data_encryption_keys (va_db st') = data_encryption_keys (va_db st)"
  shows "dek_bound P st' d dek = dek_bound P st d dek"
  unfolding dek_bound_def get_wrapped_dek_by_id_def unwrap_dek_bytes_keys [OF assms(1)] assms(2) ..

text \<open>What a preparation leaves: the engine tables as they were, the keys it knew, and perhaps new ones.\<close>

definition grows :: "packer \<Rightarrow> pack_world \<Rightarrow> pack_world \<Rightarrow> bool" where
  "grows E w w' \<longleftrightarrow> pf_core w' = pf_core w \<and> va_keys (pw_vault w') = va_keys (pw_vault w) \<and>
     pack_deks (va_db (pw_vault w')) = pack_deks (va_db (pw_vault w)) \<and>
     (keys_ok (va_db (pw_vault w)) \<longrightarrow> keys_ok (va_db (pw_vault w'))) \<and>
     (\<forall>d dek. dek_bound (pe_prims E) (pw_vault w) d dek \<longrightarrow> dek_bound (pe_prims E) (pw_vault w') d dek)"

lemma grows_refl: "pw_vault w' = pw_vault w \<Longrightarrow> grows E w w'"
  by (simp add: grows_def)

lemma grows_trans: "grows E w w1 \<Longrightarrow> grows E w1 w2 \<Longrightarrow> grows E w w2"
  by (auto simp: grows_def)

lemma create_dek_facts:
  assumes P: "prims_ok (pr_crypto P)" and ek: "require_envelope_key st = Inr ek" "length ek = 32" and key: "length key = 32"
    and ok: "keys_ok (va_db st)" and c: "create_pack_dek P key now st i = Inr ((d, k), st')"
  shows "k = key \<and> va_keys st' = va_keys st \<and> ad_core (va_db st') = ad_core (va_db st) \<and>
    pack_deks (va_db st') = pack_deks (va_db st) \<and> keys_ok (va_db st') \<and> dek_bound P st' d key \<and>
    (\<forall>d' k'. dek_bound P st d' k' \<longrightarrow> dek_bound P st' d' k')"
proof -
  let ?s = "va_db st"
  from c ek obtain w s' where w: "wrap_key (pr_crypto P) ek key = Inr w" and kk: "k = key" and st': "st' = st\<lparr>va_db := s'\<rparr>"
    and ins: "insert_wrapped_dek ?s now i w (next_dek_key_version ?s i) (current_vault_key_generation ?s) = Inr (d, s')"
    by (auto simp: create_pack_dek_def vcrypto_def result_elims)
  from wrap_len [OF P ek(2) key w] have wl: "length w = WRAPPED_KEY_LEN" and wu: "unwrap_key (pr_crypto P) ek w = Inr key" by auto
  let ?rec = "\<lparr>dk_dek_id = d, dk_inode_id = i, dk_wrapped_dek = w, dk_key_version = next_dek_key_version ?s i,
      dk_vault_key_gen = current_vault_key_generation ?s, dk_created_at = now\<rparr>"
  from ins have d: "d = data_encryption_keys_seq ?s + 1"
    and s': "s' = ?s\<lparr>data_encryption_keys := data_encryption_keys ?s @ [?rec], data_encryption_keys_seq := d\<rparr>"
    by (auto simp: insert_wrapped_dek_def Let_def split: if_splits)
  have "list_all (\<lambda>k. dk_dek_id k \<le> data_encryption_keys_seq ?s) (data_encryption_keys ?s)" using ok by (simp add: keys_ok_def)
  then have "filter (\<lambda>k. dk_dek_id k = d) (data_encryption_keys ?s) = []"
    by (auto simp: filter_empty_conv list_all_iff d)
  then have get: "get_wrapped_dek_by_id (va_db st') d = Some ?rec"
    by (simp add: get_wrapped_dek_by_id_def st' s')
  have un: "unwrap_dek_bytes P st' = unwrap_dek_bytes P st" by (rule unwrap_dek_bytes_keys) (simp add: st')
  have "unwrap_dek_bytes P st' w = Inr key" unfolding un using ek(1) wl wu by (simp add: unwrap_dek_bytes_def wrapped_array_def)
  with get have "dek_bound P st' d key" by (simp add: dek_bound_def)
  moreover have "dek_bound P st' d' k'" if "dek_bound P st d' k'" for d' k'
  proof -
    from that obtain k where k: "get_wrapped_dek_by_id ?s d' = Some k" "unwrap_dek_bytes P st (dk_wrapped_dek k) = Inr k'"
      by (auto simp: dek_bound_def)
    then obtain t where "filter (\<lambda>k. dk_dek_id k = d') (data_encryption_keys ?s) = k # t"
      by (auto simp: get_wrapped_dek_by_id_def fetch_optional_Some)
    then have "get_wrapped_dek_by_id (va_db st') d' = Some k" by (simp add: get_wrapped_dek_by_id_def st' s')
    with k(2) show ?thesis by (auto simp: dek_bound_def un)
  qed
  moreover have "keys_ok (va_db st')" using keys_ok_insert [OF ok ins] by (simp add: st')
  ultimately show ?thesis by (simp add: kk st' s')
qed

lemma spool_write_grows: "spool_write E name bs w = (Inr x, w') \<Longrightarrow> pw_vault w' = pw_vault w"
  by (auto simp: spool_write_def split: file_outcome.splits)

lemma spool_shards_result:
  "spool_shards E pid mode ibs w = (Inr ps, w') \<Longrightarrow> pw_vault w' = pw_vault w \<and>
     list_all2 (\<lambda>ib p. prepare_shard (pe_sha256 E) pid mode ib = Inr p) ibs ps"
proof (induction ibs arbitrary: ps w)
  case (Cons ib ibs)
  obtain i bs where ib: "ib = (i, bs)" by (cases ib)
  from Cons.prems obtain w1 p ps' where "spool_write E (local_shard_name pid i) bs w = (Inr (), w1)"
    "prepare_shard (pe_sha256 E) pid mode (i, bs) = Inr p" "spool_shards E pid mode ibs w1 = (Inr ps', w')" "ps = p # ps'"
    by (auto simp: ib stepW)
  with Cons.IH [of w1 ps'] show ?case by (simp add: ib spool_write_grows)
qed simp

lemma length_manifest_v2:
  "length cid = 32 \<Longrightarrow> length nonce = 12 \<Longrightarrow> length tag = 16 \<Longrightarrow>
     length (build_manifest_bytes_v2 cid nonce ct tag n d) = 96 + length ct"
  by (simp add: build_manifest_bytes_v2_def prefix_bytes CHUNK_RECORD_MAGIC_def u32_be_def)

text \<open>The shards of a chunk under the key and nonce drawn for it, and what hashing a file hashes.\<close>

definition chunk_shards :: "packer \<Rightarrow> nat \<Rightarrow> bytes \<Rightarrow> bytes set" where
  "chunk_shards E k pt = (case encrypt_chunk_v2 (pr_crypto (pe_prims E)) (pe_nonce E k) (pe_key E k) pt [] of
     Inl _ \<Rightarrow> {}
   | Inr e \<Rightarrow> (case split_ciphertext_into_shards (pe_rs E) (ec_ciphertext e) of Inl _ \<Rightarrow> {} | Inr enc \<Rightarrow> set enc))"

definition hashed :: "packer \<Rightarrow> nat \<Rightarrow> bytes \<Rightarrow> bytes set" where
  "hashed E k content = (\<Union>j \<in> {j. j * pe_chunk_size E < length content}.
     let pt = take (pe_chunk_size E) (drop (j * pe_chunk_size E) content) in insert pt (chunk_shards E (k + j) pt))"

lemma hashed_step:
  assumes "content \<noteq> []"
  shows "take (pe_chunk_size E) content \<in> hashed E k content"
    and "chunk_shards E k (take (pe_chunk_size E) content) \<subseteq> hashed E k content"
    and "hashed E (Suc k) (drop (pe_chunk_size E) content) \<subseteq> hashed E k content"
proof -
  let ?c = "pe_chunk_size E"
  show "take ?c content \<in> hashed E k content" "chunk_shards E k (take ?c content) \<subseteq> hashed E k content"
    using assms by (auto simp: hashed_def Let_def intro!: exI [of _ "0 :: nat"])
  show "hashed E (Suc k) (drop ?c content) \<subseteq> hashed E k content"
  proof
    fix x assume "x \<in> hashed E (Suc k) (drop ?c content)"
    then obtain j where "j * ?c < length content - ?c"
      "x \<in> insert (take ?c (drop (Suc j * ?c) content)) (chunk_shards E (k + Suc j) (take ?c (drop (Suc j * ?c) content)))"
      by (auto simp: hashed_def Let_def add.commute)
    then show "x \<in> hashed E k content" unfolding hashed_def Let_def by (intro UN_I [of "Suc j"]) auto
  qed
qed

text \<open>A prepared new pack: its fields belong to one encryption of the chunk, under a key of the table.\<close>

definition new_pack_of :: "packer \<Rightarrow> bytes set \<Rightarrow> vault \<Rightarrow> bytes \<Rightarrow> PreparedPack \<Rightarrow> bool" where
  "new_pack_of E X st pt p \<longleftrightarrow> (\<exists>dek e enc d. set enc \<subseteq> X \<and> length dek = 32 \<and> length (ec_nonce e) = 12 \<and> fits_i64 pt \<and>
     encrypt_chunk_v2 (pr_crypto (pe_prims E)) (ec_nonce e) dek pt [] = Inr e \<and>
     split_ciphertext_into_shards (pe_rs E) (ec_ciphertext e) = Inr enc \<and>
     pp_dek_id p = Some d \<and> dek_bound (pe_prims E) st d dek \<and>
     pp_chunk_id p = ec_chunk_id e \<and> pp_nonce p = ec_nonce e \<and> pp_gcm_tag p = ec_gcm_tag e \<and>
     pp_cipher_size p = int (length (ec_ciphertext e)) \<and> pp_shard_size p = int (shard_len_of (ec_ciphertext e)) \<and>
     pp_manifest_size p = int (96 + length pt) \<and> \<not> pp_is_deduplicated p \<and>
     list_all2 (\<lambda>ib q. prepare_shard (pe_sha256 E) (pp_pack_id p) Ec2_1 ib = Inr q) (List.enumerate 0 enc) (pp_shards p))"

lemma shard_size_of_split:
  assumes "rs_ok R" and "split_ciphertext_into_shards R c = Inr enc"
    and "list_all2 (\<lambda>ib q. prepare_shard sha pid Ec2_1 ib = Inr q) (List.enumerate 0 enc) shards"
    and "shard_size_of Ec2_1 shards = Inr n"
  shows "n = int (shard_len_of c)"
proof -
  from split_ciphertext_ok [OF assms(1), of c] assms(2) obtain a b p where abp: "enc = [a, b, p]" "length a = shard_len_of c" by auto
  with assms(3) obtain q qs where q: "shards = q # qs" "prepare_shard sha pid Ec2_1 (0, a) = Inr q"
    by (auto simp: list_all2_Cons1)
  then have "ps_size q = int (shard_len_of c)"
    using abp(2) by (auto simp: prepare_shard_def to_i64_def result_elims split: if_splits)
  with assms(4) q(1) show ?thesis by (simp add: shard_size_of_def)
qed

lemma new_pack_result:
  assumes P: "prims_ok (pr_crypto (pe_prims E))" and R: "rs_ok (pe_rs E)"
    and ek: "require_envelope_key (pw_vault w) = Inr ek" "length ek = 32" and ok: "keys_ok (va_db (pw_vault w))"
    and rnd: "length (pe_key E k) = 32" "length (pe_nonce E k) = 12" and X: "chunk_shards E k pt \<subseteq> X"
    and run: "new_pack E i Ec2_1 k h off n pt w = (Inr p, w')"
  shows "grows E w w' \<and> new_pack_of E X (pw_vault w') pt p \<and> pp_plaintext_hash p = h \<and> pp_storage_mode p = Ec2_1 \<and>
    pp_file_offset p = off \<and> pp_plain_size p = n"
proof -
  from run obtain d dek w1 where d: "vault_step (\<lambda>st. create_pack_dek (pe_prims E) (pe_key E k) (pe_now E) st i) w = (Inr (d, dek), w1)"
    by (auto simp: new_pack_def stepW)
  then have c: "create_pack_dek (pe_prims E) (pe_key E k) (pe_now E) (pw_vault w) i = Inr ((d, dek), pw_vault w1)"
    by (auto simp: vault_step_def split: sum.splits)
  note f = create_dek_facts [OF P ek rnd(1) ok c]
  from run d obtain e where e: "encrypt_chunk_v2 (pr_crypto (pe_prims E)) (pe_nonce E k) dek pt [] = Inr e"
    by (auto simp: new_pack_def stepW)
  have dek: "dek = pe_key E k" using f by simp
  have dl: "length dek = 32" using rnd(1) by (simp add: dek)
  note ef = encrypt_chunk_v2_facts [OF P dl rnd(2) e]
  let ?m = "build_manifest_bytes_v2 (ec_chunk_id e) (ec_nonce e) (ec_ciphertext e) (ec_gcm_tag e) (length pt) d"
  have ml: "length ?m = 96 + length pt" using ef rnd(2) by (simp add: length_manifest_v2)
  define pid where "pid = compute_pack_id (pe_sha256 E) Ec2_1 ?m"
  from run d e obtain w2 enc shards w3 cs ss ms where
    w2: "spool_write E (local_pack_name pid) ?m w1 = (Inr (), w2)"
    and enc: "split_ciphertext_into_shards (pe_rs E) (ec_ciphertext e) = Inr enc"
    and sh: "spool_shards E pid Ec2_1 (List.enumerate 0 enc) w2 = (Inr shards, w3)"
    and cs: "to_i64 (length (ec_ciphertext e)) ''cipher size'' = Inr cs"
    and ss: "shard_size_of Ec2_1 shards = Inr ss" and ms: "to_i64 (length ?m) ''manifest size'' = Inr ms"
    and p: "w' = w3" "p = \<lparr>pp_pack_id = pid, pp_chunk_id = ec_chunk_id e, pp_plaintext_hash = h,
              pp_storage_mode = Ec2_1, pp_file_offset = off, pp_plain_size = n,
              pp_cipher_size = cs, pp_shard_size = ss, pp_manifest_name = local_pack_name pid,
              pp_manifest_size = ms, pp_nonce = ec_nonce e, pp_gcm_tag = ec_gcm_tag e,
              pp_shards = shards, pp_is_deduplicated = False, pp_dek_id = Some d\<rparr>"
    by (auto simp: new_pack_def stepW Let_def shard_bytes_for_def pid_def)
  from spool_shards_result [OF sh] spool_write_grows [OF w2] have v: "pw_vault w' = pw_vault w1"
    and shl: "list_all2 (\<lambda>ib q. prepare_shard (pe_sha256 E) pid Ec2_1 ib = Inr q) (List.enumerate 0 enc) shards"
    by (simp_all add: p(1))
  have cs': "cs = int (length (ec_ciphertext e))" using cs by (auto simp: to_i64_def split: if_splits)
  have ms': "ms = int (96 + length pt)" "fits_i64 pt"
    using ms ml by (auto simp: to_i64_def fits_i64_def split: if_splits)
  have ss': "ss = int (shard_len_of (ec_ciphertext e))" by (rule shard_size_of_split [OF R enc shl ss])
  have "new_pack_of E X (pw_vault w') pt p"
    unfolding new_pack_of_def
  proof (intro exI conjI)
    show "set enc \<subseteq> X" using X e enc by (simp add: chunk_shards_def dek)
    show "length dek = 32" by (rule dl)
    show "length (ec_nonce e) = 12" using ef rnd(2) by simp
    show "encrypt_chunk_v2 (pr_crypto (pe_prims E)) (ec_nonce e) dek pt [] = Inr e" using e ef(2) by simp
    show "dek_bound (pe_prims E) (pw_vault w') d dek" using f by (simp add: v dek)
    show "list_all2 (\<lambda>ib q. prepare_shard (pe_sha256 E) (pp_pack_id p) Ec2_1 ib = Inr q) (List.enumerate 0 enc) (pp_shards p)"
      using shl unfolding p(2) PreparedPack.select_convs .
  qed (simp_all add: p(2) enc cs' ss' ms')
  moreover have "grows E w w'" using f c v by (simp add: grows_def)
  ultimately show ?thesis by (simp add: p(2))
qed


text \<open>A prepared pack of a chunk: a new one, or one that is already there under the same hash.\<close>

definition shared_pack_of :: "packer \<Rightarrow> db \<Rightarrow> bytes \<Rightarrow> PreparedPack \<Rightarrow> bool" where
  "shared_pack_of E s pt p \<longleftrightarrow> pp_is_deduplicated p \<and> pp_dek_id p = None \<and>
     (\<exists>row \<in> set (packs s). pk_pack_id row = pp_pack_id p \<and> pk_chunk_id row = pp_chunk_id p \<and>
        pk_plaintext_hash row = Some (hex_sha256 (pe_sha256 E) pt) \<and> pk_storage_mode row = StorageMode_as_str Ec2_1 \<and>
        pk_status row \<noteq> ''UNREADABLE'' \<and> manifest_size_from_pack row = Inr (pp_manifest_size p))"

definition prepared :: "packer \<Rightarrow> bytes set \<Rightarrow> pack_world \<Rightarrow> int \<Rightarrow> bytes \<Rightarrow> PreparedPack \<Rightarrow> bool" where
  "prepared E X w off pt p \<longleftrightarrow> pt \<in> X \<and>
     (new_pack_of E X (pw_vault w) pt p \<or> shared_pack_of E (pf_core w) pt p) \<and>
     pp_plaintext_hash p = hex_sha256 (pe_sha256 E) pt \<and> pp_storage_mode p = Ec2_1 \<and> pp_file_offset p = off \<and>
     pp_plain_size p = int (length pt)"

lemma new_pack_of_mono:
  assumes "new_pack_of E X st pt p" and "\<And>d dek. dek_bound (pe_prims E) st d dek \<Longrightarrow> dek_bound (pe_prims E) st' d dek"
  shows "new_pack_of E X st' pt p"
  using assms unfolding new_pack_of_def by blast

lemma prepared_grows: "prepared E X w off pt p \<Longrightarrow> grows E w w' \<Longrightarrow> prepared E X w' off pt p"
  using new_pack_of_mono [of E X "pw_vault w" pt p "pw_vault w'"]
  by (auto simp: prepared_def grows_def shared_pack_of_def)

lemma found_pack:
  assumes "find_pack_by_plaintext_hash s h mode = Some row"
  shows "row \<in> set (packs s) \<and> pk_plaintext_hash row = Some h \<and> pk_storage_mode row = StorageMode_as_str mode \<and>
    pk_status row \<noteq> ''UNREADABLE''"
proof -
  from assms have "row \<in> set (sort_key (\<lambda>r. (status_rank (pk_status r), pk_pack_id r))
      (filter (\<lambda>r. pk_plaintext_hash r = Some h \<and> pk_storage_mode r = StorageMode_as_str mode \<and>
        pk_status r \<noteq> ''UNREADABLE'') (packs s)))"
    unfolding find_pack_by_plaintext_hash_def fetch_limit_1 by (rule fetch_optional_in)
  then show ?thesis by simp
qed

text \<open>A vault that can create keys, and random values of the right length.\<close>

definition can_pack :: "packer \<Rightarrow> pack_world \<Rightarrow> bool" where
  "can_pack E w \<longleftrightarrow> prims_ok (pr_crypto (pe_prims E)) \<and> rs_ok (pe_rs E) \<and> keys_ok (va_db (pw_vault w)) \<and>
     (\<exists>ek. require_envelope_key (pw_vault w) = Inr ek \<and> length ek = 32) \<and>
     (\<forall>k. length (pe_key E k) = 32 \<and> length (pe_nonce E k) = 12)"

lemma can_pack_grows: "can_pack E w \<Longrightarrow> grows E w w' \<Longrightarrow> can_pack E w'"
  by (auto simp: can_pack_def grows_def require_envelope_key_def)

lemma prepare_pack_result:
  assumes c: "can_pack E w" and X: "pt \<in> X" "chunk_shards E k pt \<subseteq> X" and run: "prepare_pack E i Ec2_1 k off pt w = (Inr p, w')"
  shows "grows E w w' \<and> prepared E X w' off pt p"
proof -
  let ?h = "hex_sha256 (pe_sha256 E) pt"
  from c obtain ek where ek: "require_envelope_key (pw_vault w) = Inr ek" "length ek = 32"
    and P: "prims_ok (pr_crypto (pe_prims E))" "rs_ok (pe_rs E)" "keys_ok (va_db (pw_vault w))"
    and rnd: "length (pe_key E k) = 32" "length (pe_nonce E k) = 12" by (auto simp: can_pack_def)
  from run obtain n where n: "to_i64 (length pt) ''chunk size'' = Inr n"
    and rest: "(case find_pack_by_plaintext_hash (pf_core w) ?h Ec2_1 of
        Some existing \<Rightarrow> liftW (map_err PF_Packer (reuse_pack E Ec2_1 ?h off n existing)) w
      | None \<Rightarrow> new_pack E i Ec2_1 k ?h off n pt w) = (Inr p, w')"
    by (auto simp: prepare_pack_def stepW Let_def)
  have nn: "n = int (length pt)" using n by (auto simp: to_i64_def split: if_splits)
  show ?thesis
  proof (cases "find_pack_by_plaintext_hash (pf_core w) ?h Ec2_1")
    case None
    with rest have run': "new_pack E i Ec2_1 k ?h off n pt w = (Inr p, w')" by simp
    from new_pack_result [OF P(1,2) ek P(3) rnd X(2) run'] X(1) show ?thesis by (simp add: prepared_def nn)
  next
    case (Some row)
    with rest have u: "reuse_pack E Ec2_1 ?h off n row = Inr p" and w': "w' = w" by (auto simp: stepW)
    from found_pack [OF Some] u have "shared_pack_of E (pf_core w) pt p"
      by (auto simp: shared_pack_of_def reuse_pack_def vec_to_array_def result_elims split: if_splits)
    moreover from u have "pp_plaintext_hash p = ?h \<and> pp_storage_mode p = Ec2_1 \<and> pp_file_offset p = off \<and> pp_plain_size p = n"
      by (auto simp: reuse_pack_def result_elims)
    ultimately show ?thesis using X(1) by (simp add: prepared_def w' nn grows_refl)
  qed
qed

text \<open>The chunks of a file in order, each with its offset and its prepared pack.\<close>

fun laid_out :: "packer \<Rightarrow> bytes set \<Rightarrow> pack_world \<Rightarrow> nat \<Rightarrow> bytes \<Rightarrow> PreparedPack list \<Rightarrow> bool" where
  "laid_out E X w off content [] \<longleftrightarrow> content = []"
| "laid_out E X w off content (p # ps) \<longleftrightarrow> (let n = nat (pp_plain_size p) in 0 < n \<and> n \<le> length content \<and>
     prepared E X w (int off) (take n content) p \<and> laid_out E X w (off + n) (drop n content) ps)"

lemma laid_out_grows: "laid_out E X w off content ps \<Longrightarrow> grows E w w' \<Longrightarrow> laid_out E X w' off content ps"
  by (induction ps arbitrary: off content) (auto simp: Let_def intro: prepared_grows)

lemma prepare_packs_result:
  assumes "can_pack E w" and "0 < pe_chunk_size E" and "hashed E k content \<subseteq> X"
  shows "prepare_packs E i Ec2_1 k (int off) content w = (Inr ps, w') \<Longrightarrow> grows E w w' \<and> laid_out E X w' off content ps"
  using assms(1,3)
proof (induction ps arbitrary: k off content w)
  case Nil
  show ?case
  proof (cases "pe_read_fails E k \<or> fst (read_next_chunk (pe_reads E k) (pe_chunk_size E) content) = []")
    case True
    with Nil.prems assms(2) show ?thesis
      by (subst (asm) prepare_packs.simps) (auto simp: Let_def read_next_chunk_eq grows_refl split: if_splits)
  next
    case False
    with Nil.prems show ?thesis
      by (subst (asm) prepare_packs.simps) (auto simp: Let_def split: prod.splits sum.splits)
  qed
next
  case (Cons p ps)
  let ?c = "take (pe_chunk_size E) content" and ?rest = "drop (pe_chunk_size E) content"
  from Cons.prems(1) obtain w1 next_off where
    ne: "?c \<noteq> []" and p: "prepare_pack E i Ec2_1 k (int off) ?c w = (Inr p, w1)"
    and off: "checked_add_i64 (int off) (pp_plain_size p) ''file offset'' = Inr next_off"
    and ps: "prepare_packs E i Ec2_1 (Suc k) next_off ?rest w1 = (Inr ps, w')"
    by (subst (asm) prepare_packs.simps) (auto simp: Let_def read_next_chunk_eq split: if_splits prod.splits sum.splits)
  have c: "content \<noteq> []" using ne by auto
  from hashed_step [OF c, of E k] Cons.prems(3) have X: "?c \<in> X" "chunk_shards E k ?c \<subseteq> X" "hashed E (Suc k) ?rest \<subseteq> X" by auto
  note r = prepare_pack_result [OF Cons.prems(2) X(1,2) p]
  then have size: "pp_plain_size p = int (length ?c)" by (simp add: prepared_def)
  have next': "next_off = int (off + length ?c)"
    using off size by (simp add: checked_add_i64_def i64_checked_add_def ok_or_eq_Inr split: if_splits)
  from Cons.IH [OF ps [unfolded next'] can_pack_grows [OF Cons.prems(2)] X(3)] r
  have rec: "grows E w1 w'" "laid_out E X w' (off + length ?c) ?rest ps" by auto
  have "take (length ?c) content = ?c" "drop (length ?c) content = ?rest"
    using ne by (auto simp: min_def)
  then have "laid_out E X w' off content (p # ps)"
    using rec r ne size prepared_grows [OF _ rec(1)] by (simp add: Let_def del: length_take) auto
  then show ?case using grows_trans [OF _ rec(1)] r by blast
qed

section \<open>Recording packs\<close>

lemma set_core_twice [simp]: "set_core a (set_core b w) = set_core a w" "set_core (pf_core w) w = w"
  by (simp_all add: set_core_def with_adb_def)

definition shard_of :: "string \<Rightarrow> PreparedShard \<Rightarrow> PackShardRecord \<Rightarrow> bool" where
  "shard_of pack_id q r \<longleftrightarrow> sh_pack_id r = pack_id \<and> sh_shard_index r = ps_shard_index q \<and>
     sh_provider r = ps_provider q \<and> sh_object_key r = ps_object_key q \<and> sh_checksum r = ps_checksum q"

lemma record_shards_result:
  assumes "record_shards pid shs w = (Inr (), w')" and "distinct (map ps_shard_index shs)"
    and "\<forall>q \<in> set shs. \<not> list_ex (is_shard pid (ps_shard_index q)) (pack_shards (pf_core w))"
  shows "\<exists>rows n. w' = set_core ((pf_core w)\<lparr>pack_shards := pack_shards (pf_core w) @ rows, pack_shards_seq := n\<rparr>) w \<and>
    list_all2 (shard_of pid) shs rows"
  using assms
proof (induction shs arbitrary: w)
  case Nil
  then have "w' = set_core ((pf_core w)\<lparr>pack_shards := pack_shards (pf_core w) @ [],
      pack_shards_seq := pack_shards_seq (pf_core w)\<rparr>) w" by simp
  then show ?case by blast
next
  case (Cons q shs)
  let ?s = "pf_core w"
  from Cons.prems(1) obtain s1 where
    reg: "register_pack_shard ?s pid (ps_shard_index q) (ps_shard_role q) (ps_provider q) (ps_object_key q) (ps_size q)
       (ps_checksum q) ''PENDING'' = Inr s1"
    and rest: "record_shards pid shs (set_core s1 w) = (Inr (), w')"
    by (auto simp: stepW core_step_def result_elims split: sum.splits)
  from Cons.prems(3) have "\<not> list_ex (is_shard pid (ps_shard_index q)) (pack_shards ?s)" by simp
  with reg obtain r where s1: "s1 = ?s\<lparr>pack_shards := pack_shards ?s @ [r], pack_shards_seq := pack_shards_seq ?s + 1\<rparr>"
    and r: "shard_of pid q r"
    by (auto simp: register_pack_shard_def shard_of_def split: if_splits)
  have "\<forall>q' \<in> set shs. \<not> list_ex (is_shard pid (ps_shard_index q')) (pack_shards (pf_core (set_core s1 w)))"
    using Cons.prems(2,3) r by (auto simp: s1 list_ex_iff is_shard_def shard_of_def)
  from Cons.IH [OF rest _ this] Cons.prems(2) obtain rows n where
    w': "w' = set_core (s1\<lparr>pack_shards := pack_shards s1 @ rows, pack_shards_seq := n\<rparr>) w"
    and rows: "list_all2 (shard_of pid) shs rows" by auto
  have "w' = set_core (?s\<lparr>pack_shards := pack_shards ?s @ (r # rows), pack_shards_seq := n\<rparr>) w"
    by (simp add: w' s1)
  moreover have "list_all2 (shard_of pid) (q # shs) (r # rows)" using r rows by simp
  ultimately show ?case by blast
qed

definition pack_row :: "PreparedPack \<Rightarrow> PackRecord" where
  "pack_row p = \<lparr>pk_pack_id = pp_pack_id p, pk_chunk_id = pp_chunk_id p, pk_plaintext_hash = Some (pp_plaintext_hash p),
     pk_storage_mode = StorageMode_as_str (pp_storage_mode p), pk_encryption_version = 2,
     pk_ec_scheme = storage_mode_scheme (pp_storage_mode p), pk_logical_size = pp_plain_size p,
     pk_cipher_size = pp_cipher_size p, pk_shard_size = pp_shard_size p, pk_nonce = pp_nonce p, pk_gcm_tag = pp_gcm_tag p,
     pk_status = PackStatus_as_str (if pp_storage_mode p = LocalOnly then Healthy else Uploading),
     pk_repair_attempts = Some 0, pk_repair_next_attempt_at = None\<rparr>"

definition ref_of :: "int \<Rightarrow> PreparedPack \<Rightarrow> ChunkRefRecord \<Rightarrow> bool" where
  "ref_of rv p r \<longleftrightarrow> cref_revision_id r = rv \<and> cref_chunk_id r = pp_chunk_id p \<and> cref_file_offset r = pp_file_offset p \<and>
     cref_size r = pp_plain_size p"

definition located_at :: "db \<Rightarrow> bytes \<Rightarrow> string \<Rightarrow> int \<Rightarrow> bool" where
  "located_at s cid pid n \<longleftrightarrow> (\<exists>l \<in> set (pack_locations s). pl_chunk_id l = cid \<and> pl_pack_id l = pid \<and>
     pl_pack_offset l = 0 \<and> pl_encrypted_size l = n)"

text \<open>What one recorded pack adds.\<close>

definition adds_pack :: "PreparedPack \<Rightarrow> pack_world \<Rightarrow> pack_world \<Rightarrow> bool" where
  "adds_pack p w w' \<longleftrightarrow>
     (if pp_is_deduplicated p
      then packs (pf_core w') = packs (pf_core w) \<and> pack_shards (pf_core w') = pack_shards (pf_core w) \<and>
           pack_deks (va_db (pw_vault w')) = pack_deks (va_db (pw_vault w))
      else packs (pf_core w') = packs (pf_core w) @ [pack_row p] \<and>
           (\<exists>rows. pack_shards (pf_core w') = pack_shards (pf_core w) @ rows \<and>
              list_all2 (shard_of (pp_pack_id p)) (pp_shards p) rows) \<and>
           pack_deks (va_db (pw_vault w')) = pack_deks (va_db (pw_vault w)) @ [(pp_pack_id p, the (pp_dek_id p))])"

definition recorded1 :: "int \<Rightarrow> PreparedPack \<Rightarrow> pack_world \<Rightarrow> pack_world \<Rightarrow> bool" where
  "recorded1 rv p w w' \<longleftrightarrow>
     file_revisions (pf_core w') = file_revisions (pf_core w) \<and> inodes (pf_core w') = inodes (pf_core w) \<and>
     va_keys (pw_vault w') = va_keys (pw_vault w) \<and>
     data_encryption_keys (va_db (pw_vault w')) = data_encryption_keys (va_db (pw_vault w)) \<and>
     (\<exists>r. chunk_refs (pf_core w') = chunk_refs (pf_core w) @ [r] \<and> ref_of rv p r) \<and>
     pack_locations (pf_core w') =
       pack_locations (link_chunk_to_pack (pf_core w) (pp_chunk_id p) (pp_pack_id p) 0 (pp_manifest_size p)) \<and>
     adds_pack p w w'"

definition fresh_pack :: "pack_world \<Rightarrow> PreparedPack \<Rightarrow> bool" where
  "fresh_pack w p \<longleftrightarrow> pp_is_deduplicated p \<or>
     pp_pack_id p \<notin> set (map pk_pack_id (packs (pf_core w))) \<and> pp_pack_id p \<notin> set (map fst (pack_deks (va_db (pw_vault w)))) \<and>
     pp_dek_id p \<noteq> None \<and> pp_storage_mode p \<noteq> LocalOnly \<and> distinct (map ps_shard_index (pp_shards p)) \<and>
     distinct (map ps_provider (pp_shards p))"

lemma link_other_tables [simp]:
  "packs (link_chunk_to_pack s c p o' n) = packs s" "pack_shards (link_chunk_to_pack s c p o' n) = pack_shards s"
  "chunk_refs (link_chunk_to_pack s c p o' n) = chunk_refs s" "file_revisions (link_chunk_to_pack s c p o' n) = file_revisions s"
  "inodes (link_chunk_to_pack s c p o' n) = inodes s"
  by (simp_all add: link_chunk_to_pack_def)

lemma queue_other_tables [simp]:
  "packs (queue_pack_for_upload s p) = packs s" "pack_shards (queue_pack_for_upload s p) = pack_shards s"
  "chunk_refs (queue_pack_for_upload s p) = chunk_refs s" "file_revisions (queue_pack_for_upload s p) = file_revisions s"
  "inodes (queue_pack_for_upload s p) = inodes s" "pack_locations (queue_pack_for_upload s p) = pack_locations s"
  by (simp_all add: queue_pack_for_upload_def)

lemma link_locations_cong:
  "pack_locations s = pack_locations s' \<Longrightarrow>
     pack_locations (link_chunk_to_pack s c p o' n) = pack_locations (link_chunk_to_pack s' c p o' n)"
  by (simp add: link_chunk_to_pack_def)

lemma record_pack_result:
  assumes ok: "schema_ok (pf_core w)" and fresh: "fresh_pack w p" and run: "record_pack rv p w = (Inr (), w')"
  shows "recorded1 rv p w w'"
proof -
  let ?s = "pf_core w"
  obtain cid s1 where reg: "register_chunk ?s rv (pp_chunk_id p) (pp_file_offset p) (pp_plain_size p) = Inr (cid, s1)"
    using run by (auto simp: record_pack_def stepW core_step_def split: sum.splits)
  then obtain r where s1: "s1 = ?s\<lparr>chunk_refs := chunk_refs ?s @ [r], chunk_refs_seq := chunk_refs_seq ?s + 1\<rparr>"
    and r: "ref_of rv p r" by (auto simp: register_chunk_def ref_of_def split: if_splits)
  define s2 where "s2 = link_chunk_to_pack s1 (pp_chunk_id p) (pp_pack_id p) 0 (pp_manifest_size p)"
  have loc2: "pack_locations s2 = pack_locations (link_chunk_to_pack ?s (pp_chunk_id p) (pp_pack_id p) 0 (pp_manifest_size p))"
    unfolding s2_def by (rule link_locations_cong) (simp add: s1)
  show ?thesis
  proof (cases "pp_is_deduplicated p")
    case True
    with run reg have w': "w' = set_core s2 w"
      by (auto simp: record_pack_def stepW core_step_def core_modify_def s2_def split: sum.splits)
    have same: "packs s2 = packs ?s" "pack_shards s2 = pack_shards ?s" "chunk_refs s2 = chunk_refs ?s @ [r]"
      "file_revisions s2 = file_revisions ?s" "inodes s2 = inodes ?s" by (simp_all add: s2_def s1)
    show ?thesis using loc2 r True same by (simp add: recorded1_def adds_pack_def w')
  next
    case False
    with fresh obtain d where d: "pp_dek_id p = Some d" and new: "pp_pack_id p \<notin> pk_pack_id ` set (packs ?s)"
      "pp_pack_id p \<notin> fst ` set (pack_deks (va_db (pw_vault w)))" "pp_storage_mode p \<noteq> LocalOnly"
      "distinct (map ps_shard_index (pp_shards p))" by (auto simp: fresh_pack_def)
    define s3 where "s3 = s2\<lparr>packs := packs ?s @ [pack_row p]\<rparr>"
    have s3: "create_pack s2 (pp_pack_id p) (pp_chunk_id p) (pp_plaintext_hash p) (pp_storage_mode p) 2
        (storage_mode_scheme (pp_storage_mode p)) (pp_plain_size p) (pp_cipher_size p) (pp_shard_size p) (pp_nonce p)
        (pp_gcm_tag p) Uploading = s3"
      using new(1,3) by (simp add: create_pack_def s3_def s2_def s1 pack_row_def)
    define w3 where "w3 = with_adb (\<lambda>a. set_pack_dek a (pp_pack_id p) d) (set_core s3 w)"
    have core3: "pf_core w3 = s3" by (simp add: w3_def with_adb_def set_core_def)
    from run reg False d new(3) obtain w4 where rs: "record_shards (pp_pack_id p) (pp_shards p) w3 = (Inr (), w4)"
      and w': "w' = set_core (queue_pack_for_upload (pf_core w4) (pp_pack_id p)) w4"
      by (auto simp: record_pack_def stepW core_step_def core_modify_def w3_def s2_def [symmetric] s3 split: sum.splits)
    have "list_all (\<lambda>r. sh_pack_id r \<in> set (map pk_pack_id (packs ?s))) (pack_shards ?s)" using ok by (simp add: schema_ok_def)
    then have "\<forall>q \<in> set (pp_shards p). \<not> list_ex (is_shard (pp_pack_id p) (ps_shard_index q)) (pack_shards s3)"
      using new(1) by (auto simp: s3_def s2_def s1 list_ex_iff is_shard_def list_all_iff) (metis imageI)
    with record_shards_result [OF rs new(4)] obtain rows n where
      w4: "w4 = set_core (s3\<lparr>pack_shards := pack_shards s3 @ rows, pack_shards_seq := n\<rparr>) w3"
      and rows: "list_all2 (shard_of (pp_pack_id p)) (pp_shards p) rows" by (auto simp: core3)
    have core': "packs (pf_core w') = packs ?s @ [pack_row p]" "pack_shards (pf_core w') = pack_shards ?s @ rows"
      "chunk_refs (pf_core w') = chunk_refs ?s @ [r]" "file_revisions (pf_core w') = file_revisions ?s"
      "inodes (pf_core w') = inodes ?s" "pack_locations (pf_core w') = pack_locations s2"
      by (simp_all add: w' w4 s3_def s2_def s1)
    have vault': "va_keys (pw_vault w') = va_keys (pw_vault w)"
      "data_encryption_keys (va_db (pw_vault w')) = data_encryption_keys (va_db (pw_vault w))"
      "pack_deks (va_db (pw_vault w')) = pack_deks (va_db (pw_vault w)) @ [(pp_pack_id p, d)]"
      using new(2) by (simp_all add: w' w4 w3_def with_adb_def set_core_def set_pack_dek_def)
    show ?thesis using core' vault' loc2 r rows False d by (simp add: recorded1_def adds_pack_def)
  qed
qed

end
