(* ===== verification/PackRecord.thy ===== *)
theory PackRecord
  imports PackRestore
begin

text \<open>
  The rows that \<open>pack_file\<close> writes: all recorded packs, what each of them holds, and the chunk list of the new revision,
  which tiles the content of the file when its chunks are loaded from their packs.
\<close>

section \<open>Recording all packs\<close>

abbreviation new_ones :: "PreparedPack list \<Rightarrow> PreparedPack list" where
  "new_ones ps \<equiv> filter (\<lambda>p. \<not> pp_is_deduplicated p) ps"

text \<open>The ids are hashes: a new pack has an id of its own, and chunks with one id are in one pack.\<close>

definition one_place :: "PreparedPack list \<Rightarrow> bool" where
  "one_place ps \<longleftrightarrow> (\<forall>p \<in> set ps. \<forall>q \<in> set ps. pp_chunk_id p = pp_chunk_id q \<longrightarrow> pp_pack_id p = pp_pack_id q)"

lemma one_place_tail: "one_place (p # ps) \<Longrightarrow> one_place ps"
  unfolding one_place_def by (metis list.set_intros(2))

definition clash_free :: "pack_world \<Rightarrow> PreparedPack list \<Rightarrow> bool" where
  "clash_free w ps \<longleftrightarrow> distinct (map pp_pack_id (new_ones ps)) \<and>
     (\<forall>p \<in> set (new_ones ps). pp_pack_id p \<notin> set (map pk_pack_id (packs (pf_core w))) \<and>
        pp_pack_id p \<notin> set (map fst (pack_deks (va_db (pw_vault w))))) \<and>
     one_place ps"

definition recordable :: "PreparedPack \<Rightarrow> bool" where
  "recordable p \<longleftrightarrow> pp_dek_id p \<noteq> None \<and> pp_storage_mode p \<noteq> LocalOnly \<and> distinct (map ps_shard_index (pp_shards p)) \<and>
     distinct (map ps_provider (pp_shards p))"

definition recorded :: "int \<Rightarrow> PreparedPack list \<Rightarrow> pack_world \<Rightarrow> pack_world \<Rightarrow> bool" where
  "recorded rv ps w w' \<longleftrightarrow>
     file_revisions (pf_core w') = file_revisions (pf_core w) \<and> va_keys (pw_vault w') = va_keys (pw_vault w) \<and>
     data_encryption_keys (va_db (pw_vault w')) = data_encryption_keys (va_db (pw_vault w)) \<and>
     (\<exists>rs. chunk_refs (pf_core w') = chunk_refs (pf_core w) @ rs \<and> list_all2 (ref_of rv) ps rs) \<and>
     packs (pf_core w') = packs (pf_core w) @ map pack_row (new_ones ps) \<and>
     (\<exists>rows. pack_shards (pf_core w') = pack_shards (pf_core w) @ concat rows \<and>
        list_all2 (\<lambda>p. list_all2 (shard_of (pp_pack_id p)) (pp_shards p)) (new_ones ps) rows) \<and>
     pack_deks (va_db (pw_vault w')) =
       pack_deks (va_db (pw_vault w)) @ map (\<lambda>p. (pp_pack_id p, the (pp_dek_id p))) (new_ones ps)"

text \<open>A location stays unless its chunk is linked elsewhere.\<close>

definition links_to :: "PreparedPack list \<Rightarrow> bytes \<Rightarrow> string \<Rightarrow> int \<Rightarrow> bool" where
  "links_to ps c i n \<longleftrightarrow> (\<forall>p \<in> set ps. pp_chunk_id p = c \<longrightarrow> pp_pack_id p = i \<and> pp_manifest_size p = n)"

lemma located_at_link: "located_at (link_chunk_to_pack s c i 0 n) c i n"
proof (cases "c \<in> set (map pl_chunk_id (pack_locations s))")
  case True
  then obtain l where "l \<in> set (pack_locations s)" "pl_chunk_id l = c" by auto
  then have "l\<lparr>pl_pack_id := i, pl_pack_offset := 0, pl_encrypted_size := n\<rparr>
      \<in> set (pack_locations (link_chunk_to_pack s c i 0 n))"
    by (auto simp: link_chunk_to_pack_def update_where_def image_iff intro!: bexI [of _ l])
  then show ?thesis unfolding located_at_def by (rule bexI [rotated]) (simp add: \<open>pl_chunk_id l = c\<close>)
qed (simp add: located_at_def link_chunk_to_pack_def)

lemma located_at_link_other:
  assumes "located_at s c i n" and "c' = c \<Longrightarrow> i' = i \<and> n' = n"
  shows "located_at (link_chunk_to_pack s c' i' 0 n') c i n"
proof (cases "c' = c")
  case True
  with assms show ?thesis by (simp add: located_at_link)
next
  case False
  with assms(1) show ?thesis by (auto simp: located_at_def link_chunk_to_pack_def update_where_def image_iff)
qed

lemma located_at_cong: "pack_locations s = pack_locations s' \<Longrightarrow> located_at s = located_at s'"
  by (simp add: located_at_def fun_eq_iff)

lemma clash_free_step:
  assumes cf: "clash_free w (p # ps)" and add: "adds_pack p w w1"
  shows "clash_free w1 ps"
proof (cases "pp_is_deduplicated p")
  case True
  with cf add one_place_tail [of p ps] show ?thesis unfolding clash_free_def adds_pack_def by simp
next
  case False
  with add have "set (map pk_pack_id (packs (pf_core w1))) = insert (pp_pack_id p) (set (map pk_pack_id (packs (pf_core w))))"
    "set (map fst (pack_deks (va_db (pw_vault w1)))) = insert (pp_pack_id p) (set (map fst (pack_deks (va_db (pw_vault w)))))"
    unfolding adds_pack_def by (simp_all add: pack_row_def)
  with cf False one_place_tail [of p ps] show ?thesis unfolding clash_free_def by (auto simp: image_iff)
qed

lemma record_packs_result:
  assumes "pack_world_ok w" and "clash_free w ps" and "\<forall>p \<in> set (new_ones ps). recordable p"
    and "record_packs rv ps w = (Inr (), w')"
  shows "recorded rv ps w w' \<and>
    (\<forall>c i n. links_to ps c i n \<longrightarrow> (located_at (pf_core w) c i n \<or> c \<in> set (map pp_chunk_id ps)) \<longrightarrow> located_at (pf_core w') c i n)"
  using assms
proof (induction ps arbitrary: w)
  case Nil
  then show ?case by (simp add: recorded_def) 
next
  case (Cons p ps)
  from Cons.prems(4) obtain w1 where p: "record_pack rv p w = (Inr (), w1)" and ps: "record_packs rv ps w1 = (Inr (), w')"
    by (auto simp: bindW_Inr)
  have fresh: "fresh_pack w p"
    using Cons.prems(2,3) by (auto simp: fresh_pack_def clash_free_def recordable_def)
  have ok: "schema_ok (pf_core w)" using Cons.prems(1) by (simp add: pack_world_ok_def)
  note r1 = record_pack_result [OF ok fresh p]
  have cf: "clash_free w1 ps"
    by (rule clash_free_step [OF Cons.prems(2)]) (use r1 in \<open>simp add: recorded1_def\<close>)
  have rec: "\<forall>p \<in> set (new_ones ps). recordable p" using Cons.prems(3) by simp
  note ih = Cons.IH [OF keepsD [OF keeps_record_pack p Cons.prems(1)] cf rec ps]
  have "recorded rv (p # ps) w w'"
  proof -
    from r1 obtain r where r: "chunk_refs (pf_core w1) = chunk_refs (pf_core w) @ [r]" "ref_of rv p r"
      by (auto simp: recorded1_def)
    from ih obtain rs where rs: "chunk_refs (pf_core w') = chunk_refs (pf_core w1) @ rs" "list_all2 (ref_of rv) ps rs"
      by (auto simp: recorded_def)
    from ih obtain rows where rows: "pack_shards (pf_core w') = pack_shards (pf_core w1) @ concat rows"
      "list_all2 (\<lambda>p. list_all2 (shard_of (pp_pack_id p)) (pp_shards p)) (new_ones ps) rows"
      by (auto simp: recorded_def)
    have refs: "\<exists>rs. chunk_refs (pf_core w') = chunk_refs (pf_core w) @ rs \<and> list_all2 (ref_of rv) (p # ps) rs"
      by (rule exI [of _ "r # rs"]) (simp add: r rs)
    show ?thesis
    proof (cases "pp_is_deduplicated p")
      case True
      with r1 ih refs rows show ?thesis by (auto simp: recorded_def recorded1_def adds_pack_def)
    next
      case False
      with r1 obtain new where new: "pack_shards (pf_core w1) = pack_shards (pf_core w) @ new"
        "list_all2 (shard_of (pp_pack_id p)) (pp_shards p) new" by (auto simp: recorded1_def adds_pack_def)
      have "\<exists>rows. pack_shards (pf_core w') = pack_shards (pf_core w) @ concat rows \<and>
          list_all2 (\<lambda>p. list_all2 (shard_of (pp_pack_id p)) (pp_shards p)) (new_ones (p # ps)) rows"
        by (rule exI [of _ "new # rows"]) (simp add: new rows False)
      with False r1 ih refs show ?thesis by (simp add: recorded_def recorded1_def adds_pack_def)
    qed
  qed
  moreover have "located_at (pf_core w') c i n"
    if l: "links_to (p # ps) c i n" and at: "located_at (pf_core w) c i n \<or> c \<in> set (map pp_chunk_id (p # ps))" for c i n
  proof -
    from l have l': "links_to ps c i n" "pp_chunk_id p = c \<Longrightarrow> pp_pack_id p = i \<and> pp_manifest_size p = n"
      by (simp_all add: links_to_def)
    have loc: "located_at (pf_core w1) = located_at (link_chunk_to_pack (pf_core w) (pp_chunk_id p) (pp_pack_id p) 0 (pp_manifest_size p))"
      using r1 by (intro located_at_cong) (simp add: recorded1_def)
    have "located_at (pf_core w1) c i n" if "located_at (pf_core w) c i n"
      unfolding loc using that l'(2) by (rule located_at_link_other)
    moreover have "located_at (pf_core w1) c i n" if "pp_chunk_id p = c"
      unfolding loc using that l'(2) [OF that] located_at_link by auto
    ultimately have "located_at (pf_core w1) c i n \<or> c \<in> set (map pp_chunk_id ps)" using at by auto
    with ih l'(1) show ?thesis by blast
  qed
  ultimately show ?case by blast
qed

section \<open>The packs hold the chunks\<close>

definition consistent_packs :: "packer \<Rightarrow> bytes set \<Rightarrow> vault \<Rightarrow> bool" where
  "consistent_packs E X st \<longleftrightarrow> (\<forall>row \<in> set (packs (ad_core (va_db st))).
     pk_storage_mode row = StorageMode_as_str Ec2_1 \<and> pk_status row \<noteq> ''UNREADABLE'' \<longrightarrow> (\<exists>pt. pack_holds E X st row pt))"

text \<open>What a chunk and its prepared pack become.\<close>

definition stored_as :: "packer \<Rightarrow> bytes set \<Rightarrow> vault \<Rightarrow> bytes \<Rightarrow> PreparedPack \<Rightarrow> bool" where
  "stored_as E X st pt p \<longleftrightarrow> (\<exists>row \<in> set (packs (ad_core (va_db st))). pk_pack_id row = pp_pack_id p \<and>
     pk_chunk_id row = pp_chunk_id p \<and> pp_manifest_size p = int (96 + length pt) \<and> pack_holds E X st row pt)"

lemma list_all2_concat_member:
  assumes "list_all2 (\<lambda>x. list_all2 (R x) (f x)) xs yss" and "y \<in> set (concat yss)"
  shows "\<exists>x \<in> set xs. \<exists>z \<in> set (f x). R x z y"
  using assms
proof (induction xs yss rule: list_all2_induct)
  case (Cons x xs ys yss)
  show ?case
  proof (cases "y \<in> set ys")
    case True
    then obtain j where "j < length ys" "y = ys ! j" by (auto simp: in_set_conv_nth)
    with Cons.hyps(1) have "R x (f x ! j) y" "f x ! j \<in> set (f x)" by (auto simp: list_all2_conv_all_nth)
    then show ?thesis by auto
  qed (use Cons in auto)
qed simp

lemma pack_holds_mono:
  assumes h: "pack_holds E X st row pt"
    and dek: "\<And>d. get_pack_dek_id (va_db st) (pk_pack_id row) = Some d \<Longrightarrow> get_pack_dek_id (va_db st') (pk_pack_id row) = Some d"
    and bound: "\<And>d k. dek_bound (pe_prims E) st d k \<Longrightarrow> dek_bound (pe_prims E) st' d k"
    and shards: "\<And>sh. sh \<in> set (pack_shards (ad_core (va_db st'))) \<Longrightarrow> sh_pack_id sh = pk_pack_id row \<Longrightarrow>
      sh \<in> set (pack_shards (ad_core (va_db st)))"
  shows "pack_holds E X st' row pt"
  using h dek bound shards unfolding pack_holds_def holds_with_def by meson

lemma prepared_shard_facts:
  assumes "list_all2 (\<lambda>ib q. prepare_shard sha pid Ec2_1 ib = Inr q) (List.enumerate 0 enc) shs"
  shows "map ps_shard_index shs = map int [0..<length enc]" and "map ps_provider shs = map ((!) SHARD_PROVIDERS) [0..<length enc]"
    and "z \<in> set shs \<Longrightarrow> \<exists>j < length enc. ps_shard_index z = int j \<and> ps_checksum z = hex_sha256 sha (enc ! j)"
proof -
  have len: "length shs = length enc" using list_all2_lengthD [OF assms] by simp
  have at: "ps_shard_index (shs ! j) = int j \<and> ps_provider (shs ! j) = SHARD_PROVIDERS ! j \<and>
      ps_checksum (shs ! j) = hex_sha256 sha (enc ! j)" if "j < length enc" for j
  proof -
    have "prepare_shard sha pid Ec2_1 (j, enc ! j) = Inr (shs ! j)"
      using list_all2_nthD [OF assms, of j] that by (simp add: nth_enumerate_eq)
    then show ?thesis by (auto simp: prepare_shard_def result_elims eq_commute [of _ "shs ! j"])
  qed
  show "map ps_shard_index shs = map int [0..<length enc]" "map ps_provider shs = map ((!) SHARD_PROVIDERS) [0..<length enc]"
    by (rule nth_equalityI; simp add: len at)+
  show "\<exists>j < length enc. ps_shard_index z = int j \<and> ps_checksum z = hex_sha256 sha (enc ! j)" if "z \<in> set shs"
    using that at len by (auto simp: in_set_conv_nth)
qed

lemma prepared_recordable:
  assumes R: "rs_ok (pe_rs E)" and pr: "prepared E X w off pt p" and new: "\<not> pp_is_deduplicated p"
  shows "recordable p"
proof -
  from pr new obtain enc c d where enc: "split_ciphertext_into_shards (pe_rs E) c = Inr enc" and d: "pp_dek_id p = Some d"
    and shl: "list_all2 (\<lambda>ib q. prepare_shard (pe_sha256 E) (pp_pack_id p) Ec2_1 ib = Inr q) (List.enumerate 0 enc) (pp_shards p)"
    and m: "pp_storage_mode p = Ec2_1" by (auto simp: prepared_def new_pack_of_def shared_pack_of_def)
  from split_ciphertext_ok [OF R, of c] enc have len3: "length enc = 3" by auto
  have "distinct (map ps_shard_index (pp_shards p))" "distinct (map ps_provider (pp_shards p))"
    unfolding prepared_shard_facts(1,2) [OF shl] len3 by (simp_all add: numeral_3_eq_3 SHARD_PROVIDERS_def)
  with d m show ?thesis by (simp add: recordable_def)
qed

lemma get_pack_dek_id_app:
  "get_pack_dek_id a i = Some d \<Longrightarrow> pack_deks a' = pack_deks a @ xs \<Longrightarrow> get_pack_dek_id a' i = Some d"
  by (auto simp: get_pack_dek_id_def fetch_optional_Some)

lemma get_pack_dek_id_new:
  assumes "pack_deks a' = pack_deks a @ map (\<lambda>p. (pp_pack_id p, f p)) qs" and "p \<in> set qs"
    and "distinct (map pp_pack_id qs)" and "pp_pack_id p \<notin> set (map fst (pack_deks a))"
  shows "get_pack_dek_id a' (pp_pack_id p) = Some (f p)"
proof -
  have "filter (\<lambda>x. fst x = pp_pack_id p) (map (\<lambda>p. (pp_pack_id p, f p)) qs) = [(pp_pack_id p, f p)]"
    using filter_key_singleton [of fst "map (\<lambda>p. (pp_pack_id p, f p)) qs" "(pp_pack_id p, f p)"] assms(2,3)
    by (simp add: comp_def)
  moreover have "filter (\<lambda>x. fst x = pp_pack_id p) (pack_deks a) = []"
    using assms(4) by (force simp: filter_empty_conv)
  ultimately show ?thesis by (simp add: get_pack_dek_id_def assms(1))
qed

lemma recorded_shards:
  assumes rec: "recorded rv ps w w'" and ok: "schema_ok (pf_core w)" and cf: "clash_free w ps"
    and sh: "sh \<in> set (pack_shards (pf_core w'))"
  shows "sh_pack_id sh \<in> set (map pk_pack_id (packs (pf_core w))) \<Longrightarrow> sh \<in> set (pack_shards (pf_core w))"
    and "p \<in> set (new_ones ps) \<Longrightarrow> sh_pack_id sh = pp_pack_id p \<Longrightarrow> \<exists>z \<in> set (pp_shards p). shard_of (pp_pack_id p) z sh"
proof -
  from rec obtain rows where rows: "pack_shards (pf_core w') = pack_shards (pf_core w) @ concat rows"
    "list_all2 (\<lambda>p. list_all2 (shard_of (pp_pack_id p)) (pp_shards p)) (new_ones ps) rows" by (auto simp: recorded_def)
  have new: "\<exists>q \<in> set (new_ones ps). \<exists>z \<in> set (pp_shards q). shard_of (pp_pack_id q) z sh" if "sh \<in> set (concat rows)"
    using list_all2_concat_member [OF rows(2) that] .
  have old: "sh_pack_id sh \<in> set (map pk_pack_id (packs (pf_core w)))" if "sh \<in> set (pack_shards (pf_core w))"
    using ok that by (auto simp: schema_ok_def list_all_iff)
  have fresh: "pp_pack_id q \<notin> set (map pk_pack_id (packs (pf_core w)))" if "q \<in> set (new_ones ps)" for q
    using cf that by (simp add: clash_free_def)
  show "sh \<in> set (pack_shards (pf_core w))" if "sh_pack_id sh \<in> set (map pk_pack_id (packs (pf_core w)))"
  proof (rule ccontr)
    assume "sh \<notin> set (pack_shards (pf_core w))"
    with sh rows(1) new obtain q z where "q \<in> set (new_ones ps)" "shard_of (pp_pack_id q) z sh" by auto
    with fresh [of q] that show False by (simp add: shard_of_def)
  qed
  show "\<exists>z \<in> set (pp_shards p). shard_of (pp_pack_id p) z sh" if p: "p \<in> set (new_ones ps)" "sh_pack_id sh = pp_pack_id p"
  proof -
    have "sh \<notin> set (pack_shards (pf_core w))" using old fresh [OF p(1)] p(2) by auto
    with sh rows(1) new obtain q z where q: "q \<in> set (new_ones ps)" "z \<in> set (pp_shards q)" "shard_of (pp_pack_id q) z sh" by auto
    then have "pp_pack_id q = pp_pack_id p" using p(2) by (simp add: shard_of_def)
    with q(1) p(1) cf have "q = p" unfolding clash_free_def distinct_map by (blast dest: inj_onD)
    with q show ?thesis by blast
  qed
qed

lemma recorded_dek_bound: "recorded rv ps w w' \<Longrightarrow> dek_bound P (pw_vault w') d k = dek_bound P (pw_vault w) d k"
  by (rule dek_bound_keys) (simp_all add: recorded_def)

lemma new_pack_holds:
  assumes R: "rs_ok (pe_rs E)" and rec: "recorded rv ps w w'" and ok: "schema_ok (pf_core w)" and cf: "clash_free w ps"
    and p: "p \<in> set (new_ones ps)" and pr: "prepared E X w off pt p"
  shows "pack_holds E X (pw_vault w') (pack_row p) pt"
proof -
  from p pr obtain dek e enc d where X: "pt \<in> X" "set enc \<subseteq> X" and len: "length dek = 32" "length (ec_nonce e) = 12"
    and fits: "fits_i64 pt" and e: "encrypt_chunk_v2 (pr_crypto (pe_prims E)) (ec_nonce e) dek pt [] = Inr e"
    and enc: "split_ciphertext_into_shards (pe_rs E) (ec_ciphertext e) = Inr enc"
    and d: "pp_dek_id p = Some d" "dek_bound (pe_prims E) (pw_vault w) d dek"
    and f: "pp_chunk_id p = ec_chunk_id e" "pp_nonce p = ec_nonce e" "pp_gcm_tag p = ec_gcm_tag e"
      "pp_cipher_size p = int (length (ec_ciphertext e))" "pp_shard_size p = int (shard_len_of (ec_ciphertext e))"
      "pp_plaintext_hash p = hex_sha256 (pe_sha256 E) pt" "pp_storage_mode p = Ec2_1" "pp_plain_size p = int (length pt)"
    and shl: "list_all2 (\<lambda>ib q. prepare_shard (pe_sha256 E) (pp_pack_id p) Ec2_1 ib = Inr q) (List.enumerate 0 enc) (pp_shards p)"
    unfolding prepared_def new_pack_of_def shared_pack_of_def by auto
  from split_ciphertext_ok [OF R, of "ec_ciphertext e"] enc have len3: "length enc = 3" by auto
  have key: "get_pack_dek_id (va_db (pw_vault w')) (pp_pack_id p) = Some d"
    using get_pack_dek_id_new [of "va_db (pw_vault w')" "va_db (pw_vault w)" "\<lambda>p. the (pp_dek_id p)" "new_ones ps" p] rec cf p d(1)
    by (simp add: recorded_def clash_free_def)
  have row: "ec_pack_row e pt (pack_row p)" by (simp add: ec_pack_row_def pack_row_def f)
  have shards: "0 \<le> sh_shard_index sh \<and> nat (sh_shard_index sh) < 3 \<and>
      sh_checksum sh = hex_sha256 (pe_sha256 E) (enc ! nat (sh_shard_index sh))"
    if "sh \<in> set (pack_shards (pf_core w'))" "sh_pack_id sh = pp_pack_id p" for sh
  proof -
    from recorded_shards(2) [OF rec ok cf that(1) p that(2)] obtain z where z: "z \<in> set (pp_shards p)" "shard_of (pp_pack_id p) z sh" by blast
    from prepared_shard_facts(3) [OF shl z(1)] z(2) len3 show ?thesis by (auto simp: shard_of_def)
  qed
  have "holds_with E X (pw_vault w') (pack_row p) pt dek e enc"
    unfolding holds_with_def recorded_dek_bound [OF rec]
    using X len fits e row key d(2) enc shards by (simp add: pack_row_def f)
  then show ?thesis unfolding pack_holds_def by blast
qed

lemma old_pack_holds:
  assumes rec: "recorded rv ps w w'" and ok: "schema_ok (pf_core w)" and cf: "clash_free w ps"
    and row: "row \<in> set (packs (pf_core w))" and h: "pack_holds E X (pw_vault w) row pt"
  shows "pack_holds E X (pw_vault w') row pt"
proof (rule pack_holds_mono [OF h])
  show "get_pack_dek_id (va_db (pw_vault w')) (pk_pack_id row) = Some d"
    if "get_pack_dek_id (va_db (pw_vault w)) (pk_pack_id row) = Some d" for d
    using get_pack_dek_id_app [OF that] rec by (auto simp: recorded_def)
  show "sh \<in> set (pack_shards (pf_core w))" if "sh \<in> set (pack_shards (pf_core w'))" "sh_pack_id sh = pk_pack_id row" for sh
    by (rule recorded_shards(1) [OF rec ok cf that(1)]) (use row that(2) in simp)
qed (simp add: recorded_dek_bound [OF rec])

lemma stored_as_prepared:
  assumes P: "prims_ok (pr_crypto (pe_prims E))" and R: "rs_ok (pe_rs E)" and cf: "collision_free (pe_sha256 E) X"
    and rec: "recorded rv ps w w'" and ok: "schema_ok (pf_core w)" and fresh: "clash_free w ps"
    and cons: "consistent_packs E X (pw_vault w)" and p: "p \<in> set ps" and pr: "prepared E X w off pt p"
  shows "stored_as E X (pw_vault w') pt p"
proof (cases "pp_is_deduplicated p")
  case False
  with p have p': "p \<in> set (new_ones ps)" by simp
  have "pack_row p \<in> set (packs (pf_core w'))" using rec p' by (auto simp: recorded_def)
  moreover from False pr have "pp_manifest_size p = int (96 + length pt)"
    by (auto simp: prepared_def new_pack_of_def shared_pack_of_def)
  ultimately show ?thesis
    using new_pack_holds [OF R rec ok fresh p' pr] unfolding stored_as_def
    by (intro bexI [of _ "pack_row p"]) (simp_all add: pack_row_def)
next
  case True
  with pr have pt: "pt \<in> X" and "shared_pack_of E (pf_core w) pt p" by (auto simp: prepared_def new_pack_of_def)
  then obtain row where row: "row \<in> set (packs (pf_core w))" "pk_pack_id row = pp_pack_id p" "pk_chunk_id row = pp_chunk_id p"
    "pk_plaintext_hash row = Some (hex_sha256 (pe_sha256 E) pt)" "pk_storage_mode row = StorageMode_as_str Ec2_1"
    "pk_status row \<noteq> ''UNREADABLE''" "manifest_size_from_pack row = Inr (pp_manifest_size p)"
    by (auto simp: shared_pack_of_def)
  with cons obtain pt' where h: "pack_holds E X (pw_vault w) row pt'" by (auto simp: consistent_packs_def)
  then obtain dek e where e: "length dek = 32" "length (ec_nonce e) = 12" "pt' \<in> X"
    "encrypt_chunk_v2 (pr_crypto (pe_prims E)) (ec_nonce e) dek pt' [] = Inr e" "ec_pack_row e pt' row"
    "pk_plaintext_hash row = Some (hex_sha256 (pe_sha256 E) pt')" by (auto simp: pack_holds_def holds_with_def)
  have same: "pt' = pt" using cf pt e(3,6) row(4) unfolding collision_free_def by (auto dest: inj_onD)
  note ef = encrypt_chunk_v2_facts [OF P e(1,2,4)]
  have "pp_manifest_size p = int (96 + length pt)"
    using row(7) e(5) ef same
    by (auto simp: manifest_size_from_pack_def ec_pack_row_def ChunkRecordPrefix_SIZE_def usize_checked_add_def to_i64_def
        result_elims split: if_splits)
  moreover have "row \<in> set (packs (pf_core w'))" using rec row(1) by (simp add: recorded_def)
  ultimately show ?thesis
    using old_pack_holds [OF rec ok fresh row(1) h] row(2,3) same unfolding stored_as_def by blast
qed

section \<open>The chunks of the new revision\<close>

lemma join_one:
  assumes d: "distinct (map pl_chunk_id (pack_locations s))" and l: "located_at s (cref_chunk_id c) i n"
  shows "join_location s (k, c) = [\<lparr>fcl_chunk_id = cref_chunk_id c, fcl_chunk_index = int k,
    fcl_file_offset = cref_file_offset c, fcl_size = cref_size c, fcl_pack_id = i, fcl_pack_offset = 0, fcl_encrypted_size = n\<rparr>]"
proof -
  from l obtain x where x: "x \<in> set (pack_locations s)" "pl_chunk_id x = cref_chunk_id c" "pl_pack_id x = i"
    "pl_pack_offset x = 0" "pl_encrypted_size x = n" by (auto simp: located_at_def)
  have "filter (\<lambda>l. pl_chunk_id l = cref_chunk_id c) (pack_locations s) = [x]"
    using filter_key_singleton [OF d x(1)] x(2) by simp
  then show ?thesis by (simp add: join_location_def x)
qed

lemma laid_out_tiled:
  assumes "laid_out E X w off content ps" and "list_all2 (ref_of rv) ps rs"
    and "\<forall>p \<in> set ps. located_at s (pp_chunk_id p) (pp_pack_id p) (pp_manifest_size p)"
    and d: "distinct (map pl_chunk_id (pack_locations s))"
    and load: "\<And>pt p o' l. p \<in> set ps \<Longrightarrow> prepared E X w o' pt p \<Longrightarrow> fcl_chunk_id l = pp_chunk_id p \<Longrightarrow>
      fcl_pack_id l = pp_pack_id p \<Longrightarrow> fcl_pack_offset l = 0 \<Longrightarrow> fcl_size l = int (length pt) \<Longrightarrow>
      fcl_encrypted_size l = pp_manifest_size p \<Longrightarrow> load l = Inr pt"
  shows "tiled load off (concat (map (join_location s) (List.enumerate k rs))) content \<and>
    sorted (map cref_file_offset rs) \<and> (\<forall>r \<in> set rs. int off \<le> cref_file_offset r)"
  using assms(1,2,3,5)
proof (induction ps arbitrary: off content rs k)
  case Nil
  then show ?case by simp
next
  case (Cons p ps)
  from Cons.prems(2) obtain r rs' where rs: "rs = r # rs'" "ref_of rv p r" "list_all2 (ref_of rv) ps rs'"
    by (auto simp: list_all2_Cons1)
  define n where "n = nat (pp_plain_size p)"
  from Cons.prems(1) have n: "0 < n" "n \<le> length content" and pr: "prepared E X w (int off) (take n content) p"
    and rest: "laid_out E X w (off + n) (drop n content) ps" by (auto simp: n_def Let_def)
  have "located_at s (cref_chunk_id r) (pp_pack_id p) (pp_manifest_size p)" using Cons.prems(3) rs(2) by (simp add: ref_of_def)
  note one = join_one [OF d this, of k]
  have sz: "cref_size r = int n" "cref_file_offset r = int off" "cref_chunk_id r = pp_chunk_id p"
    using rs(2) pr n(2) by (auto simp: ref_of_def prepared_def)
  have ih: "tiled load (off + n) (concat (map (join_location s) (List.enumerate (Suc k) rs'))) (drop n content) \<and>
      sorted (map cref_file_offset rs') \<and> (\<forall>r \<in> set rs'. int (off + n) \<le> cref_file_offset r)"
    by (rule Cons.IH [OF rest rs(3)]) (use Cons.prems(3,4) in auto)
  have "load \<lparr>fcl_chunk_id = cref_chunk_id r, fcl_chunk_index = int k, fcl_file_offset = cref_file_offset r,
      fcl_size = cref_size r, fcl_pack_id = pp_pack_id p, fcl_pack_offset = 0, fcl_encrypted_size = pp_manifest_size p\<rparr>
      = Inr (take n content)"
    by (rule Cons.prems(4) [OF _ pr]) (use sz n(2) in simp_all)
  with ih n sz show ?case by (auto simp: rs(1) one)
qed

lemma tiled_sorted: "tiled load k ls c \<Longrightarrow> sorted (map fcl_file_offset ls) \<and> (\<forall>l \<in> set ls. int k \<le> fcl_file_offset l)"
proof (induction ls arbitrary: k c)
  case (Cons l ls)
  then have t: "tiled load (k + nat (fcl_size l)) ls (drop (nat (fcl_size l)) c)" "fcl_file_offset l = int k" by simp_all
  have "int k \<le> fcl_file_offset l'" if "l' \<in> set ls" for l'
  proof -
    have "int (k + nat (fcl_size l)) \<le> fcl_file_offset l'" using Cons.IH [OF t(1)] that by blast
    then show ?thesis by linarith
  qed
  with Cons.IH [OF t(1)] t(2) show ?case by auto
qed simp

lemma chunk_locations_in_order:
  assumes "sorted (map cref_file_offset rs)" and "tiled load 0 (concat (map (join_location s) (List.enumerate 0 rs))) content"
  shows "chunk_locations s rs = concat (map (join_location s) (List.enumerate 0 rs))"
  using assms tiled_sorted [OF assms(2)] by (simp add: chunk_locations_def ordered_chunks_def sort_key_id_if_sorted)

section \<open>From the file to its bytes\<close>

lemma core_step_Inr: "core_step f w = (Inr x, w') \<longleftrightarrow> (\<exists>s. f (pf_core w) = Inr (x, s) \<and> w' = set_core s w)"
  by (auto simp: core_step_def split: sum.splits)

lemma commit_result:
  assumes "commit_revision E i ps parent w = (Inr r, w')"
  obtains n rv s where "to_i64 (logical_total ps) ''logical size'' = Inr n"
    "create_file_revision (pf_core w) (pe_now E) i n None (map_option ld_device_id (get_local_device_identity (va_db (pw_vault w))))
       (fst parent) ''local_write'' None = Inr (rv, s)"
    "record_packs rv ps (set_core s w) = (Inr (), w')" "pr_revision_id r = Some rv" "pr_pack_ids r = map pp_pack_id ps"
  using assms by (auto simp: commit_revision_def stepW core_step_Inr)

lemma laid_out_total: "laid_out E X w off content ps \<Longrightarrow> logical_total ps = length content"
proof -
  assume "laid_out E X w off content ps"
  then have "sum_list (map pp_plain_size ps) = int (length content)"
    by (induction ps arbitrary: off content) (fastforce simp: Let_def prepared_def)+
  then show ?thesis by (simp add: logical_total_def)
qed

lemma laid_out_prepared: "laid_out E X w off content ps \<Longrightarrow> p \<in> set ps \<Longrightarrow> \<exists>o' pt. prepared E X w o' pt p"
  by (induction ps arbitrary: off content) (auto simp: Let_def)

lemma prepared_set_core: "packs s = packs (pf_core w) \<Longrightarrow> prepared E X (set_core s w) off pt p = prepared E X w off pt p"
proof -
  assume s: "packs s = packs (pf_core w)"
  have "dek_bound P (pw_vault (set_core s w)) d k = dek_bound P (pw_vault w) d k" for P d k by (rule dek_bound_keys) simp_all
  with s show ?thesis by (simp add: prepared_def new_pack_of_def shared_pack_of_def)
qed

lemma laid_out_set_core: "packs s = packs (pf_core w) \<Longrightarrow> laid_out E X (set_core s w) off content ps = laid_out E X w off content ps"
  by (induction ps arbitrary: off content) (simp_all add: Let_def prepared_set_core)

lemma cleared_revisions:
  "filter (\<lambda>r. fr_inode_id r = i \<and> fr_is_current r = 1)
     (update_where (\<lambda>r. fr_inode_id r = i) (\<lambda>r. r\<lparr>fr_is_current := 0\<rparr>) t) = []"
  by (induction t) simp_all

text \<open>A new revision is the current one, and its chunk references are the new ones.\<close>

lemma new_revision:
  assumes ok: "schema_ok s" and c: "create_file_revision s now i n im dev par org cr = Inr (rv, s1)"
    and fr: "file_revisions s2 = file_revisions s1" and refs: "chunk_refs s2 = chunk_refs s1 @ rs" "list_all2 (ref_of rv) ps rs"
  shows "map_option fr_revision_id (get_current_file_revision s2 i) = Some rv" and "get_file_revision s2 i rv \<noteq> None"
    and "refs_of_revisions s2 (\<lambda>r. fr_inode_id r = i \<and> fr_revision_id r = rv) = rs"
    and "refs_of_revisions s2 (\<lambda>r. fr_inode_id r = i \<and> fr_is_current r = 1) = rs"
proof -
  let ?clear = "update_where (\<lambda>r. fr_inode_id r = i) (\<lambda>r. r\<lparr>fr_is_current := 0\<rparr>) (file_revisions s)"
  from c have rv: "rv = file_revisions_seq s + 1" and cr: "chunk_refs s1 = chunk_refs s"
    by (auto simp: create_file_revision_def Let_def split: if_splits)
  from c obtain new where new: "file_revisions s1 = ?clear @ [new]" "fr_revision_id new = rv" "fr_inode_id new = i" "fr_is_current new = 1"
    by (auto simp: create_file_revision_def Let_def split: if_splits)
  have ids: "map fr_revision_id ?clear = map fr_revision_id (file_revisions s)" by (simp add: update_where_def)
  have old: "fr_revision_id x \<noteq> rv" if "x \<in> set ?clear" for x
  proof -
    from that ids have "fr_revision_id x \<in> set (map fr_revision_id (file_revisions s))" by (metis image_eqI set_map)
    moreover have "list_all (\<lambda>r. fr_revision_id r \<le> file_revisions_seq s) (file_revisions s)"
      using ok unfolding schema_ok_def by blast
    ultimately show ?thesis by (auto simp: rv list_all_iff)
  qed
  have "filter (\<lambda>r. fr_inode_id r = i \<and> fr_is_current r = 1) ?clear = []" by (rule cleared_revisions)
  then show "map_option fr_revision_id (get_current_file_revision s2 i) = Some rv"
    by (simp add: get_current_file_revision_def fr new)
  have "filter (\<lambda>r. fr_inode_id r = i \<and> fr_revision_id r = rv) ?clear = []"
    using old by (auto simp: filter_empty_conv)
  then show "get_file_revision s2 i rv \<noteq> None" by (simp add: get_file_revision_def fr new)
  have none: "filter (\<lambda>c. list_ex (\<lambda>r. fr_revision_id r = cref_revision_id c \<and> fr_inode_id r = i \<and> fr_revision_id r = rv)
      (file_revisions s1)) (chunk_refs s) = []"
  proof -
    have "list_all (\<lambda>r. cref_revision_id r \<in> set (map fr_revision_id (file_revisions s))) (chunk_refs s)"
      "list_all (\<lambda>r. fr_revision_id r \<le> file_revisions_seq s) (file_revisions s)"
      using ok unfolding schema_ok_def by blast+
    then have "cref_revision_id c \<noteq> rv" if "c \<in> set (chunk_refs s)" for c
      using that by (fastforce simp: list_all_iff rv)
    then show ?thesis by (auto simp: filter_empty_conv list_ex_iff)
  qed
  have "cref_revision_id x = rv" if "x \<in> set rs" for x
    using refs(2) that by (auto simp: list_all2_conv_all_nth in_set_conv_nth ref_of_def)
  then have all: "filter (\<lambda>c. list_ex (\<lambda>r. fr_revision_id r = cref_revision_id c \<and> fr_inode_id r = i \<and> fr_revision_id r = rv)
      (file_revisions s1)) rs = rs"
    by (auto simp: filter_id_conv new list_ex_iff)
  from none all show by_id: "refs_of_revisions s2 (\<lambda>r. fr_inode_id r = i \<and> fr_revision_id r = rv) = rs"
    by (simp add: refs_of_revisions_def fr refs(1) cr)
  have "fr_inode_id x = i \<and> fr_is_current x = 1 \<longleftrightarrow> fr_inode_id x = i \<and> fr_revision_id x = rv"
    if "x \<in> set (file_revisions s1)" for x
    using that old cleared_revisions [of i "file_revisions s"] new by (auto simp: filter_empty_conv)
  then have "list_ex (\<lambda>r. fr_revision_id r = c \<and> fr_inode_id r = i \<and> fr_is_current r = 1) (file_revisions s1) =
      list_ex (\<lambda>r. fr_revision_id r = c \<and> fr_inode_id r = i \<and> fr_revision_id r = rv) (file_revisions s1)" for c
    unfolding list_ex_iff by blast
  with by_id show "refs_of_revisions s2 (\<lambda>r. fr_inode_id r = i \<and> fr_is_current r = 1) = rs"
    by (simp add: refs_of_revisions_def fr)
qed

definition no_clash :: "packer \<Rightarrow> int \<Rightarrow> bytes \<Rightarrow> pack_world \<Rightarrow> bool" where
  "no_clash E i content w \<longleftrightarrow>
     (case prepare_packs E i Ec2_1 0 0 content w of (Inl _, _) \<Rightarrow> True | (Inr ps, _) \<Rightarrow> clash_free w ps)"

lemma clash_free_cong:
  "packs (pf_core w') = packs (pf_core w) \<Longrightarrow> pack_deks (va_db (pw_vault w')) = pack_deks (va_db (pw_vault w)) \<Longrightarrow>
     clash_free w ps = clash_free w' ps"
  by (simp add: clash_free_def)

lemma consistent_packs_grows:
  assumes c: "consistent_packs E X (pw_vault w)" and g: "grows E w w1"
    and s: "packs s = packs (pf_core w)" "pack_shards s = pack_shards (pf_core w)"
  shows "consistent_packs E X (pw_vault (set_core s w1))"
proof -
  have "pack_holds E X (pw_vault (set_core s w1)) row pt" if "pack_holds E X (pw_vault w) row pt" for row pt
  proof (rule pack_holds_mono [OF that])
    fix d k assume "dek_bound (pe_prims E) (pw_vault w) d k"
    with g have "dek_bound (pe_prims E) (pw_vault w1) d k" by (simp add: grows_def)
    then show "dek_bound (pe_prims E) (pw_vault (set_core s w1)) d k"
      using dek_bound_keys [of "pw_vault (set_core s w1)" "pw_vault w1"] by simp
  qed (use g s in \<open>simp_all add: grows_def get_pack_dek_id_def\<close>)
  with c s(1) show ?thesis unfolding consistent_packs_def by simp blast
qed

lemma create_file_revision_others:
  "create_file_revision s now i n im dev par org c = Inr (rv, s1) \<Longrightarrow>
     packs s1 = packs s \<and> pack_shards s1 = pack_shards s \<and> pack_locations s1 = pack_locations s"
  by (auto simp: create_file_revision_def Let_def split: if_splits)

lemma pack_file_stages:
  assumes w: "pack_world_ok w" "can_pack E w" "0 < pe_chunk_size E" "get_storage_mode_for_inode (pf_core w) i = Some Ec2_1"
    and packs: "consistent_packs E X (pw_vault w)" "no_clash E i content w" and X: "hashed E 0 content \<subseteq> X"
    and run: "pack_file E i (Some content) w = Some (Inr r, w')"
  obtains ps w1 par dev n rv s1 where
    "pack_world_ok w1" "create_file_revision (pf_core w1) (pe_now E) i n None dev par ''local_write'' None = Inr (rv, s1)"
    "to_i64 (logical_total ps) ''logical size'' = Inr n" "pr_revision_id r = Some rv" "pr_pack_ids r = map pp_pack_id ps"
    "pack_world_ok (set_core s1 w1)" "laid_out E X (set_core s1 w1) 0 content ps" "clash_free (set_core s1 w1) ps"
    "consistent_packs E X (pw_vault (set_core s1 w1))" "record_packs rv ps (set_core s1 w1) = (Inr (), w')"
proof -
  obtain q w1 where q: "prepare_packs E i Ec2_1 0 0 content w = (q, w1)" by force
  with run w(4) obtain ps where ps: "q = Inr ps"
    and run1: "commit_revision E i ps (map_option fr_revision_id (get_current_file_revision (pf_core w1) i), None) w1 = (Inr r, w')"
    by (cases q) (auto simp: pack_file_def pack_file_with_expected_parent_def choose_parent_def Let_def)
  from prepare_packs_result [OF w(2,3) X, of i 0 ps w1] q ps have g: "grows E w w1" and laid: "laid_out E X w1 0 content ps" by auto
  have ok1: "pack_world_ok w1" using keeps_prepare_packs [OF w(1), of E i Ec2_1 0 0 content] q by simp
  from commit_result [OF run1] obtain n rv s1 dev par where n: "to_i64 (logical_total ps) ''logical size'' = Inr n"
    and c: "create_file_revision (pf_core w1) (pe_now E) i n None dev par ''local_write'' None = Inr (rv, s1)"
    and rec: "record_packs rv ps (set_core s1 w1) = (Inr (), w')" "pr_revision_id r = Some rv" "pr_pack_ids r = map pp_pack_id ps"
    by metis
  note others = create_file_revision_others [OF c]
  from g have core: "pf_core w1 = pf_core w" "pack_deks (va_db (pw_vault w1)) = pack_deks (va_db (pw_vault w))" by (simp_all add: grows_def)
  show thesis
  proof (rule that [OF ok1 c n rec(2,3) _ _ _ _ rec(1)])
    show "pack_world_ok (set_core s1 w1)"
      using schema_ok_create_file_revision [OF _ c] ok1 by (simp add: pack_world_ok_def)
    show "laid_out E X (set_core s1 w1) 0 content ps" using laid others by (simp add: laid_out_set_core)
    show "clash_free (set_core s1 w1) ps"
      using packs(2) q ps others core clash_free_cong [of "set_core s1 w1" w ps] by (simp add: no_clash_def)
    show "consistent_packs E X (pw_vault (set_core s1 w1))"
      by (rule consistent_packs_grows [OF packs(1) g]) (use others core in simp_all)
  qed
qed

lemma stored_same_size:
  assumes "schema_ok (ad_core (va_db st))" and "stored_as E X st pt p" and "stored_as E X st pt' q" and "pp_pack_id p = pp_pack_id q"
  shows "pp_manifest_size p = pp_manifest_size q"
proof -
  from assms(2,3) obtain row row' where rows: "row \<in> set (packs (ad_core (va_db st)))" "row' \<in> set (packs (ad_core (va_db st)))"
    "pk_pack_id row = pp_pack_id p" "pk_pack_id row' = pp_pack_id q" "pack_holds E X st row pt" "pack_holds E X st row' pt'"
    "pp_manifest_size p = int (96 + length pt)" "pp_manifest_size q = int (96 + length pt')" by (auto simp: stored_as_def)
  have "get_pack (ad_core (va_db st)) (pp_pack_id p) = Some row" "get_pack (ad_core (va_db st)) (pp_pack_id p) = Some row'"
    using get_pack_row [OF assms(1) rows(1)] get_pack_row [OF assms(1) rows(2)] rows(3,4) assms(4) by auto
  then have "row' = row" by simp
  with rows(5,6) have "length pt = length pt'" by (auto simp: pack_holds_def holds_with_def ec_pack_row_def)
  with rows(7,8) show ?thesis by simp
qed

text \<open>What recording leaves: every chunk stored, and every chunk located in its pack.\<close>

lemma recorded_chunks:
  assumes P: "prims_ok (pr_crypto (pe_prims E))" and R: "rs_ok (pe_rs E)" and hash: "collision_free (pe_sha256 E) X"
    and ok: "pack_world_ok w" and laid: "laid_out E X w 0 content ps" and cf: "clash_free w ps"
    and cons: "consistent_packs E X (pw_vault w)" and recs: "record_packs rv ps w = (Inr (), w')"
  shows "recorded rv ps w w'" and "schema_ok (pf_core w')"
    and "p \<in> set ps \<Longrightarrow> prepared E X w o' pt p \<Longrightarrow> stored_as E X (pw_vault w') pt p"
    and "p \<in> set ps \<Longrightarrow> located_at (pf_core w') (pp_chunk_id p) (pp_pack_id p) (pp_manifest_size p)"
proof -
  note pr = laid_out_prepared [OF laid]
  have "\<forall>p \<in> set (new_ones ps). recordable p" using prepared_recordable [OF R] pr by fastforce
  from record_packs_result [OF ok cf this recs] show rec: "recorded rv ps w w'" by blast
  from record_packs_result [OF ok cf \<open>\<forall>p \<in> set (new_ones ps). recordable p\<close> recs]
  have at: "\<And>c i n. links_to ps c i n \<Longrightarrow> c \<in> set (map pp_chunk_id ps) \<Longrightarrow> located_at (pf_core w') c i n" by blast
  have schema: "schema_ok (pf_core w)" using ok by (simp only: pack_world_ok_def)
  have stored: "stored_as E X (pw_vault w') pt p" if "p \<in> set ps" "prepared E X w o' pt p" for p pt o'
    by (rule stored_as_prepared [OF P R hash rec schema cf cons that])
  show "stored_as E X (pw_vault w') pt p" if "p \<in> set ps" "prepared E X w o' pt p"
    using stored that by blast
  show schema': "schema_ok (pf_core w')" using keepsD [OF keeps_record_packs recs ok] by (simp add: pack_world_ok_def)
  show "located_at (pf_core w') (pp_chunk_id p) (pp_pack_id p) (pp_manifest_size p)" if p: "p \<in> set ps"
  proof (rule at)
    show "links_to ps (pp_chunk_id p) (pp_pack_id p) (pp_manifest_size p)"
      unfolding links_to_def
    proof (intro ballI impI)
      fix q assume q: "q \<in> set ps" "pp_chunk_id q = pp_chunk_id p"
      with p cf have "pp_pack_id q = pp_pack_id p" unfolding clash_free_def one_place_def by blast
      moreover from pr [OF p] pr [OF q(1)] stored p q(1) obtain pt pt' where
        "stored_as E X (pw_vault w') pt p" "stored_as E X (pw_vault w') pt' q" by blast
      ultimately show "pp_pack_id q = pp_pack_id p \<and> pp_manifest_size q = pp_manifest_size p"
        using stored_same_size [OF schema'] by metis
    qed
  qed (use p in simp)
qed

lemma load_stored:
  assumes P: "prims_ok (pr_crypto (pe_prims E))" and R: "rs_ok (pe_rs E)" and hash: "collision_free (pe_sha256 E) X"
    and ok: "schema_ok (ad_core (va_db st))" and g: "genuine (pe_sha256 E) X D (ad_core (va_db st))"
    and r: "reachable D (ad_core (va_db st)) (pp_pack_id p)" and s: "stored_as E X st pt p"
    and l: "fcl_chunk_id l = pp_chunk_id p" "fcl_pack_id l = pp_pack_id p" "fcl_pack_offset l = 0"
      "fcl_size l = int (length pt)" "fcl_encrypted_size l = pp_manifest_size p"
  shows "load_from_pack (pe_prims E) (pe_rs E) D st l = Inr pt"
proof -
  from s obtain row where row: "row \<in> set (packs (ad_core (va_db st)))" "pk_pack_id row = pp_pack_id p"
    "pk_chunk_id row = pp_chunk_id p" "pp_manifest_size p = int (96 + length pt)" "pack_holds E X st row pt"
    by (auto simp: stored_as_def)
  from r row(2) have "reachable D (ad_core (va_db st)) (pk_pack_id row)" by simp
  from load_held_pack [OF P R hash ok row(1) row(5) g this] l row show ?thesis by simp
qed

lemma recorded_tiles:
  assumes P: "prims_ok (pr_crypto (pe_prims E))" and R: "rs_ok (pe_rs E)" and hash: "collision_free (pe_sha256 E) X"
    and ok: "pack_world_ok w" and laid: "laid_out E X w 0 content ps" and cf: "clash_free w ps"
    and cons: "consistent_packs E X (pw_vault w)" and recs: "record_packs rv ps w = (Inr (), w')"
    and cloud: "genuine (pe_sha256 E) X D (pf_core w')" "\<forall>p \<in> set ps. reachable D (pf_core w') (pp_pack_id p)"
    and refs: "list_all2 (ref_of rv) ps rs"
  shows "tiled (load_from_pack (pe_prims E) (pe_rs E) D (pw_vault w')) 0 (chunk_locations (pf_core w') rs) content"
proof -
  note rc = recorded_chunks [OF P R hash ok laid cf cons recs]
  let ?load = "load_from_pack (pe_prims E) (pe_rs E) D (pw_vault w')"
  have "tiled ?load 0 (concat (map (join_location (pf_core w')) (List.enumerate 0 rs))) content \<and>
    sorted (map cref_file_offset rs) \<and> (\<forall>x \<in> set rs. int 0 \<le> cref_file_offset x)"
  proof (rule laid_out_tiled [OF laid refs])
    show "\<forall>p \<in> set ps. located_at (pf_core w') (pp_chunk_id p) (pp_pack_id p) (pp_manifest_size p)" using rc(4) by blast
    show "distinct (map pl_chunk_id (pack_locations (pf_core w')))" using rc(2) by (simp add: schema_ok_def)
  next
    fix pt p o' and l :: FileChunkLocation
    assume p: "p \<in> set ps" and prep: "prepared E X w o' pt p"
      and l: "fcl_chunk_id l = pp_chunk_id p" "fcl_pack_id l = pp_pack_id p" "fcl_pack_offset l = 0"
        "fcl_size l = int (length pt)" "fcl_encrypted_size l = pp_manifest_size p"
    show "?load l = Inr pt"
      by (rule load_stored [OF P R hash rc(2) cloud(1) _ rc(3) [OF p prep] l]) (use cloud(2) p in blast)
  qed
  then show ?thesis using chunk_locations_in_order [of rs ?load "pf_core w'" content] by simp
qed

end
