(* ===== verification/FileRoundTrip.thy ===== *)
theory FileRoundTrip
  imports PackRecord
begin

text \<open>
  A file that is packed can be read back, and packing it succeeds: the conditions under which every step of
  \<open>pack_file\<close> goes through, and the properties of the whole path.
\<close>

section \<open>Recording succeeds\<close>

lemma record_shards_succeeds:
  assumes "pid \<in> set (map pk_pack_id (packs (pf_core w)))"
    and "distinct (map ps_shard_index shs)" and "distinct (map ps_provider shs)"
    and "\<forall>r \<in> set (pack_shards (pf_core w)). sh_pack_id r = pid \<longrightarrow>
      sh_shard_index r \<notin> set (map ps_shard_index shs) \<and> sh_provider r \<notin> set (map ps_provider shs)"
  shows "\<exists>w'. record_shards pid shs w = (Inr (), w')"
  using assms
proof (induction shs arbitrary: w)
  case (Cons q shs)
  let ?s = "pf_core w"
  have no: "\<not> list_ex (\<lambda>r. sh_pack_id r = pid \<and> sh_provider r = ps_provider q \<and> sh_shard_index r \<noteq> ps_shard_index q) (pack_shards ?s)"
    "\<not> list_ex (is_shard pid (ps_shard_index q)) (pack_shards ?s)"
    using Cons.prems(4) by (auto simp: list_ex_iff is_shard_def)
  then obtain r n where reg: "register_pack_shard ?s pid (ps_shard_index q) (ps_shard_role q) (ps_provider q) (ps_object_key q)
      (ps_size q) (ps_checksum q) ''PENDING'' = Inr (?s\<lparr>pack_shards := pack_shards ?s @ [r], pack_shards_seq := n\<rparr>)"
    and r: "sh_pack_id r = pid" "sh_shard_index r = ps_shard_index q" "sh_provider r = ps_provider q"
    using Cons.prems(1) by (auto simp: register_pack_shard_def)
  let ?w = "set_core (?s\<lparr>pack_shards := pack_shards ?s @ [r], pack_shards_seq := n\<rparr>) w"
  have "\<exists>w'. record_shards pid shs ?w = (Inr (), w')"
    by (rule Cons.IH) (use Cons.prems r in auto)
  then show ?case by (auto simp: bindW_Inr core_step_Inr reg)
qed simp

lemma record_pack_succeeds:
  assumes ok: "schema_ok (pf_core w)" and fresh: "fresh_pack w p" and rv: "rv \<in> set (revision_ids (pf_core w))"
  shows "\<exists>w'. record_pack rv p w = (Inr (), w')"
proof -
  let ?s = "pf_core w"
  from rv obtain s1 where reg: "register_chunk ?s rv (pp_chunk_id p) (pp_file_offset p) (pp_plain_size p) = Inr (chunk_refs_seq ?s + 1, s1)"
    and s1: "packs s1 = packs ?s" "pack_shards s1 = pack_shards ?s" by (auto simp: register_chunk_def)
  show ?thesis
  proof (cases "pp_is_deduplicated p")
    case True
    then show ?thesis by (simp add: record_pack_def stepW core_step_Inr reg core_modify_def)
  next
    case False
    with fresh obtain d where d: "pp_dek_id p = Some d" "pp_storage_mode p \<noteq> LocalOnly" by (auto simp: fresh_pack_def)
    define s2 where "s2 = create_pack (link_chunk_to_pack s1 (pp_chunk_id p) (pp_pack_id p) 0 (pp_manifest_size p))
      (pp_pack_id p) (pp_chunk_id p) (pp_plaintext_hash p) (pp_storage_mode p) 2 (storage_mode_scheme (pp_storage_mode p))
      (pp_plain_size p) (pp_cipher_size p) (pp_shard_size p) (pp_nonce p) (pp_gcm_tag p)
      Uploading"
    define w2 where "w2 = with_adb (\<lambda>a. set_pack_dek a (pp_pack_id p) d) (set_core s2 w)"
    have w2: "pf_core w2 = s2" by (simp add: w2_def with_adb_def set_core_def)
    have "pack_shards s2 = pack_shards ?s" by (simp add: s2_def create_pack_def s1)
    moreover have "pp_pack_id p \<in> set (map pk_pack_id (packs s2))"
      using False fresh by (simp add: s2_def create_pack_def s1 fresh_pack_def)
    moreover have "sh_pack_id r \<noteq> pp_pack_id p" if "r \<in> set (pack_shards ?s)" for r
      using that ok False fresh by (auto simp: schema_ok_def list_all_iff fresh_pack_def) metis
    ultimately have "\<exists>w'. record_shards (pp_pack_id p) (pp_shards p) w2 = (Inr (), w')"
      using False fresh by (intro record_shards_succeeds) (auto simp: w2 fresh_pack_def)
    then obtain w3 where w3: "record_shards (pp_pack_id p) (pp_shards p) w2 = (Inr (), w3)" by blast
    show ?thesis
      using False d w3 by (simp add: record_pack_def stepW core_step_Inr reg core_modify_def s2_def [symmetric] w2_def)
  qed
qed

lemma record_packs_succeeds:
  assumes "pack_world_ok w" and "clash_free w ps" and "\<forall>p \<in> set (new_ones ps). recordable p"
    and "rv \<in> set (revision_ids (pf_core w))"
  shows "\<exists>w'. record_packs rv ps w = (Inr (), w')"
  using assms
proof (induction ps arbitrary: w)
  case (Cons p ps)
  have fresh: "fresh_pack w p" using Cons.prems(2,3) by (auto simp: fresh_pack_def clash_free_def recordable_def)
  have ok: "schema_ok (pf_core w)" using Cons.prems(1) by (simp add: pack_world_ok_def)
  from record_pack_succeeds [OF ok fresh Cons.prems(4)] obtain w1 where p: "record_pack rv p w = (Inr (), w1)" by blast
  note r1 = record_pack_result [OF ok fresh p]
  have "clash_free w1 ps" by (rule clash_free_step [OF Cons.prems(2)]) (use r1 in \<open>simp add: recorded1_def\<close>)
  then have "\<exists>w'. record_packs rv ps w1 = (Inr (), w')"
    using Cons.prems(3,4) r1 by (intro Cons.IH keepsD [OF keeps_record_pack p Cons.prems(1)]) (simp_all add: recorded1_def revision_ids_def)
  with p show ?case by (auto simp: bindW_Inr)
qed simp

section \<open>Preparing succeeds\<close>

text \<open>The disk works: nothing fails to be read or written.\<close>

definition disk_works :: "packer \<Rightarrow> bool" where
  "disk_works E \<longleftrightarrow> (\<forall>k. \<not> pe_read_fails E k) \<and> (\<forall>n. pe_write E n = FileDone)"

lemma spool_write_works: "disk_works E \<Longrightarrow> \<exists>w'. spool_write E n bs w = (Inr (), w') \<and> pw_vault w' = pw_vault w"
  by (simp add: disk_works_def spool_write_def)

lemma spool_shards_works:
  assumes "disk_works E" and "\<forall>(i, bs) \<in> set ibs. int (length bs) \<le> i64_max"
  shows "\<exists>ps w'. spool_shards E pid mode ibs w = (Inr ps, w') \<and> length ps = length ibs"
  using assms(2)
proof (induction ibs arbitrary: w)
  case (Cons ib ibs)
  obtain i bs where ib: "ib = (i, bs)" by (cases ib)
  from spool_write_works [OF assms(1), of "local_shard_name pid i" bs w] obtain w1 where
    w1: "spool_write E (local_shard_name pid i) bs w = (Inr (), w1)" by blast
  from Cons.IH [of w1] Cons.prems obtain ps w' where ps: "spool_shards E pid mode ibs w1 = (Inr ps, w')" "length ps = length ibs" by auto
  from Cons.prems ib obtain p where "prepare_shard (pe_sha256 E) pid mode (i, bs) = Inr p"
    by (simp add: prepare_shard_def to_i64_def)
  with w1 ps show ?case by (auto simp: ib stepW)
qed simp

lemma create_pack_dek_works:
  assumes P: "prims_ok (pr_crypto P)" and ek: "require_envelope_key st = Inr ek" "length ek = 32" and key: "length key = 32"
  shows "\<exists>d st'. create_pack_dek P key now st i = Inr ((d, key), st')"
proof -
  from prims_wrap [OF P ek(2) key] obtain wr where "wrap_key (pr_crypto P) ek key = Inr wr" by blast
  moreover obtain d s' where "insert_wrapped_dek (va_db st) now i wr (next_dek_key_version (va_db st) i)
      (current_vault_key_generation (va_db st)) = Inr (d, s')"
    using next_version_fresh [of i "va_db st"] by (auto simp: insert_wrapped_dek_def Let_def)
  ultimately show ?thesis using ek(1) by (simp add: create_pack_dek_def vcrypto_def)
qed

lemma new_pack_works:
  assumes c: "can_pack E w" and disk: "disk_works E" and fits: "fits_i64 pt"
  shows "\<exists>p w'. new_pack E i Ec2_1 k h off n pt w = (Inr p, w')"
proof -
  from c obtain ek where P: "prims_ok (pr_crypto (pe_prims E))" and R: "rs_ok (pe_rs E)"
    and ek: "require_envelope_key (pw_vault w) = Inr ek" "length ek = 32"
    and rnd: "length (pe_key E k) = 32" "length (pe_nonce E k) = 12" by (auto simp: can_pack_def)
  from create_pack_dek_works [OF P ek rnd(1)] obtain d st' where
    d: "create_pack_dek (pe_prims E) (pe_key E k) (pe_now E) (pw_vault w) i = Inr ((d, pe_key E k), st')" by blast
  obtain cid where cid: "chunk_id (pr_crypto (pe_prims E)) (pe_key E k) pt = Inr cid" using prims_chunk_id [OF P] by blast
  from prims_seal [OF P rnd] obtain ct tag where
    "gcm_seal (pr_crypto (pe_prims E)) (pe_key E k) (pe_nonce E k) [] pt = Inr (ct, tag)" by blast
  with cid obtain e where e: "encrypt_chunk_v2 (pr_crypto (pe_prims E)) (pe_nonce E k) (pe_key E k) pt [] = Inr e"
    by (simp add: encrypt_chunk_v2_def)
  note ef = encrypt_chunk_v2_facts [OF P rnd e]
  from split_ciphertext_ok [OF R, of "ec_ciphertext e"] obtain a b p where
    split: "split_ciphertext_into_shards (pe_rs E) (ec_ciphertext e) = Inr [a, b, p]"
    and len: "length a = shard_len_of (ec_ciphertext e)" "length b = shard_len_of (ec_ciphertext e)"
      "length p = shard_len_of (ec_ciphertext e)" by blast
  have "shard_len_of (ec_ciphertext e) \<le> length pt + 1"
    unfolding shard_len_of_def ef(3) DATA_SHARDS_def by simp
  with fits have small: "int (shard_len_of (ec_ciphertext e)) \<le> i64_max" by (simp add: fits_i64_def)
  let ?m = "build_manifest_bytes_v2 (ec_chunk_id e) (ec_nonce e) (ec_ciphertext e) (ec_gcm_tag e) (length pt) d"
  have "length ?m = 96 + length pt" using length_manifest_v2 [OF ef(1) _ ef(4)] ef(2,3) rnd(2) by simp
  with fits have m: "to_i64 (length ?m) x = Inr (int (length ?m))" for x by (simp add: fits_i64_def to_i64_def)
  have ct: "to_i64 (length (ec_ciphertext e)) x = Inr (int (length pt))" for x using fits ef(3) by (simp add: fits_i64_def to_i64_def)
  define pid where "pid = compute_pack_id (pe_sha256 E) Ec2_1 ?m"
  from spool_write_works [OF disk, of "local_pack_name pid" ?m "w\<lparr>pw_vault := st'\<rparr>"] obtain w1 where
    w1: "spool_write E (local_pack_name pid) ?m (w\<lparr>pw_vault := st'\<rparr>) = (Inr (), w1)" by blast
  have "\<exists>shs w'. spool_shards E pid Ec2_1 (List.enumerate 0 [a, b, p]) w1 = (Inr shs, w') \<and> length shs = length (List.enumerate 0 [a, b, p])"
    by (rule spool_shards_works [OF disk]) (use small len in auto)
  then obtain sh shs w2 where w2: "spool_shards E pid Ec2_1 (List.enumerate 0 [a, b, p]) w1 = (Inr (sh # shs), w2)"
    by (auto simp: length_Suc_conv)
  have "\<exists>w'. new_pack E i Ec2_1 k h off n pt w = (Inr \<lparr>pp_pack_id = pid, pp_chunk_id = ec_chunk_id e, pp_plaintext_hash = h,
      pp_storage_mode = Ec2_1, pp_file_offset = off, pp_plain_size = n, pp_cipher_size = int (length pt), pp_shard_size = ps_size sh,
      pp_manifest_name = local_pack_name pid, pp_manifest_size = int (length ?m), pp_nonce = ec_nonce e, pp_gcm_tag = ec_gcm_tag e,
      pp_shards = sh # shs, pp_is_deduplicated = False, pp_dek_id = Some d\<rparr>, w')"
    by (simp add: new_pack_def stepW Let_def vault_step_def d e pid_def [symmetric] w1 shard_bytes_for_def split w2 m ct
        shard_size_of_def del: enumerate_simps)
  then show ?thesis by blast
qed

lemma reuse_pack_works:
  assumes P: "prims_ok (pr_crypto (pe_prims E))" and h: "pack_holds E X st row pt"
  shows "\<exists>p. reuse_pack E Ec2_1 hash off n row = Inr p"
proof -
  from h obtain dek e where e: "length dek = 32" "length (ec_nonce e) = 12" "fits_i64 pt"
    "encrypt_chunk_v2 (pr_crypto (pe_prims E)) (ec_nonce e) dek pt [] = Inr e" "ec_pack_row e pt row"
    by (auto simp: pack_holds_def holds_with_def)
  note ef = encrypt_chunk_v2_facts [OF P e(1,2,4)]
  have "\<exists>m. manifest_size_from_pack row = Inr m"
    using e(3,5) ef by (simp add: manifest_size_from_pack_def ec_pack_row_def ChunkRecordPrefix_SIZE_def usize_checked_add_def
        to_i64_def fits_i64_def usize_max_def i64_max_def)
  then show ?thesis using e(2,5) ef by (auto simp: reuse_pack_def vec_to_array_def ec_pack_row_def)
qed

lemma prepare_pack_works:
  assumes c: "can_pack E w" and disk: "disk_works E" and fits: "fits_i64 pt" and cons: "consistent_packs E X (pw_vault w)"
  shows "\<exists>p w'. prepare_pack E i Ec2_1 k off pt w = (Inr p, w')"
proof -
  let ?h = "hex_sha256 (pe_sha256 E) pt"
  have n: "to_i64 (length pt) ''chunk size'' = Inr (int (length pt))" using fits by (simp add: fits_i64_def to_i64_def)
  show ?thesis
  proof (cases "find_pack_by_plaintext_hash (pf_core w) ?h Ec2_1")
    case None
    with new_pack_works [OF c disk fits] show ?thesis by (simp add: prepare_pack_def stepW Let_def n)
  next
    case (Some row)
    from found_pack [OF Some] cons obtain pt' where "pack_holds E X (pw_vault w) row pt'" unfolding consistent_packs_def by blast
    from reuse_pack_works [OF _ this] c Some show ?thesis by (simp add: prepare_pack_def stepW Let_def n can_pack_def)
  qed
qed

lemma fits_take: "int (off + length content) + 96 \<le> i64_max \<Longrightarrow> fits_i64 (take n content)"
  by (simp add: fits_i64_def min_def)

lemma prepare_packs_works:
  assumes "can_pack E w" and "disk_works E" and "0 < pe_chunk_size E" and "hashed E k content \<subseteq> X"
    and "consistent_packs E X (pw_vault w)" and "int (off + length content) + 96 \<le> i64_max"
  shows "\<exists>ps w'. prepare_packs E i Ec2_1 k (int off) content w = (Inr ps, w')"
  using assms
proof (induction "length content" arbitrary: k off content w rule: less_induct)
  case less
  let ?c = "take (pe_chunk_size E) content" and ?rest = "drop (pe_chunk_size E) content"
  have reads: "\<not> pe_read_fails E k" using less.prems(2) by (simp add: disk_works_def)
  show ?case
  proof (cases "content = []")
    case True
    with reads show ?thesis by (subst prepare_packs.simps) (simp add: read_next_chunk_eq)
  next
    case False
    then have ne: "?c \<noteq> []" using less.prems(3) by simp
    from prepare_pack_works [OF less.prems(1,2) fits_take [OF less.prems(6)] less.prems(5)] obtain p w1 where
      p: "prepare_pack E i Ec2_1 k (int off) ?c w = (Inr p, w1)" by blast
    from hashed_step [OF False, of E k] less.prems(4) have X: "?c \<in> X" "chunk_shards E k ?c \<subseteq> X" "hashed E (Suc k) ?rest \<subseteq> X" by auto
    from prepare_pack_result [OF less.prems(1) X(1,2) p] have g: "grows E w w1" and size: "pp_plain_size p = int (length ?c)"
      by (simp_all add: prepared_def)
    have sum: "off + length ?c + length ?rest = off + length content" by simp
    have next': "checked_add_i64 (int off) (pp_plain_size p) ''file offset'' = Inr (int (off + length ?c))"
      using less.prems(6) sum by (simp add: size checked_add_i64_def i64_checked_add_def is_i64_def i64_min_def min_def)
    have "consistent_packs E X (pw_vault (set_core (pf_core w1) w1))"
      by (rule consistent_packs_grows [OF less.prems(5) g]) (use g in \<open>simp_all add: grows_def\<close>)
    then have cons: "consistent_packs E X (pw_vault w1)" by simp
    have "\<exists>ps w'. prepare_packs E i Ec2_1 (Suc k) (int (off + length ?c)) ?rest w1 = (Inr ps, w')"
      by (rule less.hyps [OF _ can_pack_grows [OF less.prems(1) g] less.prems(2,3) X(3) cons])
        (use False less.prems(3,6) sum in \<open>simp_all\<close>)
    then obtain ps w2 where "prepare_packs E i Ec2_1 (Suc k) (int (off + length ?c)) ?rest w1 = (Inr ps, w2)" by blast
    with reads ne p next' show ?thesis by (subst prepare_packs.simps) (simp add: read_next_chunk_eq Let_def)
  qed
qed

section \<open>From the file to its bytes\<close>

lemma consistent_packs_mono: "consistent_packs E X st \<Longrightarrow> X \<subseteq> Y \<Longrightarrow> consistent_packs E Y st"
  unfolding consistent_packs_def pack_holds_def holds_with_def by blast

lemma current_revision_exists:
  "get_current_file_revision s i = Some r \<Longrightarrow> fr_revision_id r \<in> set (revision_ids s)"
proof -
  assume "get_current_file_revision s i = Some r"
  then have "r \<in> set (sort_key (\<lambda>r. - fr_revision_id r) (filter (\<lambda>r. fr_inode_id r = i \<and> fr_is_current r = 1) (file_revisions s)))"
    unfolding get_current_file_revision_def fetch_limit_1 by (rule fetch_optional_in)
  then show ?thesis by (simp add: revision_ids_def)
qed

lemma commit_revision_works:
  assumes ok: "pack_world_ok w" and i: "i \<in> set (map in_id (inodes (pf_core w)))" and par: "refers_to (revision_ids (pf_core w)) (fst parent)"
    and n: "int (logical_total ps) \<le> i64_max" and cf: "clash_free w ps" and rec: "\<forall>p \<in> set (new_ones ps). recordable p"
  shows "\<exists>r w'. commit_revision E i ps parent w = (Inr r, w')"
proof -
  have n': "to_i64 (logical_total ps) ''logical size'' = Inr (int (logical_total ps))" using n by (simp add: to_i64_def)
  have "refers_to (x # revision_ids (pf_core w)) (fst parent)" for x using par by (auto simp: refers_to_def split: option.splits)
  with i obtain rv s1 where c: "create_file_revision (pf_core w) (pe_now E) i (int (logical_total ps)) None
      (map_option ld_device_id (get_local_device_identity (va_db (pw_vault w)))) (fst parent) ''local_write'' None = Inr (rv, s1)"
    and rv: "rv \<in> set (revision_ids s1)" by (auto simp: create_file_revision_def Let_def revision_ids_def)
  have "pack_world_ok (set_core s1 w)" using schema_ok_create_file_revision [OF _ c] ok by (simp add: pack_world_ok_def)
  moreover have "clash_free (set_core s1 w) ps"
    using cf clash_free_cong [of "set_core s1 w" w ps] create_file_revision_others [OF c] by simp
  ultimately obtain w' where "record_packs rv ps (set_core s1 w) = (Inr (), w')"
    using record_packs_succeeds rec rv by (metis set_core_simps(1))
  then show ?thesis by (simp add: commit_revision_def stepW core_step_Inr n' c)
qed

text \<open>
  C5: packing succeeds. With an unlocked vault, a working disk, random values of the right lengths and no clash of ids,
  packing a file of the erasure-coded mode that exists and whose size fits 64 bits returns a result: no read, key,
  encryption, shard, number or statement on the way is refused, whatever the content and whichever of its chunks are
  already packed.
\<close>

theorem pack_file_succeeds:
  assumes w: "pack_world_ok w" "can_pack E w" "disk_works E" "0 < pe_chunk_size E"
    and i: "get_storage_mode_for_inode (pf_core w) i = Some Ec2_1" "i \<in> set (map in_id (inodes (pf_core w)))"
    and packs: "consistent_packs E X (pw_vault w)" "no_clash E i content w" and size: "int (length content) + 96 \<le> i64_max"
  shows "\<exists>r w'. pack_file E i (Some content) w = Some (Inr r, w')"
proof -
  note cons = consistent_packs_mono [OF packs(1) subset_UNIV]
  from prepare_packs_works [OF w(2,3,4) subset_UNIV cons, where off = 0 and k = 0 and content = content and i = i] size obtain ps w1 where
    ps: "prepare_packs E i Ec2_1 0 0 content w = (Inr ps, w1)" by auto
  from prepare_packs_result [OF w(2,4) subset_UNIV, of i 0 0 content ps w1] ps
  have g: "grows E w w1" and laid: "laid_out E UNIV w1 0 content ps" by simp_all
  have core: "pf_core w1 = pf_core w" "pack_deks (va_db (pw_vault w1)) = pack_deks (va_db (pw_vault w))" using g by (simp_all add: grows_def)
  have R: "rs_ok (pe_rs E)" using w(2) by (simp add: can_pack_def)
  let ?parent = "(map_option fr_revision_id (get_current_file_revision (pf_core w1) i), None)"
  have "\<exists>r w'. commit_revision E i ps ?parent w1 = (Inr r, w')"
  proof (rule commit_revision_works)
    show "pack_world_ok w1" using keeps_prepare_packs [OF w(1), of E i Ec2_1 0 0 content] ps by simp
    show "i \<in> set (map in_id (inodes (pf_core w1)))" using i(2) core by simp
    show "refers_to (revision_ids (pf_core w1)) (fst ?parent)"
      using current_revision_exists by (auto simp: refers_to_def split: option.split)
    show "int (logical_total ps) \<le> i64_max" using size laid_out_total [OF laid] by simp
    show "clash_free w1 ps" using packs(2) ps clash_free_cong [OF _ core(2)] core(1) by (simp add: no_clash_def)
    show "\<forall>p \<in> set (new_ones ps). recordable p"
      using prepared_recordable [OF R] laid_out_prepared [OF laid] by fastforce
  qed
  then show ?thesis using i(1) ps by (auto simp: pack_file_def pack_file_with_expected_parent_def choose_parent_def Let_def)
qed

text \<open>
  C2: a packed file can be read back. An erasure-coded file that \<open>pack_file\<close> accepts becomes the current revision of
  its inode; reading any range of this revision through the packs (shards fetched from the providers, ciphertext
  rebuilt, manifest parsed, key of the pack unwrapped, chunk decrypted) gives exactly the bytes of the file, and
  \<open>restore_file\<close> writes a copy of it, whether its chunks were encrypted now or were already packed. It is enough that two shards of each pack can be fetched and that
  what the cloud returns has the recorded checksum.
\<close>

theorem pack_file_restores:
  assumes w: "pack_world_ok w" "can_pack E w" "0 < pe_chunk_size E" "get_storage_mode_for_inode (pf_core w) i = Some Ec2_1"
    and packs: "consistent_packs E X (pw_vault w)" "no_clash E i content w"
    and hash: "collision_free (pe_sha256 E) X" "hashed E 0 content \<subseteq> X"
    and run: "pack_file E i (Some content) w = Some (Inr r, w')"
    and cloud: "genuine (pe_sha256 E) X D (pf_core w')" "\<forall>pid \<in> set (pr_pack_ids r). reachable D (pf_core w') pid"
    and range: "0 < len" "int (offset + len) \<le> i64_max" "offset < length content"
  shows "\<exists>rv. pr_revision_id r = Some rv \<and>
    map_option fr_revision_id (get_current_file_revision (pf_core w') i) = Some rv \<and>
    read_range (pf_core w') (load_from_pack (pe_prims E) (pe_rs E) D (pw_vault w')) i rv offset len =
      Inr (take len (drop offset content)) \<and>
    restore_file (pf_core w') (load_from_pack (pe_prims E) (pe_rs E) D (pw_vault w')) i = (Inr (length content), Some content)"
proof -
  from pack_file_stages [OF w packs hash(2) run] obtain ps w1 par dev n rv s1 where
    ok1: "pack_world_ok w1" and c: "create_file_revision (pf_core w1) (pe_now E) i n None dev par ''local_write'' None = Inr (rv, s1)"
    and n: "to_i64 (logical_total ps) ''logical size'' = Inr n"
    and r: "pr_revision_id r = Some rv" "pr_pack_ids r = map pp_pack_id ps"
    and ok2: "pack_world_ok (set_core s1 w1)" and laid: "laid_out E X (set_core s1 w1) 0 content ps"
    and cf: "clash_free (set_core s1 w1) ps" and cons: "consistent_packs E X (pw_vault (set_core s1 w1))"
    and recs: "record_packs rv ps (set_core s1 w1) = (Inr (), w')" by metis
  have P: "prims_ok (pr_crypto (pe_prims E))" and R: "rs_ok (pe_rs E)" using w(2) by (simp_all add: can_pack_def)
  from recorded_chunks(1) [OF P R hash(1) ok2 laid cf cons recs] obtain rs where
    refs: "chunk_refs (pf_core w') = chunk_refs s1 @ rs" "list_all2 (ref_of rv) ps rs"
    and frs: "file_revisions (pf_core w') = file_revisions s1" by (auto simp: recorded_def)
  have "schema_ok (pf_core w1)" using ok1 by (simp add: pack_world_ok_def)
  note rev = new_revision [OF this c frs refs]
  have "\<forall>p \<in> set ps. reachable D (pf_core w') (pp_pack_id p)" using cloud(2) r(2) by simp
  note tl = recorded_tiles [OF P R hash(1) ok2 laid cf cons recs cloud(1) this refs(2), folded rev(3)]
  have size: "int (length content) \<le> i64_max" using n laid_out_total [OF laid] by (auto simp: to_i64_def split: if_splits)
  let ?load = "load_from_pack (pe_prims E) (pe_rs E) D (pw_vault w')"
  have "get_file_chunk_locations (pf_core w') i = chunk_locations (pf_core w') rs" by (simp add: get_file_chunk_locations_def rev(4))
  moreover have "chunk_locations (pf_core w') rs \<noteq> []" using tl range(3) by (auto simp: rev(3))
  ultimately have "restore_file (pf_core w') ?load i = (Inr (length content), Some content)"
    using restore_chunks_tiled [OF tl, of "[]"] size by (simp add: restore_file_def rev(3) Let_def)
  with read_range_tiled [OF rev(2) tl range(1,2) size] range(3) rev(1) r(1) show ?thesis by auto
qed

text \<open>
  C8: the packs stay whole. Packing an erasure-coded file leaves every readable pack of the database in order, the old
  ones and the new ones: its row, its key and its shard checksums belong to one plaintext whose hash is the one under
  which later chunks are shared with it.
\<close>

theorem pack_file_keeps_packs_whole:
  assumes w: "pack_world_ok w" "can_pack E w" "0 < pe_chunk_size E" "get_storage_mode_for_inode (pf_core w) i = Some Ec2_1"
    and packs: "consistent_packs E X (pw_vault w)" "no_clash E i content w"
    and hash: "collision_free (pe_sha256 E) X" "hashed E 0 content \<subseteq> X"
    and run: "pack_file E i (Some content) w = Some (Inr r, w')"
  shows "consistent_packs E X (pw_vault w')"
proof -
  from pack_file_stages [OF w packs hash(2) run] obtain ps w2 rv where
    ok: "pack_world_ok w2" and laid: "laid_out E X w2 0 content ps" and cf: "clash_free w2 ps"
    and cons: "consistent_packs E X (pw_vault w2)" and recs: "record_packs rv ps w2 = (Inr (), w')" by metis
  have P: "prims_ok (pr_crypto (pe_prims E))" and R: "rs_ok (pe_rs E)" using w(2) by (simp_all add: can_pack_def)
  note rec = recorded_chunks(1) [OF P R hash(1) ok laid cf cons recs]
  have schema: "schema_ok (pf_core w2)" using ok by (simp only: pack_world_ok_def)
  have "packs (pf_core w') = packs (pf_core w2) @ map pack_row (new_ones ps)" using rec by (simp add: recorded_def)
  moreover have "\<exists>pt. pack_holds E X (pw_vault w') (pack_row p) pt" if p: "p \<in> set (new_ones ps)" for p
    using new_pack_holds [OF R rec schema cf p] laid_out_prepared [OF laid, of p] p by auto
  moreover have "\<exists>pt. pack_holds E X (pw_vault w') row pt"
    if "row \<in> set (packs (pf_core w2))" "pk_storage_mode row = StorageMode_as_str Ec2_1" "pk_status row \<noteq> ''UNREADABLE''" for row
    using cons that old_pack_holds [OF rec schema cf that(1)] unfolding consistent_packs_def by blast
  ultimately show ?thesis unfolding consistent_packs_def set_append Un_iff by (auto simp del: StorageMode_as_str.simps)
qed

end
