(* ===== verification/PackSample.thy ===== *)
theory PackSample
  imports FileRoundTrip
begin

text \<open>
  A small run of the whole path: a file of four bytes in two chunks, packed under the toy cryptography, and read back
  with one provider down. It shows that the conditions of the properties of \<open>FileRoundTrip\<close> hold somewhere.
\<close>

definition toy_sum :: "bytes \<Rightarrow> bytes" where
  "toy_sum bs = [of_nat (length bs), fold (\<lambda>b a. 3 * a + b) bs 0]"

definition toy_dek :: "byte \<Rightarrow> bytes" where "toy_dek b = replicate 32 b"
definition toy_nonce :: "byte \<Rightarrow> bytes" where "toy_nonce b = replicate 12 b"
definition toy_tag :: "byte \<Rightarrow> bytes" where "toy_tag b = replicate 12 b @ replicate 4 0"

definition toy_packer :: packer where
  "toy_packer = \<lparr>pe_prims = toy_prims, pe_rs = xor_code, pe_sha256 = toy_sum, pe_chunk_size = 3, pe_now = 100,
     pe_reads = (\<lambda>_. []), pe_read_fails = (\<lambda>_. False), pe_write = (\<lambda>_. FileDone),
     pe_key = (\<lambda>k. toy_dek (of_nat k + 5)), pe_nonce = (\<lambda>k. toy_nonce (of_nat k + 7))\<rparr>"

definition toy_core :: db where
  "toy_core = empty_db\<lparr>inodes := [\<lparr>in_id = 1, in_parent_id = None, in_name = ''a'', in_kind = ''FILE'', in_size = 4,
     in_mode = None, in_mtime = None, in_deleted_at = None\<rparr>], inodes_seq := 1\<rparr>"

definition toy_key :: "int \<Rightarrow> byte \<Rightarrow> WrappedDekRecord" where
  "toy_key d b = \<lparr>dk_dek_id = d, dk_inode_id = 1, dk_wrapped_dek = replicate 32 b @ replicate 8 9, dk_key_version = d,
     dk_vault_key_gen = 1, dk_created_at = 100\<rparr>"

definition toy_vault :: "WrappedDekRecord list \<Rightarrow> vault" where
  "toy_vault ks = \<lparr>va_db = empty_adb\<lparr>ad_core := toy_core, data_encryption_keys := ks, data_encryption_keys_seq := int (length ks)\<rparr>,
     va_keys = Some (with_envelope_key [] [] (replicate 32 9))\<rparr>"

definition toy_world :: "WrappedDekRecord list \<Rightarrow> (string \<Rightarrow> bytes option) \<Rightarrow> pack_world" where
  "toy_world ks S = \<lparr>pw_vault = toy_vault ks, pw_events = [], pw_events_seq = 0, pw_spool = S\<rparr>"

definition toy_shard :: "string \<Rightarrow> nat \<Rightarrow> string \<Rightarrow> int \<Rightarrow> PreparedShard" where
  "toy_shard pid i chk n = \<lparr>ps_shard_index = int i, ps_shard_role = (if i = 2 then Parity else Data),
     ps_provider = SHARD_PROVIDERS ! i, ps_object_key = ''packs/'' @ pid @ ''/shards/'' @ dec_nat i @ ''.shard'',
     ps_local_name = local_shard_name pid i, ps_size = n, ps_checksum = chk\<rparr>"

definition toy_pack0 :: PreparedPack where
  "toy_pack0 = \<lparr>pp_pack_id = ''6a1a'', pp_chunk_id = toy_dek 5, pp_plaintext_hash = ''0312'', pp_storage_mode = Ec2_1,
     pp_file_offset = 0, pp_plain_size = 3, pp_cipher_size = 3, pp_shard_size = 2, pp_manifest_name = local_pack_name ''6a1a'',
     pp_manifest_size = 99, pp_nonce = toy_nonce 7, pp_gcm_tag = toy_tag 7,
     pp_shards = [toy_shard ''6a1a'' 0 ''0213'' 2, toy_shard ''6a1a'' 1 ''0212'' 2, toy_shard ''6a1a'' 2 ''020d'' 2],
     pp_is_deduplicated = False, pp_dek_id = Some 1\<rparr>"

definition toy_pack1 :: PreparedPack where
  "toy_pack1 = \<lparr>pp_pack_id = ''68bc'', pp_chunk_id = toy_dek 6, pp_plaintext_hash = ''0104'', pp_storage_mode = Ec2_1,
     pp_file_offset = 3, pp_plain_size = 1, pp_cipher_size = 1, pp_shard_size = 1, pp_manifest_name = local_pack_name ''68bc'',
     pp_manifest_size = 97, pp_nonce = toy_nonce 8, pp_gcm_tag = toy_tag 8,
     pp_shards = [toy_shard ''68bc'' 0 ''0102'' 1, toy_shard ''68bc'' 1 ''0100'' 1, toy_shard ''68bc'' 2 ''0102'' 1],
     pp_is_deduplicated = False, pp_dek_id = Some 2\<rparr>"

lemma toy_lengths [simp]: "length (toy_dek b) = 32" "length (toy_nonce b) = 12" "length (toy_tag b) = 16"
  by (simp_all add: toy_dek_def toy_nonce_def toy_tag_def)

lemma toy_deks:
  "create_pack_dek toy_prims (toy_dek 5) 100 (toy_vault []) 1 = Inr ((1, toy_dek 5), toy_vault [toy_key 1 5])"
  "create_pack_dek toy_prims (toy_dek 6) 100 (toy_vault [toy_key 1 5]) 1 = Inr ((2, toy_dek 6), toy_vault [toy_key 1 5, toy_key 2 6])"
  by code_simp+

lemma toy_chunks:
  "encrypt_chunk_v2 (pr_crypto toy_prims) (toy_nonce 7) (toy_dek 5) [1, 2, 3] [] = Inr \<lparr>ec_chunk_id = toy_dek 5,
     ec_nonce = toy_nonce 7, ec_ciphertext = [4, 7, 6], ec_gcm_tag = toy_tag 7\<rparr>"
  "encrypt_chunk_v2 (pr_crypto toy_prims) (toy_nonce 8) (toy_dek 6) [4] [] = Inr \<lparr>ec_chunk_id = toy_dek 6,
     ec_nonce = toy_nonce 8, ec_ciphertext = [2], ec_gcm_tag = toy_tag 8\<rparr>"
  by code_simp+

lemma toy_ids:
  "compute_pack_id toy_sum Ec2_1 (build_manifest_bytes_v2 (toy_dek 5) (toy_nonce 7) [4, 7, 6] (toy_tag 7) (Suc (Suc (Suc 0))) 1) = ''6a1a''"
  "compute_pack_id toy_sum Ec2_1 (build_manifest_bytes_v2 (toy_dek 6) (toy_nonce 8) [2] (toy_tag 8) (Suc 0) 2) = ''68bc''"
  by code_simp+

lemma toy_split:
  "split_ciphertext_into_shards xor_code [4, 7, 6] = Inr [[4, 7], [6, 0], [2, 7]]"
  "split_ciphertext_into_shards xor_code [2] = Inr [[2], [0], [2]]"
  by code_simp+

lemma toy_hashes:
  "hex_sha256 toy_sum [1, 2, 3] = ''0312''" "hex_sha256 toy_sum [4, 7] = ''0213''" "hex_sha256 toy_sum [6, 0] = ''0212''"
  "hex_sha256 toy_sum [2, 7] = ''020d''" "hex_sha256 toy_sum [4] = ''0104''" "hex_sha256 toy_sum [2] = ''0102''"
  "hex_sha256 toy_sum [0] = ''0100''"
  by code_simp+

lemma toy_vault_step:
  "create_pack_dek toy_prims k 100 (toy_vault ks) 1 = Inr (x, toy_vault ks') \<Longrightarrow>
     vault_step (\<lambda>st. create_pack_dek toy_prims k 100 st 1) (toy_world ks S) = (Inr x, toy_world ks' S)"
  by (simp add: vault_step_def toy_world_def)

lemma toy_spool: "spool_write toy_packer n bs (toy_world ks S) = (Inr (), toy_world ks (S(n := Some bs)))"
  by (simp add: spool_write_def toy_packer_def toy_world_def)

lemma toy_shards:
  "\<exists>S'. spool_shards toy_packer pid Ec2_1 (List.enumerate 0 [a, b, c]) (toy_world ks S) =
     (Inr [toy_shard pid 0 (hex_sha256 toy_sum a) (int (length a)), toy_shard pid 1 (hex_sha256 toy_sum b) (int (length b)),
        toy_shard pid 2 (hex_sha256 toy_sum c) (int (length c))], toy_world ks S')"
  if "int (length a) \<le> i64_max" "int (length b) \<le> i64_max" "int (length c) \<le> i64_max"
proof -
  have "pe_sha256 toy_packer = toy_sum" by (simp add: toy_packer_def)
  then show ?thesis using that
    by (simp add: bindW_def toy_spool liftW_def returnW_def prepare_shard_def to_i64_def toy_shard_def DATA_SHARDS_def
        numeral_2_eq_2) blast
qed

lemma toy_new_pack:
  assumes dek: "create_pack_dek toy_prims (toy_dek (of_nat k + 5)) 100 (toy_vault ks) 1 = Inr ((d, dek), toy_vault ks')"
    and e: "encrypt_chunk_v2 (pr_crypto toy_prims) (toy_nonce (of_nat k + 7)) dek pt [] = Inr e"
    and id: "compute_pack_id toy_sum Ec2_1 (build_manifest_bytes_v2 (ec_chunk_id e) (ec_nonce e) (ec_ciphertext e) (ec_gcm_tag e)
      (length pt) d) = pid"
    and split: "split_ciphertext_into_shards xor_code (ec_ciphertext e) = Inr [a, b, c]"
    and lens: "int (length a) \<le> i64_max" "int (length b) \<le> i64_max" "int (length c) \<le> i64_max"
      "int (96 + length (ec_ciphertext e)) \<le> i64_max" "length (ec_chunk_id e) = 32" "length (ec_nonce e) = 12" "length (ec_gcm_tag e) = 16"
  shows "\<exists>S'. new_pack toy_packer 1 Ec2_1 k h off n pt (toy_world ks S) = (Inr \<lparr>pp_pack_id = pid, pp_chunk_id = ec_chunk_id e,
     pp_plaintext_hash = h, pp_storage_mode = Ec2_1, pp_file_offset = off, pp_plain_size = n,
     pp_cipher_size = int (length (ec_ciphertext e)), pp_shard_size = int (length a), pp_manifest_name = local_pack_name pid,
     pp_manifest_size = int (96 + length (ec_ciphertext e)), pp_nonce = ec_nonce e, pp_gcm_tag = ec_gcm_tag e,
     pp_shards = [toy_shard pid 0 (hex_sha256 toy_sum a) (int (length a)), toy_shard pid 1 (hex_sha256 toy_sum b) (int (length b)),
        toy_shard pid 2 (hex_sha256 toy_sum c) (int (length c))],
     pp_is_deduplicated = False, pp_dek_id = Some d\<rparr>, toy_world ks' S')"
proof -
  let ?m = "build_manifest_bytes_v2 (ec_chunk_id e) (ec_nonce e) (ec_ciphertext e) (ec_gcm_tag e) (length pt) d"
  have ml: "length ?m = 96 + length (ec_ciphertext e)" using lens(5-7) by (rule length_manifest_v2)
  have E: "pe_prims toy_packer = toy_prims" "pe_rs toy_packer = xor_code" "pe_sha256 toy_packer = toy_sum" "pe_now toy_packer = 100"
    "pe_key toy_packer k = toy_dek (of_nat k + 5)" "pe_nonce toy_packer k = toy_nonce (of_nat k + 7)"
    by (simp_all add: toy_packer_def)
  from toy_shards [OF lens(1-3), of pid ks' "S(local_pack_name pid := Some ?m)"] obtain S' where
    S': "spool_shards toy_packer pid Ec2_1 (List.enumerate 0 [a, b, c]) (toy_world ks' (S(local_pack_name pid := Some ?m))) =
     (Inr [toy_shard pid 0 (hex_sha256 toy_sum a) (int (length a)), toy_shard pid 1 (hex_sha256 toy_sum b) (int (length b)),
        toy_shard pid 2 (hex_sha256 toy_sum c) (int (length c))], toy_world ks' S')" by blast
  have sz: "shard_size_of Ec2_1 [toy_shard pid 0 x (int (length a)), y, z] = Inr (int (length a))" for x y z
    by (simp add: shard_size_of_def toy_shard_def)
  show ?thesis
    using lens(4) unfolding new_pack_def E Let_def bindW_def toy_vault_step [OF dek] prod.case sum.case
    by (simp add: liftW_def returnW_def e id ml toy_spool shard_bytes_for_def split S' sz to_i64_def del: enumerate_simps) blast
qed

lemma toy_packer_simps: "pe_chunk_size toy_packer = 3" "pe_read_fails toy_packer k = False" "pe_sha256 toy_packer = toy_sum"
  "pe_prims toy_packer = toy_prims" "pe_rs toy_packer = xor_code" "pe_now toy_packer = 100"
  by (simp_all add: toy_packer_def)

lemma toy_new_pack0: "\<exists>S'. new_pack toy_packer 1 Ec2_1 0 ''0312'' 0 3 [1, 2, 3] (toy_world [] S) =
    (Inr toy_pack0, toy_world [toy_key 1 5] S')"
  using toy_new_pack [where k = 0 and ks = "[]" and d = 1 and dek = "toy_dek 5" and ks' = "[toy_key 1 5]" and pt = "[1, 2, 3]"
    and e = "\<lparr>ec_chunk_id = toy_dek 5, ec_nonce = toy_nonce 7, ec_ciphertext = [4, 7, 6], ec_gcm_tag = toy_tag 7\<rparr>"
    and pid = "''6a1a''" and a = "[4, 7]" and b = "[6, 0]" and c = "[2, 7]" and h = "''0312''" and off = 0 and n = 3 and S = S]
  by (simp add: toy_deks toy_chunks toy_ids toy_split toy_hashes i64_max_def toy_pack0_def)

lemma toy_new_pack1: "\<exists>S'. new_pack toy_packer 1 Ec2_1 1 ''0104'' 3 1 [4] (toy_world [toy_key 1 5] S) =
    (Inr toy_pack1, toy_world [toy_key 1 5, toy_key 2 6] S')"
  using toy_new_pack [where k = 1 and ks = "[toy_key 1 5]" and d = 2 and dek = "toy_dek 6" and ks' = "[toy_key 1 5, toy_key 2 6]"
    and pt = "[4]" and e = "\<lparr>ec_chunk_id = toy_dek 6, ec_nonce = toy_nonce 8, ec_ciphertext = [2], ec_gcm_tag = toy_tag 8\<rparr>"
    and pid = "''68bc''" and a = "[2]" and b = "[0]" and c = "[2]" and h = "''0104''" and off = 3 and n = 1 and S = S]
  by (simp add: toy_deks toy_chunks toy_ids toy_split toy_hashes i64_max_def toy_pack1_def)

lemma toy_core_w: "pf_core (toy_world ks S) = toy_core"
  by (simp add: toy_world_def toy_vault_def)

lemma toy_prepare:
  "new_pack toy_packer 1 Ec2_1 k (hex_sha256 toy_sum pt) off (int (length pt)) pt (toy_world ks S) = r \<Longrightarrow>
     int (length pt) \<le> i64_max \<Longrightarrow> prepare_pack toy_packer 1 Ec2_1 k off pt (toy_world ks S) = r"
  by (simp add: prepare_pack_def bindW_def liftW_def to_i64_def toy_core_w toy_packer_simps find_pack_by_plaintext_hash_def
      toy_core_def empty_db_def fetch_optional_def sql_limit_def Let_def)

lemma toy_prepared:
  "\<exists>S'. prepare_packs toy_packer 1 Ec2_1 0 0 [1, 2, 3, 4] (toy_world [] S) =
     (Inr [toy_pack0, toy_pack1], toy_world [toy_key 1 5, toy_key 2 6] S')"
proof -
  from toy_new_pack0 [of S] obtain S1 where "new_pack toy_packer 1 Ec2_1 0 (hex_sha256 toy_sum [1, 2, 3]) 0 (int (length [1, 2, 3 :: byte]))
      [1, 2, 3] (toy_world [] S) = (Inr toy_pack0, toy_world [toy_key 1 5] S1)" by (auto simp: toy_hashes)
  from toy_prepare [OF this] have p0: "prepare_pack toy_packer 1 Ec2_1 0 0 [1, 2, 3] (toy_world [] S) =
      (Inr toy_pack0, toy_world [toy_key 1 5] S1)" by (simp add: i64_max_def)
  from toy_new_pack1 [of S1] obtain S2 where "new_pack toy_packer 1 Ec2_1 1 (hex_sha256 toy_sum [4]) 3 (int (length [4 :: byte]))
      [4] (toy_world [toy_key 1 5] S1) = (Inr toy_pack1, toy_world [toy_key 1 5, toy_key 2 6] S2)" by (auto simp: toy_hashes)
  from toy_prepare [OF this] have p1: "prepare_pack toy_packer 1 Ec2_1 1 3 [4] (toy_world [toy_key 1 5] S1) =
      (Inr toy_pack1, toy_world [toy_key 1 5, toy_key 2 6] S2)" by (simp add: i64_max_def)
  have nil: "prepare_packs toy_packer 1 Ec2_1 k off [] w = (Inr [], w)" for k off w
    by (subst prepare_packs.simps) (simp add: read_next_chunk_eq toy_packer_simps)
  have one: "prepare_packs toy_packer 1 Ec2_1 1 3 [4] (toy_world [toy_key 1 5] S1) =
      (Inr [toy_pack1], toy_world [toy_key 1 5, toy_key 2 6] S2)"
    by (subst prepare_packs.simps) (simp add: read_next_chunk_eq toy_packer_simps p1 [simplified] nil Let_def
        checked_add_i64_def i64_checked_add_def toy_pack1_def is_i64_def i64_max_def i64_min_def)
  show ?thesis
    by (subst prepare_packs.simps) (simp add: read_next_chunk_eq toy_packer_simps p0 one [simplified] Let_def
        checked_add_i64_def i64_checked_add_def toy_pack0_def is_i64_def i64_max_def i64_min_def, blast)
qed

section \<open>The conditions hold\<close>

definition toy_contents :: "bytes list" where
  "toy_contents = [[1, 2, 3], [4], [4, 7], [6, 0], [2, 7], [2], [0]]"

lemma toy_collision_free: "collision_free toy_sum (set toy_contents)"
  by (simp add: collision_free_def toy_contents_def inj_on_def toy_hashes)

lemma toy_chunk_shards:
  "chunk_shards toy_packer 0 [1, 2, 3] = {[4, 7], [6, 0], [2, 7]}" "chunk_shards toy_packer (Suc 0) [4] = {[2], [0]}"
proof -
  have "pe_key toy_packer 0 = toy_dek 5" "pe_key toy_packer (Suc 0) = toy_dek 6" "pe_nonce toy_packer 0 = toy_nonce 7"
    "pe_nonce toy_packer (Suc 0) = toy_nonce 8" by (simp_all add: toy_packer_def)
  then show "chunk_shards toy_packer 0 [1, 2, 3] = {[4, 7], [6, 0], [2, 7]}" "chunk_shards toy_packer (Suc 0) [4] = {[2], [0]}"
    by (simp_all add: chunk_shards_def toy_packer_simps toy_chunks toy_split) auto
qed

lemma toy_hashed: "hashed toy_packer 0 [1, 2, 3, 4] \<subseteq> set toy_contents"
proof -
  have two: "{j. j * pe_chunk_size toy_packer < length [1, 2, 3, 4 :: byte]} = {0, Suc 0}" by (auto simp: toy_packer_simps)
  show ?thesis unfolding hashed_def two by (simp add: toy_packer_simps Let_def toy_chunk_shards toy_contents_def)
qed

lemma toy_world_ok: "pack_world_ok (toy_world [] S)"
  by (simp add: pack_world_ok_def toy_core_w)
    (simp add: toy_world_def toy_vault_def toy_core_def schema_ok_def inodes_ok_def empty_db_def keys_ok_def empty_adb_def refers_to_def)

lemma toy_can_pack: "can_pack toy_packer (toy_world [] S)"
  by (simp add: can_pack_def toy_packer_simps toy_prims_ok xor_code_ok)
    (simp add: toy_packer_def toy_world_def toy_vault_def keys_ok_def empty_adb_def require_envelope_key_def with_envelope_key_def)

lemma toy_disk: "disk_works toy_packer"
  by (simp add: disk_works_def toy_packer_def)

lemma toy_mode: "get_storage_mode_for_inode (pf_core (toy_world ks S)) 1 = Some Ec2_1"
proof -
  have "inode_names toy_core (get_inode_by_id toy_core 1) [] = Some [''a'']"
    by (subst inode_names.simps, simp add: toy_core_def get_inode_by_id_def empty_db_def, subst inode_names.simps, simp)
  then show ?thesis
    by (simp add: toy_core_w get_storage_mode_for_inode_def get_inode_path_def policy_type_of_path_def
        find_sync_policy_for_path_def list_sync_policies_def toy_core_def empty_db_def coalesce_def StorageMode_from_policy_type_def)
qed

lemma toy_inode: "1 \<in> set (map in_id (inodes (pf_core (toy_world ks S))))"
  by (simp add: toy_core_w toy_core_def)

lemma toy_consistent: "consistent_packs toy_packer X (pw_vault (toy_world [] S))"
  by (simp add: consistent_packs_def toy_core_w) (simp add: toy_core_def empty_db_def)

lemma toy_no_packs: "packs (pf_core (toy_world ks S)) = []" "pack_deks (va_db (pw_vault (toy_world ks S))) = []"
  "pack_shards (pf_core (toy_world ks S)) = []"
  by (simp_all add: toy_core_w toy_core_def empty_db_def) (simp add: toy_world_def toy_vault_def empty_adb_def)

lemma toy_dek_inj: "toy_dek 5 \<noteq> toy_dek 6"
  by (simp add: toy_dek_def)

lemma toy_clash_free: "clash_free (toy_world ks S) [toy_pack0, toy_pack1]"
  using toy_dek_inj toy_dek_inj [symmetric]
  by (simp add: clash_free_def one_place_def toy_no_packs toy_pack0_def toy_pack1_def)

lemma toy_no_clash: "no_clash toy_packer 1 [1, 2, 3, 4] (toy_world [] S)"
  using toy_prepared [of S] toy_clash_free [of "[]" S] by (auto simp: no_clash_def)
section \<open>The run\<close>

text \<open>One provider is down; the others return the content whose checksum the row has.\<close>

definition toy_fetch :: "PackShardRecord \<Rightarrow> string + bytes" where
  "toy_fetch sh = (if sh_provider sh = ''backblaze-b2'' then Inl ''timed out''
     else ok_or ''not found'' (find (\<lambda>b. hex_sha256 toy_sum b = sh_checksum sh) toy_contents))"

definition toy_reader :: reader where
  "toy_reader = \<lparr>rd_providers = SHARD_PROVIDERS, rd_latency = (\<lambda>_. None), rd_fetch = toy_fetch,
     rd_local_spool = (\<lambda>_. None), rd_spool = (\<lambda>_. None), rd_vault_key = []\<rparr>"

lemma toy_genuine: "genuine toy_sum (set toy_contents) toy_reader s"
  by (auto simp: genuine_def toy_reader_def toy_fetch_def ok_or_eq_Inr find_Some_iff in_set_conv_nth split: if_splits)

lemma toy_fetchable:
  assumes "sh_provider sh \<in> {''cloudflare-r2'', ''scaleway''}" and "sh_checksum sh = hex_sha256 toy_sum b" and "b \<in> set toy_contents"
  shows "fetchable toy_reader sh"
proof -
  have "find (\<lambda>b. hex_sha256 toy_sum b = sh_checksum sh) toy_contents \<noteq> None" using assms(2,3) by (auto simp: find_None_iff)
  with assms(1) show ?thesis by (auto simp: fetchable_def toy_reader_def toy_fetch_def SHARD_PROVIDERS_def ok_or_def)
qed

lemma toy_reachable:
  assumes "a \<in> set (pack_shards s)" and "c \<in> set (pack_shards s)"
    and "shard_of pid (toy_shard pid 0 x n) a" and "shard_of pid (toy_shard pid 2 y n) c"
    and "x = hex_sha256 toy_sum bx" "bx \<in> set toy_contents" "y = hex_sha256 toy_sum by'" "by' \<in> set toy_contents"
  shows "reachable toy_reader s pid"
  unfolding reachable_def
proof (intro conjI bexI)
  show "a \<in> set (get_pack_shards s pid)" "c \<in> set (get_pack_shards s pid)"
    using assms(1-4) by (simp_all add: set_get_pack_shards shard_of_def)
  show "fetchable toy_reader a"
    by (rule toy_fetchable [OF _ _ assms(6)]) (use assms(3,5) in \<open>simp_all add: shard_of_def toy_shard_def SHARD_PROVIDERS_def\<close>)
  show "fetchable toy_reader c"
    by (rule toy_fetchable [OF _ _ assms(8)]) (use assms(4,7) in \<open>simp_all add: shard_of_def toy_shard_def SHARD_PROVIDERS_def\<close>)
qed (use assms(3,4) in \<open>simp_all add: shard_of_def toy_shard_def toy_reader_def\<close>)

lemma toy_run:
  "\<exists>r w'. pack_file toy_packer 1 (Some [1, 2, 3, 4]) (toy_world [] S) = Some (Inr r, w') \<and>
     (\<forall>pid \<in> set (pr_pack_ids r). reachable toy_reader (pf_core w') pid)"
proof -
  let ?ps = "[toy_pack0, toy_pack1]"
  from toy_prepared [of S] obtain S' where
    prep: "prepare_packs toy_packer 1 Ec2_1 0 0 [1, 2, 3, 4] (toy_world [] S) = (Inr ?ps, toy_world [toy_key 1 5, toy_key 2 6] S')" by blast
  let ?w = "toy_world [toy_key 1 5, toy_key 2 6] S'"
  have ok: "pack_world_ok ?w" using keeps_prepare_packs [OF toy_world_ok, of toy_packer 1 Ec2_1 0 0 "[1, 2, 3, 4]" S] prep by simp
  have rec: "\<forall>p \<in> set (new_ones ?ps). recordable p"
    by (simp add: recordable_def toy_pack0_def toy_pack1_def toy_shard_def SHARD_PROVIDERS_def)
  have none: "get_current_file_revision (pf_core ?w) 1 = None"
    by (simp add: get_current_file_revision_def toy_core_w toy_core_def empty_db_def fetch_optional_def sql_limit_def)
  have "\<exists>r w'. commit_revision toy_packer 1 ?ps (None, None) ?w = (Inr r, w')"
    by (rule commit_revision_works [OF ok toy_inode _ _ toy_clash_free rec])
      (simp_all add: refers_to_def logical_total_def toy_pack0_def toy_pack1_def i64_max_def)
  then obtain r w' where run: "commit_revision toy_packer 1 ?ps (None, None) ?w = (Inr r, w')" by blast
  from commit_result [OF run] obtain rv s n dev par where
    c: "create_file_revision (pf_core ?w) (pe_now toy_packer) 1 n None dev par ''local_write'' None = Inr (rv, s)"
    and recs: "record_packs rv ?ps (set_core s ?w) = (Inr (), w')" and ids: "pr_pack_ids r = map pp_pack_id ?ps" by metis
  have ok': "pack_world_ok (set_core s ?w)" using schema_ok_create_file_revision [OF _ c] ok by (simp add: pack_world_ok_def)
  have cf: "clash_free (set_core s ?w) ?ps"
    using toy_clash_free clash_free_cong [of "set_core s ?w" ?w ?ps] create_file_revision_others [OF c] by simp
  from record_packs_result [OF ok' cf rec recs] obtain rows where
    rows: "pack_shards (pf_core w') = pack_shards s @ concat rows"
    "list_all2 (\<lambda>p. list_all2 (shard_of (pp_pack_id p)) (pp_shards p)) (new_ones ?ps) rows" by (auto simp: recorded_def)
  from rows(2) obtain a0 b0 c0 a1 b1 c1 where
    abc: "rows = [[a0, b0, c0], [a1, b1, c1]]" "shard_of ''6a1a'' (toy_shard ''6a1a'' 0 ''0213'' 2) a0"
      "shard_of ''6a1a'' (toy_shard ''6a1a'' 2 ''020d'' 2) c0" "shard_of ''68bc'' (toy_shard ''68bc'' 0 ''0102'' 1) a1"
      "shard_of ''68bc'' (toy_shard ''68bc'' 2 ''0102'' 1) c1"
    by (auto simp: toy_pack0_def toy_pack1_def list_all2_Cons1)
  have "reachable toy_reader (pf_core w') ''6a1a''"
    by (rule toy_reachable [OF _ _ abc(2,3) _ _ _, where bx = "[4, 7]" and by' = "[2, 7]"])
      (simp_all add: rows(1) abc(1) toy_hashes toy_contents_def)
  moreover have "reachable toy_reader (pf_core w') ''68bc''"
    by (rule toy_reachable [OF _ _ abc(4,5) _ _ _, where bx = "[2]" and by' = "[2]"])
      (simp_all add: rows(1) abc(1) toy_hashes toy_contents_def)
  moreover have "pack_file toy_packer 1 (Some [1, 2, 3, 4]) (toy_world [] S) = Some (Inr r, w')"
    using prep run none by (simp add: pack_file_def pack_file_with_expected_parent_def toy_mode choose_parent_def Let_def)
  ultimately show ?thesis using ids by (auto simp: toy_pack0_def toy_pack1_def)
qed

theorem pack_file_keeps_tables_witness:
  "\<exists>res w'. pack_file_with_expected_parent toy_packer 1 (Some [1, 2, 3, 4]) None (toy_world [] (\<lambda>_. None)) = Some (res, w') \<and>
     pack_world_ok w'"
  using toy_run [of "\<lambda>_. None"] pack_file_keeps_tables [OF toy_world_ok, of toy_packer 1 "Some [1, 2, 3, 4]" None "\<lambda>_. None"]
  by (auto simp: pack_file_def)

theorem pack_file_succeeds_witness:
  "\<exists>r w'. pack_file toy_packer 1 (Some [1, 2, 3, 4]) (toy_world [] (\<lambda>_. None)) = Some (Inr r, w')"
  by (rule pack_file_succeeds [OF toy_world_ok toy_can_pack toy_disk _ toy_mode toy_inode toy_consistent toy_no_clash])
    (simp_all add: toy_packer_simps i64_max_def)

theorem pack_file_restores_witness:
  "\<exists>r w' rv. pack_file toy_packer 1 (Some [1, 2, 3, 4]) (toy_world [] (\<lambda>_. None)) = Some (Inr r, w') \<and>
     read_range (pf_core w') (load_from_pack toy_prims xor_code toy_reader (pw_vault w')) 1 rv 1 3 = Inr [2, 3, 4] \<and>
     restore_file (pf_core w') (load_from_pack toy_prims xor_code toy_reader (pw_vault w')) 1 = (Inr 4, Some [1, 2, 3, 4])"
proof -
  from toy_run obtain r w' where run: "pack_file toy_packer 1 (Some [1, 2, 3, 4]) (toy_world [] (\<lambda>_. None)) = Some (Inr r, w')"
    and reach: "\<forall>pid \<in> set (pr_pack_ids r). reachable toy_reader (pf_core w') pid" by blast
  have sizes: "0 < pe_chunk_size toy_packer" "0 < (3 :: nat)" "int (1 + 3) \<le> i64_max" "1 < length [1, 2, 3, 4 :: byte]"
    by (simp_all add: toy_packer_simps i64_max_def)
  have E: "pe_sha256 toy_packer = toy_sum" by (simp add: toy_packer_simps)
  from pack_file_restores [OF toy_world_ok toy_can_pack sizes(1) toy_mode toy_consistent toy_no_clash
      toy_collision_free [folded E] toy_hashed run toy_genuine [folded E] reach sizes(2-4)] run
  show ?thesis by (auto simp: toy_packer_simps)
qed

theorem pack_file_keeps_packs_whole_witness:
  "\<exists>r w'. pack_file toy_packer 1 (Some [1, 2, 3, 4]) (toy_world [] (\<lambda>_. None)) = Some (Inr r, w') \<and>
     consistent_packs toy_packer (set toy_contents) (pw_vault w')"
proof -
  from toy_run obtain r w' where run: "pack_file toy_packer 1 (Some [1, 2, 3, 4]) (toy_world [] (\<lambda>_. None)) = Some (Inr r, w')" by blast
  have E: "pe_sha256 toy_packer = toy_sum" "0 < pe_chunk_size toy_packer" by (simp_all add: toy_packer_simps)
  from pack_file_keeps_packs_whole [OF toy_world_ok toy_can_pack E(2) toy_mode toy_consistent toy_no_clash
      toy_collision_free [folded E(1)] toy_hashed run] run
  show ?thesis by blast
qed

end
