(* ===== verification/Spec2Isabelle.thy ===== *)
theory Spec2Isabelle
  imports Hybrid Access InviteProofs AutoLock Repair Scrubber GcWorker PackSample
begin

text \<open>
  OmniDrive keeps encrypted files on several cloud providers. A daemon (\<^verbatim>\<open>src/angeld\<close>) cuts a file into chunks,
  encrypts each under a key of its own, cuts the ciphertext into two data shards and one parity shard, and stores the
  three at three providers; any two give the chunk back. A core library (\<^verbatim>\<open>src/omnidrive-core\<close>) has the record layouts
  and the cryptography. Everything the daemon knows is in one SQLite database. This library models the core and the
  engine of the daemon and proves what they promise. Paths below are relative to \<^verbatim>\<open>src/angeld/src\<close> unless they begin with
  \<^verbatim>\<open>omnidrive-core\<close>.

  \<^bold>\<open>How the code is modelled.\<close> A table of the database is a list of records, in the order of its row ids, with the
  last id it handed out (fields ending in \<open>_seq\<close>); the tables of the storage engine are \<open>db\<close> (theory \<open>PackStore\<close>) and
  \<open>adb\<close> (theory \<open>Accounts\<close>) adds those of users and keys. A statement is a function on the tables; a constraint of the
  schema that it violates is an error value (\<open>sqlx_error\<close>). A fallible function returns \<open>error + value\<close>, with one error
  type per Rust error enum, and \<open>bindR\<close> is the \<open>?\<close> of Rust. A function that changes state whether or not it fails returns
  its result together with the state it leaves, and is composed with \<open>bindW\<close>. Machine integers are words where they wrap
  and bounded \<open>int\<close> or \<open>nat\<close> with the check written out where the code checks (\<open>i64_checked_add\<close>, \<open>usize_checked_add\<close>,
  \<open>to_i64\<close>); \<open>usize\<close> has 64 bits. Bytes are \<open>8 word list\<close>.

  \<^bold>\<open>What is an argument.\<close> Code that is not in the repository is an argument of the definitions that use it, with its
  documented behaviour as a named predicate: the cryptographic primitives (\<open>crypto_prims\<close> with \<open>prims_ok\<close>, \<open>kem_prims\<close>
  with \<open>kem_ok\<close>, \<open>dh_prims\<close> with \<open>dh_ok\<close>), the Reed-Solomon coder (\<open>rs_prims\<close> with \<open>rs_ok\<close>: any two of three shards
  determine the third), SHA-256 (\<open>collision_free\<close> on the contents at hand, where a statement needs it), the network and the
  file system (\<open>net\<close>, \<open>file_outcome\<close>: every request and file operation may succeed, fail, or fail after it took
  effect), the clock and the random values. Each predicate is shown to hold of a small concrete instance (\<open>xor_prims\<close>,
  \<open>toy_kem\<close>, \<open>add_dh\<close>, \<open>xor_code\<close>), on which the witnesses run.

  \<^bold>\<open>Loops.\<close> Loops over lists and bounded retries are structural recursions; the packing loop is a \<open>function\<close> whose
  measure is the content left to read. Four loops may not end on a corrupted table or a busy one and are
  \<open>partial_function\<close>s, \<open>None\<close> being a run that does not end: the recursive lineage query, the walk from an inode to the
  root, the search for a free name, and the batch loop of the repair worker. That they end is proved from the tables the
  code itself builds. No fuel is used.

  \<^bold>\<open>The core library.\<close>
  \<^item> \<open>Layout\<close>: \<^verbatim>\<open>omnidrive-core layout.rs\<close>, the five packed structures. Locale \<open>packed_struct\<close>, one interpretation per
    structure: what is written is read back, and the size constant is the size.
  \<^item> \<open>Crypto\<close>: \<^verbatim>\<open>crypto.rs\<close>, root keys, subkeys, chunk encryption in both versions, key wrapping, sealed secrets. Locale
    \<open>sealed_box\<close> (open after seal), interpreted for each of them.
  \<^item> \<open>Hybrid\<close>: \<^verbatim>\<open>hybrid.rs\<close>, \<^verbatim>\<open>pqkem.rs\<close>, the X25519 and ML-KEM wrap of a vault key; its transcript is injective.

  \<^bold>\<open>The tables.\<close>
  \<^item> \<open>PackStore\<close>: \<^verbatim>\<open>db/packs.rs\<close>, \<^verbatim>\<open>db/shards.rs\<close>, the schema as the invariant \<open>schema_ok\<close> (keys, unique constraints,
    references), and that statements keep it. \<open>UploadQueue\<close>: \<^verbatim>\<open>db/uploads.rs\<close>, jobs, targets, orphan removal; locale
    \<open>work_queue\<close>. \<open>ChunkIndex\<close>: \<^verbatim>\<open>db/chunks.rs\<close>, \<^verbatim>\<open>db/revisions.rs\<close>, the current revision and the lineage. \<open>Inodes\<close>:
    \<^verbatim>\<open>db/inodes.rs\<close>, \<^verbatim>\<open>db/sync_policies.rs\<close>, paths, soft deletion, the storage mode of a file. \<open>Conflicts\<close>:
    \<^verbatim>\<open>db/conflicts.rs\<close>, conflict copies. \<open>CloudGuard\<close>: \<^verbatim>\<open>db/system_config.rs\<close>, \<^verbatim>\<open>cloud_guard.rs\<close>, the daily limits and the
    circuit breaker, over sequences of requests, corrections after downloads and restarts on any days; locale \<open>key_value\<close>. \<open>Accounts\<close>: users, devices, members, sessions, invites, audit log, recovery
    keys. \<open>KeyStore\<close>: \<^verbatim>\<open>db/vault_state.rs\<close>, wrapped keys and the re-wrap queue.

  \<^bold>\<open>The path of a file.\<close>
  \<^item> \<open>Packer\<close>: the pure part of \<^verbatim>\<open>packer.rs\<close>, cutting into chunks and shards, manifests and ids; the byte-wise placement
    equals padding and halving.
  \<^item> \<open>PackFile\<close>: \<open>pack_file\<close>. Chunks are read; a chunk whose plaintext is already packed is shared, any other gets a new
    key from the vault and its manifest and shards are written to the spool; the parent of the new revision is decided from
    the lineage, with a conflict copy when the base is stale; then the rows are written. The state \<open>pack_world\<close> is the vault
    with its database, the conflict events and the spool. However it ends, the tables stay well formed (\<open>keeps\<close>).
  \<^item> \<open>Downloader\<close>: \<^verbatim>\<open>downloader/\<close>, fetching shards, rebuilding the ciphertext and the manifest, decrypting, range reads.
  \<^item> \<open>PackRestore\<close>: loading a chunk from its pack, \<open>restore_file\<close>, and what a pack holds (\<open>pack_holds\<close>: its row, key and
    checksums belong to one plaintext); what preparing and recording one pack gives. \<open>PackRecord\<close>: the same for all packs
    of a file, and the chunk list of the new revision tiles the content. \<open>FileRoundTrip\<close>: packing succeeds, a packed file
    is read back and restored, and the packs stay whole. \<open>PackSample\<close>: a run of it all on a small file.

  \<^bold>\<open>The background workers.\<close> They act on the \<open>world\<close> of \<open>CloudWorld\<close>: database, guard, stored objects, spool.
  \<^item> \<open>Uploader\<close> (\<^verbatim>\<open>uploader.rs\<close>): a job keeps every shard marked as stored stored, whatever the network does. \<open>Repair\<close>
    (\<^verbatim>\<open>repair.rs\<close>): a degraded pack is rebuilt from two shards. \<open>Scrubber\<close> (\<^verbatim>\<open>scrubber.rs\<close>): light and deep checks.
    \<open>GcWorker\<close> (\<^verbatim>\<open>gc.rs\<close>): orphaned packs are removed, no others.

  \<^bold>\<open>The vault and who may use it.\<close>
  \<^item> \<open>Identity\<close> (\<^verbatim>\<open>identity.rs\<close>, \<^verbatim>\<open>recovery.rs\<close>, \<^verbatim>\<open>sharing.rs\<close>), \<open>VaultKeys\<close> (\<^verbatim>\<open>vault.rs\<close>: unlock, lock, keys of packs, both
    rotations, re-wrap, migration). Each write of the rotation to a new passphrase may fail, and the state after
    the failure is the one left behind. \<open>VaultProofs\<close>, \<open>VaultRewrap\<close>, \<open>VaultMigration\<close>: which keys each operation keeps, and
    which it loses (a rotation interrupted between two writes, an interrupted re-wrap, a revocation that fails after its
    first write, the ML-KEM key of a migration, the device keys of a change of passphrase).
  \<^item> \<open>Access\<close> (\<^verbatim>\<open>acl.rs\<close>, \<^verbatim>\<open>api/gate.rs\<close>, \<^verbatim>\<open>api/auth.rs\<close>): roles, sessions, the check in front of a request; locale
    \<open>expiring_tokens\<close>. \<open>VaultApi\<close> (\<^verbatim>\<open>api/vault.rs\<close>) with \<open>VaultApiProofs\<close> and \<open>InviteProofs\<close>: members, devices, invites.
    \<open>RateLimit\<close> (\<^verbatim>\<open>api/mod.rs\<close>): check and record are events of their own, so that attempts
    may overlap. \<open>AutoLock\<close> (\<^verbatim>\<open>auto_lock.rs\<close>, \<^verbatim>\<open>lock_flow.rs\<close>): the idle timer as a step relation whose reachable states are
    locked in time, and what a request that was already running when the vault was locked does to that.

  \<^bold>\<open>Shared lemmas.\<close> \<open>Prelude\<close> has the result type, the statements over tables (\<open>update_where\<close>, \<open>delete_where\<close>,
  \<open>fetch_optional\<close>), checked arithmetic and the collection \<open>result_elims\<close> that opens a successful chain of \<open>?\<close>.

  \<^bold>\<open>Behaviour stated as it is.\<close> Some properties show that the code does less than it means to: a restart during the
  re-wrap, a failed revocation, a change of passphrase and one of its writes that fails lose keys; the migration of the
  key derivation leaves the ML-KEM key under the old master key; a revoked device keeps its session; two joins overspend
  an invite; a light check overrules a deep one; a collection that
  fails half way leaves rows without objects. Lemmas beside the properties show, for the same reason, that a request
  running while the vault is locked may open it again (\<open>late_rotation_reopens\<close>), that attempts at once pass the limiter
  (\<open>requests_at_once_pass\<close>), that a name beginning with white space is not resolved (\<open>spaced_path_unresolved\<close>), and that a
  change of the storage mode drops the key of a pack (\<open>reconcile_drops_dek\<close>).

  \<^bold>\<open>What is not modelled.\<close> The metadata backup, restore and grafting of databases (\<^verbatim>\<open>disaster_recovery.rs\<close>,
  \<^verbatim>\<open>db/graft.rs\<close>: statements over attached databases and provider access); onboarding and the HTTP handlers other than
  those above (JSON shaping, routing, probing of providers); the migrator of version 1 packs; the chunk cache, the ingest
  jobs and the share rows; peers on the local network; the watcher, the virtual drive and the Windows integration (callbacks
  of the operating system); logging, start-up, command line, tray and shell extension. In the parts that are modelled,
  log lines, metrics and sleeping are left out, and in \<open>load_plaintext_chunk\<close> the cache and the peers, which stand in front
  of the packs.
\<close>

end
